(* ===== verification/E2M_Prelude.thy ===== *)
theory E2M_Prelude
  imports Main "HOL-Library.AList" "HOL-Library.Multiset" "HOL-Library.Signed_Division"
    "HOL-Library.Char_ord" "HOL-Library.List_Lexorder"
begin

text \<open>
  Shared vocabulary of the development: what the Go code uses of its language and of
  its standard library, and the generic lemmas the components share.

  \<^item> \<open>int64\<close> is \<open>int\<close> together with \<open>wrap64\<close>, which reduces a result into the two's
    complement range; every addition, subtraction or multiplication of the code on
    \<open>int64\<close> values is written with it. Go's division truncates: \<open>sdiv\<close>.
  \<^item> \<open>time.Time\<close> is the number of nanoseconds since Go's zero time, so \<open>IsZero\<close> is
    \<open>= 0\<close>; a nil pointer is \<open>None\<close>.
  \<^item> A Go map is an association list: lookup is \<open>map_of\<close>, assignment \<open>AList.update\<close>,
    \<open>delete\<close> is \<open>AList.delete\<close>, and \<open>range\<close> visits the list in order (Go leaves the
    order open, the theorems about lookups do not depend on it).
  \<^item> A string is its list of bytes. \<open>TrimSpace\<close> knows the UTF-8 encodings of Unicode
    white space; Go's \<open>s < t\<close> is the bytewise lexicographic order of \<open>List_Lexorder\<close>; \<open>ToUpper\<close>, \<open>ToLower\<close> and \<open>EqualFold\<close> map the ASCII letters.
  \<^item> \<open>sort.Slice\<close> with a comparator is \<open>go_sort\<close>; the locale \<open>strict_weak_order\<close> is
    what Go requires of the comparator and gives what the callers rely on.
  \<^item> \<open>reach\<close> and the locale \<open>invariant_system\<close> carry invariants over runs.
\<close>

named_theorems int64_simps \<open>rules that push or drop 64-bit wrap-around\<close>
named_theorems store_frame \<open>which part of the store an operation leaves alone\<close>

section \<open>64-bit integers\<close>

type_synonym int64 = int

definition wrap64 :: "int \<Rightarrow> int64" where
  "wrap64 x = (x + 2 ^ 63) mod 2 ^ 64 - 2 ^ 63"

definition in64 :: "int \<Rightarrow> bool" where
  "in64 x \<longleftrightarrow> - (2 ^ 63) \<le> x \<and> x < 2 ^ 63"

lemma in64_wrap64 [simp, intro]: "in64 (wrap64 x)"
  unfolding in64_def wrap64_def by (simp add: pos_mod_bound pos_mod_sign)

lemma wrap64_id: "in64 x \<Longrightarrow> wrap64 x = x"
  unfolding in64_def wrap64_def by simp

lemma wrap64_idem [simp, int64_simps]: "wrap64 (wrap64 x) = wrap64 x"
  by (rule wrap64_id) simp

lemma wrap64_eq_iff: "wrap64 x = wrap64 y \<longleftrightarrow> x mod 2 ^ 64 = y mod 2 ^ 64"
proof -
  have "wrap64 x = wrap64 y \<longleftrightarrow> (x + 2 ^ 63) mod 2 ^ 64 = (y + 2 ^ 63) mod 2 ^ 64"
    by (simp add: wrap64_def)
  also have "\<dots> \<longleftrightarrow> x mod 2 ^ 64 = y mod 2 ^ 64"
    by (simp only: mod_eq_dvd_iff) simp
  finally show ?thesis .
qed

lemma wrap64_mod [simp]: "wrap64 x mod 2 ^ 64 = x mod 2 ^ 64"
  using wrap64_eq_iff [of "wrap64 x" x] by simp

lemma wrap64_add_left [simp, int64_simps]: "wrap64 (wrap64 a + b) = wrap64 (a + b)"
  unfolding wrap64_eq_iff by (metis mod_add_left_eq wrap64_mod)

lemma wrap64_add_right [simp, int64_simps]: "wrap64 (a + wrap64 b) = wrap64 (a + b)"
  unfolding wrap64_eq_iff by (metis mod_add_right_eq wrap64_mod)

lemma wrap64_diff_left [simp, int64_simps]: "wrap64 (wrap64 a - b) = wrap64 (a - b)"
  unfolding wrap64_eq_iff by (metis mod_diff_left_eq wrap64_mod)

lemma wrap64_diff_right [simp, int64_simps]: "wrap64 (a - wrap64 b) = wrap64 (a - b)"
  unfolding wrap64_eq_iff by (metis mod_diff_right_eq wrap64_mod)

lemma wrap64_0 [simp]: "wrap64 0 = 0"
  by (simp add: wrap64_def)

section \<open>Contexts, times and durations\<close>

datatype context_error = Canceled | DeadlineExceeded

text \<open>What \<open>ctx.Err()\<close> returns: \<open>None\<close> while the context is live.\<close>

type_synonym ctx = "context_error option"

type_synonym time = int
type_synonym duration = int

abbreviation (input) Second :: duration where "Second \<equiv> 1000000000"
abbreviation (input) Minute :: duration where "Minute \<equiv> 60 * Second"
abbreviation (input) Hour :: duration where "Hour \<equiv> 60 * Minute"

definition IsZero :: "time \<Rightarrow> bool" where
  "IsZero t \<longleftrightarrow> t = 0"

text \<open>\<open>time.Time.Sub\<close> saturates at the ends of \<open>time.Duration\<close>.\<close>

definition time_Sub :: "time \<Rightarrow> time \<Rightarrow> duration" where
  "time_Sub t u = max (- (2 ^ 63)) (min (2 ^ 63 - 1) (t - u))"

text \<open>\<open>time.Time.Truncate\<close> rounds down to a multiple of the duration since the zero time.\<close>

definition time_Truncate :: "time \<Rightarrow> duration \<Rightarrow> time" where
  "time_Truncate t d = (if d \<le> 0 then t else t - t mod d)"

lemma time_Truncate_le: "time_Truncate t d \<le> t"
  by (simp add: time_Truncate_def)

lemma time_Truncate_gt: "0 < d \<Longrightarrow> t - d < time_Truncate t d"
  by (simp add: time_Truncate_def)

lemma time_Truncate_idem: "time_Truncate (time_Truncate t d) d = time_Truncate t d"
  by (simp add: time_Truncate_def minus_mod_eq_mult_div)

section \<open>Strings\<close>

definition byte :: "nat \<Rightarrow> char" where
  "byte n = char_of n"

text \<open>The UTF-8 encodings of the code points for which \<open>unicode.IsSpace\<close> holds.\<close>

definition space_seqs :: "string list" where
  "space_seqs = map (map byte)
     ([[9], [10], [11], [12], [13], [32], [194, 133], [194, 160], [225, 154, 128],
       [226, 128, 168], [226, 128, 169], [226, 128, 175], [226, 129, 159], [227, 128, 128]]
      @ map (\<lambda>k. [226, 128, 128 + k]) [0..<11])"

definition strip_seq :: "string list \<Rightarrow> string \<Rightarrow> string option" where
  "strip_seq seqs s =
     (case find (\<lambda>p. p \<noteq> [] \<and> take (length p) s = p) seqs of
        None \<Rightarrow> None
      | Some p \<Rightarrow> Some (drop (length p) s))"

lemma strip_seq_shorter: "strip_seq seqs s = Some t \<Longrightarrow> length t < length s"
proof -
  assume "strip_seq seqs s = Some t"
  then obtain p where p: "find (\<lambda>p. p \<noteq> [] \<and> take (length p) s = p) seqs = Some p"
    and t: "t = drop (length p) s"
    by (auto simp: strip_seq_def split: option.splits)
  from p have "p \<noteq> []" and "take (length p) s = p"
    by (auto simp: find_Some_iff)
  then show ?thesis using t by (cases s; cases p) auto
qed

function trim_left :: "string list \<Rightarrow> string \<Rightarrow> string" where
  "trim_left seqs s = (case strip_seq seqs s of None \<Rightarrow> s | Some t \<Rightarrow> trim_left seqs t)"
  by pat_completeness auto
termination
  by (relation "measure (\<lambda>(seqs, s). length s)") (auto dest: strip_seq_shorter)

declare trim_left.simps [simp del]

definition TrimSpace :: "string \<Rightarrow> string" where
  "TrimSpace s =
     rev (trim_left (map rev space_seqs) (rev (trim_left space_seqs s)))"

lemma trim_left_id: "strip_seq seqs s = None \<Longrightarrow> trim_left seqs s = s"
  by (simp add: trim_left.simps [of seqs s])

lemma strip_seq_NoneI:
  "(\<And>p. p \<in> set seqs \<Longrightarrow> p \<noteq> [] \<Longrightarrow> s = [] \<or> hd p \<noteq> hd s) \<Longrightarrow> strip_seq seqs s = None"
  unfolding strip_seq_def
  by (auto simp: find_None_iff split: option.splits)
     (metis find_Some_iff hd_take length_greater_0_conv list.size(3) nth_mem take_Nil)

definition toupper_byte :: "char \<Rightarrow> char" where
  "toupper_byte c = (let n = of_char c in if 97 \<le> n \<and> n \<le> (122::nat) then byte (n - 32) else c)"

definition tolower_byte :: "char \<Rightarrow> char" where
  "tolower_byte c = (let n = of_char c in if 65 \<le> n \<and> n \<le> (90::nat) then byte (n + 32) else c)"

definition ToUpper :: "string \<Rightarrow> string" where
  "ToUpper = map toupper_byte"

definition ToLower :: "string \<Rightarrow> string" where
  "ToLower = map tolower_byte"

definition EqualFold :: "string \<Rightarrow> string \<Rightarrow> bool" where
  "EqualFold s t \<longleftrightarrow> ToLower s = ToLower t"

definition is_digit :: "char \<Rightarrow> bool" where
  "is_digit c \<longleftrightarrow> 48 \<le> (of_char c :: nat) \<and> (of_char c :: nat) \<le> 57"

definition is_upper :: "char \<Rightarrow> bool" where
  "is_upper c \<longleftrightarrow> 65 \<le> (of_char c :: nat) \<and> (of_char c :: nat) \<le> 90"

definition is_lower :: "char \<Rightarrow> bool" where
  "is_lower c \<longleftrightarrow> 97 \<le> (of_char c :: nat) \<and> (of_char c :: nat) \<le> 122"

lemma toupper_byte_upper [simp]: "is_upper c \<Longrightarrow> toupper_byte c = c"
  by (auto simp: toupper_byte_def is_upper_def Let_def)

lemma ToUpper_upper: "(\<And>c. c \<in> set s \<Longrightarrow> is_upper c) \<Longrightarrow> ToUpper s = s"
  unfolding ToUpper_def by (rule map_idI) simp

definition plain :: "char \<Rightarrow> bool" where
  "plain c \<longleftrightarrow> 33 \<le> (of_char c :: nat) \<and> (of_char c :: nat) \<le> 126"

lemma is_upper_plain: "is_upper c \<Longrightarrow> plain c"
  by (simp add: is_upper_def plain_def)

lemma hd_space_seqs:
  "p \<in> set space_seqs \<Longrightarrow> p \<noteq> [] \<and> \<not> plain (hd p) \<and> \<not> plain (last p)"
  by (auto simp: space_seqs_def byte_def plain_def upt_rec)

lemma TrimSpace_plain:
  assumes "list_all plain s"
  shows "TrimSpace s = s"
proof -
  have left: "strip_seq space_seqs t = None" if "t = [] \<or> plain (hd t)" for t
    using that by (intro strip_seq_NoneI) (metis hd_space_seqs)
  have right: "strip_seq (map rev space_seqs) t = None" if "t = [] \<or> plain (hd t)" for t
    using that by (intro strip_seq_NoneI) (auto simp: hd_rev dest: hd_space_seqs)
  have "s = [] \<or> plain (hd s)" and "rev s = [] \<or> plain (hd (rev s))"
    using assms unfolding list_all_iff by (metis hd_in_set, metis hd_in_set set_rev)
  then show ?thesis
    by (simp add: TrimSpace_def trim_left_id left right)
qed

lemma TrimSpace_Nil [simp]: "TrimSpace [] = []"
  by (rule TrimSpace_plain) simp

lemma TrimSpace_upper: "(\<And>c. c \<in> set s \<Longrightarrow> is_upper c) \<Longrightarrow> TrimSpace s = s"
  by (rule TrimSpace_plain) (simp add: list_all_iff is_upper_plain)

subsection \<open>Decimal numerals\<close>

text \<open>\<open>strconv.FormatInt(n, 10)\<close> and the verb \<open>%04d\<close> of \<open>fmt.Sprintf\<close>.\<close>

fun dec :: "nat \<Rightarrow> string" where
  "dec n = (if n < 10 then [byte (48 + n)] else dec (n div 10) @ [byte (48 + n mod 10)])"

declare dec.simps [simp del]

definition FormatInt :: "int \<Rightarrow> string" where
  "FormatInt i = (if i < 0 then ''-'' @ dec (nat (- i)) else dec (nat i))"

definition pad4 :: "string \<Rightarrow> string" where
  "pad4 d = replicate (4 - length d) (CHR ''0'') @ d"

definition digit_val :: "char \<Rightarrow> nat" where
  "digit_val c = of_char c - 48"

definition digits_val :: "string \<Rightarrow> nat" where
  "digits_val = foldl (\<lambda>a c. a * 10 + digit_val c) 0"

lemma of_char_byte [simp]: "n < 256 \<Longrightarrow> of_char (byte n) = n"
  by (simp add: byte_def of_char_of)

lemma digit_val_byte [simp]: "n < 10 \<Longrightarrow> digit_val (byte (48 + n)) = n"
  by (simp add: digit_val_def)

lemma is_digit_byte [simp]: "n < 10 \<Longrightarrow> is_digit (byte (48 + n))"
  by (simp add: is_digit_def)

lemma digits_val_snoc: "digits_val (s @ [c]) = digits_val s * 10 + digit_val c"
  by (simp add: digits_val_def)

lemma digits_val_dec [simp]: "digits_val (dec n) = n"
proof (induction n rule: dec.induct)
  case (1 n)
  show ?case
  proof (cases "n < 10")
    case True
    then show ?thesis by (simp add: dec.simps [of n] digits_val_def)
  next
    case False
    with 1 show ?thesis by (simp add: dec.simps [of n] digits_val_snoc)
  qed
qed

lemma dec_inj [simp]: "dec m = dec n \<longleftrightarrow> m = n"
  by (metis digits_val_dec)

lemma dec_digits: "c \<in> set (dec n) \<Longrightarrow> is_digit c"
proof (induction n rule: dec.induct)
  case (1 n)
  then show ?case
    by (cases "n < 10") (auto simp: dec.simps [of n])
qed

lemma FormatInt_inj [simp]: "FormatInt i = FormatInt j \<longleftrightarrow> i = j"
proof -
  have "dec n \<noteq> ''-'' @ dec m" for n m
  proof
    assume "dec n = ''-'' @ dec m"
    then have "CHR ''-'' \<in> set (dec n)" by simp
    from dec_digits [OF this] show False by (simp add: is_digit_def)
  qed
  then show ?thesis
    by (auto simp: FormatInt_def split: if_splits) metis+
qed

lemma digits_val_zeros: "digits_val (replicate k (CHR ''0'') @ s) = digits_val s"
proof -
  have "foldl (\<lambda>a c. a * 10 + digit_val c) 0 (replicate k (CHR ''0'')) = 0"
    by (induction k) (simp_all add: digit_val_def)
  then show ?thesis by (simp add: digits_val_def)
qed

lemma pad4_dec_inj [simp]: "pad4 (dec m) = pad4 (dec n) \<longleftrightarrow> m = n"
  by (metis digits_val_dec digits_val_zeros pad4_def)

section \<open>Lists and Go maps\<close>

text \<open>The sum of a function over the values of a map, and how assignment changes it.\<close>

definition vsum :: "('v \<Rightarrow> int) \<Rightarrow> ('k \<times> 'v) list \<Rightarrow> int" where
  "vsum f m = sum_list (map (\<lambda>kv. f (snd kv)) m)"

lemma vsum_simps [simp]: "vsum f [] = 0" "vsum f (kv # m) = f (snd kv) + vsum f m"
  by (simp_all add: vsum_def)

lemma vsum_update:
  "vsum f (AList.update k v m) =
     vsum f m - (case map_of m k of None \<Rightarrow> 0 | Some u \<Rightarrow> f u) + f v"
  by (induction m) auto

lemma vsum_update_new: "map_of m k = None \<Longrightarrow> vsum f (AList.update k v m) = vsum f m + f v"
  by (simp add: vsum_update)

lemma vsum_update_old:
  "map_of m k = Some u \<Longrightarrow> vsum f (AList.update k v m) = vsum f m - f u + f v"
  by (simp add: vsum_update)

lemma set_AList_update_subset: "set (AList.update k v m) \<subseteq> insert (k, v) (set m)"
  by (induction m) auto

lemma AList_update_in: "(k, v) \<in> set (AList.update k v m)"
  by (induction m) auto

lemma AList_update_elim:
  assumes "(a, b) \<in> set (AList.update k v m)"
  obtains "a = k" "b = v" | "(a, b) \<in> set m" "a \<noteq> k \<or> \<not> distinct (map fst m)"
proof -
  have "(a = k \<and> b = v) \<or> ((a, b) \<in> set m \<and> (a \<noteq> k \<or> \<not> distinct (map fst m)))"
    using assms by (induction m) (force split: if_splits)+
  then show ?thesis using that by blast
qed

text \<open>Replacing the first element that satisfies a test: the loops
  \<open>for i := range xs { x := &xs[i]; if !p(x) { continue }; *x = f(*x); return }\<close>.\<close>

fun update_first :: "('a \<Rightarrow> bool) \<Rightarrow> ('a \<Rightarrow> 'a) \<Rightarrow> 'a list \<Rightarrow> 'a list" where
  "update_first p f [] = []"
| "update_first p f (x # xs) = (if p x then f x # xs else x # update_first p f xs)"

lemma update_first_none: "find p xs = None \<Longrightarrow> update_first p f xs = xs"
  by (induction xs) (auto split: if_splits)

lemma update_first_mset:
  "find p xs = Some x \<Longrightarrow> mset (update_first p f xs) = mset xs - {#x#} + {#f x#}"
  by (induction xs) (auto split: if_splits simp: find_Some_iff)

lemma set_update_first: "find p xs = Some x \<Longrightarrow> set (update_first p f xs) \<subseteq> insert (f x) (set xs)"
  by (induction xs) (auto split: if_splits)

lemma map_update_first:
  "(\<And>x. p x \<Longrightarrow> g (f x) = g x) \<Longrightarrow> map g (update_first p f xs) = map g xs"
  by (induction xs) auto

lemma find_update_first_same:
  "find p xs = Some x \<Longrightarrow> p (f x) \<Longrightarrow> find p (update_first p f xs) = Some (f x)"
  by (induction xs) (auto split: if_splits)

lemma find_SomeD: "find p xs = Some x \<Longrightarrow> x \<in> set xs \<and> p x"
  by (metis find_Some_iff nth_mem)

lemma find_append: "find p (xs @ ys) = (case find p xs of Some x \<Rightarrow> Some x | None \<Rightarrow> find p ys)"
  by (induction xs) auto

lemma find_distinct: "distinct (map f ys) \<Longrightarrow> y \<in> set ys \<Longrightarrow> find (\<lambda>z. f z = f y) ys = Some y"
  by (induction ys) (auto simp: rev_image_eqI)

text \<open>\<open>strings.Contains\<close>.\<close>

definition Contains :: "string \<Rightarrow> string \<Rightarrow> bool" where
  "Contains h k = list_ex (\<lambda>i. take (length k) (drop i h) = k) [0..<Suc (length h)]"

text \<open>
  The page arithmetic of the list operations, \<open>start := (page-1)*pageSize\<close>, \<open>end\<close> clamped
  to the length, \<open>xs[start:end]\<close>. A start that wraps around to a negative number is Go's
  slice-bounds panic: \<open>None\<close>.
\<close>

definition page_slice :: "int \<Rightarrow> int \<Rightarrow> 'a list \<Rightarrow> 'a list option" where
  "page_slice page pageSize xs =
     (let start = wrap64 ((page - 1) * pageSize) in
      if start < 0 then None
      else if int (length xs) \<le> start then Some []
      else Some (take (nat pageSize) (drop (nat start) xs)))"

lemma page_slice_exact:
  assumes "1 \<le> page" "0 \<le> psz" "(page - 1) * psz < 2 ^ 63"
  shows "page_slice page psz xs = Some (take (nat psz) (drop (nat ((page - 1) * psz)) xs))"
proof -
  have nn: "0 \<le> (page - 1) * psz" using assms by simp
  with assms(3) have "wrap64 ((page - 1) * psz) = (page - 1) * psz"
    by (intro wrap64_id) (simp add: in64_def)
  moreover have "drop (nat ((page - 1) * psz)) xs = []" if "int (length xs) \<le> (page - 1) * psz"
    using that by (intro drop_all) linarith
  ultimately show ?thesis using nn by (auto simp: page_slice_def Let_def)
qed

text \<open>The pages in order are the list: nothing is skipped and nothing is repeated.\<close>

lemma page_slices_concat:
  assumes "1 \<le> psz" "int n * psz < 2 ^ 63"
  shows "concat (map (\<lambda>p. the (page_slice (int p + 1) psz xs)) [0..<n]) = take (n * nat psz) xs"
  using assms
proof (induction n)
  case (Suc n)
  have n: "int n * psz \<le> int (Suc n) * psz" using Suc.prems by (simp add: mult_right_mono)
  have lt: "int n * psz < 2 ^ 63" using le_less_trans [OF n Suc.prems(2)] .
  have "page_slice (int n + 1) psz xs = Some (take (nat psz) (drop (nat (int n * psz)) xs))"
    using Suc.prems(1) lt by (subst page_slice_exact) simp_all
  moreover have "nat (int n * psz) = n * nat psz" using Suc.prems by (simp add: nat_mult_distrib)
  moreover have "concat (map (\<lambda>p. the (page_slice (int p + 1) psz xs)) [0..<n]) = take (n * nat psz) xs"
    using Suc.IH [OF Suc.prems(1) lt] .
  moreover have "take (Suc n * nat psz) xs = take (n * nat psz) xs @ take (nat psz) (drop (n * nat psz) xs)"
    by (simp add: take_add [symmetric] add.commute)
  ultimately show ?case by simp
qed simp

section \<open>Sorting with a comparator\<close>

fun insert_by :: "('a \<Rightarrow> 'a \<Rightarrow> bool) \<Rightarrow> 'a \<Rightarrow> 'a list \<Rightarrow> 'a list" where
  "insert_by lt x [] = [x]"
| "insert_by lt x (y # ys) = (if lt y x then y # insert_by lt x ys else x # y # ys)"

definition go_sort :: "('a \<Rightarrow> 'a \<Rightarrow> bool) \<Rightarrow> 'a list \<Rightarrow> 'a list" where
  "go_sort lt xs = foldr (insert_by lt) xs []"

lemma go_sort_simps [simp]:
  "go_sort lt [] = []" "go_sort lt (x # xs) = insert_by lt x (go_sort lt xs)"
  by (simp_all add: go_sort_def)

lemma mset_insert_by [simp]: "mset (insert_by lt x ys) = add_mset x (mset ys)"
  by (induction ys) auto

lemma mset_go_sort [simp]: "mset (go_sort lt xs) = mset xs"
  by (induction xs) auto

lemma set_go_sort [simp]: "set (go_sort lt xs) = set xs"
  by (metis mset_go_sort set_mset_mset)

lemma length_go_sort [simp]: "length (go_sort lt xs) = length xs"
  by (metis mset_go_sort size_mset)

lemma go_sort_Nil_iff [simp]: "go_sort lt xs = [] \<longleftrightarrow> xs = []"
  by (metis length_0_conv length_go_sort)

text \<open>What \<open>sort.Slice\<close> requires of its comparator.\<close>

locale strict_weak_order =
  fixes lt :: "'a \<Rightarrow> 'a \<Rightarrow> bool"
  assumes less_asym: "lt x y \<Longrightarrow> \<not> lt y x"
    and not_less_trans: "\<not> lt y x \<Longrightarrow> \<not> lt z y \<Longrightarrow> \<not> lt z x"
begin

lemma sorted_insert_by:
  "sorted_wrt (\<lambda>x y. \<not> lt y x) ys \<Longrightarrow> sorted_wrt (\<lambda>x y. \<not> lt y x) (insert_by lt x ys)"
proof (induction ys)
  case Nil
  then show ?case by simp
next
  case (Cons y ys)
  have set_ins: "set (insert_by lt x ys) = insert x (set ys)"
    by (metis mset_insert_by set_mset_add_mset_insert set_mset_mset)
  show ?case
  proof (cases "lt y x")
    case True
    with Cons show ?thesis by (auto simp: set_ins dest: less_asym)
  next
    case False
    with Cons.prems show ?thesis using not_less_trans by auto
  qed
qed

lemma sorted_go_sort: "sorted_wrt (\<lambda>x y. \<not> lt y x) (go_sort lt xs)"
  by (induction xs) (simp_all add: sorted_insert_by)

text \<open>The first element of the result is one no other element precedes.\<close>

lemma hd_go_sort_minimal: "y \<in> set xs \<Longrightarrow> \<not> lt y (hd (go_sort lt xs))"
proof -
  assume y: "y \<in> set xs"
  then obtain z zs where zs: "go_sort lt xs = z # zs"
    by (cases "go_sort lt xs") (auto simp flip: set_go_sort [of lt xs])
  have "y \<in> set (go_sort lt xs)" using y by simp
  moreover have "\<forall>u \<in> set zs. \<not> lt u z"
    using sorted_go_sort [of xs] zs by simp
  moreover have "\<not> lt z z" using less_asym by blast
  ultimately show ?thesis using zs by auto
qed

text \<open>Elements the comparator does not tell apart keep their order: the sort is stable.\<close>

lemma stable_insert_by:
  assumes "sorted_wrt (\<lambda>x y. \<not> lt y x) ys"
  shows "filter (\<lambda>z. \<not> lt z k \<and> \<not> lt k z) (insert_by lt x ys) =
         filter (\<lambda>z. \<not> lt z k \<and> \<not> lt k z) (x # ys)"
  using assms
proof (induction ys)
  case Nil
  then show ?case by simp
next
  case (Cons y ys)
  show ?case
  proof (cases "lt y x")
    case True
    have "\<not> (\<not> lt x k \<and> \<not> lt k x \<and> \<not> lt y k \<and> \<not> lt k y)"
      using True not_less_trans [of k x y] by blast
    with True Cons show ?thesis by (auto split: if_splits)
  next
    case False
    then show ?thesis by simp
  qed
qed

lemma stable_go_sort:
  "filter (\<lambda>z. \<not> lt z k \<and> \<not> lt k z) (go_sort lt xs) =
   filter (\<lambda>z. \<not> lt z k \<and> \<not> lt k z) xs"
  by (induction xs) (simp_all add: stable_insert_by sorted_go_sort)

end

text \<open>Comparing a key of a linear order is such a comparator.\<close>

lemma strict_weak_order_key:
  fixes f :: "'a \<Rightarrow> 'b::linorder"
  shows "strict_weak_order (\<lambda>x y. f x < f y)"
  by unfold_locales auto

section \<open>Reachable states and invariants\<close>

inductive reach :: "('s \<Rightarrow> bool) \<Rightarrow> ('s \<Rightarrow> 's \<Rightarrow> bool) \<Rightarrow> 's \<Rightarrow> bool"
  for init :: "'s \<Rightarrow> bool" and step :: "'s \<Rightarrow> 's \<Rightarrow> bool" where
  reach_init: "init s \<Longrightarrow> reach init step s"
| reach_step: "reach init step s \<Longrightarrow> step s t \<Longrightarrow> reach init step t"

text \<open>The contract of a component whose steps keep an invariant.\<close>

locale invariant_system =
  fixes init :: "'s \<Rightarrow> bool"
    and step :: "'s \<Rightarrow> 's \<Rightarrow> bool"
    and inv :: "'s \<Rightarrow> bool"
  assumes inv_init: "init s \<Longrightarrow> inv s"
    and inv_step: "inv s \<Longrightarrow> step s t \<Longrightarrow> inv t"
begin

lemma reach_inv: "reach init step s \<Longrightarrow> inv s"
  by (induction rule: reach.induct) (auto intro: inv_init inv_step)

lemma reach_run: "inv s \<Longrightarrow> step\<^sup>*\<^sup>* s t \<Longrightarrow> inv t"
  by (rotate_tac 1, induction rule: rtranclp_induct) (auto intro: inv_step)

end

text \<open>
  The contract of an effect that must happen at most once per key: a key is open until the
  effect happens, and the effect happens only to an open key and closes it.
\<close>

locale exactly_once = invariant_system init step ok
  for init :: "'s \<Rightarrow> bool" and step :: "'s \<Rightarrow> 's \<Rightarrow> bool" and ok :: "'s \<Rightarrow> bool" +
  fixes is_open :: "'s \<Rightarrow> 'k \<Rightarrow> bool"
    and posted :: "'s \<Rightarrow> 'k \<Rightarrow> nat"
  assumes posted_init: "init s \<Longrightarrow> posted s k = 0"
    and posted_step: "ok s \<Longrightarrow> step s t \<Longrightarrow>
      (posted t k = posted s k \<and> (is_open t k \<longrightarrow> is_open s k)) \<or>
      (posted t k = Suc (posted s k) \<and> is_open s k \<and> \<not> is_open t k)"
begin

lemma reach_once: "reach init step s \<Longrightarrow> posted s k \<le> 1 \<and> (is_open s k \<longrightarrow> posted s k = 0)"
proof (induction rule: reach.induct)
  case (reach_init s)
  then show ?case by (simp add: posted_init)
next
  case (reach_step s t)
  from reach_step.hyps(1) have "ok s" by (rule reach_inv)
  from posted_step [OF this reach_step.hyps(2), of k] reach_step.IH show ?case by auto
qed

text \<open>Once the effect has happened it never happens again.\<close>

lemma run_once:
  assumes "reach init step s" and "posted s k = 1" and "step\<^sup>*\<^sup>* s t"
  shows "posted t k = 1"
  using assms(3,1,2)
proof (induction rule: rtranclp_induct)
  case (step t u)
  have t: "reach init step t"
    using step.hyps(1) step.prems(1) by (induction rule: rtranclp_induct) (auto intro: reach_step)
  then have "ok t" by (rule reach_inv)
  from posted_step [OF this step.hyps(2), of k] step.IH [OF step.prems] reach_once [OF t, of k]
  show ?case by auto
qed

end

end
