(* ===== verification/Go_Float.thy ===== *)
theory Go_Float
  imports E2M_Prelude "HOL-Library.Log_Nat" Complex_Main
begin

text \<open>
  Go's \<open>float64\<close>. \<open>f64\<close> rounds a rational to the nearest double, ties to even, with the
  subnormal range; \<open>float64\<close> adds the infinities and NaN, and the arithmetic and the
  comparisons of IEEE 754 on them. The sign of zero is not represented: the code divides by
  positive numbers only. Products and sums are rounded separately, as on amd64.
\<close>

section \<open>Rounding\<close>

definition round_half_even :: "rat \<Rightarrow> int" where
  "round_half_even z =
     (let f = \<lfloor>z\<rfloor>; d = z - of_int f in
      if d < 1 / 2 then f else if 1 / 2 < d then f + 1 else if even f then f else f + 1)"

definition f64_exp :: "rat \<Rightarrow> int" where
  "f64_exp x = (if 1 \<le> x then int (floorlog 2 (nat \<lfloor>x\<rfloor>)) - 1 else - int (floorlog 2 (nat (\<lceil>1 / x\<rceil> - 1))))"

definition f64_quantum :: "rat \<Rightarrow> rat" where
  "f64_quantum x = 2 powi max (f64_exp x - 52) (- 1074)"

definition f64 :: "rat \<Rightarrow> rat" where
  "f64 x = (if x = 0 then 0 else let q = f64_quantum \<bar>x\<bar> in of_int (round_half_even (x / q)) * q)"

lemma round_half_even_of_int [simp]: "round_half_even (of_int n) = n"
  by (simp add: round_half_even_def)

lemma round_half_even_bounds: "\<lfloor>z\<rfloor> \<le> round_half_even z" "round_half_even z \<le> \<lfloor>z\<rfloor> + 1"
  by (simp_all add: round_half_even_def Let_def)

lemma round_half_even_near: "\<bar>of_int (round_half_even z) - z\<bar> \<le> 1 / 2"
  using floor_correct [of z] by (auto simp: round_half_even_def Let_def abs_le_iff)

lemma round_half_even_mono: "z \<le> w \<Longrightarrow> round_half_even z \<le> round_half_even w"
proof (cases "\<lfloor>z\<rfloor> < \<lfloor>w\<rfloor>")
  case True
  then show ?thesis using round_half_even_bounds [of z] round_half_even_bounds [of w] by linarith
next
  case False
  moreover assume "z \<le> w"
  ultimately have "\<lfloor>z\<rfloor> = \<lfloor>w\<rfloor>" using floor_mono [of z w] by linarith
  with \<open>z \<le> w\<close> show ?thesis by (auto simp: round_half_even_def Let_def)
qed

lemma floorlog_pow:
  assumes "0 < (n::nat)"
  shows "(2::rat) ^ (floorlog 2 n - 1) \<le> of_nat n" "of_nat n + 1 \<le> (2::rat) ^ floorlog 2 n"
    "1 \<le> floorlog 2 n"
proof -
  have b: "2 ^ (floorlog 2 n - 1) \<le> n" "n + 1 \<le> 2 ^ floorlog 2 n"
    using floorlog_bounds [of n 2] assms by auto
  then have "(of_nat (2 ^ (floorlog 2 n - 1))::rat) \<le> of_nat n" "(of_nat (n + 1)::rat) \<le> of_nat (2 ^ floorlog 2 n)"
    by (simp_all only: of_nat_le_iff)
  then show "(2::rat) ^ (floorlog 2 n - 1) \<le> of_nat n" "of_nat n + 1 \<le> (2::rat) ^ floorlog 2 n" by simp_all
  show "1 \<le> floorlog 2 n" using b(2) assms by (cases "floorlog 2 n") auto
qed

text \<open>The exponent of a positive number.\<close>

lemma f64_exp_bounds:
  assumes "0 < x"
  shows "2 powi f64_exp x \<le> x" "x < 2 powi (f64_exp x + 1)"
proof -
  have "2 powi f64_exp x \<le> x \<and> x < 2 powi (f64_exp x + 1)"
  proof (cases "1 \<le> x")
    case True
    define n where "n = nat \<lfloor>x\<rfloor>"
    have n: "0 < n" "of_nat n \<le> x" "x < of_nat n + 1"
      using True floor_correct [of x] by (simp_all add: n_def of_nat_nat)
    note L = floorlog_pow [OF n(1)]
    have e: "f64_exp x = int (floorlog 2 n - 1)" "f64_exp x + 1 = int (floorlog 2 n)"
      using True L(3) by (simp_all add: f64_exp_def n_def)
    have "2 powi f64_exp x \<le> x" unfolding e(1) power_int_of_nat using L(1) n(2) by linarith
    moreover have "x < 2 powi (f64_exp x + 1)" unfolding e(2) power_int_of_nat using L(2) n(3) by linarith
    ultimately show ?thesis ..
  next
    case False
    define m where "m = nat (\<lceil>1 / x\<rceil> - 1)"
    have c: "1 < 1 / x" using False assms by simp
    have c1: "2 \<le> \<lceil>1 / x\<rceil>" using c less_ceiling_iff [of 1 "1 / x"] unfolding of_int_1 by linarith
    then have "int m = \<lceil>1 / x\<rceil> - 1" unfolding m_def by linarith
    then have r: "of_nat m = of_int \<lceil>1 / x\<rceil> - (1::rat)" by (metis of_int_1 of_int_diff of_int_of_nat_eq)
    have m: "0 < m" "of_nat m < 1 / x" "1 / x \<le> of_nat m + 1"
      using c1 ceiling_correct [of "1 / x"] unfolding r by (simp_all add: m_def)
    note L = floorlog_pow [OF m(1)]
    have e: "f64_exp x = - int (floorlog 2 m)" "f64_exp x + 1 = - int (floorlog 2 m - 1)"
      using False L(3) by (simp_all add: f64_exp_def m_def)
    have "1 / x \<le> 2 ^ floorlog 2 m" using L(2) m(3) by linarith
    then have "2 powi f64_exp x \<le> x"
      unfolding e(1) power_int_minus power_int_of_nat using assms by (simp add: field_simps)
    moreover have "2 ^ (floorlog 2 m - 1) < 1 / x" using L(1) m(2) by linarith
    then have "x < 2 powi (f64_exp x + 1)"
      unfolding e(2) power_int_minus power_int_of_nat using assms by (simp add: field_simps)
    ultimately show ?thesis ..
  qed
  then show "2 powi f64_exp x \<le> x" "x < 2 powi (f64_exp x + 1)" by auto
qed

lemma powi_two_pos [simp]: "0 < (2::rat) powi k"
  by (simp add: zero_less_power_int)

lemma powi_two_less_iff: "(2::rat) powi j < 2 powi k \<longleftrightarrow> j < k"
  using power_int_strict_increasing [of j k "2::rat"] power_int_strict_increasing [of k j "2::rat"] by (cases j k rule: linorder_cases) auto

lemma powi_two_le_iff: "(2::rat) powi j \<le> 2 powi k \<longleftrightarrow> j \<le> k"
  by (simp add: powi_two_less_iff flip: not_less)

lemma powi_two_quotient: "j \<le> k \<Longrightarrow> (2::rat) powi k = of_int (2 ^ nat (k - j)) * 2 powi j"
  using power_int_add [of "2::rat" "int (nat (k - j))" j] by (simp only: power_int_of_nat) simp

lemma f64_quantum_pos [simp]: "0 < f64_quantum x"
  by (simp add: f64_quantum_def)

lemma f64_zero [simp]: "f64 0 = 0"
  by (simp add: f64_def)

text \<open>A multiple of the quantum of a number bounds its rounding from either side.\<close>

lemma f64_le_multiple:
  assumes "x \<noteq> 0" "x \<le> of_int n * f64_quantum \<bar>x\<bar>"
  shows "f64 x \<le> of_int n * f64_quantum \<bar>x\<bar>"
proof -
  have "x / f64_quantum \<bar>x\<bar> \<le> of_int n" using assms(2) by (simp add: divide_le_eq)
  from round_half_even_mono [OF this] have "round_half_even (x / f64_quantum \<bar>x\<bar>) \<le> n" by simp
  then show ?thesis using assms(1) by (simp add: f64_def Let_def)
qed

lemma multiple_le_f64:
  assumes "x \<noteq> 0" "of_int n * f64_quantum \<bar>x\<bar> \<le> x"
  shows "of_int n * f64_quantum \<bar>x\<bar> \<le> f64 x"
proof -
  have "of_int n \<le> x / f64_quantum \<bar>x\<bar>" using assms(2) by (simp add: le_divide_eq)
  from round_half_even_mono [OF this] have "n \<le> round_half_even (x / f64_quantum \<bar>x\<bar>)" by simp
  then show ?thesis using assms(1) by (simp add: f64_def Let_def)
qed

lemma f64_multiple: "x = of_int n * f64_quantum \<bar>x\<bar> \<Longrightarrow> f64 x = x"
  using f64_le_multiple [of x n] multiple_le_f64 [of x n] by (cases "x = 0") auto

lemma f64_sign: "0 \<le> x \<Longrightarrow> 0 \<le> f64 x" "x \<le> 0 \<Longrightarrow> f64 x \<le> 0"
  using multiple_le_f64 [of x 0] f64_le_multiple [of x 0] by (cases "x = 0"; simp)+

text \<open>Representable numbers are not rounded.\<close>

lemma f64_exact:
  assumes "x = of_int m * 2 powi k" "\<bar>m\<bar> < 2 ^ 53" "- 1074 \<le> k"
  shows "f64 x = x"
proof (cases "x = 0")
  case False
  let ?kx = "max (f64_exp \<bar>x\<bar> - 52) (- 1074)"
  have "2 powi f64_exp \<bar>x\<bar> \<le> \<bar>x\<bar>" using f64_exp_bounds(1) [of "\<bar>x\<bar>"] False by simp
  also have "\<bar>x\<bar> = of_int \<bar>m\<bar> * 2 powi k" by (simp add: assms(1) abs_mult)
  also have "\<dots> < 2 ^ 53 * 2 powi k"
  proof (rule mult_strict_right_mono)
    have "(of_int \<bar>m\<bar>::rat) < of_int (2 ^ 53)" using assms(2) by (simp only: of_int_less_iff)
    then show "(of_int \<bar>m\<bar>::rat) < 2 ^ 53" by simp
  qed simp
  also have "\<dots> = 2 powi (53 + k)" by (simp add: power_int_add)
  finally have "f64_exp \<bar>x\<bar> < 53 + k" by (simp add: powi_two_less_iff)
  then have "?kx \<le> k" using assms(3) by simp
  from powi_two_quotient [OF this] have "x = of_int (m * 2 ^ nat (k - ?kx)) * f64_quantum \<bar>x\<bar>"
    unfolding f64_quantum_def assms(1) by simp
  then show ?thesis by (rule f64_multiple)
qed simp

lemma f64_of_int: "\<bar>m\<bar> < 2 ^ 53 \<Longrightarrow> f64 (of_int m) = of_int m"
  by (rule f64_exact [of _ m 0]) auto

lemma f64_quantum_minus [simp]: "f64 (- x) = - f64 x"
proof -
  have "round_half_even (- z) = - round_half_even z" for z
  proof (cases "z = of_int \<lfloor>z\<rfloor>")
    case True
    then show ?thesis by (metis of_int_minus round_half_even_of_int)
  next
    case False
    then have "\<lfloor>- z\<rfloor> = - \<lfloor>z\<rfloor> - 1" by (metis add.commute ceiling_altdef ceiling_def minus_diff_eq minus_minus uminus_add_conv_diff)
    then show ?thesis using floor_correct [of z] False
      by (auto simp: round_half_even_def Let_def)
  qed
  then show ?thesis by (simp add: f64_def Let_def)
qed

lemma f64_exp_mono: "0 < x \<Longrightarrow> x \<le> y \<Longrightarrow> f64_exp x \<le> f64_exp y"
proof -
  assume x: "0 < x" "x \<le> y"
  have "(2::rat) powi f64_exp x < 2 powi (f64_exp y + 1)"
    using f64_exp_bounds(1) [OF x(1)] f64_exp_bounds(2) [of y] x by linarith
  then show ?thesis by (simp add: powi_two_less_iff)
qed

lemma f64_mono_pos:
  assumes "0 < x" "x \<le> y"
  shows "f64 x \<le> f64 y"
proof (cases "f64_quantum x = f64_quantum y")
  case True
  have "round_half_even (x / f64_quantum y) \<le> round_half_even (y / f64_quantum y)"
    by (rule round_half_even_mono) (use assms in \<open>simp add: divide_right_mono less_imp_le\<close>)
  then show ?thesis using assms True by (simp add: f64_def Let_def)
next
  case False
  let ?e = "f64_exp y" and ?kx = "max (f64_exp x - 52) (- 1074)" and ?ky = "max (f64_exp y - 52) (- 1074)"
  have "?kx \<noteq> ?ky" using False unfolding f64_quantum_def by metis
  then have ky: "?ky = ?e - 52" "f64_exp x < ?e" "?kx \<le> ?e"
    using f64_exp_mono [OF assms] by linarith+
  have "x < 2 powi (f64_exp x + 1)" by (rule f64_exp_bounds(2) [OF assms(1)])
  also have "\<dots> \<le> 2 powi ?e" using ky(2) by (simp add: powi_two_le_iff)
  finally have "x \<le> 2 powi ?e" by simp
  then have "f64 x \<le> 2 powi ?e"
    using f64_le_multiple [of x "2 ^ nat (?e - ?kx)"] powi_two_quotient [OF ky(3)] assms(1)
    by (simp add: f64_quantum_def)
  also have "(2::rat) powi ?e = of_int (2 ^ 52) * 2 powi (?e - 52)" by (simp add: powi_two_quotient [of "?e - 52" ?e])
  also have "\<dots> \<le> f64 y"
  proof -
    have q: "f64_quantum \<bar>y\<bar> = 2 powi (?e - 52)" using assms ky(1) by (simp add: f64_quantum_def)
    have "(2::rat) powi ?e \<le> y" using f64_exp_bounds(1) [of y] assms by simp
    then show ?thesis using multiple_le_f64 [of y "2 ^ 52"] powi_two_quotient [of "?e - 52" ?e] assms
      unfolding q by simp
  qed
  finally show ?thesis .
qed

lemma f64_mono: "x \<le> y \<Longrightarrow> f64 x \<le> f64 y"
proof -
  assume xy: "x \<le> y"
  consider "0 < x" | "x \<le> 0" "0 \<le> y" | "y < 0" by linarith
  then show ?thesis
  proof cases
    case 2
    then show ?thesis using f64_sign(2) [of x] f64_sign(1) [of y] by linarith
  next
    case 3
    then show ?thesis using f64_mono_pos [of "- y" "- x"] xy by simp
  qed (rule f64_mono_pos [OF _ xy])
qed

lemma f64_le_int: "x \<le> of_int m \<Longrightarrow> \<bar>m\<bar> < 2 ^ 53 \<Longrightarrow> f64 x \<le> of_int m"
  using f64_mono [of x "of_int m"] f64_of_int [of m] by simp

lemma int_le_f64: "of_int m \<le> x \<Longrightarrow> \<bar>m\<bar> < 2 ^ 53 \<Longrightarrow> of_int m \<le> f64 x"
  using f64_mono [of "of_int m" x] f64_of_int [of m] by simp

section \<open>The type\<close>

datatype float64 = Fin rat | PInf | NInf | NaN

text \<open>The rounded result of an operation; beyond the largest finite double it is an infinity.\<close>

definition round64 :: "rat \<Rightarrow> float64" where
  "round64 x = (let y = f64 x in if 2 ^ 1024 \<le> y then PInf else if y \<le> - (2 ^ 1024) then NInf else Fin y)"

fun IsNaN :: "float64 \<Rightarrow> bool" where
  "IsNaN NaN = True"
| "IsNaN _ = False"

text \<open>\<open>math.IsInf(v, 0)\<close>.\<close>

fun IsInf :: "float64 \<Rightarrow> bool" where
  "IsInf PInf = True"
| "IsInf NInf = True"
| "IsInf _ = False"

definition of_sign :: "rat \<Rightarrow> float64" where
  "of_sign s = (if 0 < s then PInf else if s < 0 then NInf else NaN)"

fun fneg :: "float64 \<Rightarrow> float64" where
  "fneg (Fin a) = Fin (- a)"
| "fneg PInf = NInf"
| "fneg NInf = PInf"
| "fneg NaN = NaN"

fun fadd :: "float64 \<Rightarrow> float64 \<Rightarrow> float64" where
  "fadd (Fin a) (Fin b) = round64 (a + b)"
| "fadd NaN _ = NaN"
| "fadd _ NaN = NaN"
| "fadd PInf NInf = NaN"
| "fadd NInf PInf = NaN"
| "fadd PInf _ = PInf"
| "fadd _ PInf = PInf"
| "fadd NInf _ = NInf"
| "fadd _ NInf = NInf"

definition fsub :: "float64 \<Rightarrow> float64 \<Rightarrow> float64" where
  "fsub a b = fadd a (fneg b)"

text \<open>The sign of a number, for the products and quotients of infinities.\<close>

fun fsgn :: "float64 \<Rightarrow> rat" where
  "fsgn (Fin a) = sgn a"
| "fsgn PInf = 1"
| "fsgn NInf = - 1"
| "fsgn NaN = 0"

fun fmul :: "float64 \<Rightarrow> float64 \<Rightarrow> float64" where
  "fmul (Fin a) (Fin b) = round64 (a * b)"
| "fmul NaN _ = NaN"
| "fmul _ NaN = NaN"
| "fmul a b = of_sign (fsgn a * fsgn b)"

fun fdiv :: "float64 \<Rightarrow> float64 \<Rightarrow> float64" where
  "fdiv (Fin a) (Fin b) = (if b = 0 then of_sign a else round64 (a / b))"
| "fdiv NaN _ = NaN"
| "fdiv _ NaN = NaN"
| "fdiv (Fin _) _ = Fin 0"
| "fdiv a (Fin b) = of_sign (fsgn a * (if b < 0 then - 1 else 1))"
| "fdiv _ _ = NaN"

text \<open>Comparisons with NaN are false.\<close>

fun flt :: "float64 \<Rightarrow> float64 \<Rightarrow> bool" where
  "flt (Fin a) (Fin b) \<longleftrightarrow> a < b"
| "flt NaN _ \<longleftrightarrow> False"
| "flt _ NaN \<longleftrightarrow> False"
| "flt PInf _ \<longleftrightarrow> False"
| "flt _ NInf \<longleftrightarrow> False"
| "flt NInf _ \<longleftrightarrow> True"
| "flt _ PInf \<longleftrightarrow> True"

definition feq :: "float64 \<Rightarrow> float64 \<Rightarrow> bool" where
  "feq a b \<longleftrightarrow> a = b \<and> a \<noteq> NaN"

definition fle :: "float64 \<Rightarrow> float64 \<Rightarrow> bool" where
  "fle a b \<longleftrightarrow> flt a b \<or> feq a b"

text \<open>\<open>float64(n)\<close>, and \<open>int64(x)\<close>, which truncates; outside of the range amd64 yields the
  least integer.\<close>

definition float64_of_int :: "int \<Rightarrow> float64" where
  "float64_of_int n = round64 (of_int n)"

definition truncate_rat :: "rat \<Rightarrow> int" where
  "truncate_rat a = (if 0 \<le> a then \<lfloor>a\<rfloor> else \<lceil>a\<rceil>)"

fun int64_of_float :: "float64 \<Rightarrow> int64" where
  "int64_of_float (Fin a) = (if in64 (truncate_rat a) then truncate_rat a else - (2 ^ 63))"
| "int64_of_float _ = - (2 ^ 63)"

text \<open>\<open>math.Pow(2, float64(n))\<close> for \<open>n \<ge> 0\<close>.\<close>

definition pow2 :: "int \<Rightarrow> float64" where
  "pow2 n = (if n < 1024 then Fin (2 ^ nat n) else PInf)"

lemmas float_defs = fsub_def feq_def fle_def float64_of_int_def of_sign_def

lemma flt_irrefl [simp]: "\<not> flt a a"
  by (cases a) auto

lemma flt_trans: "flt a b \<Longrightarrow> flt b c \<Longrightarrow> flt a c"
  by (cases a; cases b; cases c) auto

lemma flt_asym: "flt a b \<Longrightarrow> \<not> flt b a"
  using flt_trans by fastforce

lemma flt_total: "a \<noteq> NaN \<Longrightarrow> b \<noteq> NaN \<Longrightarrow> flt a b \<or> a = b \<or> flt b a"
  by (cases a; cases b) auto

lemma fle_Fin [simp]: "fle (Fin a) (Fin b) \<longleftrightarrow> a \<le> b" and feq_Fin [simp]: "feq (Fin a) (Fin b) \<longleftrightarrow> a = b"
  by (auto simp: float_defs)

lemma round64_Fin:
  assumes "\<bar>x\<bar> \<le> of_int m" "m < 2 ^ 53"
  shows "round64 x = Fin (f64 x)"
proof -
  have "(0::rat) \<le> of_int m" using assms(1) by (rule order_trans [OF abs_ge_zero])
  then have m: "\<bar>m\<bar> < 2 ^ 53" "\<bar>- m\<bar> < 2 ^ 53" using assms(2) by simp_all
  have "x \<le> of_int m" "of_int (- m) \<le> x" using assms(1) by (simp_all add: abs_le_iff)
  from f64_le_int [OF this(1) m(1)] int_le_f64 [OF this(2) m(2)]
  have b: "f64 x \<le> of_int m" "- of_int m \<le> f64 x" by simp_all
  have "(of_int m::rat) < of_int (2 ^ 53)" using assms(2) by (simp only: of_int_less_iff)
  also have "(of_int (2 ^ 53)::rat) \<le> 2 ^ 1024" by simp
  finally have "(of_int m::rat) < 2 ^ 1024" .
  with b show ?thesis unfolding round64_def Let_def by auto
qed

lemma round64_int: "\<bar>m\<bar> < 2 ^ 53 \<Longrightarrow> round64 (of_int m) = Fin (of_int m)"
  using round64_Fin [of "of_int m" "\<bar>m\<bar>"] by (simp add: f64_of_int)

lemma f64_pow2: "f64 (2 ^ n) = 2 ^ n"
  by (rule f64_exact [of _ 1 "int n"]) auto

lemma f64_le_pow2: "x \<le> 2 ^ n \<Longrightarrow> f64 x \<le> 2 ^ n"
  using f64_mono [of x "2 ^ n"] by (simp add: f64_pow2)

lemma round64_bounded:
  assumes "\<bar>x\<bar> \<le> 2 ^ n" "n < 1024"
  shows "round64 x = Fin (f64 x)"
proof -
  have "f64 x \<le> 2 ^ n" "- f64 x \<le> 2 ^ n" using f64_le_pow2 [of x n] f64_le_pow2 [of "- x" n] assms(1) by auto
  moreover have "(2::rat) ^ n < 2 ^ 1024" using assms(2) by (rule power_strict_increasing) simp
  ultimately show ?thesis unfolding round64_def Let_def by auto
qed

text \<open>The finite values a variable of type \<open>float64\<close> can have.\<close>

definition wf64 :: "float64 \<Rightarrow> bool" where
  "wf64 x \<longleftrightarrow> (case x of Fin a \<Rightarrow> f64 a = a \<and> \<bar>a\<bar> < 2 ^ 1024 | _ \<Rightarrow> True)"

lemma wf64_Fin: "wf64 (Fin a) \<longleftrightarrow> f64 a = a \<and> \<bar>a\<bar> < 2 ^ 1024"
  by (simp add: wf64_def)

lemma wf64_int: "\<bar>m\<bar> < 2 ^ 53 \<Longrightarrow> wf64 (Fin (of_int m))"
proof -
  assume m: "\<bar>m\<bar> < 2 ^ 53"
  then have "(of_int \<bar>m\<bar>::rat) < of_int (2 ^ 53)" by (simp only: of_int_less_iff)
  also have "(of_int (2 ^ 53)::rat) \<le> 2 ^ 1024" by simp
  finally show ?thesis using f64_of_int [OF m] by (simp add: wf64_Fin)
qed

text \<open>Doubles are multiples of the least subnormal, so a difference of two of them does not
  vanish.\<close>

definition on_grid :: "rat \<Rightarrow> bool" where
  "on_grid x \<longleftrightarrow> (\<exists>n. x = of_int n * 2 powi (- 1074))"

lemma on_grid_f64: "on_grid (f64 x)"
proof (cases "x = 0")
  case False
  let ?k = "max (f64_exp \<bar>x\<bar> - 52) (- 1074)"
  have "f64 x = of_int (round_half_even (x / 2 powi ?k)) * 2 powi ?k"
    using False by (simp add: f64_def f64_quantum_def Let_def)
  also have "\<dots> = of_int (round_half_even (x / 2 powi ?k) * 2 ^ nat (?k + 1074)) * 2 powi (- 1074)"
    using powi_two_quotient [of "- 1074" ?k] by simp
  finally show ?thesis unfolding on_grid_def by blast
qed (auto simp: on_grid_def)

lemma on_grid_diff: "on_grid x \<Longrightarrow> on_grid y \<Longrightarrow> on_grid (x - y)"
  unfolding on_grid_def by (metis left_diff_distrib of_int_diff)

lemma on_grid_wf64: "wf64 (Fin a) \<Longrightarrow> on_grid a"
  using on_grid_f64 [of a] by (simp add: wf64_Fin)

lemma f64_pos:
  assumes "on_grid x" "0 < x"
  shows "0 < f64 x"
proof -
  obtain n where n: "x = of_int n * 2 powi (- 1074)" using assms(1) unfolding on_grid_def by blast
  then have "1 \<le> n" using assms(2) by (simp add: zero_less_mult_iff)
  then have "of_int 1 * 2 powi (- 1074) \<le> x" unfolding n by (intro mult_right_mono) auto
  then have "f64 (of_int 1 * 2 powi (- 1074)) \<le> f64 x" by (rule f64_mono)
  moreover have "f64 (of_int 1 * 2 powi (- 1074)) = of_int 1 * 2 powi (- 1074)"
    by (rule f64_exact [of _ 1 "- 1074"]) auto
  moreover have "(0::rat) < of_int 1 * 2 powi (- 1074)" by simp
  ultimately show ?thesis by linarith
qed

text \<open>A difference of doubles, the larger one first.\<close>

lemma fsub_pos:
  assumes "wf64 (Fin a)" "wf64 (Fin b)" "0 \<le> b" "b < a"
  shows "fsub (Fin a) (Fin b) = Fin (f64 (a - b))" "0 < f64 (a - b)" "f64 (a - b) \<le> a"
proof -
  show p: "0 < f64 (a - b)" using assms by (intro f64_pos on_grid_diff on_grid_wf64) auto
  show le: "f64 (a - b) \<le> a" using f64_mono [of "a - b" a] assms by (simp add: wf64_Fin)
  have "f64 (a - b) < 2 ^ 1024" using le assms(1) by (auto simp: wf64_Fin)
  then show "fsub (Fin a) (Fin b) = Fin (f64 (a - b))"
    using p by (simp add: fsub_def round64_def Let_def)
qed

text \<open>Rounding yields a double.\<close>

lemma f64_idem: "f64 (f64 x) = f64 x"
proof (cases "x = 0")
  case False
  let ?k = "max (f64_exp \<bar>x\<bar> - 52) (- 1074)"
  define m where "m = round_half_even (x / 2 powi ?k)"
  have f: "f64 x = of_int m * 2 powi ?k" using False by (simp add: m_def f64_def f64_quantum_def Let_def)
  have "\<bar>x\<bar> < 2 powi (f64_exp \<bar>x\<bar> + 1)" using f64_exp_bounds(2) [of "\<bar>x\<bar>"] False by simp
  also have "\<dots> \<le> 2 powi (?k + 53)" by (simp add: powi_two_le_iff)
  also have "\<dots> = of_int (2 ^ 53) * 2 powi ?k" using powi_two_quotient [of ?k "?k + 53"] by simp
  finally have b: "\<bar>x\<bar> / 2 powi ?k \<le> of_int (2 ^ 53)" by (simp only: pos_divide_le_eq [OF powi_two_pos])
  have "\<bar>x\<bar> / 2 powi ?k = \<bar>x / 2 powi ?k\<bar>" by simp
  with b have "x / 2 powi ?k \<le> of_int (2 ^ 53)" "of_int (- (2 ^ 53)) \<le> x / 2 powi ?k" unfolding of_int_minus by linarith+
  then have m: "\<bar>m\<bar> \<le> 2 ^ 53"
    using round_half_even_mono [of "x / 2 powi ?k" "of_int (2 ^ 53)"] round_half_even_mono [of "of_int (- (2 ^ 53))" "x / 2 powi ?k"]
    unfolding m_def round_half_even_of_int by linarith
  show ?thesis
  proof (cases "\<bar>m\<bar> < 2 ^ 53")
    case True
    then show ?thesis unfolding f by (intro f64_exact [of _ m ?k]) auto
  next
    case False
    with m have "m = sgn m * 2 ^ 53" by (auto simp: sgn_if split: if_splits)
    then have "f64 x = of_int (sgn m) * (of_int (2 ^ 53) * 2 powi ?k)" unfolding f by (metis mult.assoc of_int_mult)
    also have "(of_int (2 ^ 53) :: rat) * 2 powi ?k = 2 powi (?k + 53)" using powi_two_quotient [of ?k "?k + 53"] by simp
    finally show ?thesis by (intro f64_exact [of _ "sgn m" "?k + 53"]) (auto simp: sgn_if)
  qed
qed simp

lemma wf64_round64: "wf64 (round64 x)"
  using f64_idem [of x] by (auto simp: round64_def wf64_def Let_def simp del: power_numeral_even)

end
