(* ===== verification/Store_Types.thy ===== *)
theory Store_Types
  imports Go_Float
begin

text \<open>
  The data contracts of \<open>packages/e2m-contracts\<close> that the modelled components exchange,
  and the state of the in-memory store (\<open>app/e2m-core/internal/store/memory.go\<close>).

  A Go struct is a record with the same fields. A Go string enumeration is a datatype with
  one constructor per declared constant and, where the code compares or rejects values
  outside the declared set, a constructor \<open>...Other\<close> for every other string; the empty
  string is \<open>...Other ''''\<close>. The store's record has the fields the modelled operations
  read or write.
\<close>

section \<open>Errors\<close>

text \<open>The store's error values, an error of the caller's context, and the outcome of a Go
  run-time panic.\<close>

datatype store_error =
    ErrNotFound
  | ErrDuplicate
  | ErrConflict
  | ErrInvalid
  | ErrNoSupply
  | ErrRateLimited
  | ErrContext context_error
  | RuntimePanic

section \<open>Accounts, instances and upstream inventory\<close>

datatype UserRole = UserRoleAdmin | UserRoleClient | UserRoleSupplier | UserRoleOther string

datatype UserDeactivationStatus =
    UserDeactivationNone
  | UserDeactivationDraining
  | UserDeactivationFailed
  | UserDeactivationCompleted
  | UserDeactivationOther string

record User =
  user_ID :: int64
  user_Email :: string
  user_DisplayName :: string
  user_PasswordHash :: string
  user_Roles :: "UserRole list"
  user_PlatformConcurrency :: int
  user_PlatformRPM :: int
  user_Enabled :: bool
  user_DeactivationStatus :: UserDeactivationStatus
  user_DeactivationErrorCode :: string
  user_DeactivationRequestedAt :: "time option"
  user_DeactivationCompletedAt :: "time option"
  user_CreatedAt :: time
  user_UpdatedAt :: time

record Instance =
  inst_ID :: string
  inst_UserID :: int64
  inst_Name :: string
  inst_Kind :: string
  inst_Status :: string
  inst_ConnectorID :: string
  inst_CreatedAt :: time
  inst_UpdatedAt :: time

datatype ResourceClass =
    ResourceClassOwner
  | ResourceClassEconomy
  | ResourceClassStable
  | ResourceClassOther string

datatype UpstreamPoolStatus =
    UpstreamPoolActive
  | UpstreamPoolMaintenance
  | UpstreamPoolRetired
  | UpstreamPoolStatusOther string

datatype UpstreamDeliveryMode =
    UpstreamDeliveryConnector
  | UpstreamDeliverySupplyGateway
  | UpstreamDeliveryOther string

datatype UpstreamChannelStatus =
    UpstreamChannelActive
  | UpstreamChannelMaintenance
  | UpstreamChannelRetired
  | UpstreamChannelStatusOther string

datatype UpstreamInventoryState =
    UpstreamInventoryDraft
  | UpstreamInventoryTesting
  | UpstreamInventoryReady
  | UpstreamInventoryQuarantined
  | UpstreamInventoryRetired
  | UpstreamInventoryOther string

record UpstreamPool =
  pool_ID :: string
  pool_ResourceClass :: ResourceClass
  pool_DeliveryMode :: UpstreamDeliveryMode
  pool_Name :: string
  pool_Provider :: string
  pool_Models :: "string list"
  pool_Region :: string
  pool_Status :: UpstreamPoolStatus
  pool_Description :: string
  pool_Labels :: "(string \<times> string) list"
  pool_SafetyStockThreshold :: int
  pool_CreatedAt :: time
  pool_UpdatedAt :: time

record UpstreamChannel =
  chan_ID :: string
  chan_PoolID :: string
  chan_AccountOwnership :: string
  chan_SourceID :: string
  chan_DisplayName :: string
  chan_Provider :: string
  chan_Models :: "string list"
  chan_ProbeCapability :: string
  chan_ProbeEndpointPath :: string
  chan_Groups :: "string list"
  chan_CredentialBindingID :: string
  chan_ProxyBindingID :: string
  chan_Priority :: int
  chan_Weight :: int
  chan_CostHint :: float64
  chan_Status :: UpstreamChannelStatus
  chan_InventoryState :: UpstreamInventoryState
  chan_Labels :: "(string \<times> string) list"
  chan_CreatedAt :: time
  chan_UpdatedAt :: time

text \<open>\<open>UpstreamChannel.IsInventoryReady\<close>: the empty state of old rows counts as ready.\<close>

definition IsInventoryReady :: "UpstreamChannel \<Rightarrow> bool" where
  "IsInventoryReady c \<longleftrightarrow>
     chan_InventoryState c = UpstreamInventoryOther '''' \<or>
     chan_InventoryState c = UpstreamInventoryReady"

text \<open>\<open>UpstreamChannel.SourceIdentity\<close>.\<close>

definition SourceIdentity :: "UpstreamChannel \<Rightarrow> string" where
  "SourceIdentity c = (let sourceID = TrimSpace (chan_SourceID c) in
     if sourceID \<noteq> '''' then sourceID else chan_ID c)"

fun ResourceClass_Valid :: "ResourceClass \<Rightarrow> bool" where
  "ResourceClass_Valid ResourceClassOwner = True"
| "ResourceClass_Valid ResourceClassEconomy = True"
| "ResourceClass_Valid ResourceClassStable = True"
| "ResourceClass_Valid (ResourceClassOther _) = False"

definition IsPlatformSupply :: "ResourceClass \<Rightarrow> bool" where
  "IsPlatformSupply c \<longleftrightarrow> c = ResourceClassEconomy \<or> c = ResourceClassStable"

definition NormalizePlatformResourceClass :: "ResourceClass \<Rightarrow> ResourceClass" where
  "NormalizePlatformResourceClass v = (if v = ResourceClassOther '''' then ResourceClassStable else v)"

section \<open>Wallets and the journal\<close>

record Wallet =
  wal_UserID :: int64
  wal_Currency :: string
  wal_AvailableMicros :: int64
  wal_ReservedMicros :: int64
  wal_Version :: int64
  wal_UpdatedAt :: time

datatype WalletAccountCode =
    WalletAccountPlatformCash
  | WalletAccountUserAvailable
  | WalletAccountUserReserved
  | WalletAccountPlatformRevenue
  | WalletAccountUpstreamPayable

datatype WalletEntryDirection =
    WalletEntryDebit
  | WalletEntryCredit
  | WalletEntryOther string

record WalletEntry =
  went_ID :: string
  went_JournalID :: string
  went_Account :: WalletAccountCode
  went_Direction :: WalletEntryDirection
  went_AmountMicros :: int64
  went_Currency :: string
  went_CreatedAt :: time

datatype WalletJournalKind =
    WalletJournalRecharge
  | WalletJournalAdjustment
  | WalletJournalRedeem
  | WalletJournalReserve
  | WalletJournalSettle
  | WalletJournalRelease
  | WalletJournalRefund

record WalletJournal =
  wjnl_ID :: string
  wjnl_UserID :: int64
  wjnl_Kind :: WalletJournalKind
  wjnl_Currency :: string
  wjnl_AmountMicros :: int64
  wjnl_IdempotencyKey :: string
  wjnl_ReferenceType :: string
  wjnl_ReferenceID :: string
  wjnl_Entries :: "WalletEntry list"
  wjnl_CreatedAt :: time

datatype WalletReservationStatus =
    WalletReservationActive
  | WalletReservationSettled
  | WalletReservationReleased

record WalletReservation =
  wres_ID :: string
  wres_UserID :: int64
  wres_VirtualKeyID :: string
  wres_ChannelID :: string
  wres_RequestID :: string
  wres_Currency :: string
  wres_ReservedMicros :: int64
  wres_SettledMicros :: int64
  wres_Status :: WalletReservationStatus
  wres_CreatedAt :: time
  wres_UpdatedAt :: time

section \<open>Virtual keys, endpoints and usage\<close>

datatype SupplyRoutingPreference =
    SupplyRoutingSmartAuto
  | SupplyRoutingPriceFirst
  | SupplyRoutingSpeedFirst
  | SupplyRoutingSuccessFirst
  | SupplyRoutingOther string

definition SupplyRoutingPreference_Valid :: "SupplyRoutingPreference \<Rightarrow> bool" where
  "SupplyRoutingPreference_Valid p =
     (case p of SupplyRoutingOther v \<Rightarrow> v = '''' | _ \<Rightarrow> True)"

record VirtualKey =
  vk_ID :: string
  vk_UserID :: int64
  vk_GroupID :: string
  vk_InstanceID :: string
  vk_Name :: string
  vk_ResourceClass :: ResourceClass
  vk_Prefix :: string
  vk_TokenHash :: string
  vk_SecretRef :: string
  vk_KeyVersion :: int64
  vk_Enabled :: bool
  vk_Models :: "string list"
  vk_DailyLimitMicros :: int64
  vk_RoutingPreference :: SupplyRoutingPreference
  vk_ExpiresAt :: "time option"
  vk_LastUsedAt :: "time option"
  vk_CreatedAt :: time
  vk_UpdatedAt :: time

datatype SupplyUsageStatus =
    SupplyUsageReserved
  | SupplyUsageSettled
  | SupplyUsageReleased
  | SupplyUsageStatusOther string

record SupplyUsageRecord =
  usage_InputPriceMicrosPerMillion :: int64
  usage_OutputPriceMicrosPerMillion :: int64
  usage_InputSupplierMicrosPerMillion :: int64
  usage_OutputSupplierMicrosPerMillion :: int64
  usage_ID :: string
  usage_RequestID :: string
  usage_ReservationID :: string
  usage_UserID :: int64
  usage_GroupID :: string
  usage_InstanceID :: string
  usage_VirtualKeyID :: string
  usage_ResourceClass :: ResourceClass
  usage_ChannelID :: string
  usage_Model :: string
  usage_PromptTokens :: int64
  usage_CompletionTokens :: int64
  usage_FirstTokenMS :: int64
  usage_DurationMS :: int64
  usage_ReservedMicros :: int64
  usage_SettledMicros :: int64
  usage_Status :: SupplyUsageStatus
  usage_SettlementReason :: string
  usage_CreatedAt :: time
  usage_CompletedAt :: "time option"

record SupplyDailyUsage =
  daily_UserID :: int64
  daily_InstanceID :: string
  daily_VirtualKeyID :: string
  daily_Currency :: string
  daily_DayStart :: time
  daily_InstanceReservedMicros :: int64
  daily_KeyReservedMicros :: int64

record SupplyChannelEndpoint =
  ep_ChannelID :: string
  ep_BaseURL :: string
  ep_AllowInsecure :: bool
  ep_SecretRef :: string
  ep_MaskedValue :: string
  ep_Currency :: string
  ep_InputPriceMicrosPerMillion :: int64
  ep_OutputPriceMicrosPerMillion :: int64
  ep_InputSupplierMicrosPerMillion :: int64
  ep_OutputSupplierMicrosPerMillion :: int64
  ep_MaxRequestMicros :: int64
  ep_MaxConcurrency :: int
  ep_CapacityPercent :: int
  ep_Enabled :: bool
  ep_CreatedAt :: time
  ep_UpdatedAt :: time

record SupplyCandidate =
  cand_Pool :: UpstreamPool
  cand_Channel :: UpstreamChannel
  cand_Endpoint :: SupplyChannelEndpoint
  cand_Active :: int

datatype SupplyTelemetryOutcome =
    SupplyOutcomeSuccess
  | SupplyOutcomeFailure
  | SupplyOutcomeNeutral
  | SupplyOutcomeOther string

definition CountsAsSample :: "SupplyTelemetryOutcome \<Rightarrow> bool" where
  "CountsAsSample o1 \<longleftrightarrow> o1 = SupplyOutcomeSuccess \<or> o1 = SupplyOutcomeFailure"

record SupplyTelemetry =
  tel_FirstTokenMS :: int64
  tel_DurationMS :: int64
  tel_Outcome :: SupplyTelemetryOutcome

record SupplyChannelStatsBucket =
  stat_ChannelID :: string
  stat_BucketStart :: time
  stat_Requests :: int64
  stat_Failures :: int64
  stat_TTFTSumMS :: int64
  stat_TTFTSamples :: int64
  stat_DurationSumMS :: int64
  stat_DurationSamples :: int64

record SupplyUsageFilter =
  uf_UserID :: int64
  uf_GroupID :: string
  uf_VirtualKeyID :: string
  uf_Status :: SupplyUsageStatus
  uf_Limit :: int

record SupplyModelEntry =
  sme_Model :: string
  sme_CreatedAt :: time
  sme_Channels :: int

record SupplyModelCatalog =
  smc_Models :: "SupplyModelEntry list"
  smc_Unenumerable :: bool

record SupplyReservationResult =
  rsv_Key :: VirtualKey
  rsv_Candidate :: SupplyCandidate
  rsv_Wallet :: Wallet
  rsv_Reservation :: WalletReservation
  rsv_Usage :: SupplyUsageRecord

record SupplySettlementResult =
  stl_Wallet :: Wallet
  stl_Reservation :: WalletReservation
  stl_Usage :: SupplyUsageRecord
  stl_ChargedMicros :: int64
  stl_SupplierMicros :: int64
  stl_ReleasedMicros :: int64

section \<open>Hybrid allocation\<close>

record HybridAllocationRule =
  rule_OwnerPercent :: int
  rule_EconomyPercent :: int
  rule_StablePercent :: int
  rule_OwnerBurstMax :: int
  rule_EconomyBurstMax :: int
  rule_StableBurstMax :: int

record HybridModelAllocation =
  hma_Model :: string
  hma_Rule :: HybridAllocationRule

record HybridAllocation =
  alloc_UserID :: int64
  alloc_InstanceID :: string
  alloc_Basis :: string
  alloc_DefaultRule :: HybridAllocationRule
  alloc_ModelOverrides :: "HybridModelAllocation list"
  alloc_DailyBudgetMicros :: int64
  alloc_MaxUnitPriceMicros :: int64
  alloc_RoutingGeneration :: int64
  alloc_Version :: int64
  alloc_CreatedAt :: time
  alloc_UpdatedAt :: time

section \<open>Payments, redeem codes and audits\<close>

datatype PaymentProviderKey =
    PaymentProviderEasyPay
  | PaymentProviderAlipay
  | PaymentProviderWxPay
  | PaymentProviderStripe
  | PaymentProviderAirwallex
  | PaymentProviderOther string

record PaymentMethodLimit =
  pml_SingleMin :: rat
  pml_SingleMax :: rat
  pml_DailyLimit :: rat

record PaymentProvider =
  pp_ID :: string
  pp_ProviderKey :: PaymentProviderKey
  pp_Name :: string
  pp_Config :: "(string \<times> string) list"
  pp_SecretConfigured :: "(string \<times> bool) list"
  pp_SupportedTypes :: "string list"
  pp_Enabled :: bool
  pp_PaymentMode :: string
  pp_SortOrder :: int
  pp_Limits :: "(string \<times> PaymentMethodLimit) list"
  pp_RefundEnabled :: bool
  pp_AllowUserRefund :: bool
  pp_CreatedAt :: time
  pp_UpdatedAt :: time
  pp_SecretRefs :: "(string \<times> string) list"

datatype PaymentOrderStatus =
    PaymentOrderPending
  | PaymentOrderPaid
  | PaymentOrderRecharging
  | PaymentOrderCompleted
  | PaymentOrderExpired
  | PaymentOrderCancelled
  | PaymentOrderFailed
  | PaymentOrderRefundRequested
  | PaymentOrderRefunding
  | PaymentOrderRefundPending
  | PaymentOrderPartiallyRefunded
  | PaymentOrderRefunded
  | PaymentOrderRefundFailed
  | PaymentOrderStatusOther string

datatype PaymentOrderType =
    PaymentOrderBalance
  | PaymentOrderSubscription
  | PaymentOrderTypeOther string

record PaymentOrder =
  po_ID :: string
  po_UserID :: int64
  po_UserEmail :: string
  po_UserName :: string
  po_Amount :: string
  po_PayAmount :: string
  po_FeeRate :: string
  po_Currency :: string
  po_PaymentType :: string
  po_OutTradeNo :: string
  po_PaymentTradeNo :: string
  po_ProviderOrderID :: string
  po_OrderType :: PaymentOrderType
  po_ProviderInstanceID :: string
  po_ProviderKey :: PaymentProviderKey
  po_ProviderName :: string
  po_Status :: PaymentOrderStatus
  po_RefundAmount :: string
  po_RefundReason :: string
  po_RefundRequestedAt :: "time option"
  po_RefundRequestedBy :: string
  po_RefundRequestReason :: string
  po_ExpiresAt :: time
  po_PaidAt :: "time option"
  po_CompletedAt :: "time option"
  po_FailedAt :: "time option"
  po_FailedReason :: string
  po_CreatedAt :: time
  po_UpdatedAt :: time

text \<open>An absent filter value is the empty string of the type, a nil pointer is \<open>None\<close>.\<close>

record PaymentOrderFilter =
  pof_Page :: int
  pof_PageSize :: int
  pof_Status :: PaymentOrderStatus
  pof_PaymentType :: string
  pof_OrderType :: PaymentOrderType
  pof_UserID :: int64
  pof_ProviderInstanceID :: string
  pof_Keyword :: string
  pof_StartCreatedAt :: "time option"
  pof_EndCreatedAt :: "time option"

record PaymentOrderPage =
  pop_Items :: "PaymentOrder list"
  pop_Total :: int64
  pop_Page :: int
  pop_PageSize :: int

record PaymentNotification =
  pn_ProviderInstanceID :: string
  pn_ProviderKey :: PaymentProviderKey
  pn_EventID :: string
  pn_OutTradeNo :: string
  pn_PaymentTradeNo :: string
  pn_ProviderOrderID :: string
  pn_PaidAmountMicros :: int64
  pn_Currency :: string
  pn_PaidAt :: time

record PaymentCallbackEvent =
  pce_ID :: string
  pce_ProviderInstanceID :: string
  pce_ProviderKey :: PaymentProviderKey
  pce_EventID :: string
  pce_OrderID :: string
  pce_BodyHash :: string
  pce_Accepted :: bool
  pce_ErrorCode :: string
  pce_CreatedAt :: time

datatype RedeemCodeType = RedeemCodeBalance | RedeemCodeInvitation | RedeemCodeTypeOther string

datatype RedeemCodeStatus =
    RedeemCodeUnused
  | RedeemCodeUsed
  | RedeemCodeDisabled
  | RedeemCodeExpired
  | RedeemCodeStatusOther string

definition RedeemCodeType_Valid :: "RedeemCodeType \<Rightarrow> bool" where
  "RedeemCodeType_Valid t \<longleftrightarrow> t = RedeemCodeBalance \<or> t = RedeemCodeInvitation"

record RedeemCode =
  rc_ID :: string
  rc_Type :: RedeemCodeType
  rc_CodeHash :: string
  rc_CodePrefix :: string
  rc_Currency :: string
  rc_AmountMicros :: int64
  rc_Status :: RedeemCodeStatus
  rc_BatchID :: string
  rc_Notes :: string
  rc_ExpiresAt :: "time option"
  rc_UsedBy :: int64
  rc_UsedAt :: "time option"
  rc_CreatedBy :: int64
  rc_CreatedAt :: time
  rc_UpdatedAt :: time

record RedeemCodeFilter =
  rcf_Type :: RedeemCodeType
  rcf_Status :: RedeemCodeStatus
  rcf_BatchID :: string
  rcf_Page :: int
  rcf_PageSize :: int

record RedeemCodePage =
  rcp_Items :: "RedeemCode list"
  rcp_Total :: int64
  rcp_Page :: int
  rcp_PageSize :: int

datatype RiskLevel = RiskLevelL0 | RiskLevelL1 | RiskLevelL2 | RiskLevelL3 | RiskLevelOther string

datatype EventLevel =
    EventLevelInfo
  | EventLevelNotice
  | EventLevelWarning
  | EventLevelCritical
  | EventLevelOther string

definition EventLevel_Valid :: "EventLevel \<Rightarrow> bool" where
  "EventLevel_Valid l = (case l of EventLevelOther _ \<Rightarrow> False | _ \<Rightarrow> True)"

record OperationAudit =
  aud_ID :: string
  aud_UserID :: int64
  aud_InstanceID :: string
  aud_ActorType :: string
  aud_ActorID :: string
  aud_Action :: string
  aud_RiskLevel :: RiskLevel
  aud_EventLevel :: EventLevel
  aud_TargetType :: string
  aud_TargetID :: string
  aud_RequestHash :: string
  aud_Result :: string
  aud_ErrorMessage :: string
  aud_ApprovalID :: string
  aud_WorkflowRunID :: string
  aud_Details :: "(string \<times> string) list"
  aud_CreatedAt :: time

section \<open>The store\<close>

record MemoryStore =
  seq :: "string \<Rightarrow> nat"
  instances :: "Instance list"
  hybridAllocations :: "(string \<times> HybridAllocation) list"
  wallets :: "(string \<times> Wallet) list"
  walletJournals :: "WalletJournal list"
  walletReservations :: "(string \<times> WalletReservation) list"
  virtualKeys :: "(string \<times> VirtualKey) list"
  supplyEndpoints :: "(string \<times> SupplyChannelEndpoint) list"
  supplyUsage :: "(string \<times> SupplyUsageRecord) list"
  supplyChannelStats :: "(string \<times> (time \<times> SupplyChannelStatsBucket) list) list"
  paymentCallbackEvents :: "(string \<times> PaymentCallbackEvent) list"
  audits :: "OperationAudit list"
  upstreamPools :: "UpstreamPool list"
  upstreamChannels :: "UpstreamChannel list"
  paymentProviders :: "PaymentProvider list"
  paymentOrders :: "PaymentOrder list"
  redeemCodes :: "RedeemCode list"
  users :: "User list"

text \<open>The outcome of an operation: its error or its result, and the store after it.\<close>

type_synonym 'a result = "(store_error + 'a) \<times> MemoryStore"

text \<open>The readings of the store's clock \<open>s.now()\<close> that one call sees, by position.\<close>

type_synonym clock = "nat \<Rightarrow> time"

definition NewMemoryStore :: MemoryStore where
  "NewMemoryStore = \<lparr>seq = (\<lambda>_. 0), instances = [], hybridAllocations = [], wallets = [],
     walletJournals = [], walletReservations = [], virtualKeys = [], supplyEndpoints = [],
     supplyUsage = [], supplyChannelStats = [], paymentCallbackEvents = [], audits = [],
     upstreamPools = [], upstreamChannels = [], paymentProviders = [], paymentOrders = [],
     redeemCodes = [], users = []\<rparr>"

definition mkID :: "string \<Rightarrow> nat \<Rightarrow> string" where
  "mkID prefix n = prefix @ ''-'' @ pad4 (dec n)"

definition nextID :: "string \<Rightarrow> MemoryStore \<Rightarrow> string \<times> MemoryStore" where
  "nextID prefix s =
     (let n = Suc (seq s prefix) in (mkID prefix n, s\<lparr>seq := (seq s)(prefix := n)\<rparr>))"

lemma mkID_inj [simp]: "mkID prefix m = mkID prefix n \<longleftrightarrow> m = n"
  by (simp add: mkID_def)

definition userHasRole :: "UserRole list \<Rightarrow> UserRole \<Rightarrow> bool" where
  "userHasRole roles want = list_ex (\<lambda>role. role = want) roles"

lemma userHasRole_iff [simp]: "userHasRole roles want \<longleftrightarrow> want \<in> set roles"
  by (auto simp: userHasRole_def list_ex_iff)

definition DefaultEventLevel :: "RiskLevel \<Rightarrow> string \<Rightarrow> EventLevel" where
  "DefaultEventLevel risk result1 =
     (if result1 = ''running'' then EventLevelInfo
      else if result1 \<in> {''retrying'', ''paused'', ''rejected''} then EventLevelNotice
      else if result1 = ''failed'' then EventLevelWarning
      else if result1 \<in> {''accepted'', ''success''} then
        (if risk = RiskLevelL0 then EventLevelInfo else EventLevelNotice)
      else (if risk = RiskLevelL0 then EventLevelInfo else EventLevelNotice))"

end
