(* ===== verification/Wallet_Ledger.thy ===== *)
theory Wallet_Ledger
  imports Store_Types
begin

text \<open>
  Wallets and the double-entry journal: \<open>walletMapKey\<close>, \<open>validCurrency\<close>, the wallet reads,
  \<open>AdjustWalletBalance\<close> and the two journal writers of
  \<open>app/e2m-core/internal/store/memory_hybrid_supply.go\<close>, with \<open>WalletJournal.Balanced\<close> of
  the contracts. Go's defensive copies (\<open>copyWalletJournal\<close>) are the identity on values.

  The specification side is \<open>acct_balance\<close>, what the journal says one account of a
  wallet holds, and the locale \<open>ledger_view\<close>: a stored balance that every step moves by
  what the step posts agrees with the journal in every reachable state.
\<close>

section \<open>Keys and currencies\<close>

definition walletMapKey :: "int64 \<Rightarrow> string \<Rightarrow> string" where
  "walletMapKey userID currency = ToUpper (TrimSpace currency) @ '':'' @ FormatInt userID"

definition validCurrency :: "string \<Rightarrow> bool" where
  "validCurrency currency \<longleftrightarrow> length currency = 3 \<and> list_all is_upper currency"

lemma validCurrency_norm [simp]:
  assumes "validCurrency c"
  shows "ToUpper (TrimSpace c) = c"
  using assms TrimSpace_upper [of c] ToUpper_upper [of c]
  by (auto simp: validCurrency_def list_all_iff)

lemma validCurrency_plain [simp]:
  assumes "validCurrency c"
  shows "ToUpper c = c" and "TrimSpace c = c"
  using assms TrimSpace_upper [of c] ToUpper_upper [of c]
  by (auto simp: validCurrency_def list_all_iff)

lemma validCurrency_USD [simp]: "validCurrency ''USD''"
  by (simp add: validCurrency_def is_upper_def)

lemma walletMapKey_inj:
  assumes "validCurrency c" and "validCurrency d"
  shows "walletMapKey u c = walletMapKey v d \<longleftrightarrow> u = v \<and> c = d"
  using assms by (auto simp: walletMapKey_def) (auto simp: validCurrency_def)

section \<open>The journal\<close>

text \<open>\<open>WalletJournal.Balanced\<close>: the loop over the entries, with its two running sums.\<close>

fun Balanced_loop :: "WalletJournal \<Rightarrow> WalletEntry list \<Rightarrow> int64 \<Rightarrow> int64 \<Rightarrow> (int64 \<times> int64) option" where
  "Balanced_loop j [] debit credit = Some (debit, credit)"
| "Balanced_loop j (entry # es) debit credit =
     (if went_AmountMicros entry \<le> 0 \<or> went_Currency entry \<noteq> wjnl_Currency j \<or>
         went_JournalID entry \<noteq> wjnl_ID j then None
      else case went_Direction entry of
          WalletEntryDebit \<Rightarrow> Balanced_loop j es (wrap64 (debit + went_AmountMicros entry)) credit
        | WalletEntryCredit \<Rightarrow> Balanced_loop j es debit (wrap64 (credit + went_AmountMicros entry))
        | WalletEntryOther _ \<Rightarrow> None)"

definition Balanced :: "WalletJournal \<Rightarrow> bool" where
  "Balanced j =
     (case Balanced_loop j (wjnl_Entries j) 0 0 of
        None \<Rightarrow> False
      | Some (debit, credit) \<Rightarrow>
          2 \<le> length (wjnl_Entries j) \<and> debit = credit \<and> debit = wjnl_AmountMicros j)"

definition appendWalletJournalLocked ::
  "int64 \<Rightarrow> WalletJournalKind \<Rightarrow> string \<Rightarrow> int64 \<Rightarrow> string \<Rightarrow> string \<Rightarrow> string \<Rightarrow>
   WalletAccountCode \<Rightarrow> WalletAccountCode \<Rightarrow> time \<Rightarrow> MemoryStore \<Rightarrow> WalletJournal \<times> MemoryStore" where
  "appendWalletJournalLocked userID kind currency amount idempotencyKey referenceType referenceID
     debit credit now s =
     (let (jid, s) = nextID ''wjnl'' s;
          (e1, s) = nextID ''went'' s;
          (e2, s) = nextID ''went'' s;
          journal = \<lparr>wjnl_ID = jid, wjnl_UserID = userID, wjnl_Kind = kind, wjnl_Currency = currency,
            wjnl_AmountMicros = amount, wjnl_IdempotencyKey = idempotencyKey,
            wjnl_ReferenceType = referenceType, wjnl_ReferenceID = referenceID,
            wjnl_Entries =
              [\<lparr>went_ID = e1, went_JournalID = jid, went_Account = debit,
                went_Direction = WalletEntryDebit, went_AmountMicros = amount,
                went_Currency = currency, went_CreatedAt = now\<rparr>,
               \<lparr>went_ID = e2, went_JournalID = jid, went_Account = credit,
                went_Direction = WalletEntryCredit, went_AmountMicros = amount,
                went_Currency = currency, went_CreatedAt = now\<rparr>],
            wjnl_CreatedAt = now\<rparr>
      in (journal, s\<lparr>walletJournals := walletJournals s @ [journal]\<rparr>))"

text \<open>One optional entry of a settlement journal: the code appends it only for a positive
  amount, and draws its identifier only then.\<close>

definition settlementEntry ::
  "string \<Rightarrow> WalletAccountCode \<Rightarrow> WalletEntryDirection \<Rightarrow> int64 \<Rightarrow> string \<Rightarrow> time \<Rightarrow>
   WalletEntry list \<times> MemoryStore \<Rightarrow> WalletEntry list \<times> MemoryStore" where
  "settlementEntry jid account direction amount currency now acc =
     (let (es, s) = acc in
      if 0 < amount then
        (let (eid, s) = nextID ''went'' s in
         (es @ [\<lparr>went_ID = eid, went_JournalID = jid, went_Account = account,
                 went_Direction = direction, went_AmountMicros = amount,
                 went_Currency = currency, went_CreatedAt = now\<rparr>], s))
      else (es, s))"

definition appendSupplySettlementJournalLocked ::
  "int64 \<Rightarrow> string \<Rightarrow> int64 \<Rightarrow> int64 \<Rightarrow> int64 \<Rightarrow> string \<Rightarrow> string \<Rightarrow> string \<Rightarrow> time \<Rightarrow>
   MemoryStore \<Rightarrow> WalletJournal \<times> MemoryStore" where
  "appendSupplySettlementJournalLocked userID currency charged supplier fromReserved
     idempotencyKey referenceType referenceID now s =
     (let (jid, s) = nextID ''wjnl'' s;
          (es, s) =
            settlementEntry jid WalletAccountPlatformRevenue WalletEntryCredit
              (wrap64 (charged - supplier)) currency now
            (settlementEntry jid WalletAccountUpstreamPayable WalletEntryCredit supplier currency now
            (settlementEntry jid WalletAccountUserAvailable WalletEntryDebit
              (wrap64 (charged - fromReserved)) currency now
            (settlementEntry jid WalletAccountUserReserved WalletEntryDebit fromReserved currency now
              ([], s))));
          journal = \<lparr>wjnl_ID = jid, wjnl_UserID = userID, wjnl_Kind = WalletJournalSettle,
            wjnl_Currency = currency, wjnl_AmountMicros = charged,
            wjnl_IdempotencyKey = idempotencyKey, wjnl_ReferenceType = referenceType,
            wjnl_ReferenceID = referenceID, wjnl_Entries = es, wjnl_CreatedAt = now\<rparr>
      in (journal, s\<lparr>walletJournals := walletJournals s @ [journal]\<rparr>))"

section \<open>Wallet reads and the manual adjustment\<close>

definition zero_wallet :: Wallet where
  "zero_wallet = \<lparr>wal_UserID = 0, wal_Currency = '''', wal_AvailableMicros = 0,
     wal_ReservedMicros = 0, wal_Version = 0, wal_UpdatedAt = 0\<rparr>"

text \<open>\<open>s.wallets[key]\<close>: the zero value for a missing key.\<close>

definition walletAt :: "MemoryStore \<Rightarrow> string \<Rightarrow> Wallet" where
  "walletAt s k = (case map_of (wallets s) k of None \<Rightarrow> zero_wallet | Some w \<Rightarrow> w)"

definition GetWallet :: "ctx \<Rightarrow> int64 \<Rightarrow> string \<Rightarrow> MemoryStore \<Rightarrow> Wallet result" where
  "GetWallet c userID currency s =
     (case c of Some e \<Rightarrow> (Inl (ErrContext e), s) | None \<Rightarrow>
      let currency = ToUpper (TrimSpace currency) in
      if userID \<le> 0 \<or> \<not> validCurrency currency then (Inl ErrInvalid, s)
      else case map_of (wallets s) (walletMapKey userID currency) of
          None \<Rightarrow> (Inr (zero_wallet\<lparr>wal_UserID := userID, wal_Currency := currency\<rparr>), s)
        | Some w \<Rightarrow> (Inr w, s))"

definition ListWalletsBelow :: "ctx \<Rightarrow> string \<Rightarrow> int64 \<Rightarrow> MemoryStore \<Rightarrow> Wallet list result" where
  "ListWalletsBelow c currency thresholdMicros s =
     (case c of Some e \<Rightarrow> (Inl (ErrContext e), s) | None \<Rightarrow>
      let currency = ToUpper (TrimSpace currency) in
      if \<not> validCurrency currency \<or> thresholdMicros \<le> 0 then (Inl ErrInvalid, s)
      else (Inr (go_sort (\<lambda>a b. wal_UserID a < wal_UserID b)
                   (filter (\<lambda>w. wal_Currency w = currency \<and> wal_AvailableMicros w < thresholdMicros)
                      (map snd (wallets s)))), s))"

definition ListWalletJournals :: "ctx \<Rightarrow> int64 \<Rightarrow> int \<Rightarrow> MemoryStore \<Rightarrow> WalletJournal list result" where
  "ListWalletJournals c userID limit s =
     (case c of Some e \<Rightarrow> (Inl (ErrContext e), s) | None \<Rightarrow>
      if userID \<le> 0 \<or> limit < 0 then (Inl ErrInvalid, s)
      else let limit = (if limit = 0 \<or> 100 < limit then 100 else limit) in
        (Inr (take (nat limit) (filter (\<lambda>j. wjnl_UserID j = userID) (rev (walletJournals s)))), s))"

text \<open>Adding to a wallet the way every writer of the store does.\<close>

definition creditWallet :: "string \<Rightarrow> int64 \<Rightarrow> string \<Rightarrow> int64 \<Rightarrow> time \<Rightarrow> MemoryStore \<Rightarrow> MemoryStore" where
  "creditWallet k userID currency delta now s =
     (let wallet = walletAt s k in
      s\<lparr>wallets := AList.update k
          (wallet\<lparr>wal_UserID := userID, wal_Currency := currency,
             wal_AvailableMicros := wrap64 (wal_AvailableMicros wallet + delta),
             wal_Version := wrap64 (wal_Version wallet + 1), wal_UpdatedAt := now\<rparr>) (wallets s)\<rparr>)"

definition AdjustWalletBalance ::
  "clock \<Rightarrow> ctx \<Rightarrow> int64 \<Rightarrow> string \<Rightarrow> int64 \<Rightarrow> string \<Rightarrow> string \<Rightarrow> MemoryStore \<Rightarrow>
   (Wallet \<times> WalletJournal) result" where
  "AdjustWalletBalance nw c userID currency deltaMicros idempotencyKey note1 s =
     (case c of Some e \<Rightarrow> (Inl (ErrContext e), s) | None \<Rightarrow>
      let currency = ToUpper (TrimSpace currency);
          idempotencyKey = TrimSpace idempotencyKey;
          note1 = TrimSpace note1
      in
      if userID \<le> 0 \<or> \<not> validCurrency currency \<or> deltaMicros = 0 \<or> idempotencyKey = '''' \<or>
         128 < length idempotencyKey \<or> 500 < length note1 then (Inl ErrInvalid, s)
      else case find (\<lambda>j. wjnl_UserID j = userID \<and> wjnl_IdempotencyKey j = idempotencyKey)
                  (walletJournals s) of
        Some journal \<Rightarrow> (Inr (walletAt s (walletMapKey userID currency), journal), s)
      | None \<Rightarrow>
        if find (\<lambda>u. user_ID u = userID \<and> user_Enabled u) (users s) = None then (Inl ErrNotFound, s)
        else
        let walletKey = walletMapKey userID currency;
            wallet = walletAt s walletKey
        in
        if deltaMicros < 0 \<and> wal_AvailableMicros wallet < wrap64 (- deltaMicros)
        then (Inl ErrConflict, s)
        else
        let now = nw 0;
            s = creditWallet walletKey userID currency deltaMicros now s;
            amount = (if deltaMicros < 0 then wrap64 (- deltaMicros) else deltaMicros);
            debit = (if deltaMicros < 0 then WalletAccountUserAvailable else WalletAccountPlatformCash);
            credit = (if deltaMicros < 0 then WalletAccountPlatformCash else WalletAccountUserAvailable);
            (journal, s) = appendWalletJournalLocked userID WalletJournalAdjustment currency amount
              idempotencyKey ''admin_balance_adjustment'' note1 debit credit now s
        in (Inr (walletAt s walletKey, journal), s))"

section \<open>What the journal says\<close>

definition entry_amount :: "WalletEntry \<Rightarrow> int" where
  "entry_amount e = (case went_Direction e of
      WalletEntryCredit \<Rightarrow> went_AmountMicros e
    | WalletEntryDebit \<Rightarrow> - went_AmountMicros e
    | WalletEntryOther _ \<Rightarrow> 0)"

definition journal_amount :: "string \<Rightarrow> WalletAccountCode \<Rightarrow> WalletJournal \<Rightarrow> int" where
  "journal_amount k a j =
     (if walletMapKey (wjnl_UserID j) (wjnl_Currency j) = k
      then sum_list (map entry_amount (filter (\<lambda>e. went_Account e = a) (wjnl_Entries j)))
      else 0)"

definition acct_balance :: "WalletAccountCode \<Rightarrow> MemoryStore \<Rightarrow> string \<Rightarrow> int" where
  "acct_balance a s k = sum_list (map (journal_amount k a) (walletJournals s))"

definition available :: "MemoryStore \<Rightarrow> string \<Rightarrow> int64" where
  "available s k = wal_AvailableMicros (walletAt s k)"

definition reserved :: "MemoryStore \<Rightarrow> string \<Rightarrow> int64" where
  "reserved s k = wal_ReservedMicros (walletAt s k)"

text \<open>Every journal is balanced, and its entries cancel without wrap-around.\<close>

definition journal_exact :: "WalletJournal \<Rightarrow> bool" where
  "journal_exact j \<longleftrightarrow> Balanced j \<and> sum_list (map entry_amount (wjnl_Entries j)) = 0"

definition journals_ok :: "MemoryStore \<Rightarrow> bool" where
  "journals_ok s \<longleftrightarrow> list_all journal_exact (walletJournals s)"

section \<open>Lemmas: the journal writers\<close>

lemma snd_nextID: "snd (nextID p s) = s\<lparr>seq := (seq s)(p := Suc (seq s p))\<rparr>"
  by (simp add: nextID_def Let_def)

lemma fst_nextID: "fst (nextID p s) = mkID p (Suc (seq s p))"
  by (simp add: nextID_def Let_def)

lemma append_frame [simp, store_frame]:
  shows
    "instances (snd (appendWalletJournalLocked u kind cur amount ik rt ri d c now s)) = instances s"
    "hybridAllocations (snd (appendWalletJournalLocked u kind cur amount ik rt ri d c now s)) = hybridAllocations s"
    "wallets (snd (appendWalletJournalLocked u kind cur amount ik rt ri d c now s)) = wallets s"
    "walletReservations (snd (appendWalletJournalLocked u kind cur amount ik rt ri d c now s)) = walletReservations s"
    "virtualKeys (snd (appendWalletJournalLocked u kind cur amount ik rt ri d c now s)) = virtualKeys s"
    "supplyEndpoints (snd (appendWalletJournalLocked u kind cur amount ik rt ri d c now s)) = supplyEndpoints s"
    "supplyUsage (snd (appendWalletJournalLocked u kind cur amount ik rt ri d c now s)) = supplyUsage s"
    "supplyChannelStats (snd (appendWalletJournalLocked u kind cur amount ik rt ri d c now s)) = supplyChannelStats s"
    "paymentCallbackEvents (snd (appendWalletJournalLocked u kind cur amount ik rt ri d c now s)) = paymentCallbackEvents s"
    "audits (snd (appendWalletJournalLocked u kind cur amount ik rt ri d c now s)) = audits s"
    "upstreamPools (snd (appendWalletJournalLocked u kind cur amount ik rt ri d c now s)) = upstreamPools s"
    "upstreamChannels (snd (appendWalletJournalLocked u kind cur amount ik rt ri d c now s)) = upstreamChannels s"
    "paymentProviders (snd (appendWalletJournalLocked u kind cur amount ik rt ri d c now s)) = paymentProviders s"
    "paymentOrders (snd (appendWalletJournalLocked u kind cur amount ik rt ri d c now s)) = paymentOrders s"
    "redeemCodes (snd (appendWalletJournalLocked u kind cur amount ik rt ri d c now s)) = redeemCodes s"
    "users (snd (appendWalletJournalLocked u kind cur amount ik rt ri d c now s)) = users s"
  by (simp_all add: appendWalletJournalLocked_def nextID_def Let_def)

lemma append_seq [simp, store_frame]:
  "p \<noteq> ''wjnl'' \<Longrightarrow> p \<noteq> ''went'' \<Longrightarrow> seq (snd (appendWalletJournalLocked u kind cur amount ik rt ri d c now s)) p = seq s p"
  by (simp add: appendWalletJournalLocked_def nextID_def Let_def)

lemma append_journals [simp]:
  "walletJournals (snd (appendWalletJournalLocked u kind cur amount ik rt ri d c now s)) = walletJournals s @ [fst (appendWalletJournalLocked u kind cur amount ik rt ri d c now s)]"
  by (simp add: appendWalletJournalLocked_def nextID_def Let_def)

lemma append_fields [simp]:
  "wjnl_UserID (fst (appendWalletJournalLocked u kind cur amount ik rt ri d c now s)) = u"
  "wjnl_Kind (fst (appendWalletJournalLocked u kind cur amount ik rt ri d c now s)) = kind"
  "wjnl_Currency (fst (appendWalletJournalLocked u kind cur amount ik rt ri d c now s)) = cur"
  "wjnl_AmountMicros (fst (appendWalletJournalLocked u kind cur amount ik rt ri d c now s)) = amount"
  "wjnl_IdempotencyKey (fst (appendWalletJournalLocked u kind cur amount ik rt ri d c now s)) = ik"
  "wjnl_ReferenceType (fst (appendWalletJournalLocked u kind cur amount ik rt ri d c now s)) = rt"
  "wjnl_ReferenceID (fst (appendWalletJournalLocked u kind cur amount ik rt ri d c now s)) = ri"
  by (simp_all add: appendWalletJournalLocked_def nextID_def Let_def)

lemma append_amount [simp]:
  "d \<noteq> c \<Longrightarrow> journal_amount k a (fst (appendWalletJournalLocked u kind cur amount ik rt ri d c now s)) =
     (if walletMapKey u cur = k then (if a = c then amount else 0) - (if a = d then amount else 0) else 0)"
  by (auto simp: appendWalletJournalLocked_def nextID_def Let_def journal_amount_def entry_amount_def)

lemma append_exact [simp]: "0 < amount \<Longrightarrow> in64 amount \<Longrightarrow> journal_exact (fst (appendWalletJournalLocked u kind cur amount ik rt ri d c now s))"
  by (simp add: appendWalletJournalLocked_def nextID_def Let_def entry_amount_def journal_exact_def
      Balanced_def wrap64_id)

text \<open>The entries of a settlement journal, for the amounts the settlement passes.\<close>

lemma settlementEntry_eq:
  "settlementEntry jid a d amt cur now (es, s) =
     (if 0 < amt then (es @ [\<lparr>went_ID = mkID ''went'' (Suc (seq s ''went'')), went_JournalID = jid,
                         went_Account = a, went_Direction = d, went_AmountMicros = amt,
                         went_Currency = cur, went_CreatedAt = now\<rparr>],
                       s\<lparr>seq := (seq s)(''went'' := Suc (seq s ''went''))\<rparr>)
      else (es, s))"
  by (simp add: settlementEntry_def nextID_def Let_def)

lemma settle_frame [simp, store_frame]:
  shows
    "instances (snd (appendSupplySettlementJournalLocked u cur ch sp fr ik rt ri now s)) = instances s"
    "hybridAllocations (snd (appendSupplySettlementJournalLocked u cur ch sp fr ik rt ri now s)) = hybridAllocations s"
    "wallets (snd (appendSupplySettlementJournalLocked u cur ch sp fr ik rt ri now s)) = wallets s"
    "walletReservations (snd (appendSupplySettlementJournalLocked u cur ch sp fr ik rt ri now s)) = walletReservations s"
    "virtualKeys (snd (appendSupplySettlementJournalLocked u cur ch sp fr ik rt ri now s)) = virtualKeys s"
    "supplyEndpoints (snd (appendSupplySettlementJournalLocked u cur ch sp fr ik rt ri now s)) = supplyEndpoints s"
    "supplyUsage (snd (appendSupplySettlementJournalLocked u cur ch sp fr ik rt ri now s)) = supplyUsage s"
    "supplyChannelStats (snd (appendSupplySettlementJournalLocked u cur ch sp fr ik rt ri now s)) = supplyChannelStats s"
    "paymentCallbackEvents (snd (appendSupplySettlementJournalLocked u cur ch sp fr ik rt ri now s)) = paymentCallbackEvents s"
    "audits (snd (appendSupplySettlementJournalLocked u cur ch sp fr ik rt ri now s)) = audits s"
    "upstreamPools (snd (appendSupplySettlementJournalLocked u cur ch sp fr ik rt ri now s)) = upstreamPools s"
    "upstreamChannels (snd (appendSupplySettlementJournalLocked u cur ch sp fr ik rt ri now s)) = upstreamChannels s"
    "paymentProviders (snd (appendSupplySettlementJournalLocked u cur ch sp fr ik rt ri now s)) = paymentProviders s"
    "paymentOrders (snd (appendSupplySettlementJournalLocked u cur ch sp fr ik rt ri now s)) = paymentOrders s"
    "redeemCodes (snd (appendSupplySettlementJournalLocked u cur ch sp fr ik rt ri now s)) = redeemCodes s"
    "users (snd (appendSupplySettlementJournalLocked u cur ch sp fr ik rt ri now s)) = users s"
  by (simp_all add: appendSupplySettlementJournalLocked_def settlementEntry_eq nextID_def Let_def)

lemma settle_seq [simp, store_frame]:
  "p \<noteq> ''wjnl'' \<Longrightarrow> p \<noteq> ''went'' \<Longrightarrow> seq (snd (appendSupplySettlementJournalLocked u cur ch sp fr ik rt ri now s)) p = seq s p"
  by (simp add: appendSupplySettlementJournalLocked_def settlementEntry_eq nextID_def Let_def)

lemma settle_journals [simp]:
  "walletJournals (snd (appendSupplySettlementJournalLocked u cur ch sp fr ik rt ri now s)) = walletJournals s @ [fst (appendSupplySettlementJournalLocked u cur ch sp fr ik rt ri now s)]"
  by (simp add: appendSupplySettlementJournalLocked_def settlementEntry_eq nextID_def Let_def)

lemma settle_fields [simp]:
  "wjnl_UserID (fst (appendSupplySettlementJournalLocked u cur ch sp fr ik rt ri now s)) = u"
  "wjnl_Kind (fst (appendSupplySettlementJournalLocked u cur ch sp fr ik rt ri now s)) = WalletJournalSettle"
  "wjnl_Currency (fst (appendSupplySettlementJournalLocked u cur ch sp fr ik rt ri now s)) = cur"
  "wjnl_AmountMicros (fst (appendSupplySettlementJournalLocked u cur ch sp fr ik rt ri now s)) = ch"
  "wjnl_IdempotencyKey (fst (appendSupplySettlementJournalLocked u cur ch sp fr ik rt ri now s)) = ik"
  "wjnl_ReferenceType (fst (appendSupplySettlementJournalLocked u cur ch sp fr ik rt ri now s)) = rt"
  "wjnl_ReferenceID (fst (appendSupplySettlementJournalLocked u cur ch sp fr ik rt ri now s)) = ri"
  by (simp_all add: appendSupplySettlementJournalLocked_def settlementEntry_eq nextID_def Let_def)

text \<open>The figures for which a settlement is recorded without wrap-around.\<close>

definition settle_figures :: "int64 \<Rightarrow> int64 \<Rightarrow> int64 \<Rightarrow> bool" where
  "settle_figures ch sp fr \<longleftrightarrow> 0 < ch \<and> in64 ch \<and> 0 \<le> sp \<and> sp \<le> ch \<and> 0 < fr \<and> fr \<le> ch"

lemma settle_figures_wrap:
  assumes "settle_figures ch sp fr"
  shows "wrap64 (ch - sp) = ch - sp" "wrap64 (ch - fr) = ch - fr"
    "wrap64 fr = fr" "wrap64 ch = ch" "wrap64 sp = sp"
  using assms by (auto intro!: wrap64_id simp: in64_def settle_figures_def)

lemma settle_amount:
  assumes "settle_figures ch sp fr"
  shows "journal_amount k a (fst (appendSupplySettlementJournalLocked u cur ch sp fr ik rt ri now s)) =
     (if walletMapKey u cur = k then
        (case a of WalletAccountUserReserved \<Rightarrow> - fr
         | WalletAccountUserAvailable \<Rightarrow> fr - ch
         | WalletAccountUpstreamPayable \<Rightarrow> sp
         | WalletAccountPlatformRevenue \<Rightarrow> ch - sp
         | WalletAccountPlatformCash \<Rightarrow> 0)
      else 0)"
  using assms settle_figures_wrap [OF assms]
  by (cases a) (auto simp: appendSupplySettlementJournalLocked_def settlementEntry_eq nextID_def
      Let_def journal_amount_def entry_amount_def settle_figures_def)

lemma settle_exact:
  assumes "settle_figures ch sp fr"
  shows "journal_exact (fst (appendSupplySettlementJournalLocked u cur ch sp fr ik rt ri now s))"
  using assms settle_figures_wrap [OF assms]
  by (auto simp: appendSupplySettlementJournalLocked_def settlementEntry_eq nextID_def
      Let_def entry_amount_def settle_figures_def journal_exact_def Balanced_def)

section \<open>Lemmas: wallets\<close>

lemma walletAt_update [simp]:
  "walletAt (s\<lparr>wallets := AList.update k w (wallets s)\<rparr>) k' = (if k' = k then w else walletAt s k')"
  by (simp add: walletAt_def update_conv)

lemma creditWallet_frame [simp, store_frame]:
  shows
    "instances (creditWallet k u cur d now s) = instances s"
    "hybridAllocations (creditWallet k u cur d now s) = hybridAllocations s"
    "walletReservations (creditWallet k u cur d now s) = walletReservations s"
    "virtualKeys (creditWallet k u cur d now s) = virtualKeys s"
    "supplyEndpoints (creditWallet k u cur d now s) = supplyEndpoints s"
    "supplyUsage (creditWallet k u cur d now s) = supplyUsage s"
    "supplyChannelStats (creditWallet k u cur d now s) = supplyChannelStats s"
    "paymentCallbackEvents (creditWallet k u cur d now s) = paymentCallbackEvents s"
    "audits (creditWallet k u cur d now s) = audits s"
    "upstreamPools (creditWallet k u cur d now s) = upstreamPools s"
    "upstreamChannels (creditWallet k u cur d now s) = upstreamChannels s"
    "paymentProviders (creditWallet k u cur d now s) = paymentProviders s"
    "paymentOrders (creditWallet k u cur d now s) = paymentOrders s"
    "redeemCodes (creditWallet k u cur d now s) = redeemCodes s"
    "users (creditWallet k u cur d now s) = users s"
    "walletJournals (creditWallet k u cur d now s) = walletJournals s"
    "seq (creditWallet k u cur d now s) = seq s"
  by (simp_all add: creditWallet_def Let_def)

lemma creditWallet_views [simp]:
  "available (creditWallet k u cur d now s) k' = (if k' = k then wrap64 (available s k + d) else available s k')"
  "reserved (creditWallet k u cur d now s) k' = reserved s k'"
  by (auto simp: creditWallet_def Let_def available_def reserved_def)

lemma views_cong:
  "wallets t = wallets s \<Longrightarrow> available t = available s" "wallets t = wallets s \<Longrightarrow> reserved t = reserved s"
  by (auto simp: available_def reserved_def walletAt_def fun_eq_iff)

text \<open>Only the wallet map decides what a wallet holds, only the journal what it says.\<close>

lemma walletAt_cong: "wallets s = wallets t \<Longrightarrow> walletAt s k = walletAt t k"
  by (simp add: walletAt_def)

lemma acct_balance_append:
  "walletJournals t = walletJournals s @ [j] \<Longrightarrow> acct_balance a t k = acct_balance a s k + journal_amount k a j"
  by (simp add: acct_balance_def)

lemma acct_balance_same: "walletJournals t = walletJournals s \<Longrightarrow> acct_balance a t k = acct_balance a s k"
  by (simp add: acct_balance_def)

lemma journals_ok_append:
  "walletJournals t = walletJournals s @ [j] \<Longrightarrow> journals_ok t \<longleftrightarrow> journals_ok s \<and> journal_exact j"
  by (auto simp: journals_ok_def)

text \<open>Over the five accounts the postings to one wallet cancel.\<close>

lemma journal_amount_close:
  assumes "journal_exact j"
  shows "journal_amount k WalletAccountPlatformCash j + journal_amount k WalletAccountUserAvailable j +
         journal_amount k WalletAccountUserReserved j + journal_amount k WalletAccountPlatformRevenue j +
         journal_amount k WalletAccountUpstreamPayable j = 0"
proof -
  let ?sum = "\<lambda>a es. sum_list (map entry_amount (filter (\<lambda>e. went_Account e = a) es))"
  have "?sum WalletAccountPlatformCash es + ?sum WalletAccountUserAvailable es + ?sum WalletAccountUserReserved es +
      ?sum WalletAccountPlatformRevenue es + ?sum WalletAccountUpstreamPayable es = sum_list (map entry_amount es)" for es
  proof (induction es)
    case (Cons e es)
    then show ?case by (cases "went_Account e") simp_all
  qed simp
  then show ?thesis using assms by (simp add: journal_amount_def journal_exact_def)
qed

lemma journals_ok_close:
  assumes "journals_ok s"
  shows "acct_balance WalletAccountPlatformCash s k + acct_balance WalletAccountUserAvailable s k +
         acct_balance WalletAccountUserReserved s k + acct_balance WalletAccountPlatformRevenue s k +
         acct_balance WalletAccountUpstreamPayable s k = 0"
proof -
  let ?sum = "\<lambda>a js. sum_list (map (journal_amount k a) js)"
  have "?sum WalletAccountPlatformCash js + ?sum WalletAccountUserAvailable js + ?sum WalletAccountUserReserved js +
      ?sum WalletAccountPlatformRevenue js + ?sum WalletAccountUpstreamPayable js = 0" if "list_all journal_exact js" for js
    using that
  proof (induction js)
    case (Cons j js)
    then show ?case using journal_amount_close [of j k] by simp
  qed simp
  then show ?thesis using assms by (simp add: acct_balance_def journals_ok_def)
qed

section \<open>The contract between a stored balance and the journal\<close>

text \<open>A step tracks the journal when each stored balance it changes moves, modulo
  \<open>2 ^ 64\<close>, by what the step posts to the account.\<close>

definition tracks :: "('s \<Rightarrow> 'k \<Rightarrow> int64) \<Rightarrow> ('s \<Rightarrow> 'k \<Rightarrow> int) \<Rightarrow> 's \<Rightarrow> 's \<Rightarrow> bool" where
  "tracks bal led s t \<longleftrightarrow>
     (\<forall>k. (bal t k = bal s k \<and> led t k = led s k) \<or> bal t k = wrap64 (bal s k + (led t k - led s k)))"

lemma tracks_refl: "(\<And>k. bal t k = bal s k) \<Longrightarrow> (\<And>k. led t k = led s k) \<Longrightarrow> tracks bal led s t"
  by (simp add: tracks_def)

lemma tracksI:
  assumes "\<And>k. bal t k = (if k = k0 then wrap64 (bal s k + d) else bal s k)"
    and "\<And>k. led t k = led s k + (if k = k0 then d else 0)"
  shows "tracks bal led s t"
  using assms by (simp add: tracks_def)

locale ledger_view = invariant_system init step ok
  for init :: "'s \<Rightarrow> bool" and step :: "'s \<Rightarrow> 's \<Rightarrow> bool" and ok :: "'s \<Rightarrow> bool" +
  fixes bal :: "'s \<Rightarrow> 'k \<Rightarrow> int64"
    and led :: "'s \<Rightarrow> 'k \<Rightarrow> int"
  assumes agree_init: "init s \<Longrightarrow> bal s k = wrap64 (led s k)"
    and step_tracks: "ok s \<Longrightarrow> step s t \<Longrightarrow> tracks bal led s t"
begin

lemma agree_step:
  assumes "ok s" and "step s t" and "bal s k = wrap64 (led s k)"
  shows "bal t k = wrap64 (led t k)"
proof -
  from step_tracks [OF assms(1,2)] consider
      "bal t k = bal s k" "led t k = led s k"
    | "bal t k = wrap64 (bal s k + (led t k - led s k))"
    unfolding tracks_def by blast
  then show ?thesis using assms(3) by cases simp_all
qed

lemma reach_agree: "reach init step s \<Longrightarrow> bal s k = wrap64 (led s k)"
proof (induction rule: reach.induct)
  case (reach_init s)
  then show ?case by (rule agree_init)
next
  case (reach_step s t)
  then show ?case using agree_step reach_inv by blast
qed

text \<open>While the journal's figure fits 64 bits, the stored balance is that figure.\<close>

lemma reach_agree_exact: "reach init step s \<Longrightarrow> in64 (led s k) \<Longrightarrow> bal s k = led s k"
  by (simp add: reach_agree wrap64_id)

end

section \<open>The manual adjustment\<close>

text \<open>Every outcome of \<open>AdjustWalletBalance\<close>: nothing changes, or one posting is made.\<close>

definition adjust_posting ::
  "clock \<Rightarrow> int64 \<Rightarrow> string \<Rightarrow> int64 \<Rightarrow> string \<Rightarrow> string \<Rightarrow> MemoryStore \<Rightarrow> WalletJournal \<times> MemoryStore" where
  "adjust_posting nw u cur delta ik n s =
     appendWalletJournalLocked u WalletJournalAdjustment cur
       (if delta < 0 then wrap64 (- delta) else delta) ik ''admin_balance_adjustment'' n
       (if delta < 0 then WalletAccountUserAvailable else WalletAccountPlatformCash)
       (if delta < 0 then WalletAccountPlatformCash else WalletAccountUserAvailable)
       (nw 0) (creditWallet (walletMapKey u cur) u cur delta (nw 0) s)"

lemma AdjustWalletBalance_cases:
  assumes "AdjustWalletBalance nw c u currency delta key note1 s = (r, t)"
  obtains (unchanged) "t = s"
  | (posted) cur ik n j where
      "cur = ToUpper (TrimSpace currency)" "ik = TrimSpace key" "n = TrimSpace note1"
      "c = None" "0 < u" "validCurrency cur" "delta \<noteq> 0" "ik \<noteq> ''''"
      "find (\<lambda>j. wjnl_UserID j = u \<and> wjnl_IdempotencyKey j = ik) (walletJournals s) = None"
      "delta < 0 \<Longrightarrow> wrap64 (- delta) \<le> available s (walletMapKey u cur)"
      "adjust_posting nw u cur delta ik n s = (j, t)"
      "r = Inr (walletAt t (walletMapKey u cur), j)"
proof (cases "t = s")
  case True
  then show ?thesis by (rule unchanged)
next
  case False
  show ?thesis
    by (rule posted [of "ToUpper (TrimSpace currency)" "TrimSpace key" "TrimSpace note1"
          "fst (adjust_posting nw u (ToUpper (TrimSpace currency)) delta (TrimSpace key) (TrimSpace note1) s)"])
       (use assms False in \<open>auto simp: AdjustWalletBalance_def adjust_posting_def Let_def available_def not_less
          split: option.splits if_splits prod.splits\<close>)
qed

section \<open>Operations that leave the money alone\<close>

text \<open>Two stores agree on the wallets, the journal, the reservations and their usage rows,
  and on the counter that numbers reservations.\<close>

definition same_core :: "MemoryStore \<Rightarrow> MemoryStore \<Rightarrow> bool" where
  "same_core s t \<longleftrightarrow>
     wallets t = wallets s \<and> walletJournals t = walletJournals s \<and>
     walletReservations t = walletReservations s \<and> supplyUsage t = supplyUsage s \<and>
     seq t ''wres'' = seq s ''wres''"

lemma same_core_refl [simp]: "same_core s s"
  by (simp add: same_core_def)

lemma same_core_trans: "same_core s t \<Longrightarrow> same_core t u \<Longrightarrow> same_core s u"
  by (simp add: same_core_def)

text \<open>Two stores agree on the redeem codes, on the payment orders, on the supply catalogue.\<close>

definition same_codes :: "MemoryStore \<Rightarrow> MemoryStore \<Rightarrow> bool" where
  "same_codes s t \<longleftrightarrow> redeemCodes t = redeemCodes s \<and> seq t ''redeem'' = seq s ''redeem''"

definition same_orders :: "MemoryStore \<Rightarrow> MemoryStore \<Rightarrow> bool" where
  "same_orders s t \<longleftrightarrow> paymentOrders t = paymentOrders s"

definition same_catalog :: "MemoryStore \<Rightarrow> MemoryStore \<Rightarrow> bool" where
  "same_catalog s t \<longleftrightarrow> supplyEndpoints t = supplyEndpoints s \<and> virtualKeys t = virtualKeys s \<and>
     hybridAllocations t = hybridAllocations s"

lemmas same_defs = same_core_def same_codes_def same_orders_def same_catalog_def

lemma same_refl [simp]: "same_codes s s" "same_orders s s" "same_catalog s s"
  by (simp_all add: same_defs)

text \<open>How many journals of one kind refer to one object.\<close>

definition posts_for :: "WalletJournalKind \<Rightarrow> MemoryStore \<Rightarrow> string \<Rightarrow> nat" where
  "posts_for kind s i =
     length (filter (\<lambda>j. wjnl_Kind j = kind \<and> wjnl_ReferenceID j = i) (walletJournals s))"

lemma posts_for_append:
  "walletJournals t = walletJournals s @ [j] \<Longrightarrow>
   posts_for kind t i = posts_for kind s i + (if wjnl_Kind j = kind \<and> wjnl_ReferenceID j = i then 1 else 0)"
  by (simp add: posts_for_def)

lemma posts_for_same: "walletJournals t = walletJournals s \<Longrightarrow> posts_for kind t i = posts_for kind s i"
  by (simp add: posts_for_def)

section \<open>Operations that move money\<close>

text \<open>The sum of the active holds on one wallet.\<close>

definition hold_on :: "string \<Rightarrow> WalletReservation \<Rightarrow> int" where
  "hold_on k r = (if wres_Status r = WalletReservationActive \<and>
       walletMapKey (wres_UserID r) (wres_Currency r) = k then wres_ReservedMicros r else 0)"

definition held :: "MemoryStore \<Rightarrow> string \<Rightarrow> int" where
  "held s k = vsum (hold_on k) (walletReservations s)"

lemma held_same: "walletReservations t = walletReservations s \<Longrightarrow> held t k = held s k"
  by (simp add: held_def)

text \<open>
  The effect every operation that moves money has: it moves one wallet's available balance
  by \<open>da\<close> and its reserved balance by \<open>dr\<close>, appends exact journals that say so, and moves
  the active holds by \<open>dr\<close> too.
\<close>

definition books :: "MemoryStore \<Rightarrow> MemoryStore \<Rightarrow> string \<Rightarrow> int \<Rightarrow> int \<Rightarrow> bool" where
  "books s t k da dr \<longleftrightarrow>
     (\<exists>js. walletJournals t = walletJournals s @ js \<and> list_all journal_exact js \<and>
        (\<forall>k'. sum_list (map (journal_amount k' WalletAccountUserAvailable) js) = (if k' = k then da else 0)) \<and>
        (\<forall>k'. sum_list (map (journal_amount k' WalletAccountUserReserved) js) = (if k' = k then dr else 0))) \<and>
     (\<forall>k'. available t k' = (if k' = k then wrap64 (available s k' + da) else available s k')) \<and>
     (\<forall>k'. reserved t k' = (if k' = k \<and> dr \<noteq> 0 then wrap64 (reserved s k' + dr) else reserved s k')) \<and>
     (\<forall>k'. held t k' = held s k' + (if k' = k then dr else 0))"

lemma books_ledger:
  assumes "books s t k da dr"
  shows "acct_balance WalletAccountUserAvailable t k' =
           acct_balance WalletAccountUserAvailable s k' + (if k' = k then da else 0)"
    and "acct_balance WalletAccountUserReserved t k' =
           acct_balance WalletAccountUserReserved s k' + (if k' = k then dr else 0)"
    and "journals_ok t = journals_ok s"
  using assms by (auto simp: books_def acct_balance_def journals_ok_def)

lemma books_tracks:
  assumes "books s t k da dr"
  shows "tracks available (acct_balance WalletAccountUserAvailable) s t"
    and "tracks reserved (acct_balance WalletAccountUserReserved) s t"
    and "tracks reserved held s t"
  using assms books_ledger [OF assms] by (auto simp: tracks_def books_def)

lemma same_core_tracks:
  assumes "same_core s t"
  shows "tracks available (acct_balance WalletAccountUserAvailable) s t"
    and "tracks reserved (acct_balance WalletAccountUserReserved) s t"
    and "tracks reserved held s t"
    and "journals_ok t = journals_ok s"
proof -
  have eq: "wallets t = wallets s" "walletJournals t = walletJournals s"
    "walletReservations t = walletReservations s"
    using assms by (simp_all add: same_core_def)
  show "tracks available (acct_balance WalletAccountUserAvailable) s t"
    and "tracks reserved (acct_balance WalletAccountUserReserved) s t"
    and "tracks reserved held s t"
    by (rule tracks_refl; simp only: views_cong [OF eq(1)] acct_balance_same [OF eq(2)] held_same [OF eq(3)])+
  show "journals_ok t = journals_ok s" by (simp add: journals_ok_def eq)
qed

text \<open>A deposit is one such operation: credit the wallet and append one journal.\<close>

lemma books_deposit:
  assumes "wallets t = wallets (creditWallet (walletMapKey u cur) u cur delta now s)"
    and "walletJournals t = walletJournals s @
           [fst (appendWalletJournalLocked u kind cur \<bar>delta\<bar> ik rt ri d c now' s')]"
    and "walletReservations t = walletReservations s"
    and "delta \<noteq> 0" and "in64 \<bar>delta\<bar>"
    and "(d, c) = (if delta < 0 then (WalletAccountUserAvailable, WalletAccountPlatformCash)
                   else (WalletAccountPlatformCash, WalletAccountUserAvailable))"
  shows "books s t (walletMapKey u cur) delta 0"
proof -
  let ?k = "walletMapKey u cur"
  have dc: "d \<noteq> c" using assms(6) by (auto split: if_splits)
  have av: "available t = available (creditWallet ?k u cur delta now s)"
    and re: "reserved t = reserved (creditWallet ?k u cur delta now s)"
    using views_cong [OF assms(1)] by auto
  show ?thesis
    unfolding books_def assms(2)
    using assms(4-6) dc
    by (auto simp: av re held_same [OF assms(3)] split: if_splits)
qed

lemma adjust_books:
  assumes "adjust_posting nw u cur delta ik n s = (j, t)" "delta \<noteq> 0" "- (2 ^ 63) < delta" "in64 delta"
  shows "books s t (walletMapKey u cur) delta 0"
proof (rule books_deposit)
  have w: "wrap64 (- delta) = - delta" if "delta < 0"
    using assms that by (intro wrap64_id) (auto simp: in64_def)
  show "walletJournals t = walletJournals s @
     [fst (appendWalletJournalLocked u WalletJournalAdjustment cur \<bar>delta\<bar> ik ''admin_balance_adjustment'' n
       (if delta < 0 then WalletAccountUserAvailable else WalletAccountPlatformCash)
       (if delta < 0 then WalletAccountPlatformCash else WalletAccountUserAvailable)
       (nw 0) (creditWallet (walletMapKey u cur) u cur delta (nw 0) s))]"
  proof -
    have "walletJournals t = walletJournals s @ [fst (adjust_posting nw u cur delta ik n s)]"
      using arg_cong [OF assms(1), of "\<lambda>p. walletJournals (snd p)"] by (simp add: adjust_posting_def)
    then show ?thesis by (simp add: adjust_posting_def w)
  qed
  show "wallets t = wallets (creditWallet (walletMapKey u cur) u cur delta (nw 0) s)"
    using arg_cong [OF assms(1), of "\<lambda>p. wallets (snd p)"] by (simp add: adjust_posting_def)
  show "walletReservations t = walletReservations s"
    using arg_cong [OF assms(1), of "\<lambda>p. walletReservations (snd p)"] by (simp add: adjust_posting_def)
qed (use assms in \<open>auto simp: in64_def\<close>)

end
