(* ===== verification/Payment_Orders.thy ===== *)
theory Payment_Orders
  imports Wallet_Ledger
begin

text \<open>
  Payment orders and provider callbacks:
  \<open>app/e2m-core/internal/store/payment_order_validation.go\<close> (normalising an order and its
  decimal amounts) and \<open>memory_payment_order.go\<close> (create, bind to a checkout, confirm,
  reject, list, cancel, expire). \<open>copyPaymentOrder\<close> and \<open>utcTimePointer\<close> are the identity
  on values; every error that wraps \<open>ErrInvalid\<close> is \<open>ErrInvalid\<close>.

  The theorems are about decimal amounts (exact, bounded, canonical form), about the life
  of an order (who may leave \<open>PENDING\<close>, nothing leaves \<open>COMPLETED\<close>) and about the
  confirmation, which credits an order at most once.
\<close>

section \<open>Decimal amounts\<close>

text \<open>\<open>strings.Split(raw, ".")\<close>.\<close>

fun split_dot :: "string \<Rightarrow> string list" where
  "split_dot [] = [[]]"
| "split_dot (c # cs) =
     (if c = CHR ''.'' then [] # split_dot cs
      else case split_dot cs of [] \<Rightarrow> [[c]] | p # ps \<Rightarrow> (c # p) # ps)"

definition normalizePaymentDecimal :: "string \<Rightarrow> nat \<Rightarrow> nat \<Rightarrow> string option" where
  "normalizePaymentDecimal raw maxIntegerDigits scale =
     (let raw = TrimSpace raw in
      if raw = '''' \<or> take 1 raw = ''-'' \<or> take 1 raw = ''+'' then None
      else let parts = split_dot raw; p0 = hd parts in
      if 2 < length parts \<or> p0 = '''' \<or> maxIntegerDigits < length p0 then None
      else if \<not> list_all is_digit p0 then None
      else let integer = dropWhile (\<lambda>c. c = CHR ''0'') p0;
               integer = (if integer = '''' then ''0'' else integer)
      in
      if length parts = 2 \<and>
         (parts ! 1 = '''' \<or> scale < length (parts ! 1) \<or> \<not> list_all is_digit (parts ! 1)) then None
      else let fraction = (if length parts = 2 then parts ! 1 else '''');
               fraction = fraction @ replicate (scale - length fraction) (CHR ''0'')
      in Some (if scale = 0 then integer else integer @ ''.'' @ fraction))"

definition digits_loop :: "string \<Rightarrow> int64" where
  "digits_loop = foldl (\<lambda>a c. wrap64 (wrap64 (a * 10) + (of_char c - 48))) 0"

text \<open>The branch without a second part is Go's index panic; \<open>paymentDecimal_parts\<close> shows
  that it is not reached.\<close>

definition paymentDecimalToMicros :: "string \<Rightarrow> int64 option" where
  "paymentDecimalToMicros raw =
     (case normalizePaymentDecimal raw 12 2 of
        None \<Rightarrow> None
      | Some normalized \<Rightarrow>
          (case split_dot normalized of
             p0 # p1 # _ \<Rightarrow>
               Some (wrap64 (wrap64 (digits_loop p0 * 1000000) + wrap64 (digits_loop p1 * 10000)))
           | _ \<Rightarrow> None))"

section \<open>Normalising an order\<close>

definition validStoredPaymentOrderStatus :: "PaymentOrderStatus \<Rightarrow> bool" where
  "validStoredPaymentOrderStatus st = (case st of PaymentOrderStatusOther _ \<Rightarrow> False | _ \<Rightarrow> True)"

definition validStoredPaymentType :: "string \<Rightarrow> bool" where
  "validStoredPaymentType v \<longleftrightarrow>
     v \<in> set [''alipay'', ''wxpay'', ''alipay_direct'', ''wxpay_direct'', ''card'', ''link'',
              ''stripe'', ''airwallex'', ''easypay'']"

definition safePaymentOrderNumber :: "string \<Rightarrow> bool" where
  "safePaymentOrderNumber v =
     list_all (\<lambda>c. is_lower c \<or> is_upper c \<or> is_digit c \<or> c = CHR ''_'' \<or> c = CHR ''-'') v"

definition asciiUpper :: "string \<Rightarrow> bool" where
  "asciiUpper v = list_all is_upper v"

definition normalizePaymentOrderForCreate :: "PaymentOrder \<Rightarrow> store_error + PaymentOrder" where
  "normalizePaymentOrderForCreate order =
     (if po_UserID order \<le> 0 then Inl ErrInvalid
      else case normalizePaymentDecimal (po_Amount order) 18 2 of None \<Rightarrow> Inl ErrInvalid | Some amount \<Rightarrow>
      case normalizePaymentDecimal (po_PayAmount order) 18 2 of None \<Rightarrow> Inl ErrInvalid | Some payAmount \<Rightarrow>
      case normalizePaymentDecimal (po_FeeRate order) 6 4 of None \<Rightarrow> Inl ErrInvalid | Some feeRate \<Rightarrow>
      case normalizePaymentDecimal
             (if po_RefundAmount order = '''' then ''0'' else po_RefundAmount order) 18 2 of
        None \<Rightarrow> Inl ErrInvalid
      | Some refundAmount \<Rightarrow>
      let currency = ToUpper (TrimSpace (po_Currency order));
          paymentType = ToLower (TrimSpace (po_PaymentType order));
          outTradeNo = TrimSpace (po_OutTradeNo order);
          paymentTradeNo = TrimSpace (po_PaymentTradeNo order);
          orderType = (if po_OrderType order = PaymentOrderTypeOther '''' then PaymentOrderBalance
                       else po_OrderType order);
          status = (if po_Status order = PaymentOrderStatusOther '''' then PaymentOrderPending
                    else po_Status order);
          providerOrderID = TrimSpace (po_ProviderOrderID order)
      in
      if length currency \<noteq> 3 \<or> \<not> asciiUpper currency then Inl ErrInvalid
      else if \<not> validStoredPaymentType paymentType then Inl ErrInvalid
      else if outTradeNo = '''' \<or> 64 < length outTradeNo \<or> \<not> safePaymentOrderNumber outTradeNo
      then Inl ErrInvalid
      else if 128 < length paymentTradeNo then Inl ErrInvalid
      else if orderType \<noteq> PaymentOrderBalance \<and> orderType \<noteq> PaymentOrderSubscription then Inl ErrInvalid
      else if \<not> validStoredPaymentOrderStatus status then Inl ErrInvalid
      else if IsZero (po_ExpiresAt order) then Inl ErrInvalid
      else if 128 < length providerOrderID then Inl ErrInvalid
      else Inr (order\<lparr>po_Amount := amount, po_PayAmount := payAmount, po_FeeRate := feeRate,
             po_RefundAmount := refundAmount, po_Currency := currency, po_PaymentType := paymentType,
             po_OutTradeNo := outTradeNo, po_PaymentTradeNo := paymentTradeNo,
             po_OrderType := orderType, po_Status := status,
             po_UserEmail := TrimSpace (po_UserEmail order),
             po_UserName := TrimSpace (po_UserName order),
             po_ProviderInstanceID := TrimSpace (po_ProviderInstanceID order),
             po_ProviderOrderID := providerOrderID,
             po_ProviderName := TrimSpace (po_ProviderName order)\<rparr>))"

definition normalizePaymentOrderPage :: "int \<Rightarrow> int \<Rightarrow> int \<times> int" where
  "normalizePaymentOrderPage page pageSize =
     (if page < 1 then 1 else page,
      if pageSize < 1 then 20 else if 100 < pageSize then 100 else pageSize)"

section \<open>The operations\<close>

definition CreatePaymentOrder :: "clock \<Rightarrow> ctx \<Rightarrow> PaymentOrder \<Rightarrow> MemoryStore \<Rightarrow> PaymentOrder result" where
  "CreatePaymentOrder nw c input s =
     (case c of Some e \<Rightarrow> (Inl (ErrContext e), s) | None \<Rightarrow>
      if \<not> list_ex (\<lambda>u. user_ID u = po_UserID input) (users s) then (Inl ErrInvalid, s)
      else case normalizePaymentOrderForCreate input of Inl e \<Rightarrow> (Inl e, s) | Inr order \<Rightarrow>
      let (i, s) = (if po_ID order = '''' then nextID ''payord'' s else (po_ID order, s));
          order = order\<lparr>po_ID := i\<rparr>
      in
      if list_ex (\<lambda>x. po_ID x = po_ID order \<or>
             po_OutTradeNo order \<noteq> '''' \<and> po_OutTradeNo x = po_OutTradeNo order) (paymentOrders s)
      then (Inl ErrDuplicate, s)
      else
      let created = (if IsZero (po_CreatedAt order) then nw 0 else po_CreatedAt order);
          updated = (if IsZero (po_UpdatedAt order) then created else po_UpdatedAt order);
          order = order\<lparr>po_CreatedAt := created, po_UpdatedAt := updated\<rparr>
      in (Inr order, s\<lparr>paymentOrders := paymentOrders s @ [order]\<rparr>))"

definition GetPaymentOrder :: "ctx \<Rightarrow> string \<Rightarrow> MemoryStore \<Rightarrow> PaymentOrder result" where
  "GetPaymentOrder c i s =
     (case c of Some e \<Rightarrow> (Inl (ErrContext e), s) | None \<Rightarrow>
      case find (\<lambda>x. po_ID x = i) (paymentOrders s) of
        Some order \<Rightarrow> (Inr order, s) | None \<Rightarrow> (Inl ErrNotFound, s))"

definition BindPaymentOrderCheckout ::
  "clock \<Rightarrow> ctx \<Rightarrow> string \<Rightarrow> string \<Rightarrow> MemoryStore \<Rightarrow> PaymentOrder result" where
  "BindPaymentOrderCheckout nw c i providerOrderID s =
     (case c of Some e \<Rightarrow> (Inl (ErrContext e), s) | None \<Rightarrow>
      let providerOrderID = TrimSpace providerOrderID in
      if providerOrderID = '''' \<or> 128 < length providerOrderID then (Inl ErrInvalid, s)
      else if list_ex (\<lambda>x. po_ProviderOrderID x = providerOrderID \<and> po_ID x \<noteq> i) (paymentOrders s)
      then (Inl ErrDuplicate, s)
      else case find (\<lambda>x. po_ID x = i) (paymentOrders s) of
        None \<Rightarrow> (Inl ErrNotFound, s)
      | Some order \<Rightarrow>
          if po_Status order \<noteq> PaymentOrderPending \<or>
             po_ProviderOrderID order \<noteq> '''' \<and> po_ProviderOrderID order \<noteq> providerOrderID
          then (Inl ErrConflict, s)
          else let order' = order\<lparr>po_ProviderOrderID := providerOrderID, po_UpdatedAt := nw 0\<rparr> in
            (Inr order', s\<lparr>paymentOrders :=
               update_first (\<lambda>x. po_ID x = i) (\<lambda>_. order') (paymentOrders s)\<rparr>))"

definition GetPaymentOrderByOutTradeNo :: "ctx \<Rightarrow> string \<Rightarrow> MemoryStore \<Rightarrow> PaymentOrder result" where
  "GetPaymentOrderByOutTradeNo c outTradeNo s =
     (case c of Some e \<Rightarrow> (Inl (ErrContext e), s) | None \<Rightarrow>
      case find (\<lambda>x. po_OutTradeNo x = TrimSpace outTradeNo) (paymentOrders s) of
        Some order \<Rightarrow> (Inr order, s) | None \<Rightarrow> (Inl ErrNotFound, s))"

definition trimNotification :: "PaymentNotification \<Rightarrow> PaymentNotification" where
  "trimNotification n = n\<lparr>
     pn_ProviderInstanceID := TrimSpace (pn_ProviderInstanceID n),
     pn_EventID := TrimSpace (pn_EventID n),
     pn_OutTradeNo := TrimSpace (pn_OutTradeNo n),
     pn_PaymentTradeNo := TrimSpace (pn_PaymentTradeNo n),
     pn_ProviderOrderID := TrimSpace (pn_ProviderOrderID n),
     pn_Currency := ToUpper (TrimSpace (pn_Currency n))\<rparr>"

definition validNotification :: "PaymentNotification \<Rightarrow> string \<Rightarrow> bool" where
  "validNotification n bodyHash \<longleftrightarrow>
     \<not> (pn_ProviderInstanceID n = '''' \<or> pn_ProviderKey n = PaymentProviderOther '''' \<or>
        pn_EventID n = '''' \<or> pn_OutTradeNo n = '''' \<or> pn_PaymentTradeNo n = '''' \<or>
        pn_ProviderOrderID n = '''' \<or> pn_PaidAmountMicros n \<le> 0 \<or>
        \<not> validCurrency (pn_Currency n) \<or> IsZero (pn_PaidAt n) \<or> bodyHash = '''')"

definition callbackKey :: "string \<Rightarrow> string \<Rightarrow> string" where
  "callbackKey providerInstanceID eventID = providerInstanceID @ '':'' @ eventID"

text \<open>\<open>s.paymentCallbackEvents[eventKey] = ...\<close> for an accepted callback.\<close>

definition recordAccepted ::
  "PaymentNotification \<Rightarrow> string \<Rightarrow> string \<Rightarrow> time \<Rightarrow> MemoryStore \<Rightarrow> MemoryStore" where
  "recordAccepted n orderID bodyHash now s =
     (let (i, s) = nextID ''payevt'' s in
      s\<lparr>paymentCallbackEvents := AList.update (callbackKey (pn_ProviderInstanceID n) (pn_EventID n))
          \<lparr>pce_ID = i, pce_ProviderInstanceID = pn_ProviderInstanceID n,
            pce_ProviderKey = pn_ProviderKey n, pce_EventID = pn_EventID n, pce_OrderID = orderID,
            pce_BodyHash = bodyHash, pce_Accepted = True, pce_ErrorCode = '''', pce_CreatedAt = now\<rparr>
          (paymentCallbackEvents s)\<rparr>)"

text \<open>The order as a confirmation leaves it.\<close>

definition completedOrder :: "PaymentNotification \<Rightarrow> time \<Rightarrow> PaymentOrder \<Rightarrow> PaymentOrder" where
  "completedOrder n now order = order\<lparr>po_Status := PaymentOrderCompleted,
     po_PaymentTradeNo := pn_PaymentTradeNo n, po_ProviderOrderID := pn_ProviderOrderID n,
     po_PaidAt := Some (pn_PaidAt n), po_CompletedAt := Some now, po_UpdatedAt := now\<rparr>"

text \<open>The writes of a confirmation that completes an order: the order, the wallet, the
  recharge journal and the callback event.\<close>

definition confirmPosting ::
  "PaymentNotification \<Rightarrow> string \<Rightarrow> PaymentOrder \<Rightarrow> time \<Rightarrow> MemoryStore \<Rightarrow> MemoryStore" where
  "confirmPosting n bodyHash order now s =
     (let s = s\<lparr>paymentOrders := update_first (\<lambda>x. po_OutTradeNo x = pn_OutTradeNo n)
                 (completedOrder n now) (paymentOrders s)\<rparr>;
          s = creditWallet (walletMapKey (po_UserID order) (po_Currency order)) (po_UserID order)
                (po_Currency order) (pn_PaidAmountMicros n) now s;
          (j, s) = appendWalletJournalLocked (po_UserID order) WalletJournalRecharge (po_Currency order)
                (pn_PaidAmountMicros n) (''payment:'' @ po_ID order) ''payment_order'' (po_ID order)
                WalletAccountPlatformCash WalletAccountUserAvailable now s
      in recordAccepted n (po_ID order) bodyHash now s)"

definition ConfirmRechargePayment ::
  "clock \<Rightarrow> ctx \<Rightarrow> PaymentNotification \<Rightarrow> string \<Rightarrow> MemoryStore \<Rightarrow>
   (PaymentOrder \<times> Wallet \<times> bool) result" where
  "ConfirmRechargePayment nw c notification bodyHash s =
     (case c of Some e \<Rightarrow> (Inl (ErrContext e), s) | None \<Rightarrow>
      let n = trimNotification notification; bodyHash = TrimSpace bodyHash in
      if \<not> validNotification n bodyHash then (Inl ErrInvalid, s)
      else case map_of (paymentCallbackEvents s) (callbackKey (pn_ProviderInstanceID n) (pn_EventID n)) of
        Some event \<Rightarrow>
          if pce_BodyHash event \<noteq> bodyHash then (Inl ErrConflict, s)
          else (case find (\<lambda>x. po_ID x = pce_OrderID event) (paymentOrders s) of
              Some order \<Rightarrow>
                (Inr (order, walletAt s (walletMapKey (po_UserID order) (po_Currency order)), False), s)
            | None \<Rightarrow> (Inl ErrConflict, s))
      | None \<Rightarrow>
      if \<not> list_ex (\<lambda>p. pp_ID p = pn_ProviderInstanceID n \<and> pp_ProviderKey p = pn_ProviderKey n)
             (paymentProviders s)
      then (Inl ErrInvalid, s)
      else case find (\<lambda>x. po_OutTradeNo x = pn_OutTradeNo n) (paymentOrders s) of
        None \<Rightarrow> (Inl ErrNotFound, s)
      | Some order \<Rightarrow>
      if paymentDecimalToMicros (po_PayAmount order) \<noteq> Some (pn_PaidAmountMicros n) \<or>
         po_Currency order \<noteq> pn_Currency n \<or>
         po_ProviderInstanceID order \<noteq> pn_ProviderInstanceID n \<or>
         po_ProviderKey order \<noteq> pn_ProviderKey n \<or>
         po_OrderType order \<noteq> PaymentOrderBalance \<or>
         po_ProviderOrderID order \<noteq> '''' \<and> po_ProviderOrderID order \<noteq> pn_ProviderOrderID n
      then (Inl ErrInvalid, s)
      else if po_Status order = PaymentOrderCompleted then
        (let s = recordAccepted n (po_ID order) bodyHash (nw 0) s in
         (Inr (order, walletAt s (walletMapKey (po_UserID order) (po_Currency order)), False), s))
      else if po_Status order \<noteq> PaymentOrderPending then (Inl ErrConflict, s)
      else
        (let s = confirmPosting n bodyHash order (nw 0) s in
         (Inr (completedOrder n (nw 0) order,
               walletAt s (walletMapKey (po_UserID order) (po_Currency order)), True), s)))"

definition RecordRejectedPaymentCallback ::
  "clock \<Rightarrow> ctx \<Rightarrow> PaymentCallbackEvent \<Rightarrow> MemoryStore \<Rightarrow> unit result" where
  "RecordRejectedPaymentCallback nw c event0 s =
     (case c of Some e \<Rightarrow> (Inl (ErrContext e), s) | None \<Rightarrow>
      let event = event0\<lparr>pce_ProviderInstanceID := TrimSpace (pce_ProviderInstanceID event0),
                    pce_EventID := TrimSpace (pce_EventID event0),
                    pce_BodyHash := TrimSpace (pce_BodyHash event0),
                    pce_ErrorCode := TrimSpace (pce_ErrorCode event0)\<rparr>;
          eventKey = callbackKey (pce_ProviderInstanceID event) (pce_EventID event)
      in
      if pce_ProviderInstanceID event = '''' \<or> pce_ProviderKey event = PaymentProviderOther '''' \<or>
         pce_EventID event = '''' \<or> pce_BodyHash event = '''' \<or> pce_Accepted event \<or>
         pce_ErrorCode event = '''' then (Inl ErrInvalid, s)
      else if \<not> list_ex (\<lambda>p. pp_ID p = pce_ProviderInstanceID event \<and> pp_ProviderKey p = pce_ProviderKey event)
                 (paymentProviders s)
      then (Inl ErrInvalid, s)
      else case map_of (paymentCallbackEvents s) eventKey of
        Some existing \<Rightarrow>
          if pce_BodyHash existing \<noteq> pce_BodyHash event then (Inl ErrConflict, s) else (Inr (), s)
      | None \<Rightarrow>
        let (i, s) = (if pce_ID event = '''' then nextID ''payevt'' s else (pce_ID event, s));
            event = event\<lparr>pce_ID := i,
              pce_CreatedAt := (if IsZero (pce_CreatedAt event) then nw 0 else pce_CreatedAt event)\<rparr>
        in (Inr (), s\<lparr>paymentCallbackEvents :=
               AList.update eventKey event (paymentCallbackEvents s)\<rparr>))"

text \<open>The two ways out of \<open>PENDING\<close> that are not a payment share their body: the
  loop over the orders, the guard, the status write and the audit row.\<close>

definition closePendingOrder ::
  "PaymentOrderStatus \<Rightarrow> clock \<Rightarrow> ctx \<Rightarrow> string \<Rightarrow> OperationAudit \<Rightarrow> MemoryStore \<Rightarrow> PaymentOrder result" where
  "closePendingOrder st nw c i audit s =
     (case c of Some e \<Rightarrow> (Inl (ErrContext e), s) | None \<Rightarrow>
      case find (\<lambda>x. po_ID x = i) (paymentOrders s) of
        None \<Rightarrow> (Inl ErrNotFound, s)
      | Some order \<Rightarrow>
          if po_Status order \<noteq> PaymentOrderPending \<or> TrimSpace (po_PaymentTradeNo order) \<noteq> ''''
          then (Inl ErrConflict, s)
          else
          let now = nw 0;
              order' = order\<lparr>po_Status := st, po_UpdatedAt := now\<rparr>;
              s = s\<lparr>paymentOrders := update_first (\<lambda>x. po_ID x = i) (\<lambda>_. order') (paymentOrders s)\<rparr>;
              (aid, s) = (if aud_ID audit = '''' then nextID ''audit'' s else (aud_ID audit, s));
              audit = audit\<lparr>
                aud_EventLevel := (if EventLevel_Valid (aud_EventLevel audit) then aud_EventLevel audit
                                   else DefaultEventLevel (aud_RiskLevel audit) (aud_Result audit)),
                aud_ID := aid,
                aud_CreatedAt := (if IsZero (aud_CreatedAt audit) then now else aud_CreatedAt audit),
                aud_UserID := po_UserID order, aud_TargetType := ''payment_order'',
                aud_TargetID := po_ID order\<rparr>
          in (Inr order', s\<lparr>audits := audits s @ [audit]\<rparr>))"

definition CancelPendingPaymentOrder ::
  "clock \<Rightarrow> ctx \<Rightarrow> string \<Rightarrow> OperationAudit \<Rightarrow> MemoryStore \<Rightarrow> PaymentOrder result" where
  "CancelPendingPaymentOrder = closePendingOrder PaymentOrderCancelled"

definition ExpirePaymentOrder ::
  "clock \<Rightarrow> ctx \<Rightarrow> string \<Rightarrow> OperationAudit \<Rightarrow> MemoryStore \<Rightarrow> PaymentOrder result" where
  "ExpirePaymentOrder = closePendingOrder PaymentOrderExpired"

definition ListExpiredPendingPaymentOrders ::
  "ctx \<Rightarrow> time \<Rightarrow> int \<Rightarrow> MemoryStore \<Rightarrow> PaymentOrder list result" where
  "ListExpiredPendingPaymentOrders c cutoff limit s =
     (case c of Some e \<Rightarrow> (Inl (ErrContext e), s) | None \<Rightarrow>
      let limit = (if limit \<le> 0 then 100 else limit);
          out = filter (\<lambda>order. \<not> (po_Status order \<noteq> PaymentOrderPending \<or>
                   TrimSpace (po_PaymentTradeNo order) \<noteq> '''' \<or> IsZero (po_ExpiresAt order) \<or>
                   cutoff < po_ExpiresAt order)) (paymentOrders s)
      in (Inr (take (nat limit) (go_sort (\<lambda>a b. po_ExpiresAt a < po_ExpiresAt b) out)), s))"

definition ListAuditsByTarget :: "ctx \<Rightarrow> string \<Rightarrow> string \<Rightarrow> MemoryStore \<Rightarrow> OperationAudit list result" where
  "ListAuditsByTarget c targetType targetID s =
     (case c of Some e \<Rightarrow> (Inl (ErrContext e), s) | None \<Rightarrow>
      (Inr (go_sort (\<lambda>a b. aud_CreatedAt a < aud_CreatedAt b)
         (filter (\<lambda>a. aud_TargetType a = targetType \<and> aud_TargetID a = targetID) (audits s))), s))"

text \<open>One order against the filter of \<open>ListPaymentOrders\<close>; \<open>keyword\<close> is already folded.\<close>

definition matchesPaymentOrder :: "PaymentOrderFilter \<Rightarrow> string \<Rightarrow> PaymentOrder \<Rightarrow> bool" where
  "matchesPaymentOrder f keyword order \<longleftrightarrow>
     \<not> (pof_Status f \<noteq> PaymentOrderStatusOther '''' \<and> po_Status order \<noteq> pof_Status f \<or>
        pof_PaymentType f \<noteq> '''' \<and> po_PaymentType order \<noteq> pof_PaymentType f \<or>
        pof_OrderType f \<noteq> PaymentOrderTypeOther '''' \<and> po_OrderType order \<noteq> pof_OrderType f \<or>
        pof_UserID f \<noteq> 0 \<and> po_UserID order \<noteq> pof_UserID f \<or>
        pof_ProviderInstanceID f \<noteq> '''' \<and> po_ProviderInstanceID order \<noteq> pof_ProviderInstanceID f \<or>
        (case pof_StartCreatedAt f of None \<Rightarrow> False | Some a \<Rightarrow> po_CreatedAt order < a) \<or>
        (case pof_EndCreatedAt f of None \<Rightarrow> False | Some b \<Rightarrow> \<not> po_CreatedAt order < b)) \<and>
     (keyword \<noteq> '''' \<longrightarrow>
        Contains (ToLower (po_ID order @ [byte 0] @ po_OutTradeNo order @ [byte 0] @
          po_PaymentTradeNo order @ [byte 0] @ po_UserEmail order @ [byte 0] @ po_UserName order)) keyword)"

definition newerPaymentOrder :: "PaymentOrder \<Rightarrow> PaymentOrder \<Rightarrow> bool" where
  "newerPaymentOrder a b =
     (if po_CreatedAt a = po_CreatedAt b then po_ID b < po_ID a else po_CreatedAt b < po_CreatedAt a)"

definition ListPaymentOrders :: "ctx \<Rightarrow> PaymentOrderFilter \<Rightarrow> MemoryStore \<Rightarrow> PaymentOrderPage result" where
  "ListPaymentOrders c f s =
     (case c of Some e \<Rightarrow> (Inl (ErrContext e), s) | None \<Rightarrow>
      let (page, pageSize) = normalizePaymentOrderPage (pof_Page f) (pof_PageSize f);
          keyword = ToLower (TrimSpace (pof_Keyword f));
          matches = go_sort newerPaymentOrder (filter (matchesPaymentOrder f keyword) (paymentOrders s))
      in case page_slice page pageSize matches of
          None \<Rightarrow> (Inl RuntimePanic, s)
        | Some items \<Rightarrow> (Inr \<lparr>pop_Items = items, pop_Total = int (length matches),
            pop_Page = page, pop_PageSize = pageSize\<rparr>, s))"

section \<open>Decimal amounts: exact value and canonical form\<close>

lemma split_dot_not_Nil [simp]: "split_dot s \<noteq> []"
  by (cases s) (auto split: list.splits)

lemma split_dot_nodot: "CHR ''.'' \<notin> set s \<Longrightarrow> split_dot s = [s]"
  by (induction s) auto

lemma split_dot_append: "CHR ''.'' \<notin> set p \<Longrightarrow> split_dot (p @ CHR ''.'' # s) = p # split_dot s"
  by (induction p) auto

lemma split_dot_single: "split_dot s = [p] \<longleftrightarrow> s = p \<and> CHR ''.'' \<notin> set p"
proof
  show "split_dot s = [p] \<Longrightarrow> s = p \<and> CHR ''.'' \<notin> set p"
    by (induction s arbitrary: p) (auto split: if_splits list.splits)
qed (auto simp: split_dot_nodot)

lemma split_dot_pair:
  "split_dot s = [p, q] \<longleftrightarrow> s = p @ CHR ''.'' # q \<and> CHR ''.'' \<notin> set p \<and> CHR ''.'' \<notin> set q"
proof
  show "split_dot s = [p, q] \<Longrightarrow> s = p @ CHR ''.'' # q \<and> CHR ''.'' \<notin> set p \<and> CHR ''.'' \<notin> set q"
    by (induction s arbitrary: p)
       (auto split: if_splits list.splits simp: split_dot_single Cons_eq_append_conv)
qed (auto simp: split_dot_append split_dot_nodot)

text \<open>The accepted shapes: digits, or digits, a point and digits.\<close>

definition decimal_shape :: "string \<Rightarrow> nat \<Rightarrow> nat \<Rightarrow> string \<Rightarrow> string \<Rightarrow> bool" where
  "decimal_shape raw maxd scale w f \<longleftrightarrow>
     list_all is_digit w \<and> w \<noteq> '''' \<and> length w \<le> maxd \<and> list_all is_digit f \<and> length f \<le> scale \<and>
     TrimSpace raw = (if f = '''' then w else w @ ''.'' @ f)"

definition strip_zeros :: "string \<Rightarrow> string" where
  "strip_zeros w = (let z = dropWhile (\<lambda>c. c = CHR ''0'') w in if z = '''' then ''0'' else z)"

lemma one_or_two: "xs \<noteq> [] \<Longrightarrow> length xs \<le> 2 \<Longrightarrow> (\<exists>p. xs = [p]) \<or> (\<exists>p q. xs = [p, q])"
  by (cases xs rule: remdups_adj.cases) auto

lemma digits_no_dot: "list_all is_digit w \<Longrightarrow> CHR ''.'' \<notin> set w"
  by (auto simp: list_all_iff is_digit_def)

lemma digits_no_sign:
  "list_all is_digit w \<Longrightarrow> w \<noteq> '''' \<Longrightarrow> take 1 (w @ r) \<noteq> ''-'' \<and> take 1 (w @ r) \<noteq> ''+''"
  by (cases w) (auto simp: is_digit_def)

lemma normalizePaymentDecimal_iff:
  assumes "0 < scale"
  shows "normalizePaymentDecimal raw maxd scale = Some n \<longleftrightarrow>
     (\<exists>w f. decimal_shape raw maxd scale w f \<and>
        n = strip_zeros w @ ''.'' @ f @ replicate (scale - length f) (CHR ''0''))"
proof
  assume L: "normalizePaymentDecimal raw maxd scale = Some n"
  let ?r = "TrimSpace raw"
  have len: "length (split_dot ?r) \<le> 2"
    using L by (auto simp: normalizePaymentDecimal_def Let_def split: if_splits)
  then consider p where "split_dot ?r = [p]" | p q where "split_dot ?r = [p, q]"
    using one_or_two [OF split_dot_not_Nil len] by blast
  then show "\<exists>w f. decimal_shape raw maxd scale w f \<and>
        n = strip_zeros w @ ''.'' @ f @ replicate (scale - length f) (CHR ''0'')"
  proof cases
    case (1 p)
    then have r: "TrimSpace raw = p" by (simp only: split_dot_single)
    have sp: "split_dot p = [p]" using 1 r by simp
    from L assms have "decimal_shape raw maxd scale p ''''"
      and "n = strip_zeros p @ ''.'' @ replicate scale (CHR ''0'')"
      by (auto simp: normalizePaymentDecimal_def decimal_shape_def strip_zeros_def Let_def r sp
            split: if_splits)
    then show ?thesis by (intro exI [of _ p] exI [of _ "''''"]) simp
  next
    case (2 p q)
    then have r: "TrimSpace raw = p @ CHR ''.'' # q" by (simp only: split_dot_pair)
    have sp: "split_dot (p @ CHR ''.'' # q) = [p, q]" using 2 r by simp
    from L assms have "decimal_shape raw maxd scale p q"
      and "n = strip_zeros p @ ''.'' @ q @ replicate (scale - length q) (CHR ''0'')"
      by (auto simp: normalizePaymentDecimal_def decimal_shape_def strip_zeros_def Let_def r sp
            split: if_splits)
    then show ?thesis by blast
  qed
next
  assume "\<exists>w f. decimal_shape raw maxd scale w f \<and>
        n = strip_zeros w @ ''.'' @ f @ replicate (scale - length f) (CHR ''0'')"
  then obtain w f where sh: "decimal_shape raw maxd scale w f"
    and n: "n = strip_zeros w @ ''.'' @ f @ replicate (scale - length f) (CHR ''0'')" by blast
  have sp: "split_dot (TrimSpace raw) = (if f = '''' then [w] else [w, f])"
    using sh by (auto simp: decimal_shape_def split_dot_single split_dot_pair digits_no_dot)
  have "TrimSpace raw \<noteq> ''''" "take 1 (TrimSpace raw) \<noteq> ''-''" "take 1 (TrimSpace raw) \<noteq> ''+''"
    using sh digits_no_sign [of w "[]"] digits_no_sign [of w "''.'' @ f"]
    by (auto simp: decimal_shape_def)
  with sp sh assms n show "normalizePaymentDecimal raw maxd scale = Some n"
    by (auto simp: normalizePaymentDecimal_def decimal_shape_def strip_zeros_def Let_def)
qed

lemma strip_zeros_props:
  assumes "list_all is_digit w" and "w \<noteq> ''''"
  shows "list_all is_digit (strip_zeros w)" and "strip_zeros w \<noteq> ''''"
    and "length (strip_zeros w) \<le> length w" and "digits_val (strip_zeros w) = digits_val w"
    and "strip_zeros (strip_zeros w) = strip_zeros w"
proof -
  let ?z = "dropWhile (\<lambda>c. c = CHR ''0'') w"
  let ?t = "takeWhile (\<lambda>c. c = CHR ''0'') w"
  have t: "?t = replicate (length ?t) (CHR ''0'')"
    by (rule replicate_length_same [symmetric]) (auto dest: set_takeWhileD)
  have w: "w = replicate (length ?t) (CHR ''0'') @ ?z"
    using t takeWhile_dropWhile_id [of "\<lambda>c. c = CHR ''0''" w] by argo
  show "list_all is_digit (strip_zeros w)"
    using assms by (auto simp: strip_zeros_def Let_def list_all_iff is_digit_def dest: set_dropWhileD)
  show "strip_zeros w \<noteq> ''''" by (simp add: strip_zeros_def Let_def)
  show "length (strip_zeros w) \<le> length w"
    using assms(2) length_dropWhile_le [of "\<lambda>c. c = CHR ''0''" w]
    by (cases w) (auto simp: strip_zeros_def Let_def)
  have "digits_val ?z = digits_val w"
    using trans [OF arg_cong [OF w, of digits_val] digits_val_zeros] by (rule sym)
  moreover have "digits_val ''0'' = digits_val ''''"
    by (simp add: digits_val_def digit_val_def)
  ultimately show "digits_val (strip_zeros w) = digits_val w"
    by (cases "?z = []") (simp_all only: strip_zeros_def Let_def if_True if_False refl)
  show "strip_zeros (strip_zeros w) = strip_zeros w"
  proof (cases "?z = []")
    case False
    have "dropWhile (\<lambda>c. c = CHR ''0'') ?z = ?z" by (rule dropWhile_idem)
    with False show ?thesis by (simp only: strip_zeros_def Let_def if_False)
  qed (simp add: strip_zeros_def)
qed

lemma digits_val_bound: "list_all is_digit w \<Longrightarrow> digits_val w < 10 ^ length w"
proof (induction w rule: rev_induct)
  case Nil
  then show ?case by (simp add: digits_val_def)
next
  case (snoc c w)
  then have "digits_val w < 10 ^ length w" and "digit_val c < 10"
    by (auto simp: is_digit_def digit_val_def)
  then show ?case by (simp add: digits_val_snoc)
qed

lemma digits_loop_eq:
  assumes "list_all is_digit w" and "length w \<le> 18"
  shows "digits_loop w = int (digits_val w)"
  using assms
proof (induction w rule: rev_induct)
  case Nil
  then show ?case by (simp add: digits_loop_def digits_val_def)
next
  case (snoc c w)
  let ?v = "int (digits_val w)"
  have IH: "digits_loop w = ?v" using snoc by simp
  have "digits_val (w @ [c]) < 10 ^ length (w @ [c])"
    using snoc.prems(1) by (rule digits_val_bound)
  also have "\<dots> \<le> 10 ^ 18"
    using snoc.prems(2) by (intro power_increasing) simp_all
  finally have b: "int (digits_val (w @ [c])) < 10 ^ 18"
    by (simp only: of_nat_less_iff [symmetric, where 'a = int] of_nat_power of_nat_numeral)
  have d: "int (digit_val c) = of_char c - 48"
    using snoc.prems(1) by (simp add: digit_val_def is_digit_def of_nat_diff of_nat_of_char)
  have v: "int (digits_val (w @ [c])) = ?v * 10 + (of_char c - 48)"
    using d by (simp add: digits_val_snoc)
  have "digits_loop (w @ [c]) = wrap64 (int (digits_val (w @ [c])))"
    unfolding v by (simp add: digits_loop_def [symmetric] IH flip: IH) (simp add: digits_loop_def)
  also have "\<dots> = int (digits_val (w @ [c]))"
    using b by (intro wrap64_id) (simp add: in64_def)
  finally show ?case .
qed

lemma digits_val_append:
  "digits_val (f @ replicate k (CHR ''0'')) = digits_val f * 10 ^ k"
proof (induction k)
  case (Suc k)
  have "f @ replicate (Suc k) (CHR ''0'') = (f @ replicate k (CHR ''0'')) @ [CHR ''0'']"
    by (simp add: replicate_append_same)
  then have "digits_val (f @ replicate (Suc k) (CHR ''0'')) = digits_val (f @ replicate k (CHR ''0'')) * 10"
    by (simp only: digits_val_snoc) (simp add: digit_val_def)
  then show ?case using Suc by simp
qed simp

text \<open>The normal form splits back into its two parts.\<close>

lemma paymentDecimal_parts:
  assumes "decimal_shape raw maxd scale w f" and "0 < scale"
  shows "split_dot (strip_zeros w @ ''.'' @ f @ replicate (scale - length f) (CHR ''0'')) =
         [strip_zeros w, f @ replicate (scale - length f) (CHR ''0'')]"
proof -
  have "CHR ''.'' \<notin> set (strip_zeros w)"
    using assms strip_zeros_props(1) by (intro digits_no_dot) (auto simp: decimal_shape_def)
  moreover have "CHR ''.'' \<notin> set f"
    using assms by (intro digits_no_dot) (auto simp: decimal_shape_def)
  ultimately show ?thesis by (auto simp: split_dot_pair)
qed

lemma micros_no_overflow:
  assumes "0 \<le> (w::int)" "w < 10 ^ 12" "0 \<le> f" "f < 100"
  shows "wrap64 (wrap64 (w * 1000000) + wrap64 (f * 10000)) = w * 1000000 + f * 10000"
  using assms by (simp add: wrap64_id in64_def)

lemma paymentDecimalToMicros_shape:
  assumes "decimal_shape raw 12 2 w f"
  shows "paymentDecimalToMicros raw =
         Some (int (digits_val w) * 1000000 + int (digits_val f * 10 ^ (2 - length f)) * 10000)"
proof -
  let ?f = "f @ replicate (2 - length f) (CHR ''0'')"
  have n: "normalizePaymentDecimal raw 12 2 = Some (strip_zeros w @ ''.'' @ ?f)"
    using assms normalizePaymentDecimal_iff by fastforce
  have w: "list_all is_digit w" "w \<noteq> ''''" "length w \<le> 12"
    and f: "list_all is_digit f" "length f \<le> 2"
    using assms by (auto simp: decimal_shape_def)
  note sz = strip_zeros_props [OF w(1,2)]
  have dw: "digits_loop (strip_zeros w) = int (digits_val w)"
    using sz w(3) by (subst digits_loop_eq) auto
  have f': "list_all is_digit ?f" "length ?f = 2"
    using f by (auto simp: list_all_iff is_digit_def)
  have df: "digits_loop ?f = int (digits_val f * 10 ^ (2 - length f))"
    using f' by (subst digits_loop_eq) (auto simp: digits_val_append)
  have bw: "int (digits_val w) < 10 ^ 12"
    using digits_val_bound [OF w(1)] power_increasing [OF w(3), of "10::nat"] by simp
  have "digits_val f * 10 ^ (2 - length f) < 100"
    using digits_val_bound [OF f'(1)] f'(2) by (simp add: digits_val_append)
  then have bf: "int (digits_val f * 10 ^ (2 - length f)) < 100"
    by (simp only: of_nat_less_iff [of _ 100, symmetric, where 'a = int] of_nat_numeral)
  show ?thesis
    using paymentDecimal_parts [OF assms] micros_no_overflow [OF _ bw _ bf]
    by (simp add: paymentDecimalToMicros_def n dw df)
qed

lemma paymentDecimalToMicros_None:
  "(\<nexists>w f. decimal_shape raw 12 2 w f) \<Longrightarrow> paymentDecimalToMicros raw = None"
  by (cases "normalizePaymentDecimal raw 12 2")
     (auto simp: paymentDecimalToMicros_def normalizePaymentDecimal_iff)

section \<open>The life of an order\<close>

text \<open>Every outcome of the confirmation.\<close>

definition confirmable :: "PaymentNotification \<Rightarrow> string \<Rightarrow> MemoryStore \<Rightarrow> PaymentOrder \<Rightarrow> bool" where
  "confirmable n bodyHash s order \<longleftrightarrow>
     validNotification n bodyHash \<and>
     map_of (paymentCallbackEvents s) (callbackKey (pn_ProviderInstanceID n) (pn_EventID n)) = None \<and>
     find (\<lambda>x. po_OutTradeNo x = pn_OutTradeNo n) (paymentOrders s) = Some order \<and>
     paymentDecimalToMicros (po_PayAmount order) = Some (pn_PaidAmountMicros n) \<and>
     po_Currency order = pn_Currency n \<and> po_OrderType order = PaymentOrderBalance"

lemma ConfirmRechargePayment_cases:
  assumes "ConfirmRechargePayment nw c notification bodyHash s = (r, t)"
  obtains (unchanged) "t = s" "\<And>o1 w. r \<noteq> Inr (o1, w, True)"
  | (recorded) n order where
      "n = trimNotification notification" "confirmable n (TrimSpace bodyHash) s order"
      "po_Status order = PaymentOrderCompleted"
      "t = recordAccepted n (po_ID order) (TrimSpace bodyHash) (nw 0) s"
      "r = Inr (order, walletAt t (walletMapKey (po_UserID order) (po_Currency order)), False)"
  | (credited) n order where
      "n = trimNotification notification" "confirmable n (TrimSpace bodyHash) s order"
      "po_Status order = PaymentOrderPending"
      "t = confirmPosting n (TrimSpace bodyHash) order (nw 0) s"
      "r = Inr (completedOrder n (nw 0) order,
                walletAt t (walletMapKey (po_UserID order) (po_Currency order)), True)"
proof -
  let ?n = "trimNotification notification" and ?b = "TrimSpace bodyHash"
  let ?ev = "map_of (paymentCallbackEvents s) (callbackKey (pn_ProviderInstanceID ?n) (pn_EventID ?n))"
  let ?o = "find (\<lambda>x. po_OutTradeNo x = pn_OutTradeNo ?n) (paymentOrders s)"
  show thesis
  proof (cases "c \<noteq> None \<or> \<not> validNotification ?n ?b \<or> ?ev \<noteq> None \<or> ?o = None")
    case True
    show thesis
      by (rule unchanged)
         (use True assms in \<open>auto simp only: ConfirmRechargePayment_def Let_def
            split: option.splits if_splits\<close>)
  next
    case False
    then obtain order where o: "?o = Some order" by blast
    show thesis
    proof (cases "confirmable ?n ?b s order \<and>
        list_ex (\<lambda>p. pp_ID p = pn_ProviderInstanceID ?n \<and> pp_ProviderKey p = pn_ProviderKey ?n) (paymentProviders s) \<and>
        po_ProviderInstanceID order = pn_ProviderInstanceID ?n \<and> po_ProviderKey order = pn_ProviderKey ?n \<and>
        (po_ProviderOrderID order \<noteq> '''' \<longrightarrow> po_ProviderOrderID order = pn_ProviderOrderID ?n)")
      case True
      with False o assms have "(if po_Status order = PaymentOrderCompleted then
          (Inr (order, walletAt (recordAccepted ?n (po_ID order) ?b (nw 0) s)
              (walletMapKey (po_UserID order) (po_Currency order)), False),
           recordAccepted ?n (po_ID order) ?b (nw 0) s)
         else if po_Status order \<noteq> PaymentOrderPending then (Inl ErrConflict, s)
         else (Inr (completedOrder ?n (nw 0) order, walletAt (confirmPosting ?n ?b order (nw 0) s)
              (walletMapKey (po_UserID order) (po_Currency order)), True),
           confirmPosting ?n ?b order (nw 0) s)) = (r, t)"
        by (auto simp: ConfirmRechargePayment_def Let_def confirmable_def split: if_splits)
      then consider
          "po_Status order = PaymentOrderCompleted"
          "t = recordAccepted ?n (po_ID order) ?b (nw 0) s"
          "r = Inr (order, walletAt t (walletMapKey (po_UserID order) (po_Currency order)), False)"
        | "t = s" "r = Inl ErrConflict"
        | "po_Status order = PaymentOrderPending" "t = confirmPosting ?n ?b order (nw 0) s"
          "r = Inr (completedOrder ?n (nw 0) order,
                walletAt t (walletMapKey (po_UserID order) (po_Currency order)), True)"
        by (auto split: if_splits)
      then show thesis
      proof cases
        case 1
        then show thesis using True by (intro recorded) simp_all
      next
        case 2
        then show thesis by (intro unchanged) simp_all
      next
        case 3
        then show thesis using True by (intro credited) simp_all
      qed
    next
      case ok: False
      have "(r, t) = (Inl ErrInvalid, s)"
        using False o ok assms
        by (auto simp: ConfirmRechargePayment_def Let_def confirmable_def split: if_splits)
      then show thesis by (intro unchanged) auto
    qed
  qed
qed

lemma recordAccepted_frame [simp, store_frame]:
  shows "wallets (recordAccepted n i b now s) = wallets s"
    and "walletJournals (recordAccepted n i b now s) = walletJournals s"
    and "walletReservations (recordAccepted n i b now s) = walletReservations s"
    and "supplyUsage (recordAccepted n i b now s) = supplyUsage s"
    and "virtualKeys (recordAccepted n i b now s) = virtualKeys s"
    and "supplyEndpoints (recordAccepted n i b now s) = supplyEndpoints s"
    and "hybridAllocations (recordAccepted n i b now s) = hybridAllocations s"
    and "paymentOrders (recordAccepted n i b now s) = paymentOrders s"
    and "redeemCodes (recordAccepted n i b now s) = redeemCodes s"
    and "p \<noteq> ''payevt'' \<Longrightarrow> seq (recordAccepted n i b now s) p = seq s p"
  by (simp_all add: recordAccepted_def nextID_def Let_def)

lemma confirmPosting_frame [simp, store_frame]:
  shows "walletReservations (confirmPosting n b o1 now s) = walletReservations s"
    and "supplyUsage (confirmPosting n b o1 now s) = supplyUsage s"
    and "virtualKeys (confirmPosting n b o1 now s) = virtualKeys s"
    and "supplyEndpoints (confirmPosting n b o1 now s) = supplyEndpoints s"
    and "hybridAllocations (confirmPosting n b o1 now s) = hybridAllocations s"
    and "redeemCodes (confirmPosting n b o1 now s) = redeemCodes s"
    and "p \<notin> {''payevt'', ''wjnl'', ''went''} \<Longrightarrow> seq (confirmPosting n b o1 now s) p = seq s p"
    and "paymentOrders (confirmPosting n b o1 now s) =
      update_first (\<lambda>x. po_OutTradeNo x = pn_OutTradeNo n) (completedOrder n now) (paymentOrders s)"
  by (simp_all add: confirmPosting_def Let_def split_def)

lemma confirmPosting_books:
  assumes "0 < pn_PaidAmountMicros n" and "in64 (pn_PaidAmountMicros n)"
  shows "books s (confirmPosting n b o1 now s) (walletMapKey (po_UserID o1) (po_Currency o1))
           (pn_PaidAmountMicros n) 0"
  by (rule books_deposit [where kind = WalletJournalRecharge and ik = "''payment:'' @ po_ID o1"
        and rt = "''payment_order''" and ri = "po_ID o1" and now = now and now' = now
        and d = WalletAccountPlatformCash and c = WalletAccountUserAvailable])
     (use assms in \<open>simp_all add: confirmPosting_def Let_def split_def creditWallet_def walletAt_def\<close>)

text \<open>The journal of a confirmation.\<close>

lemma confirmPosting_journal:
  obtains j where "walletJournals (confirmPosting n b o1 now s) = walletJournals s @ [j]"
    "wjnl_Kind j = WalletJournalRecharge" "wjnl_ReferenceID j = po_ID o1"
    "wjnl_UserID j = po_UserID o1" "wjnl_Currency j = po_Currency o1"
    "wjnl_AmountMicros j = pn_PaidAmountMicros n"
  by (rule that, simp add: confirmPosting_def Let_def split_def) simp_all

section \<open>How the orders change\<close>

text \<open>An order is kept, or it was pending and keeps its identity, owner and amounts.\<close>

definition order_kept :: "PaymentOrder \<Rightarrow> PaymentOrder \<Rightarrow> bool" where
  "order_kept x y \<longleftrightarrow> y = x \<or> (po_Status x = PaymentOrderPending \<and> po_ID y = po_ID x \<and>
     po_OutTradeNo y = po_OutTradeNo x \<and> po_UserID y = po_UserID x \<and>
     po_Amount y = po_Amount x \<and> po_PayAmount y = po_PayAmount x \<and> po_Currency y = po_Currency x)"

definition orders_evolve :: "PaymentOrder list \<Rightarrow> PaymentOrder list \<Rightarrow> bool" where
  "orders_evolve xs ys \<longleftrightarrow> (\<exists>zs new. ys = zs @ new \<and> list_all2 order_kept xs zs \<and>
     (\<forall>x \<in> set new. \<forall>y \<in> set xs. po_ID x \<noteq> po_ID y \<and> po_OutTradeNo x \<noteq> po_OutTradeNo y) \<and>
     length new \<le> 1)"

lemma order_kept_refl [simp]: "order_kept x x"
  by (simp add: order_kept_def)

lemma order_kept_ids: "order_kept x y \<Longrightarrow> po_ID y = po_ID x \<and> po_OutTradeNo y = po_OutTradeNo x"
  by (auto simp: order_kept_def)

lemma orders_evolve_refl [simp]: "orders_evolve xs xs"
  unfolding orders_evolve_def by (rule exI [of _ xs], rule exI [of _ "[]"]) (simp add: list_all2_refl)

lemma orders_evolve_update:
  assumes "\<And>x. x \<in> set xs \<Longrightarrow> find p xs = Some x \<Longrightarrow> order_kept x (f x)"
  shows "orders_evolve xs (update_first p f xs)"
proof -
  have "list_all2 order_kept xs (update_first p f xs)"
    using assms by (induction xs) (auto simp: list_all2_refl)
  then show ?thesis
    unfolding orders_evolve_def by (intro exI [of _ "update_first p f xs"] exI [of _ "[]"]) simp
qed

lemma orders_evolve_ids:
  assumes "orders_evolve xs ys" and "distinct (map po_ID xs)" and "distinct (map po_OutTradeNo xs)"
  shows "distinct (map po_ID ys) \<and> distinct (map po_OutTradeNo ys)"
proof -
  from assms(1) obtain zs new where ys: "ys = zs @ new" and k: "list_all2 order_kept xs zs"
    and n: "\<forall>x \<in> set new. \<forall>y \<in> set xs. po_ID x \<noteq> po_ID y \<and> po_OutTradeNo x \<noteq> po_OutTradeNo y"
    and l: "length new \<le> 1"
    unfolding orders_evolve_def by blast
  have m: "map po_ID zs = map po_ID xs" "map po_OutTradeNo zs = map po_OutTradeNo xs"
    using k by (induction rule: list_all2_induct) (auto dest: order_kept_ids)
  then have m': "po_ID ` set zs = po_ID ` set xs" "po_OutTradeNo ` set zs = po_OutTradeNo ` set xs"
    by (metis list.set_map)+
  consider "new = []" | x where "new = [x]" using l by (cases new) auto
  then show ?thesis
  proof cases
    case (2 x)
    with n have "po_ID x \<notin> po_ID ` set xs" "po_OutTradeNo x \<notin> po_OutTradeNo ` set xs" by auto
    with 2 show ?thesis using assms(2,3) by (simp add: ys m m')
  qed (use ys m assms in simp)
qed

lemma orders_evolve_keeps:
  assumes "orders_evolve xs ys" and "x \<in> set xs"
  obtains y where "y \<in> set ys" "order_kept x y"
  using assms unfolding orders_evolve_def
  by (metis UnCI in_set_conv_nth list_all2_conv_all_nth set_append)

text \<open>An order is open while every row with its identifier is pending.\<close>

definition order_open :: "MemoryStore \<Rightarrow> string \<Rightarrow> bool" where
  "order_open s i \<longleftrightarrow> (\<forall>x \<in> set (paymentOrders s). po_ID x = i \<longrightarrow> po_Status x = PaymentOrderPending)"

definition orders_ok :: "MemoryStore \<Rightarrow> bool" where
  "orders_ok s \<longleftrightarrow> distinct (map po_ID (paymentOrders s)) \<and> distinct (map po_OutTradeNo (paymentOrders s))"

lemma order_open_evolve:
  assumes "orders_evolve (paymentOrders s) (paymentOrders t)" and "order_open t i"
  shows "order_open s i"
  unfolding order_open_def
proof (intro ballI impI)
  fix x assume x: "x \<in> set (paymentOrders s)" and i: "po_ID x = i"
  from assms(1) x obtain y where "y \<in> set (paymentOrders t)" "order_kept x y"
    by (rule orders_evolve_keeps)
  with assms(2) i show "po_Status x = PaymentOrderPending"
    by (auto simp: order_open_def order_kept_def)
qed

section \<open>What each operation does to the orders\<close>

lemma normalize_out_trade_no:
  "normalizePaymentOrderForCreate o1 = Inr o2 \<Longrightarrow> po_OutTradeNo o2 \<noteq> '''' \<and> po_ID o2 = po_ID o1"
  by (auto simp: normalizePaymentOrderForCreate_def Let_def split: if_splits option.splits)

lemma CreatePaymentOrder_cases:
  assumes "CreatePaymentOrder nw c input s = (r, t)"
  obtains (rejected) "paymentOrders t = paymentOrders s" "same_core s t" "same_codes s t" "same_catalog s t"
      "\<And>x. r \<noteq> Inr x"
  | (created) x where "r = Inr x" "paymentOrders t = paymentOrders s @ [x]"
      "\<And>y. y \<in> set (paymentOrders s) \<Longrightarrow> po_ID y \<noteq> po_ID x \<and> po_OutTradeNo y \<noteq> po_OutTradeNo x"
      "same_core s t" "same_codes s t" "same_catalog s t"
proof (cases "\<exists>x. r = Inr x")
  case False
  then obtain e where e: "r = Inl e" by (cases r) auto
  show thesis
    by (rule rejected; use assms e in \<open>(auto simp: CreatePaymentOrder_def same_defs nextID_def Let_def
      split: option.splits if_splits sum.splits)[]\<close>)
next
  case True
  then obtain x where x: "r = Inr x" ..
  with assms obtain o2 where n: "normalizePaymentOrderForCreate input = Inr o2"
    by (auto simp: CreatePaymentOrder_def Let_def split: option.splits if_splits sum.splits)
  from normalize_out_trade_no [OF n] have ne: "po_OutTradeNo o2 \<noteq> ''''" by simp
  show thesis
    by (rule created [of x]; use assms x n ne in \<open>(auto simp: CreatePaymentOrder_def same_defs nextID_def Let_def list_ex_iff
      split: option.splits if_splits)[]\<close>)
qed

lemma CreatePaymentOrder_evolve:
  assumes "CreatePaymentOrder nw c input s = (r, t)"
  shows "orders_evolve (paymentOrders s) (paymentOrders t)" and "same_core s t" and "same_codes s t"
    and "same_catalog s t"
  using assms
  by (cases rule: CreatePaymentOrder_cases;
      force simp: orders_evolve_def intro: list_all2_refl exI [of _ "paymentOrders s"])+

lemma BindPaymentOrderCheckout_evolve:
  assumes "BindPaymentOrderCheckout nw c i p s = (r, t)"
  shows "orders_evolve (paymentOrders s) (paymentOrders t)" and "same_core s t" and "same_codes s t"
    and "same_catalog s t"
  using assms
  by (auto simp: BindPaymentOrderCheckout_def Let_def same_defs order_kept_def dest: find_SomeD
      intro!: orders_evolve_update split: option.splits if_splits)

lemma RecordRejectedPaymentCallback_evolve:
  assumes "RecordRejectedPaymentCallback nw c e s = (r, t)"
  shows "paymentOrders t = paymentOrders s" and "same_core s t" and "same_codes s t" and "same_catalog s t"
  using assms
  by (auto simp: RecordRejectedPaymentCallback_def Let_def same_defs nextID_def
      split: option.splits if_splits)

lemma closePendingOrder_evolve:
  assumes "closePendingOrder st nw c i a s = (r, t)"
  shows "orders_evolve (paymentOrders s) (paymentOrders t)" and "same_core s t" and "same_codes s t"
    and "same_catalog s t"
  using assms
  by (auto simp: closePendingOrder_def Let_def same_defs order_kept_def nextID_def dest: find_SomeD
      intro!: orders_evolve_update split: option.splits if_splits)

lemma confirmPosting_evolve:
  assumes "confirmable n b s x" and "po_Status x = PaymentOrderPending"
  shows "orders_evolve (paymentOrders s) (paymentOrders (confirmPosting n b x now s))"
  unfolding confirmPosting_frame
proof (rule orders_evolve_update)
  fix y assume "find (\<lambda>x. po_OutTradeNo x = pn_OutTradeNo n) (paymentOrders s) = Some y"
  with assms show "order_kept y (completedOrder n now y)"
    by (simp add: confirmable_def order_kept_def completedOrder_def)
qed

lemma confirmable_amount:
  assumes "confirmable n b s x"
  shows "0 < pn_PaidAmountMicros n" and "in64 (pn_PaidAmountMicros n)"
proof -
  show "0 < pn_PaidAmountMicros n" using assms by (auto simp: confirmable_def validNotification_def)
  have "paymentDecimalToMicros (po_PayAmount x) = Some (pn_PaidAmountMicros n)"
    using assms by (simp add: confirmable_def)
  then obtain y where "wrap64 y = pn_PaidAmountMicros n"
    by (auto simp: paymentDecimalToMicros_def split: option.splits list.splits)
  from this [symmetric] show "in64 (pn_PaidAmountMicros n)" by simp
qed

text \<open>A confirmation closes exactly the order it credits.\<close>

lemma confirmPosting_open:
  assumes "orders_ok s" and c: "confirmable n b s x" and p: "po_Status x = PaymentOrderPending"
  shows "order_open s (po_ID x)" and "\<not> order_open (confirmPosting n b x now s) (po_ID x)"
    and "i \<noteq> po_ID x \<Longrightarrow> order_open (confirmPosting n b x now s) i \<Longrightarrow> order_open s i"
proof -
  have f: "find (\<lambda>x. po_OutTradeNo x = pn_OutTradeNo n) (paymentOrders s) = Some x"
    using c by (simp add: confirmable_def)
  have x: "x \<in> set (paymentOrders s)" "po_OutTradeNo x = pn_OutTradeNo n"
    using find_SomeD [OF f] by auto
  show "order_open s (po_ID x)"
    using assms(1) x p unfolding order_open_def orders_ok_def by (metis (no_types, lifting) inj_on_eq_iff distinct_map)
  have "completedOrder n now x \<in> set (paymentOrders (confirmPosting n b x now s))"
  proof -
    have "find (\<lambda>x. po_OutTradeNo x = pn_OutTradeNo n)
        (update_first (\<lambda>x. po_OutTradeNo x = pn_OutTradeNo n) (completedOrder n now) (paymentOrders s)) =
        Some (completedOrder n now x)"
      using x by (intro find_update_first_same [OF f]) (simp add: completedOrder_def)
    then show ?thesis by (simp add: find_SomeD)
  qed
  then show "\<not> order_open (confirmPosting n b x now s) (po_ID x)"
    unfolding order_open_def by (force simp: completedOrder_def)
  show "order_open s i" if "order_open (confirmPosting n b x now s) i"
    using order_open_evolve [OF confirmPosting_evolve [OF c p] that] .
qed

section \<open>Listing\<close>

interpretation order_list: strict_weak_order newerPaymentOrder
  by unfold_locales (auto simp: newerPaymentOrder_def split: if_splits)

lemma ListPaymentOrders_page:
  assumes "1 \<le> size1" "size1 \<le> 100" "1 \<le> p" "p * size1 < 2 ^ 63"
    and "pof_Page f = p" "pof_PageSize f = size1"
    and "matches = go_sort newerPaymentOrder
           (filter (matchesPaymentOrder f (ToLower (TrimSpace (pof_Keyword f)))) (paymentOrders s))"
  shows "ListPaymentOrders None f s =
     (Inr \<lparr>pop_Items = the (page_slice p size1 matches), pop_Total = int (length matches),
        pop_Page = p, pop_PageSize = size1\<rparr>, s)"
proof -
  have "(p - 1) * size1 < 2 ^ 63"
    using assms(1,4) by (simp add: left_diff_distrib)
  then show ?thesis
    using assms page_slice_exact [of p size1 matches]
    by (simp add: ListPaymentOrders_def normalizePaymentOrderPage_def Let_def)
qed

lemma recordAccepted_event:
  "map_of (paymentCallbackEvents (recordAccepted n i b now s)) (callbackKey (pn_ProviderInstanceID n) (pn_EventID n)) =
   Some \<lparr>pce_ID = fst (nextID ''payevt'' s), pce_ProviderInstanceID = pn_ProviderInstanceID n,
     pce_ProviderKey = pn_ProviderKey n, pce_EventID = pn_EventID n, pce_OrderID = i,
     pce_BodyHash = b, pce_Accepted = True, pce_ErrorCode = '''', pce_CreatedAt = now\<rparr>"
  by (simp add: recordAccepted_def nextID_def Let_def update_conv)

lemma ConfirmRechargePayment_again:
  assumes "orders_ok s" and run: "ConfirmRechargePayment nw c notification body s = (Inr (x, w, True), t)"
  shows "ConfirmRechargePayment nw' None notification body t = (Inr (x, w, False), t)"
  using run
proof (cases rule: ConfirmRechargePayment_cases)
  case (credited n order)
  let ?b = "TrimSpace body"
  have v: "validNotification n ?b" and f: "find (\<lambda>x. po_OutTradeNo x = pn_OutTradeNo n) (paymentOrders s) = Some order"
    using credited(2) by (simp_all add: confirmable_def)
  have x: "x = completedOrder n (nw 0) order" and w: "w = walletAt t (walletMapKey (po_UserID order) (po_Currency order))"
    using credited(5) by simp_all
  have ids: "po_ID x = po_ID order" "po_UserID x = po_UserID order" "po_Currency x = po_Currency order"
    by (simp_all add: x completedOrder_def)
  have "find (\<lambda>x. po_OutTradeNo x = pn_OutTradeNo n) (paymentOrders t) = Some x"
    using find_SomeD [OF f] by (simp add: credited(4) x find_update_first_same [OF f] completedOrder_def)
  then have mem: "x \<in> set (paymentOrders t)" using find_SomeD by fast
  have "map po_ID (paymentOrders t) = map po_ID (paymentOrders s)"
    by (simp add: credited(4) map_update_first completedOrder_def)
  then have "distinct (map po_ID (paymentOrders t))" using assms(1) by (simp add: orders_ok_def)
  from find_distinct [OF this mem] have fx: "find (\<lambda>y. po_ID y = po_ID order) (paymentOrders t) = Some x" by (simp add: ids)
  obtain s' where "t = recordAccepted n (po_ID order) ?b (nw 0) s'"
    using credited(4) by (simp add: confirmPosting_def Let_def split_def)
  then have "map_of (paymentCallbackEvents t) (callbackKey (pn_ProviderInstanceID n) (pn_EventID n)) =
      Some \<lparr>pce_ID = fst (nextID ''payevt'' s'), pce_ProviderInstanceID = pn_ProviderInstanceID n,
     pce_ProviderKey = pn_ProviderKey n, pce_EventID = pn_EventID n, pce_OrderID = po_ID order,
     pce_BodyHash = ?b, pce_Accepted = True, pce_ErrorCode = '''', pce_CreatedAt = nw 0\<rparr>"
    by (simp add: recordAccepted_event)
  then show ?thesis
    using v fx w ids credited(1) by (simp add: ConfirmRechargePayment_def Let_def)
qed (use run in auto)

text \<open>The items of a page, and the orders a filter selects.\<close>

definition page_items :: "PaymentOrderPage result \<Rightarrow> PaymentOrder list" where
  "page_items r = (case r of (Inr p, _) \<Rightarrow> pop_Items p | _ \<Rightarrow> [])"

definition matchedOrders :: "PaymentOrderFilter \<Rightarrow> MemoryStore \<Rightarrow> PaymentOrder list" where
  "matchedOrders f s = filter (matchesPaymentOrder f (ToLower (TrimSpace (pof_Keyword f)))) (paymentOrders s)"

lemma page_of_orders:
  assumes "1 \<le> sz" "sz \<le> 100" "(int p + 1) * sz < 2 ^ 63"
  shows "page_items (ListPaymentOrders None (f\<lparr>pof_Page := int p + 1, pof_PageSize := sz\<rparr>) s) =
      the (page_slice (int p + 1) sz (go_sort newerPaymentOrder (matchedOrders f s)))"
proof -
  have "matchedOrders (f\<lparr>pof_Page := int p + 1, pof_PageSize := sz\<rparr>) s = matchedOrders f s"
    unfolding matchedOrders_def by (intro filter_cong) (simp_all add: matchesPaymentOrder_def)
  then show ?thesis
    using ListPaymentOrders_page [of sz "int p + 1" "f\<lparr>pof_Page := int p + 1, pof_PageSize := sz\<rparr>" _ s, OF _ _ _ _ _ _ refl] assms
    by (simp add: page_items_def matchedOrders_def)
qed

section \<open>Properties of the decimal amounts\<close>

lemma split_dot_shape:
  "decimal_shape raw maxd scale w f \<Longrightarrow> split_dot (TrimSpace raw) = (if f = '''' then [w] else [w, f])"
  by (auto simp: decimal_shape_def split_dot_single split_dot_pair digits_no_dot)

lemma digits_plain: "list_all is_digit w \<Longrightarrow> list_all plain w"
  by (auto simp: list_all_iff is_digit_def plain_def)

lemma canonical_shape:
  assumes "decimal_shape raw maxd scale w f" "0 < scale"
  shows "decimal_shape (strip_zeros w @ ''.'' @ f @ replicate (scale - length f) (CHR ''0'')) maxd scale
           (strip_zeros w) (f @ replicate (scale - length f) (CHR ''0''))"
proof -
  have w: "list_all is_digit w" "w \<noteq> ''''" "length w \<le> maxd" and f: "list_all is_digit f" "length f \<le> scale"
    using assms by (auto simp: decimal_shape_def)
  note sz = strip_zeros_props [OF w(1,2)]
  have f': "list_all is_digit (f @ replicate (scale - length f) (CHR ''0''))"
    using f by (auto simp: list_all_iff is_digit_def)
  have "TrimSpace (strip_zeros w @ ''.'' @ f @ replicate (scale - length f) (CHR ''0'')) =
      strip_zeros w @ ''.'' @ f @ replicate (scale - length f) (CHR ''0'')"
    using digits_plain [OF sz(1)] digits_plain [OF f'] by (intro TrimSpace_plain) (simp add: plain_def)
  then show ?thesis using sz w f f' assms(2) by (auto simp: decimal_shape_def)
qed

text \<open>Amounts are parsed exactly: a string is an amount if and only if, trimmed, it is one to
  twelve digits with an optional point and at most two more digits, and its value in micros
  is the decimal value times a million, with no overflow.\<close>

theorem paymentDecimalToMicros_exact:
  "paymentDecimalToMicros raw = Some m \<longleftrightarrow>
     (\<exists>w f. decimal_shape raw 12 2 w f \<and>
        m = int (digits_val w) * 1000000 + int (digits_val f * 10 ^ (2 - length f)) * 10000)"
proof (cases "\<exists>w f. decimal_shape raw 12 2 w f")
  case True
  then obtain w f where sh: "decimal_shape raw 12 2 w f" by blast
  have "w' = w \<and> f' = f" if "decimal_shape raw 12 2 w' f'" for w' f'
  proof -
    have "(if f' = [] then [w'] else [w', f']) = (if f = [] then [w] else [w, f])"
      using split_dot_shape [OF that] split_dot_shape [OF sh] by (rule trans [OF sym])
    then show ?thesis by (cases "f = []"; cases "f' = []") simp_all
  qed
  then show ?thesis unfolding paymentDecimalToMicros_shape [OF sh] using sh by blast
next
  case False
  then show ?thesis using paymentDecimalToMicros_None by auto
qed

text \<open>What an amount means: its digits as a number of units of the last place. \<open>decimal_text\<close> is
  the printer of such a number, with no leading zeros and all places of the fraction.\<close>

definition decimal_value :: "string \<Rightarrow> nat \<Rightarrow> nat \<Rightarrow> nat \<Rightarrow> bool" where
  "decimal_value raw maxd scale v \<longleftrightarrow> (\<exists>w f. decimal_shape raw maxd scale w f \<and>
     v = digits_val w * 10 ^ scale + digits_val f * 10 ^ (scale - length f))"

primrec digits :: "nat \<Rightarrow> nat \<Rightarrow> string" where
  "digits 0 v = ''''"
| "digits (Suc k) v = digits k (v div 10) @ [byte (48 + v mod 10)]"

definition decimal_text :: "nat \<Rightarrow> nat \<Rightarrow> string" where
  "decimal_text scale v = dec (v div 10 ^ scale) @ ''.'' @ digits scale (v mod 10 ^ scale)"

lemma digit_roundtrip:
  assumes "is_digit c"
  shows "byte (48 + digit_val c) = c" "digit_val c < 10"
  using assms by (auto simp: is_digit_def digit_val_def byte_def)

lemma digits_of_val: "list_all is_digit g \<Longrightarrow> digits (length g) (digits_val g) = g"
proof (induction g rule: rev_induct)
  case (snoc c g)
  then show ?case using digit_roundtrip [of c] by (simp add: digits_val_snoc)
qed simp

lemma digits_val_pos: "list_all is_digit z \<Longrightarrow> z \<noteq> '''' \<Longrightarrow> hd z \<noteq> CHR ''0'' \<Longrightarrow> 0 < digits_val z"
proof (induction z rule: rev_induct)
  case (snoc c z)
  show ?case
  proof (cases "z = ''''")
    case True
    then have "digit_val c \<noteq> digit_val (CHR ''0'')"
      using snoc.prems digit_roundtrip(1) [of c] digit_roundtrip(1) [of "CHR ''0''"] by (auto simp: is_digit_def)
    then show ?thesis using True by (simp add: digits_val_def digit_val_def)
  qed (use snoc in \<open>simp add: digits_val_snoc\<close>)
qed simp

lemma dec_of_val: "list_all is_digit z \<Longrightarrow> z \<noteq> '''' \<Longrightarrow> hd z \<noteq> CHR ''0'' \<Longrightarrow> dec (digits_val z) = z"
proof (induction z rule: rev_induct)
  case (snoc c z)
  have c: "is_digit c" using snoc.prems by simp
  show ?case
  proof (cases "z = ''''")
    case True
    then show ?thesis using digit_roundtrip [OF c] by (simp add: digits_val_def dec.simps [of "digit_val c"])
  next
    case False
    then have "dec (digits_val z) = z" "0 < digits_val z" using snoc digits_val_pos by simp_all
    then show ?thesis using digit_roundtrip [OF c]
      by (simp add: digits_val_snoc dec.simps [of "digits_val z * 10 + digit_val c"])
  qed
qed simp

lemma dec_strips_zeros:
  assumes "list_all is_digit w" "w \<noteq> ''''"
  shows "dec (digits_val w) = strip_zeros w"
proof -
  note z = strip_zeros_props [OF assms]
  have "dec (digits_val (strip_zeros w)) = strip_zeros w"
  proof (cases "dropWhile (\<lambda>c. c = CHR ''0'') w = ''''")
    case True
    then have s: "strip_zeros w = ''0''" by (simp add: strip_zeros_def Let_def)
    have "digits_val ''0'' = 0" "dec 0 = ''0''" by code_simp+
    with s show ?thesis by simp
  next
    case False
    then have "hd (strip_zeros w) \<noteq> CHR ''0''" using hd_dropWhile [OF False] by (simp add: strip_zeros_def Let_def)
    then show ?thesis by (rule dec_of_val [OF z(1,2)])
  qed
  then show ?thesis using z(4) by simp
qed

lemma decimal_text_shape:
  assumes "decimal_shape raw maxd scale w f"
  shows "decimal_text scale (digits_val w * 10 ^ scale + digits_val f * 10 ^ (scale - length f)) =
     strip_zeros w @ ''.'' @ f @ replicate (scale - length f) (CHR ''0'')"
proof -
  let ?f = "f @ replicate (scale - length f) (CHR ''0'')"
  have w: "list_all is_digit w" "w \<noteq> ''''" and f: "list_all is_digit ?f" "length ?f = scale"
    using assms by (auto simp: decimal_shape_def list_all_iff is_digit_def)
  have "digits_val f * 10 ^ (scale - length f) = digits_val ?f" by (simp add: digits_val_append)
  moreover have "digits_val ?f < 10 ^ scale" using digits_val_bound [OF f(1)] f(2) by simp
  moreover have "digits scale (digits_val ?f) = ?f" using digits_of_val [OF f(1)] f(2) by simp
  ultimately show ?thesis using dec_strips_zeros [OF w] by (simp add: decimal_text_def)
qed

lemma normalizePaymentDecimal_value:
  assumes "0 < scale"
  shows "normalizePaymentDecimal raw maxd scale = Some n \<longleftrightarrow> (\<exists>v. decimal_value raw maxd scale v \<and> n = decimal_text scale v)"
  unfolding normalizePaymentDecimal_iff [OF assms] decimal_value_def using decimal_text_shape by metis

lemma decimal_text_value:
  assumes "decimal_value raw maxd scale v" "0 < scale"
  shows "decimal_value (decimal_text scale v) maxd scale v"
proof -
  obtain w f where sh: "decimal_shape raw maxd scale w f"
    and v: "v = digits_val w * 10 ^ scale + digits_val f * 10 ^ (scale - length f)"
    using assms(1) by (auto simp: decimal_value_def)
  have w: "list_all is_digit w" "w \<noteq> ''''" "length f \<le> scale" using sh by (auto simp: decimal_shape_def)
  let ?f = "f @ replicate (scale - length f) (CHR ''0'')"
  have "decimal_shape (decimal_text scale v) maxd scale (strip_zeros w) ?f"
    unfolding v decimal_text_shape [OF sh] by (rule canonical_shape [OF sh assms(2)])
  moreover have "v = digits_val (strip_zeros w) * 10 ^ scale + digits_val ?f * 10 ^ (scale - length ?f)"
    using v w(3) strip_zeros_props(4) [OF w(1,2)] by (simp add: digits_val_append)
  ultimately show ?thesis unfolding decimal_value_def by blast
qed

lemma paymentDecimalToMicros_value:
  "paymentDecimalToMicros raw = Some m \<longleftrightarrow> (\<exists>v. decimal_value raw 12 2 v \<and> m = 10000 * int v)"
proof -
  have "int (digits_val w) * 1000000 + int (digits_val f * 10 ^ (2 - length f)) * 10000 =
    10000 * int (digits_val w * 10 ^ 2 + digits_val f * 10 ^ (2 - length f))" for w f by simp
  then show ?thesis unfolding paymentDecimalToMicros_exact decimal_value_def by metis
qed

text \<open>C31. Amounts are read and printed exactly, whatever the number of places. A string is
  accepted if and only if, trimmed, it is a decimal number of at most the given digits before and after
  the point, and its normal form is then the printed form of the very number it denotes: no leading
  zeros and all places of the fraction. The normal form denotes the same number and so normalises to
  itself. The micros of an amount are that number of hundredths times ten thousand, with no overflow.\<close>

theorem normalizePaymentDecimal_canonical:
  assumes "0 < scale"
  shows "(normalizePaymentDecimal raw maxd scale = Some n \<longleftrightarrow>
            (\<exists>v. decimal_value raw maxd scale v \<and> n = decimal_text scale v)) \<and>
         (\<forall>v. decimal_value raw maxd scale v \<longrightarrow> decimal_value (decimal_text scale v) maxd scale v \<and>
            normalizePaymentDecimal (decimal_text scale v) maxd scale = Some (decimal_text scale v)) \<and>
         (paymentDecimalToMicros raw = Some m \<longleftrightarrow> (\<exists>v. decimal_value raw 12 2 v \<and> m = 10000 * int v))"
  using normalizePaymentDecimal_value [OF assms] decimal_text_value [OF _ assms] paymentDecimalToMicros_value by blast

theorem normalizePaymentDecimal_canonical_witness:
  "decimal_text 2 550 = ''5.50'' \<and> normalizePaymentDecimal '' 05.5'' 12 2 = Some ''5.50'' \<and>
   normalizePaymentDecimal ''5.50'' 12 2 = Some ''5.50'' \<and> paymentDecimalToMicros '' 05.5'' = Some 5500000"
proof -
  have t: "TrimSpace '' 05.5'' = ''05.5''" by code_simp
  have "decimal_shape '' 05.5'' 12 2 ''05'' ''5''" by (simp add: decimal_shape_def t is_digit_def)
  moreover have "digits_val ''05'' * 10 ^ 2 + digits_val ''5'' * 10 ^ (2 - length ''5'') = 550" by code_simp
  ultimately have v: "decimal_value '' 05.5'' 12 2 550" unfolding decimal_value_def by metis
  have p: "decimal_text 2 550 = ''5.50''" by code_simp
  note c = normalizePaymentDecimal_canonical [of 2 "'' 05.5''" 12 "''5.50''" 5500000]
  show ?thesis using c v p by auto
qed

end
