(* ===== verification/Redeem_Codes.thy ===== *)
theory Redeem_Codes
  imports Payment_Orders
begin

text \<open>
  Redeem codes: \<open>app/e2m-core/internal/store/memory_redeem.go\<close>. A balance code credits a
  wallet, an invitation code only records who used it. The theorems are about the state of
  a code (only an unused code can be consumed, used is final) and about the credit, which
  happens once per code and only together with the transition to used.
\<close>

section \<open>The operations\<close>

definition normalizeRedeemCodeForCreate :: "RedeemCode \<Rightarrow> store_error + RedeemCode" where
  "normalizeRedeemCodeForCreate input =
     (if \<not> RedeemCodeType_Valid (rc_Type input) \<or> TrimSpace (rc_CodeHash input) = '''' \<or>
         128 < length (rc_CodeHash input) then Inl ErrInvalid
      else
      let code = input\<lparr>rc_Currency := ToUpper (TrimSpace (rc_Currency input))\<rparr> in
      if rc_Type code = RedeemCodeBalance \<and> (rc_AmountMicros code \<le> 0 \<or> \<not> validCurrency (rc_Currency code))
      then Inl ErrInvalid
      else if rc_Type code \<noteq> RedeemCodeBalance \<and> rc_AmountMicros code \<noteq> 0 then Inl ErrInvalid
      else
      let code = (if rc_Status code = RedeemCodeStatusOther '''' then code\<lparr>rc_Status := RedeemCodeUnused\<rparr>
                  else code) in
      if rc_Status code \<noteq> RedeemCodeUnused then Inl ErrInvalid
      else
      let code = code\<lparr>rc_BatchID := TrimSpace (rc_BatchID code), rc_Notes := TrimSpace (rc_Notes code)\<rparr> in
      if 128 < length (rc_BatchID code) \<or> 500 < length (rc_Notes code) \<or> 16 < length (rc_CodePrefix code)
      then Inl ErrInvalid
      else Inr code)"

text \<open>The loop of \<open>CreateRedeemCodes\<close>: \<open>seen\<close> holds the hashes of the batch so far. An
  error keeps the identifiers already drawn.\<close>

fun prepareRedeemCodes ::
  "time \<Rightarrow> RedeemCode list \<Rightarrow> string list \<Rightarrow> RedeemCode list \<Rightarrow> MemoryStore \<Rightarrow> RedeemCode list result" where
  "prepareRedeemCodes now [] seen prepared s = (Inr prepared, s)"
| "prepareRedeemCodes now (input # inputs) seen prepared s =
     (case normalizeRedeemCodeForCreate input of Inl e \<Rightarrow> (Inl e, s) | Inr code \<Rightarrow>
      if rc_CodeHash code \<in> set seen then (Inl ErrDuplicate, s)
      else if list_ex (\<lambda>x. rc_CodeHash x = rc_CodeHash code) (redeemCodes s) then (Inl ErrDuplicate, s)
      else
      let (i, s) = nextID ''redeem'' s;
          code = code\<lparr>rc_ID := i, rc_CreatedAt := now, rc_UpdatedAt := now\<rparr>
      in prepareRedeemCodes now inputs (rc_CodeHash code # seen) (prepared @ [code]) s)"

definition CreateRedeemCodes :: "clock \<Rightarrow> ctx \<Rightarrow> RedeemCode list \<Rightarrow> MemoryStore \<Rightarrow> RedeemCode list result" where
  "CreateRedeemCodes nw c codes s =
     (case c of Some e \<Rightarrow> (Inl (ErrContext e), s) | None \<Rightarrow>
      if codes = [] then (Inl ErrInvalid, s)
      else case prepareRedeemCodes (nw 0) codes [] [] s of
          (Inl e, s) \<Rightarrow> (Inl e, s)
        | (Inr prepared, s) \<Rightarrow> (Inr prepared, s\<lparr>redeemCodes := redeemCodes s @ prepared\<rparr>))"

definition GetRedeemCodeByHash :: "ctx \<Rightarrow> string \<Rightarrow> MemoryStore \<Rightarrow> RedeemCode result" where
  "GetRedeemCodeByHash c codeHash s =
     (case c of Some e \<Rightarrow> (Inl (ErrContext e), s) | None \<Rightarrow>
      case find (\<lambda>x. rc_CodeHash x = codeHash) (redeemCodes s) of
        Some code \<Rightarrow> (Inr code, s) | None \<Rightarrow> (Inl ErrNotFound, s))"

definition ListRedeemCodes :: "ctx \<Rightarrow> RedeemCodeFilter \<Rightarrow> MemoryStore \<Rightarrow> RedeemCodePage result" where
  "ListRedeemCodes c f s =
     (case c of Some e \<Rightarrow> (Inl (ErrContext e), s) | None \<Rightarrow>
      let (page, pageSize) = normalizePaymentOrderPage (rcf_Page f) (rcf_PageSize f);
          matched = go_sort (\<lambda>a b. rc_CreatedAt b < rc_CreatedAt a)
            (filter (\<lambda>code.
               \<not> (rcf_Type f \<noteq> RedeemCodeTypeOther '''' \<and> rc_Type code \<noteq> rcf_Type f) \<and>
               \<not> (rcf_Status f \<noteq> RedeemCodeStatusOther '''' \<and> rc_Status code \<noteq> rcf_Status f) \<and>
               \<not> (rcf_BatchID f \<noteq> '''' \<and> rc_BatchID code \<noteq> rcf_BatchID f)) (redeemCodes s))
      in case page_slice page pageSize matched of
          None \<Rightarrow> (Inl RuntimePanic, s)
        | Some items \<Rightarrow> (Inr \<lparr>rcp_Items = items, rcp_Total = int (length matched),
            rcp_Page = page, rcp_PageSize = pageSize\<rparr>, s))"

definition setCodeByID :: "string \<Rightarrow> RedeemCode \<Rightarrow> MemoryStore \<Rightarrow> MemoryStore" where
  "setCodeByID i code s = s\<lparr>redeemCodes := update_first (\<lambda>x. rc_ID x = i) (\<lambda>_. code) (redeemCodes s)\<rparr>"

definition DisableRedeemCode :: "clock \<Rightarrow> ctx \<Rightarrow> string \<Rightarrow> MemoryStore \<Rightarrow> RedeemCode result" where
  "DisableRedeemCode nw c i s =
     (case c of Some e \<Rightarrow> (Inl (ErrContext e), s) | None \<Rightarrow>
      case find (\<lambda>x. rc_ID x = i) (redeemCodes s) of
        None \<Rightarrow> (Inl ErrNotFound, s)
      | Some code \<Rightarrow>
          if rc_Status code \<noteq> RedeemCodeUnused then (Inl ErrConflict, s)
          else let code' = code\<lparr>rc_Status := RedeemCodeDisabled, rc_UpdatedAt := nw 0\<rparr> in
            (Inr code', setCodeByID i code' s))"

text \<open>\<open>append(xs[:i], xs[i+1:]...)\<close> at the first match.\<close>

fun delete_first :: "('a \<Rightarrow> bool) \<Rightarrow> 'a list \<Rightarrow> 'a list" where
  "delete_first p [] = []"
| "delete_first p (x # xs) = (if p x then xs else x # delete_first p xs)"

definition dropCode :: "string \<Rightarrow> MemoryStore \<Rightarrow> MemoryStore" where
  "dropCode i s = s\<lparr>redeemCodes := delete_first (\<lambda>x. rc_ID x = i) (redeemCodes s)\<rparr>"

definition DeleteUnusedRedeemCode :: "ctx \<Rightarrow> string \<Rightarrow> MemoryStore \<Rightarrow> unit result" where
  "DeleteUnusedRedeemCode c i s =
     (case c of Some e \<Rightarrow> (Inl (ErrContext e), s) | None \<Rightarrow>
      case find (\<lambda>x. rc_ID x = i) (redeemCodes s) of
        None \<Rightarrow> (Inl ErrNotFound, s)
      | Some code \<Rightarrow>
          if rc_Status code = RedeemCodeUsed then (Inl ErrConflict, s)
          else (Inr (), dropCode i s))"

text \<open>\<open>code.ExpiresAt != nil && !code.ExpiresAt.After(now)\<close>.\<close>

definition codeExpired :: "RedeemCode \<Rightarrow> time \<Rightarrow> bool" where
  "codeExpired code now = (case rc_ExpiresAt code of None \<Rightarrow> False | Some e \<Rightarrow> \<not> now < e)"

definition setCode :: "string \<Rightarrow> RedeemCode \<Rightarrow> MemoryStore \<Rightarrow> MemoryStore" where
  "setCode codeHash code s =
     s\<lparr>redeemCodes := update_first (\<lambda>x. rc_CodeHash x = codeHash) (\<lambda>_. code) (redeemCodes s)\<rparr>"

definition ConsumeInvitationCode :: "clock \<Rightarrow> ctx \<Rightarrow> string \<Rightarrow> int64 \<Rightarrow> MemoryStore \<Rightarrow> RedeemCode result" where
  "ConsumeInvitationCode nw c codeHash userID s =
     (case c of Some e \<Rightarrow> (Inl (ErrContext e), s) | None \<Rightarrow>
      if userID \<le> 0 \<or> TrimSpace codeHash = '''' then (Inl ErrInvalid, s)
      else case find (\<lambda>x. rc_CodeHash x = codeHash) (redeemCodes s) of
        None \<Rightarrow> (Inl ErrNotFound, s)
      | Some code \<Rightarrow>
          if rc_Type code \<noteq> RedeemCodeInvitation \<or> rc_Status code \<noteq> RedeemCodeUnused
          then (Inl ErrConflict, s)
          else
          let now = nw 0 in
          if codeExpired code now then
            (Inl ErrConflict, setCode codeHash (code\<lparr>rc_Status := RedeemCodeExpired, rc_UpdatedAt := now\<rparr>) s)
          else
          let code = code\<lparr>rc_Status := RedeemCodeUsed, rc_UsedBy := userID, rc_UsedAt := Some now,
                       rc_UpdatedAt := now\<rparr>
          in (Inr code, setCode codeHash code s))"

text \<open>The writes of a redemption that succeeds: the code, the wallet, the redeem journal.\<close>

definition usedCode :: "int64 \<Rightarrow> time \<Rightarrow> time \<Rightarrow> RedeemCode \<Rightarrow> RedeemCode" where
  "usedCode userID now stamp code = code\<lparr>rc_Status := RedeemCodeUsed, rc_UsedBy := userID,
     rc_UsedAt := Some now, rc_UpdatedAt := stamp\<rparr>"

definition redeemPosting :: "RedeemCode \<Rightarrow> int64 \<Rightarrow> time \<Rightarrow> time \<Rightarrow> MemoryStore \<Rightarrow> MemoryStore" where
  "redeemPosting code userID now stamp s =
     (let s = setCode (rc_CodeHash code) (usedCode userID now stamp code) s;
          s = creditWallet (walletMapKey userID (rc_Currency code)) userID (rc_Currency code)
                (rc_AmountMicros code) stamp s;
          (j, s) = appendWalletJournalLocked userID WalletJournalRedeem (rc_Currency code)
                (rc_AmountMicros code) (''redeem:'' @ rc_ID code) ''redeem_code'' (rc_ID code)
                WalletAccountPlatformCash WalletAccountUserAvailable stamp s
      in s)"

definition RedeemBalanceCode ::
  "clock \<Rightarrow> ctx \<Rightarrow> string \<Rightarrow> int64 \<Rightarrow> time \<Rightarrow> MemoryStore \<Rightarrow> (RedeemCode \<times> Wallet) result" where
  "RedeemBalanceCode nw c codeHash userID now s =
     (case c of Some e \<Rightarrow> (Inl (ErrContext e), s) | None \<Rightarrow>
      if userID \<le> 0 \<or> TrimSpace codeHash = '''' then (Inl ErrInvalid, s)
      else
      let userEnabled = (case find (\<lambda>u. user_ID u = userID) (users s) of
                           None \<Rightarrow> False | Some u \<Rightarrow> user_Enabled u)
      in
      if \<not> userEnabled then (Inl ErrNotFound, s)
      else case find (\<lambda>x. rc_CodeHash x = codeHash) (redeemCodes s) of
        None \<Rightarrow> (Inl ErrNotFound, s)
      | Some code \<Rightarrow>
          if rc_Type code \<noteq> RedeemCodeBalance then (Inl ErrConflict, s)
          else if rc_Status code = RedeemCodeUnused \<and> codeExpired code now then
            (Inl ErrConflict, setCode codeHash (code\<lparr>rc_Status := RedeemCodeExpired, rc_UpdatedAt := nw 0\<rparr>) s)
          else if rc_Status code \<noteq> RedeemCodeUnused then (Inl ErrConflict, s)
          else
          let s = redeemPosting code userID now (nw 0) s
          in (Inr (usedCode userID now (nw 0) code,
                   walletAt s (walletMapKey userID (rc_Currency code))), s))"

section \<open>Every outcome\<close>

lemma setCode_frame [simp, store_frame]:
  "wallets (setCode h x s) = wallets s" "walletJournals (setCode h x s) = walletJournals s"
  "walletReservations (setCode h x s) = walletReservations s" "supplyUsage (setCode h x s) = supplyUsage s"
  "virtualKeys (setCode h x s) = virtualKeys s" "supplyEndpoints (setCode h x s) = supplyEndpoints s"
  "hybridAllocations (setCode h x s) = hybridAllocations s" "paymentOrders (setCode h x s) = paymentOrders s"
  "seq (setCode h x s) = seq s" "users (setCode h x s) = users s"
  "redeemCodes (setCode h x s) = update_first (\<lambda>y. rc_CodeHash y = h) (\<lambda>_. x) (redeemCodes s)"
  by (simp_all add: setCode_def)

lemma redeemPosting_frame [simp, store_frame]:
  "walletReservations (redeemPosting code u now st s) = walletReservations s"
  "supplyUsage (redeemPosting code u now st s) = supplyUsage s"
  "virtualKeys (redeemPosting code u now st s) = virtualKeys s"
  "supplyEndpoints (redeemPosting code u now st s) = supplyEndpoints s"
  "hybridAllocations (redeemPosting code u now st s) = hybridAllocations s"
  "paymentOrders (redeemPosting code u now st s) = paymentOrders s"
  "p \<noteq> ''wjnl'' \<Longrightarrow> p \<noteq> ''went'' \<Longrightarrow> seq (redeemPosting code u now st s) p = seq s p"
  "redeemCodes (redeemPosting code u now st s) =
     update_first (\<lambda>y. rc_CodeHash y = rc_CodeHash code) (\<lambda>_. usedCode u now st code) (redeemCodes s)"
  by (simp_all add: redeemPosting_def Let_def split_def)

lemma redeemPosting_books:
  assumes "0 < rc_AmountMicros code" and "in64 (rc_AmountMicros code)"
  shows "books s (redeemPosting code u now st s) (walletMapKey u (rc_Currency code)) (rc_AmountMicros code) 0"
  by (rule books_deposit [where kind = WalletJournalRedeem and ik = "''redeem:'' @ rc_ID code"
        and rt = "''redeem_code''" and ri = "rc_ID code" and now = st and now' = st
        and d = WalletAccountPlatformCash and c = WalletAccountUserAvailable])
     (use assms in \<open>simp_all add: redeemPosting_def Let_def split_def creditWallet_def walletAt_def\<close>)

lemma redeemPosting_journal:
  obtains j where "walletJournals (redeemPosting code u now st s) = walletJournals s @ [j]"
    "wjnl_Kind j = WalletJournalRedeem" "wjnl_ReferenceID j = rc_ID code"
    "wjnl_UserID j = u" "wjnl_AmountMicros j = rc_AmountMicros code"
  by (rule that, simp add: redeemPosting_def Let_def split_def) simp_all

section \<open>The invariant of the codes\<close>

text \<open>Identifiers were drawn from the store's counter and are distinct, hashes are distinct,
  and a balance code carries a positive amount in a valid currency.\<close>

definition code_ok :: "nat \<Rightarrow> RedeemCode \<Rightarrow> bool" where
  "code_ok n x \<longleftrightarrow> list_ex (\<lambda>k. rc_ID x = mkID ''redeem'' k) [0..<Suc n] \<and>
     (rc_Type x = RedeemCodeBalance \<longrightarrow> 0 < rc_AmountMicros x \<and> in64 (rc_AmountMicros x) \<and> validCurrency (rc_Currency x))"

definition codes_ok :: "MemoryStore \<Rightarrow> bool" where
  "codes_ok s \<longleftrightarrow> distinct (map rc_ID (redeemCodes s)) \<and> distinct (map rc_CodeHash (redeemCodes s)) \<and>
     list_all (code_ok (seq s ''redeem'')) (redeemCodes s)"

text \<open>A code has been consumed when a used row has its identifier; used rows stay.\<close>

definition code_open :: "MemoryStore \<Rightarrow> string \<Rightarrow> bool" where
  "code_open s i \<longleftrightarrow> (\<forall>x \<in> set (redeemCodes s). rc_ID x = i \<longrightarrow> rc_Status x \<noteq> RedeemCodeUsed)"

definition used_kept :: "MemoryStore \<Rightarrow> MemoryStore \<Rightarrow> bool" where
  "used_kept s t \<longleftrightarrow> (\<forall>x \<in> set (redeemCodes s). rc_Status x = RedeemCodeUsed \<longrightarrow> x \<in> set (redeemCodes t))"

lemma used_kept_refl [simp]: "used_kept s s"
  by (simp add: used_kept_def)

lemma same_codes_kept: "same_codes s t \<Longrightarrow> used_kept s t \<and> (codes_ok t \<longleftrightarrow> codes_ok s)"
  by (simp add: same_codes_def used_kept_def codes_ok_def)

lemma code_open_kept: "used_kept s t \<Longrightarrow> code_open t i \<Longrightarrow> code_open s i"
  unfolding used_kept_def code_open_def by blast

text \<open>The codes are the same except that the first match, not yet used, is rewritten without
  touching its identity.\<close>

lemma rewrite_keeps:
  assumes f: "find p (redeemCodes s) = Some x" and u: "rc_Status x \<noteq> RedeemCodeUsed"
    and t: "redeemCodes t = update_first p (\<lambda>_. y) (redeemCodes s)" "seq t ''redeem'' = seq s ''redeem''"
    and y: "rc_ID y = rc_ID x" "rc_CodeHash y = rc_CodeHash x" "rc_Type y = rc_Type x"
      "rc_AmountMicros y = rc_AmountMicros x" "rc_Currency y = rc_Currency x"
  shows "used_kept s t" and "codes_ok s \<Longrightarrow> codes_ok t"
proof -
  have kept: "z \<in> set (update_first p (\<lambda>_. y) xs)"
    if "find p xs = Some x" "z \<in> set xs" "rc_Status z = RedeemCodeUsed" for z and xs :: "RedeemCode list"
    using that u by (induction xs) (auto split: if_splits)
  then show "used_kept s t" using f by (simp add: used_kept_def t)
  have eq: "map g (update_first p (\<lambda>_. y) xs) = map g xs"
    if "find p xs = Some x" "g y = g x" for g :: "RedeemCode \<Rightarrow> string" and xs
    using that by (induction xs) (auto split: if_splits)
  have all: "list_all q (update_first p (\<lambda>_. y) xs)"
    if "find p xs = Some x" "list_all q xs" "q x \<Longrightarrow> q y" for q and xs :: "RedeemCode list"
    using that by (induction xs) (auto split: if_splits)
  show "codes_ok t" if "codes_ok s"
    using that eq [OF f, of rc_ID] eq [OF f, of rc_CodeHash] y
    by (auto simp: codes_ok_def t code_ok_def intro!: all [OF f])
qed

lemma delete_first_sub: "set (delete_first p xs) \<subseteq> set xs"
  by (induction xs) auto

lemma delete_first_map_distinct: "distinct (map g xs) \<Longrightarrow> distinct (map g (delete_first p xs))"
  using delete_first_sub by (induction xs) (auto, fastforce)

lemma delete_keeps:
  assumes f: "find p (redeemCodes s) = Some x" and u: "rc_Status x \<noteq> RedeemCodeUsed"
    and t: "redeemCodes t = delete_first p (redeemCodes s)" "seq t ''redeem'' = seq s ''redeem''"
  shows "used_kept s t" and "codes_ok s \<Longrightarrow> codes_ok t"
proof -
  have "z \<in> set (delete_first p xs)"
    if "find p xs = Some x" "z \<in> set xs" "rc_Status z = RedeemCodeUsed" for z and xs :: "RedeemCode list"
    using that u by (induction xs) (auto split: if_splits)
  then show "used_kept s t" using f by (simp add: used_kept_def t)
  show "codes_ok t" if "codes_ok s"
    using that delete_first_sub [of p "redeemCodes s"]
    by (auto simp: codes_ok_def t list_all_iff intro: delete_first_map_distinct)
qed

lemma DisableRedeemCode_keeps:
  assumes "DisableRedeemCode nw c i s = (r, t)"
  shows "same_core s t" "same_orders s t" "same_catalog s t" "used_kept s t" "codes_ok s \<Longrightarrow> codes_ok t"
proof -
  consider "t = s" | x where "find (\<lambda>x. rc_ID x = i) (redeemCodes s) = Some x" "rc_Status x = RedeemCodeUnused"
    "t = setCodeByID i (x\<lparr>rc_Status := RedeemCodeDisabled, rc_UpdatedAt := nw 0\<rparr>) s"
    using assms
    by (cases c; cases "find (\<lambda>x. rc_ID x = i) (redeemCodes s)";
        simp add: DisableRedeemCode_def Let_def split: if_splits)
  then have "same_core s t \<and> same_orders s t \<and> same_catalog s t \<and> used_kept s t \<and> (codes_ok s \<longrightarrow> codes_ok t)"
  proof cases
    case (2 x)
    then show ?thesis
      using rewrite_keeps [OF 2(1), of t "x\<lparr>rc_Status := RedeemCodeDisabled, rc_UpdatedAt := nw 0\<rparr>"]
      by (simp add: same_defs setCodeByID_def)
  qed simp
  then show "same_core s t" "same_orders s t" "same_catalog s t" "used_kept s t" "codes_ok s \<Longrightarrow> codes_ok t"
    by simp_all
qed

lemma DeleteUnusedRedeemCode_keeps:
  assumes "DeleteUnusedRedeemCode c i s = (r, t)"
  shows "same_core s t" "same_orders s t" "same_catalog s t" "used_kept s t" "codes_ok s \<Longrightarrow> codes_ok t"
proof -
  consider "t = s" | x where "find (\<lambda>x. rc_ID x = i) (redeemCodes s) = Some x" "rc_Status x \<noteq> RedeemCodeUsed"
    "t = dropCode i s"
    using assms
    by (cases c; cases "find (\<lambda>x. rc_ID x = i) (redeemCodes s)";
        simp add: DeleteUnusedRedeemCode_def split: if_splits)
  then have "same_core s t \<and> same_orders s t \<and> same_catalog s t \<and> used_kept s t \<and> (codes_ok s \<longrightarrow> codes_ok t)"
  proof cases
    case (2 x)
    then show ?thesis using delete_keeps [OF 2(1), of t] by (simp add: same_defs dropCode_def)
  qed simp
  then show "same_core s t" "same_orders s t" "same_catalog s t" "used_kept s t" "codes_ok s \<Longrightarrow> codes_ok t"
    by simp_all
qed

text \<open>The two ways a lookup by hash rewrites a code without a credit.\<close>

lemma ConsumeInvitationCode_keeps:
  assumes "ConsumeInvitationCode nw c h u s = (r, t)"
  shows "same_core s t" "same_orders s t" "same_catalog s t" "used_kept s t" "codes_ok s \<Longrightarrow> codes_ok t"
proof -
  consider "t = s" | x y where "find (\<lambda>x. rc_CodeHash x = h) (redeemCodes s) = Some x"
    "rc_Status x = RedeemCodeUnused" "t = setCode h y s"
    "rc_ID y = rc_ID x" "rc_CodeHash y = rc_CodeHash x" "rc_Type y = rc_Type x"
    "rc_AmountMicros y = rc_AmountMicros x" "rc_Currency y = rc_Currency x"
    using assms
    by (cases c; cases "find (\<lambda>x. rc_CodeHash x = h) (redeemCodes s)";
        force simp add: ConsumeInvitationCode_def Let_def split: if_splits)
  then have "same_core s t \<and> same_orders s t \<and> same_catalog s t \<and> used_kept s t \<and> (codes_ok s \<longrightarrow> codes_ok t)"
  proof cases
    case (2 x y)
    then show ?thesis using rewrite_keeps [OF 2(1), of t y] by (simp add: same_defs)
  qed simp
  then show "same_core s t" "same_orders s t" "same_catalog s t" "used_kept s t" "codes_ok s \<Longrightarrow> codes_ok t"
    by simp_all
qed

section \<open>Creating codes\<close>

lemma code_ok_mono: "code_ok m x \<Longrightarrow> m \<le> n \<Longrightarrow> code_ok n x"
  by (fastforce simp: code_ok_def list_ex_iff)

lemma normalize_code:
  assumes "normalizeRedeemCodeForCreate input = Inr x" and "in64 (rc_AmountMicros input)"
  shows "rc_Status x = RedeemCodeUnused"
    and "rc_Type x = RedeemCodeBalance \<longrightarrow> 0 < rc_AmountMicros x \<and> in64 (rc_AmountMicros x) \<and> validCurrency (rc_Currency x)"
  using assms by (auto simp: normalizeRedeemCodeForCreate_def Let_def split: if_splits)

text \<open>What the loop keeps: the codes prepared so far are new, unused and numbered by the
  counter; nothing but the counter changes in the store.\<close>

definition prepared_ok :: "nat \<Rightarrow> MemoryStore \<Rightarrow> string list \<Rightarrow> RedeemCode list \<Rightarrow> bool" where
  "prepared_ok n0 s seen prepared \<longleftrightarrow> n0 \<le> seq s ''redeem'' \<and>
     (\<forall>x \<in> set prepared. rc_Status x = RedeemCodeUnused \<and> rc_CodeHash x \<in> set seen \<and>
        rc_CodeHash x \<notin> rc_CodeHash ` set (redeemCodes s) \<and> code_ok (seq s ''redeem'') x \<and>
        (\<exists>k. rc_ID x = mkID ''redeem'' k \<and> n0 < k)) \<and>
     distinct (map rc_CodeHash prepared) \<and> distinct (map rc_ID prepared)"

lemma prepared_ok_step:
  assumes p: "prepared_ok n0 s seen prepared" and x: "normalizeRedeemCodeForCreate input = Inr x"
    and a: "in64 (rc_AmountMicros input)"
    and new: "rc_CodeHash x \<notin> set seen" "rc_CodeHash x \<notin> rc_CodeHash ` set (redeemCodes s)"
  shows "prepared_ok n0 (s\<lparr>seq := (seq s)(''redeem'' := Suc (seq s ''redeem''))\<rparr>) (rc_CodeHash x # seen)
     (prepared @ [x\<lparr>rc_ID := mkID ''redeem'' (Suc (seq s ''redeem'')), rc_CreatedAt := now, rc_UpdatedAt := now\<rparr>])"
proof -
  let ?n = "seq s ''redeem''"
  have mono: "code_ok (Suc ?n) y" if "y \<in> set prepared" for y
    using that p code_ok_mono [of ?n y "Suc ?n"] by (simp add: prepared_ok_def)
  have fresh: "rc_ID y \<noteq> mkID ''redeem'' (Suc ?n)" if y: "y \<in> set prepared" for y
  proof
    assume id: "rc_ID y = mkID ''redeem'' (Suc ?n)"
    have "code_ok ?n y" using p y by (simp add: prepared_ok_def)
    then show False using id by (auto simp: code_ok_def list_ex_iff)
  qed
  have "code_ok (Suc ?n) (x\<lparr>rc_ID := mkID ''redeem'' (Suc ?n), rc_CreatedAt := now, rc_UpdatedAt := now\<rparr>)"
    using normalize_code [OF x a] by (simp add: code_ok_def)
  moreover have "rc_CodeHash x \<notin> rc_CodeHash ` set prepared"
    using p new by (auto simp: prepared_ok_def)
  moreover have "mkID ''redeem'' (Suc ?n) \<notin> rc_ID ` set prepared" using fresh by force
  ultimately show ?thesis
    using p new mono normalize_code(1) [OF x a] unfolding prepared_ok_def by simp
qed

lemma prepareRedeemCodes_ok:
  assumes "prepareRedeemCodes now inputs seen prepared s = (r, t)"
    and "prepared_ok n0 s seen prepared" and "list_all (\<lambda>x. in64 (rc_AmountMicros x)) inputs"
  shows "(\<exists>f. t = s\<lparr>seq := f\<rparr> \<and> (\<forall>p. p \<noteq> ''redeem'' \<longrightarrow> f p = seq s p)) \<and> seq s ''redeem'' \<le> seq t ''redeem'' \<and>
     (\<forall>out. r = Inr out \<longrightarrow> (\<exists>seen'. prepared_ok n0 t seen' out))"
  using assms
proof (induction now inputs seen prepared s rule: prepareRedeemCodes.induct)
  case (1 now seen prepared s)
  then show ?case by (auto intro!: exI [of _ "seq s"])
next
  case (2 now input inputs seen prepared s)
  show ?case
  proof (cases "normalizeRedeemCodeForCreate input")
    case (Inl e)
    with 2 show ?thesis by (auto intro!: exI [of _ "seq s"])
  next
    case (Inr x)
    let ?s = "s\<lparr>seq := (seq s)(''redeem'' := Suc (seq s ''redeem''))\<rparr>"
    show ?thesis
    proof (cases "rc_CodeHash x \<in> set seen \<or> list_ex (\<lambda>y. rc_CodeHash y = rc_CodeHash x) (redeemCodes s)")
      case True
      with Inr 2 show ?thesis by (auto intro!: exI [of _ "seq s"] split: if_splits)
    next
      case False
      then have new: "rc_CodeHash x \<notin> set seen" "rc_CodeHash x \<notin> rc_CodeHash ` set (redeemCodes s)"
        by (auto simp: list_ex_iff)
      let ?y = "x\<lparr>rc_ID := mkID ''redeem'' (Suc (seq s ''redeem'')), rc_CreatedAt := now, rc_UpdatedAt := now\<rparr>"
      have run: "prepareRedeemCodes now inputs (rc_CodeHash x # seen) (prepared @ [?y]) ?s = (r, t)"
        using 2(2) Inr False by (simp add: nextID_def Let_def)
      have p: "prepared_ok n0 ?s (rc_CodeHash x # seen) (prepared @ [?y])"
        using 2(3,4) Inr new by (intro prepared_ok_step [where input = input]) simp_all
      have IH: "(\<exists>f. t = ?s\<lparr>seq := f\<rparr> \<and> (\<forall>p. p \<noteq> ''redeem'' \<longrightarrow> f p = seq ?s p)) \<and>
          seq ?s ''redeem'' \<le> seq t ''redeem'' \<and> (\<forall>out. r = Inr out \<longrightarrow> (\<exists>seen'. prepared_ok n0 t seen' out))"
        using 2(1) [OF Inr _ _ _ refl, of "mkID ''redeem'' (Suc (seq s ''redeem''))" ?s] run p 2(4) False
        by (simp add: nextID_def Let_def)
      then show ?thesis by auto
    qed
  qed
qed

lemma CreateRedeemCodes_keeps:
  assumes "CreateRedeemCodes nw c codes s = (r, t)" and a: "list_all (\<lambda>x. in64 (rc_AmountMicros x)) codes"
  shows "same_core s t" "same_orders s t" "same_catalog s t" "used_kept s t" "codes_ok s \<Longrightarrow> codes_ok t"
proof -
  let ?n = "seq s ''redeem''"
  have "same_core s t \<and> same_orders s t \<and> same_catalog s t \<and> used_kept s t \<and> (codes_ok s \<longrightarrow> codes_ok t)"
  proof (cases "c = None \<and> codes \<noteq> []")
    case False
    then have "t = s" using assms by (auto simp: CreateRedeemCodes_def split: option.splits)
    then show ?thesis by simp
  next
    case True
    obtain q u where run: "prepareRedeemCodes (nw 0) codes [] [] s = (q, u)" by fastforce
    have P: "(\<exists>f. u = s\<lparr>seq := f\<rparr> \<and> (\<forall>p. p \<noteq> ''redeem'' \<longrightarrow> f p = seq s p)) \<and> ?n \<le> seq u ''redeem'' \<and>
       (\<forall>out. q = Inr out \<longrightarrow> (\<exists>seen'. prepared_ok ?n u seen' out))"
      by (rule prepareRedeemCodes_ok [OF run _ a]) (simp add: prepared_ok_def)
    then obtain f where u: "u = s\<lparr>seq := f\<rparr>" and f: "\<forall>p. p \<noteq> ''redeem'' \<longrightarrow> f p = seq s p"
      and n: "?n \<le> f ''redeem''" by auto
    have t: "t = (case q of Inl e \<Rightarrow> u | Inr out \<Rightarrow> u\<lparr>redeemCodes := redeemCodes s @ out\<rparr>)"
      using assms(1) True run u by (auto simp: CreateRedeemCodes_def split: sum.splits)
    have old: "code_ok (f ''redeem'') x" if "codes_ok s" "x \<in> set (redeemCodes s)" for x
      using that code_ok_mono [OF _ n] by (simp add: codes_ok_def list_all_iff)
    have "codes_ok t" if ok: "codes_ok s"
    proof (cases q)
      case (Inl e)
      then show ?thesis using ok old by (simp add: t u codes_ok_def list_all_iff)
    next
      case (Inr out)
      with P obtain seen' where out: "prepared_ok ?n u seen' out" by blast
      have "rc_ID x \<noteq> rc_ID y" if "x \<in> set (redeemCodes s)" "y \<in> set out" for x y
      proof -
        from that(2) out obtain k where k: "rc_ID y = mkID ''redeem'' k" "?n < k"
          by (auto simp: prepared_ok_def)
        from that(1) ok obtain m where "rc_ID x = mkID ''redeem'' m" "m \<le> ?n"
          by (auto simp: codes_ok_def list_all_iff code_ok_def list_ex_iff)
        with k show ?thesis by simp
      qed
      moreover have "\<forall>y \<in> set out. rc_CodeHash y \<notin> rc_CodeHash ` set (redeemCodes s)"
        using out by (simp add: prepared_ok_def u)
      then have "rc_CodeHash ` set (redeemCodes s) \<inter> rc_CodeHash ` set out = {}"
        by (force simp: disjoint_iff_not_equal image_iff)
      ultimately show ?thesis
        using ok old out by (auto simp: t u Inr codes_ok_def prepared_ok_def list_all_iff)
    qed
    then show ?thesis using f by (auto simp: t u same_defs used_kept_def split: sum.splits)
  qed
  then show "same_core s t" "same_orders s t" "same_catalog s t" "used_kept s t" "codes_ok s \<Longrightarrow> codes_ok t"
    by simp_all
qed

section \<open>Redeeming\<close>

lemma RedeemBalanceCode_cases:
  assumes "RedeemBalanceCode nw c h u now s = (r, t)"
  obtains (unchanged) "t = s" "\<And>x. r \<noteq> Inr x"
  | (expired) x where "r = Inl ErrConflict" "find (\<lambda>x. rc_CodeHash x = h) (redeemCodes s) = Some x"
      "rc_Type x = RedeemCodeBalance" "rc_Status x = RedeemCodeUnused" "codeExpired x now"
      "t = setCode h (x\<lparr>rc_Status := RedeemCodeExpired, rc_UpdatedAt := nw 0\<rparr>) s"
  | (credited) x where "find (\<lambda>x. rc_CodeHash x = h) (redeemCodes s) = Some x"
      "rc_Type x = RedeemCodeBalance" "rc_Status x = RedeemCodeUnused" "\<not> codeExpired x now"
      "t = redeemPosting x u now (nw 0) s"
      "r = Inr (usedCode u now (nw 0) x, walletAt t (walletMapKey u (rc_Currency x)))"
proof (cases "find (\<lambda>x. rc_CodeHash x = h) (redeemCodes s)")
  case None
  then show thesis
    using assms by (intro unchanged) (auto simp: RedeemBalanceCode_def Let_def split: option.splits if_splits)
next
  case (Some x)
  show thesis
  proof (cases "c = None \<and> 0 < u \<and> TrimSpace h \<noteq> '''' \<and>
      (case find (\<lambda>y. user_ID y = u) (users s) of None \<Rightarrow> False | Some y \<Rightarrow> user_Enabled y) \<and>
      rc_Type x = RedeemCodeBalance \<and> rc_Status x = RedeemCodeUnused")
    case True
    then show thesis
      using assms Some expired [of x] credited [of x]
      by (cases "codeExpired x now") (auto simp: RedeemBalanceCode_def Let_def)
  next
    case False
    then show thesis
      using assms Some
      by (intro unchanged) (auto simp: RedeemBalanceCode_def Let_def not_less split: option.splits if_splits)
  qed
qed

lemma redeemPosting_keeps:
  assumes f: "find (\<lambda>x. rc_CodeHash x = h) (redeemCodes s) = Some x" and u: "rc_Status x = RedeemCodeUnused"
    and ok: "codes_ok s" and t: "t = redeemPosting x w now st s"
  shows "used_kept s t" "codes_ok t" "code_open s (rc_ID x)" "\<not> code_open t (rc_ID x)"
proof -
  have x: "x \<in> set (redeemCodes s)" "rc_CodeHash x = h" using find_SomeD [OF f] by auto
  have codes: "redeemCodes t = update_first (\<lambda>y. rc_CodeHash y = h) (\<lambda>_. usedCode w now st x) (redeemCodes s)"
    by (simp add: t x)
  from rewrite_keeps [OF f _ codes] u ok show "used_kept s t" "codes_ok t"
    by (simp_all add: t usedCode_def)
  show "code_open s (rc_ID x)"
    using ok x u unfolding code_open_def codes_ok_def by (metis (no_types, lifting) RedeemCodeStatus.distinct(1) distinct_map inj_on_eq_iff)
  have "find (\<lambda>y. rc_CodeHash y = h) (redeemCodes t) = Some (usedCode w now st x)"
    unfolding codes by (rule find_update_first_same [OF f]) (simp add: usedCode_def x)
  then show "\<not> code_open t (rc_ID x)"
    using find_SomeD by (fastforce simp: code_open_def usedCode_def)
qed

end
