(* ===== verification/Hybrid_Allocation.thy ===== *)
theory Hybrid_Allocation
  imports Wallet_Ledger
begin

text \<open>
  The owner's traffic intent: \<open>HybridAllocationRule\<close>, \<open>HybridAllocation\<close> and
  \<open>CompileEffectiveAllocation\<close> of \<open>packages/e2m-contracts/hybrid_supply.go\<close>, and the two
  store operations of \<open>memory_hybrid_supply.go\<close> that keep one allocation per instance
  under optimistic versioning.

  The theorems are about the compiled allocation (a split of 100 percent that respects
  every ceiling and leaves nothing unallocated that a ceiling would admit) and about the
  version check (of two writers with the same expectation one wins).
\<close>

section \<open>Rules and allocations\<close>

definition HybridAllocationRule_Normalize :: "HybridAllocationRule \<Rightarrow> HybridAllocationRule" where
  "HybridAllocationRule_Normalize r = r\<lparr>
     rule_OwnerBurstMax := (if rule_OwnerBurstMax r = 0 then rule_OwnerPercent r else rule_OwnerBurstMax r),
     rule_EconomyBurstMax := (if rule_EconomyBurstMax r = 0 then rule_EconomyPercent r else rule_EconomyBurstMax r),
     rule_StableBurstMax := (if rule_StableBurstMax r = 0 then rule_StablePercent r else rule_StableBurstMax r)\<rparr>"

definition HybridAllocationRule_Valid :: "HybridAllocationRule \<Rightarrow> bool" where
  "HybridAllocationRule_Valid r0 \<longleftrightarrow>
     (let r = HybridAllocationRule_Normalize r0 in
      0 \<le> rule_OwnerPercent r \<and> 0 \<le> rule_EconomyPercent r \<and> 0 \<le> rule_StablePercent r \<and>
      wrap64 (wrap64 (rule_OwnerPercent r + rule_EconomyPercent r) + rule_StablePercent r) = 100 \<and>
      rule_OwnerPercent r \<le> rule_OwnerBurstMax r \<and> rule_OwnerBurstMax r \<le> 100 \<and>
      rule_EconomyPercent r \<le> rule_EconomyBurstMax r \<and> rule_EconomyBurstMax r \<le> 100 \<and>
      rule_StablePercent r \<le> rule_StableBurstMax r \<and> rule_StableBurstMax r \<le> 100)"

definition HybridAllocation_Normalize :: "HybridAllocation \<Rightarrow> HybridAllocation" where
  "HybridAllocation_Normalize a = a\<lparr>
     alloc_Basis := (if alloc_Basis a = '''' then ''requests'' else alloc_Basis a),
     alloc_DefaultRule := HybridAllocationRule_Normalize (alloc_DefaultRule a),
     alloc_ModelOverrides := map (\<lambda>m. m\<lparr>hma_Model := TrimSpace (hma_Model m),
        hma_Rule := HybridAllocationRule_Normalize (hma_Rule m)\<rparr>) (alloc_ModelOverrides a)\<rparr>"

text \<open>
  What \<open>range\<close> over a string yields: the code points of its UTF-8 encoding (shortest forms
  only, no surrogates, at most \<open>0x10FFFF\<close>), each marked valid, and for every byte that
  starts no valid encoding the replacement character, marked invalid.
\<close>

definition cont :: "nat \<Rightarrow> bool" where
  "cont b \<longleftrightarrow> 128 \<le> b \<and> b \<le> 191"

fun go_runes :: "nat list \<Rightarrow> (bool \<times> nat) list" where
  "go_runes [] = []"
| "go_runes (a # r) =
     (if a < 128 then (True, a) # go_runes r
      else case r of
        [] \<Rightarrow> [(False, 65533)]
      | b # r2 \<Rightarrow>
          if 194 \<le> a \<and> a \<le> 223 \<and> cont b then
            (True, (a - 192) * 64 + (b - 128)) # go_runes r2
          else (case r2 of
            [] \<Rightarrow> (False, 65533) # go_runes r
          | c # r3 \<Rightarrow>
              if 224 \<le> a \<and> a \<le> 239 \<and> cont b \<and> cont c \<and>
                 (a = 224 \<longrightarrow> 160 \<le> b) \<and> (a = 237 \<longrightarrow> b \<le> 159) then
                (True, (a - 224) * 4096 + (b - 128) * 64 + (c - 128)) # go_runes r3
              else (case r3 of
                [] \<Rightarrow> (False, 65533) # go_runes r
              | d # r4 \<Rightarrow>
                  if 240 \<le> a \<and> a \<le> 244 \<and> cont b \<and> cont c \<and> cont d \<and>
                     (a = 240 \<longrightarrow> 144 \<le> b) \<and> (a = 244 \<longrightarrow> b \<le> 143) then
                    (True, (a - 240) * 262144 + (b - 128) * 4096 + (c - 128) * 64 + (d - 128)) # go_runes r4
                  else (False, 65533) # go_runes r)))"

definition range_runes :: "string \<Rightarrow> nat list" where
  "range_runes v = map snd (go_runes (map of_char v))"

definition utf8_ValidString :: "string \<Rightarrow> bool" where
  "utf8_ValidString v = list_all fst (go_runes (map of_char v))"

definition rune_IsControl :: "nat \<Rightarrow> bool" where
  "rune_IsControl n \<longleftrightarrow> n < 32 \<or> 127 \<le> n \<and> n < 160"

definition rune_IsSpace :: "nat \<Rightarrow> bool" where
  "rune_IsSpace n \<longleftrightarrow> n \<in> set [9, 10, 11, 12, 13, 32, 133, 160, 5760, 8232, 8233, 8239, 8287, 12288] \<or>
     8192 \<le> n \<and> n \<le> 8202"

definition validHybridModel :: "string \<Rightarrow> bool" where
  "validHybridModel value \<longleftrightarrow>
     \<not> (value = '''' \<or> value \<noteq> TrimSpace value \<or> 128 < length value \<or> \<not> utf8_ValidString value) \<and>
     list_all (\<lambda>r. \<not> rune_IsControl r \<and> \<not> rune_IsSpace r) (range_runes value)"

definition ValidHybridRoutingModel :: "string \<Rightarrow> bool" where
  "ValidHybridRoutingModel value \<longleftrightarrow> value = '''' \<or> validHybridModel value"

fun validOverrides :: "string list \<Rightarrow> HybridModelAllocation list \<Rightarrow> bool" where
  "validOverrides seen [] = True"
| "validOverrides seen (m # ms) =
     (if \<not> validHybridModel (hma_Model m) \<or> \<not> HybridAllocationRule_Valid (hma_Rule m) then False
      else let key = ToLower (hma_Model m) in
        if key \<in> set seen then False else validOverrides (key # seen) ms)"

definition ValidHybridAllocation :: "HybridAllocation \<Rightarrow> bool" where
  "ValidHybridAllocation a0 \<longleftrightarrow>
     (let a = HybridAllocation_Normalize a0 in
      \<not> (alloc_UserID a \<le> 0 \<or> TrimSpace (alloc_InstanceID a) = '''' \<or> alloc_Basis a \<noteq> ''requests'' \<or>
         \<not> HybridAllocationRule_Valid (alloc_DefaultRule a) \<or> alloc_DailyBudgetMicros a < 0 \<or>
         alloc_MaxUnitPriceMicros a < 0 \<or> alloc_RoutingGeneration a < 0 \<or>
         100 < length (alloc_ModelOverrides a)) \<and>
      validOverrides [] (alloc_ModelOverrides a))"

definition RuleForModel :: "HybridAllocation \<Rightarrow> string \<Rightarrow> HybridAllocationRule" where
  "RuleForModel a model =
     (let model = TrimSpace model in
      case find (\<lambda>m. EqualFold model (hma_Model m)) (alloc_ModelOverrides a) of
        Some m \<Rightarrow> HybridAllocationRule_Normalize (hma_Rule m)
      | None \<Rightarrow> HybridAllocationRule_Normalize (alloc_DefaultRule a))"

section \<open>The effective allocation\<close>

record AllocationResourceState =
  ars_Class :: ResourceClass
  ars_Available :: bool
  ars_Capacity :: int
  ars_ReasonCode :: string

text \<open>A Go map keyed by resource class is a function: a missing key reads as the zero value.\<close>

record EffectiveAllocation =
  eff_Target :: "ResourceClass \<Rightarrow> int"
  eff_Effective :: "ResourceClass \<Rightarrow> int"
  eff_Unallocated :: int
  eff_AdjustmentCodes :: "string list"

fun class_string :: "ResourceClass \<Rightarrow> string" where
  "class_string ResourceClassOwner = ''owner''"
| "class_string ResourceClassEconomy = ''economy''"
| "class_string ResourceClassStable = ''stable''"
| "class_string (ResourceClassOther v) = v"

definition rule_target :: "HybridAllocationRule \<Rightarrow> ResourceClass \<Rightarrow> int" where
  "rule_target r = (\<lambda>_. 0)(ResourceClassOwner := rule_OwnerPercent r,
     ResourceClassEconomy := rule_EconomyPercent r, ResourceClassStable := rule_StablePercent r)"

definition rule_maximum :: "HybridAllocationRule \<Rightarrow> ResourceClass \<Rightarrow> int" where
  "rule_maximum r = (\<lambda>_. 0)(ResourceClassOwner := rule_OwnerBurstMax r,
     ResourceClassEconomy := rule_EconomyBurstMax r, ResourceClassStable := rule_StableBurstMax r)"

text \<open>The loop that reads the states: availability, clamped capacity, reason.\<close>

definition read_state ::
  "(ResourceClass \<Rightarrow> bool) \<times> (ResourceClass \<Rightarrow> int) \<times> (ResourceClass \<Rightarrow> string) \<Rightarrow> AllocationResourceState \<Rightarrow>
   (ResourceClass \<Rightarrow> bool) \<times> (ResourceClass \<Rightarrow> int) \<times> (ResourceClass \<Rightarrow> string)" where
  "read_state acc st =
     (case acc of (av, cap, rs) \<Rightarrow>
      if \<not> ResourceClass_Valid (ars_Class st) then (av, cap, rs)
      else (av(ars_Class st := ars_Available st),
            cap(ars_Class st := (let k = (if ars_Capacity st < 0 then 0 else ars_Capacity st) in
                                 if 100 < k then 100 else k)),
            rs(ars_Class st := TrimSpace (ars_ReasonCode st))))"

definition read_states ::
  "AllocationResourceState list \<Rightarrow>
   (ResourceClass \<Rightarrow> bool) \<times> (ResourceClass \<Rightarrow> int) \<times> (ResourceClass \<Rightarrow> string)" where
  "read_states states = foldl read_state (\<lambda>_. False, \<lambda>_. 0, \<lambda>_. '''') states"

type_synonym split_state = "(ResourceClass \<Rightarrow> int) \<times> int \<times> string list"

text \<open>The body of the first loop: a class takes its target, up to its capacity.\<close>

definition share_step ::
  "(ResourceClass \<Rightarrow> int) \<Rightarrow> (ResourceClass \<Rightarrow> bool) \<Rightarrow> (ResourceClass \<Rightarrow> int) \<Rightarrow> (ResourceClass \<Rightarrow> string) \<Rightarrow>
   split_state \<Rightarrow> ResourceClass \<Rightarrow> split_state" where
  "share_step target av cap reasons st cls =
     (case st of (eff, missing, codes) \<Rightarrow>
      let share = target cls in
      if av cls \<and> 0 < cap cls then
        (if cap cls < share then
           (eff(cls := cap cls), wrap64 (missing + wrap64 (share - cap cls)),
            codes @ [class_string cls @ ''_capacity_limited''])
         else (eff(cls := share), missing, codes))
      else
        (eff, wrap64 (missing + share),
         if 0 < share then
           codes @ [if reasons cls = '''' then class_string cls @ ''_unavailable'' else reasons cls]
         else codes))"

text \<open>The body of the second loop: a class takes over missing shares, up to its ceilings.\<close>

definition burst_step ::
  "(ResourceClass \<Rightarrow> int) \<Rightarrow> (ResourceClass \<Rightarrow> bool) \<Rightarrow> (ResourceClass \<Rightarrow> int) \<Rightarrow>
   split_state \<Rightarrow> ResourceClass \<Rightarrow> split_state" where
  "burst_step maximum av cap st cls =
     (case st of (eff, missing, codes) \<Rightarrow>
      if missing = 0 \<or> \<not> av cls \<or> cap cls \<le> eff cls then (eff, missing, codes)
      else
      let room = wrap64 (maximum cls - eff cls);
          room = (if wrap64 (cap cls - eff cls) < room then wrap64 (cap cls - eff cls) else room);
          room = (if missing < room then missing else room)
      in
      if 0 < room then
        (eff(cls := wrap64 (eff cls + room)), wrap64 (missing - room), codes @ [class_string cls @ ''_burst_used''])
      else (eff, missing, codes))"

definition CompileEffectiveAllocation ::
  "HybridAllocationRule \<Rightarrow> AllocationResourceState list \<Rightarrow> EffectiveAllocation" where
  "CompileEffectiveAllocation rule states =
     (let rule = HybridAllocationRule_Normalize rule;
          (av, cap, reasons) = read_states states;
          st = foldl (share_step (rule_target rule) av cap reasons) (\<lambda>_. 0, 0, [])
                 [ResourceClassOwner, ResourceClassEconomy, ResourceClassStable];
          (eff, missing, codes) = foldl (burst_step (rule_maximum rule) av cap) st
                 [ResourceClassStable, ResourceClassOwner, ResourceClassEconomy]
      in \<lparr>eff_Target = rule_target rule, eff_Effective = eff, eff_Unallocated = missing,
          eff_AdjustmentCodes = codes\<rparr>)"

section \<open>The store operations\<close>

definition GetHybridAllocation :: "ctx \<Rightarrow> string \<Rightarrow> MemoryStore \<Rightarrow> HybridAllocation result" where
  "GetHybridAllocation c instanceID s =
     (case c of Some e \<Rightarrow> (Inl (ErrContext e), s) | None \<Rightarrow>
      case map_of (hybridAllocations s) (TrimSpace instanceID) of
        None \<Rightarrow> (Inl ErrNotFound, s) | Some a \<Rightarrow> (Inr a, s))"

definition UpsertHybridAllocation ::
  "clock \<Rightarrow> ctx \<Rightarrow> HybridAllocation \<Rightarrow> int64 \<Rightarrow> MemoryStore \<Rightarrow> HybridAllocation result" where
  "UpsertHybridAllocation nw c input expectedVersion s =
     (case c of Some e \<Rightarrow> (Inl (ErrContext e), s) | None \<Rightarrow>
      let input = HybridAllocation_Normalize input in
      if expectedVersion < 0 \<or> \<not> ValidHybridAllocation input then (Inl ErrInvalid, s)
      else case find (\<lambda>x. inst_ID x = alloc_InstanceID input) (instances s) of
        None \<Rightarrow> (Inl ErrInvalid, s)
      | Some x \<Rightarrow>
          if inst_UserID x \<noteq> alloc_UserID input then (Inl ErrInvalid, s)
          else
          let current = map_of (hybridAllocations s) (alloc_InstanceID input) in
          if (case current of None \<Rightarrow> expectedVersion \<noteq> 0 | Some a \<Rightarrow> alloc_Version a \<noteq> expectedVersion)
          then (Inl ErrConflict, s)
          else
          let now = nw 0;
              input = (case current of
                  Some a \<Rightarrow> input\<lparr>alloc_RoutingGeneration := alloc_RoutingGeneration a,
                      alloc_CreatedAt := alloc_CreatedAt a, alloc_Version := wrap64 (alloc_Version a + 1)\<rparr>
                | None \<Rightarrow> input\<lparr>alloc_CreatedAt := now, alloc_Version := 1\<rparr>);
              input = input\<lparr>alloc_UpdatedAt := now\<rparr>
          in (Inr input, s\<lparr>hybridAllocations :=
                 AList.update (alloc_InstanceID input) input (hybridAllocations s)\<rparr>))"

section \<open>The split of a valid rule\<close>

lemma wrap64_percent [simp]: "- 1000 \<le> x \<Longrightarrow> x \<le> 1000 \<Longrightarrow> wrap64 x = x"
  by (rule wrap64_id) (simp add: in64_def)

lemma Normalize_idem [simp]:
  "HybridAllocationRule_Normalize (HybridAllocationRule_Normalize r) = HybridAllocationRule_Normalize r"
  by (simp add: HybridAllocationRule_Normalize_def)

lemma Valid_exact:
  assumes "HybridAllocationRule_Valid r"
  shows "rule_OwnerPercent r + rule_EconomyPercent r + rule_StablePercent r = 100"
  using assms by (auto simp: HybridAllocationRule_Valid_def HybridAllocationRule_Normalize_def Let_def)

abbreviation (input) Owner :: ResourceClass where "Owner \<equiv> ResourceClassOwner"
abbreviation (input) Economy :: ResourceClass where "Economy \<equiv> ResourceClassEconomy"
abbreviation (input) Stable :: ResourceClass where "Stable \<equiv> ResourceClassStable"

lemma read_states_capacity:
  assumes "read_states states = (av, cap, rs)"
  shows "0 \<le> cap c" and "cap c \<le> 100"
proof -
  have "\<forall>c. 0 \<le> fst (snd (foldl read_state acc sts)) c \<and> fst (snd (foldl read_state acc sts)) c \<le> 100"
    if "\<forall>c. 0 \<le> fst (snd acc) c \<and> fst (snd acc) c \<le> 100" for acc sts
    using that by (induction sts arbitrary: acc) (auto simp: read_state_def Let_def split: prod.splits)
  from this [of "(\<lambda>_. False, \<lambda>_. 0, \<lambda>_. '''')" states] assms
  show "0 \<le> cap c" "cap c \<le> 100" by (auto simp: read_states_def)
qed

text \<open>The share of a class before any redistribution.\<close>

definition base_share :: "(ResourceClass \<Rightarrow> int) \<Rightarrow> (ResourceClass \<Rightarrow> bool) \<Rightarrow> (ResourceClass \<Rightarrow> int) \<Rightarrow> ResourceClass \<Rightarrow> int" where
  "base_share target av cap c = (if av c \<and> 0 < cap c then min (target c) (cap c) else 0)"

lemma share_step_eq:
  assumes "0 \<le> target c" "target c \<le> 100" "0 \<le> cap c" "cap c \<le> 100" "0 \<le> m" "m \<le> 300" "eff c = 0"
  shows "\<exists>codes'. share_step target av cap rs (eff, m, codes) c =
     (eff(c := base_share target av cap c), m + (target c - base_share target av cap c), codes')"
proof -
  have "eff = eff(c := 0)" using assms(7) by auto
  then show ?thesis
    using assms by (auto simp: share_step_def base_share_def Let_def min_def)
qed

text \<open>What the redistribution keeps: no ceiling is crossed and the parts add up.\<close>

definition split_ok ::
  "(ResourceClass \<Rightarrow> int) \<Rightarrow> (ResourceClass \<Rightarrow> bool) \<Rightarrow> (ResourceClass \<Rightarrow> int) \<Rightarrow> split_state \<Rightarrow> bool" where
  "split_ok maximum av cap st \<longleftrightarrow>
     (case st of (eff, m, codes) \<Rightarrow> 0 \<le> m \<and> eff Owner + eff Economy + eff Stable + m = 100 \<and>
        list_all (\<lambda>c. 0 \<le> eff c \<and> eff c \<le> maximum c \<and> eff c \<le> cap c \<and> (\<not> av c \<longrightarrow> eff c = 0))
          [Owner, Economy, Stable])"

text \<open>A class that cannot take more: it is unavailable or at one of its ceilings.\<close>

definition saturated ::
  "(ResourceClass \<Rightarrow> int) \<Rightarrow> (ResourceClass \<Rightarrow> bool) \<Rightarrow> (ResourceClass \<Rightarrow> int) \<Rightarrow> split_state \<Rightarrow> ResourceClass \<Rightarrow> bool" where
  "saturated maximum av cap st c \<longleftrightarrow>
     (case st of (eff, m, codes) \<Rightarrow> m = 0 \<or> \<not> av c \<or> cap c \<le> eff c \<or> maximum c \<le> eff c)"

lemma base_split_ok:
  assumes t: "\<And>c. 0 \<le> target c" "\<And>c. target c \<le> maximum c" "\<And>c. maximum c \<le> 100"
    and sum: "target Owner + target Economy + target Stable = 100"
    and cap: "\<And>c. 0 \<le> cap c" "\<And>c. cap c \<le> 100"
  shows "split_ok maximum av cap
    (foldl (share_step target av cap rs) (\<lambda>_. 0, 0, []) [Owner, Economy, Stable])"
proof -
  let ?b = "base_share target av cap"
  have t100: "target c \<le> 100" for c using t(2,3) [of c] by simp
  have b: "0 \<le> ?b c" "?b c \<le> target c" "?b c \<le> cap c" "\<not> av c \<Longrightarrow> ?b c = 0" for c
    using t(1) [of c] cap(1) [of c] by (auto simp: base_share_def)
  obtain c1 where 1: "share_step target av cap rs (\<lambda>_. 0, 0, []) Owner =
      ((\<lambda>_. 0)(Owner := ?b Owner), target Owner - ?b Owner, c1)"
    using share_step_eq [of target Owner cap 0 "\<lambda>_. 0" av rs "[]"] t t100 cap by auto
  obtain c2 where 2: "share_step target av cap rs ((\<lambda>_. 0)(Owner := ?b Owner), target Owner - ?b Owner, c1) Economy =
      ((\<lambda>_. 0)(Owner := ?b Owner, Economy := ?b Economy), target Owner - ?b Owner + (target Economy - ?b Economy), c2)"
    using share_step_eq [of target Economy cap "target Owner - ?b Owner" "(\<lambda>_. 0)(Owner := ?b Owner)" av rs c1]
      t t100 [of Owner] t100 cap b(1,2) [of Owner] by auto
  obtain c3 where 3: "share_step target av cap rs
       ((\<lambda>_. 0)(Owner := ?b Owner, Economy := ?b Economy), target Owner - ?b Owner + (target Economy - ?b Economy), c2) Stable =
      ((\<lambda>_. 0)(Owner := ?b Owner, Economy := ?b Economy, Stable := ?b Stable),
       target Owner - ?b Owner + (target Economy - ?b Economy) + (target Stable - ?b Stable), c3)"
    using share_step_eq [of target Stable cap "target Owner - ?b Owner + (target Economy - ?b Economy)"
        "(\<lambda>_. 0)(Owner := ?b Owner, Economy := ?b Economy)" av rs c2]
      t t100 [of Owner] t100 [of Economy] t100 cap b(1,2) [of Owner] b(1,2) [of Economy] by auto
  have le: "?b c \<le> maximum c" for c using b(2) [of c] t(2) [of c] by simp
  show ?thesis
    using sum b(1,2) [of Owner] b(1,2) [of Economy] b(1,2) [of Stable]
    by (simp add: 1 2 3 split_ok_def b le)
qed

lemma burst_step_ok:
  assumes ok: "split_ok maximum av cap st" and c: "c \<in> {Owner, Economy, Stable}"
    and m: "\<And>c. maximum c \<le> 100" and cap: "\<And>c. cap c \<le> 100"
  shows "split_ok maximum av cap (burst_step maximum av cap st c)"
    and "saturated maximum av cap (burst_step maximum av cap st c) c"
    and "saturated maximum av cap st d \<Longrightarrow> saturated maximum av cap (burst_step maximum av cap st c) d"
proof -
  obtain eff ms codes where st: "st = (eff, ms, codes)" by (cases st) auto
  have b: "0 \<le> eff c" "eff c \<le> maximum c" "eff c \<le> cap c" and ms: "0 \<le> ms" "ms \<le> 100"
    using ok c by (auto simp: split_ok_def st)
  define room where "room = min (min (maximum c - eff c) (cap c - eff c)) ms"
  have w: "wrap64 (maximum c - eff c) = maximum c - eff c" "wrap64 (cap c - eff c) = cap c - eff c"
    using b m [of c] cap [of c] by (auto intro!: wrap64_percent)
  have step: "burst_step maximum av cap st c =
     (if ms = 0 \<or> \<not> av c \<or> cap c \<le> eff c \<or> room \<le> 0 then st
      else (eff(c := eff c + room), ms - room, codes @ [class_string c @ ''_burst_used'']))"
  proof (cases "ms = 0 \<or> \<not> av c \<or> cap c \<le> eff c")
    case False
    have lets: "(if ms < (if cap c - eff c < maximum c - eff c then cap c - eff c else maximum c - eff c) then ms
        else if cap c - eff c < maximum c - eff c then cap c - eff c else maximum c - eff c) = room"
      by (simp add: room_def min_def)
    have "wrap64 (eff c + room) = eff c + room" "wrap64 (ms - room) = ms - room"
      using b ms m [of c] room_def by (auto intro!: wrap64_percent simp: min_def)
    with False show ?thesis unfolding burst_step_def st prod.case Let_def w lets by simp
  qed (auto simp: burst_step_def st)
  have room: "0 \<le> room" "room \<le> ms" "room \<le> maximum c - eff c" "room \<le> cap c - eff c"
    using b ms by (auto simp: room_def)
  show "split_ok maximum av cap (burst_step maximum av cap st c)"
  proof -
    from c consider "c = Owner" | "c = Economy" | "c = Stable" by blast
    then show ?thesis unfolding step using ok room by cases (simp_all add: st split_ok_def)
  qed
  show "saturated maximum av cap (burst_step maximum av cap st c) c"
    unfolding step using b ms by (auto simp: st saturated_def room_def min_def)
  show "saturated maximum av cap (burst_step maximum av cap st c) d" if "saturated maximum av cap st d"
    unfolding step using that room by (auto simp: st saturated_def)
qed

lemma CompileEffectiveAllocation_split:
  assumes "HybridAllocationRule_Valid rule" and "read_states states = (av, cap, rs)"
    and "maximum = rule_maximum (HybridAllocationRule_Normalize rule)"
  obtains codes where
    "split_ok maximum av cap (eff_Effective (CompileEffectiveAllocation rule states),
       eff_Unallocated (CompileEffectiveAllocation rule states), codes)"
    "\<And>c. c \<in> {Owner, Economy, Stable} \<Longrightarrow> saturated maximum av cap
       (eff_Effective (CompileEffectiveAllocation rule states),
        eff_Unallocated (CompileEffectiveAllocation rule states), codes) c"
proof -
  let ?r = "HybridAllocationRule_Normalize rule"
  have v: "HybridAllocationRule_Valid ?r" using assms(1) by (simp add: HybridAllocationRule_Valid_def)
  have m: "maximum c \<le> 100" and t: "0 \<le> rule_target ?r c" "rule_target ?r c \<le> maximum c" for c
    using v by (auto simp: assms(3) rule_maximum_def rule_target_def HybridAllocationRule_Valid_def Let_def)
  have sum: "rule_target ?r Owner + rule_target ?r Economy + rule_target ?r Stable = 100"
    using Valid_exact [OF v] by (simp add: rule_target_def)
  note cap = read_states_capacity [OF assms(2)]
  define s0 where "s0 = foldl (share_step (rule_target ?r) av cap rs) (\<lambda>_. 0, 0, []) [Owner, Economy, Stable]"
  define s1 where "s1 = burst_step maximum av cap s0 Stable"
  define s2 where "s2 = burst_step maximum av cap s1 Owner"
  define s3 where "s3 = burst_step maximum av cap s2 Economy"
  have ok0: "split_ok maximum av cap s0"
    unfolding s0_def by (rule base_split_ok) (use m t sum cap in simp_all)
  note step = burst_step_ok [OF _ _ m cap(2)]
  have ok1: "split_ok maximum av cap s1" and ok2: "split_ok maximum av cap s2" and ok3: "split_ok maximum av cap s3"
    unfolding s3_def s2_def s1_def by (simp_all add: step ok0)
  have sat: "saturated maximum av cap s3 c" if "c \<in> {Owner, Economy, Stable}" for c
    using that ok0 ok1 ok2 unfolding s3_def s2_def s1_def by (auto intro!: step)
  obtain eff ms codes where s3: "s3 = (eff, ms, codes)" by (cases s3) auto
  have run: "foldl (burst_step maximum av cap) s0 [Stable, Owner, Economy] = s3"
    by (simp add: s3_def s2_def s1_def)
  have "CompileEffectiveAllocation rule states = \<lparr>eff_Target = rule_target ?r, eff_Effective = eff,
      eff_Unallocated = ms, eff_AdjustmentCodes = codes\<rparr>"
    unfolding CompileEffectiveAllocation_def Let_def assms(2) prod.case assms(3) [symmetric]
      s0_def [symmetric] run s3 ..
  with ok3 sat s3 show thesis by (intro that [of codes]) simp_all
qed

section \<open>Properties of the effective allocation\<close>

text \<open>C10. For a valid rule the compiled allocation splits exactly 100 percent into the three
  effective shares and the unallocated rest; no share is negative, above its owner-approved
  burst ceiling or above the admitted capacity; an unavailable class gets nothing; and a
  rest stays unallocated only when every available class is at one of its two ceilings.\<close>

theorem CompileEffectiveAllocation_safe:
  assumes "HybridAllocationRule_Valid rule" and "read_states states = (av, cap, rs)"
  shows "eff_Effective (CompileEffectiveAllocation rule states) ResourceClassOwner +
         eff_Effective (CompileEffectiveAllocation rule states) ResourceClassEconomy +
         eff_Effective (CompileEffectiveAllocation rule states) ResourceClassStable +
         eff_Unallocated (CompileEffectiveAllocation rule states) = 100 \<and>
     0 \<le> eff_Unallocated (CompileEffectiveAllocation rule states) \<and>
     (\<forall>c \<in> {ResourceClassOwner, ResourceClassEconomy, ResourceClassStable}.
        0 \<le> eff_Effective (CompileEffectiveAllocation rule states) c \<and>
        eff_Effective (CompileEffectiveAllocation rule states) c \<le> rule_maximum (HybridAllocationRule_Normalize rule) c \<and>
        eff_Effective (CompileEffectiveAllocation rule states) c \<le> cap c \<and>
        (\<not> av c \<longrightarrow> eff_Effective (CompileEffectiveAllocation rule states) c = 0) \<and>
        (0 < eff_Unallocated (CompileEffectiveAllocation rule states) \<and> av c \<longrightarrow>
           cap c \<le> eff_Effective (CompileEffectiveAllocation rule states) c \<or>
           rule_maximum (HybridAllocationRule_Normalize rule) c \<le> eff_Effective (CompileEffectiveAllocation rule states) c))"
proof -
  let ?e = "CompileEffectiveAllocation rule states"
  obtain codes where ok: "split_ok (rule_maximum (HybridAllocationRule_Normalize rule)) av cap
        (eff_Effective ?e, eff_Unallocated ?e, codes)"
    and sat: "\<And>c. c \<in> {Owner, Economy, Stable} \<Longrightarrow>
        saturated (rule_maximum (HybridAllocationRule_Normalize rule)) av cap (eff_Effective ?e, eff_Unallocated ?e, codes) c"
    using CompileEffectiveAllocation_split [OF assms refl] by blast
  show ?thesis using ok sat by (simp add: split_ok_def saturated_def) force
qed

definition sample_rule :: HybridAllocationRule where
  "sample_rule = \<lparr>rule_OwnerPercent = 50, rule_EconomyPercent = 30, rule_StablePercent = 20,
     rule_OwnerBurstMax = 60, rule_EconomyBurstMax = 0, rule_StableBurstMax = 40\<rparr>"

definition sample_states :: "AllocationResourceState list" where
  "sample_states = [
     \<lparr>ars_Class = ResourceClassOwner, ars_Available = True, ars_Capacity = 100, ars_ReasonCode = ''''\<rparr>,
     \<lparr>ars_Class = ResourceClassStable, ars_Available = True, ars_Capacity = 35, ars_ReasonCode = ''''\<rparr>]"

lemma sample_rule_valid: "HybridAllocationRule_Valid sample_rule"
  by (simp add: sample_rule_def HybridAllocationRule_Valid_def HybridAllocationRule_Normalize_def)

lemma sample_states_read:
  "read_states sample_states =
     ((\<lambda>_. False)(ResourceClassOwner := True, ResourceClassStable := True),
      (\<lambda>_. 0)(ResourceClassOwner := 100, ResourceClassStable := 35), \<lambda>_. '''')"
  by (simp add: read_states_def sample_states_def read_state_def fun_eq_iff)

theorem CompileEffectiveAllocation_safe_witness:
  "eff_Effective (CompileEffectiveAllocation sample_rule sample_states) ResourceClassOwner +
   eff_Effective (CompileEffectiveAllocation sample_rule sample_states) ResourceClassEconomy +
   eff_Effective (CompileEffectiveAllocation sample_rule sample_states) ResourceClassStable +
   eff_Unallocated (CompileEffectiveAllocation sample_rule sample_states) = 100 \<and>
   eff_Effective (CompileEffectiveAllocation sample_rule sample_states) ResourceClassOwner \<le> 60 \<and>
   eff_Effective (CompileEffectiveAllocation sample_rule sample_states) ResourceClassEconomy = 0"
  using CompileEffectiveAllocation_safe [OF sample_rule_valid sample_states_read]
  by (simp add: sample_rule_def HybridAllocationRule_Normalize_def rule_maximum_def)

text \<open>When every class is available with capacity for its target, the compiled allocation
  is the owner's target, nothing is unallocated and no adjustment is reported.\<close>

theorem CompileEffectiveAllocation_target:
  assumes "HybridAllocationRule_Valid rule" and "read_states states = (av, cap, rs)"
    and "\<forall>c \<in> {ResourceClassOwner, ResourceClassEconomy, ResourceClassStable}.
           av c \<and> 0 < cap c \<and> rule_target (HybridAllocationRule_Normalize rule) c \<le> cap c"
  shows "CompileEffectiveAllocation rule states =
     \<lparr>eff_Target = rule_target (HybridAllocationRule_Normalize rule),
      eff_Effective = rule_target (HybridAllocationRule_Normalize rule),
      eff_Unallocated = 0, eff_AdjustmentCodes = []\<rparr>"
proof -
  let ?t = "rule_target (HybridAllocationRule_Normalize rule)"
  have c: "av Owner" "av Economy" "av Stable" "0 < cap Owner" "0 < cap Economy" "0 < cap Stable"
    "\<not> cap Owner < ?t Owner" "\<not> cap Economy < ?t Economy" "\<not> cap Stable < ?t Stable"
    using assms(3) by auto
  have "(\<lambda>_. 0)(Owner := ?t Owner, Economy := ?t Economy, Stable := ?t Stable) = ?t"
    by (auto simp: rule_target_def)
  then have "foldl (share_step ?t av cap rs) (\<lambda>_. 0, 0, []) [Owner, Economy, Stable] = (?t, 0, [])"
    using c by (simp add: share_step_def)
  then show ?thesis
    by (simp add: CompileEffectiveAllocation_def assms(2) burst_step_def Let_def)
qed

definition full_states :: "AllocationResourceState list" where
  "full_states = map (\<lambda>c. \<lparr>ars_Class = c, ars_Available = True, ars_Capacity = 100, ars_ReasonCode = ''''\<rparr>)
     [ResourceClassOwner, ResourceClassEconomy, ResourceClassStable]"

theorem CompileEffectiveAllocation_target_witness:
  "eff_Unallocated (CompileEffectiveAllocation sample_rule full_states) = 0 \<and>
   eff_Effective (CompileEffectiveAllocation sample_rule full_states) ResourceClassEconomy = 30"
proof -
  have r: "read_states full_states =
      ((\<lambda>_. False)(Owner := True, Economy := True, Stable := True),
       (\<lambda>_. 0)(Owner := 100, Economy := 100, Stable := 100), \<lambda>_. '''')"
    by (simp add: read_states_def full_states_def read_state_def fun_eq_iff)
  show ?thesis
    using CompileEffectiveAllocation_target [OF sample_rule_valid r]
    by (simp add: sample_rule_def HybridAllocationRule_Normalize_def rule_target_def)
qed

section \<open>The version check\<close>

lemma UpsertHybridAllocation_cases:
  assumes "UpsertHybridAllocation nw c input v s = (r, t)"
  obtains (rejected) e where "r = Inl e" "t = s"
  | (stored) a where "r = Inr a" "alloc_InstanceID a = alloc_InstanceID input"
      "t = s\<lparr>hybridAllocations := AList.update (alloc_InstanceID input) a (hybridAllocations s)\<rparr>"
      "case map_of (hybridAllocations s) (alloc_InstanceID input) of
         None \<Rightarrow> v = 0 \<and> alloc_Version a = 1
       | Some b \<Rightarrow> v = alloc_Version b \<and> alloc_Version a = wrap64 (v + 1) \<and>
           alloc_RoutingGeneration a = alloc_RoutingGeneration b \<and> alloc_CreatedAt a = alloc_CreatedAt b"
proof (cases r)
  case (Inl e)
  with assms have "t = s"
    by (auto simp: UpsertHybridAllocation_def Let_def split: option.splits if_splits)
  with Inl show thesis by (rule rejected)
next
  case (Inr a)
  show thesis
    by (rule stored [of a]; use assms Inr in \<open>(auto simp: UpsertHybridAllocation_def Let_def
      HybridAllocation_Normalize_def split: option.splits if_splits)[]\<close>)
qed

lemma UpsertHybridAllocation_keeps:
  assumes "UpsertHybridAllocation nw c input v s = (r, t)"
  shows "same_core s t" "same_codes s t" "same_orders s t"
    "supplyEndpoints t = supplyEndpoints s \<and> virtualKeys t = virtualKeys s"
  using assms by (cases rule: UpsertHybridAllocation_cases; simp add: same_defs)+

text \<open>C11. Optimistic versioning of an allocation loses no update: of two writers that expect
  the same version of one instance's allocation, once the first has succeeded the second is
  refused with a conflict and changes nothing.\<close>

theorem UpsertHybridAllocation_one_winner:
  assumes "UpsertHybridAllocation nw c first v s = (Inr a, t)"
    and "UpsertHybridAllocation nw' None second v t = (r, u)"
    and "alloc_InstanceID second = alloc_InstanceID first" and "in64 v"
  shows "u = t \<and> (\<forall>b. r \<noteq> Inr b)"
proof -
  have av: "map_of (hybridAllocations t) (alloc_InstanceID first) = Some a"
    and "alloc_Version a \<noteq> v"
  proof -
    have neq: "wrap64 (v + 1) \<noteq> v"
    proof
      assume "wrap64 (v + 1) = v"
      then have "wrap64 (v + 1) = wrap64 v" using assms(4) by (simp add: wrap64_id)
      then have "(v + 1) mod 2 ^ 64 = v mod 2 ^ 64" by (simp only: wrap64_eq_iff)
      then have "(2::int) ^ 64 dvd 1" by (simp add: mod_eq_dvd_iff)
      then show False by simp
    qed
    from assms(1) show "map_of (hybridAllocations t) (alloc_InstanceID first) = Some a"
      by (cases rule: UpsertHybridAllocation_cases) (simp_all add: update_conv)
    from assms(1) neq show "alloc_Version a \<noteq> v"
      by (cases rule: UpsertHybridAllocation_cases) (auto split: option.splits)
  qed
  from assms(2) show ?thesis
  proof (cases rule: UpsertHybridAllocation_cases)
    case (stored b)
    then show ?thesis using av \<open>alloc_Version a \<noteq> v\<close> assms(3) by simp
  qed simp
qed

definition sample_allocation :: HybridAllocation where
  "sample_allocation = \<lparr>alloc_UserID = 7, alloc_InstanceID = ''i'', alloc_Basis = '''',
     alloc_DefaultRule = sample_rule, alloc_ModelOverrides = [\<lparr>hma_Model = ''m'', hma_Rule = sample_rule\<rparr>],
     alloc_DailyBudgetMicros = 5, alloc_MaxUnitPriceMicros = 0, alloc_RoutingGeneration = 0,
     alloc_Version = 0, alloc_CreatedAt = 0, alloc_UpdatedAt = 0\<rparr>"

definition sample_instance_store :: MemoryStore where
  "sample_instance_store = NewMemoryStore\<lparr>instances := [\<lparr>inst_ID = ''i'', inst_UserID = 7, inst_Name = ''n'',
     inst_Kind = '''', inst_Status = '''', inst_ConnectorID = '''', inst_CreatedAt = 0, inst_UpdatedAt = 0\<rparr>]\<rparr>"

lemma sample_allocation_valid: "ValidHybridAllocation (HybridAllocation_Normalize sample_allocation)"
proof -
  have "HybridAllocationRule_Valid (HybridAllocationRule_Normalize sample_rule)"
    using sample_rule_valid by (simp add: HybridAllocationRule_Valid_def)
  moreover have "validHybridModel ''m''"
    by (simp add: validHybridModel_def TrimSpace_plain plain_def rune_IsControl_def rune_IsSpace_def
        utf8_ValidString_def range_runes_def)
  ultimately show ?thesis
    by (simp add: ValidHybridAllocation_def HybridAllocation_Normalize_def sample_allocation_def
        TrimSpace_plain plain_def)
qed

theorem UpsertHybridAllocation_one_winner_witness:
  "(case UpsertHybridAllocation (\<lambda>_. 1) None sample_allocation 0 sample_instance_store of
      (Inr a, t) \<Rightarrow> alloc_Version a = 1 \<and>
         snd (UpsertHybridAllocation (\<lambda>_. 2) None sample_allocation 0 t) = t
    | _ \<Rightarrow> False)"
proof -
  have id: "alloc_InstanceID (HybridAllocation_Normalize sample_allocation) = ''i''"
    "alloc_UserID (HybridAllocation_Normalize sample_allocation) = 7"
    by (simp_all add: HybridAllocation_Normalize_def sample_allocation_def)
  obtain a t where run: "UpsertHybridAllocation (\<lambda>_. 1) None sample_allocation 0 sample_instance_store = (Inr a, t)"
    and v: "alloc_Version a = 1"
    by (simp add: UpsertHybridAllocation_def sample_allocation_valid id sample_instance_store_def
        NewMemoryStore_def Let_def)
  have "snd (UpsertHybridAllocation (\<lambda>_. 2) None sample_allocation 0 t) = t"
    using UpsertHybridAllocation_one_winner [OF run prod.collapse [symmetric] refl] by (simp add: in64_def)
  then show ?thesis using run v by simp
qed

end
