(* ===== verification/Supply_Catalog.thy ===== *)
theory Supply_Catalog
  imports Hybrid_Allocation Go_Float
begin

text \<open>
  The supply catalogue of \<open>app/e2m-core/internal/store/memory_hybrid_supply.go\<close>: virtual
  keys, channel endpoints, the candidates for a request and their ranking, the models a key
  may call, the reliability statistics and the usage reads, with the validity checks of
  \<open>packages/e2m-contracts/hybrid_supply.go\<close> and \<open>buildSupplyModelCatalog\<close> of
  \<open>postgres_hybrid_supply.go\<close>.

  \<open>net/url.Parse\<close> is the argument \<open>urlParse\<close> of the operations that validate a base URL.
  The scores of the ranking are finite \<open>float64\<close> numbers, kept as rationals rounded by \<open>f64\<close>.
\<close>

section \<open>Validity\<close>

definition VirtualKey_Valid :: "VirtualKey \<Rightarrow> bool" where
  "VirtualKey_Valid k \<longleftrightarrow>
     (let platformKey = (TrimSpace (vk_GroupID k) \<noteq> '''' \<and> TrimSpace (vk_InstanceID k) = '''');
          legacyKey = (TrimSpace (vk_GroupID k) = '''' \<and> TrimSpace (vk_InstanceID k) \<noteq> '''')
      in
      \<not> (vk_UserID k \<le> 0 \<or> (\<not> platformKey \<and> \<not> legacyKey) \<or> TrimSpace (vk_Name k) = '''' \<or>
         \<not> IsPlatformSupply (vk_ResourceClass k) \<or> vk_KeyVersion k < 0 \<or> vk_DailyLimitMicros k < 0 \<or>
         100 < length (vk_Models k) \<or> \<not> SupplyRoutingPreference_Valid (vk_RoutingPreference k)) \<and>
      list_all validHybridModel (vk_Models k))"

record url =
  url_Scheme :: string
  url_Host :: string
  url_HasUser :: bool
  url_RawQuery :: string
  url_Fragment :: string

definition validSupplyBaseURL :: "(string \<Rightarrow> url option) \<Rightarrow> string \<Rightarrow> bool \<Rightarrow> bool" where
  "validSupplyBaseURL urlParse value0 allowInsecure \<longleftrightarrow>
     (let value = TrimSpace value0 in
      \<not> (length value < 10 \<or> 2048 < length value) \<and>
      list_all (\<lambda>r. \<not> rune_IsControl r \<and> \<not> rune_IsSpace r) (range_runes value) \<and>
      (case urlParse value of
         None \<Rightarrow> False
       | Some parsed \<Rightarrow>
           \<not> (url_Host parsed = '''' \<or> url_HasUser parsed \<or> url_RawQuery parsed \<noteq> '''' \<or>
              url_Fragment parsed \<noteq> '''') \<and>
           (url_Scheme parsed = ''https'' \<or> allowInsecure \<and> url_Scheme parsed = ''http'')))"

definition validSupplyCurrency :: "string \<Rightarrow> bool" where
  "validSupplyCurrency v \<longleftrightarrow> length v = 3 \<and> list_all is_upper v"

definition SupplyChannelEndpoint_Valid :: "(string \<Rightarrow> url option) \<Rightarrow> SupplyChannelEndpoint \<Rightarrow> bool" where
  "SupplyChannelEndpoint_Valid urlParse e \<longleftrightarrow>
     TrimSpace (ep_ChannelID e) \<noteq> '''' \<and> validSupplyBaseURL urlParse (ep_BaseURL e) (ep_AllowInsecure e) \<and>
     validSupplyCurrency (ep_Currency e) \<and>
     0 \<le> ep_InputPriceMicrosPerMillion e \<and> 0 \<le> ep_OutputPriceMicrosPerMillion e \<and>
     0 \<le> ep_InputSupplierMicrosPerMillion e \<and> 0 \<le> ep_OutputSupplierMicrosPerMillion e \<and>
     ep_InputSupplierMicrosPerMillion e \<le> ep_InputPriceMicrosPerMillion e \<and>
     ep_OutputSupplierMicrosPerMillion e \<le> ep_OutputPriceMicrosPerMillion e \<and>
     0 < ep_MaxRequestMicros e \<and> 0 \<le> ep_MaxConcurrency e \<and>
     0 \<le> ep_CapacityPercent e \<and> ep_CapacityPercent e \<le> 100"

section \<open>Virtual keys\<close>

text \<open>The loop over the users that stops at the first row with the identifier.\<close>

definition clientOrAdmin :: "User \<Rightarrow> bool" where
  "clientOrAdmin u \<longleftrightarrow> user_Enabled u \<and>
     (userHasRole (user_Roles u) UserRoleClient \<or> userHasRole (user_Roles u) UserRoleAdmin)"

definition eligibleUser :: "MemoryStore \<Rightarrow> int64 \<Rightarrow> User option" where
  "eligibleUser s userID =
     (case find (\<lambda>u. user_ID u = userID) (users s) of
        None \<Rightarrow> None | Some u \<Rightarrow> if clientOrAdmin u then Some u else None)"

definition keyScopeExists :: "MemoryStore \<Rightarrow> VirtualKey \<Rightarrow> bool" where
  "keyScopeExists s input =
     (if vk_GroupID input \<noteq> '''' then
        list_ex (\<lambda>p. pool_ID p = vk_GroupID input \<and> pool_DeliveryMode p = UpstreamDeliverySupplyGateway \<and>
                     pool_Status p \<noteq> UpstreamPoolRetired) (upstreamPools s)
      else
        list_ex (\<lambda>i. inst_ID i = vk_InstanceID input \<and> inst_UserID i = vk_UserID input) (instances s))"

definition sameKeyScope :: "VirtualKey \<Rightarrow> VirtualKey \<Rightarrow> bool" where
  "sameKeyScope k input \<longleftrightarrow> vk_InstanceID k = vk_InstanceID input \<and> vk_GroupID k = vk_GroupID input \<and>
     vk_ResourceClass k = vk_ResourceClass input \<and> vk_Name k = vk_Name input"

definition putKey :: "VirtualKey \<Rightarrow> MemoryStore \<Rightarrow> MemoryStore" where
  "putKey k s = s\<lparr>virtualKeys := AList.update (vk_ID k) k (virtualKeys s)\<rparr>"

definition CreateVirtualKey :: "clock \<Rightarrow> ctx \<Rightarrow> VirtualKey \<Rightarrow> MemoryStore \<Rightarrow> VirtualKey result" where
  "CreateVirtualKey nw c input s =
     (case c of Some e \<Rightarrow> (Inl (ErrContext e), s) | None \<Rightarrow>
      let input = input\<lparr>vk_Name := TrimSpace (vk_Name input), vk_InstanceID := TrimSpace (vk_InstanceID input),
                    vk_GroupID := TrimSpace (vk_GroupID input)\<rparr>
      in
      if \<not> VirtualKey_Valid input \<or> TrimSpace (vk_TokenHash input) = '''' \<or> TrimSpace (vk_SecretRef input) = ''''
      then (Inl ErrInvalid, s)
      else if eligibleUser s (vk_UserID input) = None then (Inl ErrInvalid, s)
      else if \<not> keyScopeExists s input then (Inl ErrInvalid, s)
      else if list_ex (\<lambda>k. vk_TokenHash k = vk_TokenHash input \<or> vk_SecretRef k = vk_SecretRef input \<or>
                           sameKeyScope k input) (map snd (virtualKeys s))
      then (Inl ErrDuplicate, s)
      else
      let (i, s) = (if vk_ID input = '''' then nextID ''vkey'' s else (vk_ID input, s));
          now = nw 0;
          input = input\<lparr>vk_ID := i,
            vk_KeyVersion := (if vk_KeyVersion input = 0 then 1 else vk_KeyVersion input),
            vk_Enabled := True, vk_CreatedAt := now, vk_UpdatedAt := now\<rparr>
      in (Inr input, putKey input s))"

definition GetVirtualKey :: "ctx \<Rightarrow> int64 \<Rightarrow> string \<Rightarrow> MemoryStore \<Rightarrow> VirtualKey result" where
  "GetVirtualKey c userID i s =
     (case c of Some e \<Rightarrow> (Inl (ErrContext e), s) | None \<Rightarrow>
      case map_of (virtualKeys s) i of
        None \<Rightarrow> (Inl ErrNotFound, s)
      | Some k \<Rightarrow> if vk_UserID k \<noteq> userID then (Inl ErrNotFound, s) else (Inr k, s))"

definition keyByHash :: "MemoryStore \<Rightarrow> string \<Rightarrow> VirtualKey option" where
  "keyByHash s tokenHash = find (\<lambda>k. vk_TokenHash k = tokenHash) (map snd (virtualKeys s))"

definition GetVirtualKeyByHash :: "ctx \<Rightarrow> string \<Rightarrow> MemoryStore \<Rightarrow> VirtualKey result" where
  "GetVirtualKeyByHash c tokenHash s =
     (case c of Some e \<Rightarrow> (Inl (ErrContext e), s) | None \<Rightarrow>
      case keyByHash s tokenHash of None \<Rightarrow> (Inl ErrNotFound, s) | Some k \<Rightarrow> (Inr k, s))"

definition ListVirtualKeys :: "ctx \<Rightarrow> int64 \<Rightarrow> MemoryStore \<Rightarrow> VirtualKey list result" where
  "ListVirtualKeys c userID s =
     (case c of Some e \<Rightarrow> (Inl (ErrContext e), s) | None \<Rightarrow>
      (Inr (go_sort (\<lambda>a b. vk_CreatedAt a < vk_CreatedAt b)
              (filter (\<lambda>k. vk_UserID k = userID) (map snd (virtualKeys s)))), s))"

definition UpdateVirtualKey :: "clock \<Rightarrow> ctx \<Rightarrow> VirtualKey \<Rightarrow> MemoryStore \<Rightarrow> VirtualKey result" where
  "UpdateVirtualKey nw c input s =
     (case c of Some e \<Rightarrow> (Inl (ErrContext e), s) | None \<Rightarrow>
      let input = input\<lparr>vk_Name := TrimSpace (vk_Name input)\<rparr> in
      if \<not> VirtualKey_Valid input then (Inl ErrInvalid, s)
      else case map_of (virtualKeys s) (vk_ID input) of
        None \<Rightarrow> (Inl ErrNotFound, s)
      | Some current \<Rightarrow>
          if vk_UserID current \<noteq> vk_UserID input then (Inl ErrNotFound, s)
          else if vk_InstanceID current \<noteq> vk_InstanceID input \<or> vk_GroupID current \<noteq> vk_GroupID input \<or>
                  vk_ResourceClass current \<noteq> vk_ResourceClass input \<or>
                  vk_TokenHash current \<noteq> vk_TokenHash input \<or> vk_SecretRef current \<noteq> vk_SecretRef input \<or>
                  vk_KeyVersion current \<noteq> vk_KeyVersion input
          then (Inl ErrConflict, s)
          else if list_ex (\<lambda>k. vk_ID k \<noteq> vk_ID input \<and> sameKeyScope k input) (map snd (virtualKeys s))
          then (Inl ErrDuplicate, s)
          else let input = input\<lparr>vk_CreatedAt := vk_CreatedAt current, vk_UpdatedAt := nw 0\<rparr>
            in (Inr input, putKey input s))"

definition DeleteVirtualKey :: "ctx \<Rightarrow> int64 \<Rightarrow> string \<Rightarrow> MemoryStore \<Rightarrow> unit result" where
  "DeleteVirtualKey c userID i s =
     (case c of Some e \<Rightarrow> (Inl (ErrContext e), s) | None \<Rightarrow>
      case map_of (virtualKeys s) i of
        None \<Rightarrow> (Inl ErrNotFound, s)
      | Some k \<Rightarrow>
          if vk_UserID k \<noteq> userID then (Inl ErrNotFound, s)
          else if list_ex (\<lambda>r. wres_VirtualKeyID r = i \<and> wres_Status r = WalletReservationActive)
                    (map snd (walletReservations s))
          then (Inl ErrConflict, s)
          else (Inr (), s\<lparr>virtualKeys := AList.delete i (virtualKeys s)\<rparr>))"

section \<open>Endpoints\<close>

text \<open>\<open>strings.TrimRight(v, "/")\<close>.\<close>

definition TrimRight_slash :: "string \<Rightarrow> string" where
  "TrimRight_slash v = rev (dropWhile (\<lambda>c. c = CHR ''/'') (rev v))"

definition UpsertSupplyChannelEndpoint ::
  "(string \<Rightarrow> url option) \<Rightarrow> clock \<Rightarrow> ctx \<Rightarrow> SupplyChannelEndpoint \<Rightarrow> MemoryStore \<Rightarrow> SupplyChannelEndpoint result" where
  "UpsertSupplyChannelEndpoint urlParse nw c input s =
     (case c of Some e \<Rightarrow> (Inl (ErrContext e), s) | None \<Rightarrow>
      let input = input\<lparr>ep_ChannelID := TrimSpace (ep_ChannelID input),
                    ep_BaseURL := TrimRight_slash (TrimSpace (ep_BaseURL input))\<rparr>
      in
      if \<not> SupplyChannelEndpoint_Valid urlParse input \<or> TrimSpace (ep_SecretRef input) = '''' then (Inl ErrInvalid, s)
      else if \<not> list_ex (\<lambda>ch. chan_ID ch = ep_ChannelID input \<and>
                   list_ex (\<lambda>p. pool_ID p = chan_PoolID ch \<and> pool_DeliveryMode p = UpstreamDeliverySupplyGateway)
                     (upstreamPools s)) (upstreamChannels s)
      then (Inl ErrInvalid, s)
      else if list_ex (\<lambda>kv. fst kv \<noteq> ep_ChannelID input \<and> ep_SecretRef (snd kv) = ep_SecretRef input)
                (supplyEndpoints s)
      then (Inl ErrDuplicate, s)
      else
      let now = nw 0;
          created = (case map_of (supplyEndpoints s) (ep_ChannelID input) of
                       Some current \<Rightarrow> ep_CreatedAt current | None \<Rightarrow> now);
          input = input\<lparr>ep_CreatedAt := created, ep_UpdatedAt := now\<rparr>
      in (Inr input, s\<lparr>supplyEndpoints := AList.update (ep_ChannelID input) input (supplyEndpoints s)\<rparr>))"

definition GetSupplyChannelEndpoint :: "ctx \<Rightarrow> string \<Rightarrow> MemoryStore \<Rightarrow> SupplyChannelEndpoint result" where
  "GetSupplyChannelEndpoint c channelID s =
     (case c of Some e \<Rightarrow> (Inl (ErrContext e), s) | None \<Rightarrow>
      case map_of (supplyEndpoints s) channelID of None \<Rightarrow> (Inl ErrNotFound, s) | Some e \<Rightarrow> (Inr e, s))"

section \<open>Candidates\<close>

definition containsModel :: "string list \<Rightarrow> string \<Rightarrow> bool" where
  "containsModel models target \<longleftrightarrow> models = [] \<or> list_ex (\<lambda>m. EqualFold m target) models"

definition activeOnChannel :: "MemoryStore \<Rightarrow> string \<Rightarrow> nat" where
  "activeOnChannel s channelID =
     length (filter (\<lambda>r. wres_ChannelID r = channelID \<and> wres_Status r = WalletReservationActive)
       (map snd (walletReservations s)))"

definition poolServes :: "ResourceClass \<Rightarrow> string \<Rightarrow> UpstreamPool \<Rightarrow> bool" where
  "poolServes cls model p \<longleftrightarrow> pool_ResourceClass p = cls \<and> pool_DeliveryMode p = UpstreamDeliverySupplyGateway \<and>
     pool_Status p = UpstreamPoolActive \<and> containsModel (pool_Models p) model"

definition channelServes :: "UpstreamPool \<Rightarrow> string \<Rightarrow> UpstreamChannel \<Rightarrow> SupplyChannelEndpoint \<Rightarrow> bool" where
  "channelServes p model ch e \<longleftrightarrow> chan_PoolID ch = pool_ID p \<and> chan_Status ch = UpstreamChannelActive \<and>
     IsInventoryReady ch \<and> ep_Enabled e \<and> ep_CapacityPercent e \<noteq> 0 \<and> containsModel (chan_Models ch) model"

definition candidatesOfPool :: "MemoryStore \<Rightarrow> string \<Rightarrow> UpstreamPool \<Rightarrow> SupplyCandidate list" where
  "candidatesOfPool s model p =
     concat (map (\<lambda>ch.
       case map_of (supplyEndpoints s) (chan_ID ch) of
         None \<Rightarrow> []
       | Some e \<Rightarrow>
           if \<not> channelServes p model ch e then []
           else let active = int (activeOnChannel s (chan_ID ch)) in
             if 0 < ep_MaxConcurrency e \<and> ep_MaxConcurrency e \<le> active then []
             else [\<lparr>cand_Pool = p, cand_Channel = ch, cand_Endpoint = e, cand_Active = active\<rparr>])
       (upstreamChannels s))"

definition candidateBefore :: "SupplyCandidate \<Rightarrow> SupplyCandidate \<Rightarrow> bool" where
  "candidateBefore a b =
     (if chan_Priority (cand_Channel a) \<noteq> chan_Priority (cand_Channel b)
      then chan_Priority (cand_Channel a) < chan_Priority (cand_Channel b)
      else if cand_Active a = cand_Active b then
        (if chan_Weight (cand_Channel a) \<noteq> chan_Weight (cand_Channel b)
         then chan_Weight (cand_Channel b) < chan_Weight (cand_Channel a)
         else chan_ID (cand_Channel a) < chan_ID (cand_Channel b))
      else cand_Active a < cand_Active b)"

definition listSupplyCandidatesLocked :: "MemoryStore \<Rightarrow> ResourceClass \<Rightarrow> string \<Rightarrow> SupplyCandidate list" where
  "listSupplyCandidatesLocked s cls model =
     go_sort candidateBefore
       (concat (map (candidatesOfPool s model) (filter (poolServes cls model) (upstreamPools s))))"

definition ListSupplyCandidates :: "ctx \<Rightarrow> ResourceClass \<Rightarrow> string \<Rightarrow> MemoryStore \<Rightarrow> SupplyCandidate list result" where
  "ListSupplyCandidates c cls model s =
     (case c of Some e \<Rightarrow> (Inl (ErrContext e), s) | None \<Rightarrow>
      let model = TrimSpace model in
      if \<not> IsPlatformSupply cls \<or> model = '''' then (Inl ErrInvalid, s)
      else (Inr (listSupplyCandidatesLocked s cls model), s))"

definition supplyCandidateByChannelLocked ::
  "MemoryStore \<Rightarrow> ResourceClass \<Rightarrow> string \<Rightarrow> string \<Rightarrow> SupplyCandidate option" where
  "supplyCandidateByChannelLocked s cls model channelID =
     find (\<lambda>x. chan_ID (cand_Channel x) = channelID) (listSupplyCandidatesLocked s cls model)"

section \<open>Reliability statistics\<close>

definition SupplyStatsBucketStart :: "time \<Rightarrow> time" where
  "SupplyStatsBucketStart t = time_Truncate t (5 * Minute)"

definition supplyStatsRetention :: duration where
  "supplyStatsRetention = 14 * 24 * Hour"

definition supplyRankingWindow :: duration where
  "supplyRankingWindow = 30 * Minute"

definition zero_bucket :: SupplyChannelStatsBucket where
  "zero_bucket = \<lparr>stat_ChannelID = '''', stat_BucketStart = 0, stat_Requests = 0, stat_Failures = 0,
     stat_TTFTSumMS = 0, stat_TTFTSamples = 0, stat_DurationSumMS = 0, stat_DurationSamples = 0\<rparr>"

text \<open>The five-minute buckets of a channel; a missing channel has none.\<close>

definition bucketsOf :: "MemoryStore \<Rightarrow> string \<Rightarrow> (time \<times> SupplyChannelStatsBucket) list" where
  "bucketsOf s channelID = (case map_of (supplyChannelStats s) channelID of None \<Rightarrow> [] | Some bs \<Rightarrow> bs)"

definition addSample :: "string \<Rightarrow> time \<Rightarrow> SupplyTelemetry \<Rightarrow> SupplyChannelStatsBucket \<Rightarrow> SupplyChannelStatsBucket" where
  "addSample channelID start tel b =
     (let b = b\<lparr>stat_ChannelID := channelID, stat_BucketStart := start,
                stat_Requests := wrap64 (stat_Requests b + 1)\<rparr>;
          b = (if tel_Outcome tel = SupplyOutcomeFailure
               then b\<lparr>stat_Failures := wrap64 (stat_Failures b + 1)\<rparr> else b);
          b = (if 0 < tel_FirstTokenMS tel
               then b\<lparr>stat_TTFTSumMS := wrap64 (stat_TTFTSumMS b + tel_FirstTokenMS tel),
                      stat_TTFTSamples := wrap64 (stat_TTFTSamples b + 1)\<rparr> else b)
      in (if 0 < tel_DurationMS tel
          then b\<lparr>stat_DurationSumMS := wrap64 (stat_DurationSumMS b + tel_DurationMS tel),
                 stat_DurationSamples := wrap64 (stat_DurationSamples b + 1)\<rparr> else b))"

definition recordSupplyChannelStatsLocked :: "string \<Rightarrow> SupplyTelemetry \<Rightarrow> time \<Rightarrow> MemoryStore \<Rightarrow> MemoryStore" where
  "recordSupplyChannelStatsLocked channelID tel now s =
     (if \<not> CountsAsSample (tel_Outcome tel) \<or> TrimSpace channelID = '''' then s
      else
      let buckets = bucketsOf s channelID;
          start = SupplyStatsBucketStart now;
          bucket = (case map_of buckets start of None \<Rightarrow> zero_bucket | Some b \<Rightarrow> b);
          buckets = AList.update start (addSample channelID start tel bucket) buckets;
          cutoff = now - supplyStatsRetention;
          buckets = filter (\<lambda>kv. \<not> fst kv < cutoff) buckets
      in s\<lparr>supplyChannelStats := AList.update channelID buckets (supplyChannelStats s)\<rparr>)"

text \<open>The sums of \<open>supplyChannelWindowLocked\<close>: requests, failures, TTFT sum and samples.\<close>

definition supplyChannelWindowLocked :: "MemoryStore \<Rightarrow> string \<Rightarrow> time \<Rightarrow> int64 \<times> int64 \<times> int64 \<times> int64" where
  "supplyChannelWindowLocked s channelID since =
     foldl (\<lambda>acc kv. case acc of (requests, failures, ttftSum, ttftSamples) \<Rightarrow>
        if fst kv < since then acc
        else (wrap64 (requests + stat_Requests (snd kv)), wrap64 (failures + stat_Failures (snd kv)),
              wrap64 (ttftSum + stat_TTFTSumMS (snd kv)), wrap64 (ttftSamples + stat_TTFTSamples (snd kv))))
       (0, 0, 0, 0) (bucketsOf s channelID)"

definition ListSupplyChannelStats :: "ctx \<Rightarrow> string \<Rightarrow> time \<Rightarrow> MemoryStore \<Rightarrow> SupplyChannelStatsBucket list result" where
  "ListSupplyChannelStats c channelID since s =
     (case c of Some e \<Rightarrow> (Inl (ErrContext e), s) | None \<Rightarrow>
      let channelID = TrimSpace channelID in
      if channelID = '''' then (Inl ErrInvalid, s)
      else (Inr (go_sort (\<lambda>a b. stat_BucketStart a < stat_BucketStart b)
                   (map snd (filter (\<lambda>kv. \<not> fst kv < since) (bucketsOf s channelID)))), s))"

section \<open>Ranking\<close>

definition priceScore :: "SupplyCandidate \<Rightarrow> rat" where
  "priceScore cand = f64 (of_int (wrap64 (wrap64 (ep_InputPriceMicrosPerMillion (cand_Endpoint cand) * 2) +
     ep_OutputPriceMicrosPerMillion (cand_Endpoint cand))))"

definition speedScore :: "MemoryStore \<Rightarrow> time \<Rightarrow> SupplyCandidate \<Rightarrow> rat" where
  "speedScore s since cand =
     (case supplyChannelWindowLocked s (chan_ID (cand_Channel cand)) since of (_, _, ttftSum, ttftSamples) \<Rightarrow>
      f64 (f64 (f64 (of_int ttftSum) + 1500 * 5) / f64 (f64 (of_int ttftSamples) + 5)))"

definition successScore :: "MemoryStore \<Rightarrow> time \<Rightarrow> SupplyCandidate \<Rightarrow> rat" where
  "successScore s since cand =
     (case supplyChannelWindowLocked s (chan_ID (cand_Channel cand)) since of (requests, failures, _, _) \<Rightarrow>
      f64 (f64 (f64 (of_int failures) + 1) / f64 (f64 (of_int requests) + 10)))"

text \<open>\<open>now\<close> is the clock reading the two windowed preferences take. The scores are stored
  per channel identifier; a channel appears in one pool only, so a candidate's score is its
  own metric.\<close>

definition supplyScore :: "MemoryStore \<Rightarrow> time \<Rightarrow> SupplyRoutingPreference \<Rightarrow> (SupplyCandidate \<Rightarrow> rat) option" where
  "supplyScore s now pref = (case pref of
      SupplyRoutingPriceFirst \<Rightarrow> Some priceScore
    | SupplyRoutingSpeedFirst \<Rightarrow> Some (speedScore s (now - supplyRankingWindow))
    | SupplyRoutingSuccessFirst \<Rightarrow> Some (successScore s (now - supplyRankingWindow))
    | _ \<Rightarrow> None)"

text \<open>\<open>scores[channel.ID]\<close>: the loop assigns the metric of every candidate in turn, so the
  last candidate of a channel decides.\<close>

definition scoreMap :: "(SupplyCandidate \<Rightarrow> rat) \<Rightarrow> SupplyCandidate list \<Rightarrow> string \<Rightarrow> rat" where
  "scoreMap metric cands i =
     (case map_of (rev (map (\<lambda>x. (chan_ID (cand_Channel x), metric x)) cands)) i of None \<Rightarrow> 0 | Some v \<Rightarrow> v)"

definition rankSupplyCandidatesLocked ::
  "MemoryStore \<Rightarrow> time \<Rightarrow> SupplyRoutingPreference \<Rightarrow> SupplyCandidate list \<Rightarrow> SupplyCandidate list" where
  "rankSupplyCandidatesLocked s now pref cands =
     (if length cands < 2 then cands
      else case supplyScore s now pref of
        None \<Rightarrow> cands
      | Some metric \<Rightarrow>
          go_sort (\<lambda>a b. scoreMap metric cands (chan_ID (cand_Channel a)) <
                         scoreMap metric cands (chan_ID (cand_Channel b))) cands)"

section \<open>Usage reads\<close>

definition ListSupplyUsage :: "ctx \<Rightarrow> SupplyUsageFilter \<Rightarrow> MemoryStore \<Rightarrow> SupplyUsageRecord list result" where
  "ListSupplyUsage c f s =
     (case c of Some e \<Rightarrow> (Inl (ErrContext e), s) | None \<Rightarrow>
      if uf_UserID f < 0 \<or> uf_Limit f < 0 \<or>
         uf_Status f \<noteq> SupplyUsageStatusOther '''' \<and> uf_Status f \<noteq> SupplyUsageReserved \<and>
         uf_Status f \<noteq> SupplyUsageSettled \<and> uf_Status f \<noteq> SupplyUsageReleased
      then (Inl ErrInvalid, s)
      else
      let limit = (if uf_Limit f = 0 \<or> 200 < uf_Limit f then 200 else uf_Limit f);
          out = filter (\<lambda>u. \<not> (0 < uf_UserID f \<and> usage_UserID u \<noteq> uf_UserID f \<or>
                   uf_GroupID f \<noteq> '''' \<and> usage_GroupID u \<noteq> uf_GroupID f \<or>
                   uf_VirtualKeyID f \<noteq> '''' \<and> usage_VirtualKeyID u \<noteq> uf_VirtualKeyID f \<or>
                   uf_Status f \<noteq> SupplyUsageStatusOther '''' \<and> usage_Status u \<noteq> uf_Status f))
                 (map snd (supplyUsage s))
      in (Inr (take (nat limit) (go_sort (\<lambda>a b. usage_CreatedAt b < usage_CreatedAt a) out)), s))"

text \<open>\<open>t.UTC().Truncate(24 * time.Hour)\<close>.\<close>

definition dayStartOf :: "time \<Rightarrow> time" where
  "dayStartOf t = time_Truncate t (24 * Hour)"

definition GetSupplyDailyUsage ::
  "clock \<Rightarrow> ctx \<Rightarrow> int64 \<Rightarrow> string \<Rightarrow> string \<Rightarrow> string \<Rightarrow> MemoryStore \<Rightarrow> SupplyDailyUsage result" where
  "GetSupplyDailyUsage nw c userID instanceID virtualKeyID currency s =
     (case c of Some e \<Rightarrow> (Inl (ErrContext e), s) | None \<Rightarrow>
      let instanceID = TrimSpace instanceID; virtualKeyID = TrimSpace virtualKeyID;
          currency = ToUpper (TrimSpace currency)
      in
      if userID \<le> 0 \<or> instanceID = '''' \<or> virtualKeyID = '''' \<or> \<not> validCurrency currency then (Inl ErrInvalid, s)
      else if (case map_of (virtualKeys s) virtualKeyID of
                 None \<Rightarrow> True | Some k \<Rightarrow> vk_UserID k \<noteq> userID \<or> vk_InstanceID k \<noteq> instanceID)
      then (Inl ErrNotFound, s)
      else
      let dayStart = dayStartOf (nw 0);
          counted = filter (\<lambda>u. \<not> (usage_UserID u \<noteq> userID \<or> usage_InstanceID u \<noteq> instanceID \<or>
                       usage_CreatedAt u < dayStart \<or> usage_Status u = SupplyUsageReleased) \<and>
                     (case map_of (walletReservations s) (usage_ReservationID u) of
                        None \<Rightarrow> False | Some r \<Rightarrow> wres_Currency r = currency)) (map snd (supplyUsage s));
          total = foldl (\<lambda>a u. wrap64 (a + usage_ReservedMicros u)) 0
      in (Inr \<lparr>daily_UserID = userID, daily_InstanceID = instanceID, daily_VirtualKeyID = virtualKeyID,
            daily_Currency = currency, daily_DayStart = dayStart,
            daily_InstanceReservedMicros = total counted,
            daily_KeyReservedMicros = total (filter (\<lambda>u. usage_VirtualKeyID u = virtualKeyID) counted)\<rparr>, s))"

section \<open>The models a key may call\<close>

record aggregate =
  agg_declared :: string
  agg_firstSeen :: time
  agg_channels :: "string list"

text \<open>The closure \<open>record\<close>; the set of channel identifiers is a list without repetition.\<close>

definition recordModel ::
  "(string \<times> aggregate) list \<Rightarrow> string \<Rightarrow> UpstreamChannel \<Rightarrow> (string \<times> aggregate) list" where
  "recordModel bucket model0 ch =
     (let model = TrimSpace model0; lowered = ToLower model in
      if lowered = '''' then bucket
      else
      let entry = (case map_of bucket lowered of
                     None \<Rightarrow> \<lparr>agg_declared = model, agg_firstSeen = chan_CreatedAt ch, agg_channels = []\<rparr>
                   | Some e \<Rightarrow> e);
          entry = (if model < agg_declared entry then entry\<lparr>agg_declared := model\<rparr> else entry);
          entry = (if chan_CreatedAt ch < agg_firstSeen entry then entry\<lparr>agg_firstSeen := chan_CreatedAt ch\<rparr> else entry);
          entry = entry\<lparr>agg_channels := List.insert (chan_ID ch) (agg_channels entry)\<rparr>
      in AList.update lowered entry bucket)"

text \<open>The state of the two nested loops: the served models, and of the wildcard upstreams
  the earliest creation time and the channel set.\<close>

type_synonym served_state = "(string \<times> aggregate) list \<times> time \<times> string list"

definition serveChannel :: "MemoryStore \<Rightarrow> string \<Rightarrow> UpstreamPool \<Rightarrow> served_state \<Rightarrow> UpstreamChannel \<Rightarrow> served_state" where
  "serveChannel s currency p st ch =
     (case st of (served, wcreated, wchannels) \<Rightarrow>
      case map_of (supplyEndpoints s) (chan_ID ch) of
        None \<Rightarrow> st
      | Some e \<Rightarrow>
          if chan_PoolID ch \<noteq> pool_ID p \<or> chan_Status ch \<noteq> UpstreamChannelActive \<or> \<not> IsInventoryReady ch \<or>
             \<not> ep_Enabled e \<or> ep_CapacityPercent e = 0 \<or> ep_Currency e \<noteq> currency then st
          else if pool_Models p = [] \<and> chan_Models ch = [] then
            (served, if IsZero wcreated \<or> chan_CreatedAt ch < wcreated then chan_CreatedAt ch else wcreated,
             List.insert (chan_ID ch) wchannels)
          else
          let declared = (if pool_Models p = [] then chan_Models ch else pool_Models p) in
          (foldl (\<lambda>b m. if containsModel (pool_Models p) m \<and> containsModel (chan_Models ch) m
                        then recordModel b m ch else b) served declared, wcreated, wchannels))"

definition poolForKey :: "VirtualKey \<Rightarrow> UpstreamPool \<Rightarrow> bool" where
  "poolForKey key p \<longleftrightarrow> \<not> (pool_ResourceClass p \<noteq> vk_ResourceClass key \<or>
     pool_DeliveryMode p \<noteq> UpstreamDeliverySupplyGateway \<or> pool_Status p \<noteq> UpstreamPoolActive \<or>
     vk_GroupID key \<noteq> '''' \<and> pool_ID p \<noteq> vk_GroupID key)"

definition buildSupplyModelCatalog ::
  "string list \<Rightarrow> SupplyModelEntry list \<Rightarrow> SupplyModelEntry \<Rightarrow> SupplyModelCatalog" where
  "buildSupplyModelCatalog keyModels served wildcard =
     (if keyModels = [] then \<lparr>smc_Models = served, smc_Unenumerable = 0 < sme_Channels wildcard\<rparr>
      else
      let index = foldl (\<lambda>m e. AList.update (ToLower (sme_Model e)) e m) [] served;
          (seen, models) = foldl (\<lambda>acc m. case acc of (seen, models) \<Rightarrow>
             let model = TrimSpace m; lowered = ToLower model in
             if model = '''' \<or> lowered \<in> set seen then (seen, models)
             else (lowered # seen,
               case map_of index lowered of
                 Some e \<Rightarrow> models @ [e]
               | None \<Rightarrow> if 0 < sme_Channels wildcard
                         then models @ [\<lparr>sme_Model = model, sme_CreatedAt = sme_CreatedAt wildcard,
                                         sme_Channels = sme_Channels wildcard\<rparr>]
                         else models)) ([], []) keyModels
      in \<lparr>smc_Models = go_sort (\<lambda>a b. ToLower (sme_Model a) < ToLower (sme_Model b)) models,
          smc_Unenumerable = False\<rparr>)"

text \<open>\<open>key.ExpiresAt != nil && !now.Before(*key.ExpiresAt)\<close>.\<close>

definition keyExpired :: "VirtualKey \<Rightarrow> time \<Rightarrow> bool" where
  "keyExpired k now = (case vk_ExpiresAt k of None \<Rightarrow> False | Some e \<Rightarrow> \<not> now < e)"

definition servedEntries :: "MemoryStore \<Rightarrow> string \<Rightarrow> VirtualKey \<Rightarrow> SupplyModelEntry list \<times> SupplyModelEntry" where
  "servedEntries s currency key =
     (let (served, wcreated, wchannels) =
            foldl (\<lambda>st p. foldl (serveChannel s currency p) st (upstreamChannels s)) ([], 0, [])
              (filter (poolForKey key) (upstreamPools s));
          entries = go_sort (\<lambda>a b. ToLower (sme_Model a) < ToLower (sme_Model b))
            (map (\<lambda>kv. \<lparr>sme_Model = agg_declared (snd kv), sme_CreatedAt = agg_firstSeen (snd kv),
                         sme_Channels = int (length (agg_channels (snd kv)))\<rparr>) served)
      in (entries, \<lparr>sme_Model = '''', sme_CreatedAt = wcreated, sme_Channels = int (length wchannels)\<rparr>))"

definition ListSupplyModels :: "clock \<Rightarrow> ctx \<Rightarrow> string \<Rightarrow> string \<Rightarrow> MemoryStore \<Rightarrow> SupplyModelCatalog result" where
  "ListSupplyModels nw c tokenHash currency s =
     (case c of Some e \<Rightarrow> (Inl (ErrContext e), s) | None \<Rightarrow>
      let tokenHash = TrimSpace tokenHash; currency = ToUpper (TrimSpace currency) in
      if tokenHash = '''' \<or> \<not> validCurrency currency then (Inl ErrInvalid, s)
      else case keyByHash s tokenHash of None \<Rightarrow> (Inl ErrNotFound, s) | Some key \<Rightarrow>
      if \<not> vk_Enabled key \<or> keyExpired key (nw 0) then (Inl ErrNotFound, s)
      else if eligibleUser s (vk_UserID key) = None then (Inl ErrNotFound, s)
      else
      let (entries, wildcard) = servedEntries s currency key
      in (Inr (buildSupplyModelCatalog (vk_Models key) entries wildcard), s))"

section \<open>The catalogue operations and the money\<close>

lemma putKey_frame [simp, store_frame]:
  "wallets (putKey k s) = wallets s" "walletJournals (putKey k s) = walletJournals s"
  "walletReservations (putKey k s) = walletReservations s" "supplyUsage (putKey k s) = supplyUsage s"
  "supplyEndpoints (putKey k s) = supplyEndpoints s" "hybridAllocations (putKey k s) = hybridAllocations s"
  "paymentOrders (putKey k s) = paymentOrders s" "redeemCodes (putKey k s) = redeemCodes s"
  "seq (putKey k s) = seq s" "users (putKey k s) = users s" "upstreamPools (putKey k s) = upstreamPools s"
  "upstreamChannels (putKey k s) = upstreamChannels s" "supplyChannelStats (putKey k s) = supplyChannelStats s"
  "instances (putKey k s) = instances s" "paymentProviders (putKey k s) = paymentProviders s"
  "virtualKeys (putKey k s) = AList.update (vk_ID k) k (virtualKeys s)"
  by (simp_all add: putKey_def)

lemma CreateVirtualKey_keeps:
  assumes "CreateVirtualKey nw c input s = (r, t)"
  shows "same_core s t" "same_codes s t" "same_orders s t" "supplyEndpoints t = supplyEndpoints s"
  using assms
  by (auto simp: CreateVirtualKey_def Let_def same_defs nextID_def split: option.splits if_splits)

lemma UpdateVirtualKey_keeps:
  assumes "UpdateVirtualKey nw c input s = (r, t)"
  shows "same_core s t" "same_codes s t" "same_orders s t" "supplyEndpoints t = supplyEndpoints s"
  using assms
  by (auto simp: UpdateVirtualKey_def Let_def same_defs split: option.splits if_splits)

lemma DeleteVirtualKey_keeps:
  assumes "DeleteVirtualKey c u i s = (r, t)"
  shows "same_core s t" "same_codes s t" "same_orders s t" "supplyEndpoints t = supplyEndpoints s"
  using assms by (auto simp: DeleteVirtualKey_def same_defs split: option.splits if_splits)

text \<open>What the stored endpoints satisfy.\<close>

definition endpoint_ok :: "SupplyChannelEndpoint \<Rightarrow> bool" where
  "endpoint_ok e \<longleftrightarrow> validCurrency (ep_Currency e) \<and> 0 < ep_MaxRequestMicros e \<and>
     0 \<le> ep_InputSupplierMicrosPerMillion e \<and> ep_InputSupplierMicrosPerMillion e \<le> ep_InputPriceMicrosPerMillion e \<and>
     0 \<le> ep_OutputSupplierMicrosPerMillion e \<and> ep_OutputSupplierMicrosPerMillion e \<le> ep_OutputPriceMicrosPerMillion e"

definition endpoints_ok :: "MemoryStore \<Rightarrow> bool" where
  "endpoints_ok s \<longleftrightarrow> (\<forall>(k, e) \<in> set (supplyEndpoints s). endpoint_ok e \<and> in64 (ep_MaxRequestMicros e))"

lemma Valid_endpoint_ok: "SupplyChannelEndpoint_Valid urlParse e \<Longrightarrow> endpoint_ok e"
  by (simp add: SupplyChannelEndpoint_Valid_def endpoint_ok_def validSupplyCurrency_def validCurrency_def)

lemma UpsertSupplyChannelEndpoint_cases:
  assumes "UpsertSupplyChannelEndpoint urlParse nw c input s = (r, t)"
  obtains (rejected) e where "r = Inl e" "t = s"
  | (stored) x where "r = Inr x" "SupplyChannelEndpoint_Valid urlParse x" "ep_MaxRequestMicros x = ep_MaxRequestMicros input"
      "t = s\<lparr>supplyEndpoints := AList.update (ep_ChannelID x) x (supplyEndpoints s)\<rparr>"
proof (cases r)
  case (Inl e)
  with assms have "t = s"
    by (auto simp: UpsertSupplyChannelEndpoint_def Let_def split: option.splits if_splits)
  with Inl show thesis by (rule rejected)
next
  case (Inr x)
  show thesis
    by (rule stored [of x]; use assms Inr in \<open>(auto simp: UpsertSupplyChannelEndpoint_def Let_def
      SupplyChannelEndpoint_Valid_def split: option.splits if_splits)[]\<close>)
qed

lemma UpsertSupplyChannelEndpoint_keeps:
  assumes "UpsertSupplyChannelEndpoint urlParse nw c input s = (r, t)" and "in64 (ep_MaxRequestMicros input)"
  shows "same_core s t" "same_codes s t" "same_orders s t" "endpoints_ok s \<Longrightarrow> endpoints_ok t"
  using assms
  by (cases rule: UpsertSupplyChannelEndpoint_cases;
      auto simp: same_defs endpoints_ok_def dest!: Valid_endpoint_ok dest: subsetD [OF set_AList_update_subset])+

end
