(* ===== verification/Supply_Settlement.thy ===== *)
theory Supply_Settlement
  imports Supply_Catalog
begin

text \<open>
  Holding and charging for a request:
  \<open>app/e2m-core/internal/store/memory_hybrid_supply.go\<close>, \<open>ReserveSupplyRequest\<close>,
  \<open>tokenCharge\<close>, \<open>SettleSupplyRequest\<close>, \<open>SettleSupplyRequestConservatively\<close>,
  \<open>ReleaseSupplyRequest\<close> and \<open>settleSupplyLocked\<close>.

  A reservation moves money from available to reserved, its settlement moves it on: what
  the request cost to the platform and the upstream, the rest back. The theorems are about
  the hold (never more than the wallet has, within the budgets and the concurrency limits)
  and about the settlement (one outcome per reservation, exact books, rounding up).
\<close>

section \<open>Reserving\<close>

definition activeForUser :: "MemoryStore \<Rightarrow> int64 \<Rightarrow> nat" where
  "activeForUser s userID =
     length (filter (\<lambda>r. wres_UserID r = userID \<and> wres_Status r = WalletReservationActive)
       (map snd (walletReservations s)))"

definition recentForUser :: "MemoryStore \<Rightarrow> int64 \<Rightarrow> time \<Rightarrow> nat" where
  "recentForUser s userID minuteAgo =
     length (filter (\<lambda>u. usage_UserID u = userID \<and> \<not> usage_CreatedAt u < minuteAgo) (map snd (supplyUsage s)))"

text \<open>The candidates that remain for a key: its group and the caller's exclusions.\<close>

definition eligibleCandidates :: "MemoryStore \<Rightarrow> VirtualKey \<Rightarrow> string \<Rightarrow> string list \<Rightarrow> SupplyCandidate list" where
  "eligibleCandidates s key model excludedChannelIDs =
     filter (\<lambda>x. \<not> (vk_GroupID key \<noteq> '''' \<and> pool_ID (cand_Pool x) \<noteq> vk_GroupID key \<or>
                    chan_ID (cand_Channel x) \<in> set (map TrimSpace excludedChannelIDs)))
       (listSupplyCandidatesLocked s (vk_ResourceClass key) model)"

text \<open>The rows that count against the day's budget, and their running sum.\<close>

definition countsToday :: "MemoryStore \<Rightarrow> VirtualKey \<Rightarrow> string \<Rightarrow> time \<Rightarrow> SupplyUsageRecord \<Rightarrow> bool" where
  "countsToday s key currency dayStart u \<longleftrightarrow>
     usage_UserID u = vk_UserID key \<and> usage_InstanceID u = vk_InstanceID key \<and>
     usage_GroupID u = vk_GroupID key \<and> \<not> usage_CreatedAt u < dayStart \<and>
     usage_Status u \<noteq> SupplyUsageReleased \<and>
     (case map_of (walletReservations s) (usage_ReservationID u) of
        None \<Rightarrow> False | Some r \<Rightarrow> wres_Currency r = currency)"

definition sumReserved :: "SupplyUsageRecord list \<Rightarrow> int64" where
  "sumReserved = foldl (\<lambda>a u. wrap64 (a + usage_ReservedMicros u)) 0"

definition spentToday :: "MemoryStore \<Rightarrow> VirtualKey \<Rightarrow> string \<Rightarrow> time \<Rightarrow> int64 \<times> int64" where
  "spentToday s key currency dayStart =
     (let rows = filter (countsToday s key currency dayStart) (map snd (supplyUsage s)) in
      (sumReserved rows, sumReserved (filter (\<lambda>u. usage_VirtualKeyID u = vk_ID key) rows)))"

definition zero_usage :: SupplyUsageRecord where
  "zero_usage = \<lparr>usage_InputPriceMicrosPerMillion = 0, usage_OutputPriceMicrosPerMillion = 0,
     usage_InputSupplierMicrosPerMillion = 0, usage_OutputSupplierMicrosPerMillion = 0,
     usage_ID = '''', usage_RequestID = '''', usage_ReservationID = '''', usage_UserID = 0,
     usage_GroupID = '''', usage_InstanceID = '''', usage_VirtualKeyID = '''',
     usage_ResourceClass = ResourceClassOther '''', usage_ChannelID = '''', usage_Model = '''',
     usage_PromptTokens = 0, usage_CompletionTokens = 0, usage_FirstTokenMS = 0, usage_DurationMS = 0,
     usage_ReservedMicros = 0, usage_SettledMicros = 0, usage_Status = SupplyUsageStatusOther '''',
     usage_SettlementReason = '''', usage_CreatedAt = 0, usage_CompletedAt = None\<rparr>"

text \<open>\<open>s.supplyUsage[id]\<close> and the budget fields of \<open>s.hybridAllocations[id]\<close>: a missing key
  reads as the zero value.\<close>

definition usageAt :: "MemoryStore \<Rightarrow> string \<Rightarrow> SupplyUsageRecord" where
  "usageAt s i = (case map_of (supplyUsage s) i of None \<Rightarrow> zero_usage | Some u \<Rightarrow> u)"

definition budgetsAt :: "MemoryStore \<Rightarrow> string \<Rightarrow> int64 \<times> int64" where
  "budgetsAt s i = (case map_of (hybridAllocations s) i of
     None \<Rightarrow> (0, 0) | Some a \<Rightarrow> (alloc_MaxUnitPriceMicros a, alloc_DailyBudgetMicros a))"

definition newReservation :: "string \<Rightarrow> VirtualKey \<Rightarrow> SupplyCandidate \<Rightarrow> string \<Rightarrow> string \<Rightarrow> int64 \<Rightarrow> time \<Rightarrow> WalletReservation" where
  "newReservation i key cand requestID currency reserve now =
     \<lparr>wres_ID = i, wres_UserID = vk_UserID key, wres_VirtualKeyID = vk_ID key,
      wres_ChannelID = chan_ID (cand_Channel cand), wres_RequestID = requestID, wres_Currency = currency,
      wres_ReservedMicros = reserve, wres_SettledMicros = 0, wres_Status = WalletReservationActive,
      wres_CreatedAt = now, wres_UpdatedAt = now\<rparr>"

definition newUsage :: "string \<Rightarrow> string \<Rightarrow> VirtualKey \<Rightarrow> SupplyCandidate \<Rightarrow> string \<Rightarrow> string \<Rightarrow> int64 \<Rightarrow> time \<Rightarrow> SupplyUsageRecord" where
  "newUsage uid i key cand requestID model reserve now =
     zero_usage\<lparr>usage_ID := uid, usage_RequestID := requestID, usage_ReservationID := i,
      usage_UserID := vk_UserID key, usage_GroupID := vk_GroupID key, usage_InstanceID := vk_InstanceID key,
      usage_VirtualKeyID := vk_ID key, usage_ResourceClass := vk_ResourceClass key,
      usage_ChannelID := chan_ID (cand_Channel cand), usage_Model := model,
      usage_InputPriceMicrosPerMillion := ep_InputPriceMicrosPerMillion (cand_Endpoint cand),
      usage_OutputPriceMicrosPerMillion := ep_OutputPriceMicrosPerMillion (cand_Endpoint cand),
      usage_InputSupplierMicrosPerMillion := ep_InputSupplierMicrosPerMillion (cand_Endpoint cand),
      usage_OutputSupplierMicrosPerMillion := ep_OutputSupplierMicrosPerMillion (cand_Endpoint cand),
      usage_ReservedMicros := reserve, usage_Status := SupplyUsageReserved, usage_CreatedAt := now\<rparr>"

text \<open>A wallet after money moved between its two balances.\<close>

definition moveWallet :: "string \<Rightarrow> int64 \<Rightarrow> string \<Rightarrow> int64 \<Rightarrow> int64 \<Rightarrow> time \<Rightarrow> MemoryStore \<Rightarrow> MemoryStore" where
  "moveWallet k userID currency da dr now s =
     (let wallet = walletAt s k in
      s\<lparr>wallets := AList.update k
          (wallet\<lparr>wal_UserID := userID, wal_Currency := currency,
             wal_AvailableMicros := wrap64 (wal_AvailableMicros wallet + da),
             wal_ReservedMicros := wrap64 (wal_ReservedMicros wallet + dr),
             wal_Version := wrap64 (wal_Version wallet + 1), wal_UpdatedAt := now\<rparr>) (wallets s)\<rparr>)"

text \<open>The writes of a reservation, in the order of the code: the key, the two identifiers,
  the wallet, the reservation, the usage row and the journal.\<close>

definition reserveCommit ::
  "VirtualKey \<Rightarrow> SupplyCandidate \<Rightarrow> string \<Rightarrow> string \<Rightarrow> string \<Rightarrow> int64 \<Rightarrow> time \<Rightarrow> MemoryStore \<Rightarrow>
   SupplyReservationResult \<times> MemoryStore" where
  "reserveCommit key0 cand requestID model currency reserve now s =
     (let key = key0\<lparr>vk_LastUsedAt := Some now, vk_UpdatedAt := now\<rparr>;
          s = putKey key s;
          (i, s) = nextID ''wres'' s;
          (uid, s) = nextID ''usage'' s;
          reservation = newReservation i key cand requestID currency reserve now;
          usage = newUsage uid i key cand requestID model reserve now;
          walletKey = walletMapKey (vk_UserID key) currency;
          s = moveWallet walletKey (vk_UserID key) currency (- reserve) reserve now s;
          s = s\<lparr>walletReservations := AList.update i reservation (walletReservations s),
                supplyUsage := AList.update i usage (supplyUsage s)\<rparr>;
          (j, s) = appendWalletJournalLocked (vk_UserID key) WalletJournalReserve currency reserve
            (''reserve:'' @ i) ''supply_reservation'' i WalletAccountUserAvailable WalletAccountUserReserved now s
      in (\<lparr>rsv_Key = key, rsv_Candidate = cand, rsv_Wallet = walletAt s walletKey,
           rsv_Reservation = reservation, rsv_Usage = usage\<rparr>, s))"

text \<open>The checks after a candidate is chosen, and the writes when they pass. \<open>nw n\<close> is the
  first of the two clock readings that remain.\<close>

definition reserveWith ::
  "clock \<Rightarrow> nat \<Rightarrow> VirtualKey \<Rightarrow> SupplyCandidate \<Rightarrow> string \<Rightarrow> string \<Rightarrow> string \<Rightarrow> MemoryStore \<Rightarrow>
   SupplyReservationResult result" where
  "reserveWith nw n key cand requestID model currency s =
     (if ep_Currency (cand_Endpoint cand) \<noteq> currency then (Inl ErrInvalid, s)
      else
      let reserve = ep_MaxRequestMicros (cand_Endpoint cand);
          (maxUnitPrice, dailyBudget) = budgetsAt s (vk_InstanceID key)
      in
      if 0 < maxUnitPrice \<and> maxUnitPrice < reserve then (Inl ErrConflict, s)
      else
      let wallet = walletAt s (walletMapKey (vk_UserID key) currency) in
      if wal_AvailableMicros wallet \<le> 0 then (Inl ErrConflict, s)
      else
      let reserve = (if wal_AvailableMicros wallet < reserve then wal_AvailableMicros wallet else reserve);
          (instanceSpentToday, keySpentToday) = spentToday s key currency (dayStartOf (nw n))
      in
      if 0 < dailyBudget \<and> dailyBudget < wrap64 (instanceSpentToday + reserve) \<or>
         0 < vk_DailyLimitMicros key \<and> vk_DailyLimitMicros key < wrap64 (keySpentToday + reserve)
      then (Inl ErrConflict, s)
      else
      let (res, s) = reserveCommit key cand requestID model currency reserve (nw (Suc n)) s
      in (Inr res, s))"

text \<open>The choice of a candidate: filter, rank, take the first. The two windowed preferences
  read the clock when there is something to rank.\<close>

definition readsClock :: "SupplyRoutingPreference \<Rightarrow> SupplyCandidate list \<Rightarrow> bool" where
  "readsClock pref cands \<longleftrightarrow> 2 \<le> length cands \<and> (pref = SupplyRoutingSpeedFirst \<or> pref = SupplyRoutingSuccessFirst)"

definition reserveNew ::
  "clock \<Rightarrow> nat \<Rightarrow> VirtualKey \<Rightarrow> string \<Rightarrow> string \<Rightarrow> string \<Rightarrow> string list \<Rightarrow> MemoryStore \<Rightarrow>
   SupplyReservationResult result" where
  "reserveNew nw n key requestID model currency excludedChannelIDs s =
     (let candidates = eligibleCandidates s key model excludedChannelIDs in
      if candidates = [] then (Inl ErrNoSupply, s)
      else
      let n' = (if readsClock (vk_RoutingPreference key) candidates then Suc n else n);
          ranked = rankSupplyCandidatesLocked s (nw n) (vk_RoutingPreference key) candidates
      in reserveWith nw n' key (hd ranked) requestID model currency s)"

definition ReserveSupplyRequest ::
  "clock \<Rightarrow> ctx \<Rightarrow> string \<Rightarrow> string \<Rightarrow> string \<Rightarrow> string \<Rightarrow> string list \<Rightarrow> MemoryStore \<Rightarrow>
   SupplyReservationResult result" where
  "ReserveSupplyRequest nw c tokenHash requestID model currency excludedChannelIDs s =
     (case c of Some e \<Rightarrow> (Inl (ErrContext e), s) | None \<Rightarrow>
      let tokenHash = TrimSpace tokenHash; requestID = TrimSpace requestID; model = TrimSpace model;
          currency = ToUpper (TrimSpace currency)
      in
      if tokenHash = '''' \<or> requestID = '''' \<or> model = '''' \<or> \<not> validCurrency currency then (Inl ErrInvalid, s)
      else case keyByHash s tokenHash of None \<Rightarrow> (Inl ErrNotFound, s) | Some key \<Rightarrow>
      if \<not> vk_Enabled key \<or> keyExpired key (nw 0) \<or> \<not> containsModel (vk_Models key) model
      then (Inl ErrNotFound, s)
      else
      let n = (if vk_ExpiresAt key = None then 0 else 1) in
      case eligibleUser s (vk_UserID key) of None \<Rightarrow> (Inl ErrNotFound, s) | Some platformUser \<Rightarrow>
      case find (\<lambda>r. wres_VirtualKeyID r = vk_ID key \<and> wres_RequestID r = requestID)
             (map snd (walletReservations s)) of
        Some reservation \<Rightarrow>
          (case supplyCandidateByChannelLocked s (vk_ResourceClass key) model (wres_ChannelID reservation) of
             None \<Rightarrow> (Inl ErrConflict, s)
           | Some cand \<Rightarrow>
               if vk_GroupID key \<noteq> '''' \<and> pool_ID (cand_Pool cand) \<noteq> vk_GroupID key then (Inl ErrConflict, s)
               else (Inr \<lparr>rsv_Key = key, rsv_Candidate = cand,
                       rsv_Wallet = walletAt s (walletMapKey (vk_UserID key) currency),
                       rsv_Reservation = reservation, rsv_Usage = usageAt s (wres_ID reservation)\<rparr>, s))
      | None \<Rightarrow>
          if 0 < user_PlatformConcurrency platformUser \<and>
             user_PlatformConcurrency platformUser \<le> int (activeForUser s (vk_UserID key))
          then (Inl ErrRateLimited, s)
          else if 0 < user_PlatformRPM platformUser \<and>
             user_PlatformRPM platformUser \<le> int (recentForUser s (vk_UserID key) (nw n - Minute))
          then (Inl ErrRateLimited, s)
          else reserveNew nw (if 0 < user_PlatformRPM platformUser then Suc n else n)
                 key requestID model currency excludedChannelIDs s)"

section \<open>Settling\<close>

text \<open>Go's \<open>/\<close> truncates toward zero: \<open>sdiv\<close>.\<close>

definition tokenCharge :: "int64 \<Rightarrow> int64 \<Rightarrow> int64" where
  "tokenCharge price tokens =
     (if price \<le> 0 \<or> tokens \<le> 0 then 0
      else wrap64 (wrap64 (price * tokens) + 999999) sdiv 1000000)"

text \<open>What a settlement charges and owes upstream; \<open>None\<close> is the conflict the code returns
  when the upstream's part exceeds the charge.\<close>

definition settleFigures ::
  "WalletReservation \<Rightarrow> SupplyUsageRecord \<Rightarrow> int64 \<Rightarrow> int64 \<Rightarrow> bool \<Rightarrow> bool \<Rightarrow> (int64 \<times> int64) option" where
  "settleFigures reservation usage promptTokens completionTokens release conservative =
     (if conservative then Some (wres_ReservedMicros reservation, wres_ReservedMicros reservation)
      else if \<not> release then
        (let charged = wrap64 (tokenCharge (usage_InputPriceMicrosPerMillion usage) promptTokens +
                         tokenCharge (usage_OutputPriceMicrosPerMillion usage) completionTokens);
             supplier = wrap64 (tokenCharge (usage_InputSupplierMicrosPerMillion usage) promptTokens +
                         tokenCharge (usage_OutputSupplierMicrosPerMillion usage) completionTokens)
         in if charged < supplier then None else Some (charged, supplier))
      else Some (0, 0))"

definition closedReservation :: "WalletReservation \<Rightarrow> int64 \<Rightarrow> bool \<Rightarrow> time \<Rightarrow> WalletReservation" where
  "closedReservation r charged release now =
     r\<lparr>wres_SettledMicros := charged, wres_UpdatedAt := now,
       wres_Status := (if release then WalletReservationReleased else WalletReservationSettled)\<rparr>"

definition closedUsage ::
  "SupplyUsageRecord \<Rightarrow> int64 \<Rightarrow> int64 \<Rightarrow> int64 \<Rightarrow> bool \<Rightarrow> string \<Rightarrow> SupplyTelemetry \<Rightarrow> time \<Rightarrow> SupplyUsageRecord" where
  "closedUsage u charged promptTokens completionTokens release reasonCode tel now =
     u\<lparr>usage_PromptTokens := promptTokens, usage_CompletionTokens := completionTokens,
       usage_SettledMicros := charged, usage_SettlementReason := reasonCode, usage_CompletedAt := Some now,
       usage_FirstTokenMS := max (tel_FirstTokenMS tel) 0, usage_DurationMS := max (tel_DurationMS tel) 0,
       usage_Status := (if release then SupplyUsageReleased else SupplyUsageSettled)\<rparr>"

text \<open>The journals of a settlement: a release posts the whole hold back; otherwise the charge
  is posted when there is one, and what is left of the hold goes back.\<close>

definition settleJournals ::
  "WalletReservation \<Rightarrow> int64 \<Rightarrow> int64 \<Rightarrow> bool \<Rightarrow> time \<Rightarrow> MemoryStore \<Rightarrow> MemoryStore" where
  "settleJournals r charged supplier release now s =
     (let released = wrap64 (wres_ReservedMicros r - charged) in
      if release then
        snd (appendWalletJournalLocked (wres_UserID r) WalletJournalRelease (wres_Currency r)
               (wres_ReservedMicros r) (''release:'' @ wres_ID r) ''supply_reservation'' (wres_ID r)
               WalletAccountUserReserved WalletAccountUserAvailable now s)
      else
      let s = (if 0 < charged then
                 snd (appendSupplySettlementJournalLocked (wres_UserID r) (wres_Currency r) charged supplier
                        (if charged < wres_ReservedMicros r then charged else wres_ReservedMicros r)
                        (''settle:'' @ wres_ID r) ''supply_reservation'' (wres_ID r) now s)
               else s)
      in if 0 < released then
           snd (appendWalletJournalLocked (wres_UserID r) WalletJournalRelease (wres_Currency r) released
                  (''settle-release:'' @ wres_ID r) ''supply_reservation'' (wres_ID r)
                  WalletAccountUserReserved WalletAccountUserAvailable now s)
         else s)"

text \<open>The wallet of a settlement: the hold leaves reserved, what is left of it comes back;
  unlike the reservation, the code does not write the owner and the currency again.\<close>

definition settleWallet :: "WalletReservation \<Rightarrow> int64 \<Rightarrow> time \<Rightarrow> Wallet \<Rightarrow> Wallet" where
  "settleWallet r charged now wallet =
     wallet\<lparr>wal_ReservedMicros := wrap64 (wal_ReservedMicros wallet - wres_ReservedMicros r),
       wal_AvailableMicros := wrap64 (wal_AvailableMicros wallet + wrap64 (wres_ReservedMicros r - charged)),
       wal_Version := wrap64 (wal_Version wallet + 1), wal_UpdatedAt := now\<rparr>"

definition settleCommit ::
  "WalletReservation \<Rightarrow> SupplyUsageRecord \<Rightarrow> int64 \<Rightarrow> int64 \<Rightarrow> int64 \<Rightarrow> int64 \<Rightarrow> bool \<Rightarrow> string \<Rightarrow>
   SupplyTelemetry \<Rightarrow> time \<Rightarrow> MemoryStore \<Rightarrow> SupplySettlementResult \<times> MemoryStore" where
  "settleCommit r u charged supplier promptTokens completionTokens release reasonCode tel now s =
     (let walletKey = walletMapKey (wres_UserID r) (wres_Currency r);
          wallet = settleWallet r charged now (walletAt s walletKey);
          r' = closedReservation r charged release now;
          u' = closedUsage u charged promptTokens completionTokens release reasonCode tel now;
          s = recordSupplyChannelStatsLocked (usage_ChannelID u) tel now s;
          s = settleJournals r charged supplier release now s;
          s = s\<lparr>wallets := AList.update walletKey wallet (wallets s),
                walletReservations := AList.update (wres_ID r) r' (walletReservations s),
                supplyUsage := AList.update (wres_ID r) u' (supplyUsage s)\<rparr>
      in (\<lparr>stl_Wallet = wallet, stl_Reservation = r', stl_Usage = u', stl_ChargedMicros = charged,
           stl_SupplierMicros = supplier, stl_ReleasedMicros = wrap64 (wres_ReservedMicros r - charged)\<rparr>, s))"

definition settleSupplyLocked ::
  "clock \<Rightarrow> string \<Rightarrow> int64 \<Rightarrow> int64 \<Rightarrow> bool \<Rightarrow> bool \<Rightarrow> string \<Rightarrow> SupplyTelemetry \<Rightarrow> MemoryStore \<Rightarrow>
   SupplySettlementResult result" where
  "settleSupplyLocked nw reservationID promptTokens completionTokens release conservative reasonCode tel s =
     (case map_of (walletReservations s) reservationID of
        None \<Rightarrow> (Inl ErrNotFound, s)
      | Some reservation \<Rightarrow>
      let usage = usageAt s reservationID in
      if wres_Status reservation \<noteq> WalletReservationActive then
        (Inr \<lparr>stl_Wallet = walletAt s (walletMapKey (wres_UserID reservation) (wres_Currency reservation)),
              stl_Reservation = reservation, stl_Usage = usage,
              stl_ChargedMicros = wres_SettledMicros reservation, stl_SupplierMicros = 0,
              stl_ReleasedMicros = wrap64 (wres_ReservedMicros reservation - wres_SettledMicros reservation)\<rparr>, s)
      else case settleFigures reservation usage promptTokens completionTokens release conservative of
        None \<Rightarrow> (Inl ErrConflict, s)
      | Some (charged, supplier) \<Rightarrow>
          let (res, s) = settleCommit reservation usage charged supplier promptTokens completionTokens
                           release reasonCode tel (nw 0) s
          in (Inr res, s))"

definition SettleSupplyRequest ::
  "clock \<Rightarrow> ctx \<Rightarrow> string \<Rightarrow> int64 \<Rightarrow> int64 \<Rightarrow> SupplyTelemetry \<Rightarrow> MemoryStore \<Rightarrow> SupplySettlementResult result" where
  "SettleSupplyRequest nw c reservationID promptTokens completionTokens tel s =
     (case c of Some e \<Rightarrow> (Inl (ErrContext e), s) | None \<Rightarrow>
      if promptTokens < 0 \<or> completionTokens < 0 then (Inl ErrInvalid, s)
      else settleSupplyLocked nw reservationID promptTokens completionTokens False False ''metered'' tel s)"

definition SettleSupplyRequestConservatively ::
  "clock \<Rightarrow> ctx \<Rightarrow> string \<Rightarrow> string \<Rightarrow> SupplyTelemetry \<Rightarrow> MemoryStore \<Rightarrow> SupplySettlementResult result" where
  "SettleSupplyRequestConservatively nw c reservationID reasonCode tel s =
     (case c of Some e \<Rightarrow> (Inl (ErrContext e), s) | None \<Rightarrow>
      let reasonCode = TrimSpace reasonCode in
      if reasonCode = '''' \<or> 64 < length reasonCode then (Inl ErrInvalid, s)
      else settleSupplyLocked nw reservationID 0 0 False True reasonCode tel s)"

definition ReleaseSupplyRequest ::
  "clock \<Rightarrow> ctx \<Rightarrow> string \<Rightarrow> string \<Rightarrow> SupplyTelemetry \<Rightarrow> MemoryStore \<Rightarrow> SupplySettlementResult result" where
  "ReleaseSupplyRequest nw c reservationID reasonCode tel s =
     (case c of Some e \<Rightarrow> (Inl (ErrContext e), s) | None \<Rightarrow>
      settleSupplyLocked nw reservationID 0 0 True False (TrimSpace reasonCode) tel s)"

section \<open>Frames\<close>

lemma moveWallet_frame [simp, store_frame]:
  "walletJournals (moveWallet k u cur da dr now s) = walletJournals s"
  "walletReservations (moveWallet k u cur da dr now s) = walletReservations s"
  "supplyUsage (moveWallet k u cur da dr now s) = supplyUsage s"
  "virtualKeys (moveWallet k u cur da dr now s) = virtualKeys s"
  "supplyEndpoints (moveWallet k u cur da dr now s) = supplyEndpoints s"
  "hybridAllocations (moveWallet k u cur da dr now s) = hybridAllocations s"
  "paymentOrders (moveWallet k u cur da dr now s) = paymentOrders s"
  "redeemCodes (moveWallet k u cur da dr now s) = redeemCodes s"
  "seq (moveWallet k u cur da dr now s) = seq s"
  by (simp_all add: moveWallet_def Let_def)

lemma record_frame [simp, store_frame]:
  "wallets (recordSupplyChannelStatsLocked ch tel now s) = wallets s"
  "walletJournals (recordSupplyChannelStatsLocked ch tel now s) = walletJournals s"
  "walletReservations (recordSupplyChannelStatsLocked ch tel now s) = walletReservations s"
  "supplyUsage (recordSupplyChannelStatsLocked ch tel now s) = supplyUsage s"
  "virtualKeys (recordSupplyChannelStatsLocked ch tel now s) = virtualKeys s"
  "supplyEndpoints (recordSupplyChannelStatsLocked ch tel now s) = supplyEndpoints s"
  "hybridAllocations (recordSupplyChannelStatsLocked ch tel now s) = hybridAllocations s"
  "paymentOrders (recordSupplyChannelStatsLocked ch tel now s) = paymentOrders s"
  "redeemCodes (recordSupplyChannelStatsLocked ch tel now s) = redeemCodes s"
  "seq (recordSupplyChannelStatsLocked ch tel now s) = seq s"
  by (simp_all add: recordSupplyChannelStatsLocked_def Let_def)

lemma settleJournals_frame [simp, store_frame]:
  "wallets (settleJournals r ch sp rel now s) = wallets s"
  "walletReservations (settleJournals r ch sp rel now s) = walletReservations s"
  "supplyUsage (settleJournals r ch sp rel now s) = supplyUsage s"
  "virtualKeys (settleJournals r ch sp rel now s) = virtualKeys s"
  "supplyEndpoints (settleJournals r ch sp rel now s) = supplyEndpoints s"
  "hybridAllocations (settleJournals r ch sp rel now s) = hybridAllocations s"
  "paymentOrders (settleJournals r ch sp rel now s) = paymentOrders s"
  "redeemCodes (settleJournals r ch sp rel now s) = redeemCodes s"
  "p \<noteq> ''wjnl'' \<Longrightarrow> p \<noteq> ''went'' \<Longrightarrow> seq (settleJournals r ch sp rel now s) p = seq s p"
  by (simp_all add: settleJournals_def Let_def)

text \<open>The store a reservation leaves.\<close>

lemma reserveCommit_store:
  fixes s :: MemoryStore
  defines "i \<equiv> mkID ''wres'' (Suc (seq s ''wres''))" and "uid \<equiv> mkID ''usage'' (Suc (seq s ''usage''))"
  assumes "reserveCommit key cand rq model cur amt now s = (res, t)"
  shows "walletReservations t = AList.update i (newReservation i key cand rq cur amt now) (walletReservations s)"
    and "supplyUsage t = AList.update i (newUsage uid i key cand rq model amt now) (supplyUsage s)"
    and "rsv_Reservation res = newReservation i key cand rq cur amt now"
    and "rsv_Usage res = newUsage uid i key cand rq model amt now"
    and "rsv_Candidate res = cand"
    and "wallets t = wallets (moveWallet (walletMapKey (vk_UserID key) cur) (vk_UserID key) cur (- amt) amt now s)"
    and "supplyEndpoints t = supplyEndpoints s" and "hybridAllocations t = hybridAllocations s"
    and "paymentOrders t = paymentOrders s" and "redeemCodes t = redeemCodes s"
    and "seq t ''wres'' = Suc (seq s ''wres'')" and "seq t ''redeem'' = seq s ''redeem''"
    and "virtualKeys t = AList.update (vk_ID key) (key\<lparr>vk_LastUsedAt := Some now, vk_UpdatedAt := now\<rparr>) (virtualKeys s)"
    and "rsv_Wallet res = walletAt t (walletMapKey (vk_UserID key) cur)"
    and "\<exists>s'. walletJournals t = walletJournals s @ [fst (appendWalletJournalLocked (vk_UserID key)
           WalletJournalReserve cur amt (''reserve:'' @ i) ''supply_reservation'' i
           WalletAccountUserAvailable WalletAccountUserReserved now s')]"
  using assms
  by (auto simp: reserveCommit_def nextID_def Let_def split_def i_def uid_def newReservation_def newUsage_def
      moveWallet_def walletAt_def)

lemma settleCommit_store:
  assumes "settleCommit r u ch sp p c rel reason tel now s = (res, t)"
  shows "walletReservations t = AList.update (wres_ID r) (closedReservation r ch rel now) (walletReservations s)"
    and "supplyUsage t = AList.update (wres_ID r) (closedUsage u ch p c rel reason tel now) (supplyUsage s)"
    and "wallets t = AList.update (walletMapKey (wres_UserID r) (wres_Currency r))
           (settleWallet r ch now (walletAt s (walletMapKey (wres_UserID r) (wres_Currency r)))) (wallets s)"
    and "supplyEndpoints t = supplyEndpoints s" and "hybridAllocations t = hybridAllocations s"
    and "paymentOrders t = paymentOrders s" and "redeemCodes t = redeemCodes s"
    and "seq t ''wres'' = seq s ''wres''" and "seq t ''redeem'' = seq s ''redeem''"
    and "virtualKeys t = virtualKeys s"
    and "walletJournals t = walletJournals (settleJournals r ch sp rel now
           (recordSupplyChannelStatsLocked (usage_ChannelID u) tel now s))"
    and "stl_Reservation res = closedReservation r ch rel now" and "stl_ChargedMicros res = ch"
    and "stl_Usage res = closedUsage u ch p c rel reason tel now"
    and "stl_SupplierMicros res = sp" and "stl_ReleasedMicros res = wrap64 (wres_ReservedMicros r - ch)"
  using assms by (auto simp: settleCommit_def Let_def)

section \<open>The books of a reservation and of a settlement\<close>

lemma books_reserve:
  assumes run: "reserveCommit key cand rq model cur amt now s = (res, t)"
    and amt: "0 < amt" "in64 amt"
    and fresh: "map_of (walletReservations s) (mkID ''wres'' (Suc (seq s ''wres''))) = None"
  shows "books s t (walletMapKey (vk_UserID key) cur) (- amt) amt"
proof -
  let ?k = "walletMapKey (vk_UserID key) cur"
  note st = reserveCommit_store [OF run]
  from st(15) obtain s' where j: "walletJournals t = walletJournals s @ [fst (appendWalletJournalLocked (vk_UserID key)
           WalletJournalReserve cur amt (''reserve:'' @ mkID ''wres'' (Suc (seq s ''wres''))) ''supply_reservation''
           (mkID ''wres'' (Suc (seq s ''wres''))) WalletAccountUserAvailable WalletAccountUserReserved now s')]" ..
  have av: "available t k' = (if k' = ?k then wrap64 (available s k' + - amt) else available s k')"
    and re: "reserved t k' = (if k' = ?k then wrap64 (reserved s k' + amt) else reserved s k')" for k'
    using views_cong [OF st(6)] by (auto simp: available_def reserved_def moveWallet_def Let_def)
  have he: "held t k' = held s k' + (if k' = ?k then amt else 0)" for k'
    using fresh by (simp add: held_def st(1) vsum_update_new hold_on_def newReservation_def)
  show ?thesis
    unfolding books_def j using amt by (auto simp: av re he)
qed

text \<open>The figures a settlement may post: nothing wraps around.\<close>

definition settle_exactly :: "WalletReservation \<Rightarrow> int64 \<Rightarrow> int64 \<Rightarrow> bool \<Rightarrow> bool" where
  "settle_exactly r ch sp rel \<longleftrightarrow> 0 < wres_ReservedMicros r \<and> in64 (wres_ReservedMicros r) \<and>
     0 \<le> sp \<and> sp \<le> ch \<and> in64 ch \<and> (rel \<longrightarrow> ch = 0)"

lemma settleJournals_exact:
  assumes "settle_exactly r ch sp rel"
  shows "\<exists>js. walletJournals (settleJournals r ch sp rel now s) = walletJournals s @ js \<and>
     list_all journal_exact js \<and>
     (\<forall>k'. sum_list (map (journal_amount k' WalletAccountUserAvailable) js) =
        (if walletMapKey (wres_UserID r) (wres_Currency r) = k' then wres_ReservedMicros r - ch else 0)) \<and>
     (\<forall>k'. sum_list (map (journal_amount k' WalletAccountUserReserved) js) =
        (if walletMapKey (wres_UserID r) (wres_Currency r) = k' then - wres_ReservedMicros r else 0))"
proof -
  let ?h = "wres_ReservedMicros r"
  have h: "0 < ?h" "in64 ?h" "0 \<le> sp" "sp \<le> ch" "in64 ch" and rel: "rel \<Longrightarrow> ch = 0"
    using assms by (auto simp: settle_exactly_def)
  have w: "wrap64 (?h - ch) = ?h - ch" and i: "in64 (?h - ch)"
    using h by (auto intro!: wrap64_id simp: in64_def)
  let ?fr = "if ch < ?h then ch else ?h"
  have fig: "settle_figures ch sp ?fr" if "0 < ch"
    using h that by (simp add: settle_figures_def)
  show ?thesis
  proof (cases "rel \<or> ch = 0")
    case True
    then have ch: "ch = 0" using rel by blast
    obtain ik where "walletJournals (settleJournals r ch sp rel now s) = walletJournals s @
        [fst (appendWalletJournalLocked (wres_UserID r) WalletJournalRelease (wres_Currency r) ?h ik
           ''supply_reservation'' (wres_ID r) WalletAccountUserReserved WalletAccountUserAvailable now s)]"
      using h ch by (cases rel) (auto simp: settleJournals_def Let_def wrap64_id)
    then show ?thesis using h ch by (intro exI conjI) auto
  next
    case False
    then have c: "0 < ch" and r: "\<not> rel" using h by auto
    let ?p = "appendSupplySettlementJournalLocked (wres_UserID r) (wres_Currency r) ch sp ?fr
                (''settle:'' @ wres_ID r) ''supply_reservation'' (wres_ID r) now s"
    let ?q = "appendWalletJournalLocked (wres_UserID r) WalletJournalRelease (wres_Currency r) (?h - ch)
                (''settle-release:'' @ wres_ID r) ''supply_reservation'' (wres_ID r)
                WalletAccountUserReserved WalletAccountUserAvailable now (snd ?p)"
    show ?thesis
    proof (cases "ch < ?h")
      case True
      have js: "walletJournals (settleJournals r ch sp rel now s) = walletJournals s @ [fst ?p, fst ?q]"
        using c r True by (simp add: settleJournals_def Let_def w)
      have f: "settle_figures ch sp ch" using fig [OF c] True by simp
      show ?thesis
        unfolding js using True i by (intro exI conjI) (auto simp: settle_amount [OF f] settle_exact [OF f])
    next
      case le: False
      have js: "walletJournals (settleJournals r ch sp rel now s) = walletJournals s @ [fst ?p]"
        using c r le by (simp add: settleJournals_def Let_def w)
      have f: "settle_figures ch sp ?h" using fig [OF c] le by simp
      show ?thesis
        unfolding js using le by (intro exI conjI) (auto simp: settle_amount [OF f] settle_exact [OF f])
    qed
  qed
qed

lemma books_settle:
  assumes run: "settleCommit r u ch sp p c rel reason tel now s = (res, t)"
    and fig: "settle_exactly r ch sp rel"
    and old: "map_of (walletReservations s) (wres_ID r) = Some r" "wres_Status r = WalletReservationActive"
  shows "books s t (walletMapKey (wres_UserID r) (wres_Currency r)) (wres_ReservedMicros r - ch) (- wres_ReservedMicros r)"
proof -
  let ?k = "walletMapKey (wres_UserID r) (wres_Currency r)" and ?h = "wres_ReservedMicros r"
  note st = settleCommit_store [OF run]
  from settleJournals_exact [OF fig, of now "recordSupplyChannelStatsLocked (usage_ChannelID u) tel now s"]
  obtain js where j: "walletJournals t = walletJournals s @ js" "list_all journal_exact js"
    and jav: "\<And>k'. sum_list (map (journal_amount k' WalletAccountUserAvailable) js) = (if ?k = k' then ?h - ch else 0)"
    and jre: "\<And>k'. sum_list (map (journal_amount k' WalletAccountUserReserved) js) = (if ?k = k' then - ?h else 0)"
    unfolding st(11) record_frame by blast
  have av: "available t k' = (if k' = ?k then wrap64 (available s k' + (?h - ch)) else available s k')"
    and re: "reserved t k' = (if k' = ?k then wrap64 (reserved s k' + - ?h) else reserved s k')" for k'
    by (simp_all add: available_def reserved_def walletAt_def st(3) update_conv settleWallet_def)
  have "hold_on k' (closedReservation r ch rel now) = 0" for k'
    by (simp add: hold_on_def closedReservation_def)
  then have he: "held t k' = held s k' - hold_on k' r" for k'
    by (simp add: held_def st(1) vsum_update_old [OF old(1)])
  have h0: "?h \<noteq> 0" using fig by (simp add: settle_exactly_def)
  show ?thesis
    unfolding books_def using j jav jre h0 old(2)
    by (auto simp: av re he hold_on_def intro!: exI [of _ js])
qed

section \<open>Charging by the token\<close>

lemma tokenCharge_exact:
  assumes "0 \<le> price" "0 \<le> tokens" "price * tokens + 999999 < 2 ^ 63"
  shows "tokenCharge price tokens = (price * tokens + 999999) div 1000000"
proof (cases "price = 0 \<or> tokens = 0")
  case True
  then show ?thesis by (auto simp: tokenCharge_def)
next
  case False
  with assms have p: "0 < price * tokens" by (simp add: zero_less_mult_iff)
  have "wrap64 (price * tokens) = price * tokens" "wrap64 (price * tokens + 999999) = price * tokens + 999999"
    using p assms(3) by (auto intro!: wrap64_id simp: in64_def)
  moreover have "(price * tokens + 999999) sdiv 1000000 = (price * tokens + 999999) div 1000000"
    using p by (simp add: signed_divide_int_def)
  moreover have "0 < price" "0 < tokens" using False assms by auto
  ultimately show ?thesis by (simp add: tokenCharge_def)
qed

text \<open>The token counts a metered settlement can charge without overflow.\<close>

definition charge_fits :: "SupplyUsageRecord \<Rightarrow> int64 \<Rightarrow> int64 \<Rightarrow> bool" where
  "charge_fits u p c \<longleftrightarrow> usage_InputPriceMicrosPerMillion u * p + 999999 < 2 ^ 63 \<and>
     usage_OutputPriceMicrosPerMillion u * c + 999999 < 2 ^ 63"

definition usage_ok :: "SupplyUsageRecord \<Rightarrow> bool" where
  "usage_ok u \<longleftrightarrow>
     0 \<le> usage_InputSupplierMicrosPerMillion u \<and>
     usage_InputSupplierMicrosPerMillion u \<le> usage_InputPriceMicrosPerMillion u \<and>
     0 \<le> usage_OutputSupplierMicrosPerMillion u \<and>
     usage_OutputSupplierMicrosPerMillion u \<le> usage_OutputPriceMicrosPerMillion u"

text \<open>The exact figures of a metered settlement.\<close>

definition metered_charge :: "int64 \<Rightarrow> int64 \<Rightarrow> int64 \<Rightarrow> int64 \<Rightarrow> int" where
  "metered_charge ip op1 p c = (ip * p + 999999) div 1000000 + (op1 * c + 999999) div 1000000"

lemma metered_sum:
  assumes "0 \<le> ip" "0 \<le> op1" "0 \<le> p" "0 \<le> c" "ip * p + 999999 < 2 ^ 63" "op1 * c + 999999 < 2 ^ 63"
  shows "wrap64 (tokenCharge ip p + tokenCharge op1 c) = metered_charge ip op1 p c"
    and "0 \<le> metered_charge ip op1 p c" and "in64 (metered_charge ip op1 p c)"
proof -
  have nn: "0 \<le> ip * p" "0 \<le> op1 * c" using assms by simp_all
  have b: "0 \<le> (ip * p + 999999) div 1000000" "(ip * p + 999999) div 1000000 < 2 ^ 62"
    "0 \<le> (op1 * c + 999999) div 1000000" "(op1 * c + 999999) div 1000000 < 2 ^ 62"
    using nn assms(5,6) by (simp_all add: div_less_iff_less_mult pos_imp_zdiv_nonneg_iff)
  then show "0 \<le> metered_charge ip op1 p c" and i: "in64 (metered_charge ip op1 p c)"
    by (simp_all add: metered_charge_def in64_def)
  show "wrap64 (tokenCharge ip p + tokenCharge op1 c) = metered_charge ip op1 p c"
    using i assms by (simp add: tokenCharge_exact metered_charge_def [symmetric] wrap64_id)
qed

lemma metered_mono:
  assumes "ip' \<le> ip" "op' \<le> op1" "0 \<le> p" "0 \<le> c"
  shows "metered_charge ip' op' p c \<le> metered_charge ip op1 p c"
  unfolding metered_charge_def
  using mult_right_mono [OF assms(1,3)] mult_right_mono [OF assms(2,4)]
  by (intro add_mono zdiv_mono1) simp_all

lemma settleFigures_metered:
  assumes u: "usage_ok u" and "0 \<le> p" "0 \<le> c" and fits: "charge_fits u p c"
  shows "settleFigures r u p c False False =
     Some (metered_charge (usage_InputPriceMicrosPerMillion u) (usage_OutputPriceMicrosPerMillion u) p c,
           metered_charge (usage_InputSupplierMicrosPerMillion u) (usage_OutputSupplierMicrosPerMillion u) p c)"
    and "0 \<le> metered_charge (usage_InputSupplierMicrosPerMillion u) (usage_OutputSupplierMicrosPerMillion u) p c"
    and "metered_charge (usage_InputSupplierMicrosPerMillion u) (usage_OutputSupplierMicrosPerMillion u) p c \<le>
         metered_charge (usage_InputPriceMicrosPerMillion u) (usage_OutputPriceMicrosPerMillion u) p c"
    and "in64 (metered_charge (usage_InputPriceMicrosPerMillion u) (usage_OutputPriceMicrosPerMillion u) p c)"
proof -
  let ?ip = "usage_InputPriceMicrosPerMillion u" and ?op = "usage_OutputPriceMicrosPerMillion u"
  let ?is = "usage_InputSupplierMicrosPerMillion u" and ?os = "usage_OutputSupplierMicrosPerMillion u"
  have s: "0 \<le> ?is" "?is \<le> ?ip" "0 \<le> ?os" "?os \<le> ?op" using u by (auto simp: usage_ok_def)
  have f: "?ip * p + 999999 < 2 ^ 63" "?op * c + 999999 < 2 ^ 63" using fits by (auto simp: charge_fits_def)
  have f': "?is * p + 999999 < 2 ^ 63" "?os * c + 999999 < 2 ^ 63"
    using f mult_right_mono [OF s(2) assms(2)] mult_right_mono [OF s(4) assms(3)] by simp_all
  note P = metered_sum [of ?ip ?op p c] and S = metered_sum [OF s(1,3) assms(2,3) f']
  have P': "wrap64 (tokenCharge ?ip p + tokenCharge ?op c) = metered_charge ?ip ?op p c"
    "in64 (metered_charge ?ip ?op p c)"
    using P s assms(2,3) f by auto
  show le: "metered_charge ?is ?os p c \<le> metered_charge ?ip ?op p c"
    using s assms(2,3) by (intro metered_mono)
  show "settleFigures r u p c False False = Some (metered_charge ?ip ?op p c, metered_charge ?is ?os p c)"
    using le by (simp add: settleFigures_def Let_def P' S(1))
  show "0 \<le> metered_charge ?is ?os p c" by (rule S(2))
  show "in64 (metered_charge ?ip ?op p c)" by (rule P'(2))
qed

section \<open>The invariant of the reservations\<close>

text \<open>Every reservation sits under its own identifier, drawn from the store's counter, holds
  a positive amount in a valid currency, and has its usage row with sane prices.\<close>

definition reservation_ok :: "MemoryStore \<Rightarrow> string \<Rightarrow> WalletReservation \<Rightarrow> bool" where
  "reservation_ok s i r \<longleftrightarrow> wres_ID r = i \<and> list_ex (\<lambda>n. i = mkID ''wres'' n) [0..<Suc (seq s ''wres'')] \<and>
     validCurrency (wres_Currency r) \<and> 0 < wres_ReservedMicros r \<and> in64 (wres_ReservedMicros r) \<and>
     (case map_of (supplyUsage s) i of None \<Rightarrow> False | Some u \<Rightarrow> usage_ok u)"

definition supply_ok :: "MemoryStore \<Rightarrow> bool" where
  "supply_ok s \<longleftrightarrow> distinct (map fst (walletReservations s)) \<and>
     (\<forall>i r. map_of (walletReservations s) i = Some r \<longrightarrow> reservation_ok s i r)"

lemma supply_ok_cong:
  assumes "same_core s t"
  shows "supply_ok t \<longleftrightarrow> supply_ok s"
  using assms by (simp add: same_core_def supply_ok_def reservation_ok_def)

lemma supply_ok_fresh:
  assumes "supply_ok s"
  shows "map_of (walletReservations s) (mkID ''wres'' (Suc (seq s ''wres''))) = None"
proof (rule ccontr)
  assume "\<not> ?thesis"
  then obtain r where "map_of (walletReservations s) (mkID ''wres'' (Suc (seq s ''wres''))) = Some r" by auto
  with assms have "reservation_ok s (mkID ''wres'' (Suc (seq s ''wres''))) r" by (simp add: supply_ok_def)
  then show False by (auto simp: reservation_ok_def list_ex_iff)
qed

text \<open>A reservation is open until it is settled or released.\<close>

definition reservation_open :: "MemoryStore \<Rightarrow> string \<Rightarrow> bool" where
  "reservation_open s i = (case map_of (walletReservations s) i of
     None \<Rightarrow> True | Some r \<Rightarrow> wres_Status r = WalletReservationActive)"

section \<open>Every outcome of a reservation\<close>

lemma candidate_in:
  assumes "x \<in> set (listSupplyCandidatesLocked s cls model)"
  shows "cand_Pool x \<in> set (upstreamPools s)" "poolServes cls model (cand_Pool x)"
    "cand_Channel x \<in> set (upstreamChannels s)"
    "map_of (supplyEndpoints s) (chan_ID (cand_Channel x)) = Some (cand_Endpoint x)"
    "channelServes (cand_Pool x) model (cand_Channel x) (cand_Endpoint x)"
    "cand_Active x = int (activeOnChannel s (chan_ID (cand_Channel x)))"
    "0 < ep_MaxConcurrency (cand_Endpoint x) \<longrightarrow> cand_Active x < ep_MaxConcurrency (cand_Endpoint x)"
  using assms
  by (auto simp: listSupplyCandidatesLocked_def candidatesOfPool_def Let_def split: option.splits if_splits)

lemma mset_rank [simp]: "mset (rankSupplyCandidatesLocked s now pref cands) = mset cands"
  by (simp add: rankSupplyCandidatesLocked_def split: option.splits)

lemma set_rank [simp]: "set (rankSupplyCandidatesLocked s now pref cands) = set cands"
  by (metis mset_rank set_mset_mset)

lemma rank_Nil_iff [simp]: "rankSupplyCandidatesLocked s now pref cands = [] \<longleftrightarrow> cands = []"
  by (metis mset_rank mset_zero_iff)

definition reserve_amount :: "MemoryStore \<Rightarrow> VirtualKey \<Rightarrow> SupplyCandidate \<Rightarrow> string \<Rightarrow> int64" where
  "reserve_amount s key cand cur =
     min (ep_MaxRequestMicros (cand_Endpoint cand)) (available s (walletMapKey (vk_UserID key) cur))"

text \<open>What holds when a reservation is made: who, on which candidate, and within which limits.\<close>

definition reserve_admitted ::
  "MemoryStore \<Rightarrow> VirtualKey \<Rightarrow> SupplyCandidate \<Rightarrow> string \<Rightarrow> string \<Rightarrow> string list \<Rightarrow> time \<Rightarrow> bool" where
  "reserve_admitted s key cand model cur excluded dayNow \<longleftrightarrow>
     cand \<in> set (eligibleCandidates s key model excluded) \<and> ep_Currency (cand_Endpoint cand) = cur \<and>
     0 < available s (walletMapKey (vk_UserID key) cur) \<and>
     (0 < fst (budgetsAt s (vk_InstanceID key)) \<longrightarrow>
        ep_MaxRequestMicros (cand_Endpoint cand) \<le> fst (budgetsAt s (vk_InstanceID key))) \<and>
     (0 < snd (budgetsAt s (vk_InstanceID key)) \<longrightarrow>
        wrap64 (fst (spentToday s key cur (dayStartOf dayNow)) + reserve_amount s key cand cur) \<le>
          snd (budgetsAt s (vk_InstanceID key))) \<and>
     (0 < vk_DailyLimitMicros key \<longrightarrow>
        wrap64 (snd (spentToday s key cur (dayStartOf dayNow)) + reserve_amount s key cand cur) \<le> vk_DailyLimitMicros key)"

lemma reserveWith_cases:
  assumes "reserveWith nw n key cand rq model cur s = (r, t)"
    and "cand \<in> set (eligibleCandidates s key model excluded)"
  obtains (rejected) e where "r = Inl e" "t = s"
  | (made) res where "r = Inr res" "reserve_admitted s key cand model cur excluded (nw n)"
      "reserveCommit key cand rq model cur (reserve_amount s key cand cur) (nw (Suc n)) s = (res, t)"
proof (cases r)
  case (Inl e)
  with assms(1) have "t = s" by (auto simp: reserveWith_def Let_def split: if_splits prod.splits)
  with Inl show thesis by (rule rejected)
next
  case (Inr res)
  have amt: "(if wal_AvailableMicros (walletAt s (walletMapKey (vk_UserID key) cur)) < ep_MaxRequestMicros (cand_Endpoint cand)
      then wal_AvailableMicros (walletAt s (walletMapKey (vk_UserID key) cur)) else ep_MaxRequestMicros (cand_Endpoint cand)) =
      reserve_amount s key cand cur"
    by (simp add: reserve_amount_def available_def min_def)
  show thesis
  proof (rule made [of res])
    show "reserve_admitted s key cand model cur excluded (nw n)"
      using assms Inr
      by (auto simp: reserveWith_def Let_def amt reserve_admitted_def available_def split_def not_less not_le split: if_splits)
    show "reserveCommit key cand rq model cur (reserve_amount s key cand cur) (nw (Suc n)) s = (res, t)"
      using assms Inr by (auto simp: reserveWith_def Let_def amt split: if_splits prod.splits)
  qed (rule Inr)
qed

lemma reserveNew_cases:
  assumes "reserveNew nw n key rq model cur excluded s = (r, t)"
  obtains (rejected) e where "r = Inl e" "t = s"
  | (made) cand m res where "r = Inr res" "reserve_admitted s key cand model cur excluded (nw m)"
      "reserveCommit key cand rq model cur (reserve_amount s key cand cur) (nw (Suc m)) s = (res, t)"
      "cand = hd (rankSupplyCandidatesLocked s (nw n) (vk_RoutingPreference key) (eligibleCandidates s key model excluded))"
proof (cases "eligibleCandidates s key model excluded = []")
  case True
  with assms show thesis by (intro rejected) (auto simp: reserveNew_def)
next
  case False
  let ?c = "hd (rankSupplyCandidatesLocked s (nw n) (vk_RoutingPreference key) (eligibleCandidates s key model excluded))"
  have "?c \<in> set (rankSupplyCandidatesLocked s (nw n) (vk_RoutingPreference key) (eligibleCandidates s key model excluded))"
    using False by (intro hd_in_set) simp
  then have c: "?c \<in> set (eligibleCandidates s key model excluded)" by simp
  obtain m where run: "reserveWith nw m key ?c rq model cur s = (r, t)"
    using assms False by (simp add: reserveNew_def Let_def)
  from run c show thesis
    by (cases rule: reserveWith_cases) (auto intro: rejected made)
qed

text \<open>The reservation a key already holds for a request.\<close>

definition reservationFor :: "MemoryStore \<Rightarrow> VirtualKey \<Rightarrow> string \<Rightarrow> WalletReservation option" where
  "reservationFor s key requestID =
     find (\<lambda>r. wres_VirtualKeyID r = vk_ID key \<and> wres_RequestID r = requestID) (map snd (walletReservations s))"

lemma ReserveSupplyRequest_cases:
  assumes "ReserveSupplyRequest nw c h rq0 model0 cur0 excluded s = (r, t)"
  obtains (rejected) e where "r = Inl e" "t = s"
  | (replayed) key res where "r = Inr res" "t = s"
      "reservationFor s key (TrimSpace rq0) = Some (rsv_Reservation res)"
  | (made) key u cand rq model cur m n res where
      "rq = TrimSpace rq0" "model = TrimSpace model0" "cur = ToUpper (TrimSpace cur0)" "validCurrency cur"
      "keyByHash s (TrimSpace h) = Some key" "vk_Enabled key" "\<not> keyExpired key (nw 0)"
      "containsModel (vk_Models key) model" "eligibleUser s (vk_UserID key) = Some u"
      "reservationFor s key rq = None"
      "0 < user_PlatformConcurrency u \<longrightarrow> int (activeForUser s (vk_UserID key)) < user_PlatformConcurrency u"
      "r = Inr res" "reserve_admitted s key cand model cur excluded (nw m)"
      "reserveCommit key cand rq model cur (reserve_amount s key cand cur) (nw (Suc m)) s = (res, t)"
      "cand = hd (rankSupplyCandidatesLocked s (nw n) (vk_RoutingPreference key) (eligibleCandidates s key model excluded))"
proof (cases r)
  case (Inl e)
  have "t = s"
  proof (rule ccontr)
    assume ne: "t \<noteq> s"
    then obtain key n where "reserveNew nw n key (TrimSpace rq0) (TrimSpace model0) (ToUpper (TrimSpace cur0)) excluded s = (r, t)"
      using assms Inl by (auto simp: ReserveSupplyRequest_def Let_def split: option.splits if_splits)
    then show False using ne Inl by (cases rule: reserveNew_cases) auto
  qed
  with Inl show thesis by (rule rejected)
next
  case (Inr res)
  let ?rq = "TrimSpace rq0" and ?m = "TrimSpace model0" and ?cur = "ToUpper (TrimSpace cur0)"
  obtain key where key: "keyByHash s (TrimSpace h) = Some key" "vk_Enabled key" "\<not> keyExpired key (nw 0)"
    "containsModel (vk_Models key) ?m" and c: "c = None" "validCurrency ?cur"
    and ne: "TrimSpace h \<noteq> ''''" "?rq \<noteq> ''''" "?m \<noteq> ''''"
    using assms Inr by (auto simp: ReserveSupplyRequest_def Let_def split: option.splits if_splits)
  obtain u where u: "eligibleUser s (vk_UserID key) = Some u"
    using assms Inr key c ne
    by (cases "eligibleUser s (vk_UserID key)") (simp_all add: ReserveSupplyRequest_def Let_def)
  show thesis
  proof (cases "reservationFor s key ?rq")
    case (Some rv)
    then have f: "find (\<lambda>r. wres_VirtualKeyID r = vk_ID key \<and> wres_RequestID r = ?rq) (map snd (walletReservations s)) = Some rv"
      by (simp add: reservationFor_def)
    have "t = s \<and> rsv_Reservation res = rv"
      using assms Inr key c ne u f
      by (auto simp: ReserveSupplyRequest_def Let_def split: option.splits if_splits)
    then show thesis using Inr Some by (intro replayed) auto
  next
    case None
    then have f: "find (\<lambda>r. wres_VirtualKeyID r = vk_ID key \<and> wres_RequestID r = ?rq) (map snd (walletReservations s)) = None"
      by (simp add: reservationFor_def)
    obtain n where run: "reserveNew nw n key ?rq ?m ?cur excluded s = (r, t)"
      and conc: "0 < user_PlatformConcurrency u \<longrightarrow> int (activeForUser s (vk_UserID key)) < user_PlatformConcurrency u"
      using assms Inr key c ne u f
      by (auto simp: ReserveSupplyRequest_def Let_def not_le split: if_splits)
    from run show thesis
    proof (cases rule: reserveNew_cases)
      case (made cand m res')
      show thesis
        by (rule made(1) [THEN that(3) [OF refl refl refl c(2) key u None conc _ made(2,3,4)]])
    qed (use Inr in simp)
  qed
qed

section \<open>Every outcome of a settlement\<close>

lemma settleSupplyLocked_cases:
  assumes "settleSupplyLocked nw i p c rel cons reason tel s = (r, t)"
  obtains (refused) e where "r = Inl e" "t = s"
  | (replayed) rv res where "r = Inr res" "t = s" "map_of (walletReservations s) i = Some rv"
      "wres_Status rv \<noteq> WalletReservationActive" "stl_Reservation res = rv"
      "stl_ChargedMicros res = wres_SettledMicros rv"
  | (closed) rv ch sp res where "r = Inr res" "map_of (walletReservations s) i = Some rv"
      "wres_Status rv = WalletReservationActive"
      "settleFigures rv (usageAt s i) p c rel cons = Some (ch, sp)"
      "settleCommit rv (usageAt s i) ch sp p c rel reason tel (nw 0) s = (res, t)"
proof (cases "map_of (walletReservations s) i")
  case None
  with assms show thesis by (intro refused) (auto simp: settleSupplyLocked_def)
next
  case (Some rv)
  show thesis
  proof (cases "wres_Status rv = WalletReservationActive")
    case False
    with assms Some show thesis by (auto simp: settleSupplyLocked_def Let_def intro!: replayed)
  next
    case active: True
    show thesis
    proof (cases "settleFigures rv (usageAt s i) p c rel cons")
      case None
      with assms Some active show thesis by (intro refused) (auto simp: settleSupplyLocked_def Let_def)
    next
      case (Some f)
      obtain ch sp where f: "f = (ch, sp)" by (cases f)
      obtain res u where run: "settleCommit rv (usageAt s i) ch sp p c rel reason tel (nw 0) s = (res, u)"
        by fastforce
      have "r = Inr res" "t = u"
        using assms Some f run active \<open>map_of (walletReservations s) i = Some rv\<close>
        by (simp_all add: settleSupplyLocked_def Let_def)
      then show thesis using Some f run active \<open>map_of (walletReservations s) i = Some rv\<close>
        by (intro closed) simp_all
    qed
  qed
qed

text \<open>The exact figures of a closing settlement, for every entry point.\<close>

lemma settleFigures_exact:
  assumes ok: "supply_ok s" and rv: "map_of (walletReservations s) i = Some rv"
    and fig: "settleFigures rv (usageAt s i) p c rel cons = Some (ch, sp)"
    and args: "0 \<le> p" "0 \<le> c" "\<not> rel \<Longrightarrow> \<not> cons \<Longrightarrow> charge_fits (usageAt s i) p c" "rel \<Longrightarrow> \<not> cons"
  shows "settle_exactly rv ch sp rel"
proof -
  from ok rv have r: "reservation_ok s i rv" by (simp add: supply_ok_def)
  then have u: "usage_ok (usageAt s i)" by (auto simp: reservation_ok_def usageAt_def split: option.splits)
  have h: "0 < wres_ReservedMicros rv" "in64 (wres_ReservedMicros rv)"
    using r by (auto simp: reservation_ok_def)
  consider "cons" | "rel" "\<not> cons" | "\<not> rel" "\<not> cons" by blast
  then show ?thesis
  proof cases
    case 3
    note M = settleFigures_metered [OF u args(1,2) args(3) [OF 3]]
    then show ?thesis using fig h 3 by (auto simp: settle_exactly_def)
  qed (use fig h args(4) in \<open>auto simp: settleFigures_def settle_exactly_def in64_def\<close>)
qed

lemma reserveCommit_ok:
  assumes ok: "supply_ok s" and e: "endpoint_ok (cand_Endpoint cand)" "in64 (ep_MaxRequestMicros (cand_Endpoint cand))"
    and cur: "validCurrency cur" and av: "0 < available s (walletMapKey (vk_UserID key) cur)"
    and run: "reserveCommit key cand rq model cur (reserve_amount s key cand cur) now s = (res, t)"
  shows "supply_ok t" and "0 < reserve_amount s key cand cur" and "in64 (reserve_amount s key cand cur)"
proof -
  show pos: "0 < reserve_amount s key cand cur" using e av by (simp add: reserve_amount_def endpoint_ok_def)
  moreover have "reserve_amount s key cand cur \<le> ep_MaxRequestMicros (cand_Endpoint cand)"
    by (simp add: reserve_amount_def)
  ultimately show i64: "in64 (reserve_amount s key cand cur)" using e(2) by (simp add: in64_def)
  let ?i = "mkID ''wres'' (Suc (seq s ''wres''))"
  note st = reserveCommit_store [OF run]
  have u: "usage_ok (newUsage uid i key cand rq model a now)" for uid i a
    using e(1) by (simp add: usage_ok_def newUsage_def endpoint_ok_def)
  show "supply_ok t"
    unfolding supply_ok_def
  proof (intro conjI allI impI)
    show "distinct (map fst (walletReservations t))"
      using ok by (simp add: st(1) supply_ok_def distinct_update)
  next
    fix i r assume m: "map_of (walletReservations t) i = Some r"
    show "reservation_ok t i r"
    proof (cases "i = ?i")
      case True
      then have "r = newReservation ?i key cand rq cur (reserve_amount s key cand cur) now"
        using m by (simp add: st(1) update_conv)
      then show ?thesis
        using True pos i64 cur u by (simp add: reservation_ok_def st(2,11) newReservation_def update_conv)
    next
      case False
      then have "map_of (walletReservations s) i = Some r" using m by (simp add: st(1) update_conv)
      with ok have "reservation_ok s i r" by (simp add: supply_ok_def)
      with False show ?thesis by (auto simp: reservation_ok_def st(2,11) update_conv list_ex_iff)
    qed
  qed
qed

lemma settleCommit_ok:
  assumes ok: "supply_ok s" and rv: "map_of (walletReservations s) i = Some rv"
    and run: "settleCommit rv (usageAt s i) ch sp p c rel reason tel now s = (res, t)"
  shows "supply_ok t"
  unfolding supply_ok_def
proof (intro conjI allI impI)
  show "distinct (map fst (walletReservations t))"
    using ok by (simp add: settleCommit_store(1) [OF run] supply_ok_def distinct_update)
next
  fix k r assume m: "map_of (walletReservations t) k = Some r"
  note st = settleCommit_store [OF run]
  from ok rv have o: "reservation_ok s i rv" by (simp add: supply_ok_def)
  then have id: "wres_ID rv = i" by (simp add: reservation_ok_def)
  show "reservation_ok t k r"
  proof (cases "k = i")
    case True
    then have "r = closedReservation rv ch rel now" using m id by (simp add: st(1) update_conv)
    then show ?thesis
      using o id True
      by (auto simp: reservation_ok_def st(2,8) update_conv closedReservation_def closedUsage_def usage_ok_def
          usageAt_def split: option.splits)
  next
    case False
    then have "map_of (walletReservations s) k = Some r" using m id by (simp add: st(1) update_conv)
    with ok have "reservation_ok s k r" by (simp add: supply_ok_def)
    with False id show ?thesis by (simp add: reservation_ok_def st(2,8) update_conv)
  qed
qed

text \<open>Which journals a settlement posts under which kind.\<close>

lemma settleJournals_posts:
  "posts_for kind (settleJournals r ch sp rel now s) i =
     posts_for kind s i +
     (if wres_ID r = i \<and> kind = WalletJournalSettle \<and> \<not> rel \<and> 0 < ch then 1 else 0) +
     (if wres_ID r = i \<and> kind = WalletJournalRelease \<and> (rel \<or> 0 < wrap64 (wres_ReservedMicros r - ch)) then 1 else 0)"
  by (auto simp: posts_for_def settleJournals_def Let_def)

text \<open>A settlement closes exactly the reservation it posts for.\<close>

lemma settleCommit_open:
  assumes rv: "map_of (walletReservations s) i = Some rv" "wres_ID rv = i" "wres_Status rv = WalletReservationActive"
    and run: "settleCommit rv u ch sp p c rel reason tel now s = (res, t)"
  shows "reservation_open s i" "\<not> reservation_open t i" "k \<noteq> i \<Longrightarrow> reservation_open t k = reservation_open s k"
  using rv settleCommit_store(1) [OF run]
  by (auto simp: reservation_open_def update_conv closedReservation_def)

section \<open>Properties\<close>

text \<open>C30. Charging rounds up and never by a whole micro: for prices and token counts whose product
  fits 64 bits, the charge times a million is at least price times tokens and less than a
  million above it.\<close>

theorem tokenCharge_rounds_up:
  assumes "0 \<le> price" "0 \<le> tokens" "price * tokens + 999999 < 2 ^ 63"
  shows "price * tokens \<le> tokenCharge price tokens * 1000000 \<and>
    tokenCharge price tokens * 1000000 < price * tokens + 1000000 \<and> 0 \<le> tokenCharge price tokens"
proof -
  have "a \<le> (a + 999999) div 1000000 * 1000000 \<and> (a + 999999) div 1000000 * 1000000 < a + 1000000 \<and>
      0 \<le> (a + 999999) div 1000000" if "0 \<le> a" for a :: int
    using that pos_mod_bound [of 1000000 "a + 999999"] pos_mod_sign [of 1000000 "a + 999999"]
      div_mult_mod_eq [of "a + 999999" 1000000]
    by (intro conjI) (linarith, linarith, simp add: pos_imp_zdiv_nonneg_iff)
  moreover have "0 \<le> price * tokens" using assms by simp
  ultimately show ?thesis using assms by (simp only: tokenCharge_exact)
qed

theorem tokenCharge_rounds_up_witness:
  "(3::int) * 5 \<le> tokenCharge 3 5 * 1000000 \<and> tokenCharge 3 5 = 1"
  using tokenCharge_rounds_up [of 3 5] by (simp add: tokenCharge_def wrap64_def signed_divide_int_def)

text \<open>Outside of that range the product wraps around and the charge is negative.\<close>

lemma tokenCharge_overflows: "tokenCharge 1000000 9223372036855 < 0"
  by (simp add: tokenCharge_def wrap64_def signed_divide_int_def)

abbreviation channelOf :: "SupplyCandidate \<Rightarrow> string" where
  "channelOf x \<equiv> chan_ID (cand_Channel x)"

lemma scoreMap_own:
  assumes "distinct (map channelOf cands)" "x \<in> set cands"
  shows "scoreMap metric cands (channelOf x) = metric x"
proof -
  let ?kv = "map (\<lambda>x. (channelOf x, metric x)) cands"
  have "distinct (map fst (rev ?kv))" using assms(1) by (simp add: rev_map [symmetric] o_def)
  moreover have "(channelOf x, metric x) \<in> set (rev ?kv)" using assms(2) by auto
  ultimately have "map_of (rev ?kv) (channelOf x) = Some (metric x)" by (rule map_of_is_SomeI)
  then show ?thesis by (simp add: scoreMap_def)
qed

text \<open>The routing preference only reorders: the ranking is a permutation of the candidates, its
  first candidate has the least score, and candidates of equal score keep their scheduled
  order. (The scores are the preference's metric, rounded as \<open>float64\<close>.)\<close>

theorem ranking_prefers_and_is_stable:
  assumes "distinct (map channelOf cands)" and "supplyScore s now pref = Some metric" and "x \<in> set cands"
  shows "mset (rankSupplyCandidatesLocked s now pref cands) = mset cands \<and>
    metric (hd (rankSupplyCandidatesLocked s now pref cands)) \<le> metric x \<and>
    filter (\<lambda>y. metric y = metric x) (rankSupplyCandidatesLocked s now pref cands) = filter (\<lambda>y. metric y = metric x) cands"
proof -
  let ?r = "rankSupplyCandidatesLocked s now pref cands"
  let ?m = "\<lambda>y. scoreMap metric cands (channelOf y)"
  have own: "?m y = metric y" if "y \<in> set cands" for y using scoreMap_own [OF assms(1) that] .
  show ?thesis
  proof (cases "length cands < 2")
    case True
    then have "cands = [x]" using assms(3) by (cases cands) auto
    then show ?thesis by (simp add: rankSupplyCandidatesLocked_def)
  next
    case False
    have r: "?r = go_sort (\<lambda>a b. ?m a < ?m b) cands" using False assms(2) by (simp add: rankSupplyCandidatesLocked_def)
    have "hd ?r \<in> set cands" using assms(3) by (metis hd_in_set list.set_cases list.distinct(1) rank_Nil_iff set_rank)
    moreover have "\<not> ?m x < ?m (hd ?r)"
      unfolding r by (rule strict_weak_order.hd_go_sort_minimal [OF strict_weak_order_key assms(3)])
    ultimately have le: "metric (hd ?r) \<le> metric x" using own assms(3) by (simp add: not_less)
    have same: "(\<not> ?m z < ?m x \<and> \<not> ?m x < ?m z) \<longleftrightarrow> metric z = metric x" if "z \<in> set cands" for z
      unfolding own [OF that] own [OF assms(3)] by (simp add: not_less order_eq_iff conj_commute)
    have "filter (\<lambda>z. metric z = metric x) ?r = filter (\<lambda>z. \<not> ?m z < ?m x \<and> \<not> ?m x < ?m z) ?r"
      by (intro filter_cong refl) (simp only: set_rank same)
    also have "\<dots> = filter (\<lambda>z. \<not> ?m z < ?m x \<and> \<not> ?m x < ?m z) cands"
      unfolding r by (rule strict_weak_order.stable_go_sort [OF strict_weak_order_key])
    also have "\<dots> = filter (\<lambda>z. metric z = metric x) cands"
      by (intro filter_cong refl) (simp only: same)
    finally have "filter (\<lambda>z. metric z = metric x) ?r = filter (\<lambda>z. metric z = metric x) cands" .
    then show ?thesis using le by simp
  qed
qed

end
