(* ===== verification/Store_System.thy ===== *)
theory Store_System
  imports Redeem_Codes Supply_Settlement
begin

text \<open>
  The store as a whole: any sequence of operations from the empty store. One rule of
  \<open>store_step\<close> is one call of a store operation, which runs under the store's mutex, so an
  interleaving of concurrent calls is a sequence of such steps; \<open>env\<close> is any other writer
  of the tables the modelled operations only read.

  The premises of a rule of \<open>store_step\<close> beyond the call itself say that an argument of type
  \<open>int64\<close> is one, so its runs are all the runs of the code. Two operations compute with amounts
  that may leave 64 bits: the adjustment by \<open>math.MinInt64\<close>, which has no absolute value, and
  the metered settlement, whose charge may wrap around. What the journal says of the balances is
  true as long as neither happens; \<open>exact_step\<close> is the same relation with these two exclusions
  as premises, and \<open>Sample_Runs\<close> has a run of \<open>store_step\<close> outside of it whose books are wrong.

  The locales of the prelude and of \<open>Wallet_Ledger\<close> are interpreted here on the store.
\<close>

section \<open>The steps\<close>

inductive other_step :: "MemoryStore \<Rightarrow> MemoryStore \<Rightarrow> bool" where
  create_order: "CreatePaymentOrder nw c input s = (r2, t) \<Longrightarrow> other_step s t"
| bind_order: "BindPaymentOrderCheckout nw c i p s = (r3, t) \<Longrightarrow> other_step s t"
| confirm: "ConfirmRechargePayment nw c notification b s = (r4, t) \<Longrightarrow> other_step s t"
| reject: "RecordRejectedPaymentCallback nw c ev s = (r5, t) \<Longrightarrow> other_step s t"
| cancel: "CancelPendingPaymentOrder nw c i a s = (r6, t) \<Longrightarrow> other_step s t"
| expire: "ExpirePaymentOrder nw c i a s = (r7, t) \<Longrightarrow> other_step s t"
| create_codes: "CreateRedeemCodes nw c codes s = (r8, t) \<Longrightarrow>
    list_all (\<lambda>x. in64 (rc_AmountMicros x)) codes \<Longrightarrow> other_step s t"
| disable_code: "DisableRedeemCode nw c i s = (r9, t) \<Longrightarrow> other_step s t"
| delete_code: "DeleteUnusedRedeemCode c i s = (r10, t) \<Longrightarrow> other_step s t"
| consume_code: "ConsumeInvitationCode nw c h u s = (r11, t) \<Longrightarrow> other_step s t"
| redeem: "RedeemBalanceCode nw c h u now s = (r12, t) \<Longrightarrow> other_step s t"
| upsert_allocation: "UpsertHybridAllocation nw c al v s = (r13, t) \<Longrightarrow> other_step s t"
| create_key: "CreateVirtualKey nw c k s = (r14, t) \<Longrightarrow> other_step s t"
| update_key: "UpdateVirtualKey nw c k s = (r15, t) \<Longrightarrow> other_step s t"
| delete_key: "DeleteVirtualKey c u i s = (r16, t) \<Longrightarrow> other_step s t"
| upsert_endpoint: "UpsertSupplyChannelEndpoint urlParse nw c e s = (r17, t) \<Longrightarrow>
    in64 (ep_MaxRequestMicros e) \<Longrightarrow> other_step s t"
| reserve: "ReserveSupplyRequest nw c h rq model cur ex s = (r18, t) \<Longrightarrow> other_step s t"
| settle_conservatively: "SettleSupplyRequestConservatively nw c i reason tel s = (r20, t) \<Longrightarrow> other_step s t"
| release: "ReleaseSupplyRequest nw c i reason tel s = (r21, t) \<Longrightarrow> other_step s t"
| env: "t = s\<lparr>users := us, instances := ins, upstreamPools := ps, upstreamChannels := cs, paymentProviders := pp\<rparr> \<Longrightarrow>
    other_step s t"

inductive store_step :: "MemoryStore \<Rightarrow> MemoryStore \<Rightarrow> bool" where
  adjust: "AdjustWalletBalance nw c u cur d ik n s = (r, t) \<Longrightarrow> in64 d \<Longrightarrow> store_step s t"
| settle: "SettleSupplyRequest nw c i p q tel s = (r', t) \<Longrightarrow> store_step s t"
| other: "other_step s t \<Longrightarrow> store_step s t"

text \<open>The steps whose amounts stay within 64 bits.\<close>

inductive exact_step :: "MemoryStore \<Rightarrow> MemoryStore \<Rightarrow> bool" where
  exact_adjust: "AdjustWalletBalance nw c u cur d ik n s = (r, t) \<Longrightarrow> in64 d \<Longrightarrow> - (2 ^ 63) < d \<Longrightarrow> exact_step s t"
| exact_settle: "SettleSupplyRequest nw c i p q tel s = (r', t) \<Longrightarrow> charge_fits (usageAt s i) p q \<Longrightarrow> exact_step s t"
| exact_other: "other_step s t \<Longrightarrow> exact_step s t"

lemma exact_is_step: "exact_step s t \<Longrightarrow> store_step s t"
  by (induction rule: exact_step.induct) (auto intro: store_step.intros)

lemma reach_exact: "reach init exact_step s \<Longrightarrow> reach init store_step s"
  by (induction rule: reach.induct) (auto intro: reach.intros exact_is_step)

definition store_init :: "MemoryStore \<Rightarrow> bool" where
  "store_init s \<longleftrightarrow> s = NewMemoryStore"

definition store_ok :: "MemoryStore \<Rightarrow> bool" where
  "store_ok s \<longleftrightarrow> (\<forall>k. in64 (available s k)) \<and> orders_ok s \<and> codes_ok s \<and> endpoints_ok s \<and> supply_ok s"

definition books_ok :: "MemoryStore \<Rightarrow> bool" where
  "books_ok s \<longleftrightarrow> store_ok s \<and> journals_ok s"

section \<open>What a step does\<close>

text \<open>The money: nothing, a deposit, a withdrawal, a hold, or the end of a hold.\<close>

definition money_effect :: "MemoryStore \<Rightarrow> MemoryStore \<Rightarrow> bool" where
  "money_effect s t \<longleftrightarrow> same_core s t \<or>
     (\<exists>k a. 0 < a \<and> books s t k a 0) \<or>
     (\<exists>k a. 0 < a \<and> a \<le> available s k \<and> books s t k (- a) 0) \<or>
     (\<exists>k a. 0 < a \<and> a \<le> available s k \<and> books s t k (- a) a) \<or>
     (\<exists>k h c. 0 < h \<and> 0 \<le> c \<and> books s t k (h - c) (- h))"

text \<open>The postings: how many journals of a kind a step adds for an object, and that it adds
  one only to an object that was open and that the step closes.\<close>

definition posts_once :: "(MemoryStore \<Rightarrow> string \<Rightarrow> bool) \<Rightarrow> WalletJournalKind \<Rightarrow> MemoryStore \<Rightarrow> MemoryStore \<Rightarrow> bool" where
  "posts_once opn kind s t \<longleftrightarrow> (\<forall>i.
     (posts_for kind t i = posts_for kind s i \<and> (opn t i \<longrightarrow> opn s i)) \<or>
     (posts_for kind t i = Suc (posts_for kind s i) \<and> opn s i \<and> \<not> opn t i))"

text \<open>The wallets in every step: the reserved balance follows the holds, the available balance is
  a number of 64 bits.\<close>

definition wallet_moves :: "MemoryStore \<Rightarrow> MemoryStore \<Rightarrow> bool" where
  "wallet_moves s t \<longleftrightarrow> tracks reserved held s t \<and> (\<forall>k. available t k = available s k \<or> in64 (available t k))"

definition step_facts :: "MemoryStore \<Rightarrow> MemoryStore \<Rightarrow> bool" where
  "step_facts s t \<longleftrightarrow> wallet_moves s t \<and> orders_evolve (paymentOrders s) (paymentOrders t) \<and>
     used_kept s t \<and> codes_ok t \<and> endpoints_ok t \<and> supply_ok t \<and>
     posts_once order_open WalletJournalRecharge s t \<and> posts_once code_open WalletJournalRedeem s t \<and>
     posts_once reservation_open WalletJournalSettle s t \<and> posts_once reservation_open WalletJournalRelease s t"

definition exact_facts :: "MemoryStore \<Rightarrow> MemoryStore \<Rightarrow> bool" where
  "exact_facts s t \<longleftrightarrow> money_effect s t \<and> step_facts s t"

lemma money_effect_tracks:
  assumes "money_effect s t"
  shows "tracks available (acct_balance WalletAccountUserAvailable) s t"
    and "tracks reserved (acct_balance WalletAccountUserReserved) s t"
    and "tracks reserved held s t"
    and "journals_ok t = journals_ok s"
  using assms unfolding money_effect_def
  by (metis same_core_tracks books_tracks books_ledger(3))+

lemma money_effect_moves: "money_effect s t \<Longrightarrow> wallet_moves s t"
proof -
  assume m: "money_effect s t"
  have "available t k = available s k \<or> in64 (available t k)" for k
    using money_effect_tracks(1) [OF m] unfolding tracks_def by (metis in64_wrap64)
  with money_effect_tracks(3) [OF m] show ?thesis by (simp add: wallet_moves_def)
qed

lemma posts_once_frame:
  assumes "\<And>i. posts_for kind t i = posts_for kind s i" "\<And>i. opn t i \<Longrightarrow> opn s i"
  shows "posts_once opn kind s t"
  using assms by (simp add: posts_once_def)

lemma reservation_open_same:
  "walletReservations t = walletReservations s \<Longrightarrow> reservation_open t i = reservation_open s i"
  by (simp add: reservation_open_def)

text \<open>A step that leaves the money alone.\<close>

lemma quiet_facts:
  assumes "store_ok s" and "same_core s t" and "orders_evolve (paymentOrders s) (paymentOrders t)"
    and "used_kept s t" and "codes_ok t" and "endpoints_ok t"
  shows "exact_facts s t"
proof -
  have eq: "walletJournals t = walletJournals s" "walletReservations t = walletReservations s"
    using assms(2) by (simp_all add: same_core_def)
  note posts = posts_for_same [OF eq(1)] and opn = reservation_open_same [OF eq(2)]
  have "money_effect s t" using assms(2) by (simp add: money_effect_def)
  moreover have "supply_ok t" using assms(1) supply_ok_cong [OF assms(2)] by (simp add: store_ok_def)
  moreover have "posts_once order_open WalletJournalRecharge s t" "posts_once code_open WalletJournalRedeem s t"
    "posts_once reservation_open WalletJournalSettle s t" "posts_once reservation_open WalletJournalRelease s t"
    by (rule posts_once_frame [OF posts];
        simp add: opn order_open_evolve [OF assms(3)] code_open_kept [OF assms(4)])+
  ultimately show ?thesis using assms money_effect_moves by (simp add: step_facts_def exact_facts_def)
qed

text \<open>A step that only credits or debits one wallet, under a journal of its own kind.\<close>

lemma deposit_facts:
  assumes ok: "store_ok s" and m: "wallet_moves s t"
    and j: "walletJournals t = walletJournals s @ [j]"
    and keep: "walletReservations t = walletReservations s" "supplyUsage t = supplyUsage s"
      "seq t ''wres'' = seq s ''wres''" "endpoints_ok t"
    and codes: "used_kept s t" "codes_ok t"
    and orders: "orders_evolve (paymentOrders s) (paymentOrders t)"
    and kind: "wjnl_Kind j \<noteq> WalletJournalSettle" "wjnl_Kind j \<noteq> WalletJournalRelease"
    and rech: "wjnl_Kind j = WalletJournalRecharge \<Longrightarrow>
      order_open s (wjnl_ReferenceID j) \<and> \<not> order_open t (wjnl_ReferenceID j)"
    and redm: "wjnl_Kind j = WalletJournalRedeem \<Longrightarrow>
      code_open s (wjnl_ReferenceID j) \<and> \<not> code_open t (wjnl_ReferenceID j)"
  shows "step_facts s t"
proof -
  have "supply_ok t" using ok keep by (simp add: store_ok_def supply_ok_def reservation_ok_def)
  moreover have "posts_once order_open WalletJournalRecharge s t"
    using rech order_open_evolve [OF orders] by (auto simp: posts_once_def posts_for_append [OF j])
  moreover have "posts_once code_open WalletJournalRedeem s t"
    using redm code_open_kept [OF codes(1)] by (auto simp: posts_once_def posts_for_append [OF j])
  moreover have "posts_once reservation_open WalletJournalSettle s t"
    and "posts_once reservation_open WalletJournalRelease s t"
    using kind by (simp_all add: posts_once_def posts_for_append [OF j] reservation_open_same [OF keep(1)])
  ultimately show ?thesis using m keep codes orders by (simp add: step_facts_def)
qed

lemma adjust_facts:
  assumes ok: "store_ok s" and run: "AdjustWalletBalance nw c u cur0 d key n0 s = (r, t)"
  shows "step_facts s t"
  using run
proof (cases rule: AdjustWalletBalance_cases)
  case unchanged
  then have "exact_facts s t" using ok by (intro quiet_facts) (auto simp: store_ok_def)
  then show ?thesis by (simp add: exact_facts_def)
next
  case (posted cur ik n j)
  have t: "t = snd (adjust_posting nw u cur d ik n s)" and j: "j = fst (adjust_posting nw u cur d ik n s)"
    using posted by simp_all
  have fr: "paymentOrders t = paymentOrders s" "redeemCodes t = redeemCodes s" "supplyEndpoints t = supplyEndpoints s"
    "walletReservations t = walletReservations s" "supplyUsage t = supplyUsage s"
    "seq t ''wres'' = seq s ''wres''" "seq t ''redeem'' = seq s ''redeem''"
    "walletJournals t = walletJournals s @ [j]" "wjnl_Kind j = WalletJournalAdjustment"
    unfolding t j by (simp_all add: adjust_posting_def)
  have w: "wallets t = wallets (creditWallet (walletMapKey u cur) u cur d (nw 0) s)"
    unfolding t by (simp add: adjust_posting_def)
  have "available t k = (if k = walletMapKey u cur then wrap64 (available s k + d) else available s k)"
    "reserved t k = reserved s k" for k
    by (simp_all add: views_cong [OF w])
  then have m: "wallet_moves s t" using held_same [OF fr(4)] by (simp add: wallet_moves_def tracks_def)
  show ?thesis
    by (rule deposit_facts [OF ok m fr(8)])
       (use ok fr in \<open>simp_all add: store_ok_def used_kept_def codes_ok_def endpoints_ok_def\<close>)
qed

lemma adjust_money:
  assumes run: "AdjustWalletBalance nw c u cur0 d key n0 s = (r, t)" and d: "in64 d" "- (2 ^ 63) < d"
  shows "money_effect s t"
  using run
proof (cases rule: AdjustWalletBalance_cases)
  case unchanged
  then show ?thesis by (simp add: money_effect_def)
next
  case (posted cur ik n j)
  have b: "books s t (walletMapKey u cur) d 0" using posted d by (intro adjust_books)
  show ?thesis
  proof (cases "0 < d")
    case True
    then show ?thesis using b by (auto simp: money_effect_def)
  next
    case False
    then have "d < 0" using posted by simp
    moreover have "wrap64 (- d) = - d" using d \<open>d < 0\<close> by (intro wrap64_id) (simp add: in64_def)
    ultimately have "0 < - d \<and> - d \<le> available s (walletMapKey u cur) \<and> books s t (walletMapKey u cur) (- (- d)) 0"
      using b posted by simp
    then show ?thesis unfolding money_effect_def by blast
  qed
qed

lemma confirm_facts:
  assumes ok: "store_ok s" and run: "ConfirmRechargePayment nw c notification b s = (r, t)"
  shows "exact_facts s t"
  using run
proof (cases rule: ConfirmRechargePayment_cases)
  case unchanged
  then show ?thesis using ok by (intro quiet_facts) (auto simp: store_ok_def)
next
  case (recorded n order)
  then show ?thesis
    using ok by (intro quiet_facts) (simp_all add: store_ok_def same_core_def used_kept_def codes_ok_def endpoints_ok_def)
next
  case (credited n x)
  let ?b = "TrimSpace b"
  note a = confirmable_amount [OF credited(2)]
  have m: "money_effect s t"
    using confirmPosting_books [OF a, of s ?b x "nw 0"] a credited(4) by (auto simp: money_effect_def)
  obtain j where j: "walletJournals t = walletJournals s @ [j]" "wjnl_Kind j = WalletJournalRecharge"
    "wjnl_ReferenceID j = po_ID x"
    using confirmPosting_journal [of n ?b x "nw 0" s] credited(4) by metis
  have oo: "orders_ok s" using ok by (simp add: store_ok_def)
  note op = confirmPosting_open(1,2) [OF oo credited(2,3)]
  have "step_facts s t"
    by (rule deposit_facts [OF ok money_effect_moves [OF m] j(1)])
       (use ok j op credited confirmPosting_evolve [OF credited(2,3), of "nw 0"] in
         \<open>simp_all add: store_ok_def used_kept_def codes_ok_def endpoints_ok_def\<close>)
  with m show ?thesis by (simp add: exact_facts_def)
qed

lemma redeem_facts:
  assumes ok: "store_ok s" and run: "RedeemBalanceCode nw c h u now s = (r, t)"
  shows "exact_facts s t"
  using run
proof (cases rule: RedeemBalanceCode_cases)
  case unchanged
  then show ?thesis using ok by (intro quiet_facts) (auto simp: store_ok_def)
next
  case (expired x)
  note keeps = rewrite_keeps [OF expired(2), of t "x\<lparr>rc_Status := RedeemCodeExpired, rc_UpdatedAt := nw 0\<rparr>"]
  show ?thesis
    using ok expired keeps by (intro quiet_facts) (simp_all add: store_ok_def same_core_def endpoints_ok_def)
next
  case (credited x)
  have co: "codes_ok s" using ok by (simp add: store_ok_def)
  have "x \<in> set (redeemCodes s)" using find_SomeD [OF credited(1)] by simp
  then have a: "0 < rc_AmountMicros x" "in64 (rc_AmountMicros x)"
    using co credited(2) by (auto simp: codes_ok_def list_all_iff code_ok_def)
  have m: "money_effect s t"
    using redeemPosting_books [OF a, of s u now "nw 0"] a credited(5) by (auto simp: money_effect_def)
  obtain j where j: "walletJournals t = walletJournals s @ [j]" "wjnl_Kind j = WalletJournalRedeem"
    "wjnl_ReferenceID j = rc_ID x"
    using redeemPosting_journal [of x u now "nw 0" s] credited(5) by metis
  note k = redeemPosting_keeps [OF credited(1,3) co credited(5)]
  have "step_facts s t"
    by (rule deposit_facts [OF ok money_effect_moves [OF m] j(1)]) (use ok j k credited(5) in \<open>simp_all add: store_ok_def endpoints_ok_def\<close>)
  with m show ?thesis by (simp add: exact_facts_def)
qed

lemma reserve_facts:
  assumes ok: "store_ok s" and run: "ReserveSupplyRequest nw c h rq0 model0 cur0 ex s = (r, t)"
  shows "exact_facts s t"
  using run
proof (cases rule: ReserveSupplyRequest_cases)
  case rejected
  then show ?thesis using ok by (intro quiet_facts) (auto simp: store_ok_def)
next
  case replayed
  then show ?thesis using ok by (intro quiet_facts) (auto simp: store_ok_def)
next
  case (made key u cand rq model cur m n res)
  let ?a = "reserve_amount s key cand cur" and ?k = "walletMapKey (vk_UserID key) cur"
  have so: "supply_ok s" using ok by (simp add: store_ok_def)
  have adm: "cand \<in> set (eligibleCandidates s key model ex)" "0 < available s ?k"
    using made by (auto simp: reserve_admitted_def)
  have "cand \<in> set (listSupplyCandidatesLocked s (vk_ResourceClass key) model)"
    using adm(1) by (simp add: eligibleCandidates_def)
  then have "map_of (supplyEndpoints s) (chan_ID (cand_Channel cand)) = Some (cand_Endpoint cand)"
    by (rule candidate_in)
  then have e: "endpoint_ok (cand_Endpoint cand)" "in64 (ep_MaxRequestMicros (cand_Endpoint cand))"
    using ok map_of_SomeD by (fastforce simp: store_ok_def endpoints_ok_def)+
  note C = reserveCommit_ok [OF so e made(4) adm(2) made(14)]
  note st = reserveCommit_store [OF made(14)]
  have b: "books s t ?k (- ?a) ?a" by (rule books_reserve [OF made(14) C(2,3) supply_ok_fresh [OF so]])
  moreover have "?a \<le> available s ?k" by (simp add: reserve_amount_def)
  ultimately have m: "money_effect s t" using C(2) unfolding money_effect_def by blast
  from st(15) obtain j where j: "walletJournals t = walletJournals s @ [j]" "wjnl_Kind j = WalletJournalReserve"
    by auto
  have opn: "reservation_open t i \<Longrightarrow> reservation_open s i" for i
    using supply_ok_fresh [OF so] by (auto simp: reservation_open_def st(1) update_conv split: if_splits)
  have "posts_once order_open WalletJournalRecharge s t" "posts_once code_open WalletJournalRedeem s t"
    "posts_once reservation_open WalletJournalSettle s t" "posts_once reservation_open WalletJournalRelease s t"
    using j(2) opn
    by (auto simp: posts_once_def posts_for_append [OF j(1)] order_open_def code_open_def st(9,10))
  then show ?thesis
    using m money_effect_moves [OF m] C(1) ok st
    by (simp add: exact_facts_def step_facts_def used_kept_def codes_ok_def endpoints_ok_def store_ok_def)
qed

text \<open>The wallet side of a settlement does not depend on what is charged.\<close>

lemma settle_moves:
  assumes run: "settleCommit r u ch sp p c rel reason tel now s = (res, t)"
    and old: "map_of (walletReservations s) (wres_ID r) = Some r" "wres_Status r = WalletReservationActive"
  shows "wallet_moves s t"
proof -
  let ?k = "walletMapKey (wres_UserID r) (wres_Currency r)" and ?h = "wres_ReservedMicros r"
  note st = settleCommit_store [OF run]
  have "hold_on k' (closedReservation r ch rel now) = 0" for k'
    by (simp add: hold_on_def closedReservation_def)
  then have "held t k' = held s k' - hold_on k' r" for k'
    by (simp add: held_def st(1) vsum_update_old [OF old(1)])
  moreover have "available t k' = (if k' = ?k then wrap64 (available s k' + (?h - ch)) else available s k')"
    "reserved t k' = (if k' = ?k then wrap64 (reserved s k' - ?h) else reserved s k')" for k'
    by (simp_all add: available_def reserved_def walletAt_def st(3) update_conv settleWallet_def)
  ultimately show ?thesis using old(2) by (simp add: wallet_moves_def tracks_def hold_on_def)
qed

lemma settle_facts:
  assumes ok: "store_ok s" and run: "settleSupplyLocked nw i p q rel cons reason tel s = (r, t)"
  shows "step_facts s t"
  using run
proof (cases rule: settleSupplyLocked_cases)
  case refused
  then have "exact_facts s t" using ok by (intro quiet_facts) (auto simp: store_ok_def)
  then show ?thesis by (simp add: exact_facts_def)
next
  case replayed
  then have "exact_facts s t" using ok by (intro quiet_facts) (auto simp: store_ok_def)
  then show ?thesis by (simp add: exact_facts_def)
next
  case (closed rv ch sp res)
  have so: "supply_ok s" using ok by (simp add: store_ok_def)
  have id: "wres_ID rv = i" using so closed(2) by (simp add: supply_ok_def reservation_ok_def)
  note st = settleCommit_store [OF closed(5)]
  have m: "wallet_moves s t" using closed id by (intro settle_moves [OF closed(5)]) simp_all
  note opn = settleCommit_open [OF closed(2) id closed(3,5)]
  have mono: "reservation_open t k \<Longrightarrow> reservation_open s k" for k
    using opn(2) opn(3) [of k] by (cases "k = i") auto
  have posts: "posts_for kind t k = posts_for kind s k +
     (if i = k \<and> kind = WalletJournalSettle \<and> \<not> rel \<and> 0 < ch then 1 else 0) +
     (if i = k \<and> kind = WalletJournalRelease \<and> (rel \<or> 0 < wrap64 (wres_ReservedMicros rv - ch)) then 1 else 0)" for kind k
    using settleJournals_posts [of kind rv ch sp rel "nw 0" _ k]
    by (simp add: posts_for_def st(11) id)
  have "posts_once order_open WalletJournalRecharge s t" "posts_once code_open WalletJournalRedeem s t"
    by (simp_all add: posts_once_def posts order_open_def code_open_def st(6,7))
  moreover have "posts_once reservation_open WalletJournalSettle s t" "posts_once reservation_open WalletJournalRelease s t"
    using opn mono by (auto simp: posts_once_def posts)
  ultimately show ?thesis
    using m settleCommit_ok [OF so closed(2,5)] ok st
    by (simp add: step_facts_def used_kept_def codes_ok_def endpoints_ok_def store_ok_def)
qed

lemma settle_money:
  assumes ok: "store_ok s" and run: "settleSupplyLocked nw i p q rel cons reason tel s = (r, t)"
    and args: "0 \<le> p" "0 \<le> q" "\<not> rel \<Longrightarrow> \<not> cons \<Longrightarrow> charge_fits (usageAt s i) p q" "rel \<Longrightarrow> \<not> cons"
  shows "money_effect s t"
  using run
proof (cases rule: settleSupplyLocked_cases)
  case (closed rv ch sp res)
  have so: "supply_ok s" using ok by (simp add: store_ok_def)
  have id: "wres_ID rv = i" using so closed(2) by (simp add: supply_ok_def reservation_ok_def)
  have ex: "settle_exactly rv ch sp rel" by (rule settleFigures_exact [OF so closed(2,4) args])
  have "books s t (walletMapKey (wres_UserID rv) (wres_Currency rv)) (wres_ReservedMicros rv - ch) (- wres_ReservedMicros rv)"
    using closed id by (intro books_settle [OF closed(5) ex]) simp_all
  then show ?thesis using ex unfolding money_effect_def settle_exactly_def by fastforce
qed (simp_all add: money_effect_def)

lemma settle_request_facts:
  assumes ok: "store_ok s" and run: "SettleSupplyRequest nw c i p q tel s = (r, t)"
  shows "step_facts s t" "charge_fits (usageAt s i) p q \<Longrightarrow> money_effect s t"
proof -
  consider "t = s" | "0 \<le> p" "0 \<le> q" "settleSupplyLocked nw i p q False False ''metered'' tel s = (r, t)"
    using run by (auto simp: SettleSupplyRequest_def split: option.splits if_splits)
  note cases = this
  have "exact_facts s s" using ok by (intro quiet_facts) (auto simp: store_ok_def)
  then have same: "step_facts s s" "money_effect s s" by (simp_all add: exact_facts_def)
  show "step_facts s t" using cases same settle_facts [OF ok] by metis
  assume "charge_fits (usageAt s i) p q"
  with cases same settle_money [OF ok] show "money_effect s t" by metis
qed

lemma same_orders_evolve: "same_orders s t \<Longrightarrow> orders_evolve (paymentOrders s) (paymentOrders t)"
  by (simp add: same_orders_def)

lemma other_step_facts:
  assumes "store_ok s" and "other_step s t"
  shows "exact_facts s t"
proof -
  have co: "codes_ok s" and eo: "endpoints_ok s" using assms(1) by (simp_all add: store_ok_def)
  have ep: "endpoints_ok t" if "supplyEndpoints t = supplyEndpoints s"
    using eo that by (simp add: endpoints_ok_def)
  have cat: "endpoints_ok t" if "same_catalog s t" using that by (intro ep) (simp add: same_catalog_def)
  have cod: "used_kept s t" "codes_ok t" if "same_codes s t" using co same_codes_kept [OF that] by simp_all
  from assms(2) show ?thesis
  proof cases
    case create_order
    then show ?thesis by (intro quiet_facts [OF assms(1)] cod cat CreatePaymentOrder_evolve)
  next
    case bind_order
    then show ?thesis by (intro quiet_facts [OF assms(1)] cod cat BindPaymentOrderCheckout_evolve)
  next
    case confirm
    then show ?thesis by (intro confirm_facts [OF assms(1)])
  next
    case reject
    note R = RecordRejectedPaymentCallback_evolve [OF reject]
    show ?thesis by (rule quiet_facts [OF assms(1) R(2) _ cod [OF R(3)] cat [OF R(4)]]) (simp add: R(1))
  next
    case cancel
    then show ?thesis
      unfolding CancelPendingPaymentOrder_def by (intro quiet_facts [OF assms(1)] cod cat closePendingOrder_evolve)
  next
    case expire
    then show ?thesis
      unfolding ExpirePaymentOrder_def by (intro quiet_facts [OF assms(1)] cod cat closePendingOrder_evolve)
  next
    case create_codes
    note K = CreateRedeemCodes_keeps [OF create_codes]
    show ?thesis by (rule quiet_facts [OF assms(1) K(1) same_orders_evolve [OF K(2)] K(4) K(5) [OF co] cat [OF K(3)]])
  next
    case disable_code
    note K = DisableRedeemCode_keeps [OF disable_code]
    show ?thesis by (rule quiet_facts [OF assms(1) K(1) same_orders_evolve [OF K(2)] K(4) K(5) [OF co] cat [OF K(3)]])
  next
    case delete_code
    note K = DeleteUnusedRedeemCode_keeps [OF delete_code]
    show ?thesis by (rule quiet_facts [OF assms(1) K(1) same_orders_evolve [OF K(2)] K(4) K(5) [OF co] cat [OF K(3)]])
  next
    case consume_code
    note K = ConsumeInvitationCode_keeps [OF consume_code]
    show ?thesis by (rule quiet_facts [OF assms(1) K(1) same_orders_evolve [OF K(2)] K(4) K(5) [OF co] cat [OF K(3)]])
  next
    case redeem
    then show ?thesis by (intro redeem_facts [OF assms(1)])
  next
    case upsert_allocation
    note K = UpsertHybridAllocation_keeps [OF upsert_allocation]
    show ?thesis by (rule quiet_facts [OF assms(1) K(1) same_orders_evolve [OF K(3)] cod [OF K(2)] ep]) (simp add: K(4))
  next
    case create_key
    note K = CreateVirtualKey_keeps [OF create_key]
    show ?thesis by (rule quiet_facts [OF assms(1) K(1) same_orders_evolve [OF K(3)] cod [OF K(2)] ep [OF K(4)]])
  next
    case update_key
    note K = UpdateVirtualKey_keeps [OF update_key]
    show ?thesis by (rule quiet_facts [OF assms(1) K(1) same_orders_evolve [OF K(3)] cod [OF K(2)] ep [OF K(4)]])
  next
    case delete_key
    note K = DeleteVirtualKey_keeps [OF delete_key]
    show ?thesis by (rule quiet_facts [OF assms(1) K(1) same_orders_evolve [OF K(3)] cod [OF K(2)] ep [OF K(4)]])
  next
    case upsert_endpoint
    note K = UpsertSupplyChannelEndpoint_keeps [OF upsert_endpoint]
    show ?thesis by (rule quiet_facts [OF assms(1) K(1) same_orders_evolve [OF K(3)] cod [OF K(2)] K(4) [OF eo]])
  next
    case reserve
    then show ?thesis by (intro reserve_facts [OF assms(1)])
  next
    case (settle_conservatively nw c i reason tel r20)
    show ?thesis
    proof (cases "t = s")
      case False
      with settle_conservatively have "settleSupplyLocked nw i 0 0 False True (TrimSpace reason) tel s = (r20, t)"
        by (auto simp: SettleSupplyRequestConservatively_def Let_def split: option.splits if_splits)
      from settle_money [OF assms(1) this] settle_facts [OF assms(1) this] show ?thesis by (simp add: exact_facts_def)
    qed (use assms(1) in \<open>auto simp: store_ok_def intro!: quiet_facts\<close>)
  next
    case (release nw c i reason tel r21)
    show ?thesis
    proof (cases "t = s")
      case False
      with release have "settleSupplyLocked nw i 0 0 True False (TrimSpace reason) tel s = (r21, t)"
        by (auto simp: ReleaseSupplyRequest_def split: option.splits)
      from settle_money [OF assms(1) this] settle_facts [OF assms(1) this] show ?thesis by (simp add: exact_facts_def)
    qed (use assms(1) in \<open>auto simp: store_ok_def intro!: quiet_facts\<close>)
  next
    case env
    then show ?thesis
      using assms(1) by (intro quiet_facts)
        (simp_all add: same_core_def store_ok_def used_kept_def codes_ok_def endpoints_ok_def)
  qed
qed

lemma store_step_facts:
  assumes "store_ok s" and "store_step s t"
  shows "step_facts s t"
  using assms(2)
proof cases
  case other
  then show ?thesis using other_step_facts [OF assms(1)] by (simp add: exact_facts_def)
qed (auto intro: adjust_facts [OF assms(1)] settle_request_facts(1) [OF assms(1)])

lemma exact_step_facts:
  assumes "store_ok s" and "exact_step s t"
  shows "money_effect s t"
  using assms(2)
proof cases
  case exact_other
  then show ?thesis using other_step_facts [OF assms(1)] by (simp add: exact_facts_def)
qed (auto intro: adjust_money settle_request_facts(2) [OF assms(1)])

section \<open>Interpretations on the store\<close>

lemma store_ok_step:
  assumes "store_ok s" and "store_step s t"
  shows "store_ok t"
proof -
  have f: "step_facts s t" by (rule store_step_facts [OF assms])
  have "in64 (available t k)" for k
    using f assms(1) by (auto simp: step_facts_def wallet_moves_def store_ok_def dest!: spec [of _ k])
  moreover have "orders_ok t"
    using f assms(1) orders_evolve_ids [of "paymentOrders s" "paymentOrders t"]
    by (simp add: step_facts_def store_ok_def orders_ok_def)
  ultimately show ?thesis using f assms(1) by (simp add: step_facts_def store_ok_def)
qed

lemma books_ok_step:
  assumes "books_ok s" and "exact_step s t"
  shows "books_ok t"
proof -
  have ok: "store_ok s" using assms(1) by (simp add: books_ok_def)
  note money_effect_tracks(4) [OF exact_step_facts [OF ok assms(2)]]
  then show ?thesis using assms(1) store_ok_step [OF ok exact_is_step [OF assms(2)]] by (simp add: books_ok_def)
qed

lemma store_ok_init: "store_init s \<Longrightarrow> store_ok s"
  by (simp add: store_init_def NewMemoryStore_def store_ok_def orders_ok_def codes_ok_def available_def walletAt_def
      zero_wallet_def in64_def endpoints_ok_def supply_ok_def)

lemma books_ok_init: "store_init s \<Longrightarrow> books_ok s"
  using store_ok_init by (simp add: books_ok_def store_init_def NewMemoryStore_def journals_ok_def)

interpretation store: invariant_system store_init store_step store_ok
  by unfold_locales (auto intro: store_ok_init store_ok_step)

interpretation exact: invariant_system store_init exact_step books_ok
  by unfold_locales (auto intro: books_ok_init books_ok_step)

lemma init_views:
  assumes "store_init s"
  shows "available s k = 0" "reserved s k = 0" "acct_balance a s k = 0" "held s k = 0" "posts_for kind s k = 0"
  using assms
  by (simp_all add: store_init_def NewMemoryStore_def available_def reserved_def walletAt_def zero_wallet_def
      acct_balance_def held_def posts_for_def)

interpretation avail: ledger_view store_init exact_step books_ok available "acct_balance WalletAccountUserAvailable"
  by unfold_locales (simp_all add: init_views money_effect_tracks exact_step_facts books_ok_def)

interpretation resv: ledger_view store_init exact_step books_ok reserved "acct_balance WalletAccountUserReserved"
  by unfold_locales (simp_all add: init_views money_effect_tracks exact_step_facts books_ok_def)

interpretation holds: ledger_view store_init store_step store_ok reserved held
  by unfold_locales (simp_all add: init_views store_step_facts [unfolded step_facts_def wallet_moves_def])

lemma posts_onceD:
  "posts_once opn kind s t \<Longrightarrow>
     (posts_for kind t i = posts_for kind s i \<and> (opn t i \<longrightarrow> opn s i)) \<or>
     (posts_for kind t i = Suc (posts_for kind s i) \<and> opn s i \<and> \<not> opn t i)"
  unfolding posts_once_def by blast

interpretation recharge: exactly_once store_init store_step store_ok order_open "posts_for WalletJournalRecharge"
  by unfold_locales (simp add: init_views, rule posts_onceD, simp add: store_step_facts [unfolded step_facts_def])

interpretation redeem: exactly_once store_init store_step store_ok code_open "posts_for WalletJournalRedeem"
  by unfold_locales (simp add: init_views, rule posts_onceD, simp add: store_step_facts [unfolded step_facts_def])

interpretation settled: exactly_once store_init store_step store_ok reservation_open "posts_for WalletJournalSettle"
  by unfold_locales (simp add: init_views, rule posts_onceD, simp add: store_step_facts [unfolded step_facts_def])

interpretation released: exactly_once store_init store_step store_ok reservation_open "posts_for WalletJournalRelease"
  by unfold_locales (simp add: init_views, rule posts_onceD, simp add: store_step_facts [unfolded step_facts_def])

section \<open>The abstract ledger\<close>

text \<open>
  What the money side of the store promises: two balances per wallet, and four moves. A
  withdrawal and a hold need the funds the wallet shows; the end of a hold returns what the
  request did not cost and may leave a debt.
\<close>

type_synonym ledger = "(string \<Rightarrow> int) \<times> (string \<Rightarrow> int)"

inductive ledger_spec :: "ledger \<Rightarrow> ledger \<Rightarrow> bool" where
  deposit: "0 < a \<Longrightarrow> ledger_spec (A, R) (A(k := A k + a), R)"
| withdraw: "0 < a \<Longrightarrow> a \<le> wrap64 (A k) \<Longrightarrow> ledger_spec (A, R) (A(k := A k - a), R)"
| hold: "0 < a \<Longrightarrow> a \<le> wrap64 (A k) \<Longrightarrow> ledger_spec (A, R) (A(k := A k - a), R(k := R k + a))"
| settle: "0 < h \<Longrightarrow> 0 \<le> c \<Longrightarrow> ledger_spec (A, R) (A(k := A k + (h - c)), R(k := R k - h))"

definition abs_ledger :: "MemoryStore \<Rightarrow> ledger" where
  "abs_ledger s = (acct_balance WalletAccountUserAvailable s, acct_balance WalletAccountUserReserved s)"

lemma abs_books:
  assumes "books s t k da dr"
  shows "abs_ledger t = ((fst (abs_ledger s))(k := fst (abs_ledger s) k + da),
                         (snd (abs_ledger s))(k := snd (abs_ledger s) k + dr))"
  using books_ledger [OF assms] by (auto simp: abs_ledger_def)

lemma abs_same: "same_core s t \<Longrightarrow> abs_ledger t = abs_ledger s"
  by (auto simp: abs_ledger_def same_core_def acct_balance_def)

lemma money_effect_refines:
  assumes "money_effect s t" and "\<And>k. available s k = wrap64 (fst (abs_ledger s) k)"
  shows "ledger_spec\<^sup>=\<^sup>= (abs_ledger s) (abs_ledger t)"
proof -
  obtain A R where ar: "abs_ledger s = (A, R)" by (cases "abs_ledger s")
  from assms(1) consider "same_core s t" | k a where "0 < a" "books s t k a 0"
    | k a where "0 < a" "a \<le> available s k" "books s t k (- a) 0"
    | k a where "0 < a" "a \<le> available s k" "books s t k (- a) a"
    | k h c where "0 < h" "0 \<le> c" "books s t k (h - c) (- h)"
    unfolding money_effect_def by blast
  then show ?thesis
  proof cases
    case 1
    then show ?thesis by (simp add: abs_same)
  next
    case (2 k a)
    then show ?thesis using ledger_spec.deposit [of a A R k] by (simp add: abs_books ar)
  next
    case (3 k a)
    then show ?thesis using ledger_spec.withdraw [of a A k R] assms(2) [of k] by (simp add: abs_books ar)
  next
    case (4 k a)
    then show ?thesis using ledger_spec.hold [of a A k R] assms(2) [of k] by (simp add: abs_books ar)
  next
    case (5 k h c)
    then show ?thesis using ledger_spec.settle [of h c A R k] by (simp add: abs_books ar)
  qed
qed

section \<open>Runs\<close>

lemma reach_rtrancl:
  assumes "reach store_init store_step s" and "store_step\<^sup>*\<^sup>* s t"
  shows "reach store_init store_step t"
  using assms(2,1) by (induction rule: rtranclp_induct) (auto intro: reach_step)

lemma held_nonneg:
  assumes "store_ok s"
  shows "0 \<le> held s k"
proof -
  have nn: "0 \<le> vsum f m" if "\<forall>x \<in> set m. 0 \<le> f (snd x)" for f :: "WalletReservation \<Rightarrow> int" and m :: "(string \<times> WalletReservation) list"
    using that by (induction m) auto
  have "0 < wres_ReservedMicros r" if "(i, r) \<in> set (walletReservations s)" for i r
    using assms that by (auto simp: store_ok_def supply_ok_def reservation_ok_def)
  then show ?thesis
    unfolding held_def by (intro nn) (force simp: hold_on_def)
qed

end
