(* ===== verification/Sample_Runs.thy ===== *)
theory Sample_Runs
  imports Store_System
begin

text \<open>
  Concrete stores reached by concrete calls, on which the properties are exercised: a client
  with a funded wallet, a redeemed code, a paid order, and a supply channel with a reserved
  and settled request. Every store is reachable, and its figures are evaluated.
\<close>

section \<open>Sample runs\<close>

text \<open>A store with one enabled client, and the same store after a deposit of five units.\<close>

definition sample_user :: User where
  "sample_user = \<lparr>user_ID = 7, user_Email = ''a@b'', user_DisplayName = ''a'', user_PasswordHash = '''',
     user_Roles = [UserRoleClient], user_PlatformConcurrency = 0, user_PlatformRPM = 0, user_Enabled = True,
     user_DeactivationStatus = UserDeactivationNone, user_DeactivationErrorCode = '''',
     user_DeactivationRequestedAt = None, user_DeactivationCompletedAt = None,
     user_CreatedAt = 1, user_UpdatedAt = 1\<rparr>"

definition sample_store :: MemoryStore where
  "sample_store = NewMemoryStore\<lparr>users := [sample_user]\<rparr>"

definition funded_store :: MemoryStore where
  "funded_store = snd (AdjustWalletBalance (\<lambda>_. 1) None 7 ''USD'' 5000000 ''k'' ''n'' sample_store)"

definition sample_code :: RedeemCode where
  "sample_code = \<lparr>rc_ID = '''', rc_Type = RedeemCodeBalance, rc_CodeHash = ''h'', rc_CodePrefix = ''p'',
     rc_Currency = ''USD'', rc_AmountMicros = 9000000, rc_Status = RedeemCodeUnused, rc_BatchID = '''',
     rc_Notes = '''', rc_ExpiresAt = None, rc_UsedBy = 0, rc_UsedAt = None, rc_CreatedBy = 1,
     rc_CreatedAt = 0, rc_UpdatedAt = 0\<rparr>"

definition coded_store :: MemoryStore where
  "coded_store = snd (CreateRedeemCodes (\<lambda>_. 1) None [sample_code] sample_store)"

definition redeemed_store :: MemoryStore where
  "redeemed_store = snd (RedeemBalanceCode (\<lambda>_. 2) None ''h'' 7 2 coded_store)"

lemmas sample_defs = sample_user_def sample_store_def NewMemoryStore_def TrimSpace_plain plain_def
  Let_def split_def walletAt_def zero_wallet_def

lemma exact_sample: "reach store_init exact_step sample_store"
  by (rule reach_step [OF reach_init [of store_init NewMemoryStore] exact_other [OF env]])
     (simp_all add: store_init_def sample_store_def NewMemoryStore_def)

lemma exact_funded: "reach store_init exact_step funded_store"
  unfolding funded_store_def
  by (rule reach_step [OF exact_sample], rule exact_adjust, rule prod.collapse [symmetric]) (simp_all add: in64_def)

lemma exact_coded: "reach store_init exact_step coded_store"
  unfolding coded_store_def
  by (rule reach_step [OF exact_sample], rule exact_other, rule create_codes, rule prod.collapse [symmetric])
     (simp add: in64_def sample_code_def)

lemma exact_redeemed: "reach store_init exact_step redeemed_store"
  unfolding redeemed_store_def
  by (rule reach_step [OF exact_coded], rule exact_other, rule redeem, rule prod.collapse [symmetric])

lemma funded_values:
  "available funded_store (walletMapKey 7 ''USD'') = 5000000"
  "acct_balance WalletAccountUserAvailable funded_store (walletMapKey 7 ''USD'') = 5000000"
  "length (walletJournals funded_store) = 1"
  by (simp_all add: funded_store_def sample_defs AdjustWalletBalance_def available_def creditWallet_def
      wrap64_def acct_balance_def)

lemma redeemed_codes:
  "redeemCodes redeemed_store \<noteq> []" "rc_Status (hd (redeemCodes redeemed_store)) = RedeemCodeUsed"
  by (simp_all add: redeemed_store_def coded_store_def sample_defs sample_code_def CreateRedeemCodes_def
      normalizeRedeemCodeForCreate_def RedeemCodeType_Valid_def nextID_def RedeemBalanceCode_def codeExpired_def
      usedCode_def)

lemma redeemed_values:
  "posts_for WalletJournalRedeem redeemed_store (mkID ''redeem'' 1) = 1"
  "available redeemed_store (walletMapKey 7 ''USD'') = 9000000"
  by (simp_all add: redeemed_store_def coded_store_def sample_defs sample_code_def CreateRedeemCodes_def
      normalizeRedeemCodeForCreate_def RedeemCodeType_Valid_def nextID_def RedeemBalanceCode_def codeExpired_def
      redeemPosting_def posts_for_def usedCode_def available_def creditWallet_def wrap64_def setCode_def)

text \<open>A pending order of five units, and the store after its provider's callback.\<close>

definition sample_provider :: PaymentProvider where
  "sample_provider = \<lparr>pp_ID = ''pi'', pp_ProviderKey = PaymentProviderStripe, pp_Name = ''s'', pp_Config = [],
     pp_SecretConfigured = [], pp_SupportedTypes = [''card''], pp_Enabled = True, pp_PaymentMode = '''',
     pp_SortOrder = 0, pp_Limits = [], pp_RefundEnabled = False, pp_AllowUserRefund = False,
     pp_CreatedAt = 1, pp_UpdatedAt = 1, pp_SecretRefs = []\<rparr>"

definition sample_order :: PaymentOrder where
  "sample_order = \<lparr>po_ID = '''', po_UserID = 7, po_UserEmail = '''', po_UserName = '''', po_Amount = ''5.00'',
     po_PayAmount = ''5.00'', po_FeeRate = ''0'', po_Currency = ''USD'', po_PaymentType = ''card'',
     po_OutTradeNo = ''t1'', po_PaymentTradeNo = '''', po_ProviderOrderID = '''', po_OrderType = PaymentOrderBalance,
     po_ProviderInstanceID = ''pi'', po_ProviderKey = PaymentProviderStripe, po_ProviderName = '''',
     po_Status = PaymentOrderPending, po_RefundAmount = ''0'', po_RefundReason = '''', po_RefundRequestedAt = None,
     po_RefundRequestedBy = '''', po_RefundRequestReason = '''', po_ExpiresAt = 99, po_PaidAt = None,
     po_CompletedAt = None, po_FailedAt = None, po_FailedReason = '''', po_CreatedAt = 0, po_UpdatedAt = 0\<rparr>"

definition sample_notification :: PaymentNotification where
  "sample_notification = \<lparr>pn_ProviderInstanceID = ''pi'', pn_ProviderKey = PaymentProviderStripe, pn_EventID = ''e1'',
     pn_OutTradeNo = ''t1'', pn_PaymentTradeNo = ''x'', pn_ProviderOrderID = ''y'', pn_PaidAmountMicros = 5000000,
     pn_Currency = ''USD'', pn_PaidAt = 3\<rparr>"

definition shop_store :: MemoryStore where
  "shop_store = sample_store\<lparr>paymentProviders := [sample_provider]\<rparr>"

definition ordered_store :: MemoryStore where
  "ordered_store = snd (CreatePaymentOrder (\<lambda>_. 2) None sample_order shop_store)"

definition paid_store :: MemoryStore where
  "paid_store = snd (ConfirmRechargePayment (\<lambda>_. 3) None sample_notification ''b'' ordered_store)"

definition stored_order :: PaymentOrder where
  "stored_order = sample_order\<lparr>po_ID := mkID ''payord'' 1, po_FeeRate := ''0.0000'', po_RefundAmount := ''0.00'',
     po_CreatedAt := 2, po_UpdatedAt := 2\<rparr>"

lemma sample_decimals:
  "normalizePaymentDecimal ''5.00'' 18 2 = Some ''5.00''" "normalizePaymentDecimal ''0'' 6 4 = Some ''0.0000''"
  "normalizePaymentDecimal ''0'' 18 2 = Some ''0.00''" "paymentDecimalToMicros ''5.00'' = Some 5000000"
  by (simp_all add: normalizePaymentDecimal_def paymentDecimalToMicros_def TrimSpace_plain plain_def is_digit_def
      Let_def digits_loop_def wrap64_def numeral_eq_Suc)

lemma ordered_eq: "CreatePaymentOrder (\<lambda>_. 2) None sample_order shop_store =
   (Inr stored_order, shop_store\<lparr>seq := (seq shop_store)(''payord'' := 1), paymentOrders := [stored_order]\<rparr>)"
  by (simp add: CreatePaymentOrder_def normalizePaymentOrderForCreate_def sample_order_def sample_decimals
      stored_order_def shop_store_def sample_defs asciiUpper_def is_upper_def ToLower_def tolower_byte_def
      validStoredPaymentType_def safePaymentOrderNumber_def is_lower_def is_digit_def validStoredPaymentOrderStatus_def
      IsZero_def nextID_def)

lemma exact_shop: "reach store_init exact_step shop_store"
  by (rule reach_step [OF exact_sample exact_other [OF env]]) (simp add: shop_store_def sample_store_def NewMemoryStore_def)

lemma exact_ordered: "reach store_init exact_step ordered_store"
  unfolding ordered_store_def by (rule reach_step [OF exact_shop], rule exact_other, rule create_order, rule prod.collapse [symmetric])

lemma exact_paid: "reach store_init exact_step paid_store"
  unfolding paid_store_def by (rule reach_step [OF exact_ordered], rule exact_other, rule confirm, rule prod.collapse [symmetric])

lemma paid_run:
  obtains x w where "ConfirmRechargePayment (\<lambda>_. 3) None sample_notification ''b'' ordered_store = (Inr (x, w, True), paid_store)"
proof -
  have n: "trimNotification sample_notification = sample_notification"
    by (simp add: trimNotification_def sample_notification_def TrimSpace_plain plain_def)
  have b: "TrimSpace ''b'' = ''b''" by (simp add: TrimSpace_plain plain_def)
  have "\<exists>x w. fst (ConfirmRechargePayment (\<lambda>_. 3) None sample_notification ''b'' ordered_store) = Inr (x, w, True)"
    unfolding ordered_store_def ordered_eq ConfirmRechargePayment_def Let_def n b snd_conv
    by (simp add: validNotification_def sample_notification_def IsZero_def
        shop_store_def sample_store_def NewMemoryStore_def sample_provider_def stored_order_def sample_order_def
        sample_decimals)
  then show thesis using that unfolding paid_store_def by (metis prod.collapse)
qed

lemma paid_values:
  "posts_for WalletJournalRecharge paid_store (mkID ''payord'' 1) = 1"
  "available paid_store (walletMapKey 7 ''USD'') = 5000000"
  "paymentOrders paid_store = [completedOrder (trimNotification sample_notification) 3 stored_order]"
proof -
  have n: "trimNotification sample_notification = sample_notification"
    by (simp add: trimNotification_def sample_notification_def TrimSpace_plain plain_def)
  have b: "TrimSpace ''b'' = ''b''" by (simp add: TrimSpace_plain plain_def)
  have "paid_store = confirmPosting sample_notification ''b'' stored_order 3 ordered_store"
    unfolding paid_store_def ordered_store_def ordered_eq ConfirmRechargePayment_def Let_def n b snd_conv
    by (simp add: validNotification_def sample_notification_def IsZero_def
        shop_store_def sample_store_def NewMemoryStore_def sample_provider_def stored_order_def sample_order_def
        sample_decimals)
  then have p: "paid_store = confirmPosting sample_notification ''b'' stored_order 3
      (shop_store\<lparr>seq := (seq shop_store)(''payord'' := 1), paymentOrders := [stored_order]\<rparr>)"
    by (simp add: ordered_store_def ordered_eq)
  show "posts_for WalletJournalRecharge paid_store (mkID ''payord'' 1) = 1"
    by (simp add: p confirmPosting_def Let_def split_def posts_for_def stored_order_def shop_store_def sample_store_def
        NewMemoryStore_def)
  show "available paid_store (walletMapKey 7 ''USD'') = 5000000"
    by (simp add: p confirmPosting_def Let_def split_def available_def creditWallet_def walletAt_def zero_wallet_def
        stored_order_def sample_order_def sample_notification_def shop_store_def sample_store_def NewMemoryStore_def wrap64_def)
  show "paymentOrders paid_store = [completedOrder (trimNotification sample_notification) 3 stored_order]"
    by (simp add: p n) (simp add: stored_order_def sample_order_def sample_notification_def)
qed

section \<open>A supply run\<close>

definition sample_pool :: UpstreamPool where
  "sample_pool = \<lparr>pool_ID = ''g1'', pool_ResourceClass = ResourceClassStable, pool_DeliveryMode = UpstreamDeliverySupplyGateway,
     pool_Name = ''p'', pool_Provider = ''x'', pool_Models = [], pool_Region = '''', pool_Status = UpstreamPoolActive,
     pool_Description = '''', pool_Labels = [], pool_SafetyStockThreshold = 0, pool_CreatedAt = 1, pool_UpdatedAt = 1\<rparr>"

definition sample_channel :: UpstreamChannel where
  "sample_channel = \<lparr>chan_ID = ''c1'', chan_PoolID = ''g1'', chan_AccountOwnership = '''', chan_SourceID = '''',
     chan_DisplayName = ''c'', chan_Provider = ''x'', chan_Models = [], chan_ProbeCapability = '''',
     chan_ProbeEndpointPath = '''', chan_Groups = [], chan_CredentialBindingID = '''', chan_ProxyBindingID = '''',
     chan_Priority = 1, chan_Weight = 1, chan_CostHint = Fin 0, chan_Status = UpstreamChannelActive,
     chan_InventoryState = UpstreamInventoryReady, chan_Labels = [], chan_CreatedAt = 1, chan_UpdatedAt = 1\<rparr>"

definition sample_endpoint :: SupplyChannelEndpoint where
  "sample_endpoint = \<lparr>ep_ChannelID = ''c1'', ep_BaseURL = ''https://a.b'', ep_AllowInsecure = False, ep_SecretRef = ''r1'',
     ep_MaskedValue = '''', ep_Currency = ''USD'', ep_InputPriceMicrosPerMillion = 2000000,
     ep_OutputPriceMicrosPerMillion = 8000000, ep_InputSupplierMicrosPerMillion = 1000000,
     ep_OutputSupplierMicrosPerMillion = 4000000, ep_MaxRequestMicros = 1000000, ep_MaxConcurrency = 1,
     ep_CapacityPercent = 100, ep_Enabled = True, ep_CreatedAt = 2, ep_UpdatedAt = 2\<rparr>"

definition sample_key :: VirtualKey where
  "sample_key = \<lparr>vk_ID = ''k1'', vk_UserID = 7, vk_GroupID = ''g1'', vk_InstanceID = '''', vk_Name = ''n'',
     vk_ResourceClass = ResourceClassStable, vk_Prefix = '''', vk_TokenHash = ''th'', vk_SecretRef = ''sr'',
     vk_KeyVersion = 1, vk_Enabled = True, vk_Models = [], vk_DailyLimitMicros = 0,
     vk_RoutingPreference = SupplyRoutingSmartAuto, vk_ExpiresAt = None, vk_LastUsedAt = None,
     vk_CreatedAt = 3, vk_UpdatedAt = 3\<rparr>"

definition sample_urlParse :: "string \<Rightarrow> url option" where
  "sample_urlParse v = Some \<lparr>url_Scheme = ''https'', url_Host = ''a.b'', url_HasUser = False, url_RawQuery = '''', url_Fragment = ''''\<rparr>"

definition stocked_store :: MemoryStore where
  "stocked_store = funded_store\<lparr>upstreamPools := [sample_pool], upstreamChannels := [sample_channel]\<rparr>"

definition endpoint_store :: MemoryStore where
  "endpoint_store = snd (UpsertSupplyChannelEndpoint sample_urlParse (\<lambda>_. 2) None sample_endpoint stocked_store)"

definition keyed_store :: MemoryStore where
  "keyed_store = snd (CreateVirtualKey (\<lambda>_. 3) None sample_key endpoint_store)"

definition reserved_store :: MemoryStore where
  "reserved_store = snd (ReserveSupplyRequest (\<lambda>_. 5) None ''th'' ''q1'' ''m'' ''USD'' [] keyed_store)"

lemma exact_stocked: "reach store_init exact_step stocked_store"
  by (rule reach_step [OF exact_funded exact_other [OF env [where us = "users funded_store" and ins = "instances funded_store"
        and pp = "paymentProviders funded_store"]]]) (simp add: stocked_store_def)

lemma exact_endpoint: "reach store_init exact_step endpoint_store"
  unfolding endpoint_store_def
  by (rule reach_step [OF exact_stocked], rule exact_other, rule upsert_endpoint, rule prod.collapse [symmetric])
     (simp add: sample_endpoint_def in64_def)

lemma exact_keyed: "reach store_init exact_step keyed_store"
  unfolding keyed_store_def by (rule reach_step [OF exact_endpoint], rule exact_other, rule create_key, rule prod.collapse [symmetric])

lemma exact_reserved: "reach store_init exact_step reserved_store"
  unfolding reserved_store_def by (rule reach_step [OF exact_keyed], rule exact_other, rule reserve, rule prod.collapse [symmetric])

lemma funded_rest:
  "supplyEndpoints funded_store = []" "virtualKeys funded_store = []" "users funded_store = [sample_user]"
  "walletReservations funded_store = []" "supplyUsage funded_store = []" "hybridAllocations funded_store = []"
  "upstreamPools funded_store = []"
  by (simp_all add: funded_store_def sample_defs AdjustWalletBalance_def creditWallet_def wrap64_def)

lemma endpoint_eq: "endpoint_store = stocked_store\<lparr>supplyEndpoints := [(''c1'', sample_endpoint)]\<rparr>"
proof -
  have v: "SupplyChannelEndpoint_Valid sample_urlParse sample_endpoint"
    by (simp add: SupplyChannelEndpoint_Valid_def sample_endpoint_def TrimSpace_plain plain_def validSupplyBaseURL_def
        sample_urlParse_def validSupplyCurrency_def is_upper_def range_runes_def rune_IsControl_def rune_IsSpace_def)
  have t: "sample_endpoint\<lparr>ep_ChannelID := TrimSpace (ep_ChannelID sample_endpoint),
      ep_BaseURL := TrimRight_slash (TrimSpace (ep_BaseURL sample_endpoint))\<rparr> = sample_endpoint"
    by (simp add: sample_endpoint_def TrimSpace_plain plain_def TrimRight_slash_def)
  show ?thesis
    unfolding endpoint_store_def UpsertSupplyChannelEndpoint_def Let_def t
    using v by (simp add: stocked_store_def funded_rest)
      (simp add: sample_endpoint_def sample_channel_def sample_pool_def TrimSpace_plain plain_def)
qed

lemma keyed_eq: "keyed_store = endpoint_store\<lparr>virtualKeys := [(''k1'', sample_key)]\<rparr>"
  by (simp add: keyed_store_def CreateVirtualKey_def endpoint_eq stocked_store_def funded_rest sample_key_def
      VirtualKey_Valid_def TrimSpace_plain plain_def Let_def IsPlatformSupply_def SupplyRoutingPreference_Valid_def
      eligibleUser_def sample_user_def clientOrAdmin_def userHasRole_def keyScopeExists_def sample_pool_def putKey_def)

lemmas keyed_defs = keyed_eq endpoint_eq stocked_store_def

definition sample_candidate :: SupplyCandidate where
  "sample_candidate = \<lparr>cand_Pool = sample_pool, cand_Channel = sample_channel, cand_Endpoint = sample_endpoint, cand_Active = 0\<rparr>"

lemma keyed_views:
  "available keyed_store k = available funded_store k" "walletReservations keyed_store = []" "supplyUsage keyed_store = []"
  "seq keyed_store ''wres'' = 0" "hybridAllocations keyed_store = []" "users keyed_store = [sample_user]"
  "virtualKeys keyed_store = [(''k1'', sample_key)]" "wallets keyed_store = wallets funded_store"
  by (simp_all add: keyed_defs funded_rest available_def walletAt_def)
     (simp add: funded_store_def sample_defs AdjustWalletBalance_def creditWallet_def wrap64_def)

lemma keyed_candidates: "listSupplyCandidatesLocked keyed_store ResourceClassStable ''m'' = [sample_candidate]"
  by (simp add: listSupplyCandidatesLocked_def candidatesOfPool_def keyed_defs funded_rest poolServes_def sample_pool_def
      containsModel_def channelServes_def activeOnChannel_def sample_channel_def sample_endpoint_def IsInventoryReady_def
      sample_candidate_def Let_def)

definition sample_reservation :: WalletReservation where
  "sample_reservation = newReservation (mkID ''wres'' 1) sample_key sample_candidate ''q1'' ''USD'' 1000000 5"

definition sample_usage :: SupplyUsageRecord where
  "sample_usage = newUsage (mkID ''usage'' 1) (mkID ''wres'' 1) sample_key sample_candidate ''q1'' ''m'' 1000000 5"

lemma keyed_wallet: "wal_AvailableMicros (walletAt keyed_store (walletMapKey 7 ''USD'')) = 5000000"
  using funded_values(1) keyed_views(1) by (simp add: available_def)

lemma keyed_usage_seq: "seq keyed_store ''usage'' = 0"
  by (simp add: keyed_defs funded_store_def sample_defs AdjustWalletBalance_def creditWallet_def wrap64_def)

lemma sample_reserve:
  "ReserveSupplyRequest (\<lambda>_. 5) None ''th'' ''q1'' ''m'' ''USD'' [] keyed_store =
     (let (res, s) = reserveCommit sample_key sample_candidate ''q1'' ''m'' ''USD'' 1000000 5 keyed_store in (Inr res, s))"
proof -
  have "keyByHash keyed_store ''th'' = Some sample_key" "eligibleUser keyed_store 7 = Some sample_user"
    by (simp_all add: keyByHash_def keyed_views sample_key_def eligibleUser_def sample_user_def clientOrAdmin_def)
  moreover have "eligibleCandidates keyed_store sample_key ''m'' [] = [sample_candidate]"
    by (simp add: eligibleCandidates_def sample_key_def keyed_candidates)
       (simp add: sample_candidate_def sample_pool_def)
  moreover have "vk_Enabled sample_key" "\<not> keyExpired sample_key 5" "containsModel (vk_Models sample_key) ''m''"
    "vk_UserID sample_key = 7" "vk_ExpiresAt sample_key = None" "vk_DailyLimitMicros sample_key = 0" "vk_InstanceID sample_key = ''''"
    "user_PlatformConcurrency sample_user = 0" "user_PlatformRPM sample_user = 0"
    "cand_Endpoint sample_candidate = sample_endpoint"
    "ep_Currency sample_endpoint = ''USD''" "ep_MaxRequestMicros sample_endpoint = 1000000"
    by (simp_all add: sample_key_def keyExpired_def containsModel_def sample_user_def sample_candidate_def sample_endpoint_def)
  moreover have "TrimSpace ''th'' = ''th''" "TrimSpace ''q1'' = ''q1''" "TrimSpace ''m'' = ''m''"
    by (simp_all add: TrimSpace_plain plain_def)
  ultimately show ?thesis
    by (simp add: ReserveSupplyRequest_def keyed_views reserveNew_def reserveWith_def budgetsAt_def keyed_wallet spentToday_def
        Let_def rankSupplyCandidatesLocked_def)
qed

lemma reserved_run:
  obtains res where "ReserveSupplyRequest (\<lambda>_. 5) None ''th'' ''q1'' ''m'' ''USD'' [] keyed_store = (Inr res, reserved_store)"
    "reserveCommit sample_key sample_candidate ''q1'' ''m'' ''USD'' 1000000 5 keyed_store = (res, reserved_store)"
proof -
  obtain res t where c: "reserveCommit sample_key sample_candidate ''q1'' ''m'' ''USD'' 1000000 5 keyed_store = (res, t)"
    by (cases "reserveCommit sample_key sample_candidate ''q1'' ''m'' ''USD'' 1000000 5 keyed_store")
  moreover have "t = reserved_store" unfolding reserved_store_def sample_reserve by (simp add: c)
  ultimately show thesis using that sample_reserve by simp
qed

lemma reserved_views:
  "walletReservations reserved_store = [(mkID ''wres'' 1, sample_reservation)]"
  "supplyUsage reserved_store = [(mkID ''wres'' 1, sample_usage)]"
  "available reserved_store (walletMapKey 7 ''USD'') = 4000000"
  "reserved reserved_store (walletMapKey 7 ''USD'') = 1000000"
proof -
  obtain res where c: "reserveCommit sample_key sample_candidate ''q1'' ''m'' ''USD'' 1000000 5 keyed_store = (res, reserved_store)"
    by (rule reserved_run)
  note st = reserveCommit_store [OF c]
  show "walletReservations reserved_store = [(mkID ''wres'' 1, sample_reservation)]"
    "supplyUsage reserved_store = [(mkID ''wres'' 1, sample_usage)]"
    using st(1,2) by (simp_all add: keyed_views keyed_usage_seq sample_reservation_def sample_usage_def)
  have r0: "reserved keyed_store (walletMapKey 7 ''USD'') = 0"
    by (simp add: reserved_def walletAt_def keyed_views)
       (simp add: funded_store_def sample_defs AdjustWalletBalance_def creditWallet_def wrap64_def)
  have "vk_UserID sample_key = 7" by (simp add: sample_key_def)
  then show "available reserved_store (walletMapKey 7 ''USD'') = 4000000"
    "reserved reserved_store (walletMapKey 7 ''USD'') = 1000000"
    using keyed_wallet r0
    by (simp_all add: available_def reserved_def walletAt_def [of reserved_store] st(6) moveWallet_def Let_def update_conv wrap64_def)
qed

text \<open>A retry of a request whose own hold fills the channel: the replay looks its channel up among
  the candidates, from which the hold has removed it.\<close>

lemma reserved_lookups:
  "keyByHash reserved_store ''th'' = Some (sample_key\<lparr>vk_LastUsedAt := Some 5, vk_UpdatedAt := 5\<rparr>)"
  "users reserved_store = [sample_user]" "supplyEndpoints reserved_store = [(''c1'', sample_endpoint)]"
proof -
  obtain res where c: "reserveCommit sample_key sample_candidate ''q1'' ''m'' ''USD'' 1000000 5 keyed_store = (res, reserved_store)"
    by (rule reserved_run)
  note st = reserveCommit_store [OF c]
  have k: "vk_ID sample_key = ''k1''" "vk_TokenHash sample_key = ''th''" by (simp_all add: sample_key_def)
  show "keyByHash reserved_store ''th'' = Some (sample_key\<lparr>vk_LastUsedAt := Some 5, vk_UpdatedAt := 5\<rparr>)"
    by (simp add: keyByHash_def st(13) keyed_views k)
  show "supplyEndpoints reserved_store = [(''c1'', sample_endpoint)]" using st(7) by (simp add: keyed_defs)
  show "users reserved_store = [sample_user]"
    using arg_cong [OF c, of "\<lambda>x. users (snd x)"] keyed_views(6)
    by (simp add: reserveCommit_def nextID_def putKey_def moveWallet_def appendWalletJournalLocked_def Let_def split_def)
qed

lemma retried_request_conflicts:
  "ReserveSupplyRequest (\<lambda>_. 5) None ''th'' ''q1'' ''m'' ''USD'' [] reserved_store = (Inl ErrConflict, reserved_store)"
proof -
  let ?key = "sample_key\<lparr>vk_LastUsedAt := Some 5, vk_UpdatedAt := 5\<rparr>"
  have r: "wres_ChannelID sample_reservation = ''c1''" "wres_Status sample_reservation = WalletReservationActive"
    "wres_VirtualKeyID sample_reservation = ''k1''" "wres_RequestID sample_reservation = ''q1''"
    by (simp_all add: sample_reservation_def newReservation_def sample_candidate_def sample_channel_def sample_key_def)
  have "supplyCandidateByChannelLocked reserved_store ResourceClassStable ''m'' ''c1'' = None"
  proof (rule ccontr)
    assume "supplyCandidateByChannelLocked reserved_store ResourceClassStable ''m'' ''c1'' \<noteq> None"
    then obtain x where x: "x \<in> set (listSupplyCandidatesLocked reserved_store ResourceClassStable ''m'')" "chan_ID (cand_Channel x) = ''c1''"
      by (auto simp: supplyCandidateByChannelLocked_def find_Some_iff dest: nth_mem)
    note ci = candidate_in [OF x(1)]
    have "cand_Endpoint x = sample_endpoint" using ci(4) x(2) reserved_lookups(3) by simp
    moreover have "activeOnChannel reserved_store ''c1'' = 1" using r by (simp add: activeOnChannel_def reserved_views)
    ultimately show False using ci x(2) by (auto simp: sample_endpoint_def)
  qed
  moreover have "vk_Enabled ?key" "\<not> keyExpired ?key 5" "containsModel (vk_Models ?key) ''m''" "vk_UserID ?key = 7" "vk_ID ?key = ''k1''"
    "vk_ResourceClass ?key = ResourceClassStable" "vk_ExpiresAt ?key = None"
    by (simp_all add: sample_key_def keyExpired_def containsModel_def)
  moreover have "eligibleUser reserved_store 7 = Some sample_user"
    by (simp add: eligibleUser_def reserved_lookups sample_user_def clientOrAdmin_def userHasRole_def)
  moreover have "TrimSpace ''th'' = ''th''" "TrimSpace ''q1'' = ''q1''" "TrimSpace ''m'' = ''m''"
    by (simp_all add: TrimSpace_plain plain_def)
  ultimately show ?thesis using r by (simp add: ReserveSupplyRequest_def reserved_lookups reserved_views Let_def)
qed

definition sample_telemetry :: SupplyTelemetry where
  "sample_telemetry = \<lparr>tel_FirstTokenMS = 100, tel_DurationMS = 900, tel_Outcome = SupplyOutcomeSuccess\<rparr>"

definition settled_store :: MemoryStore where
  "settled_store = snd (SettleSupplyRequest (\<lambda>_. 6) None (mkID ''wres'' 1) 10 20 sample_telemetry reserved_store)"

lemma sample_prices:
  "usage_InputPriceMicrosPerMillion (usageAt reserved_store (mkID ''wres'' 1)) = 2000000"
  "usage_OutputPriceMicrosPerMillion (usageAt reserved_store (mkID ''wres'' 1)) = 8000000"
  "usage_InputSupplierMicrosPerMillion (usageAt reserved_store (mkID ''wres'' 1)) = 1000000"
  "usage_OutputSupplierMicrosPerMillion (usageAt reserved_store (mkID ''wres'' 1)) = 4000000"
  by (simp_all add: usageAt_def reserved_views sample_usage_def newUsage_def sample_candidate_def sample_endpoint_def)

lemma sample_fits: "charge_fits (usageAt reserved_store (mkID ''wres'' 1)) 10 20"
  unfolding charge_fits_def sample_prices by simp

lemma exact_settled: "reach store_init exact_step settled_store"
  unfolding settled_store_def
  by (rule reach_step [OF exact_reserved], rule exact_settle, rule prod.collapse [symmetric], rule sample_fits)

lemma settled_run:
  "\<exists>res. settleSupplyLocked (\<lambda>_. 6) (mkID ''wres'' 1) 10 20 False False ''metered'' sample_telemetry reserved_store =
     (Inr res, settled_store)"
proof -
  have "wres_Status sample_reservation = WalletReservationActive" by (simp add: sample_reservation_def newReservation_def)
  moreover have "settleFigures sample_reservation (usageAt reserved_store (mkID ''wres'' 1)) 10 20 False False = Some (180, 90)"
    unfolding settleFigures_def sample_prices by (simp add: tokenCharge_def wrap64_def signed_divide_int_def)
  ultimately show ?thesis
    unfolding settled_store_def SettleSupplyRequest_def settleSupplyLocked_def reserved_views
    by (simp del: One_nat_def add: Let_def split_def)
qed

lemma redeemed_run:
  obtains x w where "RedeemBalanceCode (\<lambda>_. 2) None ''h'' 7 2 coded_store = (Inr (x, w), redeemed_store)"
proof -
  have "\<exists>x w. fst (RedeemBalanceCode (\<lambda>_. 2) None ''h'' 7 2 coded_store) = Inr (x, w)"
    by (simp add: coded_store_def sample_defs sample_code_def CreateRedeemCodes_def
      normalizeRedeemCodeForCreate_def RedeemCodeType_Valid_def nextID_def RedeemBalanceCode_def codeExpired_def)
  then show thesis using that unfolding redeemed_store_def by (metis prod.collapse)
qed

definition sample_filter :: PaymentOrderFilter where
  "sample_filter = \<lparr>pof_Page = 1, pof_PageSize = 1, pof_Status = PaymentOrderStatusOther '''',
     pof_PaymentType = '''', pof_OrderType = PaymentOrderTypeOther '''', pof_UserID = 0, pof_ProviderInstanceID = '''',
     pof_Keyword = '''', pof_StartCreatedAt = None, pof_EndCreatedAt = None\<rparr>"

text \<open>All of these are runs of the unrestricted store as well.\<close>

lemmas reach_sample = reach_exact [OF exact_sample]
lemmas reach_funded = reach_exact [OF exact_funded]
lemmas reach_redeemed = reach_exact [OF exact_redeemed]
lemmas reach_ordered = reach_exact [OF exact_ordered]
lemmas reach_paid = reach_exact [OF exact_paid]
lemmas reach_keyed = reach_exact [OF exact_keyed]
lemmas reach_reserved = reach_exact [OF exact_reserved]
lemmas reach_settled = reach_exact [OF exact_settled]

lemma reserved_held: "held reserved_store (walletMapKey 7 ''USD'') = 1000000"
proof -
  have "wres_Status sample_reservation = WalletReservationActive" "wres_UserID sample_reservation = 7"
    "wres_Currency sample_reservation = ''USD''" "wres_ReservedMicros sample_reservation = 1000000"
    by (simp_all add: sample_reservation_def newReservation_def sample_key_def)
  then show ?thesis by (simp add: held_def reserved_views hold_on_def)
qed

lemma settled_posts:
  "posts_for WalletJournalSettle settled_store i = posts_for WalletJournalSettle reserved_store i + of_bool (i = mkID ''wres'' 1)"
  "posts_for WalletJournalRelease settled_store i = posts_for WalletJournalRelease reserved_store i + of_bool (i = mkID ''wres'' 1)"
proof -
  have r: "wres_UserID sample_reservation = 7" "wres_Currency sample_reservation = ''USD''" "wres_ReservedMicros sample_reservation = 1000000"
    "wres_ID sample_reservation = mkID ''wres'' 1" "wres_Status sample_reservation = WalletReservationActive"
    by (simp_all add: sample_reservation_def newReservation_def sample_key_def)
  have "settleFigures sample_reservation (usageAt reserved_store (mkID ''wres'' 1)) 10 20 False False = Some (180, 90)"
    unfolding settleFigures_def sample_prices by (simp add: tokenCharge_def wrap64_def signed_divide_int_def)
  then obtain res where "settleCommit sample_reservation (usageAt reserved_store (mkID ''wres'' 1)) 180 90 10 20 False ''metered''
      sample_telemetry 6 reserved_store = (res, settled_store)"
    using r unfolding settled_store_def SettleSupplyRequest_def settleSupplyLocked_def reserved_views
    by (simp del: One_nat_def add: Let_def split_def) (metis prod.collapse)
  note st = settleCommit_store(11) [OF this]
  show "posts_for WalletJournalSettle settled_store i = posts_for WalletJournalSettle reserved_store i + of_bool (i = mkID ''wres'' 1)"
    "posts_for WalletJournalRelease settled_store i = posts_for WalletJournalRelease reserved_store i + of_bool (i = mkID ''wres'' 1)"
    unfolding posts_for_def st by (simp_all add: settleJournals_def Let_def r wrap64_def del: One_nat_def)
qed

section \<open>A run whose books are wrong\<close>

text \<open>The gateway reports 9223372036855 prompt and 4000000000000 completion tokens. Both products with
  the prices wrap around, the charge is negative, and its check against the supplier's part does not
  notice. The client is credited 4893488147417 micros, and the journal's reserved account no longer says
  what the wallet does.\<close>

definition overflow_store :: MemoryStore where
  "overflow_store = snd (SettleSupplyRequest (\<lambda>_. 6) None (mkID ''wres'' 1) 9223372036855 4000000000000 sample_telemetry reserved_store)"

lemma reach_overflow: "reach store_init store_step overflow_store"
  unfolding overflow_store_def
  by (rule reach_step [OF reach_reserved], rule store_step.settle, rule prod.collapse [symmetric])

lemma overflow_run:
  "\<exists>res. settleCommit sample_reservation (usageAt reserved_store (mkID ''wres'' 1)) (- 4893488147417) (- 11670116110561)
     9223372036855 4000000000000 False ''metered'' sample_telemetry 6 reserved_store = (res, overflow_store)"
proof -
  have "wres_Status sample_reservation = WalletReservationActive" by (simp add: sample_reservation_def newReservation_def)
  moreover have "settleFigures sample_reservation (usageAt reserved_store (mkID ''wres'' 1)) 9223372036855 4000000000000 False False =
      Some (- 4893488147417, - 11670116110561)"
    unfolding settleFigures_def sample_prices by (simp add: tokenCharge_def wrap64_def signed_divide_int_def)
  ultimately show ?thesis
    unfolding overflow_store_def SettleSupplyRequest_def settleSupplyLocked_def reserved_views
    by (simp del: One_nat_def add: Let_def split_def) (metis prod.collapse)
qed

lemma overflow_breaks_books:
  "reach store_init store_step overflow_store"
  "available overflow_store (walletMapKey 7 ''USD'') = 4000000 + 1000000 + 4893488147417"
  "reserved overflow_store (walletMapKey 7 ''USD'') = 0"
  "wrap64 (acct_balance WalletAccountUserReserved overflow_store (walletMapKey 7 ''USD'')) = - 4893488147417"
proof -
  let ?k = "walletMapKey 7 ''USD''"
  obtain res where c: "settleCommit sample_reservation (usageAt reserved_store (mkID ''wres'' 1)) (- 4893488147417) (- 11670116110561)
     9223372036855 4000000000000 False ''metered'' sample_telemetry 6 reserved_store = (res, overflow_store)"
    using overflow_run by blast
  note st = settleCommit_store [OF c]
  have r: "wres_UserID sample_reservation = 7" "wres_Currency sample_reservation = ''USD''" "wres_ReservedMicros sample_reservation = 1000000"
    by (simp_all add: sample_reservation_def newReservation_def sample_key_def)
  show "reach store_init store_step overflow_store" by (rule reach_overflow)
  show "available overflow_store ?k = 4000000 + 1000000 + 4893488147417" "reserved overflow_store ?k = 0"
    using reserved_views(3,4)
    by (simp_all add: available_def reserved_def walletAt_def [of overflow_store] st(3) r update_conv settleWallet_def wrap64_def)
  have "walletJournals overflow_store = walletJournals reserved_store @ [fst (appendWalletJournalLocked 7 WalletJournalRelease ''USD''
      4893489147417 (''settle-release:'' @ wres_ID sample_reservation) ''supply_reservation'' (wres_ID sample_reservation)
      WalletAccountUserReserved WalletAccountUserAvailable 6
      (recordSupplyChannelStatsLocked (usage_ChannelID (usageAt reserved_store (mkID ''wres'' 1))) sample_telemetry 6 reserved_store))]"
    unfolding st(11) by (simp add: settleJournals_def Let_def r wrap64_def del: One_nat_def)
  then have "acct_balance WalletAccountUserReserved overflow_store ?k = acct_balance WalletAccountUserReserved reserved_store ?k - 4893489147417"
    by (simp add: acct_balance_append)
  moreover have "wrap64 (acct_balance WalletAccountUserReserved reserved_store ?k) = 1000000"
    using resv.reach_agree [OF exact_reserved, of ?k] reserved_views(4) by simp
  ultimately have "wrap64 (acct_balance WalletAccountUserReserved overflow_store ?k) = wrap64 (1000000 - 4893489147417)"
    by (metis wrap64_diff_left)
  then show "wrap64 (acct_balance WalletAccountUserReserved overflow_store ?k) = - 4893488147417" by (simp add: wrap64_def)
qed

end
