(* ===== verification/Rollout_Machine.thy ===== *)
theory Rollout_Machine
  imports E2M_Prelude
begin

text \<open>
  The staged traffic rollout of a cost recommendation:
  \<open>packages/e2m-contracts/recommendation_rollout.go\<close> (the data),
  \<open>recommendationrollout/state_machine.go\<close> (the machine \<open>Advance\<close>) and
  \<open>recommendationrollout/stages.go\<close> (the integer weights a stage moves).

  A named Go string type that the code sorts is a datatype around the string with the order
  of the string (\<open>RecommendationRolloutGateKind\<close>, \<open>RecommendationRolloutBlockReason\<close>); the
  other string enumerations have one constructor per constant and one for every other
  string. The closure \<open>addReason\<close> appends to the decision's reasons: a function that is
  given it here takes and returns the reasons. \<open>Time.UTC\<close> keeps the instant.

  The lemmas show which events expand traffic and on what evidence, that the identity of a
  rollout is fixed, which transitions keep \<open>validState\<close>, and that the happy path completes.
\<close>

section \<open>Data\<close>

type_synonym RecommendationRolloutStage = int

abbreviation (input) RecommendationRolloutStageNone :: RecommendationRolloutStage where
  "RecommendationRolloutStageNone \<equiv> 0"
abbreviation (input) RecommendationRolloutStage10 :: RecommendationRolloutStage where
  "RecommendationRolloutStage10 \<equiv> 10"
abbreviation (input) RecommendationRolloutStage25 :: RecommendationRolloutStage where
  "RecommendationRolloutStage25 \<equiv> 25"
abbreviation (input) RecommendationRolloutStage50 :: RecommendationRolloutStage where
  "RecommendationRolloutStage50 \<equiv> 50"
abbreviation (input) RecommendationRolloutStage100 :: RecommendationRolloutStage where
  "RecommendationRolloutStage100 \<equiv> 100"

definition IsRecommendationRolloutStage :: "RecommendationRolloutStage \<Rightarrow> bool" where
  "IsRecommendationRolloutStage v \<longleftrightarrow>
     v = RecommendationRolloutStageNone \<or> v = RecommendationRolloutStage10 \<or> v = RecommendationRolloutStage25 \<or>
     v = RecommendationRolloutStage50 \<or> v = RecommendationRolloutStage100"

datatype RecommendationRolloutStatus =
    RecommendationRolloutReady
  | RecommendationRolloutApplying
  | RecommendationRolloutObserving
  | RecommendationRolloutRollbackRequired
  | RecommendationRolloutCompleted
  | RecommendationRolloutRolledBack
  | RecommendationRolloutBlocked
  | RecommendationRolloutStatusOther string

fun IsRecommendationRolloutStatus :: "RecommendationRolloutStatus \<Rightarrow> bool" where
  "IsRecommendationRolloutStatus (RecommendationRolloutStatusOther _) = False"
| "IsRecommendationRolloutStatus _ = True"

datatype RecommendationRolloutGateKind = GateKind (gate_string: string)

abbreviation "RecommendationRolloutGateAuthorization \<equiv> GateKind ''authorization''"
abbreviation "RecommendationRolloutGateDryRun \<equiv> GateKind ''dry_run''"
abbreviation "RecommendationRolloutGatePrice \<equiv> GateKind ''price''"
abbreviation "RecommendationRolloutGateBalance \<equiv> GateKind ''balance''"
abbreviation "RecommendationRolloutGateCapacity \<equiv> GateKind ''capacity''"
abbreviation "RecommendationRolloutGateQuality \<equiv> GateKind ''quality''"
abbreviation "RecommendationRolloutGateLifecycle \<equiv> GateKind ''lifecycle''"
abbreviation "RecommendationRolloutGateMaintenance \<equiv> GateKind ''maintenance''"
abbreviation "RecommendationRolloutGateCallability \<equiv> GateKind ''callability''"

instantiation RecommendationRolloutGateKind :: linorder
begin

definition less_eq_RecommendationRolloutGateKind :: "RecommendationRolloutGateKind \<Rightarrow> RecommendationRolloutGateKind \<Rightarrow> bool" where
  "less_eq_RecommendationRolloutGateKind x y \<longleftrightarrow> gate_string x \<le> gate_string y"

definition less_RecommendationRolloutGateKind :: "RecommendationRolloutGateKind \<Rightarrow> RecommendationRolloutGateKind \<Rightarrow> bool" where
  "less_RecommendationRolloutGateKind x y \<longleftrightarrow> gate_string x < gate_string y"

instance
  by standard (auto simp: less_eq_RecommendationRolloutGateKind_def less_RecommendationRolloutGateKind_def
      RecommendationRolloutGateKind.expand)

end

definition RecommendationRolloutRequiredGates :: "RecommendationRolloutGateKind list" where
  "RecommendationRolloutRequiredGates =
     [RecommendationRolloutGateAuthorization, RecommendationRolloutGateDryRun, RecommendationRolloutGatePrice,
      RecommendationRolloutGateBalance, RecommendationRolloutGateCapacity, RecommendationRolloutGateQuality,
      RecommendationRolloutGateLifecycle, RecommendationRolloutGateMaintenance, RecommendationRolloutGateCallability]"

definition IsRecommendationRolloutGateKind :: "RecommendationRolloutGateKind \<Rightarrow> bool" where
  "IsRecommendationRolloutGateKind v \<longleftrightarrow> v \<in> set RecommendationRolloutRequiredGates"

datatype RecommendationRolloutGateStatus =
    RecommendationRolloutGatePassed
  | RecommendationRolloutGateBlocked
  | RecommendationRolloutGateUnknown
  | RecommendationRolloutGateStatusOther string

definition IsRecommendationRolloutGateStatus :: "RecommendationRolloutGateStatus \<Rightarrow> bool" where
  "IsRecommendationRolloutGateStatus v \<longleftrightarrow>
     v = RecommendationRolloutGatePassed \<or> v = RecommendationRolloutGateBlocked \<or> v = RecommendationRolloutGateUnknown"

record RecommendationRolloutGate =
  gate_Kind :: RecommendationRolloutGateKind
  gate_Status :: RecommendationRolloutGateStatus
  gate_ReasonCode :: string

record RecommendationRolloutRevalidation =
  rv_UserID :: int64
  rv_PlanID :: string
  rv_RecommendationID :: string
  rv_RecommendationFingerprint :: string
  rv_FactVersion :: int64
  rv_EvidenceIDs :: "string list"
  rv_EvidenceObservedAt :: time
  rv_EvidenceFreshUntil :: time
  rv_RecommendationExpiresAt :: time
  rv_SchedulingGeneration :: int64
  rv_Gates :: "RecommendationRolloutGate list"

record RecommendationRolloutAfterEvidence =
  ae_Stage :: RecommendationRolloutStage
  ae_RecommendationFingerprint :: string
  ae_BaselineFingerprint :: string
  ae_SchedulingGeneration :: int64
  ae_EvidenceIDs :: "string list"
  ae_ObservedAt :: time
  ae_FreshUntil :: time
  ae_Callability :: RecommendationRolloutGateStatus
  ae_Quality :: RecommendationRolloutGateStatus

datatype RecommendationRolloutBlockReason = BlockReason (reason_string: string)

abbreviation "RecommendationRolloutBlockedInvalidState \<equiv> BlockReason ''invalid_state''"
abbreviation "RecommendationRolloutBlockedInvalidEvent \<equiv> BlockReason ''invalid_event''"
abbreviation "RecommendationRolloutBlockedOwnerScope \<equiv> BlockReason ''owner_scope_mismatch''"
abbreviation "RecommendationRolloutBlockedRecommendationExpired \<equiv> BlockReason ''recommendation_expired''"
abbreviation "RecommendationRolloutBlockedFingerprintChanged \<equiv> BlockReason ''fingerprint_changed''"
abbreviation "RecommendationRolloutBlockedFactVersionChanged \<equiv> BlockReason ''fact_version_changed''"
abbreviation "RecommendationRolloutBlockedEvidenceChanged \<equiv> BlockReason ''evidence_changed''"
abbreviation "RecommendationRolloutBlockedEvidenceStale \<equiv> BlockReason ''evidence_stale''"
abbreviation "RecommendationRolloutBlockedGenerationChanged \<equiv> BlockReason ''generation_changed''"
abbreviation "RecommendationRolloutBlockedMissingGate \<equiv> BlockReason ''missing_gate''"
abbreviation "RecommendationRolloutBlockedDuplicateGate \<equiv> BlockReason ''duplicate_gate''"
abbreviation "RecommendationRolloutBlockedGate \<equiv> BlockReason ''gate_blocked''"
abbreviation "RecommendationRolloutBlockedUnknownGate \<equiv> BlockReason ''gate_unknown''"
abbreviation "RecommendationRolloutBlockedStageMismatch \<equiv> BlockReason ''stage_mismatch''"
abbreviation "RecommendationRolloutBlockedApplyFailed \<equiv> BlockReason ''apply_failed''"
abbreviation "RecommendationRolloutBlockedAfterEvidence \<equiv> BlockReason ''after_evidence_invalid''"
abbreviation "RecommendationRolloutBlockedCallability \<equiv> BlockReason ''callability_failed''"
abbreviation "RecommendationRolloutBlockedQuality \<equiv> BlockReason ''quality_failed''"
abbreviation "RecommendationRolloutBlockedRollbackFailed \<equiv> BlockReason ''rollback_failed''"

instantiation RecommendationRolloutBlockReason :: linorder
begin

definition less_eq_RecommendationRolloutBlockReason :: "RecommendationRolloutBlockReason \<Rightarrow> RecommendationRolloutBlockReason \<Rightarrow> bool" where
  "less_eq_RecommendationRolloutBlockReason x y \<longleftrightarrow> reason_string x \<le> reason_string y"

definition less_RecommendationRolloutBlockReason :: "RecommendationRolloutBlockReason \<Rightarrow> RecommendationRolloutBlockReason \<Rightarrow> bool" where
  "less_RecommendationRolloutBlockReason x y \<longleftrightarrow> reason_string x < reason_string y"

instance
  by standard (auto simp: less_eq_RecommendationRolloutBlockReason_def less_RecommendationRolloutBlockReason_def
      RecommendationRolloutBlockReason.expand)

end

record RecommendationRolloutState =
  ro_ID :: string
  ro_UserID :: int64
  ro_PlanID :: string
  ro_RecommendationID :: string
  ro_RecommendationFingerprint :: string
  ro_FactVersion :: int64
  ro_EvidenceIDs :: "string list"
  ro_BaselineFingerprint :: string
  ro_SchedulingGeneration :: int64
  ro_Status :: RecommendationRolloutStatus
  ro_Stage :: RecommendationRolloutStage
  ro_PendingStage :: RecommendationRolloutStage
  ro_ObservationSeconds :: int
  ro_RecommendationExpiresAt :: time
  ro_StartedAt :: time
  ro_StageStartedAt :: "time option"
  ro_ObserveUntil :: "time option"
  ro_LastAfterEvidence :: "RecommendationRolloutAfterEvidence option"
  ro_RollbackReasons :: "RecommendationRolloutBlockReason list"
  ro_UpdatedAt :: time

datatype RecommendationRolloutEventType =
    RecommendationRolloutEventEvaluate
  | RecommendationRolloutEventStageApplied
  | RecommendationRolloutEventStageApplyFailed
  | RecommendationRolloutEventObserve
  | RecommendationRolloutEventRetryRollback
  | RecommendationRolloutEventRollbackApplied
  | RecommendationRolloutEventRollbackFailed
  | RecommendationRolloutEventOther string

fun IsRecommendationRolloutEventType :: "RecommendationRolloutEventType \<Rightarrow> bool" where
  "IsRecommendationRolloutEventType (RecommendationRolloutEventOther _) = False"
| "IsRecommendationRolloutEventType _ = True"

record RecommendationRolloutEvent =
  ev_Type :: RecommendationRolloutEventType
  ev_UserID :: int64
  ev_PlanID :: string
  ev_RecommendationID :: string
  ev_Now :: time
  ev_AppliedStage :: RecommendationRolloutStage
  ev_RecommendationFingerprint :: string
  ev_FactVersion :: int64
  ev_SchedulingGeneration :: int64
  ev_Revalidation :: "RecommendationRolloutRevalidation option"
  ev_AfterEvidence :: "RecommendationRolloutAfterEvidence option"

datatype RecommendationRolloutActionKind =
    RecommendationRolloutActionNone
  | RecommendationRolloutActionApplyStage
  | RecommendationRolloutActionPlanRollback

record RecommendationRolloutAction =
  act_Kind :: RecommendationRolloutActionKind
  act_TargetStage :: RecommendationRolloutStage
  act_ExpectedSchedulingGeneration :: int64
  act_RecommendationFingerprint :: string
  act_BaselineFingerprint :: string

record RecommendationRolloutDecision =
  dcn_State :: RecommendationRolloutState
  dcn_Action :: RecommendationRolloutAction
  dcn_Reasons :: "RecommendationRolloutBlockReason list"
  dcn_FailedGates :: "RecommendationRolloutGateKind list"

section \<open>The machine\<close>

definition maxObservationSeconds :: int where
  "maxObservationSeconds = 7 * 24 * 60 * 60"

definition addReason :: "RecommendationRolloutBlockReason \<Rightarrow> RecommendationRolloutBlockReason list \<Rightarrow>
    RecommendationRolloutBlockReason list" where
  "addReason reason rs = (if reason \<in> set rs then rs else rs @ [reason])"

definition addReason_if :: "bool \<Rightarrow> RecommendationRolloutBlockReason \<Rightarrow> RecommendationRolloutBlockReason list \<Rightarrow>
    RecommendationRolloutBlockReason list" where
  "addReason_if c reason rs = (if c then addReason reason rs else rs)"

definition add :: "RecommendationRolloutBlockReason \<Rightarrow> RecommendationRolloutDecision \<Rightarrow> RecommendationRolloutDecision" where
  "add reason d = d\<lparr>dcn_Reasons := addReason reason (dcn_Reasons d)\<rparr>"

definition nextStage :: "RecommendationRolloutStage \<Rightarrow> RecommendationRolloutStage" where
  "nextStage current =
     (if current = RecommendationRolloutStageNone then RecommendationRolloutStage10
      else if current = RecommendationRolloutStage10 then RecommendationRolloutStage25
      else if current = RecommendationRolloutStage25 then RecommendationRolloutStage50
      else if current = RecommendationRolloutStage50 then RecommendationRolloutStage100
      else RecommendationRolloutStageNone)"

definition freshWindow :: "time \<Rightarrow> time \<Rightarrow> time \<Rightarrow> bool" where
  "freshWindow observedAt freshUntil now \<longleftrightarrow>
     \<not> IsZero now \<and> \<not> IsZero observedAt \<and> \<not> IsZero freshUntil \<and> \<not> freshUntil < observedAt \<and>
     \<not> now < observedAt \<and> now < freshUntil"

text \<open>The loop of \<open>normalizeIDs\<close> keeps the first of equal trimmed values; \<open>sort.Strings\<close> follows.\<close>

fun normalizeIDs_loop :: "string list \<Rightarrow> string list \<Rightarrow> string list" where
  "normalizeIDs_loop result [] = result"
| "normalizeIDs_loop result (value # values) =
     (let v = TrimSpace value in
      if v = [] \<or> v \<in> set result then normalizeIDs_loop result values
      else normalizeIDs_loop (result @ [v]) values)"

definition normalizeIDs :: "string list \<Rightarrow> string list" where
  "normalizeIDs values = sort (normalizeIDs_loop [] values)"

definition sameIDs :: "string list \<Rightarrow> string list \<Rightarrow> bool" where
  "sameIDs left right =
     (let l = normalizeIDs left; r = normalizeIDs right in
      if length l \<noteq> length r \<or> length l \<noteq> length left \<or> length r \<noteq> length right then False
      else l = r)"

fun uniqueGates_loop :: "RecommendationRolloutGateKind list \<Rightarrow> RecommendationRolloutGateKind list \<Rightarrow>
    RecommendationRolloutGateKind list" where
  "uniqueGates_loop result [] = result"
| "uniqueGates_loop result (value # values) =
     (if result = [] \<or> last result \<noteq> value then uniqueGates_loop (result @ [value]) values
      else uniqueGates_loop result values)"

definition uniqueGates :: "RecommendationRolloutGateKind list \<Rightarrow> RecommendationRolloutGateKind list" where
  "uniqueGates values = uniqueGates_loop [] values"

definition appendUniqueReasons :: "RecommendationRolloutBlockReason list \<Rightarrow> RecommendationRolloutBlockReason list \<Rightarrow>
    RecommendationRolloutBlockReason list" where
  "appendUniqueReasons target values = sort (fold addReason values target)"

definition sortReasons :: "RecommendationRolloutDecision \<Rightarrow> RecommendationRolloutDecision" where
  "sortReasons d = d\<lparr>dcn_Reasons := sort (dcn_Reasons d)\<rparr>"

definition stageAction :: "RecommendationRolloutState \<Rightarrow> RecommendationRolloutActionKind \<Rightarrow>
    RecommendationRolloutStage \<Rightarrow> RecommendationRolloutAction" where
  "stageAction state kind target =
     \<lparr>act_Kind = kind, act_TargetStage = target, act_ExpectedSchedulingGeneration = ro_SchedulingGeneration state,
      act_RecommendationFingerprint = ro_RecommendationFingerprint state, act_BaselineFingerprint = []\<rparr>"

definition rollbackAction :: "RecommendationRolloutState \<Rightarrow> RecommendationRolloutAction" where
  "rollbackAction state =
     (stageAction state RecommendationRolloutActionPlanRollback RecommendationRolloutStageNone)
       \<lparr>act_BaselineFingerprint := ro_BaselineFingerprint state\<rparr>"

definition block :: "RecommendationRolloutDecision \<Rightarrow> time \<Rightarrow> RecommendationRolloutDecision" where
  "block d now =
     (let s = (dcn_State d)\<lparr>ro_Status := RecommendationRolloutBlocked\<rparr>;
          s' = (if IsZero now then s else s\<lparr>ro_UpdatedAt := now\<rparr>) in
      sortReasons (d\<lparr>dcn_State := s'\<rparr>))"

definition rollbackRequired :: "RecommendationRolloutDecision \<Rightarrow> time \<Rightarrow> RecommendationRolloutDecision" where
  "rollbackRequired d now =
     (let s = (dcn_State d)\<lparr>ro_Status := RecommendationRolloutRollbackRequired,
                ro_PendingStage := RecommendationRolloutStageNone, ro_ObserveUntil := None,
                ro_RollbackReasons := appendUniqueReasons (ro_RollbackReasons (dcn_State d)) (dcn_Reasons d),
                ro_UpdatedAt := now\<rparr> in
      sortReasons (d\<lparr>dcn_State := s, dcn_Action := rollbackAction s\<rparr>))"

definition validEvent :: "RecommendationRolloutEvent \<Rightarrow> bool" where
  "validEvent event \<longleftrightarrow> IsRecommendationRolloutEventType (ev_Type event) \<and> 0 < ev_UserID event \<and>
     TrimSpace (ev_PlanID event) \<noteq> [] \<and> TrimSpace (ev_RecommendationID event) \<noteq> [] \<and> \<not> IsZero (ev_Now event)"

definition validIdentity :: "RecommendationRolloutState \<Rightarrow> bool" where
  "validIdentity state \<longleftrightarrow> \<not> (TrimSpace (ro_ID state) = [] \<or> ro_UserID state \<le> 0 \<or>
     TrimSpace (ro_PlanID state) = [] \<or> TrimSpace (ro_RecommendationID state) = [] \<or>
     TrimSpace (ro_RecommendationFingerprint state) = [] \<or> ro_FactVersion state \<le> 0 \<or>
     length (normalizeIDs (ro_EvidenceIDs state)) = 0 \<or> TrimSpace (ro_BaselineFingerprint state) = [] \<or>
     ro_SchedulingGeneration state \<le> 0 \<or> ro_ObservationSeconds state \<le> 0 \<or>
     ro_ObservationSeconds state > maxObservationSeconds \<or> IsZero (ro_RecommendationExpiresAt state) \<or>
     IsZero (ro_StartedAt state))"

definition validState :: "RecommendationRolloutState \<Rightarrow> bool" where
  "validState state \<longleftrightarrow>
     (if \<not> validIdentity state \<or> \<not> IsRecommendationRolloutStatus (ro_Status state) \<or>
         \<not> IsRecommendationRolloutStage (ro_Stage state) \<or> \<not> IsRecommendationRolloutStage (ro_PendingStage state)
      then False
      else case ro_Status state of
        RecommendationRolloutApplying \<Rightarrow>
          ro_PendingStage state = nextStage (ro_Stage state) \<and>
          ro_PendingStage state \<noteq> RecommendationRolloutStageNone \<and> ro_ObserveUntil state = None
      | RecommendationRolloutObserving \<Rightarrow>
          ro_PendingStage state = RecommendationRolloutStageNone \<and> ro_Stage state \<noteq> RecommendationRolloutStageNone \<and>
          (case (ro_StageStartedAt state, ro_ObserveUntil state) of
             (Some a, Some b) \<Rightarrow> a < b | _ \<Rightarrow> False)
      | RecommendationRolloutCompleted \<Rightarrow>
          ro_Stage state = RecommendationRolloutStage100 \<and> ro_PendingStage state = RecommendationRolloutStageNone
      | RecommendationRolloutRolledBack \<Rightarrow>
          ro_Stage state = RecommendationRolloutStageNone \<and> ro_PendingStage state = RecommendationRolloutStageNone
      | RecommendationRolloutRollbackRequired \<Rightarrow> ro_PendingStage state = RecommendationRolloutStageNone
      | RecommendationRolloutBlocked \<Rightarrow> ro_PendingStage state = RecommendationRolloutStageNone
      | RecommendationRolloutReady \<Rightarrow> ro_PendingStage state = RecommendationRolloutStageNone
      | RecommendationRolloutStatusOther _ \<Rightarrow> False)"

section \<open>Revalidation\<close>

text \<open>The loop over the gates: the kinds seen so far, the reasons and the failed kinds.\<close>

fun gates_loop :: "RecommendationRolloutGate list \<Rightarrow> RecommendationRolloutGateKind list \<Rightarrow>
    RecommendationRolloutBlockReason list \<Rightarrow> RecommendationRolloutGateKind list \<Rightarrow>
    RecommendationRolloutGateKind list \<times> RecommendationRolloutBlockReason list \<times> RecommendationRolloutGateKind list" where
  "gates_loop [] seen rs failed = (seen, rs, failed)"
| "gates_loop (gate # gates) seen rs failed =
     (if \<not> IsRecommendationRolloutGateKind (gate_Kind gate) \<or> \<not> IsRecommendationRolloutGateStatus (gate_Status gate) then
        gates_loop gates seen (addReason RecommendationRolloutBlockedUnknownGate rs) failed
      else if gate_Kind gate \<in> set seen then
        gates_loop gates seen (addReason RecommendationRolloutBlockedDuplicateGate rs) (failed @ [gate_Kind gate])
      else if gate_Status gate = RecommendationRolloutGateBlocked then
        gates_loop gates (gate_Kind gate # seen) (addReason RecommendationRolloutBlockedGate rs) (failed @ [gate_Kind gate])
      else if gate_Status gate = RecommendationRolloutGateUnknown then
        gates_loop gates (gate_Kind gate # seen) (addReason RecommendationRolloutBlockedUnknownGate rs) (failed @ [gate_Kind gate])
      else gates_loop gates (gate_Kind gate # seen) rs failed)"

fun required_loop :: "RecommendationRolloutGateKind list \<Rightarrow> RecommendationRolloutGateKind list \<Rightarrow>
    RecommendationRolloutBlockReason list \<Rightarrow> RecommendationRolloutGateKind list \<Rightarrow>
    RecommendationRolloutBlockReason list \<times> RecommendationRolloutGateKind list" where
  "required_loop [] seen rs failed = (rs, failed)"
| "required_loop (required # rest) seen rs failed =
     (if required \<notin> set seen then
        required_loop rest seen (addReason RecommendationRolloutBlockedMissingGate rs) (failed @ [required])
      else required_loop rest seen rs failed)"

definition revalidationBindings :: "RecommendationRolloutState \<Rightarrow> RecommendationRolloutRevalidation \<Rightarrow> time \<Rightarrow>
    RecommendationRolloutBlockReason list \<Rightarrow> RecommendationRolloutBlockReason list" where
  "revalidationBindings state v now =
     addReason_if (\<not> freshWindow (rv_EvidenceObservedAt v) (rv_EvidenceFreshUntil v) now)
       RecommendationRolloutBlockedEvidenceStale
     \<circ> addReason_if (IsZero (rv_RecommendationExpiresAt v) \<or> rv_RecommendationExpiresAt v \<noteq> ro_RecommendationExpiresAt state \<or>
         \<not> now < rv_RecommendationExpiresAt v) RecommendationRolloutBlockedRecommendationExpired
     \<circ> addReason_if (rv_SchedulingGeneration v \<noteq> ro_SchedulingGeneration state) RecommendationRolloutBlockedGenerationChanged
     \<circ> addReason_if (\<not> sameIDs (rv_EvidenceIDs v) (ro_EvidenceIDs state)) RecommendationRolloutBlockedEvidenceChanged
     \<circ> addReason_if (rv_FactVersion v \<noteq> ro_FactVersion state) RecommendationRolloutBlockedFactVersionChanged
     \<circ> addReason_if (rv_RecommendationFingerprint v \<noteq> ro_RecommendationFingerprint state)
         RecommendationRolloutBlockedFingerprintChanged
     \<circ> addReason_if (rv_UserID v \<noteq> ro_UserID state \<or> rv_PlanID v \<noteq> ro_PlanID state \<or>
         rv_RecommendationID v \<noteq> ro_RecommendationID state) RecommendationRolloutBlockedOwnerScope"

definition validateRevalidation :: "RecommendationRolloutState \<Rightarrow> RecommendationRolloutRevalidation option \<Rightarrow> time \<Rightarrow>
    RecommendationRolloutBlockReason list \<Rightarrow>
    RecommendationRolloutBlockReason list \<times> RecommendationRolloutGateKind list" where
  "validateRevalidation state value now rs =
     (case value of
        None \<Rightarrow> (addReason RecommendationRolloutBlockedMissingGate rs, RecommendationRolloutRequiredGates)
      | Some v \<Rightarrow>
          (let (seen, rs1, failed1) = gates_loop (rv_Gates v) [] (revalidationBindings state v now rs) [];
               (rs2, failed2) = required_loop RecommendationRolloutRequiredGates seen rs1 failed1
           in (rs2, uniqueGates (sort failed2))))"

definition eventIdentityMatches :: "RecommendationRolloutState \<Rightarrow> RecommendationRolloutEvent \<Rightarrow>
    RecommendationRolloutBlockReason list \<Rightarrow> bool \<times> RecommendationRolloutBlockReason list" where
  "eventIdentityMatches state event rs =
     (let f = (ev_RecommendationFingerprint event \<noteq> ro_RecommendationFingerprint state);
          v = (ev_FactVersion event \<noteq> ro_FactVersion state);
          g = (ev_SchedulingGeneration event \<noteq> ro_SchedulingGeneration state) in
      (\<not> (f \<or> v \<or> g),
       addReason_if g RecommendationRolloutBlockedGenerationChanged
         (addReason_if v RecommendationRolloutBlockedFactVersionChanged
           (addReason_if f RecommendationRolloutBlockedFingerprintChanged rs))))"

definition validAfterEvidence :: "RecommendationRolloutState \<Rightarrow> RecommendationRolloutAfterEvidence \<Rightarrow> time \<Rightarrow> bool" where
  "validAfterEvidence state after now \<longleftrightarrow>
     ae_Stage after = ro_Stage state \<and> ae_RecommendationFingerprint after = ro_RecommendationFingerprint state \<and>
     ae_SchedulingGeneration after = ro_SchedulingGeneration state \<and> length (normalizeIDs (ae_EvidenceIDs after)) > 0 \<and>
     IsRecommendationRolloutGateStatus (ae_Callability after) \<and> IsRecommendationRolloutGateStatus (ae_Quality after) \<and>
     freshWindow (ae_ObservedAt after) (ae_FreshUntil after) now"

definition validRollbackWeightSetEvidence :: "string list \<Rightarrow> string \<Rightarrow> bool" where
  "validRollbackWeightSetEvidence values fingerprint \<longleftrightarrow> values = [''weight-set-sha256:'' @ fingerprint]"

section \<open>The events\<close>

definition evaluate :: "RecommendationRolloutDecision \<Rightarrow> RecommendationRolloutEvent \<Rightarrow> RecommendationRolloutDecision" where
  "evaluate d event =
     (let state = dcn_State d; now = ev_Now event in
      if ro_Status state \<noteq> RecommendationRolloutReady then
        block (add RecommendationRolloutBlockedInvalidState d) now
      else
        let (rs, failedGates) = validateRevalidation state (ev_Revalidation event) now (dcn_Reasons d);
            d1 = d\<lparr>dcn_Reasons := rs, dcn_FailedGates := failedGates\<rparr> in
        if length rs > 0 then block d1 now
        else
          let target = nextStage (ro_Stage state) in
          if target = RecommendationRolloutStageNone then
            d1\<lparr>dcn_State := state\<lparr>ro_Status := RecommendationRolloutCompleted, ro_UpdatedAt := now\<rparr>\<rparr>
          else
            let s' = state\<lparr>ro_Status := RecommendationRolloutApplying, ro_PendingStage := target, ro_UpdatedAt := now\<rparr> in
            d1\<lparr>dcn_State := s', dcn_Action := stageAction s' RecommendationRolloutActionApplyStage target\<rparr>)"

definition stageApplied :: "RecommendationRolloutDecision \<Rightarrow> RecommendationRolloutEvent \<Rightarrow> RecommendationRolloutDecision" where
  "stageApplied d event =
     (let state = dcn_State d; now = ev_Now event in
      if ro_Status state \<noteq> RecommendationRolloutApplying \<or> ro_PendingStage state = RecommendationRolloutStageNone \<or>
         ev_AppliedStage event \<noteq> ro_PendingStage state then
        block (add RecommendationRolloutBlockedStageMismatch d) now
      else
        let (valid, rs) = eventIdentityMatches state event (dcn_Reasons d); d1 = d\<lparr>dcn_Reasons := rs\<rparr> in
        if \<not> valid then rollbackRequired d1 now
        else
          let observeUntil = now + wrap64 (ro_ObservationSeconds state * Second) in
          d1\<lparr>dcn_State := state\<lparr>ro_Stage := ro_PendingStage state, ro_PendingStage := RecommendationRolloutStageNone,
                ro_Status := RecommendationRolloutObserving, ro_StageStartedAt := Some now,
                ro_ObserveUntil := Some observeUntil, ro_UpdatedAt := now\<rparr>\<rparr>)"

definition stageApplyFailed :: "RecommendationRolloutDecision \<Rightarrow> RecommendationRolloutEvent \<Rightarrow> RecommendationRolloutDecision" where
  "stageApplyFailed d event =
     (let state = dcn_State d; now = ev_Now event in
      if ro_Status state \<noteq> RecommendationRolloutApplying \<or> ro_PendingStage state = RecommendationRolloutStageNone \<or>
         ev_AppliedStage event \<noteq> ro_PendingStage state then
        block (add RecommendationRolloutBlockedStageMismatch d) now
      else rollbackRequired (add RecommendationRolloutBlockedApplyFailed d) now)"

definition checkAfterEvidence :: "RecommendationRolloutAfterEvidence option \<Rightarrow> time \<Rightarrow>
    RecommendationRolloutDecision \<Rightarrow> RecommendationRolloutDecision" where
  "checkAfterEvidence after now d =
     (case after of
        None \<Rightarrow> add RecommendationRolloutBlockedAfterEvidence d
      | Some a \<Rightarrow>
          if \<not> validAfterEvidence (dcn_State d) a now then add RecommendationRolloutBlockedAfterEvidence d
          else d\<lparr>dcn_State := (dcn_State d)\<lparr>ro_LastAfterEvidence := Some a\<rparr>,
                 dcn_Reasons :=
                   addReason_if (ae_Quality a \<noteq> RecommendationRolloutGatePassed) RecommendationRolloutBlockedQuality
                     (addReason_if (ae_Callability a \<noteq> RecommendationRolloutGatePassed)
                        RecommendationRolloutBlockedCallability (dcn_Reasons d))\<rparr>)"

definition observe :: "RecommendationRolloutDecision \<Rightarrow> RecommendationRolloutEvent \<Rightarrow> RecommendationRolloutDecision" where
  "observe d event =
     (let state = dcn_State d; now = ev_Now event in
      if ro_Status state \<noteq> RecommendationRolloutObserving \<or> ro_ObserveUntil state = None \<or>
         ro_Stage state = RecommendationRolloutStageNone then
        block (add RecommendationRolloutBlockedInvalidState d) now
      else if now < the (ro_ObserveUntil state) then add RecommendationRolloutBlockedInvalidEvent d
      else
        let (rs, failed) = validateRevalidation state (ev_Revalidation event) now (dcn_Reasons d);
            d2 = checkAfterEvidence (ev_AfterEvidence event) now (d\<lparr>dcn_Reasons := rs, dcn_FailedGates := failed\<rparr>) in
        if length (dcn_Reasons d2) > 0 then rollbackRequired d2 now
        else d2\<lparr>dcn_State := (dcn_State d2)\<lparr>ro_ObserveUntil := None,
                 ro_Status := (if ro_Stage state = RecommendationRolloutStage100 then RecommendationRolloutCompleted
                               else RecommendationRolloutReady),
                 ro_UpdatedAt := now\<rparr>\<rparr>)"

definition retryRollback :: "RecommendationRolloutDecision \<Rightarrow> RecommendationRolloutEvent \<Rightarrow> RecommendationRolloutDecision" where
  "retryRollback d event =
     (if ro_Status (dcn_State d) \<noteq> RecommendationRolloutRollbackRequired then
        block (add RecommendationRolloutBlockedInvalidState d) (ev_Now event)
      else d\<lparr>dcn_Action := rollbackAction (dcn_State d), dcn_State := (dcn_State d)\<lparr>ro_UpdatedAt := ev_Now event\<rparr>\<rparr>)"

definition validRollbackEvidence :: "RecommendationRolloutState \<Rightarrow> RecommendationRolloutAfterEvidence \<Rightarrow> time \<Rightarrow> bool" where
  "validRollbackEvidence state after now \<longleftrightarrow>
     \<not> (ae_Stage after \<noteq> RecommendationRolloutStageNone \<or> ae_BaselineFingerprint after \<noteq> ro_BaselineFingerprint state \<or>
        ae_SchedulingGeneration after \<noteq> ro_SchedulingGeneration state \<or>
        ae_Callability after \<noteq> RecommendationRolloutGateUnknown \<or> ae_Quality after \<noteq> RecommendationRolloutGateUnknown \<or>
        \<not> freshWindow (ae_ObservedAt after) (ae_FreshUntil after) now \<or>
        \<not> validRollbackWeightSetEvidence (ae_EvidenceIDs after) (ro_BaselineFingerprint state))"

definition rollbackApplied :: "RecommendationRolloutDecision \<Rightarrow> RecommendationRolloutEvent \<Rightarrow> RecommendationRolloutDecision" where
  "rollbackApplied d event =
     (let state = dcn_State d; now = ev_Now event in
      if ro_Status state \<noteq> RecommendationRolloutRollbackRequired \<or> ev_AppliedStage event \<noteq> RecommendationRolloutStageNone \<or>
         ev_RecommendationFingerprint event \<noteq> ro_RecommendationFingerprint state \<or>
         ev_SchedulingGeneration event \<noteq> ro_SchedulingGeneration state then
        rollbackRequired (add RecommendationRolloutBlockedStageMismatch d) now
      else case ev_AfterEvidence event of
        None \<Rightarrow> rollbackRequired (add RecommendationRolloutBlockedAfterEvidence d) now
      | Some after \<Rightarrow>
          if \<not> validRollbackEvidence state after now then
            rollbackRequired (add RecommendationRolloutBlockedAfterEvidence d) now
          else d\<lparr>dcn_State := state\<lparr>ro_Stage := RecommendationRolloutStageNone,
                   ro_PendingStage := RecommendationRolloutStageNone, ro_Status := RecommendationRolloutRolledBack,
                   ro_StageStartedAt := None, ro_ObserveUntil := None, ro_LastAfterEvidence := Some after,
                   ro_UpdatedAt := now\<rparr>\<rparr>)"

definition rollbackFailed :: "RecommendationRolloutDecision \<Rightarrow> RecommendationRolloutEvent \<Rightarrow> RecommendationRolloutDecision" where
  "rollbackFailed d event =
     (if ro_Status (dcn_State d) \<noteq> RecommendationRolloutRollbackRequired then
        block (add RecommendationRolloutBlockedInvalidState d) (ev_Now event)
      else rollbackRequired (add RecommendationRolloutBlockedRollbackFailed d) (ev_Now event))"

definition initialDecision :: "RecommendationRolloutState \<Rightarrow> RecommendationRolloutDecision" where
  "initialDecision current =
     \<lparr>dcn_State = current,
      dcn_Action = \<lparr>act_Kind = RecommendationRolloutActionNone, act_TargetStage = 0,
        act_ExpectedSchedulingGeneration = 0, act_RecommendationFingerprint = [], act_BaselineFingerprint = []\<rparr>,
      dcn_Reasons = [], dcn_FailedGates = []\<rparr>"

definition sameOwner :: "RecommendationRolloutState \<Rightarrow> RecommendationRolloutEvent \<Rightarrow> bool" where
  "sameOwner current event \<longleftrightarrow> \<not> (ev_UserID event \<noteq> ro_UserID current \<or> ev_PlanID event \<noteq> ro_PlanID current \<or>
     ev_RecommendationID event \<noteq> ro_RecommendationID current)"

definition Advance :: "RecommendationRolloutState \<Rightarrow> RecommendationRolloutEvent \<Rightarrow> RecommendationRolloutDecision" where
  "Advance current event =
     (let d = initialDecision current in
      if \<not> validState current then block (add RecommendationRolloutBlockedInvalidState d) (ev_Now event)
      else if \<not> validEvent event then block (add RecommendationRolloutBlockedInvalidEvent d) (ev_Now event)
      else if \<not> sameOwner current event then block (add RecommendationRolloutBlockedOwnerScope d) (ev_Now event)
      else case ev_Type event of
        RecommendationRolloutEventEvaluate \<Rightarrow> evaluate d event
      | RecommendationRolloutEventStageApplied \<Rightarrow> stageApplied d event
      | RecommendationRolloutEventStageApplyFailed \<Rightarrow> stageApplyFailed d event
      | RecommendationRolloutEventObserve \<Rightarrow> observe d event
      | RecommendationRolloutEventRetryRollback \<Rightarrow> retryRollback d event
      | RecommendationRolloutEventRollbackApplied \<Rightarrow> rollbackApplied d event
      | RecommendationRolloutEventRollbackFailed \<Rightarrow> rollbackFailed d event
      | RecommendationRolloutEventOther _ \<Rightarrow> block (add RecommendationRolloutBlockedInvalidEvent d) (ev_Now event))"

section \<open>The weights of a stage\<close>

text \<open>\<open>stages.go\<close>: \<open>None\<close> is the error; Go's division of the non-negative figures is \<open>div\<close>.\<close>

definition forwardRolloutStages :: "RecommendationRolloutStage list" where
  "forwardRolloutStages = [RecommendationRolloutStage10, RecommendationRolloutStage25, RecommendationRolloutStage50,
     RecommendationRolloutStage100]"

definition sourceBaselineMoved :: "int \<Rightarrow> RecommendationRolloutStage \<Rightarrow> int option" where
  "sourceBaselineMoved sourceWeight stage =
     (if sourceWeight \<le> 0 \<or> sourceWeight > 100 \<or>
         stage \<noteq> RecommendationRolloutStage10 \<and> stage \<noteq> RecommendationRolloutStage25 \<and>
         stage \<noteq> RecommendationRolloutStage50 \<and> stage \<noteq> RecommendationRolloutStage100 then None
      else if stage = RecommendationRolloutStage100 then Some sourceWeight
      else Some ((sourceWeight * stage + 50) div 100))"

fun everyStage_loop :: "int \<Rightarrow> int \<Rightarrow> RecommendationRolloutStage list \<Rightarrow> bool" where
  "everyStage_loop sourceWeight previous [] = True"
| "everyStage_loop sourceWeight previous (stage # stages) =
     (case sourceBaselineMoved sourceWeight stage of
        None \<Rightarrow> False
      | Some moved \<Rightarrow> if moved \<le> previous then False else everyStage_loop sourceWeight moved stages)"

definition sourceBaselineSupportsEveryStage :: "int \<Rightarrow> bool" where
  "sourceBaselineSupportsEveryStage sourceWeight = everyStage_loop sourceWeight 0 forwardRolloutStages"

section \<open>Reasons and revalidation\<close>

lemma addReason_not_Nil [simp]: "addReason r rs \<noteq> []"
  by (auto simp: addReason_def)

lemma addReason_if_Nil [simp]: "addReason_if c r rs = [] \<longleftrightarrow> \<not> c \<and> rs = []"
  by (simp add: addReason_if_def)

lemma set_addReason [simp]: "set (addReason r rs) = insert r (set rs)"
  by (auto simp: addReason_def)

lemma set_fold_addReason: "set (fold addReason vs rs) = set vs \<union> set rs"
  by (induction vs arbitrary: rs) auto

lemma set_appendUniqueReasons [simp]: "set (appendUniqueReasons rs vs) = set rs \<union> set vs"
  by (auto simp: appendUniqueReasons_def set_fold_addReason)

text \<open>A gate list that opens the gate: every required kind once, all of them passed.\<close>

definition gates_ok :: "RecommendationRolloutGate list \<Rightarrow> bool" where
  "gates_ok gates \<longleftrightarrow> distinct (map gate_Kind gates) \<and>
     set (map gate_Kind gates) = set RecommendationRolloutRequiredGates \<and>
     list_all (\<lambda>g. gate_Status g = RecommendationRolloutGatePassed) gates"

definition bindings_ok :: "RecommendationRolloutState \<Rightarrow> RecommendationRolloutRevalidation \<Rightarrow> time \<Rightarrow> bool" where
  "bindings_ok s v now \<longleftrightarrow> rv_UserID v = ro_UserID s \<and> rv_PlanID v = ro_PlanID s \<and>
     rv_RecommendationID v = ro_RecommendationID s \<and> rv_RecommendationFingerprint v = ro_RecommendationFingerprint s \<and>
     rv_FactVersion v = ro_FactVersion s \<and> sameIDs (rv_EvidenceIDs v) (ro_EvidenceIDs s) \<and>
     rv_SchedulingGeneration v = ro_SchedulingGeneration s \<and>
     rv_RecommendationExpiresAt v \<noteq> 0 \<and> rv_RecommendationExpiresAt v = ro_RecommendationExpiresAt s \<and>
     now < ro_RecommendationExpiresAt s \<and> freshWindow (rv_EvidenceObservedAt v) (rv_EvidenceFreshUntil v) now"

definition revalidation_ok :: "RecommendationRolloutState \<Rightarrow> RecommendationRolloutRevalidation option \<Rightarrow> time \<Rightarrow> bool" where
  "revalidation_ok s v now \<longleftrightarrow> (case v of None \<Rightarrow> False | Some r \<Rightarrow> bindings_ok s r now \<and> gates_ok (rv_Gates r))"

lemma revalidationBindings_Nil: "revalidationBindings s v now rs = [] \<longleftrightarrow> rs = [] \<and> bindings_ok s v now"
  by (auto simp: revalidationBindings_def bindings_ok_def IsZero_def)

lemma gates_loop_reasons: "rs \<noteq> [] \<Longrightarrow> fst (snd (gates_loop gates seen rs failed)) \<noteq> []"
  by (induction gates seen rs failed rule: gates_loop.induct) auto

lemma required_loop_Nil: "fst (required_loop req seen rs failed) = [] \<longleftrightarrow> rs = [] \<and> set req \<subseteq> set seen"
  by (induction req seen rs failed rule: required_loop.induct) auto

lemma gates_loop_Nil:
  "fst (snd (gates_loop gates seen [] failed)) = [] \<longleftrightarrow>
     distinct (map gate_Kind gates) \<and> set (map gate_Kind gates) \<inter> set seen = {} \<and>
     list_all (\<lambda>g. IsRecommendationRolloutGateKind (gate_Kind g) \<and> gate_Status g = RecommendationRolloutGatePassed) gates"
proof (induction gates arbitrary: seen failed)
  case (Cons g gates)
  show ?case
    by (cases "gate_Status g") (auto simp: gates_loop_reasons Cons.IH IsRecommendationRolloutGateStatus_def)
qed simp

lemma gates_loop_seen:
  "list_all (\<lambda>g. IsRecommendationRolloutGateKind (gate_Kind g) \<and> gate_Status g = RecommendationRolloutGatePassed) gates \<Longrightarrow>
   set (fst (gates_loop gates seen rs failed)) = set (map gate_Kind gates) \<union> set seen"
  by (induction gates seen rs failed rule: gates_loop.induct) (auto simp: IsRecommendationRolloutGateStatus_def)

text \<open>The revalidation raises no reason exactly when all bindings and all gates are in order.\<close>

lemma validateRevalidation_Nil:
  "fst (validateRevalidation s v now rs) = [] \<longleftrightarrow> rs = [] \<and> revalidation_ok s v now"
proof (cases v)
  case None
  then show ?thesis by (simp add: validateRevalidation_def revalidation_ok_def)
next
  case (Some r)
  obtain seen rs1 failed1 where g: "gates_loop (rv_Gates r) [] (revalidationBindings s r now rs) [] = (seen, rs1, failed1)"
    by (cases "gates_loop (rv_Gates r) [] (revalidationBindings s r now rs) []")
  have eq: "fst (validateRevalidation s v now rs) = [] \<longleftrightarrow> rs1 = [] \<and> set RecommendationRolloutRequiredGates \<subseteq> set seen"
    using required_loop_Nil [of RecommendationRolloutRequiredGates seen rs1 failed1]
    by (simp add: validateRevalidation_def Some g split_def Let_def)
  show ?thesis
  proof (cases "revalidationBindings s r now rs = []")
    case False
    then have "rs1 \<noteq> []" using gates_loop_reasons [OF False, of "rv_Gates r" "[]" "[]"] g by simp
    then show ?thesis using False eq by (auto simp: revalidation_ok_def Some revalidationBindings_Nil)
  next
    case True
    let ?ok = "list_all (\<lambda>g. IsRecommendationRolloutGateKind (gate_Kind g) \<and>
       gate_Status g = RecommendationRolloutGatePassed) (rv_Gates r)"
    have rs1: "rs1 = [] \<longleftrightarrow> distinct (map gate_Kind (rv_Gates r)) \<and> ?ok"
      using gates_loop_Nil [of "rv_Gates r" "[]" "[]"] g True by simp
    have ok: "gates_ok (rv_Gates r) \<Longrightarrow> ?ok"
      by (auto simp: gates_ok_def list_all_iff IsRecommendationRolloutGateKind_def)
    have seen: "?ok \<Longrightarrow> set seen = set (map gate_Kind (rv_Gates r))"
      using gates_loop_seen [of "rv_Gates r" "[]" "revalidationBindings s r now rs" "[]"] g by simp
    have "rs1 = [] \<and> set RecommendationRolloutRequiredGates \<subseteq> set seen \<longleftrightarrow> gates_ok (rv_Gates r)"
    proof (cases ?ok)
      case True
      then show ?thesis
        using seen [OF True] rs1 by (auto simp: gates_ok_def list_all_iff IsRecommendationRolloutGateKind_def)
    next
      case False
      then show ?thesis using rs1 ok by blast
    qed
    then show ?thesis using True eq by (simp add: revalidation_ok_def Some revalidationBindings_Nil)
  qed
qed

section \<open>The specification of the machine\<close>

text \<open>
  What one event may do to a rollout, on which evidence, and which intent it emits. The rules
  say nothing of how the code checks the evidence; \<open>Advance_moves\<close> shows that the code
  follows them.
\<close>

definition identity_ok :: "RecommendationRolloutState \<Rightarrow> RecommendationRolloutEvent \<Rightarrow> bool" where
  "identity_ok s e \<longleftrightarrow> ev_RecommendationFingerprint e = ro_RecommendationFingerprint s \<and>
     ev_FactVersion e = ro_FactVersion s \<and> ev_SchedulingGeneration e = ro_SchedulingGeneration s"

definition observed_ok :: "RecommendationRolloutState \<Rightarrow> RecommendationRolloutEvent \<Rightarrow> bool" where
  "observed_ok s e \<longleftrightarrow> revalidation_ok s (ev_Revalidation e) (ev_Now e) \<and>
     (case ev_AfterEvidence e of None \<Rightarrow> False
      | Some a \<Rightarrow> validAfterEvidence s a (ev_Now e) \<and> ae_Callability a = RecommendationRolloutGatePassed \<and>
          ae_Quality a = RecommendationRolloutGatePassed)"

definition restored_ok :: "RecommendationRolloutState \<Rightarrow> RecommendationRolloutEvent \<Rightarrow> bool" where
  "restored_ok s e \<longleftrightarrow> ev_AppliedStage e = 0 \<and> ev_RecommendationFingerprint e = ro_RecommendationFingerprint s \<and>
     ev_SchedulingGeneration e = ro_SchedulingGeneration s \<and>
     (case ev_AfterEvidence e of None \<Rightarrow> False | Some a \<Rightarrow> validRollbackEvidence s a (ev_Now e))"

inductive rollout_move :: "RecommendationRolloutState \<Rightarrow> RecommendationRolloutEvent \<Rightarrow> RecommendationRolloutState \<Rightarrow>
    RecommendationRolloutActionKind \<Rightarrow> bool" where
  mv_block: "rollout_move s e (s\<lparr>ro_Status := RecommendationRolloutBlocked, ro_UpdatedAt := u\<rparr>) RecommendationRolloutActionNone"
| mv_wait: "ro_Status s = RecommendationRolloutObserving \<Longrightarrow> ro_ObserveUntil s = Some b \<Longrightarrow> ev_Now e < b \<Longrightarrow>
    rollout_move s e s RecommendationRolloutActionNone"
| mv_start: "ev_Type e = RecommendationRolloutEventEvaluate \<Longrightarrow> ro_Status s = RecommendationRolloutReady \<Longrightarrow>
    revalidation_ok s (ev_Revalidation e) (ev_Now e) \<Longrightarrow> nextStage (ro_Stage s) \<noteq> 0 \<Longrightarrow>
    rollout_move s e (s\<lparr>ro_Status := RecommendationRolloutApplying, ro_PendingStage := nextStage (ro_Stage s),
      ro_UpdatedAt := ev_Now e\<rparr>) RecommendationRolloutActionApplyStage"
| mv_finish: "ev_Type e = RecommendationRolloutEventEvaluate \<Longrightarrow> ro_Status s = RecommendationRolloutReady \<Longrightarrow>
    revalidation_ok s (ev_Revalidation e) (ev_Now e) \<Longrightarrow> nextStage (ro_Stage s) = 0 \<Longrightarrow>
    rollout_move s e (s\<lparr>ro_Status := RecommendationRolloutCompleted, ro_UpdatedAt := ev_Now e\<rparr>) RecommendationRolloutActionNone"
| mv_applied: "ev_Type e = RecommendationRolloutEventStageApplied \<Longrightarrow> ro_Status s = RecommendationRolloutApplying \<Longrightarrow>
    ro_PendingStage s \<noteq> 0 \<Longrightarrow> ev_AppliedStage e = ro_PendingStage s \<Longrightarrow> identity_ok s e \<Longrightarrow>
    rollout_move s e (s\<lparr>ro_Stage := ro_PendingStage s, ro_PendingStage := 0, ro_Status := RecommendationRolloutObserving,
      ro_StageStartedAt := Some (ev_Now e), ro_ObserveUntil := Some (ev_Now e + wrap64 (ro_ObservationSeconds s * Second)),
      ro_UpdatedAt := ev_Now e\<rparr>) RecommendationRolloutActionNone"
| mv_promote: "ev_Type e = RecommendationRolloutEventObserve \<Longrightarrow> ro_Status s = RecommendationRolloutObserving \<Longrightarrow>
    ro_ObserveUntil s = Some b \<Longrightarrow> b \<le> ev_Now e \<Longrightarrow> ro_Stage s \<noteq> 0 \<Longrightarrow> observed_ok s e \<Longrightarrow>
    rollout_move s e (s\<lparr>ro_LastAfterEvidence := ev_AfterEvidence e, ro_ObserveUntil := None,
      ro_Status := (if ro_Stage s = 100 then RecommendationRolloutCompleted else RecommendationRolloutReady),
      ro_UpdatedAt := ev_Now e\<rparr>) RecommendationRolloutActionNone"
| mv_retry: "ev_Type e = RecommendationRolloutEventRetryRollback \<Longrightarrow> ro_Status s = RecommendationRolloutRollbackRequired \<Longrightarrow>
    rollout_move s e (s\<lparr>ro_UpdatedAt := ev_Now e\<rparr>) RecommendationRolloutActionPlanRollback"
| mv_restored: "ev_Type e = RecommendationRolloutEventRollbackApplied \<Longrightarrow>
    ro_Status s = RecommendationRolloutRollbackRequired \<Longrightarrow> restored_ok s e \<Longrightarrow>
    rollout_move s e (s\<lparr>ro_Stage := 0, ro_PendingStage := 0, ro_Status := RecommendationRolloutRolledBack,
      ro_StageStartedAt := None, ro_ObserveUntil := None, ro_LastAfterEvidence := ev_AfterEvidence e,
      ro_UpdatedAt := ev_Now e\<rparr>) RecommendationRolloutActionNone"
| mv_rollback: "set (ro_RollbackReasons s) \<subseteq> set rr \<Longrightarrow> rr \<noteq> [] \<Longrightarrow> sorted rr \<Longrightarrow>
    rollout_move s e (s\<lparr>ro_LastAfterEvidence := l, ro_Status := RecommendationRolloutRollbackRequired, ro_PendingStage := 0,
      ro_ObserveUntil := None, ro_RollbackReasons := rr, ro_UpdatedAt := ev_Now e\<rparr>) RecommendationRolloutActionPlanRollback"

inductive_simps rollout_move_simps: "rollout_move s e t a"
inductive_cases rollout_moveE [elim]: "rollout_move s e t a"

abbreviation decided :: "RecommendationRolloutState \<Rightarrow> RecommendationRolloutEvent \<Rightarrow> RecommendationRolloutDecision \<Rightarrow> bool" where
  "decided s e d \<equiv> rollout_move s e (dcn_State d) (act_Kind (dcn_Action d))"

text \<open>The two common exits of the handlers.\<close>

lemma block_moves:
  assumes "dcn_State d = s" "act_Kind (dcn_Action d) = RecommendationRolloutActionNone"
  shows "decided s e (block d now)"
proof -
  define u where "u = (if IsZero now then ro_UpdatedAt s else now)"
  have "dcn_State (block d now) = s\<lparr>ro_Status := RecommendationRolloutBlocked, ro_UpdatedAt := u\<rparr>"
    using assms by (simp add: block_def Let_def sortReasons_def u_def)
  moreover have "act_Kind (dcn_Action (block d now)) = RecommendationRolloutActionNone"
    using assms by (simp add: block_def Let_def sortReasons_def)
  ultimately show ?thesis by (simp only: mv_block)
qed

lemma rollback_moves:
  assumes "dcn_State d = s\<lparr>ro_LastAfterEvidence := l\<rparr>" "dcn_Reasons d \<noteq> []"
  shows "decided s e (rollbackRequired d (ev_Now e))"
proof -
  define rr where "rr = appendUniqueReasons (ro_RollbackReasons s) (dcn_Reasons d)"
  have "set (ro_RollbackReasons s) \<subseteq> set rr" "sorted rr"
    by (simp_all add: rr_def appendUniqueReasons_def set_fold_addReason)
  moreover have "set (dcn_Reasons d) \<subseteq> set rr" by (simp add: rr_def)
  then have "rr \<noteq> []" using assms(2) by (cases "dcn_Reasons d") auto
  ultimately have "rollout_move s e (s\<lparr>ro_LastAfterEvidence := l, ro_Status := RecommendationRolloutRollbackRequired, ro_PendingStage := 0,
      ro_ObserveUntil := None, ro_RollbackReasons := rr, ro_UpdatedAt := ev_Now e\<rparr>) RecommendationRolloutActionPlanRollback"
    by (intro mv_rollback)
  then show ?thesis
    using assms(1)
    by (simp add: rollbackRequired_def Let_def sortReasons_def rollbackAction_def stageAction_def rr_def)
qed

lemma initial_simps [simp]:
  "dcn_State (initialDecision s) = s" "act_Kind (dcn_Action (initialDecision s)) = RecommendationRolloutActionNone"
  "dcn_Reasons (initialDecision s) = []"
  by (simp_all add: initialDecision_def)

lemma add_simps [simp]:
  "dcn_State (add r d) = dcn_State d" "dcn_Action (add r d) = dcn_Action d" "dcn_Reasons (add r d) \<noteq> []"
  by (simp_all add: add_def)

lemma rollback_moves_plain:
  "dcn_State d = s \<Longrightarrow> dcn_Reasons d \<noteq> [] \<Longrightarrow> decided s e (rollbackRequired d (ev_Now e))"
  by (rule rollback_moves [where l = "ro_LastAfterEvidence s"]) simp_all

text \<open>Each handler follows the specification.\<close>

lemma evaluate_moves:
  assumes "ev_Type e = RecommendationRolloutEventEvaluate"
  shows "decided s e (evaluate (initialDecision s) e)"
proof (cases "ro_Status s = RecommendationRolloutReady")
  case True
  obtain rs fg where v: "validateRevalidation s (ev_Revalidation e) (ev_Now e) [] = (rs, fg)"
    by (cases "validateRevalidation s (ev_Revalidation e) (ev_Now e) []")
  have ok: "rs = [] \<longleftrightarrow> revalidation_ok s (ev_Revalidation e) (ev_Now e)"
    using validateRevalidation_Nil [of s "ev_Revalidation e" "ev_Now e" "[]"] v by simp
  show ?thesis
  proof (cases "rs = []")
    case False
    then show ?thesis using True v by (simp add: evaluate_def Let_def block_moves)
  next
    case rs: True
    then show ?thesis
      using True v ok assms mv_start [of e s] mv_finish [of e s] by (simp add: evaluate_def Let_def stageAction_def)
  qed
qed (simp add: evaluate_def Let_def block_moves)

lemma stageApplied_moves:
  assumes "ev_Type e = RecommendationRolloutEventStageApplied"
  shows "decided s e (stageApplied (initialDecision s) e)"
proof (cases "ro_Status s \<noteq> RecommendationRolloutApplying \<or> ro_PendingStage s = 0 \<or> ev_AppliedStage e \<noteq> ro_PendingStage s")
  case True
  then show ?thesis by (simp add: stageApplied_def Let_def block_moves)
next
  case False
  obtain valid rs where v: "eventIdentityMatches s e [] = (valid, rs)" by (cases "eventIdentityMatches s e []")
  have ok: "valid \<longleftrightarrow> identity_ok s e" "\<not> valid \<Longrightarrow> rs \<noteq> []"
    using v by (auto simp: eventIdentityMatches_def Let_def identity_ok_def)
  show ?thesis
  proof (cases valid)
    case True
    with False v ok assms mv_applied [of e s] show ?thesis by (simp add: stageApplied_def Let_def)
  next
    case invalid: False
    with False v ok show ?thesis by (simp add: stageApplied_def Let_def rollback_moves_plain)
  qed
qed

lemma stageApplyFailed_moves: "decided s e (stageApplyFailed (initialDecision s) e)"
  by (simp add: stageApplyFailed_def Let_def block_moves rollback_moves_plain)

definition keptEvidence :: "RecommendationRolloutState \<Rightarrow> RecommendationRolloutAfterEvidence option \<Rightarrow> time \<Rightarrow>
    RecommendationRolloutAfterEvidence option" where
  "keptEvidence s after now = (case after of None \<Rightarrow> ro_LastAfterEvidence s
     | Some a \<Rightarrow> if validAfterEvidence s a now then Some a else ro_LastAfterEvidence s)"

lemma checkAfterEvidence_state:
  "dcn_State (checkAfterEvidence after now d) =
     (dcn_State d)\<lparr>ro_LastAfterEvidence := keptEvidence (dcn_State d) after now\<rparr>"
  by (cases after) (simp_all add: checkAfterEvidence_def keptEvidence_def)

lemma checkAfterEvidence_reasons:
  "dcn_Reasons (checkAfterEvidence after now d) = [] \<longleftrightarrow> dcn_Reasons d = [] \<and>
     (case after of None \<Rightarrow> False
      | Some a \<Rightarrow> validAfterEvidence (dcn_State d) a now \<and> ae_Callability a = RecommendationRolloutGatePassed \<and>
          ae_Quality a = RecommendationRolloutGatePassed)"
  by (cases after) (auto simp: checkAfterEvidence_def)

lemma observe_moves:
  assumes "ev_Type e = RecommendationRolloutEventObserve"
  shows "decided s e (observe (initialDecision s) e)"
proof (cases "ro_Status s \<noteq> RecommendationRolloutObserving \<or> ro_ObserveUntil s = None \<or> ro_Stage s = 0")
  case True
  then show ?thesis by (simp add: observe_def Let_def block_moves)
next
  case False
  then obtain b where b: "ro_ObserveUntil s = Some b" by auto
  show ?thesis
  proof (cases "ev_Now e < b")
    case True
    with False b mv_wait [of s b e] show ?thesis by (simp add: observe_def Let_def)
  next
    case due: False
    obtain rs fg where v: "validateRevalidation s (ev_Revalidation e) (ev_Now e) [] = (rs, fg)"
      by (cases "validateRevalidation s (ev_Revalidation e) (ev_Now e) []")
    define d where "d = checkAfterEvidence (ev_AfterEvidence e) (ev_Now e)
      ((initialDecision s)\<lparr>dcn_Reasons := rs, dcn_FailedGates := fg\<rparr>)"
    have rs: "rs = [] \<longleftrightarrow> revalidation_ok s (ev_Revalidation e) (ev_Now e)"
      using validateRevalidation_Nil [of s "ev_Revalidation e" "ev_Now e" "[]"] v by simp
    have act: "dcn_Action d = dcn_Action (initialDecision s)"
      by (simp add: d_def checkAfterEvidence_def split: option.split)
    obtain l where st: "dcn_State d = s\<lparr>ro_LastAfterEvidence := l\<rparr>" "observed_ok s e \<Longrightarrow> l = ev_AfterEvidence e"
    proof
      show "dcn_State d = s\<lparr>ro_LastAfterEvidence := keptEvidence s (ev_AfterEvidence e) (ev_Now e)\<rparr>"
        by (simp add: d_def checkAfterEvidence_state)
      show "observed_ok s e \<Longrightarrow> keptEvidence s (ev_AfterEvidence e) (ev_Now e) = ev_AfterEvidence e"
        by (simp add: observed_ok_def keptEvidence_def split: option.splits)
    qed
    have ok: "dcn_Reasons d = [] \<longleftrightarrow> observed_ok s e"
      by (simp add: d_def checkAfterEvidence_reasons rs observed_ok_def split: option.split)
    have obs: "observe (initialDecision s) e = (if length (dcn_Reasons d) > 0 then rollbackRequired d (ev_Now e)
        else d\<lparr>dcn_State := (dcn_State d)\<lparr>ro_ObserveUntil := None,
                 ro_Status := (if ro_Stage s = 100 then RecommendationRolloutCompleted else RecommendationRolloutReady),
                 ro_UpdatedAt := ev_Now e\<rparr>\<rparr>)"
      using False b due v by (simp add: observe_def Let_def d_def)
    show ?thesis
    proof (cases "observed_ok s e")
      case True
      with False b due ok st assms act mv_promote [of e s b] show ?thesis by (simp add: obs)
    next
      case bad: False
      then have "dcn_Reasons d \<noteq> []" using ok by simp
      then show ?thesis unfolding obs by (simp add: rollback_moves [OF st(1)])
    qed
  qed
qed

lemma retryRollback_moves:
  "ev_Type e = RecommendationRolloutEventRetryRollback \<Longrightarrow> decided s e (retryRollback (initialDecision s) e)"
  using mv_retry [of e s] by (simp add: retryRollback_def block_moves rollbackAction_def stageAction_def)

lemma rollbackApplied_moves:
  assumes "ev_Type e = RecommendationRolloutEventRollbackApplied"
  shows "decided s e (rollbackApplied (initialDecision s) e)"
proof (cases "ro_Status s = RecommendationRolloutRollbackRequired \<and> restored_ok s e")
  case True
  with assms mv_restored [of e s] show ?thesis
    by (auto simp: rollbackApplied_def Let_def restored_ok_def split: option.splits)
next
  case False
  have "rollbackApplied (initialDecision s) e = rollbackRequired (add RecommendationRolloutBlockedStageMismatch (initialDecision s)) (ev_Now e)
      \<or> rollbackApplied (initialDecision s) e = rollbackRequired (add RecommendationRolloutBlockedAfterEvidence (initialDecision s)) (ev_Now e)"
    using False by (auto simp: rollbackApplied_def Let_def restored_ok_def split: option.splits)
  then show ?thesis by (elim disjE) (simp_all add: rollback_moves_plain)
qed

lemma rollbackFailed_moves: "decided s e (rollbackFailed (initialDecision s) e)"
  by (simp add: rollbackFailed_def block_moves rollback_moves_plain)

lemma Advance_moves: "decided s e (Advance s e)"
  by (simp add: Advance_def Let_def block_moves evaluate_moves stageApplied_moves stageApplyFailed_moves observe_moves
      retryRollback_moves rollbackApplied_moves rollbackFailed_moves split: RecommendationRolloutEventType.split)

section \<open>What the machine guarantees\<close>

lemma block_action [simp]: "dcn_Action (block d now) = dcn_Action d"
  by (simp add: block_def Let_def sortReasons_def)

lemma nextStage_valid: "IsRecommendationRolloutStage g \<Longrightarrow> IsRecommendationRolloutStage (nextStage g)"
  by (auto simp: IsRecommendationRolloutStage_def nextStage_def)

lemma nextStage_None: "IsRecommendationRolloutStage g \<Longrightarrow> nextStage g = 0 \<longleftrightarrow> g = 100"
  by (auto simp: IsRecommendationRolloutStage_def nextStage_def)

lemma observation_window:
  assumes "0 < n" "n \<le> maxObservationSeconds"
  shows "wrap64 (n * Second) = n * Second"
  using assms by (intro wrap64_id) (simp add: in64_def maxObservationSeconds_def)

text \<open>The fields that identify a rollout, which no event changes.\<close>

definition identity :: "RecommendationRolloutState \<Rightarrow> string \<times> int64 \<times> string \<times> string \<times> string \<times> int64 \<times> string list \<times>
    string \<times> int64 \<times> int \<times> time \<times> time" where
  "identity s = (ro_ID s, ro_UserID s, ro_PlanID s, ro_RecommendationID s, ro_RecommendationFingerprint s, ro_FactVersion s,
     ro_EvidenceIDs s, ro_BaselineFingerprint s, ro_SchedulingGeneration s, ro_ObservationSeconds s,
     ro_RecommendationExpiresAt s, ro_StartedAt s)"

lemma move_identity: "rollout_move s e t a \<Longrightarrow> identity t = identity s"
  by (induction rule: rollout_move.induct) (simp_all add: identity_def)

lemma validIdentity_cong: "identity t = identity s \<Longrightarrow> validIdentity t = validIdentity s"
  by (simp add: identity_def validIdentity_def)

text \<open>A well-formed rollout: valid, and without an observation deadline while it is ready.
  Every move keeps this but one: an event that blocks a rollout while an apply is pending
  leaves the pending stage set.\<close>

definition wellFormed :: "RecommendationRolloutState \<Rightarrow> bool" where
  "wellFormed s \<longleftrightarrow> validState s \<and> (ro_Status s = RecommendationRolloutReady \<longrightarrow> ro_ObserveUntil s = None)"

lemma validState_parts:
  assumes "validState s"
  shows "validIdentity s" "IsRecommendationRolloutStage (ro_Stage s)" "IsRecommendationRolloutStage (ro_PendingStage s)"
  using assms by (simp_all add: validState_def split: if_splits)

lemma validIdentity_upd [simp]:
  "validIdentity (s\<lparr>ro_Status := a\<rparr>) = validIdentity s" "validIdentity (s\<lparr>ro_Stage := g\<rparr>) = validIdentity s"
  "validIdentity (s\<lparr>ro_PendingStage := g\<rparr>) = validIdentity s" "validIdentity (s\<lparr>ro_StageStartedAt := x\<rparr>) = validIdentity s"
  "validIdentity (s\<lparr>ro_ObserveUntil := x\<rparr>) = validIdentity s" "validIdentity (s\<lparr>ro_LastAfterEvidence := l\<rparr>) = validIdentity s"
  "validIdentity (s\<lparr>ro_RollbackReasons := rr\<rparr>) = validIdentity s" "validIdentity (s\<lparr>ro_UpdatedAt := u\<rparr>) = validIdentity s"
  by (simp_all add: validIdentity_def)

lemma stage_valid_ends [simp]: "IsRecommendationRolloutStage 0" "IsRecommendationRolloutStage 100"
  by (simp_all add: IsRecommendationRolloutStage_def)

definition stuck :: "RecommendationRolloutState \<Rightarrow> bool" where
  "stuck s \<longleftrightarrow> ro_Status s = RecommendationRolloutBlocked \<and> ro_PendingStage s \<noteq> 0"

lemma move_valid:
  assumes "rollout_move s e t a" "wellFormed s"
  shows "wellFormed t \<or>
    (ro_Status s = RecommendationRolloutApplying \<and> stuck t \<and> ro_PendingStage t = ro_PendingStage s \<and> ro_Stage t = ro_Stage s)"
  using assms
proof (induction rule: rollout_move.induct)
  case (mv_block s e u)
  then show ?case
    by (cases "ro_Status s") (simp_all add: wellFormed_def stuck_def validState_def split: if_splits)
next
  case (mv_applied e s)
  have "validState s" using mv_applied.prems by (simp add: wellFormed_def)
  note v = validState_parts [OF this]
  have n: "0 < ro_ObservationSeconds s" "ro_ObservationSeconds s \<le> maxObservationSeconds"
    using v(1) by (simp_all add: validIdentity_def)
  show ?case using mv_applied v observation_window [OF n] n(1) by (simp add: wellFormed_def validState_def)
next
  case (mv_start e s)
  have "validState s" using mv_start.prems by (simp add: wellFormed_def)
  note v = validState_parts [OF this]
  show ?case using mv_start v nextStage_valid [OF v(2)] by (simp add: wellFormed_def validState_def)
next
  case (mv_finish e s)
  have "validState s" using mv_finish.prems by (simp add: wellFormed_def)
  note v = validState_parts [OF this]
  show ?case using mv_finish v nextStage_None [OF v(2)] by (simp add: wellFormed_def validState_def)
qed (simp_all add: wellFormed_def validState_def split: if_splits)

text \<open>Expansion: the only move that raises the admitted stage is the acknowledged pending one.\<close>

lemma move_stage:
  assumes "rollout_move s e t a"
  shows "ro_Stage t = ro_Stage s \<or>
    (ro_Status s = RecommendationRolloutApplying \<and> ev_Type e = RecommendationRolloutEventStageApplied \<and>
     ev_AppliedStage e = ro_PendingStage s \<and> identity_ok s e \<and> ro_Stage t = ro_PendingStage s) \<or>
    (ro_Status s = RecommendationRolloutRollbackRequired \<and> ev_Type e = RecommendationRolloutEventRollbackApplied \<and>
     restored_ok s e \<and> ro_Stage t = 0)"
  using assms by (induction rule: rollout_move.induct) simp_all

lemma move_completed:
  assumes "rollout_move s e t a" "validState s" "ro_Status s \<noteq> RecommendationRolloutCompleted"
    and "ro_Status t = RecommendationRolloutCompleted"
  shows "ro_Stage s = 100 \<and> revalidation_ok s (ev_Revalidation e) (ev_Now e) \<and>
    (ro_Status s = RecommendationRolloutReady \<or>
     ro_Status s = RecommendationRolloutObserving \<and> observed_ok s e \<and> (\<exists>b. ro_ObserveUntil s = Some b \<and> b \<le> ev_Now e))"
  using assms
proof (induction rule: rollout_move.induct)
  case (mv_finish e s)
  then show ?case using nextStage_None [OF validState_parts(2) [OF mv_finish.prems(1)]] by simp
next
  case (mv_promote e s b)
  then show ?case by (simp add: observed_ok_def split: if_splits)
qed simp_all

text \<open>The accepted events, the other way round: enough evidence is acted on.\<close>

definition accepted :: "RecommendationRolloutState \<Rightarrow> RecommendationRolloutEvent \<Rightarrow> bool" where
  "accepted s e \<longleftrightarrow> validState s \<and> validEvent e \<and> sameOwner s e"

lemma not_accepted: "\<not> accepted s e \<Longrightarrow> \<exists>r. Advance s e = block (add r (initialDecision s)) (ev_Now e)"
  by (auto simp: accepted_def Advance_def Let_def)

lemma revalidation_no_reason:
  "revalidation_ok s v now \<Longrightarrow> \<exists>fg. validateRevalidation s v now [] = ([], fg)"
  using validateRevalidation_Nil [of s v now "[]"] by (cases "validateRevalidation s v now []") auto

lemma Advance_start:
  assumes "accepted s e" "ev_Type e = RecommendationRolloutEventEvaluate" "ro_Status s = RecommendationRolloutReady"
    and "revalidation_ok s (ev_Revalidation e) (ev_Now e)" "nextStage (ro_Stage s) \<noteq> 0"
  shows "dcn_State (Advance s e) = s\<lparr>ro_Status := RecommendationRolloutApplying,
      ro_PendingStage := nextStage (ro_Stage s), ro_UpdatedAt := ev_Now e\<rparr>"
    and "dcn_Action (Advance s e) = stageAction s RecommendationRolloutActionApplyStage (nextStage (ro_Stage s))"
  using assms revalidation_no_reason [OF assms(4)]
  by (auto simp: accepted_def Advance_def evaluate_def Let_def stageAction_def)

lemma Advance_applied:
  assumes "accepted s e" "ev_Type e = RecommendationRolloutEventStageApplied" "ro_Status s = RecommendationRolloutApplying"
    and "ev_AppliedStage e = ro_PendingStage s" "identity_ok s e"
  shows "dcn_State (Advance s e) = s\<lparr>ro_Stage := ro_PendingStage s, ro_PendingStage := 0,
      ro_Status := RecommendationRolloutObserving, ro_StageStartedAt := Some (ev_Now e),
      ro_ObserveUntil := Some (ev_Now e + ro_ObservationSeconds s * Second), ro_UpdatedAt := ev_Now e\<rparr>"
proof -
  have v: "validState s" using assms(1) by (simp add: accepted_def)
  have "0 < ro_ObservationSeconds s" "ro_ObservationSeconds s \<le> maxObservationSeconds"
    using validState_parts(1) [OF v] by (simp_all add: validIdentity_def)
  note w = observation_window [OF this]
  have "ro_PendingStage s \<noteq> 0" using v assms(3) by (simp add: validState_def split: if_splits)
  then show ?thesis
    using assms w by (simp add: accepted_def Advance_def stageApplied_def Let_def eventIdentityMatches_def identity_ok_def
        addReason_if_def)
qed

lemma Advance_promote:
  assumes "accepted s e" "ev_Type e = RecommendationRolloutEventObserve" "ro_Status s = RecommendationRolloutObserving"
    and "ro_ObserveUntil s = Some b" "b \<le> ev_Now e" "observed_ok s e"
  shows "dcn_State (Advance s e) = s\<lparr>ro_LastAfterEvidence := ev_AfterEvidence e, ro_ObserveUntil := None,
      ro_Status := (if ro_Stage s = 100 then RecommendationRolloutCompleted else RecommendationRolloutReady),
      ro_UpdatedAt := ev_Now e\<rparr>"
proof -
  have "ro_Stage s \<noteq> 0" using assms(1,3) by (simp add: accepted_def validState_def split: if_splits)
  moreover have "revalidation_ok s (ev_Revalidation e) (ev_Now e)" using assms(6) by (simp add: observed_ok_def)
  from revalidation_no_reason [OF this] obtain fg
    where "validateRevalidation s (ev_Revalidation e) (ev_Now e) [] = ([], fg)" ..
  moreover obtain a where "ev_AfterEvidence e = Some a" "validAfterEvidence s a (ev_Now e)"
    "ae_Callability a = RecommendationRolloutGatePassed" "ae_Quality a = RecommendationRolloutGatePassed"
    using assms(6) by (auto simp: observed_ok_def split: option.splits)
  ultimately show ?thesis
    using assms by (simp add: accepted_def Advance_def observe_def Let_def checkAfterEvidence_def addReason_if_def)
qed

text \<open>A run of the machine over a list of events.\<close>

definition rollout_run :: "RecommendationRolloutState \<Rightarrow> RecommendationRolloutEvent list \<Rightarrow> RecommendationRolloutState" where
  "rollout_run s es = fold (\<lambda>e s. dcn_State (Advance s e)) es s"

lemma rollout_run_simps [simp]:
  "rollout_run s [] = s" "rollout_run s (e # es) = rollout_run (dcn_State (Advance s e)) es"
  "rollout_run s (es @ fs) = rollout_run (rollout_run s es) fs"
  by (simp_all add: rollout_run_def)

definition rollout_init :: "RecommendationRolloutState \<Rightarrow> bool" where
  "rollout_init s \<longleftrightarrow> validIdentity s \<and> ro_Status s = RecommendationRolloutReady \<and> ro_Stage s = 0 \<and>
     ro_PendingStage s = 0 \<and> ro_ObserveUntil s = None"

definition rollout_step :: "RecommendationRolloutState \<Rightarrow> RecommendationRolloutState \<Rightarrow> bool" where
  "rollout_step s t \<longleftrightarrow> (\<exists>e. t = dcn_State (Advance s e))"

definition rollout_ok :: "RecommendationRolloutState \<Rightarrow> bool" where
  "rollout_ok s \<longleftrightarrow> (wellFormed s \<or> stuck s) \<and> IsRecommendationRolloutStage (ro_Stage s)"

lemma init_wellFormed: "rollout_init s \<Longrightarrow> wellFormed s"
  by (simp add: rollout_init_def wellFormed_def validState_def)

lemma stuck_stays: "stuck s \<Longrightarrow> dcn_State (Advance s e) = s\<lparr>ro_UpdatedAt := if IsZero (ev_Now e) then ro_UpdatedAt s else ev_Now e\<rparr>"
proof -
  assume "stuck s"
  then have "\<not> validState s" by (auto simp: stuck_def validState_def)
  then have "Advance s e = block (add RecommendationRolloutBlockedInvalidState (initialDecision s)) (ev_Now e)"
    by (simp add: Advance_def Let_def)
  moreover have "s\<lparr>ro_Status := RecommendationRolloutBlocked\<rparr> = s"
    using \<open>stuck s\<close> by (cases s) (simp add: stuck_def)
  ultimately show ?thesis by (simp add: block_def sortReasons_def Let_def)
qed

interpretation rollout: invariant_system rollout_init rollout_step rollout_ok
proof
  show "rollout_ok s" if "rollout_init s" for s
    using init_wellFormed [OF that] that by (simp add: rollout_ok_def rollout_init_def)
  show "rollout_ok t" if ok: "rollout_ok s" and "rollout_step s t" for s t
  proof -
    obtain e where t: "t = dcn_State (Advance s e)" using \<open>rollout_step s t\<close> by (auto simp: rollout_step_def)
    show ?thesis
    proof (cases "stuck s")
      case True
      then show ?thesis using ok by (simp add: t stuck_stays rollout_ok_def stuck_def)
    next
      case False
      then have "wellFormed s" using ok by (simp add: rollout_ok_def)
      then have "wellFormed t \<or> stuck t \<and> ro_Stage t = ro_Stage s"
        using move_valid [OF Advance_moves [of s e]] t by blast
      moreover have "IsRecommendationRolloutStage (ro_Stage t)" if "wellFormed t"
        using that validState_parts(2) by (simp add: wellFormed_def)
      ultimately show ?thesis using ok by (auto simp: rollout_ok_def)
    qed
  qed
qed

section \<open>The happy path\<close>

text \<open>The events a cooperating environment sends: fresh evidence bound to the rollout, every
  gate passed.\<close>

definition goodRevalidation :: "RecommendationRolloutState \<Rightarrow> time \<Rightarrow> RecommendationRolloutRevalidation" where
  "goodRevalidation s now = \<lparr>rv_UserID = ro_UserID s, rv_PlanID = ro_PlanID s, rv_RecommendationID = ro_RecommendationID s,
     rv_RecommendationFingerprint = ro_RecommendationFingerprint s, rv_FactVersion = ro_FactVersion s,
     rv_EvidenceIDs = ro_EvidenceIDs s, rv_EvidenceObservedAt = now, rv_EvidenceFreshUntil = now + 1,
     rv_RecommendationExpiresAt = ro_RecommendationExpiresAt s, rv_SchedulingGeneration = ro_SchedulingGeneration s,
     rv_Gates = map (\<lambda>k. \<lparr>gate_Kind = k, gate_Status = RecommendationRolloutGatePassed, gate_ReasonCode = []\<rparr>)
       RecommendationRolloutRequiredGates\<rparr>"

definition goodEvent :: "RecommendationRolloutState \<Rightarrow> RecommendationRolloutEventType \<Rightarrow> time \<Rightarrow> RecommendationRolloutEvent" where
  "goodEvent s kind now = \<lparr>ev_Type = kind, ev_UserID = ro_UserID s, ev_PlanID = ro_PlanID s,
     ev_RecommendationID = ro_RecommendationID s, ev_Now = now, ev_AppliedStage = ro_PendingStage s,
     ev_RecommendationFingerprint = ro_RecommendationFingerprint s, ev_FactVersion = ro_FactVersion s,
     ev_SchedulingGeneration = ro_SchedulingGeneration s, ev_Revalidation = Some (goodRevalidation s now),
     ev_AfterEvidence = Some \<lparr>ae_Stage = ro_Stage s, ae_RecommendationFingerprint = ro_RecommendationFingerprint s,
       ae_BaselineFingerprint = ro_BaselineFingerprint s, ae_SchedulingGeneration = ro_SchedulingGeneration s,
       ae_EvidenceIDs = ro_EvidenceIDs s, ae_ObservedAt = now, ae_FreshUntil = now + 1,
       ae_Callability = RecommendationRolloutGatePassed, ae_Quality = RecommendationRolloutGatePassed\<rparr>\<rparr>"

lemma good_gates: "gates_ok (map (\<lambda>k. \<lparr>gate_Kind = k, gate_Status = RecommendationRolloutGatePassed, gate_ReasonCode = []\<rparr>)
    RecommendationRolloutRequiredGates)"
  by (simp add: gates_ok_def RecommendationRolloutRequiredGates_def)

lemma goodEvent_accepted:
  assumes "validState s" "0 < now" "IsRecommendationRolloutEventType kind"
  shows "accepted s (goodEvent s kind now)"
  using assms validState_parts(1) [OF assms(1)]
  by (simp add: accepted_def validEvent_def goodEvent_def sameOwner_def validIdentity_def IsZero_def)

lemma good_revalidation_ok:
  assumes "validState s" "sameIDs (ro_EvidenceIDs s) (ro_EvidenceIDs s)" "0 < now" "now < ro_RecommendationExpiresAt s"
  shows "revalidation_ok s (Some (goodRevalidation s now)) now"
  using assms validState_parts(1) [OF assms(1)] good_gates
  by (simp add: revalidation_ok_def goodRevalidation_def bindings_ok_def validIdentity_def freshWindow_def IsZero_def)

text \<open>One round: evaluate, acknowledge, and observe when the window has passed.\<close>

definition round_end :: "RecommendationRolloutState \<Rightarrow> time \<Rightarrow> time" where
  "round_end s now = now + ro_ObservationSeconds s * Second"

definition happy :: "RecommendationRolloutState \<Rightarrow> RecommendationRolloutState \<Rightarrow> RecommendationRolloutStage \<Rightarrow> bool" where
  "happy s0 s g \<longleftrightarrow> wellFormed s \<and> identity s = identity s0 \<and> ro_Stage s = g \<and>
     ro_Status s = (if g = 100 then RecommendationRolloutCompleted else RecommendationRolloutReady)"

lemma happy_start:
  assumes wf: "wellFormed s" and ready: "ro_Status s = RecommendationRolloutReady" and g: "ro_Stage s \<noteq> 100"
    and ids: "sameIDs (ro_EvidenceIDs s) (ro_EvidenceIDs s)" and now: "0 < now" "now < ro_RecommendationExpiresAt s"
  defines "t \<equiv> dcn_State (Advance s (goodEvent s RecommendationRolloutEventEvaluate now))"
  shows "t = s\<lparr>ro_Status := RecommendationRolloutApplying, ro_PendingStage := nextStage (ro_Stage s), ro_UpdatedAt := now\<rparr>"
    and "wellFormed t"
proof -
  let ?e = "goodEvent s RecommendationRolloutEventEvaluate now"
  have v: "validState s" using wf by (simp add: wellFormed_def)
  have ns: "nextStage (ro_Stage s) \<noteq> 0" using nextStage_None [OF validState_parts(2) [OF v]] g by simp
  show t: "t = s\<lparr>ro_Status := RecommendationRolloutApplying, ro_PendingStage := nextStage (ro_Stage s), ro_UpdatedAt := now\<rparr>"
    unfolding t_def
    using Advance_start(1) [of s ?e] goodEvent_accepted [OF v now(1)] good_revalidation_ok [OF v ids now] ready ns
    by (simp add: goodEvent_def)
  then have "\<not> stuck t" by (simp add: stuck_def)
  then show "wellFormed t" using move_valid [OF Advance_moves [of s ?e] wf] by (auto simp: t_def)
qed

lemma happy_applied:
  assumes wf: "wellFormed s" and st: "ro_Status s = RecommendationRolloutApplying" and now: "0 < now"
  defines "t \<equiv> dcn_State (Advance s (goodEvent s RecommendationRolloutEventStageApplied now))"
  shows "t = s\<lparr>ro_Stage := ro_PendingStage s, ro_PendingStage := 0, ro_Status := RecommendationRolloutObserving,
      ro_StageStartedAt := Some now, ro_ObserveUntil := Some (round_end s now), ro_UpdatedAt := now\<rparr>"
    and "wellFormed t"
proof -
  let ?e = "goodEvent s RecommendationRolloutEventStageApplied now"
  have v: "validState s" using wf by (simp add: wellFormed_def)
  show t: "t = s\<lparr>ro_Stage := ro_PendingStage s, ro_PendingStage := 0, ro_Status := RecommendationRolloutObserving,
      ro_StageStartedAt := Some now, ro_ObserveUntil := Some (round_end s now), ro_UpdatedAt := now\<rparr>"
    unfolding t_def using Advance_applied [of s ?e] goodEvent_accepted [OF v now] st
    by (simp add: goodEvent_def identity_ok_def round_end_def)
  then have "\<not> stuck t" by (simp add: stuck_def)
  then show "wellFormed t" using move_valid [OF Advance_moves [of s ?e] wf] by (auto simp: t_def)
qed

lemma happy_observed:
  assumes wf: "wellFormed s" and st: "ro_Status s = RecommendationRolloutObserving"
    and ids: "sameIDs (ro_EvidenceIDs s) (ro_EvidenceIDs s)" and now: "0 < now" "now < ro_RecommendationExpiresAt s"
    and due: "ro_ObserveUntil s = Some b" "b \<le> now"
  defines "t \<equiv> dcn_State (Advance s (goodEvent s RecommendationRolloutEventObserve now))"
  shows "ro_Status t = (if ro_Stage s = 100 then RecommendationRolloutCompleted else RecommendationRolloutReady)"
    and "ro_Stage t = ro_Stage s" and "wellFormed t"
proof -
  let ?e = "goodEvent s RecommendationRolloutEventObserve now"
  have v: "validState s" using wf by (simp add: wellFormed_def)
  have ev: "observed_ok s ?e"
    using good_revalidation_ok [OF v ids now] validState_parts(1) [OF v] now
    by (simp add: observed_ok_def goodEvent_def validAfterEvidence_def validIdentity_def
        IsRecommendationRolloutGateStatus_def freshWindow_def IsZero_def)
  have t: "t = s\<lparr>ro_LastAfterEvidence := ev_AfterEvidence ?e, ro_ObserveUntil := None,
      ro_Status := (if ro_Stage s = 100 then RecommendationRolloutCompleted else RecommendationRolloutReady),
      ro_UpdatedAt := now\<rparr>"
    unfolding t_def using Advance_promote [of s ?e b] goodEvent_accepted [OF v now(1)] ev due st
    by (simp add: goodEvent_def)
  then show "ro_Status t = (if ro_Stage s = 100 then RecommendationRolloutCompleted else RecommendationRolloutReady)"
    and "ro_Stage t = ro_Stage s" by simp_all
  then have "\<not> stuck t" by (simp add: stuck_def)
  then show "wellFormed t" using move_valid [OF Advance_moves [of s ?e] wf] by (auto simp: t_def)
qed

lemma happy_round:
  assumes h: "happy s0 s g" and g: "g \<noteq> 100" and ids: "sameIDs (ro_EvidenceIDs s0) (ro_EvidenceIDs s0)"
    and now: "0 < now" "round_end s0 now < ro_RecommendationExpiresAt s0"
  shows "\<exists>es. length es = 3 \<and> happy s0 (rollout_run s es) (nextStage g)"
proof -
  have wf: "wellFormed s" and ready: "ro_Status s = RecommendationRolloutReady" and gs: "ro_Stage s = g"
    and idq: "identity s = identity s0"
    using h g by (simp_all add: happy_def)
  have "validState s" using wf by (simp add: wellFormed_def)
  from validState_parts(1) [OF this] have "0 < ro_ObservationSeconds s" by (simp add: validIdentity_def)
  then have fin: "now < round_end s0 now" using idq by (simp add: round_end_def identity_def)
  have flds: "ro_EvidenceIDs t = ro_EvidenceIDs s0" "ro_RecommendationExpiresAt t = ro_RecommendationExpiresAt s0"
    "round_end t now = round_end s0 now" if "identity t = identity s0" for t
    using that by (simp_all add: identity_def round_end_def)
  define e1 s1 where "e1 = goodEvent s RecommendationRolloutEventEvaluate now" and "s1 = dcn_State (Advance s e1)"
  define e2 s2 where "e2 = goodEvent s1 RecommendationRolloutEventStageApplied now" and "s2 = dcn_State (Advance s1 e2)"
  define e3 s3 where "e3 = goodEvent s2 RecommendationRolloutEventObserve (round_end s0 now)" and "s3 = dcn_State (Advance s2 e3)"
  have id: "identity s1 = identity s0" "identity s2 = identity s0" "identity s3 = identity s0"
    using idq move_identity [OF Advance_moves [of s e1]] move_identity [OF Advance_moves [of s1 e2]]
      move_identity [OF Advance_moves [of s2 e3]] by (simp_all add: s1_def s2_def s3_def)
  note 1 = happy_start [OF wf ready, of now, folded e1_def, folded s1_def]
  have s1: "ro_Status s1 = RecommendationRolloutApplying" "ro_PendingStage s1 = nextStage g" "wellFormed s1"
    using 1 g gs ids now fin flds [OF idq] by simp_all
  note 2 = happy_applied [OF s1(3,1) now(1), folded e2_def, folded s2_def]
  have s2: "ro_Status s2 = RecommendationRolloutObserving" "ro_ObserveUntil s2 = Some (round_end s0 now)" "ro_Stage s2 = nextStage g"
    using 2(1) s1(2) flds [OF id(1)] by simp_all
  note 3 = happy_observed [OF 2(2) s2(1), of "round_end s0 now", folded e3_def, folded s3_def]
  have "happy s0 s3 (nextStage g)"
    using 3 ids now fin flds [OF id(2)] s2 id(3) by (simp add: happy_def)
  then show ?thesis
    by (intro exI [of _ "[e1, e2, e3]"]) (simp add: s1_def [symmetric] s2_def [symmetric] s3_def [symmetric])
qed

section \<open>A concrete rollout\<close>

definition sample_rollout :: RecommendationRolloutState where
  "sample_rollout = \<lparr>ro_ID = ''r1'', ro_UserID = 7, ro_PlanID = ''p1'', ro_RecommendationID = ''c1'',
     ro_RecommendationFingerprint = ''f1'', ro_FactVersion = 1, ro_EvidenceIDs = [''e1''], ro_BaselineFingerprint = ''b1'',
     ro_SchedulingGeneration = 1, ro_Status = RecommendationRolloutReady, ro_Stage = 0, ro_PendingStage = 0,
     ro_ObservationSeconds = 60, ro_RecommendationExpiresAt = 1000 * Second, ro_StartedAt = 1, ro_StageStartedAt = None,
     ro_ObserveUntil = None, ro_LastAfterEvidence = None, ro_RollbackReasons = [], ro_UpdatedAt = 1\<rparr>"

lemma sample_ids: "normalizeIDs [''e1''] = [''e1'']" "sameIDs [''e1''] [''e1'']"
  by (simp_all add: normalizeIDs_def sameIDs_def TrimSpace_plain plain_def)

lemma sample_init: "rollout_init sample_rollout"
  by (simp add: rollout_init_def validIdentity_def sample_rollout_def sample_ids TrimSpace_plain plain_def
      maxObservationSeconds_def IsZero_def)

definition sample_applying :: RecommendationRolloutState where
  "sample_applying = sample_rollout\<lparr>ro_Status := RecommendationRolloutApplying, ro_PendingStage := 10, ro_UpdatedAt := 5\<rparr>"

lemma sample_started:
  "dcn_State (Advance sample_rollout (goodEvent sample_rollout RecommendationRolloutEventEvaluate 5)) = sample_applying"
proof -
  have v: "validState sample_rollout" using init_wellFormed [OF sample_init] by (simp add: wellFormed_def)
  show ?thesis
    using Advance_start(1) [OF goodEvent_accepted [OF v, of 5 RecommendationRolloutEventEvaluate]]
      good_revalidation_ok [OF v, of 5] sample_ids
    by (simp add: goodEvent_def sample_applying_def) (simp add: sample_rollout_def nextStage_def)
qed

lemma sample_applying_reach: "reach rollout_init rollout_step sample_applying"
  by (rule reach_step [OF reach_init [of rollout_init, OF sample_init]]) (auto simp: rollout_step_def sample_started [symmetric])

lemma sample_applying_valid: "validState sample_applying"
  using rollout.reach_inv [OF sample_applying_reach]
  by (auto simp: rollout_ok_def wellFormed_def stuck_def sample_applying_def)

definition sample_last :: RecommendationRolloutState where
  "sample_last = sample_rollout\<lparr>ro_Status := RecommendationRolloutObserving, ro_Stage := 100,
     ro_StageStartedAt := Some 2, ro_ObserveUntil := Some 3\<rparr>"

lemma sample_last_valid: "validState sample_last"
  using sample_init by (simp add: validState_def sample_last_def rollout_init_def)

section \<open>Properties\<close>

text \<open>C23. Refinement: whatever the state and the event, \<open>Advance\<close> makes one move of the
  specification and emits the intent of that move.\<close>

theorem Advance_follows_spec:
  "rollout_move s e (dcn_State (Advance s e)) (act_Kind (dcn_Action (Advance s e)))"
  by (rule Advance_moves)

text \<open>C24. Traffic is expanded exactly on full evidence: \<open>Advance\<close> asks for the next stage if
  and only if the rollout is valid and ready below 100 percent, the event is a valid
  evaluation by the owner, its bindings equal the rollout's and are fresh, and every required
  gate is present exactly once and has passed; and the stage it asks for is the next one.\<close>

theorem expansion_needs_every_gate:
  "act_Kind (dcn_Action (Advance s e)) = RecommendationRolloutActionApplyStage \<longleftrightarrow>
     accepted s e \<and> ev_Type e = RecommendationRolloutEventEvaluate \<and> ro_Status s = RecommendationRolloutReady \<and>
     ro_Stage s \<noteq> 100 \<and> revalidation_ok s (ev_Revalidation e) (ev_Now e) \<and>
     act_TargetStage (dcn_Action (Advance s e)) = nextStage (ro_Stage s)"
  (is "?apply \<longleftrightarrow> ?ok")
proof
  assume act: ?apply
  have acc: "accepted s e"
  proof (rule ccontr)
    assume "\<not> accepted s e"
    from not_accepted [OF this] obtain r where "Advance s e = block (add r (initialDecision s)) (ev_Now e)" ..
    then show False using act by simp
  qed
  from Advance_moves [of s e] act have m: "ev_Type e = RecommendationRolloutEventEvaluate"
    "ro_Status s = RecommendationRolloutReady" "revalidation_ok s (ev_Revalidation e) (ev_Now e)" "nextStage (ro_Stage s) \<noteq> 0"
    by (auto simp: rollout_move_simps)
  then show ?ok using acc Advance_start(2) [OF acc m] by (auto simp: nextStage_def stageAction_def)
next
  assume ok: ?ok
  then have "nextStage (ro_Stage s) \<noteq> 0"
    using nextStage_None validState_parts(2) by (auto simp: accepted_def)
  then show ?apply using ok Advance_start(2) [of s e] by (simp add: stageAction_def)
qed

text \<open>The admitted share climbs one rung at a time: an event leaves it, raises it to the
  next stage of 10, 25, 50 and 100 on an acknowledgement of exactly that stage which carries the
  rollout's fingerprint, fact version and generation, or returns it to zero on proof that the
  baseline was restored.\<close>

theorem stage_moves_one_rung:
  assumes "validState s"
  shows "let t = dcn_State (Advance s e) in
    ro_Stage t = ro_Stage s \<or>
    (ro_Status s = RecommendationRolloutApplying \<and> ev_Type e = RecommendationRolloutEventStageApplied \<and>
     ev_AppliedStage e = nextStage (ro_Stage s) \<and> identity_ok s e \<and> ro_Stage t = nextStage (ro_Stage s)) \<or>
    (ro_Status s = RecommendationRolloutRollbackRequired \<and> ev_Type e = RecommendationRolloutEventRollbackApplied \<and>
     restored_ok s e \<and> ro_Stage t = 0)"
proof -
  have "ro_Status s = RecommendationRolloutApplying \<Longrightarrow> ro_PendingStage s = nextStage (ro_Stage s)"
    using assms by (simp add: validState_def split: if_splits)
  then show ?thesis using move_stage [OF Advance_moves [of s e]] unfolding Let_def by metis
qed

theorem stage_moves_one_rung_witness:
  "let t = dcn_State (Advance sample_applying (goodEvent sample_applying RecommendationRolloutEventStageApplied 6)) in
   ro_Stage sample_applying = 0 \<and> (ro_Stage t = 0 \<or> ro_Stage t = 10)"
  using stage_moves_one_rung [OF sample_applying_valid, of "goodEvent sample_applying RecommendationRolloutEventStageApplied 6"]
  by (auto simp: Let_def sample_applying_def sample_rollout_def nextStage_def)

text \<open>C25. The invariant of a rollout: from a new rollout, any sequence of events keeps the
  state well-formed, except that an event which blocks a rollout while an apply is pending
  leaves it blocked with the pending stage set; such a rollout stays blocked at its stage for
  ever.\<close>

theorem rollout_stays_well_formed:
  assumes "reach rollout_init rollout_step s"
  shows "(wellFormed s \<or> stuck s) \<and> (stuck s \<longrightarrow> stuck (dcn_State (Advance s e)) \<and>
    ro_Stage (dcn_State (Advance s e)) = ro_Stage s)"
  using rollout.reach_inv [OF assms] stuck_stays [of s e] by (auto simp: rollout_ok_def stuck_def)

theorem rollout_stays_well_formed_witness:
  "wellFormed sample_applying \<and> stuck (dcn_State (Advance sample_applying (goodEvent sample_applying RecommendationRolloutEventObserve 6)))"
proof -
  have r: "(wellFormed sample_applying \<or> stuck sample_applying)"
    using rollout_stays_well_formed [OF sample_applying_reach] by blast
  have "dcn_State (Advance sample_applying (goodEvent sample_applying RecommendationRolloutEventObserve 6)) =
      sample_applying\<lparr>ro_Status := RecommendationRolloutBlocked, ro_UpdatedAt := 6\<rparr>"
    using goodEvent_accepted [OF sample_applying_valid, of 6 RecommendationRolloutEventObserve]
    by (simp add: accepted_def Advance_def observe_def Let_def goodEvent_def sample_applying_def block_def sortReasons_def IsZero_def)
  then show ?thesis using r by (simp add: stuck_def) (simp add: sample_applying_def)
qed

text \<open>A rollout is completed only at 100 percent and only after the last stage was
  observed to the end of its window with fresh bindings, passed gates, callability and quality
  (or, for a rollout found ready at 100 percent, on a full revalidation).\<close>

theorem completed_only_after_observation:
  assumes "validState s" and "ro_Status s \<noteq> RecommendationRolloutCompleted"
    and "ro_Status (dcn_State (Advance s e)) = RecommendationRolloutCompleted"
  shows "ro_Stage s = 100 \<and> revalidation_ok s (ev_Revalidation e) (ev_Now e) \<and>
    (ro_Status s = RecommendationRolloutReady \<or>
     ro_Status s = RecommendationRolloutObserving \<and> observed_ok s e \<and> (\<exists>b. ro_ObserveUntil s = Some b \<and> b \<le> ev_Now e))"
  using move_completed [OF Advance_moves assms] by blast

theorem completed_only_after_observation_witness:
  "observed_ok sample_last (goodEvent sample_last RecommendationRolloutEventObserve 5)"
proof -
  let ?e = "goodEvent sample_last RecommendationRolloutEventObserve 5"
  have ev: "observed_ok sample_last ?e"
    using good_revalidation_ok [OF sample_last_valid, of 5] sample_ids
    by (simp add: observed_ok_def goodEvent_def validAfterEvidence_def IsRecommendationRolloutGateStatus_def freshWindow_def IsZero_def)
       (simp add: sample_last_def sample_rollout_def sample_ids)
  have s: "ro_Status (dcn_State (Advance sample_last ?e)) = RecommendationRolloutCompleted"
    using Advance_promote [OF goodEvent_accepted [OF sample_last_valid, of 5 RecommendationRolloutEventObserve], of 3] ev
    by (simp add: goodEvent_def) (simp add: sample_last_def)
  have "ro_Status sample_last \<noteq> RecommendationRolloutCompleted" by (simp add: sample_last_def)
  from completed_only_after_observation [OF sample_last_valid this s] show ?thesis by (simp add: sample_last_def)
qed

text \<open>C26. Liveness: a new rollout whose recommendation stays valid for four observation
  windows is completed at 100 percent by twelve events, three for each stage; no reachable
  check of the machine prevents it.\<close>

theorem rollout_completes:
  assumes "rollout_init s" "sameIDs (ro_EvidenceIDs s) (ro_EvidenceIDs s)" "0 < now"
    and "now + 4 * (ro_ObservationSeconds s * Second) < ro_RecommendationExpiresAt s"
  shows "\<exists>es. length es = 12 \<and> ro_Status (rollout_run s es) = RecommendationRolloutCompleted \<and>
    ro_Stage (rollout_run s es) = 100"
proof -
  let ?w = "ro_ObservationSeconds s * Second"
  have "0 < ro_ObservationSeconds s" using assms(1) by (simp add: rollout_init_def validIdentity_def)
  then have w: "0 \<le> ?w" by simp
  have room: "0 < now + k * ?w \<and> round_end s (now + k * ?w) < ro_RecommendationExpiresAt s" if "0 \<le> k" "k \<le> 3" for k
  proof -
    have "(k + 1) * ?w \<le> 4 * ?w" using that w by (intro mult_right_mono) simp_all
    moreover have "0 \<le> k * ?w" using that w by simp
    ultimately show ?thesis using assms(3,4) by (simp add: round_end_def distrib_right)
  qed
  have h0: "happy s s 0"
    using init_wellFormed [OF assms(1)] assms(1) by (simp add: happy_def rollout_init_def)
  have round: "\<exists>es. length es = 3 \<and> happy s (rollout_run t es) (nextStage g)"
    if "happy s t g" "g \<noteq> 100" "0 \<le> k" "k \<le> 3" for t g and k :: int
    using happy_round [OF that(1,2) assms(2), of "now + k * ?w"] room [OF that(3,4)] by simp
  from round [OF h0, of 0] obtain es1 where e1: "length es1 = 3" "happy s (rollout_run s es1) 10"
    by (auto simp: nextStage_def)
  from round [OF e1(2), of 1] obtain es2 where e2: "length es2 = 3" "happy s (rollout_run s (es1 @ es2)) 25"
    by (auto simp: nextStage_def)
  from round [OF e2(2), of 2] obtain es3 where e3: "length es3 = 3" "happy s (rollout_run s (es1 @ es2 @ es3)) 50"
    by (auto simp: nextStage_def)
  from round [OF e3(2), of 3] obtain es4 where e4: "length es4 = 3" "happy s (rollout_run s (es1 @ es2 @ es3 @ es4)) 100"
    by (auto simp: nextStage_def)
  show ?thesis
    by (rule exI [of _ "es1 @ es2 @ es3 @ es4"]) (use e1 e2 e3 e4 in \<open>simp add: happy_def\<close>)
qed

theorem rollout_completes_witness:
  "\<exists>es. length es = 12 \<and> ro_Status (rollout_run sample_rollout es) = RecommendationRolloutCompleted \<and>
    ro_Stage (rollout_run sample_rollout es) = 100"
  by (rule rollout_completes [OF sample_init, of 1]) (simp_all add: sample_rollout_def sample_ids)

text \<open>The integer weights: a baseline is accepted for a staged rollout exactly when it
  is between 6 and 100, that is, exactly when every stage moves strictly more than the one
  before and the last one drains the source.\<close>

theorem sourceBaselineSupportsEveryStage_iff:
  "sourceBaselineSupportsEveryStage w \<longleftrightarrow> 6 \<le> w \<and> w \<le> 100"
proof (cases "w \<in> set [1..100]")
  case True
  have "\<forall>w \<in> set [1..100]. sourceBaselineSupportsEveryStage w = (6 \<le> w)"
    by code_simp
  then show ?thesis using True by auto
next
  case False
  then show ?thesis
    by (auto simp: sourceBaselineSupportsEveryStage_def forwardRolloutStages_def sourceBaselineMoved_def)
qed

end
