(* ===== verification/Strategy_Types.thy ===== *)
theory Strategy_Types
  imports Store_Types
begin

text \<open>
  The contracts of the quality strategy: the health states, windows and snapshots of
  \<open>packages/e2m-contracts/channel_health.go\<close>, the strategies of \<open>route_strategy.go\<close>, and the
  candidates, reasons and rankings of \<open>app/e2m-core/internal/strategy/strategy.go\<close>.

  A reason carries a stable code and a message for people. A message is kept as the format
  string with its arguments, before \<open>fmt.Sprintf\<close> prints it; no code reads a message. The
  format strings are Chinese, given here by their UTF-8 bytes.
\<close>

section \<open>Contracts\<close>

datatype HealthState =
    HealthUnknown
  | HealthHealthy
  | HealthDegraded
  | HealthUnhealthy
  | HealthQuarantined
  | HealthRecovering
  | HealthStateOther string

datatype HealthWindow =
    Window1m
  | Window5m
  | Window30m
  | Window24h
  | HealthWindowOther string

fun HealthWindow_Duration :: "HealthWindow \<Rightarrow> duration" where
  "HealthWindow_Duration Window1m = Minute"
| "HealthWindow_Duration Window5m = 5 * Minute"
| "HealthWindow_Duration Window30m = 30 * Minute"
| "HealthWindow_Duration Window24h = 24 * Hour"
| "HealthWindow_Duration (HealthWindowOther _) = 0"

record ChannelHealthSnapshot =
  snap_ID :: string
  snap_ChannelID :: string
  snap_PoolID :: string
  snap_InstanceID :: string
  snap_Model :: string
  snap_Capability :: string
  snap_EndpointPath :: string
  snap_Window :: HealthWindow
  snap_BucketStart :: time
  snap_SampleCount :: int64
  snap_SuccessRate :: float64
  snap_TTFTP50 :: float64
  snap_TTFTP95 :: float64
  snap_DurationP50 :: float64
  snap_DurationP95 :: float64
  snap_ErrorRate :: float64
  snap_QualitySampleCount :: int64
  snap_QualitySuccessRate :: float64
  snap_QualityErrorRate :: float64
  snap_TimeoutRate :: float64
  snap_RateLimitRate :: float64
  snap_UpstreamErrorRate :: float64
  snap_UpstreamFailureCount :: int64
  snap_AuthFailureCount :: int64
  snap_InsufficientBalanceCount :: int64
  snap_EstimatedCostPer1KTokens :: float64
  snap_HealthScore :: float64
  snap_QualityScore :: float64
  snap_SuccessScore :: float64
  snap_TTFTScore :: float64
  snap_DurationScore :: float64
  snap_StabilityScore :: float64
  snap_CostScore :: float64
  snap_RiskScore :: float64
  snap_HealthState :: HealthState
  snap_CreatedAt :: time

datatype RouteStrategyType =
    StrategyStabilityFirst
  | StrategyCostFirst
  | StrategyLatencyFirst
  | StrategyBalanced
  | RouteStrategyTypeOther string

fun RouteStrategyType_Normalize :: "RouteStrategyType \<Rightarrow> RouteStrategyType" where
  "RouteStrategyType_Normalize (RouteStrategyTypeOther _) = StrategyStabilityFirst"
| "RouteStrategyType_Normalize t = t"

record StrategyWeights =
  wt_Success :: float64
  wt_TTFT :: float64
  wt_Duration :: float64
  wt_Stability :: float64
  wt_Cost :: float64

record StrategyThresholds =
  th_MinSamples :: int64
  th_TargetSuccessRate :: float64
  th_FloorSuccessRate :: float64
  th_MaxTTFTP95MS :: float64
  th_MaxDurationP95MS :: float64
  th_ConsecutiveFailureLimit :: int64
  th_EjectScore :: float64

datatype StrategyScope =
    StrategyScopePlan
  | StrategyScopePool
  | StrategyScopeUser
  | StrategyScopeOther string

record RouteStrategy =
  rst_ID :: string
  rst_Name :: string
  rst_Type :: RouteStrategyType
  rst_Thresholds :: StrategyThresholds
  rst_Weights :: StrategyWeights
  rst_AutoApply :: bool
  rst_ApprovalRequired :: bool
  rst_CooldownSeconds :: int64
  rst_RecoveryObservationSeconds :: int64
  rst_MaxAutoSwitchesPerHour :: int64
  rst_Scope :: StrategyScope
  rst_PlanID :: string
  rst_PoolID :: string
  rst_UserID :: int64
  rst_CreatedAt :: time
  rst_UpdatedAt :: time

section \<open>Reasons\<close>

datatype text_arg = FloatArg float64 | IntArg int64 | StrategyArg RouteStrategyType

datatype message = Message string "text_arg list"

record Reason =
  reason_Code :: string
  reason_Text :: message

abbreviation plainText :: "string \<Rightarrow> message" where
  "plainText t \<equiv> Message t []"

definition Reason_zero :: Reason where
  "Reason_zero = \<lparr>reason_Code = '''', reason_Text = plainText ''''\<rparr>"

section \<open>Messages\<close>

definition text_cooldown :: string where
  "text_cooldown = map byte
    [232, 183, 157, 228, 184, 138, 230, 172, 161, 229, 136, 135, 230, 141, 162, 230, 156, 170, 230, 187, 161, 230, 156, 128, 229, 176, 143, 233, 151, 180,
     233, 154, 148, 239, 188, 140, 229, 164, 132, 228, 186, 142, 229, 134, 183, 229, 141, 180, 230, 156, 159, 239, 188, 140, 230, 154, 130, 228, 184, 141,
     232, 135, 170, 229, 138, 168, 229, 136, 135, 230, 141, 162]"

definition text_max_rate :: string where
  "text_max_rate = map byte
    [230, 156, 172, 229, 176, 143, 230, 151, 182, 232, 135, 170, 229, 138, 168, 229, 136, 135, 230, 141, 162, 230, 172, 161, 230, 149, 176, 229, 183, 178,
     232, 190, 190, 228, 184, 138, 233, 153, 144, 239, 188, 140, 230, 154, 130, 229, 129, 156, 232, 135, 170, 229, 138, 168, 229, 136, 135, 230, 141, 162,
     228, 187, 165, 233, 129, 191, 229, 133, 141, 230, 138, 150, 229, 138, 168]"

definition text_ok :: string where
  "text_ok = map byte
    [230, 156, 170, 232, 167, 166, 229, 143, 145, 233, 152, 178, 230, 138, 150, 233, 153, 144, 229, 136, 182, 239, 188, 140, 229, 133, 129, 232, 174, 184,
     232, 135, 170, 229, 138, 168, 229, 136, 135, 230, 141, 162]"

definition text_healthy :: string where
  "text_healthy = map byte
    [232, 180, 168, 233, 135, 143, 230, 156, 170, 232, 190, 190, 229, 136, 176, 230, 145, 152, 233, 153, 164, 230, 157, 161, 228, 187, 182]"

definition text_probe_required :: string where
  "text_probe_required = map byte
    [231, 173, 137, 229, 190, 133, 228, 184, 187, 229, 138, 168, 230, 129, 162, 229, 164, 141, 230, 142, 162, 230, 181, 139]"

definition text_cooling :: string where
  "text_cooling = map byte
    [229, 134, 183, 229, 141, 180, 230, 156, 159, 230, 156, 170, 231, 187, 147, 230, 157, 159, 239, 188, 140, 229, 191, 189, 231, 149, 165, 230, 143, 144,
     229, 137, 141, 230, 142, 162, 230, 181, 139]"

definition text_half_open :: string where
  "text_half_open = map byte
    [233, 166, 150, 228, 184, 170, 230, 129, 162, 229, 164, 141, 230, 142, 162, 230, 181, 139, 233, 128, 154, 232, 191, 135, 239, 188, 140, 232, 191, 155,
     229, 133, 165, 229, 141, 138, 229, 188, 128, 232, 167, 130, 229, 175, 159]"

definition text_half_open_only :: string where
  "text_half_open_only = map byte
    [229, 141, 138, 229, 188, 128, 231, 138, 182, 230, 128, 129, 228, 187, 133, 230, 142, 165, 229, 143, 151, 228, 184, 187, 229, 138, 168, 230, 142, 162,
     230, 181, 139]"

definition text_probe_succeeded :: string where
  "text_probe_succeeded = map byte
    [230, 129, 162, 229, 164, 141, 230, 142, 162, 230, 181, 139, 233, 128, 154, 232, 191, 135, 239, 188, 140, 231, 187, 167, 231, 187, 173, 229, 141, 138,
     229, 188, 128, 232, 167, 130, 229, 175, 159]"

definition text_probe_failed :: string where
  "text_probe_failed = map byte
    [232, 180, 168, 233, 135, 143, 230, 142, 162, 230, 181, 139, 230, 156, 170, 232, 190, 190, 229, 136, 176, 230, 129, 162, 229, 164, 141, 230, 160, 135,
     229, 135, 134]"

definition text_restored :: string where
  "text_restored = map byte
    [232, 191, 158, 231, 187, 173, 230, 129, 162, 229, 164, 141, 230, 142, 162, 230, 181, 139, 233, 128, 154, 232, 191, 135, 239, 188, 140, 230, 129, 162,
     229, 164, 141, 229, 143, 130, 228, 184, 142, 232, 176, 131, 229, 186, 166]"

definition text_retired_gate :: string where
  "text_retired_gate = map byte
    [230, 184, 160, 233, 129, 147, 229, 183, 178, 228, 184, 139, 231, 186, 191, 40, 114, 101, 116, 105, 114, 101, 100, 41, 239, 188, 140, 228, 184, 141,
     229, 143, 130, 228, 184, 142, 233, 128, 137, 232, 183, 175]"

definition text_maintenance_gate :: string where
  "text_maintenance_gate = map byte
    [230, 184, 160, 233, 129, 147, 229, 164, 132, 228, 186, 142, 231, 187, 180, 230, 138, 164, 230, 128, 129, 239, 188, 140, 230, 137, 139, 229, 138, 168,
     231, 187, 180, 230, 138, 164, 228, 188, 152, 229, 133, 136, 228, 186, 142, 232, 135, 170, 229, 138, 168, 231, 173, 150, 231, 149, 165]"

definition text_quarantined_gate :: string where
  "text_quarantined_gate = map byte
    [230, 184, 160, 233, 129, 147, 229, 183, 178, 232, 162, 171, 233, 154, 148, 231, 166, 187, 40, 113, 117, 97, 114, 97, 110, 116, 105, 110, 101, 100,
     41, 239, 188, 140, 231, 173, 137, 229, 190, 133, 230, 129, 162, 229, 164, 141, 232, 167, 130, 229, 175, 159, 230, 156, 159]"

definition text_auth_gate :: string where
  "text_auth_gate = map byte
    [232, 174, 164, 232, 175, 129, 229, 164, 177, 232, 180, 165, 239, 188, 140, 231, 155, 180, 230, 142, 165, 232, 184, 162, 229, 135, 186, 229, 128, 153,
     233, 128, 137]"

definition text_balance_gate :: string where
  "text_balance_gate = map byte
    [228, 189, 153, 233, 162, 157, 228, 184, 141, 232, 182, 179, 239, 188, 140, 231, 155, 180, 230, 142, 165, 232, 184, 162, 229, 135, 186, 229, 128, 153,
     233, 128, 137]"

definition text_success_floor :: string where
  "text_success_floor = map byte
    [232, 191, 145, 231, 170, 151, 232, 180, 168, 233, 135, 143, 230, 136, 144, 229, 138, 159, 231, 142, 135, 32, 37, 46, 49, 102, 37, 37, 32, 228,
     189, 142, 228, 186, 142, 231, 161, 172, 229, 186, 149, 231, 186, 191, 32, 37, 46, 49, 102, 37, 37]"

definition text_ttft_ceiling :: string where
  "text_ttft_ceiling = map byte
    [233, 166, 150, 229, 173, 151, 229, 187, 182, 232, 191, 159, 32, 112, 57, 53, 32, 37, 46, 48, 102, 109, 115, 32, 232, 182, 133, 232, 191, 135,
     228, 184, 138, 233, 153, 144, 32, 37, 46, 48, 102, 109, 115]"

definition text_duration_ceiling :: string where
  "text_duration_ceiling = map byte
    [230, 128, 187, 232, 128, 151, 230, 151, 182, 32, 112, 57, 53, 32, 37, 46, 48, 102, 109, 115, 32, 232, 182, 133, 232, 191, 135, 228, 184, 138,
     233, 153, 144, 32, 37, 46, 48, 102, 109, 115]"

definition text_score :: string where
  "text_score = map byte
    [231, 187, 188, 229, 144, 136, 232, 175, 132, 229, 136, 134, 32, 37, 46, 49, 102, 239, 188, 136, 229, 142, 159, 229, 167, 139, 32, 37, 46, 49,
     102, 32, 195, 151, 32, 231, 189, 174, 228, 191, 161, 229, 186, 166, 32, 37, 46, 48, 102, 37, 37, 239, 188, 140, 231, 173, 150, 231, 149, 165,
     32, 37, 115, 239, 188, 137]"

definition text_success :: string where
  "text_success = map byte
    [230, 136, 144, 229, 138, 159, 231, 142, 135, 32, 37, 46, 49, 102, 37, 37, 32, 47, 32, 112, 57, 53, 233, 166, 150, 229, 173, 151, 32, 37,
     46, 48, 102, 109, 115, 32, 47, 32, 112, 57, 53, 230, 128, 187, 232, 128, 151, 230, 151, 182, 32, 37, 46, 48, 102, 109, 115, 32, 47, 32,
     230, 136, 144, 230, 156, 172, 229, 136, 134, 32, 37, 46, 48, 102]"

definition text_low_samples :: string where
  "text_low_samples = map byte
    [230, 160, 183, 230, 156, 172, 228, 184, 141, 232, 182, 179, 239, 188, 136, 37, 100, 47, 37, 100, 239, 188, 137, 239, 188, 140, 229, 183, 178, 228,
     184, 139, 232, 176, 131, 232, 175, 132, 229, 136, 134, 231, 189, 174, 228, 191, 161, 229, 186, 166, 239, 188, 140, 233, 129, 191, 229, 133, 141, 232,
     191, 135, 229, 186, 166, 228, 191, 161, 228, 187, 187, 232, 150, 132, 229, 188, 177, 230, 149, 176, 230, 141, 174]"

definition text_floor_passed :: string where
  "text_floor_passed = map byte
    [229, 183, 178, 230, 187, 161, 232, 182, 179, 230, 136, 144, 230, 156, 172, 228, 188, 152, 229, 133, 136, 231, 154, 132, 232, 180, 168, 233, 135, 143,
     229, 186, 149, 231, 186, 191, 239, 188, 140, 232, 191, 155, 229, 133, 165, 230, 140, 137, 230, 136, 144, 230, 156, 172, 230, 142, 146, 229, 186, 143]"

definition text_floor_failed :: string where
  "text_floor_failed = map byte
    [230, 156, 170, 230, 187, 161, 232, 182, 179, 232, 180, 168, 233, 135, 143, 229, 186, 149, 231, 186, 191, 239, 188, 140, 230, 136, 144, 230, 156, 172,
     228, 188, 152, 229, 133, 136, 228, 184, 139, 232, 162, 171, 233, 153, 141, 231, 186, 167, 230, 142, 146, 229, 186, 143]"

definition text_threshold :: string where
  "text_threshold = map byte
    [232, 180, 168, 233, 135, 143, 229, 136, 134, 32, 37, 46, 49, 102, 32, 229, 183, 178, 232, 190, 190, 229, 136, 176, 230, 145, 152, 233, 153, 164,
     231, 186, 191, 32, 37, 46, 49, 102]"

definition text_retired :: string where
  "text_retired = map byte
    [230, 184, 160, 233, 129, 147, 229, 183, 178, 228, 184, 139, 231, 186, 191, 239, 188, 140, 228, 184, 141, 232, 131, 189, 229, 143, 130, 228, 184, 142,
     232, 176, 131, 229, 186, 166]"

definition text_maintenance :: string where
  "text_maintenance = map byte
    [230, 184, 160, 233, 129, 147, 229, 164, 132, 228, 186, 142, 231, 187, 180, 230, 138, 164, 231, 138, 182, 230, 128, 129, 239, 188, 140, 228, 184, 141,
     232, 131, 189, 229, 143, 130, 228, 184, 142, 232, 176, 131, 229, 186, 166]"

definition text_quarantined :: string where
  "text_quarantined = map byte
    [230, 184, 160, 233, 129, 147, 229, 164, 132, 228, 186, 142, 229, 134, 183, 229, 141, 180, 233, 154, 148, 231, 166, 187, 230, 156, 159]"

definition text_recovering :: string where
  "text_recovering = map byte
    [230, 184, 160, 233, 129, 147, 229, 164, 132, 228, 186, 142, 229, 141, 138, 229, 188, 128, 230, 129, 162, 229, 164, 141, 230, 156, 159, 239, 188, 140,
     228, 187, 133, 229, 133, 129, 232, 174, 184, 228, 184, 187, 229, 138, 168, 230, 142, 162, 230, 181, 139]"

definition text_auth :: string where
  "text_auth = map byte
    [232, 174, 164, 232, 175, 129, 229, 164, 177, 232, 180, 165, 239, 188, 140, 231, 171, 139, 229, 141, 179, 230, 145, 152, 233, 153, 164, 229, 189, 147,
     229, 137, 141, 231, 148, 168, 230, 136, 183, 231, 154, 132, 229, 135, 173, 232, 175, 129, 231, 187, 145, 229, 174, 154]"

definition text_balance :: string where
  "text_balance = map byte
    [228, 189, 153, 233, 162, 157, 228, 184, 141, 232, 182, 179, 239, 188, 140, 231, 171, 139, 229, 141, 179, 230, 145, 152, 233, 153, 164, 229, 189, 147,
     229, 137, 141, 231, 148, 168, 230, 136, 183, 231, 154, 132, 229, 135, 173, 232, 175, 129, 231, 187, 145, 229, 174, 154]"

definition text_penalty_score :: string where
  "text_penalty_score = map byte
    [232, 180, 168, 233, 135, 143, 229, 136, 134, 32, 37, 46, 49, 102, 32, 61, 32, 49, 48, 48, 32, 45, 32, 37, 46, 49, 102]"

definition text_penalty_error :: string where
  "text_penalty_error = map byte
    [228, 184, 138, 230, 184, 184, 232, 180, 163, 228, 187, 187, 233, 148, 153, 232, 175, 175, 231, 142, 135, 32, 37, 46, 49, 102, 37, 37, 239, 188,
     140, 230, 137, 163, 32, 37, 46, 49, 102, 32, 229, 136, 134]"

definition text_penalty_ttft :: string where
  "text_penalty_ttft = map byte
    [112, 57, 53, 32, 233, 166, 150, 229, 173, 151, 232, 128, 151, 230, 151, 182, 32, 37, 46, 48, 102, 109, 115, 239, 188, 140, 230, 137, 163, 32,
     37, 46, 49, 102, 32, 229, 136, 134]"

definition text_penalty_duration :: string where
  "text_penalty_duration = map byte
    [112, 57, 53, 32, 230, 128, 187, 232, 128, 151, 230, 151, 182, 32, 37, 46, 48, 102, 109, 115, 239, 188, 140, 230, 137, 163, 32, 37, 46, 49,
     102, 32, 229, 136, 134]"

definition text_evidence :: string where
  "text_evidence = map byte
    [229, 189, 147, 229, 137, 141, 230, 160, 183, 230, 156, 172, 232, 175, 129, 230, 141, 174, 32, 37, 46, 48, 102, 37, 37, 239, 188, 140, 228, 187,
     133, 230, 140, 137, 232, 175, 165, 230, 175, 148, 228, 190, 139, 232, 174, 161, 229, 133, 165, 232, 180, 168, 233, 135, 143, 230, 137, 163, 229, 136,
     134]"

section \<open>Candidates and rankings\<close>

record PenaltyBreakdown =
  pb_ErrorRate :: float64
  pb_ErrorPenalty :: float64
  pb_TTFTPenalty :: float64
  pb_DurationPenalty :: float64
  pb_TotalPenalty :: float64

record Candidate =
  cd_Channel :: UpstreamChannel
  cd_Snapshot :: ChannelHealthSnapshot
  cd_State :: HealthState
  cd_AuthFailure :: bool
  cd_InsufficientBalance :: bool
  cd_ConsecutiveFailures :: int64
  cd_ProviderDown :: bool

record ScoredCandidate =
  sc_ChannelID :: string
  sc_RawScore :: float64
  sc_Score :: float64
  sc_Confidence :: float64
  sc_FloorPassed :: bool
  sc_Reasons :: "Reason list"
  sc_Snapshot :: ChannelHealthSnapshot
  sc_Penalties :: "PenaltyBreakdown option"

record ExcludedCandidate =
  xc_ChannelID :: string
  xc_Reason :: Reason
  xc_Score :: float64
  xc_HardFailure :: bool
  xc_Penalties :: "PenaltyBreakdown option"
  xc_Snapshot :: ChannelHealthSnapshot

record Ranking =
  rk_Strategy :: RouteStrategyType
  rk_Eligible :: "ScoredCandidate list"
  rk_Excluded :: "ExcludedCandidate list"

text \<open>\<open>Ranking.Best\<close>: the pair with \<open>ok\<close> as an option.\<close>

definition Ranking_Best :: "Ranking \<Rightarrow> ScoredCandidate option" where
  "Ranking_Best r = (case rk_Eligible r of [] \<Rightarrow> None | x # _ \<Rightarrow> Some x)"

end
