(* ===== verification/Channel_Runtime.thy ===== *)
theory Channel_Runtime
  imports Strategy_Types
begin

text \<open>
  \<open>app/e2m-core/internal/strategy/statemachine.go\<close>: the runtime health state of a channel and
  the limits on automatic switches. The methods of \<open>*ChannelRuntime\<close> return the updated
  record; \<open>Transition\<close> also returns the new \<open>State\<close>, which is that field of the record.
\<close>

section \<open>The state machine of a channel\<close>

record StateThresholds =
  st_DegradedWindowsToUnhealthy :: int64
  st_HealthyWindowsToRecover :: int64
  st_RecoveryObservation :: duration

definition DefaultStateThresholds :: StateThresholds where
  "DefaultStateThresholds = \<lparr>st_DegradedWindowsToUnhealthy = 2, st_HealthyWindowsToRecover = 2,
     st_RecoveryObservation = 15 * Minute\<rparr>"

definition StateThresholds_withDefaults :: "StateThresholds \<Rightarrow> StateThresholds" where
  "StateThresholds_withDefaults t =
     (let d = DefaultStateThresholds;
          t = (if st_DegradedWindowsToUnhealthy t \<le> 0
               then t\<lparr>st_DegradedWindowsToUnhealthy := st_DegradedWindowsToUnhealthy d\<rparr> else t);
          t = (if st_HealthyWindowsToRecover t \<le> 0
               then t\<lparr>st_HealthyWindowsToRecover := st_HealthyWindowsToRecover d\<rparr> else t)
      in if st_RecoveryObservation t \<le> 0 then t\<lparr>st_RecoveryObservation := st_RecoveryObservation d\<rparr> else t)"

record ChannelRuntime =
  cr_ChannelID :: string
  cr_State :: HealthState
  cr_consecutiveUnhealthy :: int64
  cr_consecutiveDegraded :: int64
  cr_consecutiveHealthy :: int64
  cr_QuarantinedAt :: time
  cr_RecoveringSince :: time
  cr_LastTransition :: time

fun updateCounters :: "HealthState \<Rightarrow> ChannelRuntime \<Rightarrow> ChannelRuntime" where
  "updateCounters HealthHealthy r = r\<lparr>cr_consecutiveHealthy := wrap64 (cr_consecutiveHealthy r + 1),
     cr_consecutiveDegraded := 0, cr_consecutiveUnhealthy := 0\<rparr>"
| "updateCounters HealthDegraded r = r\<lparr>cr_consecutiveDegraded := wrap64 (cr_consecutiveDegraded r + 1),
     cr_consecutiveHealthy := 0, cr_consecutiveUnhealthy := 0\<rparr>"
| "updateCounters HealthUnhealthy r = r\<lparr>cr_consecutiveUnhealthy := wrap64 (cr_consecutiveUnhealthy r + 1),
     cr_consecutiveDegraded := wrap64 (cr_consecutiveDegraded r + 1), cr_consecutiveHealthy := 0\<rparr>"
| "updateCounters _ r = r"

definition resetCounters :: "ChannelRuntime \<Rightarrow> ChannelRuntime" where
  "resetCounters r = r\<lparr>cr_consecutiveHealthy := 0, cr_consecutiveDegraded := 0, cr_consecutiveUnhealthy := 0\<rparr>"

definition set_state :: "HealthState \<Rightarrow> time \<Rightarrow> ChannelRuntime \<Rightarrow> ChannelRuntime" where
  "set_state state now r =
     (let r = (if cr_State r \<noteq> state then r\<lparr>cr_LastTransition := now\<rparr> else r) in r\<lparr>cr_State := state\<rparr>)"

definition Transition :: "HealthState \<Rightarrow> time \<Rightarrow> StateThresholds \<Rightarrow> ChannelRuntime \<Rightarrow> ChannelRuntime" where
  "Transition verdict now th r =
     (let th = StateThresholds_withDefaults th;
          r = (if cr_State r = HealthStateOther '''' then r\<lparr>cr_State := HealthUnknown\<rparr> else r) in
      if cr_State r = HealthQuarantined then r
      else if verdict = HealthUnknown then r
      else let r = updateCounters verdict r in
      case cr_State r of
        HealthRecovering \<Rightarrow>
          (if verdict = HealthHealthy then
             (if st_HealthyWindowsToRecover th \<le> cr_consecutiveHealthy r \<and>
                (IsZero (cr_RecoveringSince r) \<or> st_RecoveryObservation th \<le> time_Sub now (cr_RecoveringSince r))
              then set_state HealthHealthy now r else r)
           else set_state HealthUnhealthy now r)
      | HealthUnhealthy \<Rightarrow>
          (if verdict = HealthHealthy then (set_state HealthRecovering now r)\<lparr>cr_RecoveringSince := now\<rparr> else r)
      | _ \<Rightarrow>
          (case verdict of
             HealthHealthy \<Rightarrow> set_state HealthHealthy now r
           | HealthDegraded \<Rightarrow>
               (if cr_State r = HealthDegraded \<and> st_DegradedWindowsToUnhealthy th \<le> cr_consecutiveDegraded r
                then set_state HealthUnhealthy now r else set_state HealthDegraded now r)
           | HealthUnhealthy \<Rightarrow> set_state HealthUnhealthy now r
           | _ \<Rightarrow> r))"

definition Quarantine :: "time \<Rightarrow> ChannelRuntime \<Rightarrow> ChannelRuntime" where
  "Quarantine now r =
     resetCounters ((set_state HealthQuarantined now r)\<lparr>cr_QuarantinedAt := now, cr_RecoveringSince := 0\<rparr>)"

definition BeginRecovery :: "time \<Rightarrow> ChannelRuntime \<Rightarrow> ChannelRuntime" where
  "BeginRecovery now r =
     (if cr_State r \<noteq> HealthQuarantined then r
      else resetCounters ((set_state HealthRecovering now r)\<lparr>cr_RecoveringSince := now\<rparr>))"

section \<open>Limits on automatic switches\<close>

record DampeningDecision =
  dd_Allowed :: bool
  dd_Reason :: Reason

definition DampenCooldown :: string where "DampenCooldown = ''dampen_cooldown''"
definition DampenMaxRate :: string where "DampenMaxRate = ''dampen_max_per_hour''"
definition DampenOK :: string where "DampenOK = ''dampen_ok''"

text \<open>The switches within the hour before \<open>now\<close>, counted as the loop does.\<close>

fun countAfter :: "time \<Rightarrow> time list \<Rightarrow> int64 \<Rightarrow> int64" where
  "countAfter hourAgo [] n = n"
| "countAfter hourAgo (t # ts) n = countAfter hourAgo ts (if hourAgo < t then wrap64 (n + 1) else n)"

definition AllowSwitch :: "RouteStrategy \<Rightarrow> time \<Rightarrow> time list \<Rightarrow> time \<Rightarrow> DampeningDecision" where
  "AllowSwitch s lastSwitch recentSwitches now =
     (if 0 < rst_CooldownSeconds s \<and> \<not> IsZero lastSwitch \<and>
         time_Sub now lastSwitch < wrap64 (rst_CooldownSeconds s * Second)
      then \<lparr>dd_Allowed = False, dd_Reason = \<lparr>reason_Code = DampenCooldown, reason_Text = plainText text_cooldown\<rparr>\<rparr>
      else if 0 < rst_MaxAutoSwitchesPerHour s \<and>
         rst_MaxAutoSwitchesPerHour s \<le> countAfter (now - Hour) recentSwitches 0
      then \<lparr>dd_Allowed = False, dd_Reason = \<lparr>reason_Code = DampenMaxRate, reason_Text = plainText text_max_rate\<rparr>\<rparr>
      else \<lparr>dd_Allowed = True, dd_Reason = \<lparr>reason_Code = DampenOK, reason_Text = plainText text_ok\<rparr>\<rparr>)"

section \<open>Runs of a channel\<close>

datatype runtime_event = Verdict HealthState time | Drain time | Probe time

fun event_time :: "runtime_event \<Rightarrow> time" where
  "event_time (Verdict _ t) = t"
| "event_time (Drain t) = t"
| "event_time (Probe t) = t"

fun apply_event :: "StateThresholds \<Rightarrow> runtime_event \<Rightarrow> ChannelRuntime \<Rightarrow> ChannelRuntime" where
  "apply_event th (Verdict v t) r = Transition v t th r"
| "apply_event th (Drain t) r = Quarantine t r"
| "apply_event th (Probe t) r = BeginRecovery t r"

definition runtime_run :: "StateThresholds \<Rightarrow> runtime_event list \<Rightarrow> ChannelRuntime \<Rightarrow> ChannelRuntime" where
  "runtime_run th es r = fold (apply_event th) es r"

text \<open>The aggregator emits data verdicts only, and clocks do not read the zero time.\<close>

definition data_event :: "runtime_event \<Rightarrow> bool" where
  "data_event e \<longleftrightarrow> 0 < event_time e \<and>
     (case e of Verdict v _ \<Rightarrow> v \<in> {HealthUnknown, HealthHealthy, HealthDegraded, HealthUnhealthy} | _ \<Rightarrow> True)"

definition healthy_windows :: "runtime_event list \<Rightarrow> nat" where
  "healthy_windows es = length (filter (\<lambda>e. \<exists>t. e = Verdict HealthHealthy t) es)"

text \<open>No drain and no bad verdict.\<close>

definition quiet :: "runtime_event \<Rightarrow> bool" where
  "quiet e \<longleftrightarrow> (case e of Verdict v _ \<Rightarrow> v \<in> {HealthUnknown, HealthHealthy} | Drain _ \<Rightarrow> False | Probe _ \<Rightarrow> True)"

text \<open>The observation that started with the event \<open>e\<close> is under way after \<open>e # es\<close>.\<close>

definition observing :: "StateThresholds \<Rightarrow> ChannelRuntime \<Rightarrow> runtime_event list \<Rightarrow> runtime_event \<Rightarrow> runtime_event list \<Rightarrow> bool" where
  "observing th r before e es \<longleftrightarrow>
     cr_State (runtime_run th before r) \<in> {HealthQuarantined, HealthUnhealthy} \<and> list_all quiet (e # es)"

text \<open>The run contains a complete observation: it entered recovery with \<open>e\<close>, saw no bad
  window, enough healthy ones, and waited long enough before the last of them.\<close>

definition promoted :: "StateThresholds \<Rightarrow> ChannelRuntime \<Rightarrow> runtime_event list \<Rightarrow> bool" where
  "promoted th r es \<longleftrightarrow>
     (\<exists>before e during p after. es = before @ e # during @ p # after \<and> observing th r before e during \<and>
        (\<exists>t. p = Verdict HealthHealthy t) \<and>
        st_HealthyWindowsToRecover (StateThresholds_withDefaults th) \<le> int (healthy_windows (e # during @ [p])) \<and>
        st_RecoveryObservation (StateThresholds_withDefaults th) \<le> event_time p - event_time e)"

lemma runtime_run_simps [simp]:
  "runtime_run th [] r = r" "runtime_run th (es @ [e]) r = apply_event th e (runtime_run th es r)"
  by (simp_all add: runtime_run_def)

lemma set_state_simps [simp]:
  "cr_State (set_state v t r) = v" "cr_consecutiveHealthy (set_state v t r) = cr_consecutiveHealthy r"
  "cr_RecoveringSince (set_state v t r) = cr_RecoveringSince r"
  by (simp_all add: set_state_def)

lemma resetCounters_simps [simp]:
  "cr_State (resetCounters r) = cr_State r" "cr_consecutiveHealthy (resetCounters r) = 0"
  "cr_RecoveringSince (resetCounters r) = cr_RecoveringSince r"
  by (simp_all add: resetCounters_def)

lemma updateCounters_simps [simp]:
  "cr_State (updateCounters v r) = cr_State r" "cr_RecoveringSince (updateCounters v r) = cr_RecoveringSince r"
  by (cases v; simp)+

lemma withDefaults_pos:
  "0 < st_HealthyWindowsToRecover (StateThresholds_withDefaults th)"
  "0 < st_RecoveryObservation (StateThresholds_withDefaults th)"
  "0 < st_DegradedWindowsToUnhealthy (StateThresholds_withDefaults th)"
  by (auto simp: StateThresholds_withDefaults_def DefaultStateThresholds_def Let_def)

lemma promoted_append: "promoted th r es \<Longrightarrow> promoted th r (es @ fs)"
  unfolding promoted_def by (metis append.assoc append_Cons)

lemma time_Sub_le: "0 < d \<Longrightarrow> d \<le> time_Sub t u \<Longrightarrow> d \<le> t - u"
  by (auto simp: time_Sub_def max_def min_def split: if_splits)

lemma wrap64_succ_le: "in64 n \<Longrightarrow> wrap64 (n + 1) \<le> n + 1"
  by (cases "in64 (n + 1)") (auto simp: wrap64_id in64_def wrap64_def)

text \<open>What a run from quarantine knows about its state.\<close>

definition runtime_ok :: "StateThresholds \<Rightarrow> ChannelRuntime \<Rightarrow> runtime_event list \<Rightarrow> bool" where
  "runtime_ok th r es \<longleftrightarrow>
     (let c = runtime_run th es r in
      in64 (cr_consecutiveHealthy c) \<and>
      (case cr_State c of
         HealthQuarantined \<Rightarrow> True
       | HealthUnhealthy \<Rightarrow> cr_consecutiveHealthy c \<le> 0
       | HealthRecovering \<Rightarrow>
           (\<exists>before e during. es = before @ e # during \<and> observing th r before e during \<and>
              cr_consecutiveHealthy c \<le> int (healthy_windows (e # during)) \<and>
              cr_RecoveringSince c = event_time e \<and> 0 < event_time e)
       | HealthStateOther _ \<Rightarrow> False
       | HealthUnknown \<Rightarrow> False
       | _ \<Rightarrow> promoted th r es))"

lemma observing_extend:
  "observing th r before e during \<Longrightarrow> quiet f \<Longrightarrow> observing th r before e (during @ [f])"
  by (simp add: observing_def)

lemma healthy_windows_simps [simp]:
  "healthy_windows (es @ fs) = healthy_windows es + healthy_windows fs" "healthy_windows [] = 0"
  "healthy_windows (Verdict HealthHealthy t # es) = Suc (healthy_windows es)"
  by (simp_all add: healthy_windows_def)

lemma runtime_ok_healthyD:
  assumes "runtime_ok th r es" "cr_State (runtime_run th es r) = HealthRecovering"
  obtains before e during where "es = before @ e # during" "observing th r before e during"
    "cr_consecutiveHealthy (runtime_run th es r) \<le> int (healthy_windows (e # during))"
    "cr_RecoveringSince (runtime_run th es r) = event_time e" "0 < event_time e"
  using assms by (auto simp: runtime_ok_def Let_def)

lemma runtime_ok_recoveringI:
  assumes "observing th r before e during" "apply_event th f (runtime_run th (before @ e # during) r) = c" "quiet f"
    "cr_State c = HealthRecovering" "in64 (cr_consecutiveHealthy c)"
    "cr_consecutiveHealthy c \<le> int (healthy_windows (e # during @ [f]))" "cr_RecoveringSince c = event_time e" "0 < event_time e"
  shows "runtime_ok th r ((before @ e # during) @ [f])"
proof -
  have "runtime_run th ((before @ e # during) @ [f]) r = c" using assms(2) by (simp only: runtime_run_simps)
  then show ?thesis unfolding runtime_ok_def Let_def
    using assms(4-8) observing_extend [OF assms(1,3)]
    by (simp only: HealthState.case, intro conjI exI [of _ before] exI [of _ e] exI [of _ "during @ [f]"]) simp_all
qed

text \<open>While recovering, a healthy window either completes the observation or extends it.\<close>

lemma runtime_ok_recovering_healthy:
  assumes ok: "runtime_ok th r es" and rec: "cr_State (runtime_run th es r) = HealthRecovering"
  shows "runtime_ok th r (es @ [Verdict HealthHealthy t])"
proof -
  let ?c = "runtime_run th es r" and ?p = "Verdict HealthHealthy t" and ?th = "StateThresholds_withDefaults th"
  obtain before e during where o: "es = before @ e # during" "observing th r before e during"
    "cr_consecutiveHealthy ?c \<le> int (healthy_windows (e # during))" "cr_RecoveringSince ?c = event_time e" "0 < event_time e"
    by (rule runtime_ok_healthyD [OF ok rec])
  have i64: "in64 (cr_consecutiveHealthy ?c)" using ok by (simp add: runtime_ok_def Let_def)
  have n: "wrap64 (cr_consecutiveHealthy ?c + 1) \<le> int (healthy_windows (e # during @ [?p]))"
    using wrap64_succ_le [OF i64] o(3) healthy_windows_simps(1) [of "e # during" "[?p]"] by simp
  show ?thesis
  proof (cases "cr_State (Transition HealthHealthy t th ?c) = HealthHealthy")
    case True
    then have "st_HealthyWindowsToRecover ?th \<le> wrap64 (cr_consecutiveHealthy ?c + 1)"
      "st_RecoveryObservation ?th \<le> time_Sub t (event_time e)"
      using rec o(4,5) by (auto simp: Transition_def Let_def IsZero_def split: if_splits)
    then have "promoted th r (es @ [?p])"
      unfolding promoted_def using o(1,2) n time_Sub_le [OF withDefaults_pos(2)]
      by (intro exI [of _ before] exI [of _ e] exI [of _ during] exI [of _ ?p] exI [of _ "[]"]) auto
    moreover have "in64 (cr_consecutiveHealthy (Transition HealthHealthy t th ?c))"
      using rec by (simp add: Transition_def Let_def)
    ultimately show ?thesis using True by (simp add: runtime_ok_def Let_def)
  next
    case False
    then have c: "Transition HealthHealthy t th ?c = updateCounters HealthHealthy ?c"
      using rec by (auto simp: Transition_def Let_def)
    show ?thesis unfolding o(1)
      by (rule runtime_ok_recoveringI [OF o(2), where c = "updateCounters HealthHealthy ?c"])
         (use c n rec o in \<open>simp_all add: quiet_def\<close>)
  qed
qed

text \<open>An event that changes nothing and is not bad keeps the knowledge.\<close>

lemma runtime_ok_same:
  assumes "runtime_ok th r es" "apply_event th e (runtime_run th es r) = runtime_run th es r" "quiet e"
  shows "runtime_ok th r (es @ [e])"
proof (cases "cr_State (runtime_run th es r) = HealthRecovering")
  case True
  obtain before f during where o: "es = before @ f # during" "observing th r before f during"
    "cr_consecutiveHealthy (runtime_run th es r) \<le> int (healthy_windows (f # during))"
    "cr_RecoveringSince (runtime_run th es r) = event_time f" "0 < event_time f"
    by (rule runtime_ok_healthyD [OF assms(1) True])
  have "healthy_windows (f # during) \<le> healthy_windows (f # during @ [e])" 
    using healthy_windows_simps(1) [of "f # during" "[e]"] by simp
  then have "cr_consecutiveHealthy (runtime_run th es r) \<le> int (healthy_windows (f # during @ [e]))" using o(3) by linarith
  moreover have "in64 (cr_consecutiveHealthy (runtime_run th es r))" using assms(1) by (simp add: runtime_ok_def Let_def)
  ultimately show ?thesis using runtime_ok_recoveringI [OF o(2) _ assms(3) True] assms(2) o(1,4,5) by blast
next
  case False
  then show ?thesis using assms(1,2) promoted_append [of th r es "[e]"]
    by (auto simp: runtime_ok_def Let_def split: HealthState.splits)
qed

lemma in64_0 [simp]: "in64 0"
  by (simp add: in64_def)

lemma runtime_ok_verdict:
  assumes ok: "runtime_ok th r es" and e: "data_event (Verdict v t)"
  shows "runtime_ok th r (es @ [Verdict v t])"
proof -
  let ?c = "runtime_run th es r"
  have v: "v \<in> {HealthUnknown, HealthHealthy, HealthDegraded, HealthUnhealthy}" and t: "0 < t"
    using e by (auto simp: data_event_def)
  have st: "cr_State ?c \<noteq> HealthUnknown" "\<And>x. cr_State ?c \<noteq> HealthStateOther x" "in64 (cr_consecutiveHealthy ?c)"
    using ok by (auto simp: runtime_ok_def Let_def)
  have still: "runtime_ok th r (es @ [Verdict v t])" if "cr_State ?c = HealthQuarantined"
    using that v st(3) by (auto simp: runtime_ok_def Let_def Transition_def)
  show ?thesis
  proof (cases "cr_State ?c")
    case HealthQuarantined
    then show ?thesis by (rule still)
  next
    case HealthRecovering
    consider "v = HealthHealthy" | "v = HealthUnknown" | "v \<in> {HealthDegraded, HealthUnhealthy}" using v by blast
    then show ?thesis
    proof cases
      case 1
      then show ?thesis using runtime_ok_recovering_healthy [OF ok HealthRecovering] by simp
    next
      case 2
      then show ?thesis using HealthRecovering runtime_ok_same [OF ok, of "Verdict HealthUnknown t"]
        by (simp add: Transition_def Let_def quiet_def)
    next
      case 3
      then show ?thesis using HealthRecovering by (auto simp: Transition_def Let_def runtime_ok_def)
    qed
  next
    case HealthUnhealthy
    show ?thesis
    proof (cases "v = HealthHealthy")
      case True
      have "observing th r es (Verdict v t) []" using HealthUnhealthy True by (simp add: observing_def quiet_def)
      moreover have "wrap64 (cr_consecutiveHealthy ?c + 1) \<le> 1"
        using wrap64_succ_le [OF st(3)] ok HealthUnhealthy by (simp add: runtime_ok_def Let_def)
      ultimately show ?thesis using HealthUnhealthy True t unfolding runtime_ok_def Let_def
        by (simp add: Transition_def Let_def)
           (intro exI [of _ es] exI [of _ "Verdict HealthHealthy t"] exI [of _ "[]"], simp)
    next
      case False
      then show ?thesis using HealthUnhealthy v ok by (auto simp: Transition_def Let_def runtime_ok_def)
    qed
  next
    case HealthHealthy
    then have "promoted th r (es @ [Verdict v t])" using ok promoted_append by (simp add: runtime_ok_def Let_def)
    then show ?thesis using HealthHealthy v st(3) by (auto simp: Transition_def Let_def runtime_ok_def)
  next
    case HealthDegraded
    then have "promoted th r (es @ [Verdict v t])" using ok promoted_append by (simp add: runtime_ok_def Let_def)
    then show ?thesis using HealthDegraded v st(3) by (auto simp: Transition_def Let_def runtime_ok_def)
  qed (use st in auto)
qed

lemma runtime_ok_step:
  assumes "runtime_ok th r es" "data_event e"
  shows "runtime_ok th r (es @ [e])"
proof (cases e)
  case (Drain t)
  then show ?thesis by (simp add: runtime_ok_def Quarantine_def in64_def)
next
  case (Probe t)
  show ?thesis
  proof (cases "cr_State (runtime_run th es r) = HealthQuarantined")
    case True
    then have "observing th r es e []" using Probe by (simp add: observing_def quiet_def)
    then show ?thesis using True Probe assms(2) unfolding runtime_ok_def Let_def
      by (simp add: BeginRecovery_def in64_def data_event_def) (fastforce simp: healthy_windows_def)
  next
    case False
    then show ?thesis using runtime_ok_same [OF assms(1), of e] Probe by (simp add: BeginRecovery_def quiet_def)
  qed
next
  case (Verdict v t)
  then show ?thesis using assms runtime_ok_verdict by blast
qed

lemma runtime_ok_run:
  "list_all data_event es \<Longrightarrow> runtime_ok th (Quarantine t0 r) es"
proof (induction es rule: rev_induct)
  case Nil
  then show ?case by (simp add: runtime_ok_def Quarantine_def in64_def)
next
  case (snoc e es)
  then show ?case using runtime_ok_step by simp
qed

section \<open>Runs of switches\<close>

text \<open>A history of switches, oldest first, in which every switch was allowed when it was made:
  the last switch and the history are what \<open>AllowSwitch\<close> is given.\<close>

inductive paced :: "RouteStrategy \<Rightarrow> time list \<Rightarrow> bool" for s :: RouteStrategy where
  paced_Nil: "paced s []"
| paced_snoc: "paced s ts \<Longrightarrow> 0 < now \<Longrightarrow> (\<And>u. u \<in> set ts \<Longrightarrow> u \<le> now) \<Longrightarrow>
    dd_Allowed (AllowSwitch s (if ts = [] then 0 else last ts) ts now) \<Longrightarrow> paced s (ts @ [now])"

definition switchesIn :: "time \<Rightarrow> time \<Rightarrow> time list \<Rightarrow> time list" where
  "switchesIn lo hi ts = filter (\<lambda>t. lo < t \<and> t \<le> hi) ts"

lemma countAfter_filter:
  "0 \<le> n \<Longrightarrow> n + int (length ts) < 2 ^ 63 \<Longrightarrow> countAfter lo ts n = n + int (length (filter (\<lambda>t. lo < t) ts))"
proof (induction lo ts n rule: countAfter.induct)
  case (2 lo t ts n)
  then have "wrap64 (n + 1) = n + 1" by (intro wrap64_id) (simp add: in64_def)
  with 2 show ?case by simp
qed simp

lemma AllowSwitch_iff:
  "dd_Allowed (AllowSwitch s l ts now) \<longleftrightarrow>
     \<not> (0 < rst_CooldownSeconds s \<and> \<not> IsZero l \<and> time_Sub now l < wrap64 (rst_CooldownSeconds s * Second)) \<and>
     \<not> (0 < rst_MaxAutoSwitchesPerHour s \<and> rst_MaxAutoSwitchesPerHour s \<le> countAfter (now - Hour) ts 0)"
  by (simp add: AllowSwitch_def)

text \<open>At most the permitted number of switches falls into any hour.\<close>

lemma paced_rate:
  assumes "paced s ts" "0 < rst_MaxAutoSwitchesPerHour s" "int (length ts) < 2 ^ 63"
  shows "int (length (switchesIn (w - Hour) w ts)) \<le> rst_MaxAutoSwitchesPerHour s"
  using assms
proof (induction rule: paced.induct)
  case paced_Nil
  then show ?case by (simp add: switchesIn_def)
next
  case (paced_snoc ts now)
  show ?case
  proof (cases "w - Hour < now \<and> now \<le> w")
    case True
    have "length (switchesIn (w - Hour) w ts) \<le> length (filter (\<lambda>t. now - Hour < t) ts)"
      unfolding switchesIn_def using True by (induction ts) auto
    moreover have "countAfter (now - Hour) ts 0 = int (length (filter (\<lambda>t. now - Hour < t) ts))"
      using countAfter_filter [of 0 ts "now - Hour"] paced_snoc.prems by simp
    ultimately show ?thesis using paced_snoc.hyps(4) paced_snoc.prems(1) by (simp add: AllowSwitch_iff switchesIn_def)
  next
    case False
    then show ?thesis using paced_snoc by (auto simp: switchesIn_def)
  qed
qed

lemma paced_times: "paced s ts \<Longrightarrow> t \<in> set ts \<Longrightarrow> 0 < t"
  by (induction rule: paced.induct) auto

text \<open>Switches that follow each other are a cooldown apart.\<close>

lemma paced_cooldown:
  assumes "paced s ts" "0 < rst_CooldownSeconds s" "rst_CooldownSeconds s * Second < 2 ^ 63" "Suc i < length ts"
  shows "rst_CooldownSeconds s * Second \<le> ts ! Suc i - ts ! i"
  using assms
proof (induction arbitrary: i rule: paced.induct)
  case (paced_snoc ts now)
  show ?case
  proof (cases "Suc i < length ts")
    case True
    then show ?thesis using paced_snoc by (simp add: nth_append)
  next
    case False
    with paced_snoc.prems have i: "Suc i = length ts" "ts \<noteq> []" by auto
    then have l: "last ts = ts ! i" by (metis diff_Suc_1 last_conv_nth)
    have "0 < last ts" using paced_times [OF paced_snoc.hyps(1)] i(2) by simp
    then have "wrap64 (rst_CooldownSeconds s * Second) \<le> time_Sub now (last ts)"
      using paced_snoc.hyps(4) paced_snoc.prems(1) i(2) by (simp add: AllowSwitch_iff IsZero_def not_less)
    moreover have "wrap64 (rst_CooldownSeconds s * Second) = rst_CooldownSeconds s * Second"
      using paced_snoc.prems by (intro wrap64_id) (simp add: in64_def)
    ultimately have "rst_CooldownSeconds s * Second \<le> now - last ts"
      using paced_snoc.prems(1) by (intro time_Sub_le) simp_all
    then show ?thesis using i l by (simp add: nth_append)
  qed
qed simp

section \<open>Properties\<close>

text \<open>C32. Switch back slow. A channel that was quarantined is healthy again only after a complete
  observation: it entered recovery from quarantine or from the unhealthy state, then saw no
  drain and no bad window, at least the required number of healthy windows, and the last of
  these came no earlier than the observation time after the entry.\<close>

theorem recovery_is_slow:
  assumes "list_all data_event es" "cr_State (runtime_run th es (Quarantine t0 r)) = HealthHealthy"
  shows "promoted th (Quarantine t0 r) es"
  using runtime_ok_run [OF assms(1), of th t0 r] assms(2) by (simp add: runtime_ok_def Let_def)

definition sample_runtime :: ChannelRuntime where
  "sample_runtime = \<lparr>cr_ChannelID = ''c1'', cr_State = HealthUnhealthy, cr_consecutiveUnhealthy = 2, cr_consecutiveDegraded = 2,
     cr_consecutiveHealthy = 0, cr_QuarantinedAt = 0, cr_RecoveringSince = 0, cr_LastTransition = 1\<rparr>"

definition sample_events :: "runtime_event list" where
  "sample_events = [Probe 5, Verdict HealthHealthy 6, Verdict HealthUnknown 7, Verdict HealthHealthy (5 + 15 * Minute)]"

theorem recovery_is_slow_witness:
  "cr_State (runtime_run DefaultStateThresholds sample_events (Quarantine 2 sample_runtime)) = HealthHealthy \<and>
   promoted DefaultStateThresholds (Quarantine 2 sample_runtime) sample_events"
proof -
  have d: "list_all data_event sample_events" by (simp add: sample_events_def data_event_def)
  have "cr_State (runtime_run DefaultStateThresholds sample_events (Quarantine 2 sample_runtime)) = HealthHealthy"
    by (simp add: runtime_run_def sample_events_def sample_runtime_def Quarantine_def BeginRecovery_def resetCounters_def
        set_state_def Transition_def StateThresholds_withDefaults_def DefaultStateThresholds_def wrap64_def time_Sub_def)
  with recovery_is_slow [OF d this] show ?thesis by simp
qed

text \<open>The limits on automatic switches hold over every history of allowed switches: any hour
  contains at most the configured number, and consecutive switches are at least the cooldown
  apart.\<close>

theorem switches_are_paced:
  assumes "paced s ts" "int (length ts) < 2 ^ 63" "rst_CooldownSeconds s * Second < 2 ^ 63"
  shows "(0 < rst_MaxAutoSwitchesPerHour s \<longrightarrow> int (length (switchesIn (w - Hour) w ts)) \<le> rst_MaxAutoSwitchesPerHour s) \<and>
    (0 < rst_CooldownSeconds s \<longrightarrow> (\<forall>i. Suc i < length ts \<longrightarrow> rst_CooldownSeconds s * Second \<le> ts ! Suc i - ts ! i))"
  using paced_rate [OF assms(1) _ assms(2)] paced_cooldown [OF assms(1) _ assms(3)] by blast

definition sample_strategy :: RouteStrategy where
  "sample_strategy = \<lparr>rst_ID = ''rs1'', rst_Name = '''', rst_Type = StrategyCostFirst,
     rst_Thresholds = \<lparr>th_MinSamples = 0, th_TargetSuccessRate = Fin 0, th_FloorSuccessRate = Fin 0, th_MaxTTFTP95MS = Fin 0,
       th_MaxDurationP95MS = Fin 0, th_ConsecutiveFailureLimit = 0, th_EjectScore = Fin 0\<rparr>,
     rst_Weights = \<lparr>wt_Success = Fin 0, wt_TTFT = Fin 0, wt_Duration = Fin 0, wt_Stability = Fin 0, wt_Cost = Fin 0\<rparr>,
     rst_AutoApply = True, rst_ApprovalRequired = False, rst_CooldownSeconds = 60, rst_RecoveryObservationSeconds = 0,
     rst_MaxAutoSwitchesPerHour = 2, rst_Scope = StrategyScopeUser, rst_PlanID = '''', rst_PoolID = '''', rst_UserID = 7,
     rst_CreatedAt = 0, rst_UpdatedAt = 0\<rparr>"

theorem switches_are_paced_witness:
  "paced sample_strategy [1, 1 + Minute] \<and> int (length (switchesIn (2 + Minute - Hour) (2 + Minute) [1, 1 + Minute])) \<le> 2"
proof -
    have c: "rst_MaxAutoSwitchesPerHour sample_strategy = 2" "rst_CooldownSeconds sample_strategy = 60"
    by (simp_all add: sample_strategy_def)
  have "paced sample_strategy [1]"
    using paced_snoc [OF paced_Nil, of 1 sample_strategy] c by (simp add: AllowSwitch_iff IsZero_def)
  then have p: "paced sample_strategy [1, 1 + Minute]"
    using paced_snoc [of sample_strategy "[1]" "1 + Minute"] c by (simp add: AllowSwitch_iff time_Sub_def wrap64_def)
  from switches_are_paced [OF p, of "2 + Minute"] p show ?thesis unfolding c by simp
qed

end
