(* ===== verification/Quality_Penalty.thy ===== *)
theory Quality_Penalty
  imports Channel_Runtime "HOL-Library.Product_Lexorder"
begin

text \<open>
  The scoring of candidates in \<open>app/e2m-core/internal/strategy\<close>: the defaults of \<open>config.go\<close>,
  the gates and blended scores of \<open>engine.go\<close>, the 100-point deductions of \<open>penalty.go\<close> and
  the preference order of \<open>preference.go\<close>.
\<close>

section \<open>Defaults (config.go)\<close>

record resolvedStrategy =
  rs_typ :: RouteStrategyType
  rs_weights :: StrategyWeights
  rs_thresholds :: StrategyThresholds

definition defaultWeights :: "RouteStrategyType \<Rightarrow> StrategyWeights" where
  "defaultWeights t =
     (case t of
        StrategyCostFirst \<Rightarrow> \<lparr>wt_Success = round64 (25 / 100), wt_TTFT = round64 (15 / 100), wt_Duration = round64 (10 / 100),
          wt_Stability = round64 (5 / 100), wt_Cost = round64 (45 / 100)\<rparr>
      | StrategyLatencyFirst \<Rightarrow> \<lparr>wt_Success = round64 (20 / 100), wt_TTFT = round64 (45 / 100), wt_Duration = round64 (25 / 100),
          wt_Stability = round64 (5 / 100), wt_Cost = round64 (5 / 100)\<rparr>
      | StrategyBalanced \<Rightarrow> \<lparr>wt_Success = round64 (35 / 100), wt_TTFT = round64 (25 / 100), wt_Duration = round64 (15 / 100),
          wt_Stability = round64 (15 / 100), wt_Cost = round64 (10 / 100)\<rparr>
      | _ \<Rightarrow> \<lparr>wt_Success = round64 (55 / 100), wt_TTFT = round64 (10 / 100), wt_Duration = round64 (5 / 100),
          wt_Stability = round64 (25 / 100), wt_Cost = round64 (5 / 100)\<rparr>)"

definition defaultThresholds :: StrategyThresholds where
  "defaultThresholds = \<lparr>th_MinSamples = 5, th_TargetSuccessRate = round64 (95 / 100), th_FloorSuccessRate = round64 (85 / 100),
     th_MaxTTFTP95MS = Fin 4000, th_MaxDurationP95MS = Fin 20000, th_ConsecutiveFailureLimit = 3, th_EjectScore = Fin 60\<rparr>"

text \<open>\<open>w == (StrategyWeights{})\<close> compares field by field.\<close>

definition zeroWeights :: "StrategyWeights \<Rightarrow> bool" where
  "zeroWeights w \<longleftrightarrow> feq (wt_Success w) (Fin 0) \<and> feq (wt_TTFT w) (Fin 0) \<and> feq (wt_Duration w) (Fin 0) \<and>
     feq (wt_Stability w) (Fin 0) \<and> feq (wt_Cost w) (Fin 0)"

definition resolve :: "RouteStrategy \<Rightarrow> resolvedStrategy" where
  "resolve s =
     (let typ = RouteStrategyType_Normalize (rst_Type s);
          w = rst_Weights s;
          w = (if zeroWeights w then defaultWeights typ else w);
          d = defaultThresholds;
          th = rst_Thresholds s;
          th = (if th_MinSamples th \<le> 0 then th\<lparr>th_MinSamples := th_MinSamples d\<rparr> else th);
          th = (if fle (th_TargetSuccessRate th) (Fin 0) then th\<lparr>th_TargetSuccessRate := th_TargetSuccessRate d\<rparr> else th);
          th = (if fle (th_FloorSuccessRate th) (Fin 0) then th\<lparr>th_FloorSuccessRate := th_FloorSuccessRate d\<rparr> else th);
          th = (if fle (th_MaxTTFTP95MS th) (Fin 0) then th\<lparr>th_MaxTTFTP95MS := th_MaxTTFTP95MS d\<rparr> else th);
          th = (if fle (th_MaxDurationP95MS th) (Fin 0) then th\<lparr>th_MaxDurationP95MS := th_MaxDurationP95MS d\<rparr> else th);
          th = (if th_ConsecutiveFailureLimit th \<le> 0
                then th\<lparr>th_ConsecutiveFailureLimit := th_ConsecutiveFailureLimit d\<rparr> else th);
          th = (if fle (th_EjectScore th) (Fin 0) \<or> flt (Fin 100) (th_EjectScore th)
                then th\<lparr>th_EjectScore := th_EjectScore d\<rparr> else th)
      in \<lparr>rs_typ = typ, rs_weights = w, rs_thresholds = th\<rparr>)"

definition clamp :: "float64 \<Rightarrow> float64 \<Rightarrow> float64 \<Rightarrow> float64" where
  "clamp v lo hi = (if flt v lo then lo else if flt hi v then hi else v)"

section \<open>Gates and blended scores (engine.go)\<close>

definition GateRetired :: string where "GateRetired = ''gate_retired''"
definition GateMaintenance :: string where "GateMaintenance = ''gate_maintenance''"
definition GateQuarantined :: string where "GateQuarantined = ''gate_quarantined''"
definition GateAuth :: string where "GateAuth = ''gate_auth''"
definition GateBalance :: string where "GateBalance = ''gate_balance''"
definition GateRecovering :: string where "GateRecovering = ''gate_recovering''"
definition GatePenaltyThreshold :: string where "GatePenaltyThreshold = ''gate_penalty_threshold''"
definition GateSuccessFloor :: string where "GateSuccessFloor = ''gate_success_floor''"
definition GateTTFTP95 :: string where "GateTTFTP95 = ''gate_ttft_p95''"
definition GateDurationP95 :: string where "GateDurationP95 = ''gate_duration_p95''"
definition ReasonScore :: string where "ReasonScore = ''score''"
definition ReasonSuccess :: string where "ReasonSuccess = ''success''"
definition ReasonFloorPassed :: string where "ReasonFloorPassed = ''floor_passed''"
definition ReasonFloorFailed :: string where "ReasonFloorFailed = ''floor_failed''"
definition ReasonLowConfidence :: string where "ReasonLowConfidence = ''low_confidence''"
definition ReasonPenaltyScore :: string where "ReasonPenaltyScore = ''penalty_score''"
definition ReasonPenaltyError :: string where "ReasonPenaltyError = ''penalty_error''"
definition ReasonPenaltyTTFT :: string where "ReasonPenaltyTTFT = ''penalty_ttft''"
definition ReasonPenaltyTotal :: string where "ReasonPenaltyTotal = ''penalty_duration''"

definition emptySnapshot :: ChannelHealthSnapshot where
  "emptySnapshot = \<lparr>snap_ID = '''', snap_ChannelID = '''', snap_PoolID = '''', snap_InstanceID = '''', snap_Model = '''',
     snap_Capability = '''', snap_EndpointPath = '''', snap_Window = HealthWindowOther '''', snap_BucketStart = 0, snap_SampleCount = 0,
     snap_SuccessRate = Fin 0, snap_TTFTP50 = Fin 0, snap_TTFTP95 = Fin 0, snap_DurationP50 = Fin 0, snap_DurationP95 = Fin 0,
     snap_ErrorRate = Fin 0, snap_QualitySampleCount = 0, snap_QualitySuccessRate = Fin 0, snap_QualityErrorRate = Fin 0,
     snap_TimeoutRate = Fin 0, snap_RateLimitRate = Fin 0, snap_UpstreamErrorRate = Fin 0, snap_UpstreamFailureCount = 0,
     snap_AuthFailureCount = 0, snap_InsufficientBalanceCount = 0, snap_EstimatedCostPer1KTokens = Fin 0, snap_HealthScore = Fin 0,
     snap_QualityScore = Fin 0, snap_SuccessScore = Fin 0, snap_TTFTScore = Fin 0, snap_DurationScore = Fin 0,
     snap_StabilityScore = Fin 0, snap_CostScore = Fin 0, snap_RiskScore = Fin 0, snap_HealthState = HealthStateOther '''', snap_CreatedAt = 0\<rparr>"

definition excl :: "string \<Rightarrow> string \<Rightarrow> message \<Rightarrow> ExcludedCandidate" where
  "excl channelID code t = \<lparr>xc_ChannelID = channelID, xc_Reason = \<lparr>reason_Code = code, reason_Text = t\<rparr>, xc_Score = Fin 0,
     xc_HardFailure = False, xc_Penalties = None, xc_Snapshot = emptySnapshot\<rparr>"

definition pct :: "float64 \<Rightarrow> text_arg" where
  "pct x = FloatArg (fmul x (Fin 100))"

definition hardGate :: "resolvedStrategy \<Rightarrow> Candidate \<Rightarrow> ExcludedCandidate option" where
  "hardGate rs c =
     (let i = chan_ID (cd_Channel c); th = rs_thresholds rs; snap = cd_Snapshot c in
      if chan_Status (cd_Channel c) = UpstreamChannelRetired then Some (excl i GateRetired (plainText text_retired_gate))
      else if chan_Status (cd_Channel c) = UpstreamChannelMaintenance then Some (excl i GateMaintenance (plainText text_maintenance_gate))
      else if cd_State c = HealthQuarantined then Some (excl i GateQuarantined (plainText text_quarantined_gate))
      else if cd_AuthFailure c then Some (excl i GateAuth (plainText text_auth_gate))
      else if cd_InsufficientBalance c then Some (excl i GateBalance (plainText text_balance_gate))
      else if th_MinSamples th \<le> snap_QualitySampleCount snap then
        (if flt (snap_QualitySuccessRate snap) (th_FloorSuccessRate th) then
           Some (excl i GateSuccessFloor (Message text_success_floor [pct (snap_QualitySuccessRate snap), pct (th_FloorSuccessRate th)]))
         else if flt (Fin 0) (snap_TTFTP95 snap) \<and> flt (th_MaxTTFTP95MS th) (snap_TTFTP95 snap) then
           Some (excl i GateTTFTP95 (Message text_ttft_ceiling [FloatArg (snap_TTFTP95 snap), FloatArg (th_MaxTTFTP95MS th)]))
         else if flt (Fin 0) (snap_DurationP95 snap) \<and> flt (th_MaxDurationP95MS th) (snap_DurationP95 snap) then
           Some (excl i GateDurationP95 (Message text_duration_ceiling [FloatArg (snap_DurationP95 snap), FloatArg (th_MaxDurationP95MS th)]))
         else None)
      else None)"

definition confidence :: "int64 \<Rightarrow> int64 \<Rightarrow> float64" where
  "confidence sampleCount minSamples =
     (if minSamples \<le> 0 then Fin 1
      else if minSamples \<le> sampleCount then Fin 1
      else if sampleCount \<le> 0 then Fin 0
      else fdiv (float64_of_int sampleCount) (float64_of_int minSamples))"

definition passesQualityFloor :: "StrategyThresholds \<Rightarrow> ChannelHealthSnapshot \<Rightarrow> bool" where
  "passesQualityFloor th snap \<longleftrightarrow>
     \<not> snap_QualitySampleCount snap < th_MinSamples th \<and>
     \<not> flt (snap_QualitySuccessRate snap) (th_TargetSuccessRate th) \<and>
     \<not> (flt (Fin 0) (snap_TTFTP95 snap) \<and> flt (th_MaxTTFTP95MS th) (snap_TTFTP95 snap)) \<and>
     \<not> (flt (Fin 0) (snap_DurationP95 snap) \<and> flt (th_MaxDurationP95MS th) (snap_DurationP95 snap))"

definition score_candidate :: "resolvedStrategy \<Rightarrow> Candidate \<Rightarrow> ScoredCandidate" where
  "score_candidate rs c =
     (let snap = cd_Snapshot c; w = rs_weights rs;
          raw = clamp (fadd (fadd (fadd (fadd (fmul (snap_SuccessScore snap) (wt_Success w)) (fmul (snap_TTFTScore snap) (wt_TTFT w)))
                   (fmul (snap_DurationScore snap) (wt_Duration w))) (fmul (snap_StabilityScore snap) (wt_Stability w)))
                   (fmul (snap_CostScore snap) (wt_Cost w))) (Fin 0) (Fin 100);
          conf = confidence (snap_QualitySampleCount snap) (th_MinSamples (rs_thresholds rs));
          floorOK = passesQualityFloor (rs_thresholds rs) snap;
          score = fmul raw conf;
          rs1 = [\<lparr>reason_Code = ReasonScore, reason_Text = Message text_score [FloatArg score, FloatArg raw, pct conf, StrategyArg (rs_typ rs)]\<rparr>,
                 \<lparr>reason_Code = ReasonSuccess, reason_Text = Message text_success [pct (snap_QualitySuccessRate snap),
                    FloatArg (snap_TTFTP95 snap), FloatArg (snap_DurationP95 snap), FloatArg (snap_CostScore snap)]\<rparr>];
          rs2 = (if flt conf (Fin 1) then rs1 @ [\<lparr>reason_Code = ReasonLowConfidence, reason_Text = Message text_low_samples
                    [IntArg (snap_QualitySampleCount snap), IntArg (th_MinSamples (rs_thresholds rs))]\<rparr>] else rs1);
          rs3 = (if rs_typ rs = StrategyCostFirst then
                   (if floorOK then rs2 @ [\<lparr>reason_Code = ReasonFloorPassed, reason_Text = plainText text_floor_passed\<rparr>]
                    else rs2 @ [\<lparr>reason_Code = ReasonFloorFailed, reason_Text = plainText text_floor_failed\<rparr>])
                 else rs2)
      in \<lparr>sc_ChannelID = chan_ID (cd_Channel c), sc_RawScore = raw, sc_Score = score, sc_Confidence = conf,
          sc_FloorPassed = floorOK, sc_Reasons = rs3, sc_Snapshot = snap, sc_Penalties = None\<rparr>)"

definition evaluate_candidate :: "resolvedStrategy \<Rightarrow> Candidate \<Rightarrow> ScoredCandidate + ExcludedCandidate" where
  "evaluate_candidate rs c = (case hardGate rs c of Some ex \<Rightarrow> Inr ex | None \<Rightarrow> Inl (score_candidate rs c))"

definition eligibleBefore :: "RouteStrategyType \<Rightarrow> ScoredCandidate \<Rightarrow> ScoredCandidate \<Rightarrow> bool" where
  "eligibleBefore typ x y =
     (if typ = StrategyCostFirst \<and> sc_FloorPassed x \<noteq> sc_FloorPassed y then sc_FloorPassed x
      else if \<not> feq (sc_Score x) (sc_Score y) then flt (sc_Score y) (sc_Score x)
      else sc_ChannelID x < sc_ChannelID y)"

definition sortEligible :: "RouteStrategyType \<Rightarrow> ScoredCandidate list \<Rightarrow> ScoredCandidate list" where
  "sortEligible typ xs = go_sort (eligibleBefore typ) xs"

fun Rank_loop :: "resolvedStrategy \<Rightarrow> Candidate list \<Rightarrow> Ranking \<Rightarrow> Ranking" where
  "Rank_loop rs [] out = out"
| "Rank_loop rs (c # cs) out =
     (case evaluate_candidate rs c of
        Inr ex \<Rightarrow> Rank_loop rs cs (out\<lparr>rk_Excluded := rk_Excluded out @ [ex]\<rparr>)
      | Inl sc \<Rightarrow> Rank_loop rs cs (out\<lparr>rk_Eligible := rk_Eligible out @ [sc]\<rparr>))"

definition Rank :: "RouteStrategy \<Rightarrow> Candidate list \<Rightarrow> Ranking" where
  "Rank s candidates =
     (let rs = resolve s;
          out = Rank_loop rs candidates \<lparr>rk_Strategy = rs_typ rs, rk_Eligible = [], rk_Excluded = []\<rparr>
      in out\<lparr>rk_Eligible := sortEligible (rs_typ rs) (rk_Eligible out)\<rparr>)"

section \<open>Deductions (penalty.go)\<close>

definition maxErrorPenalty :: float64 where "maxErrorPenalty = Fin 55"
definition maxTTFTPenalty :: float64 where "maxTTFTPenalty = Fin 25"
definition maxDurationPenalty :: float64 where "maxDurationPenalty = Fin 20"

record PenaltyEvaluation =
  pe_ChannelID :: string
  pe_Score :: float64
  pe_Evidence :: float64
  pe_Eject :: bool
  pe_HardFailure :: bool
  pe_Reason :: Reason
  pe_Reasons :: "Reason list"
  pe_Penalties :: PenaltyBreakdown
  pe_Snapshot :: ChannelHealthSnapshot

definition ratio :: "float64 \<Rightarrow> float64 \<Rightarrow> float64 \<Rightarrow> float64" where
  "ratio v good bad =
     (if fle v good \<or> fle bad good then Fin 0 else clamp (fdiv (fsub v good) (fsub bad good)) (Fin 0) (Fin 1))"

definition finiteUnit :: "float64 \<Rightarrow> float64" where
  "finiteUnit v = (if IsNaN v \<or> IsInf v then Fin 0 else clamp v (Fin 0) (Fin 1))"

definition finiteNonNegative :: "float64 \<Rightarrow> float64" where
  "finiteNonNegative v = (if IsNaN v \<or> IsInf v \<or> flt v (Fin 0) then Fin 0 else v)"

definition calculatePenalties :: "StrategyThresholds \<Rightarrow> ChannelHealthSnapshot \<Rightarrow> float64 \<Rightarrow> PenaltyBreakdown" where
  "calculatePenalties th snap evidence =
     (let errorRate = finiteUnit (snap_UpstreamErrorRate snap);
          errorBad = fsub (Fin 1) (th_FloorSuccessRate th);
          errorBad = (if fle errorBad (Fin 0) then round64 (15 / 100) else errorBad);
          ttftGood = fmul (th_MaxTTFTP95MS th) (round64 (20 / 100));
          durationGood = fmul (th_MaxDurationP95MS th) (round64 (20 / 100));
          ep = fmul (fmul maxErrorPenalty (ratio errorRate (Fin 0) errorBad)) evidence;
          tp = fmul (fmul maxTTFTPenalty (ratio (finiteNonNegative (snap_TTFTP95 snap)) ttftGood (th_MaxTTFTP95MS th))) evidence;
          dp = fmul (fmul maxDurationPenalty (ratio (finiteNonNegative (snap_DurationP95 snap)) durationGood (th_MaxDurationP95MS th))) evidence
      in \<lparr>pb_ErrorRate = errorRate, pb_ErrorPenalty = ep, pb_TTFTPenalty = tp, pb_DurationPenalty = dp,
          pb_TotalPenalty = clamp (fadd (fadd ep tp) dp) (Fin 0) (Fin 100)\<rparr>)"

definition penaltyLifecycleGate :: "resolvedStrategy \<Rightarrow> Candidate \<Rightarrow> Reason option \<times> bool" where
  "penaltyLifecycleGate rs c =
     (let gate = (\<lambda>code t. Some \<lparr>reason_Code = code, reason_Text = plainText t\<rparr>);
          scopedSnapshot = (snap_InstanceID (cd_Snapshot c) \<noteq> '''')
      in
      if chan_Status (cd_Channel c) = UpstreamChannelRetired then (gate GateRetired text_retired, False)
      else if chan_Status (cd_Channel c) = UpstreamChannelMaintenance then (gate GateMaintenance text_maintenance, False)
      else if cd_State c = HealthQuarantined then (gate GateQuarantined text_quarantined, False)
      else if cd_State c = HealthRecovering then (gate GateRecovering text_recovering, False)
      else if cd_AuthFailure c \<or> (scopedSnapshot \<and> 0 < snap_AuthFailureCount (cd_Snapshot c)) then (gate GateAuth text_auth, True)
      else if cd_InsufficientBalance c \<or> (scopedSnapshot \<and> 0 < snap_InsufficientBalanceCount (cd_Snapshot c))
      then (gate GateBalance text_balance, True)
      else (None, False))"

definition penaltyReasons :: "PenaltyEvaluation \<Rightarrow> Reason list" where
  "penaltyReasons e =
     (let p = pe_Penalties e;
          r = [\<lparr>reason_Code = ReasonPenaltyScore, reason_Text = Message text_penalty_score [FloatArg (pe_Score e), FloatArg (pb_TotalPenalty p)]\<rparr>];
          r = (if flt (Fin 0) (pb_ErrorPenalty p) then r @ [\<lparr>reason_Code = ReasonPenaltyError,
                 reason_Text = Message text_penalty_error [pct (pb_ErrorRate p), FloatArg (pb_ErrorPenalty p)]\<rparr>] else r);
          r = (if flt (Fin 0) (pb_TTFTPenalty p) then r @ [\<lparr>reason_Code = ReasonPenaltyTTFT,
                 reason_Text = Message text_penalty_ttft [FloatArg (snap_TTFTP95 (pe_Snapshot e)), FloatArg (pb_TTFTPenalty p)]\<rparr>] else r);
          r = (if flt (Fin 0) (pb_DurationPenalty p) then r @ [\<lparr>reason_Code = ReasonPenaltyTotal,
                 reason_Text = Message text_penalty_duration [FloatArg (snap_DurationP95 (pe_Snapshot e)), FloatArg (pb_DurationPenalty p)]\<rparr>] else r)
      in if flt (pe_Evidence e) (Fin 1) then r @ [\<lparr>reason_Code = ReasonLowConfidence,
           reason_Text = Message text_evidence [pct (pe_Evidence e)]\<rparr>] else r)"

definition EvaluatePenalty :: "RouteStrategy \<Rightarrow> Candidate \<Rightarrow> PenaltyEvaluation" where
  "EvaluatePenalty s c =
     (let rs = resolve s; snap = cd_Snapshot c;
          evidence = confidence (snap_QualitySampleCount snap) (th_MinSamples (rs_thresholds rs));
          breakdown = calculatePenalties (rs_thresholds rs) snap evidence;
          out = \<lparr>pe_ChannelID = chan_ID (cd_Channel c),
                 pe_Score = clamp (fsub (Fin 100) (pb_TotalPenalty breakdown)) (Fin 0) (Fin 100),
                 pe_Evidence = evidence, pe_Eject = False, pe_HardFailure = False, pe_Reason = Reason_zero, pe_Reasons = [],
                 pe_Penalties = breakdown, pe_Snapshot = snap\<rparr>;
          out = out\<lparr>pe_Reasons := penaltyReasons out\<rparr>
      in case penaltyLifecycleGate rs c of
           (Some reason, hard) \<Rightarrow> out\<lparr>pe_Eject := True, pe_HardFailure := hard, pe_Reason := reason\<rparr>
         | (None, _) \<Rightarrow>
             (if fle (pe_Score out) (th_EjectScore (rs_thresholds rs)) then
                out\<lparr>pe_Eject := True, pe_Reason := \<lparr>reason_Code = GatePenaltyThreshold,
                  reason_Text = Message text_threshold [FloatArg (pe_Score out), FloatArg (th_EjectScore (rs_thresholds rs))]\<rparr>\<rparr>
              else out))"

definition penaltyBefore :: "ScoredCandidate \<Rightarrow> ScoredCandidate \<Rightarrow> bool" where
  "penaltyBefore x y =
     (if \<not> feq (sc_Score x) (sc_Score y) then flt (sc_Score y) (sc_Score x) else sc_ChannelID x < sc_ChannelID y)"

definition penaltyExcluded :: "PenaltyEvaluation \<Rightarrow> ExcludedCandidate" where
  "penaltyExcluded ev = \<lparr>xc_ChannelID = pe_ChannelID ev, xc_Reason = pe_Reason ev, xc_Score = pe_Score ev,
     xc_HardFailure = pe_HardFailure ev, xc_Penalties = Some (pe_Penalties ev), xc_Snapshot = pe_Snapshot ev\<rparr>"

definition penaltyEligible :: "resolvedStrategy \<Rightarrow> PenaltyEvaluation \<Rightarrow> ScoredCandidate" where
  "penaltyEligible rs ev = \<lparr>sc_ChannelID = pe_ChannelID ev, sc_RawScore = pe_Score ev, sc_Score = pe_Score ev,
     sc_Confidence = pe_Evidence ev, sc_FloorPassed = flt (th_EjectScore (rs_thresholds rs)) (pe_Score ev),
     sc_Reasons = pe_Reasons ev, sc_Snapshot = pe_Snapshot ev, sc_Penalties = Some (pe_Penalties ev)\<rparr>"

fun RankByPenalty_loop :: "RouteStrategy \<Rightarrow> resolvedStrategy \<Rightarrow> Candidate list \<Rightarrow> Ranking \<Rightarrow> Ranking" where
  "RankByPenalty_loop s rs [] out = out"
| "RankByPenalty_loop s rs (c # cs) out =
     (let ev = EvaluatePenalty s c in
      if pe_Eject ev then RankByPenalty_loop s rs cs (out\<lparr>rk_Excluded := rk_Excluded out @ [penaltyExcluded ev]\<rparr>)
      else RankByPenalty_loop s rs cs (out\<lparr>rk_Eligible := rk_Eligible out @ [penaltyEligible rs ev]\<rparr>))"

definition RankByPenalty :: "RouteStrategy \<Rightarrow> Candidate list \<Rightarrow> Ranking" where
  "RankByPenalty s candidates =
     (let rs = resolve s;
          out = RankByPenalty_loop s rs candidates \<lparr>rk_Strategy = rs_typ rs, rk_Eligible = [], rk_Excluded = []\<rparr>
      in out\<lparr>rk_Eligible := go_sort penaltyBefore (rk_Eligible out)\<rparr>)"

section \<open>Preferences (preference.go)\<close>

definition finitePreferenceValue :: "float64 \<Rightarrow> float64 \<Rightarrow> float64 \<Rightarrow> float64" where
  "finitePreferenceValue value low high = (if IsNaN value \<or> IsInf value then low else clamp value low high)"

definition finitePreferenceWeight :: "float64 \<Rightarrow> float64" where
  "finitePreferenceWeight value = (if IsNaN value \<or> IsInf value \<or> flt value (Fin 0) then Fin 0 else value)"

definition weightedPreferenceScore :: "StrategyWeights \<Rightarrow> ChannelHealthSnapshot \<Rightarrow> float64" where
  "weightedPreferenceScore w snap =
     (let term = (\<lambda>score weight. fmul (finitePreferenceValue score (Fin 0) (Fin 100)) (finitePreferenceWeight weight));
          score = fadd (fadd (fadd (fadd (term (snap_SuccessScore snap) (wt_Success w)) (term (snap_TTFTScore snap) (wt_TTFT w)))
            (term (snap_DurationScore snap) (wt_Duration w))) (term (snap_StabilityScore snap) (wt_Stability w)))
            (term (snap_CostScore snap) (wt_Cost w))
      in finitePreferenceValue score (Fin 0) (Fin 100))"

definition preferenceTrusted :: "ScoredCandidate \<Rightarrow> bool" where
  "preferenceTrusted c \<longleftrightarrow> \<not> IsNaN (sc_Confidence c) \<and> \<not> IsInf (sc_Confidence c) \<and> fle (Fin 1) (sc_Confidence c)"

fun candidateCosts_loop :: "Candidate list \<Rightarrow> (string \<times> float64) list \<Rightarrow> (string \<times> float64) list" where
  "candidateCosts_loop [] costs = costs"
| "candidateCosts_loop (c # cs) costs =
     (let i = chan_ID (cd_Channel c); cost = chan_CostHint (cd_Channel c) in
      if i = '''' \<or> fle cost (Fin 0) \<or> IsNaN cost \<or> IsInf cost then candidateCosts_loop cs costs
      else candidateCosts_loop cs (AList.update i cost costs))"

definition candidateCosts :: "Candidate list \<Rightarrow> (string \<times> float64) list" where
  "candidateCosts candidates = candidateCosts_loop candidates []"

definition preferredFallback :: "bool \<Rightarrow> ScoredCandidate \<Rightarrow> ScoredCandidate \<Rightarrow> bool" where
  "preferredFallback leftTrusted left right =
     (let lc = finitePreferenceValue (sc_Confidence left) (Fin 0) (Fin 1);
          rc = finitePreferenceValue (sc_Confidence right) (Fin 0) (Fin 1);
          ls = finitePreferenceValue (sc_Score left) (Fin 0) (Fin 100);
          rs = finitePreferenceValue (sc_Score right) (Fin 0) (Fin 100)
      in if \<not> leftTrusted \<and> \<not> feq lc rc then flt rc lc
         else if \<not> feq ls rs then flt rs ls
         else sc_ChannelID left < sc_ChannelID right)"

definition preferredBefore :: "resolvedStrategy \<Rightarrow> (string \<times> float64) list \<Rightarrow> ScoredCandidate \<Rightarrow> ScoredCandidate \<Rightarrow> bool" where
  "preferredBefore rs costs left right =
     (let leftTrusted = preferenceTrusted left; rightTrusted = preferenceTrusted right in
      if leftTrusted \<noteq> rightTrusted then leftTrusted
      else if rs_typ rs = StrategyCostFirst then
        (if leftTrusted then
           (case (map_of costs (sc_ChannelID left), map_of costs (sc_ChannelID right)) of
              (Some _, None) \<Rightarrow> True
            | (None, Some _) \<Rightarrow> False
            | (Some a, Some b) \<Rightarrow> (if \<not> feq a b then flt a b else preferredFallback leftTrusted left right)
            | (None, None) \<Rightarrow> preferredFallback leftTrusted left right)
         else preferredFallback leftTrusted left right)
      else if leftTrusted then
        (let lp = weightedPreferenceScore (rs_weights rs) (sc_Snapshot left);
             rp = weightedPreferenceScore (rs_weights rs) (sc_Snapshot right)
         in if \<not> feq lp rp then flt rp lp else preferredFallback leftTrusted left right)
      else preferredFallback leftTrusted left right)"

text \<open>The nil slice of no candidates is the empty list.\<close>

definition RankEligibleByPreference :: "RouteStrategy \<Rightarrow> Candidate list \<Rightarrow> ScoredCandidate list \<Rightarrow> ScoredCandidate list" where
  "RankEligibleByPreference s candidates eligible =
     (if eligible = [] then []
      else go_sort (preferredBefore (resolve s) (candidateCosts candidates)) eligible)"

section \<open>The score as a number\<close>

lemma clamp_Fin: "clamp (Fin x) (Fin lo) (Fin hi) = Fin (if x < lo then lo else if hi < x then hi else x)"
  by (simp add: clamp_def)

lemma clamp_round64:
  assumes "lo \<le> hi" "\<bar>lo\<bar> < 2 ^ 1024" "\<bar>hi\<bar> < 2 ^ 1024"
  shows "clamp (round64 x) (Fin lo) (Fin hi) = Fin (max lo (min hi (f64 x)))"
proof -
  consider "2 ^ 1024 \<le> f64 x" | "f64 x \<le> - (2 ^ 1024)" | "\<bar>f64 x\<bar> < 2 ^ 1024" by linarith
  then show ?thesis
  proof cases
    case 1
    then have "round64 x = PInf" "hi < f64 x" using assms by (auto simp: round64_def Let_def)
    then show ?thesis using assms(1) by (simp add: clamp_def)
  next
    case 2
    then have "round64 x = NInf" "f64 x < lo"
      using assms unfolding round64_def Let_def by (auto simp del: power_numeral_even)
    then show ?thesis using assms(1) by (simp add: clamp_def)
  next
    case 3
    then have "round64 x = Fin (f64 x)" unfolding round64_def Let_def by (auto simp del: power_numeral_even)
    then show ?thesis using assms(1) by (simp add: clamp_Fin)
  qed
qed

text \<open>\<open>ratio\<close> on finite arguments.\<close>

definition ratio_of :: "rat \<Rightarrow> rat \<Rightarrow> rat \<Rightarrow> rat" where
  "ratio_of v g b = (if v \<le> g \<or> b \<le> g then 0 else min 1 (f64 (f64 (v - g) / f64 (b - g))))"

lemma ratio_Fin:
  assumes "wf64 (Fin v)" "wf64 (Fin g)" "wf64 (Fin b)" "0 \<le> g"
  shows "ratio (Fin v) (Fin g) (Fin b) = Fin (ratio_of v g b)"
proof (cases "v \<le> g \<or> b \<le> g")
  case True
  then show ?thesis by (auto simp: ratio_def ratio_of_def)
next
  case False
  then have l: "g < v" "g < b" by auto
  note n = fsub_pos [OF assms(1,2,4) l(1)] and d = fsub_pos [OF assms(3,2,4) l(2)]
  have "ratio (Fin v) (Fin g) (Fin b) = clamp (round64 (f64 (v - g) / f64 (b - g))) (Fin 0) (Fin 1)"
    using False n d by (simp add: ratio_def)
  also have "\<dots> = Fin (max 0 (min 1 (f64 (f64 (v - g) / f64 (b - g)))))" by (rule clamp_round64) simp_all
  also have "0 \<le> f64 (f64 (v - g) / f64 (b - g))" using n(2) d(2) by (intro f64_sign) simp
  then have "max 0 (min 1 (f64 (f64 (v - g) / f64 (b - g)))) = ratio_of v g b" using False by (simp add: ratio_of_def)
  finally show ?thesis .
qed

lemma ratio_of_unit: "on_grid (v - g) \<Longrightarrow> on_grid (b - g) \<Longrightarrow> 0 \<le> ratio_of v g b" "ratio_of v g b \<le> 1"
proof -
  assume g: "on_grid (v - g)" "on_grid (b - g)"
  show "0 \<le> ratio_of v g b"
  proof (cases "v \<le> g \<or> b \<le> g")
    case False
    then have "0 < f64 (v - g)" "0 < f64 (b - g)" using f64_pos g by auto
    then have "0 \<le> f64 (f64 (v - g) / f64 (b - g))" by (intro f64_sign) simp
    then show ?thesis by (simp add: ratio_of_def)
  qed (auto simp: ratio_of_def)
next
  show "ratio_of v g b \<le> 1" by (simp add: ratio_of_def)
qed

lemma ratio_of_mono:
  assumes "v \<le> w" "on_grid (w - g)" "on_grid (b - g)"
  shows "ratio_of v g b \<le> ratio_of w g b"
proof (cases "v \<le> g \<or> b \<le> g")
  case True
  then show ?thesis using ratio_of_unit(1) [OF assms(2,3)] by (simp add: ratio_of_def)
next
  case False
  then have "0 < f64 (b - g)" using f64_pos assms by auto
  moreover have "f64 (v - g) \<le> f64 (w - g)" using assms(1) by (intro f64_mono) simp
  ultimately have "f64 (v - g) / f64 (b - g) \<le> f64 (w - g) / f64 (b - g)" by (intro divide_right_mono) auto
  from f64_mono [OF this] show ?thesis using False assms(1) by (auto simp: ratio_of_def)
qed

text \<open>One deduction: \<open>p * r * evidence\<close>, rounded twice.\<close>

definition deduction :: "rat \<Rightarrow> rat \<Rightarrow> rat \<Rightarrow> rat" where
  "deduction p r e = f64 (f64 (p * r) * e)"

lemma deduction_bounds:
  assumes "0 \<le> r" "r \<le> 1" "0 \<le> e" "e \<le> 1" "0 \<le> m" "m \<le> 100"
  shows "0 \<le> deduction (of_int m) r e" "deduction (of_int m) r e \<le> of_int m"
    "fmul (fmul (Fin (of_int m)) (Fin r)) (Fin e) = Fin (deduction (of_int m) r e)"
proof -
  have m: "\<bar>m\<bar> < 2 ^ 53" using assms(5,6) by simp
  have a: "0 \<le> of_int m * r" "of_int m * r \<le> of_int m" using assms by (simp_all add: mult_left_le)
  have b: "0 \<le> f64 (of_int m * r)" "f64 (of_int m * r) \<le> of_int m" using f64_sign(1) [OF a(1)] f64_le_int [OF a(2) m] .
  then have c: "0 \<le> f64 (of_int m * r) * e" "f64 (of_int m * r) * e \<le> of_int m"
    using assms mult_left_le [of e "f64 (of_int m * r)"] by simp_all
  show "0 \<le> deduction (of_int m) r e" "deduction (of_int m) r e \<le> of_int m"
    unfolding deduction_def using f64_sign(1) [OF c(1)] f64_le_int [OF c(2) m] by simp_all
  have "round64 (of_int m * r) = Fin (f64 (of_int m * r))" by (rule round64_Fin [of _ m]) (use a m in auto)
  moreover have "round64 (f64 (of_int m * r) * e) = Fin (deduction (of_int m) r e)"
    unfolding deduction_def by (rule round64_Fin [of _ m]) (use c m in auto)
  ultimately show "fmul (fmul (Fin (of_int m)) (Fin r)) (Fin e) = Fin (deduction (of_int m) r e)" by simp
qed

lemma deduction_mono: "r \<le> r' \<Longrightarrow> 0 \<le> p \<Longrightarrow> 0 \<le> e \<Longrightarrow> deduction p r e \<le> deduction p r' e"
  unfolding deduction_def by (intro f64_mono mult_right_mono mult_left_mono)

text \<open>The score of three deductions.\<close>

definition points :: "rat \<Rightarrow> rat \<Rightarrow> rat \<Rightarrow> rat" where
  "points a b c = max 0 (min 100 (f64 (100 - max 0 (min 100 (f64 (f64 (a + b) + c))))))"

lemma points_bounds: "0 \<le> points a b c" "points a b c \<le> 100"
  by (simp_all add: points_def)

lemma points_antimono: "a \<le> a' \<Longrightarrow> b \<le> b' \<Longrightarrow> c \<le> c' \<Longrightarrow> points a' b' c' \<le> points a b c"
proof -
  assume abc: "a \<le> a'" "b \<le> b'" "c \<le> c'"
  then have "f64 (a + b) \<le> f64 (a' + b')" by (intro f64_mono) simp
  with abc(3) have "f64 (f64 (a + b) + c) \<le> f64 (f64 (a' + b') + c')" by (intro f64_mono) simp
  then have "100 - max 0 (min 100 (f64 (f64 (a' + b') + c'))) \<le> 100 - max 0 (min 100 (f64 (f64 (a + b) + c)))" by auto
  from f64_mono [OF this] show ?thesis unfolding points_def by (intro max.mono min.mono order_refl)
qed

lemma points_zero: "points 0 0 0 = 100"
  using f64_of_int [of 100] by (simp add: points_def)

lemma confidence_Fin:
  assumes "in64 n" "in64 m"
  obtains q where "confidence n m = Fin q" "0 \<le> q" "q \<le> 1"
proof (cases "m \<le> 0 \<or> m \<le> n \<or> n \<le> 0")
  case True
  then have "confidence n m = Fin 0 \<or> confidence n m = Fin 1" by (auto simp: confidence_def)
  then show thesis using that [of 0] that [of 1] by auto
next
  case False
  then have r: "0 < n" "n < m" "m < 2 ^ 63" using assms by (auto simp: in64_def)
  have "(of_int m::rat) \<le> of_int (2 ^ 63)" using r(3) by (simp only: of_int_le_iff)
  then have R: "round64 (of_int n) = Fin (f64 (of_int n))" "round64 (of_int m) = Fin (f64 (of_int m))"
    using r by (intro round64_bounded [of _ 63]; simp)+
  have p: "1 \<le> f64 (of_int n)" "f64 (of_int n) \<le> f64 (of_int m)"
    using int_le_f64 [of 1 "of_int n"] r by (auto intro: f64_mono)
  let ?q = "f64 (f64 (of_int n) / f64 (of_int m))"
  have "0 \<le> f64 (of_int n) / f64 (of_int m)" "f64 (of_int n) / f64 (of_int m) \<le> of_int 1" using p by simp_all
  then have q: "0 \<le> ?q" "?q \<le> 1" using f64_sign(1) f64_le_int [of _ 1] by simp_all
  have "fdiv (float64_of_int n) (float64_of_int m) = Fin ?q"
    using p R \<open>0 \<le> f64 (of_int n) / f64 (of_int m)\<close> \<open>f64 (of_int n) / f64 (of_int m) \<le> of_int 1\<close>
    by (simp add: float64_of_int_def round64_Fin [of _ 1])
  then show thesis using that q False by (simp add: confidence_def)
qed

text \<open>Thresholds are finite numbers: JSON has no others.\<close>

definition finite_thresholds :: "StrategyThresholds \<Rightarrow> bool" where
  "finite_thresholds th \<longleftrightarrow> in64 (th_MinSamples th) \<and>
     (\<forall>x \<in> {th_TargetSuccessRate th, th_FloorSuccessRate th, th_MaxTTFTP95MS th, th_MaxDurationP95MS th, th_EjectScore th}.
        wf64 x \<and> \<not> IsNaN x \<and> \<not> IsInf x)"

definition wf_snapshot :: "ChannelHealthSnapshot \<Rightarrow> bool" where
  "wf_snapshot snap \<longleftrightarrow> in64 (snap_QualitySampleCount snap) \<and>
     wf64 (snap_UpstreamErrorRate snap) \<and> wf64 (snap_TTFTP95 snap) \<and> wf64 (snap_DurationP95 snap)"

lemma finite_Fin: "\<not> IsNaN x \<Longrightarrow> \<not> IsInf x \<Longrightarrow> \<exists>a. x = Fin a"
  by (cases x) auto

lemma wf64_default: "wf64 (round64 x)" "\<bar>x\<bar> \<le> 1 \<Longrightarrow> round64 x = Fin (f64 x)"
  by (auto simp: wf64_round64 round64_Fin [of x 1])

lemma f64_fraction: "1 \<le> 2 ^ n * x \<Longrightarrow> n \<le> 1000 \<Longrightarrow> 0 < f64 x"
proof -
  assume x: "1 \<le> 2 ^ n * x" "n \<le> 1000"
  have "(of_int 1::rat) * 2 powi (- int n) \<le> x" using x(1) by (simp add: power_int_minus field_simps)
  moreover have "f64 (of_int 1 * 2 powi (- int n)) = of_int 1 * 2 powi (- int n)"
    by (rule f64_exact [of _ 1 "- int n"]) (use x(2) in auto)
  moreover have "(0::rat) < of_int 1 * 2 powi (- int n)" by simp
  ultimately show ?thesis using f64_mono by (metis order_less_le_trans)
qed

lemma resolved_thresholds:
  assumes "finite_thresholds (rst_Thresholds s)"
  obtains f t d e where "th_FloorSuccessRate (rs_thresholds (resolve s)) = Fin f" "0 < f" "wf64 (Fin f)"
    "th_MaxTTFTP95MS (rs_thresholds (resolve s)) = Fin t" "0 < t" "wf64 (Fin t)"
    "th_MaxDurationP95MS (rs_thresholds (resolve s)) = Fin d" "0 < d" "wf64 (Fin d)"
    "th_EjectScore (rs_thresholds (resolve s)) = Fin e" "0 < e" "e \<le> 100"
    "in64 (th_MinSamples (rs_thresholds (resolve s)))" "0 < th_MinSamples (rs_thresholds (resolve s))"
proof -
  let ?th = "rst_Thresholds s" and ?r = "rs_thresholds (resolve s)"
  have P: "\<exists>a. (if fle x (Fin 0) then y else x) = Fin a \<and> 0 < a \<and> wf64 (Fin a)"
    if "wf64 x" "\<not> IsNaN x" "\<not> IsInf x" "\<exists>b. y = Fin b \<and> 0 < b \<and> wf64 (Fin b)" for x y
    using finite_Fin [OF that(2,3)] that(1,4) by (auto simp: not_le)
  have half: "\<exists>b. round64 (85 / 100) = Fin b \<and> 0 < b \<and> wf64 (Fin b)"
    using wf64_default [of "85 / 100"] f64_fraction [of 1 "85 / 100"] by auto
  have ints: "\<exists>b. Fin 4000 = Fin b \<and> 0 < b \<and> wf64 (Fin b)" "\<exists>b. Fin 20000 = Fin b \<and> 0 < b \<and> wf64 (Fin b)"
    using wf64_int [of 4000] wf64_int [of 20000] by simp_all
  note fin = assms [unfolded finite_thresholds_def]
  have "th_FloorSuccessRate ?r = (if fle (th_FloorSuccessRate ?th) (Fin 0) then round64 (85 / 100) else th_FloorSuccessRate ?th)"
    "th_MaxTTFTP95MS ?r = (if fle (th_MaxTTFTP95MS ?th) (Fin 0) then Fin 4000 else th_MaxTTFTP95MS ?th)"
    "th_MaxDurationP95MS ?r = (if fle (th_MaxDurationP95MS ?th) (Fin 0) then Fin 20000 else th_MaxDurationP95MS ?th)"
    "th_EjectScore ?r = (if fle (th_EjectScore ?th) (Fin 0) \<or> flt (Fin 100) (th_EjectScore ?th) then Fin 60 else th_EjectScore ?th)"
    "th_MinSamples ?r = (if th_MinSamples ?th \<le> 0 then 5 else th_MinSamples ?th)"
    by (simp_all add: resolve_def Let_def defaultThresholds_def)
  moreover obtain e0 where "th_EjectScore ?th = Fin e0" using fin finite_Fin by blast
  ultimately show thesis
    using that P [OF _ _ _ half, of "th_FloorSuccessRate ?th"] P [OF _ _ _ ints(1), of "th_MaxTTFTP95MS ?th"]
      P [OF _ _ _ ints(2), of "th_MaxDurationP95MS ?th"] fin
    by (auto simp: in64_def split: if_splits)
qed

lemma finiteUnit_Fin: "wf64 v \<Longrightarrow> \<exists>a. finiteUnit v = Fin a \<and> 0 \<le> a \<and> a \<le> 1 \<and> wf64 (Fin a)"
  using wf64_int [of 0] wf64_int [of 1] by (cases v) (auto simp: finiteUnit_def clamp_Fin)

lemma finiteNonNegative_Fin: "wf64 v \<Longrightarrow> \<exists>a. finiteNonNegative v = Fin a \<and> 0 \<le> a \<and> wf64 (Fin a)"
  using wf64_int [of 0] by (cases v) (auto simp: finiteNonNegative_def)

fun num :: "float64 \<Rightarrow> rat" where
  "num (Fin a) = a"
| "num _ = 0"

text \<open>The score as a function of the strategy, the number of samples and the three measured
  values.\<close>

definition error_budget :: "StrategyThresholds \<Rightarrow> float64" where
  "error_budget th = (let b = fsub (Fin 1) (th_FloorSuccessRate th) in if fle b (Fin 0) then round64 (15 / 100) else b)"

definition good_latency :: "float64 \<Rightarrow> float64" where
  "good_latency m = fmul m (round64 (20 / 100))"

definition penalty_points :: "RouteStrategy \<Rightarrow> int64 \<Rightarrow> rat \<Rightarrow> rat \<Rightarrow> rat \<Rightarrow> rat" where
  "penalty_points s n u x y =
     (let th = rs_thresholds (resolve s); e = num (confidence n (th_MinSamples th));
          t = th_MaxTTFTP95MS th; d = th_MaxDurationP95MS th
      in points (deduction 55 (ratio_of u 0 (num (error_budget th))) e)
           (deduction 25 (ratio_of x (num (good_latency t)) (num t)) e)
           (deduction 20 (ratio_of y (num (good_latency d)) (num d)) e))"

lemma error_budget_Fin:
  assumes "th_FloorSuccessRate th = Fin f" "0 < f"
  shows "\<exists>b. error_budget th = Fin b \<and> wf64 (Fin b)"
proof -
  have def15: "round64 (15 / 100) = Fin (f64 (15 / 100))" "wf64 (round64 (15 / 100))"
    by (rule wf64_default(2), simp) (rule wf64_round64)
  have sub: "fsub (Fin 1) (th_FloorSuccessRate th) = round64 (1 - f)" by (simp add: assms(1) fsub_def)
  have "f64 (1 - f) \<le> of_int 1" using assms(2) by (intro f64_le_int) simp_all
  then have not_inf: "round64 (1 - f) \<noteq> PInf" "round64 (1 - f) \<noteq> NaN" by (auto simp: round64_def Let_def)
  show ?thesis
  proof (cases "round64 (1 - f)")
    case (Fin a)
    then show ?thesis using def15 wf64_round64 [of "1 - f"] by (auto simp: error_budget_def sub)
  qed (use not_inf def15 in \<open>auto simp: error_budget_def sub fle_def\<close>)
qed

lemma good_latency_Fin:
  assumes "wf64 (Fin t)" "0 < t"
  shows "\<exists>g. good_latency (Fin t) = Fin g \<and> 0 \<le> g \<and> wf64 (Fin g)"
proof -
  let ?c = "f64 (20 / 100)"
  have c: "0 \<le> ?c" "?c \<le> 1" using f64_sign(1) [of "20 / 100"] f64_le_int [of "20 / 100" 1] by simp_all
  have "t * ?c \<le> t" using c assms(2) by (simp add: mult_left_le)
  then have "f64 (t * ?c) \<le> t" using f64_mono [of "t * ?c" t] assms(1) by (simp add: wf64_Fin)
  moreover have "0 \<le> f64 (t * ?c)" using c assms(2) by (intro f64_sign) simp
  ultimately have "round64 (t * ?c) = Fin (f64 (t * ?c))" "0 \<le> f64 (t * ?c)"
    using assms(1) by (auto simp: round64_def Let_def wf64_Fin)
  then show ?thesis using wf64_round64 [of "t * ?c"] by (simp add: good_latency_def wf64_default)
qed

lemma fadd_points:
  assumes "0 \<le> a" "a \<le> 55" "0 \<le> b" "b \<le> 25" "0 \<le> c" "c \<le> 20"
  shows "clamp (fsub (Fin 100) (clamp (fadd (fadd (Fin a) (Fin b)) (Fin c)) (Fin 0) (Fin 100))) (Fin 0) (Fin 100) = Fin (points a b c)"
proof -
  have ab: "0 \<le> f64 (a + b)" "f64 (a + b) \<le> 80"
    using f64_sign(1) [of "a + b"] f64_le_int [of "a + b" 80] assms by simp_all
  have "round64 (a + b) = Fin (f64 (a + b))" by (rule round64_Fin [of _ 80]) (use assms in auto)
  then have "fadd (fadd (Fin a) (Fin b)) (Fin c) = round64 (f64 (a + b) + c)" by simp
  moreover define tot where "tot = max 0 (min 100 (f64 (f64 (a + b) + c)))"
  ultimately have "clamp (fadd (fadd (Fin a) (Fin b)) (Fin c)) (Fin 0) (Fin 100) = Fin tot"
    by (simp only: tot_def, intro clamp_round64) simp_all
  moreover have "fsub (Fin 100) (Fin tot) = round64 (100 - tot)" by (simp add: fsub_def)
  moreover have "clamp (round64 (100 - tot)) (Fin 0) (Fin 100) = Fin (points a b c)"
    unfolding points_def tot_def by (rule clamp_round64) simp_all
  ultimately show ?thesis by simp
qed

lemma lifecycle_frame [simp]:
  "pe_Score (case g of (Some r, h) \<Rightarrow> out\<lparr>pe_Eject := True, pe_HardFailure := h, pe_Reason := r\<rparr>
     | (None, _) \<Rightarrow> if b then out\<lparr>pe_Eject := True, pe_Reason := r'\<rparr> else out) = pe_Score out"
  by (auto split: prod.splits option.splits)

lemma EvaluatePenalty_score:
  assumes th: "finite_thresholds (rst_Thresholds s)" and sn: "wf_snapshot (cd_Snapshot c)"
  shows "pe_Score (EvaluatePenalty s c) =
    Fin (penalty_points s (snap_QualitySampleCount (cd_Snapshot c)) (num (finiteUnit (snap_UpstreamErrorRate (cd_Snapshot c))))
      (num (finiteNonNegative (snap_TTFTP95 (cd_Snapshot c)))) (num (finiteNonNegative (snap_DurationP95 (cd_Snapshot c)))))"
proof -
  let ?th = "rs_thresholds (resolve s)" and ?sn = "cd_Snapshot c"
  from th obtain f t d m where R: "th_FloorSuccessRate ?th = Fin f" "0 < f" "wf64 (Fin f)"
    "th_MaxTTFTP95MS ?th = Fin t" "0 < t" "wf64 (Fin t)" "th_MaxDurationP95MS ?th = Fin d" "0 < d" "wf64 (Fin d)"
    "th_EjectScore ?th = Fin m" "0 < m" "m \<le> 100" "in64 (th_MinSamples ?th)" "0 < th_MinSamples ?th"
    by (rule resolved_thresholds)
  obtain e where e: "confidence (snap_QualitySampleCount ?sn) (th_MinSamples ?th) = Fin e" "0 \<le> e" "e \<le> 1"
    using confidence_Fin R(13) sn by (metis wf_snapshot_def)
  obtain b where b: "error_budget ?th = Fin b" "wf64 (Fin b)" using error_budget_Fin [OF R(1,2)] by auto
  obtain g where g: "good_latency (Fin t) = Fin g" "0 \<le> g" "wf64 (Fin g)" using good_latency_Fin [OF R(6,5)] by auto
  obtain h where h: "good_latency (Fin d) = Fin h" "0 \<le> h" "wf64 (Fin h)" using good_latency_Fin [OF R(9,8)] by auto
  obtain u where u: "finiteUnit (snap_UpstreamErrorRate ?sn) = Fin u" "wf64 (Fin u)"
    using finiteUnit_Fin sn by (metis wf_snapshot_def)
  obtain x where x: "finiteNonNegative (snap_TTFTP95 ?sn) = Fin x" "wf64 (Fin x)"
    using finiteNonNegative_Fin sn by (metis wf_snapshot_def)
  obtain y where y: "finiteNonNegative (snap_DurationP95 ?sn) = Fin y" "wf64 (Fin y)"
    using finiteNonNegative_Fin sn by (metis wf_snapshot_def)
  have zero: "wf64 (Fin 0)" using wf64_int [of 0] by simp
  note r = ratio_Fin [OF u(2) zero b(2) order_refl] ratio_Fin [OF x(2) g(3) R(6) g(2)] ratio_Fin [OF y(2) h(3) R(9) h(2)]
  note og = on_grid_diff [OF on_grid_wf64 on_grid_wf64]
  note unit = ratio_of_unit(1) [OF og [OF u(2) zero] og [OF b(2) zero]] ratio_of_unit(2) [of u 0 b]
    ratio_of_unit(1) [OF og [OF x(2) g(3)] og [OF R(6) g(3)]] ratio_of_unit(2) [of x g t]
    ratio_of_unit(1) [OF og [OF y(2) h(3)] og [OF R(9) h(3)]] ratio_of_unit(2) [of y h d]
  note de = deduction_bounds [OF unit(1,2) e(2,3), of 55] deduction_bounds [OF unit(3,4) e(2,3), of 25]
    deduction_bounds [OF unit(5,6) e(2,3), of 20]
  have "pb_TotalPenalty (calculatePenalties ?th ?sn (Fin e)) =
    clamp (fadd (fadd (Fin (deduction 55 (ratio_of u 0 b) e)) (Fin (deduction 25 (ratio_of x g t) e)))
      (Fin (deduction 20 (ratio_of y h d) e))) (Fin 0) (Fin 100)"
    using de r u(1) x(1) y(1) b(1) [unfolded error_budget_def Let_def] g(1) [unfolded good_latency_def] h(1) [unfolded good_latency_def] R(4,7)
    by (simp add: calculatePenalties_def maxErrorPenalty_def maxTTFTPenalty_def maxDurationPenalty_def Let_def)
  moreover have "pe_Score (EvaluatePenalty s c) =
    clamp (fsub (Fin 100) (pb_TotalPenalty (calculatePenalties ?th ?sn (Fin e)))) (Fin 0) (Fin 100)"
    by (simp add: EvaluatePenalty_def Let_def e(1))
  moreover note fadd_points [of "deduction 55 (ratio_of u 0 b) e" "deduction 25 (ratio_of x g t) e" "deduction 20 (ratio_of y h d) e"]
  ultimately show ?thesis
    using de by (simp add: penalty_points_def Let_def e(1) b(1) g(1) h(1) u(1) x(1) y(1) R(4,7))
qed

lemma penalty_points_mono:
  assumes th: "finite_thresholds (rst_Thresholds s)" and n: "in64 n"
    and le: "u \<le> u'" "x \<le> x'" "y \<le> y'" and wf: "wf64 (Fin u')" "wf64 (Fin x')" "wf64 (Fin y')"
  shows "penalty_points s n u' x' y' \<le> penalty_points s n u x y"
proof -
  let ?th = "rs_thresholds (resolve s)"
  from th obtain f t d m where R: "th_FloorSuccessRate ?th = Fin f" "0 < f" "wf64 (Fin f)"
    "th_MaxTTFTP95MS ?th = Fin t" "0 < t" "wf64 (Fin t)" "th_MaxDurationP95MS ?th = Fin d" "0 < d" "wf64 (Fin d)"
    "th_EjectScore ?th = Fin m" "0 < m" "m \<le> 100" "in64 (th_MinSamples ?th)" "0 < th_MinSamples ?th"
    by (rule resolved_thresholds)
  obtain e where e: "confidence n (th_MinSamples ?th) = Fin e" "0 \<le> e" using confidence_Fin [OF n R(13)] by metis
  obtain b where b: "error_budget ?th = Fin b" "wf64 (Fin b)" using error_budget_Fin [OF R(1,2)] by auto
  obtain g where g: "good_latency (Fin t) = Fin g" "wf64 (Fin g)" using good_latency_Fin [OF R(6,5)] by auto
  obtain h where h: "good_latency (Fin d) = Fin h" "wf64 (Fin h)" using good_latency_Fin [OF R(9,8)] by auto
  have zero: "wf64 (Fin 0)" using wf64_int [of 0] by simp
  note og = on_grid_diff [OF on_grid_wf64 on_grid_wf64]
  have r: "ratio_of u 0 b \<le> ratio_of u' 0 b" "ratio_of x g t \<le> ratio_of x' g t" "ratio_of y h d \<le> ratio_of y' h d"
    by (rule ratio_of_mono [OF _ og og]; use le wf zero b g h R in simp)+
  show ?thesis
    using e r by (simp add: penalty_points_def Let_def b(1) g(1) h(1) R(4,7)) (intro points_antimono deduction_mono, simp_all)
qed

lemma penalty_points_zero:
  assumes "finite_thresholds (rst_Thresholds s)" "n \<le> 0"
  shows "penalty_points s n u x y = 100"
proof -
  have "0 < th_MinSamples (rs_thresholds (resolve s))" using resolved_thresholds [OF assms(1)] by metis
  then show ?thesis using assms(2) by (simp add: penalty_points_def Let_def confidence_def deduction_def points_zero)
qed

lemma EvaluatePenalty_Eject:
  "pe_Eject (EvaluatePenalty s c) \<longleftrightarrow>
     fst (penaltyLifecycleGate (resolve s) c) \<noteq> None \<or> fle (pe_Score (EvaluatePenalty s c)) (th_EjectScore (rs_thresholds (resolve s)))"
  by (auto simp: EvaluatePenalty_def Let_def split: prod.splits option.splits)

section \<open>Rankings\<close>

lemma go_sort_cong:
  assumes "\<And>x y. x \<in> set xs \<Longrightarrow> y \<in> set xs \<Longrightarrow> lt x y = lt' x y"
  shows "go_sort lt xs = go_sort lt' xs"
  using assms
proof (induction xs)
  case (Cons a xs)
  have "insert_by lt a ys = insert_by lt' a ys" if "set ys \<subseteq> set (a # xs)" for ys
    using that by (induction ys) (auto simp: Cons.prems)
  from this [of "go_sort lt' xs"] show ?case using Cons by auto
qed simp

lemma RankByPenalty_loop_eq:
  "RankByPenalty_loop s rs cs out = out\<lparr>
     rk_Eligible := rk_Eligible out @ map (\<lambda>c. penaltyEligible rs (EvaluatePenalty s c)) (filter (\<lambda>c. \<not> pe_Eject (EvaluatePenalty s c)) cs),
     rk_Excluded := rk_Excluded out @ map (\<lambda>c. penaltyExcluded (EvaluatePenalty s c)) (filter (\<lambda>c. pe_Eject (EvaluatePenalty s c)) cs)\<rparr>"
  by (induction s rs cs out rule: RankByPenalty_loop.induct) (simp_all add: Let_def)

definition penalty_key :: "ScoredCandidate \<Rightarrow> rat \<times> string" where
  "penalty_key x = (- num (sc_Score x), sc_ChannelID x)"

lemma penaltyBefore_key:
  assumes "sc_Score x = Fin a" "sc_Score y = Fin b"
  shows "penaltyBefore x y \<longleftrightarrow> penalty_key x < penalty_key y"
  using assms by (auto simp: penaltyBefore_def penalty_key_def)

interpretation by_penalty: strict_weak_order "\<lambda>x y. penalty_key x < penalty_key y"
  by (rule strict_weak_order_key)

lemma RankByPenalty_sorted:
  assumes "\<And>c. c \<in> set cs \<Longrightarrow> \<exists>q. pe_Score (EvaluatePenalty s c) = Fin q"
  shows "sorted_wrt (\<lambda>x y. penalty_key x \<le> penalty_key y) (rk_Eligible (RankByPenalty s cs))"
proof -
  let ?xs = "map (\<lambda>c. penaltyEligible (resolve s) (EvaluatePenalty s c)) (filter (\<lambda>c. \<not> pe_Eject (EvaluatePenalty s c)) cs)"
  have "\<exists>q. sc_Score x = Fin q" if "x \<in> set ?xs" for x using that assms by (auto simp: penaltyEligible_def)
  then have "go_sort penaltyBefore ?xs = go_sort (\<lambda>x y. penalty_key x < penalty_key y) ?xs"
    using penaltyBefore_key by (intro go_sort_cong) metis
  moreover have "rk_Eligible (RankByPenalty s cs) = go_sort penaltyBefore ?xs"
    by (simp add: RankByPenalty_def Let_def RankByPenalty_loop_eq)
  ultimately show ?thesis using by_penalty.sorted_go_sort [of ?xs] by (simp add: not_less)
qed

definition usable_cost :: "float64 \<Rightarrow> bool" where
  "usable_cost c \<longleftrightarrow> (\<exists>a. c = Fin a)"

lemma candidateCosts_loop_finite:
  "(\<And>k v. map_of costs k = Some v \<Longrightarrow> usable_cost v) \<Longrightarrow> map_of (candidateCosts_loop cs costs) k = Some v \<Longrightarrow> usable_cost v"
proof (induction cs costs arbitrary: k v rule: candidateCosts_loop.induct)
  case (2 c cs costs)
  show ?case
  proof (cases "chan_ID (cd_Channel c) = '''' \<or> fle (chan_CostHint (cd_Channel c)) (Fin 0) \<or> IsNaN (chan_CostHint (cd_Channel c)) \<or>
      IsInf (chan_CostHint (cd_Channel c))")
    case True
    then show ?thesis using "2.IH"(1) [OF refl refl True "2.prems"(1)] "2.prems"(2) by (simp add: Let_def)
  next
    case False
    then have "usable_cost (chan_CostHint (cd_Channel c))" using finite_Fin unfolding usable_cost_def by blast
    then have "usable_cost w" if "map_of (AList.update (chan_ID (cd_Channel c)) (chan_CostHint (cd_Channel c)) costs) j = Some w" for j w
      using that "2.prems"(1) by (auto simp: update_conv split: if_splits)
    from "2.IH"(2) [OF refl refl False this] show ?thesis using "2.prems"(2) False by (simp add: Let_def)
  qed
qed auto

lemma candidateCosts_finite: "map_of (candidateCosts cs) k = Some v \<Longrightarrow> usable_cost v"
  unfolding candidateCosts_def using candidateCosts_loop_finite [of "[]" cs k v] by simp

lemma finitePreferenceValue_Fin: "\<exists>a. finitePreferenceValue v (Fin lo) (Fin hi) = Fin a"
  by (cases v) (auto simp: finitePreferenceValue_def clamp_Fin)

text \<open>The preference as a lexicographic key.\<close>

definition price_key :: "resolvedStrategy \<Rightarrow> (string \<times> float64) list \<Rightarrow> ScoredCandidate \<Rightarrow> bool \<times> rat" where
  "price_key rs costs x =
     (if \<not> preferenceTrusted x then (False, 0)
      else if rs_typ rs = StrategyCostFirst then
        (case map_of costs (sc_ChannelID x) of None \<Rightarrow> (True, 0) | Some c \<Rightarrow> (False, num c))
      else (False, - num (weightedPreferenceScore (rs_weights rs) (sc_Snapshot x))))"

definition preference_key ::
  "resolvedStrategy \<Rightarrow> (string \<times> float64) list \<Rightarrow> ScoredCandidate \<Rightarrow> bool \<times> (bool \<times> rat) \<times> rat \<times> rat \<times> string" where
  "preference_key rs costs x =
     (\<not> preferenceTrusted x, price_key rs costs x,
      if preferenceTrusted x then 0 else - num (finitePreferenceValue (sc_Confidence x) (Fin 0) (Fin 1)),
      - num (finitePreferenceValue (sc_Score x) (Fin 0) (Fin 100)), sc_ChannelID x)"

lemma preferredFallback_key:
  "preferredFallback trusted x y \<longleftrightarrow>
     (if trusted then 0 else - num (finitePreferenceValue (sc_Confidence x) (Fin 0) (Fin 1)),
      - num (finitePreferenceValue (sc_Score x) (Fin 0) (Fin 100)), sc_ChannelID x) <
     (if trusted then 0 else - num (finitePreferenceValue (sc_Confidence y) (Fin 0) (Fin 1)),
      - num (finitePreferenceValue (sc_Score y) (Fin 0) (Fin 100)), sc_ChannelID y)"
proof -
  obtain a b c d where "finitePreferenceValue (sc_Confidence x) (Fin 0) (Fin 1) = Fin a"
    "finitePreferenceValue (sc_Confidence y) (Fin 0) (Fin 1) = Fin b"
    "finitePreferenceValue (sc_Score x) (Fin 0) (Fin 100) = Fin c"
    "finitePreferenceValue (sc_Score y) (Fin 0) (Fin 100) = Fin d"
    using finitePreferenceValue_Fin by metis
  then show ?thesis by (auto simp: preferredFallback_def Let_def)
qed

lemma preferredBefore_key:
  assumes "\<And>k v. map_of costs k = Some v \<Longrightarrow> usable_cost v"
  shows "preferredBefore rs costs x y \<longleftrightarrow> preference_key rs costs x < preference_key rs costs y"
proof -
  obtain p q where w: "weightedPreferenceScore (rs_weights rs) (sc_Snapshot x) = Fin p"
    "weightedPreferenceScore (rs_weights rs) (sc_Snapshot y) = Fin q"
    using finitePreferenceValue_Fin unfolding weightedPreferenceScore_def Let_def by metis
  have c: "\<exists>a. v = Fin a" if "map_of costs k = Some v" for k v using assms [OF that] by (simp add: usable_cost_def)
  show ?thesis
    using w by (auto simp: preferredBefore_def preference_key_def price_key_def preferredFallback_key Let_def
        split: option.splits dest!: c)
qed

lemma RankEligibleByPreference_key:
  "RankEligibleByPreference s cands eligible =
     go_sort (\<lambda>x y. preference_key (resolve s) (candidateCosts cands) x < preference_key (resolve s) (candidateCosts cands) y) eligible"
proof -
  have "go_sort (preferredBefore (resolve s) (candidateCosts cands)) eligible =
    go_sort (\<lambda>x y. preference_key (resolve s) (candidateCosts cands) x < preference_key (resolve s) (candidateCosts cands) y) eligible"
    by (rule go_sort_cong, rule preferredBefore_key, rule candidateCosts_finite)
  then show ?thesis by (auto simp: RankEligibleByPreference_def)
qed

section \<open>Sample candidates\<close>

definition sample_upstream :: UpstreamChannel where
  "sample_upstream = \<lparr>chan_ID = ''c1'', chan_PoolID = ''p1'', chan_AccountOwnership = '''', chan_SourceID = '''', chan_DisplayName = '''',
     chan_Provider = '''', chan_Models = [], chan_ProbeCapability = '''', chan_ProbeEndpointPath = '''', chan_Groups = [],
     chan_CredentialBindingID = '''', chan_ProxyBindingID = '''', chan_Priority = 1, chan_Weight = 1, chan_CostHint = Fin 2,
     chan_Status = UpstreamChannelActive, chan_InventoryState = UpstreamInventoryReady, chan_Labels = [], chan_CreatedAt = 1, chan_UpdatedAt = 1\<rparr>"

definition good_candidate :: Candidate where
  "good_candidate = \<lparr>cd_Channel = sample_upstream, cd_Snapshot = emptySnapshot\<lparr>snap_QualitySampleCount := 10, snap_TTFTP95 := Fin 500\<rparr>,
     cd_State = HealthHealthy, cd_AuthFailure = False, cd_InsufficientBalance = False, cd_ConsecutiveFailures = 0, cd_ProviderDown = False\<rparr>"

definition bad_candidate :: Candidate where
  "bad_candidate = \<lparr>cd_Channel = sample_upstream\<lparr>chan_ID := ''c2''\<rparr>,
     cd_Snapshot = emptySnapshot\<lparr>snap_QualitySampleCount := 10, snap_UpstreamErrorRate := Fin 1, snap_TTFTP95 := Fin 5000\<rparr>,
     cd_State = HealthHealthy, cd_AuthFailure = False, cd_InsufficientBalance = False, cd_ConsecutiveFailures = 0, cd_ProviderDown = False\<rparr>"

lemma sample_finite: "finite_thresholds (rst_Thresholds sample_strategy)"
  using wf64_int [of 0] by (simp add: finite_thresholds_def sample_strategy_def in64_def)

lemma sample_snapshots: "wf_snapshot (cd_Snapshot good_candidate)" "wf_snapshot (cd_Snapshot bad_candidate)"
  using wf64_int [of 0] wf64_int [of 1] wf64_int [of 500] wf64_int [of 5000]
  by (simp_all add: wf_snapshot_def good_candidate_def bad_candidate_def emptySnapshot_def in64_def)

section \<open>Properties\<close>

text \<open>The gates of \<open>Rank\<close> do not look at a provider outage or at a failure streak.\<close>

lemma hardGate_ignores_outage:
  "hardGate rs (c\<lparr>cd_ProviderDown := down, cd_ConsecutiveFailures := n\<rparr>) = hardGate rs c"
  by (simp add: hardGate_def Let_def cong: if_cong)

text \<open>C36. The quality score is a number between 0 and 100, 100 when there is no evidence, and a
  candidate is ejected exactly when a lifecycle gate applies or its score is at or below the
  ejection line, which lies in (0, 100].\<close>

theorem penalty_score_sound:
  assumes "finite_thresholds (rst_Thresholds s)" "wf_snapshot (cd_Snapshot c)"
  shows "\<exists>q e. pe_Score (EvaluatePenalty s c) = Fin q \<and> 0 \<le> q \<and> q \<le> 100 \<and>
    (snap_QualitySampleCount (cd_Snapshot c) \<le> 0 \<longrightarrow> q = 100) \<and>
    th_EjectScore (rs_thresholds (resolve s)) = Fin e \<and> 0 < e \<and> e \<le> 100 \<and>
    (pe_Eject (EvaluatePenalty s c) \<longleftrightarrow> fst (penaltyLifecycleGate (resolve s) c) \<noteq> None \<or> q \<le> e)"
proof -
  obtain e where e: "th_EjectScore (rs_thresholds (resolve s)) = Fin e" "0 < e" "e \<le> 100"
    using resolved_thresholds [OF assms(1)] by metis
  show ?thesis
    using EvaluatePenalty_score [OF assms] EvaluatePenalty_Eject [of s c] e penalty_points_zero [OF assms(1)]
    by (auto simp: penalty_points_def Let_def points_bounds)
qed

theorem penalty_score_sound_witness:
  "\<exists>q. pe_Score (EvaluatePenalty sample_strategy bad_candidate) = Fin q \<and> 0 \<le> q \<and> q \<le> 100"
  using penalty_score_sound [OF sample_finite sample_snapshots(2)] by blast

text \<open>Worse measurements never raise the score: with the same number of samples, a candidate
  whose error rate and latencies are at least those of another has at most its score, in the
  rounded arithmetic of the code.\<close>

theorem penalty_is_monotone:
  assumes "finite_thresholds (rst_Thresholds s)" "wf_snapshot (cd_Snapshot c)" "wf_snapshot (cd_Snapshot d)"
    and "snap_QualitySampleCount (cd_Snapshot c) = snap_QualitySampleCount (cd_Snapshot d)"
    and "fle (finiteUnit (snap_UpstreamErrorRate (cd_Snapshot c))) (finiteUnit (snap_UpstreamErrorRate (cd_Snapshot d)))"
    and "fle (finiteNonNegative (snap_TTFTP95 (cd_Snapshot c))) (finiteNonNegative (snap_TTFTP95 (cd_Snapshot d)))"
    and "fle (finiteNonNegative (snap_DurationP95 (cd_Snapshot c))) (finiteNonNegative (snap_DurationP95 (cd_Snapshot d)))"
  shows "fle (pe_Score (EvaluatePenalty s d)) (pe_Score (EvaluatePenalty s c))"
proof -
  have U: "\<exists>a. finiteUnit (snap_UpstreamErrorRate (cd_Snapshot k)) = Fin a \<and> wf64 (Fin a)"
    "\<exists>a. finiteNonNegative (snap_TTFTP95 (cd_Snapshot k)) = Fin a \<and> wf64 (Fin a)"
    "\<exists>a. finiteNonNegative (snap_DurationP95 (cd_Snapshot k)) = Fin a \<and> wf64 (Fin a)"
    if "wf_snapshot (cd_Snapshot k)" for k
    using finiteUnit_Fin finiteNonNegative_Fin that unfolding wf_snapshot_def by blast+
  obtain u x y where c: "finiteUnit (snap_UpstreamErrorRate (cd_Snapshot c)) = Fin u"
    "finiteNonNegative (snap_TTFTP95 (cd_Snapshot c)) = Fin x" "finiteNonNegative (snap_DurationP95 (cd_Snapshot c)) = Fin y"
    using U [OF assms(2)] by blast
  obtain u' x' y' where d: "finiteUnit (snap_UpstreamErrorRate (cd_Snapshot d)) = Fin u'" "wf64 (Fin u')"
    "finiteNonNegative (snap_TTFTP95 (cd_Snapshot d)) = Fin x'" "wf64 (Fin x')"
    "finiteNonNegative (snap_DurationP95 (cd_Snapshot d)) = Fin y'" "wf64 (Fin y')"
    using U [OF assms(3)] by blast
  have n: "in64 (snap_QualitySampleCount (cd_Snapshot c))" using assms(2) by (simp add: wf_snapshot_def)
  from penalty_points_mono [OF assms(1) n, of u u' x x' y y'] assms(4-7) show ?thesis
    unfolding EvaluatePenalty_score [OF assms(1,2)] EvaluatePenalty_score [OF assms(1,3)] c d by (simp add: c d)
qed

theorem penalty_is_monotone_witness:
  "fle (pe_Score (EvaluatePenalty sample_strategy bad_candidate)) (pe_Score (EvaluatePenalty sample_strategy good_candidate))"
  by (rule penalty_is_monotone [OF sample_finite sample_snapshots])
     (simp_all add: good_candidate_def bad_candidate_def emptySnapshot_def finiteUnit_def finiteNonNegative_def clamp_Fin)

text \<open>The safety ranking loses no candidate and admits no ejected one: the excluded list is the
  ejected candidates in order, the eligible list a permutation of the others, sorted by score
  downwards and then by channel, each strictly above the ejection line.\<close>

theorem RankByPenalty_safe:
  assumes th: "finite_thresholds (rst_Thresholds s)" and sn: "\<forall>c \<in> set cs. wf_snapshot (cd_Snapshot c)"
  shows "map xc_ChannelID (rk_Excluded (RankByPenalty s cs)) =
      map (\<lambda>c. chan_ID (cd_Channel c)) (filter (\<lambda>c. pe_Eject (EvaluatePenalty s c)) cs) \<and>
    mset (map sc_ChannelID (rk_Eligible (RankByPenalty s cs))) =
      mset (map (\<lambda>c. chan_ID (cd_Channel c)) (filter (\<lambda>c. \<not> pe_Eject (EvaluatePenalty s c)) cs)) \<and>
    sorted_wrt (\<lambda>x y. flt (sc_Score y) (sc_Score x) \<or> sc_Score x = sc_Score y \<and> sc_ChannelID x \<le> sc_ChannelID y)
      (rk_Eligible (RankByPenalty s cs)) \<and>
    list_all (\<lambda>x. flt (th_EjectScore (rs_thresholds (resolve s))) (sc_Score x)) (rk_Eligible (RankByPenalty s cs))"
proof -
  let ?r = "RankByPenalty s cs"
  let ?el = "filter (\<lambda>c. \<not> pe_Eject (EvaluatePenalty s c)) cs"
  have chan: "pe_ChannelID (EvaluatePenalty s c) = chan_ID (cd_Channel c)" for c
    by (auto simp: EvaluatePenalty_def Let_def split: prod.splits option.splits)
  have fin: "\<exists>q. pe_Score (EvaluatePenalty s c) = Fin q" if "c \<in> set cs" for c
    using EvaluatePenalty_score [OF th] sn that by blast
  have ex: "map xc_ChannelID (rk_Excluded ?r) = map (\<lambda>c. chan_ID (cd_Channel c)) (filter (\<lambda>c. pe_Eject (EvaluatePenalty s c)) cs)"
    by (simp add: RankByPenalty_def Let_def RankByPenalty_loop_eq penaltyExcluded_def chan comp_def)
  have el: "rk_Eligible ?r = go_sort penaltyBefore (map (\<lambda>c. penaltyEligible (resolve s) (EvaluatePenalty s c)) ?el)"
    by (simp add: RankByPenalty_def Let_def RankByPenalty_loop_eq)
  have scores: "\<exists>c \<in> set ?el. x = penaltyEligible (resolve s) (EvaluatePenalty s c)" if "x \<in> set (rk_Eligible ?r)" for x
    using that unfolding el by auto
  have "mset (map sc_ChannelID (rk_Eligible ?r)) = mset (map (\<lambda>c. chan_ID (cd_Channel c)) ?el)"
    unfolding el mset_map mset_go_sort by (simp add: penaltyEligible_def chan image_mset.compositionality comp_def)
  moreover have "sorted_wrt (\<lambda>x y. flt (sc_Score y) (sc_Score x) \<or> sc_Score x = sc_Score y \<and> sc_ChannelID x \<le> sc_ChannelID y) (rk_Eligible ?r)"
  proof (rule sorted_wrt_mono_rel [OF _ RankByPenalty_sorted [OF fin]])
    fix x y assume xy: "x \<in> set (rk_Eligible ?r)" "y \<in> set (rk_Eligible ?r)" "penalty_key x \<le> penalty_key y"
    obtain a b where "sc_Score x = Fin a" "sc_Score y = Fin b"
      using scores [OF xy(1)] scores [OF xy(2)] fin by (fastforce simp: penaltyEligible_def)
    with xy(3) show "flt (sc_Score y) (sc_Score x) \<or> sc_Score x = sc_Score y \<and> sc_ChannelID x \<le> sc_ChannelID y"
      by (auto simp: penalty_key_def)
  qed
  moreover have "list_all (\<lambda>x. flt (th_EjectScore (rs_thresholds (resolve s))) (sc_Score x)) (rk_Eligible ?r)"
    unfolding list_all_iff
  proof
    fix x assume x: "x \<in> set (rk_Eligible ?r)"
    obtain c where c: "c \<in> set cs" "\<not> pe_Eject (EvaluatePenalty s c)" "sc_Score x = pe_Score (EvaluatePenalty s c)"
      using scores [OF x] by (auto simp: penaltyEligible_def)
    obtain e where e: "th_EjectScore (rs_thresholds (resolve s)) = Fin e" using resolved_thresholds [OF th] by metis
    show "flt (th_EjectScore (rs_thresholds (resolve s))) (sc_Score x)"
      using fin [OF c(1)] c(2,3) e by (auto simp: EvaluatePenalty_Eject not_le)
  qed
  ultimately show ?thesis using ex by blast
qed

theorem RankByPenalty_safe_witness:
  "list_all (\<lambda>x. flt (th_EjectScore (rs_thresholds (resolve sample_strategy))) (sc_Score x))
     (rk_Eligible (RankByPenalty sample_strategy [good_candidate, bad_candidate]))"
  using RankByPenalty_safe [OF sample_finite, of "[good_candidate, bad_candidate]"] sample_snapshots by simp

text \<open>The preference layer only reorders the safe set, and never lets unproven quality pass:
  candidates with full evidence precede the others; among these, cost-first puts known prices
  in ascending order before unknown ones, and every other strategy sorts by its weighted score.\<close>

theorem preference_reorders_only:
  "mset (RankEligibleByPreference s cands eligible) = mset eligible \<and>
   sorted_wrt (\<lambda>x y. (preferenceTrusted y \<longrightarrow> preferenceTrusted x) \<and>
     (preferenceTrusted x \<and> preferenceTrusted y \<longrightarrow>
        (if rs_typ (resolve s) = StrategyCostFirst
         then (case (map_of (candidateCosts cands) (sc_ChannelID x), map_of (candidateCosts cands) (sc_ChannelID y)) of
                 (Some a, Some b) \<Rightarrow> fle a b | (None, Some _) \<Rightarrow> False | _ \<Rightarrow> True)
         else fle (weightedPreferenceScore (rs_weights (resolve s)) (sc_Snapshot y))
                (weightedPreferenceScore (rs_weights (resolve s)) (sc_Snapshot x)))))
     (RankEligibleByPreference s cands eligible)"
proof -
  let ?key = "preference_key (resolve s) (candidateCosts cands)"
  have w: "\<exists>p. weightedPreferenceScore (rs_weights (resolve s)) sn = Fin p" for sn
    unfolding weightedPreferenceScore_def Let_def by (rule finitePreferenceValue_Fin)
  have c: "\<exists>a. v = Fin a" if "map_of (candidateCosts cands) k = Some v" for k v
    using candidateCosts_finite [OF that] by (simp add: usable_cost_def)
  have le: "fle (weightedPreferenceScore (rs_weights (resolve s)) (sc_Snapshot y)) (weightedPreferenceScore (rs_weights (resolve s)) (sc_Snapshot x))"
    if "?key x \<le> ?key y" "preferenceTrusted x" "preferenceTrusted y" "rs_typ (resolve s) \<noteq> StrategyCostFirst" for x y
    using that w [of "sc_Snapshot x"] w [of "sc_Snapshot y"] by (auto simp: preference_key_def price_key_def)
  have "sorted_wrt (\<lambda>x y. \<not> ?key y < ?key x) (RankEligibleByPreference s cands eligible)"
    unfolding RankEligibleByPreference_key by (rule strict_weak_order.sorted_go_sort [OF strict_weak_order_key])
  then have s: "sorted_wrt (\<lambda>x y. ?key x \<le> ?key y) (RankEligibleByPreference s cands eligible)" by (simp add: not_less)
  have m: "mset (RankEligibleByPreference s cands eligible) = mset eligible" by (simp add: RankEligibleByPreference_key)
  show ?thesis
    by (rule conjI [OF m], rule sorted_wrt_mono_rel [OF _ s])
       (auto simp: le, auto simp: preference_key_def price_key_def split: option.splits dest!: c)
qed

theorem preference_reorders_only_witness:
  "mset (RankEligibleByPreference sample_strategy [good_candidate, bad_candidate]
     [penaltyEligible (resolve sample_strategy) (EvaluatePenalty sample_strategy bad_candidate),
      penaltyEligible (resolve sample_strategy) (EvaluatePenalty sample_strategy good_candidate)]) =
   mset [penaltyEligible (resolve sample_strategy) (EvaluatePenalty sample_strategy bad_candidate),
      penaltyEligible (resolve sample_strategy) (EvaluatePenalty sample_strategy good_candidate)]"
  by (rule conjunct1 [OF preference_reorders_only])

end
