(* ===== verification/Quality_Circuit.thy ===== *)
theory Quality_Circuit
  imports Quality_Penalty "HOL-Library.Word"
begin

unbundle bit_operations_syntax

text \<open>
  \<open>app/e2m-core/internal/strategy/circuit.go\<close>: the quality circuit of one downstream binding.
  \<open>hash/fnv\<close> and the float arithmetic of the cooldown are computed as in Go.
\<close>

section \<open>Data\<close>

datatype QualityCircuitState = CircuitClosed | CircuitOpen | CircuitHalfOpen | CircuitStateOther string

datatype QualityCircuitAction = CircuitNoop | CircuitEject | CircuitKeepEjected | CircuitRestore

record QualityCircuitPolicy =
  qp_BaseCooldown :: duration
  qp_MaxCooldown :: duration
  qp_HalfOpenSuccesses :: int64
  qp_RecoveryScore :: float64
  qp_CooldownJitterFraction :: float64

definition DefaultQualityCircuitPolicy :: QualityCircuitPolicy where
  "DefaultQualityCircuitPolicy = \<lparr>qp_BaseCooldown = 5 * Minute, qp_MaxCooldown = Hour, qp_HalfOpenSuccesses = 3,
     qp_RecoveryScore = Fin 85, qp_CooldownJitterFraction = round64 (20 / 100)\<rparr>"

definition QualityCircuitPolicy_withDefaults :: "QualityCircuitPolicy \<Rightarrow> QualityCircuitPolicy" where
  "QualityCircuitPolicy_withDefaults p =
     (let d = DefaultQualityCircuitPolicy;
          p = (if qp_BaseCooldown p \<le> 0 then p\<lparr>qp_BaseCooldown := qp_BaseCooldown d\<rparr> else p);
          p = (if qp_MaxCooldown p \<le> 0 then p\<lparr>qp_MaxCooldown := qp_MaxCooldown d\<rparr> else p);
          p = (if qp_MaxCooldown p < qp_BaseCooldown p then p\<lparr>qp_MaxCooldown := qp_BaseCooldown p\<rparr> else p);
          p = (if qp_HalfOpenSuccesses p \<le> 0 then p\<lparr>qp_HalfOpenSuccesses := qp_HalfOpenSuccesses d\<rparr> else p);
          p = (if fle (qp_RecoveryScore p) (Fin 0) \<or> flt (Fin 100) (qp_RecoveryScore p)
               then p\<lparr>qp_RecoveryScore := qp_RecoveryScore d\<rparr> else p)
      in if flt (qp_CooldownJitterFraction p) (Fin 0) \<or> flt (Fin 1) (qp_CooldownJitterFraction p)
         then p\<lparr>qp_CooldownJitterFraction := qp_CooldownJitterFraction d\<rparr> else p)"

record QualityCircuit =
  qc_ScopeKey :: string
  qc_State :: QualityCircuitState
  qc_OpenedAt :: time
  qc_ProbeAfter :: time
  qc_HalfOpenSince :: time
  qc_LastTransition :: time
  qc_OpenCount :: int64
  qc_ConsecutiveProbeSuccesses :: int64
  qc_LastScore :: float64
  qc_LastReason :: Reason

datatype CircuitEventKind = CircuitQualityWindow | CircuitRecoveryProbe | CircuitEventOther string

record QualityCircuitEvent =
  qe_Kind :: CircuitEventKind
  qe_Now :: time
  qe_Evaluation :: PenaltyEvaluation

record QualityCircuitTransition =
  qt_Circuit :: QualityCircuit
  qt_Action :: QualityCircuitAction
  qt_Changed :: bool
  qt_Reason :: Reason

definition CircuitReasonHealthy :: string where "CircuitReasonHealthy = ''circuit_healthy''"
definition CircuitReasonOpened :: string where "CircuitReasonOpened = ''circuit_opened''"
definition CircuitReasonCooldown :: string where "CircuitReasonCooldown = ''circuit_cooldown''"
definition CircuitReasonProbeRequired :: string where "CircuitReasonProbeRequired = ''circuit_probe_required''"
definition CircuitReasonHalfOpen :: string where "CircuitReasonHalfOpen = ''circuit_half_open''"
definition CircuitReasonProbeFailed :: string where "CircuitReasonProbeFailed = ''circuit_probe_failed''"
definition CircuitReasonProbeSucceeded :: string where "CircuitReasonProbeSucceeded = ''circuit_probe_succeeded''"
definition CircuitReasonRestored :: string where "CircuitReasonRestored = ''circuit_restored''"

section \<open>The cooldown\<close>

text \<open>\<open>fnv.New32a\<close> on the bytes of a string.\<close>

definition fnv32a :: "string \<Rightarrow> 32 word" where
  "fnv32a s = foldl (\<lambda>h c. (h XOR of_nat (of_char c)) * 16777619) 2166136261 s"

definition baseCooldown :: "int64 \<Rightarrow> QualityCircuitPolicy \<Rightarrow> duration" where
  "baseCooldown openCount p =
     (let openCount = (if openCount < 1 then 1 else openCount);
          multiplier = pow2 (openCount - 1);
          d = int64_of_float (fmul (float64_of_int (qp_BaseCooldown p)) multiplier)
      in if qp_MaxCooldown p < d \<or> d < 0 then qp_MaxCooldown p else d)"

definition jitterFactor :: "string \<Rightarrow> QualityCircuitPolicy \<Rightarrow> float64" where
  "jitterFactor scopeKey p =
     (let unit = fdiv (float64_of_int (uint (fnv32a scopeKey))) (float64_of_int 4294967295)
      in fadd (Fin 1) (fmul unit (qp_CooldownJitterFraction p)))"

definition cooldownFor :: "string \<Rightarrow> int64 \<Rightarrow> QualityCircuitPolicy \<Rightarrow> duration" where
  "cooldownFor scopeKey openCount p =
     (let d = baseCooldown openCount p in
      if feq (qp_CooldownJitterFraction p) (Fin 0) \<or> scopeKey = '''' then d
      else let jittered = int64_of_float (fmul (float64_of_int d) (jitterFactor scopeKey p))
        in if qp_MaxCooldown p < jittered then qp_MaxCooldown p else jittered)"

section \<open>Transitions\<close>

definition openCircuit :: "QualityCircuit \<Rightarrow> Reason \<Rightarrow> time \<Rightarrow> QualityCircuitPolicy \<Rightarrow> QualityCircuitAction \<Rightarrow> QualityCircuitTransition" where
  "openCircuit rt reason now p action =
     (let previous = qc_State rt;
          rt = rt\<lparr>qc_State := CircuitOpen, qc_OpenedAt := now, qc_HalfOpenSince := 0, qc_LastTransition := now,
                 qc_ConsecutiveProbeSuccesses := 0, qc_OpenCount := wrap64 (qc_OpenCount rt + 1)\<rparr>;
          rt = rt\<lparr>qc_ProbeAfter := now + cooldownFor (qc_ScopeKey rt) (qc_OpenCount rt) p\<rparr>;
          reason = (if reason_Code reason = '''' then \<lparr>reason_Code = CircuitReasonProbeFailed, reason_Text = plainText text_probe_failed\<rparr> else reason);
          rt = rt\<lparr>qc_LastReason := reason\<rparr>
      in \<lparr>qt_Circuit = rt, qt_Action = action, qt_Changed = (previous \<noteq> CircuitOpen \<or> \<not> IsZero (qc_ProbeAfter rt)),
          qt_Reason = \<lparr>reason_Code = CircuitReasonOpened, reason_Text = reason_Text reason\<rparr>\<rparr>)"

definition closeCircuit :: "QualityCircuit \<Rightarrow> time \<Rightarrow> QualityCircuitTransition" where
  "closeCircuit rt now =
     (let reason = \<lparr>reason_Code = CircuitReasonRestored, reason_Text = plainText text_restored\<rparr>
      in \<lparr>qt_Circuit = rt\<lparr>qc_State := CircuitClosed, qc_OpenedAt := 0, qc_ProbeAfter := 0, qc_HalfOpenSince := 0,
            qc_LastTransition := now, qc_OpenCount := 0, qc_ConsecutiveProbeSuccesses := 0, qc_LastReason := reason\<rparr>,
          qt_Action = CircuitRestore, qt_Changed = True, qt_Reason = reason\<rparr>)"

definition circuitResult :: "QualityCircuit \<Rightarrow> QualityCircuitAction \<Rightarrow> bool \<Rightarrow> string \<Rightarrow> string \<Rightarrow> QualityCircuitTransition" where
  "circuitResult rt action changed code t =
     \<lparr>qt_Circuit = rt, qt_Action = action, qt_Changed = changed, qt_Reason = \<lparr>reason_Code = code, reason_Text = plainText t\<rparr>\<rparr>"

definition probeHealthy :: "PenaltyEvaluation \<Rightarrow> QualityCircuitPolicy \<Rightarrow> bool" where
  "probeHealthy e p \<longleftrightarrow> flt (Fin 0) (pe_Evidence e) \<and> \<not> pe_Eject e \<and> \<not> pe_HardFailure e \<and> fle (qp_RecoveryScore p) (pe_Score e)"

text \<open>\<open>time.Unix(0, 0)\<close> in nanoseconds since the zero time.\<close>

definition unixEpoch :: time where
  "unixEpoch = 62135596800 * Second"

function AdvanceQualityCircuit :: "QualityCircuit \<Rightarrow> QualityCircuitEvent \<Rightarrow> QualityCircuitPolicy \<Rightarrow> QualityCircuitTransition" where
  "AdvanceQualityCircuit current event policy =
     (let p = QualityCircuitPolicy_withDefaults policy;
          rt = (if qc_State current = CircuitStateOther '''' then current\<lparr>qc_State := CircuitClosed\<rparr> else current);
          now = (if IsZero (qe_Now event) then unixEpoch else qe_Now event);
          ev = qe_Evaluation event;
          rt = rt\<lparr>qc_LastScore := pe_Score ev\<rparr>
      in
      case qc_State rt of
        CircuitClosed \<Rightarrow>
          (if pe_Eject ev then openCircuit rt (pe_Reason ev) now p CircuitEject
           else circuitResult rt CircuitNoop False CircuitReasonHealthy text_healthy)
      | CircuitOpen \<Rightarrow>
          (if qe_Kind event \<noteq> CircuitRecoveryProbe then
             circuitResult rt CircuitKeepEjected False CircuitReasonProbeRequired text_probe_required
           else if now < qc_ProbeAfter rt then
             circuitResult rt CircuitKeepEjected False CircuitReasonCooldown text_cooling
           else if \<not> probeHealthy ev p then openCircuit rt (pe_Reason ev) now p CircuitKeepEjected
           else let reason = \<lparr>reason_Code = CircuitReasonHalfOpen, reason_Text = plainText text_half_open\<rparr>;
                    rt = rt\<lparr>qc_State := CircuitHalfOpen, qc_HalfOpenSince := now, qc_LastTransition := now,
                           qc_ConsecutiveProbeSuccesses := 1, qc_LastReason := reason\<rparr>
             in if qp_HalfOpenSuccesses p = 1 then closeCircuit rt now
                else \<lparr>qt_Circuit = rt, qt_Action = CircuitKeepEjected, qt_Changed = True, qt_Reason = qc_LastReason rt\<rparr>)
      | CircuitHalfOpen \<Rightarrow>
          (if qe_Kind event \<noteq> CircuitRecoveryProbe then
             circuitResult rt CircuitKeepEjected False CircuitReasonProbeRequired text_half_open_only
           else if \<not> probeHealthy ev p then openCircuit rt (pe_Reason ev) now p CircuitKeepEjected
           else let rt = rt\<lparr>qc_ConsecutiveProbeSuccesses := wrap64 (qc_ConsecutiveProbeSuccesses rt + 1)\<rparr>
             in if qp_HalfOpenSuccesses p \<le> qc_ConsecutiveProbeSuccesses rt then closeCircuit rt now
                else let reason = \<lparr>reason_Code = CircuitReasonProbeSucceeded, reason_Text = plainText text_probe_succeeded\<rparr>;
                         rt = rt\<lparr>qc_LastReason := reason\<rparr>
                  in \<lparr>qt_Circuit = rt, qt_Action = CircuitKeepEjected, qt_Changed = True, qt_Reason = qc_LastReason rt\<rparr>)
      | CircuitStateOther _ \<Rightarrow>
          AdvanceQualityCircuit (rt\<lparr>qc_State := CircuitClosed, qc_LastTransition := now\<rparr>) event p)"
  by pat_completeness auto

text \<open>An unknown state is replaced by the closed one, which makes no further call.\<close>

termination
  by (relation "measure (\<lambda>(c, _, _). case qc_State c of CircuitStateOther _ \<Rightarrow> 1 | _ \<Rightarrow> 0)") (auto split: if_splits)

declare AdvanceQualityCircuit.simps [simp del]

definition RecoveryProbeDue :: "QualityCircuit \<Rightarrow> time \<Rightarrow> bool" where
  "RecoveryProbeDue c now \<longleftrightarrow> qc_State c = CircuitOpen \<and> \<not> IsZero (qc_ProbeAfter c) \<and> \<not> now < qc_ProbeAfter c"

section \<open>The cooldown as a number\<close>

lemma f64_shift: "\<bar>m\<bar> < 2 ^ 53 \<Longrightarrow> f64 (of_int m * 2 ^ n) = of_int m * 2 ^ n"
  by (rule f64_exact [of _ m "int n"]) auto

lemma truncate_rat_of_int: "truncate_rat (of_int k) = k"
  by (simp add: truncate_rat_def)

lemma round64_nonneg: "0 \<le> f64 x \<Longrightarrow> round64 x = PInf \<or> round64 x = Fin (f64 x)"
proof -
  assume "0 \<le> f64 x"
  moreover have "- (2 ^ 1024) < (0::rat)" by simp
  ultimately have "\<not> f64 x \<le> - (2 ^ 1024)" by linarith
  then show ?thesis unfolding round64_def Let_def by metis
qed

lemma in64_nonneg: "0 \<le> n \<Longrightarrow> n < 2 ^ 63 \<Longrightarrow> in64 n"
  by (simp add: in64_def)

lemma float64_of_int_small: "\<bar>m\<bar> < 2 ^ 53 \<Longrightarrow> float64_of_int m = Fin (of_int m)"
  by (simp add: float64_of_int_def round64_int)

text \<open>Without jitter the cooldown doubles with every opening, up to the maximum. The code gets
  there through \<open>float64\<close>, where a product out of the range of \<open>time.Duration\<close> converts to a
  negative number.\<close>

lemma baseCooldown_exact:
  assumes "0 < qp_BaseCooldown p" "qp_BaseCooldown p < 2 ^ 53" "qp_MaxCooldown p < 2 ^ 63" "1 \<le> n"
  shows "baseCooldown n p = min (qp_BaseCooldown p * 2 ^ nat (n - 1)) (qp_MaxCooldown p)"
proof -
  let ?b = "qp_BaseCooldown p" and ?k = "nat (n - 1)"
  have b: "float64_of_int ?b = Fin (of_int ?b)" using assms by (intro float64_of_int_small) simp
  have big: "baseCooldown n p = qp_MaxCooldown p" if "int64_of_float (fmul (Fin (of_int ?b)) (pow2 (n - 1))) < 0"
    using that assms(4) b by (simp add: baseCooldown_def Let_def)
  show ?thesis
  proof (cases "?b * 2 ^ ?k < 2 ^ 63")
    case True
    have "(2::int) ^ ?k \<le> ?b * 2 ^ ?k" using assms(1) by simp
    with True have "(2::int) ^ ?k < 2 ^ 63" by linarith
    then have k: "?k < 63" by (simp only: power_strict_increasing_iff)
    have le: "(of_int ?b * 2 ^ ?k :: rat) \<le> of_int (2 ^ 63)"
    proof -
      have "(of_int (?b * 2 ^ ?k) :: rat) \<le> of_int (2 ^ 63)" using True by (simp only: of_int_le_iff)
      then show ?thesis by simp
    qed
    have "round64 (of_int ?b * 2 ^ ?k) = Fin (of_int ?b * 2 ^ ?k)"
      using round64_bounded [of "of_int ?b * 2 ^ ?k" 63] le assms(1,2) f64_shift [of ?b ?k] by simp
    then have "fmul (Fin (of_int ?b)) (pow2 (n - 1)) = Fin (of_int (?b * 2 ^ ?k))"
    proof -
      have "n - 1 < 1024" using k by linarith
      then show ?thesis using \<open>round64 (of_int ?b * 2 ^ ?k) = Fin (of_int ?b * 2 ^ ?k)\<close> by (simp add: pow2_def)
    qed
    moreover have "truncate_rat (of_int (?b * 2 ^ ?k)) = ?b * 2 ^ ?k" by (rule truncate_rat_of_int)
    ultimately have "int64_of_float (fmul (float64_of_int ?b) (pow2 (n - 1))) = ?b * 2 ^ ?k"
      using in64_nonneg [OF _ True] assms(1) b by simp
    moreover have "\<not> ?b * 2 ^ ?k < 0" using assms(1) by (simp add: not_less)
    ultimately show ?thesis using assms by (simp add: baseCooldown_def Let_def)
  next
    case False
    have "int64_of_float (fmul (Fin (of_int ?b)) (pow2 (n - 1))) < 0"
    proof (cases "n - 1 < 1024")
      case True
      have r: "round64 (of_int ?b * 2 ^ ?k) = PInf \<or> round64 (of_int ?b * 2 ^ ?k) = Fin (of_int (?b * 2 ^ ?k))"
        using f64_shift [of ?b ?k] assms(1,2) round64_nonneg [of "of_int ?b * 2 ^ ?k"] by simp
      moreover have "truncate_rat (of_int (?b * 2 ^ ?k)) = ?b * 2 ^ ?k" by (rule truncate_rat_of_int)
      ultimately show ?thesis using True False by (auto simp: pow2_def in64_def)
    qed (use assms(1) in \<open>simp add: pow2_def of_sign_def\<close>)
    then show ?thesis using big False assms(3) by simp
  qed
qed

lemma jitterFactor_Fin:
  assumes "qp_CooldownJitterFraction p = Fin j" "0 \<le> j" "j \<le> 1"
  obtains q where "jitterFactor key p = Fin q" "1 \<le> q" "q \<le> 2"
proof -
  define h where "h = uint (fnv32a key)"
  let ?h = h
  have h: "0 \<le> h" "h \<le> 4294967295" using uint_lt2p [of "fnv32a key"] by (simp_all add: h_def)
  let ?u = "f64 (of_int ?h / 4294967295)"
  have x: "0 \<le> (of_int ?h / 4294967295 :: rat)" "(of_int ?h / 4294967295 :: rat) \<le> of_int 1"
    using h by (simp_all add: of_int_le_iff [of _ 4294967295, simplified])
  have u: "0 \<le> ?u" "?u \<le> 1" using f64_sign(1) [OF x(1)] f64_le_int [OF x(2)] by simp_all
  have "round64 (of_int ?h / 4294967295) = Fin ?u" by (rule round64_Fin [of _ 1]) (use x in auto)
  then have U: "fdiv (float64_of_int ?h) (float64_of_int 4294967295) = Fin ?u"
    using h by (simp add: float64_of_int_small [of ?h] float64_of_int_small [of 4294967295])
  have "0 \<le> ?u * j" "?u * j \<le> of_int 1" using u assms by (simp_all add: mult_le_one)
  then have v: "0 \<le> f64 (?u * j)" "f64 (?u * j) \<le> 1" "round64 (?u * j) = Fin (f64 (?u * j))"
    using f64_sign(1) [of "?u * j"] f64_le_int [of "?u * j" 1] round64_Fin [of "?u * j" 1] by auto
  let ?q = "f64 (1 + f64 (?u * j))"
  have "of_int 1 \<le> 1 + f64 (?u * j)" "1 + f64 (?u * j) \<le> of_int 2" using v by simp_all
  then have "1 \<le> ?q" "?q \<le> 2" "round64 (1 + f64 (?u * j)) = Fin ?q"
    using int_le_f64 [of 1 "1 + f64 (?u * j)"] f64_le_int [of "1 + f64 (?u * j)" 2] round64_Fin [of "1 + f64 (?u * j)" 2] by auto
  then show thesis using that U v(3) assms(1) by (simp add: jitterFactor_def h_def Let_def)
qed

lemma jittered_bounds:
  assumes "0 < d" "d < 2 ^ 53" "1 \<le> q" "q \<le> 2"
  shows "d \<le> int64_of_float (fmul (float64_of_int d) (Fin q))"
proof -
  have d: "float64_of_int d = Fin (of_int d)" using assms by (intro float64_of_int_small) simp
  have "(of_int d :: rat) \<le> of_int (2 ^ 53)" using assms(2) by (simp only: of_int_le_iff)
  then have "of_int d * q \<le> 2 ^ 53 * 2" using assms by (intro mult_mono) auto
  then have up: "of_int d * q \<le> 2 ^ 54" by simp
  have lo: "of_int d \<le> of_int d * q" using assms by simp
  have f: "of_int d \<le> f64 (of_int d * q)" using int_le_f64 [OF lo] assms by simp
  have g: "f64 (of_int d * q) \<le> 2 ^ 54" using f64_le_pow2 [OF up] .
  have "0 \<le> of_int d * q" using lo assms(1) by (meson of_int_0_le_iff order_trans order_less_imp_le)
  then have r: "round64 (of_int d * q) = Fin (f64 (of_int d * q))" using up round64_bounded [of "of_int d * q" 54] by simp
  have pos: "0 \<le> f64 (of_int d * q)" using f assms(1) by (meson of_int_0_le_iff order_trans order_less_imp_le)
  have fl: "d \<le> \<lfloor>f64 (of_int d * q)\<rfloor>" "\<lfloor>f64 (of_int d * q)\<rfloor> \<le> 2 ^ 54"
    using f g floor_mono [OF g] by (simp_all add: le_floor_iff)
  moreover have "\<lfloor>f64 (of_int d * q)\<rfloor> < 2 ^ 63" using fl(2) by (rule order_le_less_trans) simp
  ultimately have "in64 \<lfloor>f64 (of_int d * q)\<rfloor>" using assms(1) by (intro in64_nonneg) linarith+
  then show ?thesis using fl r pos by (simp add: d truncate_rat_def)
qed

lemma cooldownFor_bounds:
  assumes "0 < qp_BaseCooldown p" "qp_BaseCooldown p \<le> qp_MaxCooldown p" "qp_MaxCooldown p < 2 ^ 53"
    "qp_CooldownJitterFraction p = Fin j" "0 \<le> j" "j \<le> 1" "1 \<le> n"
  shows "min (qp_BaseCooldown p * 2 ^ nat (n - 1)) (qp_MaxCooldown p) \<le> cooldownFor key n p" "cooldownFor key n p \<le> qp_MaxCooldown p"
proof -
  let ?d = "min (qp_BaseCooldown p * 2 ^ nat (n - 1)) (qp_MaxCooldown p)"
  have d: "baseCooldown n p = ?d" using assms by (intro baseCooldown_exact) auto
  have "0 < ?d" "?d < 2 ^ 53" using assms by auto
  moreover obtain q where "jitterFactor key p = Fin q" "1 \<le> q" "q \<le> 2" using jitterFactor_Fin [OF assms(4-6)] by blast
  ultimately have "?d \<le> int64_of_float (fmul (float64_of_int ?d) (jitterFactor key p))" using jittered_bounds by metis
  then show "?d \<le> cooldownFor key n p" "cooldownFor key n p \<le> qp_MaxCooldown p"
    by (auto simp: cooldownFor_def Let_def d)
qed

section \<open>Runs of a circuit\<close>

definition circuit_run :: "QualityCircuitPolicy \<Rightarrow> QualityCircuitEvent list \<Rightarrow> QualityCircuit \<Rightarrow> QualityCircuit" where
  "circuit_run p es c = fold (\<lambda>e c. qt_Circuit (AdvanceQualityCircuit c e p)) es c"

lemma circuit_run_simps [simp]:
  "circuit_run p [] c = c"
  "circuit_run p (es @ [e]) c = qt_Circuit (AdvanceQualityCircuit (circuit_run p es c) e p)"
  by (simp_all add: circuit_run_def)

text \<open>An event that proves quality: a recovery probe with evidence, no ejection and a score at or
  above the recovery line.\<close>

definition good_probe :: "QualityCircuitPolicy \<Rightarrow> QualityCircuitEvent \<Rightarrow> bool" where
  "good_probe p e \<longleftrightarrow> qe_Kind e = CircuitRecoveryProbe \<and> probeHealthy (qe_Evaluation e) (QualityCircuitPolicy_withDefaults p)"

definition steady :: "QualityCircuitPolicy \<Rightarrow> QualityCircuitEvent \<Rightarrow> bool" where
  "steady p e \<longleftrightarrow> qe_Kind e = CircuitRecoveryProbe \<longrightarrow> good_probe p e"

definition good_probes :: "QualityCircuitPolicy \<Rightarrow> QualityCircuitEvent list \<Rightarrow> nat" where
  "good_probes p es = length (filter (good_probe p) es)"

text \<open>The trial that \<open>e\<close> starts after \<open>before\<close>: the circuit is open, its cooldown has run out.\<close>

definition trial :: "QualityCircuitPolicy \<Rightarrow> QualityCircuit \<Rightarrow> QualityCircuitEvent list \<Rightarrow> QualityCircuitEvent \<Rightarrow> QualityCircuitEvent list \<Rightarrow> bool" where
  "trial p c before e during \<longleftrightarrow> qc_State (circuit_run p before c) = CircuitOpen \<and>
     qc_ProbeAfter (circuit_run p before c) \<le> qe_Now e \<and> good_probe p e \<and> list_all (steady p) during"

definition restored :: "QualityCircuitPolicy \<Rightarrow> QualityCircuit \<Rightarrow> QualityCircuitEvent list \<Rightarrow> bool" where
  "restored p c es \<longleftrightarrow> (\<exists>before e during after. es = before @ e # during @ after \<and> trial p c before e during \<and>
     qp_HalfOpenSuccesses (QualityCircuitPolicy_withDefaults p) \<le> int (good_probes p (e # during)))"

definition circuit_ok :: "QualityCircuitPolicy \<Rightarrow> QualityCircuit \<Rightarrow> QualityCircuitEvent list \<Rightarrow> bool" where
  "circuit_ok p c es \<longleftrightarrow>
     (let r = circuit_run p es c in
      case qc_State r of
        CircuitOpen \<Rightarrow> True
      | CircuitHalfOpen \<Rightarrow>
          in64 (qc_ConsecutiveProbeSuccesses r) \<and>
          (\<exists>before e during. es = before @ e # during \<and> trial p c before e during \<and>
             qc_ConsecutiveProbeSuccesses r \<le> int (good_probes p (e # during)))
      | CircuitClosed \<Rightarrow> restored p c es
      | CircuitStateOther _ \<Rightarrow> False)"

lemma restored_append: "restored p c es \<Longrightarrow> restored p c (es @ fs)"
  unfolding restored_def by (metis append.assoc append_Cons)

lemma trial_extend: "trial p c before e during \<Longrightarrow> steady p f \<Longrightarrow> trial p c before e (during @ [f])"
  by (simp add: trial_def)

lemma good_probes_simps [simp]:
  "good_probes p (es @ fs) = good_probes p es + good_probes p fs" "good_probes p [] = 0"
  "good_probe p e \<Longrightarrow> good_probes p (e # es) = Suc (good_probes p es)"
  by (simp_all add: good_probes_def)

lemma openCircuit_state [simp]: "qc_State (qt_Circuit (openCircuit rt reason now p action)) = CircuitOpen"
  by (simp add: openCircuit_def Let_def)

lemma closeCircuit_state [simp]: "qc_State (qt_Circuit (closeCircuit rt now)) = CircuitClosed"
  by (simp add: closeCircuit_def Let_def)

lemma circuitResult_circuit [simp]: "qt_Circuit (circuitResult rt action changed code t) = rt"
  by (simp add: circuitResult_def)

lemma HalfOpenSuccesses_pos: "0 < qp_HalfOpenSuccesses (QualityCircuitPolicy_withDefaults p)"
  by (simp add: QualityCircuitPolicy_withDefaults_def DefaultQualityCircuitPolicy_def Let_def)

lemma circuit_ok_halfD:
  assumes "circuit_ok p c es" "qc_State (circuit_run p es c) = CircuitHalfOpen"
  obtains before e during where "es = before @ e # during" "trial p c before e during"
    "qc_ConsecutiveProbeSuccesses (circuit_run p es c) \<le> int (good_probes p (e # during))"
    "in64 (qc_ConsecutiveProbeSuccesses (circuit_run p es c))"
  using assms by (auto simp: circuit_ok_def Let_def)

lemma circuit_ok_halfI:
  assumes "trial p c before e during" "qt_Circuit (AdvanceQualityCircuit (circuit_run p (before @ e # during) c) f p) = r" "steady p f"
    "qc_State r = CircuitHalfOpen" "in64 (qc_ConsecutiveProbeSuccesses r)"
    "qc_ConsecutiveProbeSuccesses r \<le> int (good_probes p (e # during @ [f]))"
  shows "circuit_ok p c ((before @ e # during) @ [f])"
proof -
  have "circuit_run p ((before @ e # during) @ [f]) c = r" using assms(2) by (simp only: circuit_run_simps)
  then show ?thesis unfolding circuit_ok_def Let_def
    using assms(4-6) trial_extend [OF assms(1,3)]
    by (simp only: QualityCircuitState.case, intro conjI exI [of _ before] exI [of _ e] exI [of _ "during @ [f]"]) simp_all
qed

lemma circuit_ok_half:
  assumes ok: "circuit_ok p c es" and half: "qc_State (circuit_run p es c) = CircuitHalfOpen"
  shows "circuit_ok p c (es @ [f])"
proof -
  let ?r = "circuit_run p es c" and ?p = "QualityCircuitPolicy_withDefaults p"
  let ?t = "qt_Circuit (AdvanceQualityCircuit ?r f p)"
  obtain before e during where o: "es = before @ e # during" "trial p c before e during"
    "qc_ConsecutiveProbeSuccesses ?r \<le> int (good_probes p (e # during))" "in64 (qc_ConsecutiveProbeSuccesses ?r)"
    by (rule circuit_ok_halfD [OF ok half])
  have gp: "good_probes p (e # during @ [f]) = good_probes p (e # during) + good_probes p [f]"
    using good_probes_simps(1) [of p "e # during" "[f]"] by simp
  consider "qe_Kind f \<noteq> CircuitRecoveryProbe" | "good_probe p f" | "qe_Kind f = CircuitRecoveryProbe" "\<not> good_probe p f" by blast
  then show ?thesis
  proof cases
    case 1
    then have t: "?t = ?r\<lparr>qc_LastScore := pe_Score (qe_Evaluation f)\<rparr>"
      using half by (simp add: AdvanceQualityCircuit.simps Let_def)
    show ?thesis unfolding o(1)
      by (rule circuit_ok_halfI [OF o(2) t [unfolded o(1)]]) (use 1 o half gp in \<open>simp_all add: steady_def\<close>)
  next
    case 2
    then have n: "wrap64 (qc_ConsecutiveProbeSuccesses ?r + 1) \<le> int (good_probes p (e # during @ [f]))"
      using wrap64_succ_le [OF o(4)] o(3) gp by simp
    show ?thesis
    proof (cases "qp_HalfOpenSuccesses ?p \<le> wrap64 (qc_ConsecutiveProbeSuccesses ?r + 1)")
      case True
      then have "qc_State ?t = CircuitClosed"
        using half 2 by (simp add: AdvanceQualityCircuit.simps Let_def good_probe_def)
      moreover have "restored p c (es @ [f])"
        unfolding restored_def using o(1) n True trial_extend [OF o(2), of f] 2
        by (intro exI [of _ before] exI [of _ e] exI [of _ "during @ [f]"] exI [of _ "[]"]) (simp add: steady_def)
      ultimately show ?thesis by (simp add: circuit_ok_def Let_def)
    next
      case False
      then have t: "qc_State ?t = CircuitHalfOpen" "qc_ConsecutiveProbeSuccesses ?t = wrap64 (qc_ConsecutiveProbeSuccesses ?r + 1)"
        using half 2 by (simp_all add: AdvanceQualityCircuit.simps Let_def good_probe_def)
      show ?thesis unfolding o(1)
        by (rule circuit_ok_halfI [OF o(2) refl]) (use 2 n t o(1) in \<open>simp_all add: steady_def\<close>)
    qed
  next
    case 3
    then show ?thesis using half by (simp add: circuit_ok_def AdvanceQualityCircuit.simps Let_def good_probe_def)
  qed
qed

lemma circuit_ok_open:
  assumes op: "qc_State (circuit_run p es c) = CircuitOpen" and now: "0 < qe_Now f"
  shows "circuit_ok p c (es @ [f])"
proof -
  let ?r = "circuit_run p es c" and ?p = "QualityCircuitPolicy_withDefaults p"
  let ?t = "qt_Circuit (AdvanceQualityCircuit ?r f p)"
  show ?thesis
  proof (cases "good_probe p f \<and> qc_ProbeAfter ?r \<le> qe_Now f")
    case True
    then have tr: "trial p c es f []" using op by (simp add: trial_def)
    show ?thesis
    proof (cases "qp_HalfOpenSuccesses ?p = 1")
      case one: True
      then have "qc_State ?t = CircuitClosed"
        using op True now by (simp add: AdvanceQualityCircuit.simps Let_def good_probe_def IsZero_def)
      moreover have "restored p c (es @ [f])"
        unfolding restored_def using tr one True
        by (intro exI [of _ es] exI [of _ f] exI [of _ "[]"] exI [of _ "[]"]) simp
      ultimately show ?thesis by (simp add: circuit_ok_def Let_def)
    next
      case False
      then have "qc_State ?t = CircuitHalfOpen" "qc_ConsecutiveProbeSuccesses ?t = 1"
        using op True now by (simp_all add: AdvanceQualityCircuit.simps Let_def good_probe_def IsZero_def)
      then show ?thesis using tr True unfolding circuit_ok_def Let_def
        by (simp add: in64_def) (intro exI [of _ es] exI [of _ f] exI [of _ "[]"], simp)
    qed
  next
    case False
    then have "qc_State ?t = CircuitOpen"
      using op now by (auto simp: AdvanceQualityCircuit.simps Let_def good_probe_def IsZero_def)
    then show ?thesis by (simp add: circuit_ok_def Let_def)
  qed
qed

lemma circuit_ok_step:
  assumes ok: "circuit_ok p c es" and now: "0 < qe_Now f"
  shows "circuit_ok p c (es @ [f])"
proof (cases "qc_State (circuit_run p es c)")
  case CircuitClosed
  then have "restored p c (es @ [f])" using ok restored_append by (simp add: circuit_ok_def Let_def)
  then show ?thesis using CircuitClosed by (simp add: circuit_ok_def AdvanceQualityCircuit.simps Let_def)
next
  case CircuitOpen
  then show ?thesis using circuit_ok_open now by blast
next
  case CircuitHalfOpen
  then show ?thesis using circuit_ok_half ok by blast
next
  case (CircuitStateOther x)
  then show ?thesis using ok by (simp add: circuit_ok_def Let_def)
qed

lemma circuit_ok_run:
  "qc_State c = CircuitOpen \<Longrightarrow> list_all (\<lambda>e. 0 < qe_Now e) es \<Longrightarrow> circuit_ok p c es"
proof (induction es rule: rev_induct)
  case Nil
  then show ?case by (simp add: circuit_ok_def)
next
  case (snoc e es)
  then show ?case using circuit_ok_step by simp
qed

text \<open>Which side effect follows from which change of state: a restoration exactly when a circuit
  that was out of traffic closes, an ejection exactly when a closed one opens.\<close>

lemma circuit_actions:
  assumes "qc_State c = CircuitClosed \<or> qc_State c = CircuitOpen \<or> qc_State c = CircuitHalfOpen"
  shows "qt_Action (AdvanceQualityCircuit c e p) = CircuitRestore \<longleftrightarrow>
      qc_State c \<noteq> CircuitClosed \<and> qc_State (qt_Circuit (AdvanceQualityCircuit c e p)) = CircuitClosed"
    "qt_Action (AdvanceQualityCircuit c e p) = CircuitEject \<longleftrightarrow>
      qc_State c = CircuitClosed \<and> qc_State (qt_Circuit (AdvanceQualityCircuit c e p)) = CircuitOpen"
  using assms by (elim disjE; simp add: AdvanceQualityCircuit.simps [of c e p] Let_def openCircuit_def closeCircuit_def circuitResult_def)+

lemma openCircuit_probeAfter:
  "qc_ProbeAfter (qt_Circuit (openCircuit rt reason now p action)) =
     now + cooldownFor (qc_ScopeKey rt) (wrap64 (qc_OpenCount rt + 1)) p"
  by (simp add: openCircuit_def Let_def)

section \<open>Properties\<close>

text \<open>C34. The cooldown is a minimum quarantine with an absolute cap: after the \<open>n\<close>-th opening it is
  at least the base doubled \<open>n - 1\<close> times, or the cap if that is smaller, and at most the cap,
  whatever the jitter, the hash of the scope and the rounding of \<open>float64\<close> do.\<close>

theorem cooldown_is_bounded:
  assumes "0 < qp_BaseCooldown p" "qp_BaseCooldown p \<le> qp_MaxCooldown p" "qp_MaxCooldown p < 2 ^ 53"
    "qp_CooldownJitterFraction p = Fin j" "0 \<le> j" "j \<le> 1" "1 \<le> n"
  shows "min (qp_BaseCooldown p * 2 ^ nat (n - 1)) (qp_MaxCooldown p) \<le> cooldownFor key n p \<and> cooldownFor key n p \<le> qp_MaxCooldown p"
  using cooldownFor_bounds [OF assms] by blast

definition sample_circuit_policy :: QualityCircuitPolicy where
  "sample_circuit_policy = \<lparr>qp_BaseCooldown = 5 * Minute, qp_MaxCooldown = Hour, qp_HalfOpenSuccesses = 2,
     qp_RecoveryScore = Fin 85, qp_CooldownJitterFraction = Fin (1 / 4)\<rparr>"

theorem cooldown_is_bounded_witness:
  "20 * Minute \<le> cooldownFor ''inst-1/source-1'' 3 sample_circuit_policy \<and> cooldownFor ''inst-1/source-1'' 3 sample_circuit_policy \<le> Hour"
  using cooldown_is_bounded [of sample_circuit_policy "1 / 4" 3 "''inst-1/source-1''"] by (simp add: sample_circuit_policy_def)

text \<open>C33. Time alone never restores a source. From an open circuit, a run that ends closed contains
  a recovery probe after the cooldown of an open circuit, and from it on enough good probes,
  with no failed probe among them.\<close>

theorem circuit_restores_slowly:
  assumes "qc_State c = CircuitOpen" "list_all (\<lambda>e. 0 < qe_Now e) es" "qc_State (circuit_run p es c) = CircuitClosed"
  shows "restored p c es"
  using circuit_ok_run [OF assms(1,2), of p] assms(3) by (simp add: circuit_ok_def Let_def)

definition sample_circuit :: QualityCircuit where
  "sample_circuit = \<lparr>qc_ScopeKey = ''inst-1/source-1'', qc_State = CircuitOpen, qc_OpenedAt = 1, qc_ProbeAfter = 10, qc_HalfOpenSince = 0,
     qc_LastTransition = 1, qc_OpenCount = 1, qc_ConsecutiveProbeSuccesses = 0, qc_LastScore = Fin 40, qc_LastReason = Reason_zero\<rparr>"

definition sample_evaluation :: PenaltyEvaluation where
  "sample_evaluation = \<lparr>pe_ChannelID = ''c1'', pe_Score = Fin 90, pe_Evidence = Fin 1, pe_Eject = False, pe_HardFailure = False,
     pe_Reason = Reason_zero, pe_Reasons = [], pe_Penalties = \<lparr>pb_ErrorRate = Fin 0, pb_ErrorPenalty = Fin 0, pb_TTFTPenalty = Fin 10,
     pb_DurationPenalty = Fin 0, pb_TotalPenalty = Fin 10\<rparr>, pe_Snapshot = emptySnapshot\<rparr>"

definition sample_probes :: "QualityCircuitEvent list" where
  "sample_probes = map (\<lambda>t. \<lparr>qe_Kind = CircuitRecoveryProbe, qe_Now = t, qe_Evaluation = sample_evaluation\<rparr>) [5, 11, 12]"

theorem circuit_restores_slowly_witness:
  "qc_State (circuit_run sample_circuit_policy sample_probes sample_circuit) = CircuitClosed \<and>
   restored sample_circuit_policy sample_circuit sample_probes"
proof -
  have o: "qc_State sample_circuit = CircuitOpen" "list_all (\<lambda>e. 0 < qe_Now e) sample_probes"
    by (simp_all add: sample_circuit_def sample_probes_def)
  have wd: "QualityCircuitPolicy_withDefaults sample_circuit_policy = sample_circuit_policy"
    by (simp add: QualityCircuitPolicy_withDefaults_def sample_circuit_policy_def)
  have "qc_State (circuit_run sample_circuit_policy sample_probes sample_circuit) = CircuitClosed"
    by (simp add: circuit_run_def sample_probes_def AdvanceQualityCircuit.simps wd)
       (simp add: sample_circuit_def sample_circuit_policy_def sample_evaluation_def circuitResult_def closeCircuit_def probeHealthy_def
          IsZero_def wrap64_def Let_def)
  with circuit_restores_slowly [OF o this] show ?thesis by simp
qed

end
