(* ===== verification/Quality_Cohort.thy ===== *)
theory Quality_Cohort
  imports Quality_Penalty "HOL-Library.Word"
begin

unbundle bit_operations_syntax

text \<open>
  \<open>app/e2m-core/internal/strategy/cohort.go\<close>: the downstreams that are ejected from or
  readmitted to a source in stages, and the independent windows the stages count.

  A Go set is a list without repetitions; the order of a Go map does not matter, as the code
  sorts before it chooses. \<open>crypto/sha1\<close> is computed on 32-bit words.
\<close>

section \<open>SHA-1\<close>

definition be_bytes :: "nat \<Rightarrow> nat \<Rightarrow> nat list" where
  "be_bytes k n = map (\<lambda>i. (n div 256 ^ (k - 1 - i)) mod 256) [0..<k]"

definition sha1_padded :: "string \<Rightarrow> nat list" where
  "sha1_padded s = map of_char s @ [128] @ replicate (nat ((55 - int (length s)) mod 64)) 0 @ be_bytes 8 (8 * length s)"

fun be_words :: "nat list \<Rightarrow> 32 word list" where
  "be_words (a # b # c # d # rest) = of_nat (((a * 256 + b) * 256 + c) * 256 + d) # be_words rest"
| "be_words _ = []"

definition sha1_schedule :: "32 word list \<Rightarrow> 32 word list" where
  "sha1_schedule w =
     fold (\<lambda>t w. w @ [word_rotl 1 (w ! (t - 3) XOR w ! (t - 8) XOR w ! (t - 14) XOR w ! (t - 16))]) [16..<80] w"

type_synonym sha1_state = "32 word \<times> 32 word \<times> 32 word \<times> 32 word \<times> 32 word"

definition sha1_round :: "nat \<Rightarrow> 32 word \<Rightarrow> sha1_state \<Rightarrow> sha1_state" where
  "sha1_round t w st =
     (case st of (a, b, c, d, e) \<Rightarrow>
      let (f, k) = (if t < 20 then ((b AND c) OR (NOT b AND d), 0x5A827999)
                    else if t < 40 then (b XOR c XOR d, 0x6ED9EBA1)
                    else if t < 60 then ((b AND c) OR (b AND d) OR (c AND d), 0x8F1BBCDC)
                    else (b XOR c XOR d, 0xCA62C1D6))
      in (word_rotl 5 a + f + e + k + w, a, word_rotl 30 b, c, d))"

fun sha1_rounds :: "nat \<Rightarrow> 32 word list \<Rightarrow> sha1_state \<Rightarrow> sha1_state" where
  "sha1_rounds t [] st = st"
| "sha1_rounds t (w # ws) st = sha1_rounds (Suc t) ws (sha1_round t w st)"

definition sha1_block :: "32 word list \<Rightarrow> sha1_state \<Rightarrow> sha1_state" where
  "sha1_block w st =
     (case (st, sha1_rounds 0 (sha1_schedule w) st) of ((a, b, c, d, e), (a', b', c', d', e')) \<Rightarrow>
      (a + a', b + b', c + c', d + d', e + e'))"

function sha1_blocks :: "32 word list \<Rightarrow> sha1_state \<Rightarrow> sha1_state" where
  "sha1_blocks ws st = (if length ws < 16 then st else sha1_blocks (drop 16 ws) (sha1_block (take 16 ws) st))"
  by pat_completeness auto
termination
  by (relation "measure (\<lambda>(ws, _). length ws)") auto

declare sha1_blocks.simps [simp del]

definition sha1_Sum :: "string \<Rightarrow> string" where
  "sha1_Sum s =
     (case sha1_blocks (be_words (sha1_padded s)) (0x67452301, 0xEFCDAB89, 0x98BADCFE, 0x10325476, 0xC3D2E1F0) of
        (a, b, c, d, e) \<Rightarrow> map byte (concat (map (\<lambda>w. be_bytes 4 (unat w)) [a, b, c, d, e])))"

section \<open>Buckets and stages\<close>

definition QualityEjectionPercentage :: "int64 \<Rightarrow> int64" where
  "QualityEjectionPercentage consecutiveBadWindows =
     (if 3 \<le> consecutiveBadWindows then 75 else if consecutiveBadWindows = 2 then 50 else 25)"

definition nul :: string where
  "nul = [byte 0]"

definition InStableQualityCohort :: "string \<Rightarrow> string \<Rightarrow> int64 \<Rightarrow> bool" where
  "InStableQualityCohort planID channelID percentage =
     (if 100 \<le> percentage then True
      else if percentage \<le> 0 then False
      else let sum = sha1_Sum (planID @ nul @ channelID);
               bucket = (of_char (sum ! 0) * 256 + of_char (sum ! 1) :: int)
        in bucket mod 100 < percentage)"

section \<open>Cohorts\<close>

definition uniquePlanIDs :: "string list \<Rightarrow> string list" where
  "uniquePlanIDs planIDs = remdups (filter (\<lambda>p. p \<noteq> '''') planIDs)"

text \<open>The ranked plans, each with its hash; the order compares the hashes, then the identifiers.\<close>

definition rankQualityCohortPlans :: "string list \<Rightarrow> string \<Rightarrow> (string \<times> string) list" where
  "rankQualityCohortPlans unique sourceID =
     go_sort (\<lambda>x y. if snd x \<noteq> snd y then snd x < snd y else fst x < fst y)
       (map (\<lambda>planID. (planID, sha1_Sum (sourceID @ nul @ planID))) unique)"

definition StableQualityAffectedIncidentCohortPlanIDs ::
  "string list \<Rightarrow> string list \<Rightarrow> string list \<Rightarrow> string \<Rightarrow> int64 \<Rightarrow> string list" where
  "StableQualityAffectedIncidentCohortPlanIDs affectedPlanIDs observerPlanIDs isolatedPlanIDs sourceID percentage =
     (let affected = uniquePlanIDs affectedPlanIDs;
          observers = filter (\<lambda>p. p \<notin> set affected) (uniquePlanIDs observerPlanIDs);
          isolated = filter (\<lambda>p. p \<notin> set affected \<and> p \<notin> set observers) (uniquePlanIDs isolatedPlanIDs);
          selected = isolated;
          total = int (length affected) + int (length observers) + int (length isolated)
      in
      if total = 0 \<or> percentage \<le> 0 then selected
      else let target = wrap64 (total * percentage) sdiv 100;
               target = (if target = 0 then 1 else target);
               target = (if 1 < total \<and> total \<le> target then total - 1 else target)
      in
      if target \<le> int (length selected) \<or> affected = [] then selected
      else let ranked = rankQualityCohortPlans affected sourceID;
               maxAdds = (if observers = [] \<and> 1 < total then int (length affected) - 1 else int (length affected));
               adds = target - int (length selected);
               adds = (if maxAdds < adds then maxAdds else adds)
        in selected @ map fst (take (nat adds) ranked))"

definition StableQualityIncidentCohortPlanIDs :: "string list \<Rightarrow> string list \<Rightarrow> string \<Rightarrow> int64 \<Rightarrow> string list" where
  "StableQualityIncidentCohortPlanIDs activePlanIDs isolatedPlanIDs sourceID percentage =
     StableQualityAffectedIncidentCohortPlanIDs activePlanIDs [] isolatedPlanIDs sourceID percentage"

definition StableQualityCohortPlanIDs :: "string list \<Rightarrow> string \<Rightarrow> int64 \<Rightarrow> string list" where
  "StableQualityCohortPlanIDs planIDs sourceID percentage = StableQualityIncidentCohortPlanIDs planIDs [] sourceID percentage"

text \<open>The loop that fills a recovery batch up to its target.\<close>

fun fillCohort :: "int \<Rightarrow> (string \<times> string) list \<Rightarrow> string list \<Rightarrow> string list" where
  "fillCohort target [] selected = selected"
| "fillCohort target (r # rs) selected =
     (if target \<le> int (length selected) then selected else fillCohort target rs (selected @ [fst r]))"

definition StableRecoveryCohortPlanIDs :: "string list \<Rightarrow> string list \<Rightarrow> string \<Rightarrow> int64 \<Rightarrow> string list" where
  "StableRecoveryCohortPlanIDs planIDs admittedPlanIDs sourceID percentage =
     (let all = uniquePlanIDs planIDs;
          selected = filter (\<lambda>p. p \<in> set all) (uniquePlanIDs admittedPlanIDs)
      in
      if all = [] \<or> percentage \<le> 0 then selected
      else let percentage = (if 100 < percentage then 100 else percentage);
               target = wrap64 (wrap64 (int (length all) * percentage) + 99) sdiv 100;
               target = (if target < 1 then 1 else target)
      in
      if target \<le> int (length selected) then selected
      else let remaining = filter (\<lambda>p. p \<notin> set selected) all
        in fillCohort target (rankQualityCohortPlans remaining (''recovery'' @ nul @ sourceID)) selected)"

section \<open>Independent windows\<close>

definition bucketStart :: "ChannelHealthSnapshot \<Rightarrow> time" where
  "bucketStart snapshot = (if IsZero (snap_BucketStart snapshot) then snap_CreatedAt snapshot else snap_BucketStart snapshot)"

fun groupByStart :: "ChannelHealthSnapshot list \<Rightarrow> (time \<times> ChannelHealthSnapshot list) list \<Rightarrow> time list \<Rightarrow>
    (time \<times> ChannelHealthSnapshot list) list \<times> time list" where
  "groupByStart [] byStart starts = (byStart, starts)"
| "groupByStart (snapshot # rest) byStart starts =
     (let start = bucketStart snapshot in
      if IsZero start then groupByStart rest byStart starts
      else let starts = (if map_of byStart start = None then starts @ [start] else starts);
               group = (case map_of byStart start of None \<Rightarrow> [] | Some g \<Rightarrow> g)
        in groupByStart rest (AList.update start (group @ [snapshot]) byStart) starts)"

fun selectWindows :: "duration \<Rightarrow> (time \<times> ChannelHealthSnapshot list) list \<Rightarrow> time list \<Rightarrow> time \<Rightarrow> ChannelHealthSnapshot list list" where
  "selectWindows window byStart [] latestSelected = []"
| "selectWindows window byStart (start # rest) latestSelected =
     (if \<not> IsZero latestSelected \<and> time_Sub latestSelected start < window then selectWindows window byStart rest latestSelected
      else (case map_of byStart start of None \<Rightarrow> [] | Some g \<Rightarrow> g) # selectWindows window byStart rest start)"

definition IndependentWindowBuckets :: "ChannelHealthSnapshot list \<Rightarrow> duration \<Rightarrow> ChannelHealthSnapshot list list" where
  "IndependentWindowBuckets snapshots window =
     (if window \<le> 0 then []
      else let (byStart, starts) = groupByStart snapshots [] [];
               starts = go_sort (\<lambda>a b. b < a) starts
        in selectWindows window byStart starts 0)"

section \<open>The ranking of plans\<close>

lemma uniquePlanIDs_set [simp]: "set (uniquePlanIDs xs) = {p \<in> set xs. p \<noteq> ''''}" "distinct (uniquePlanIDs xs)"
  by (auto simp: uniquePlanIDs_def)

lemma rank_fst: "mset (map fst (rankQualityCohortPlans u src)) = mset u"
proof -
  have "mset (map fst (rankQualityCohortPlans u src)) = image_mset fst (mset (map (\<lambda>p. (p, sha1_Sum (src @ nul @ p))) u))"
    by (simp add: rankQualityCohortPlans_def)
  then show ?thesis by (simp add: image_mset.compositionality comp_def)
qed

lemma rank_facts:
  "set (map fst (rankQualityCohortPlans u src)) = set u" "length (rankQualityCohortPlans u src) = length u"
  "distinct (map fst (rankQualityCohortPlans u src)) \<longleftrightarrow> distinct u"
  using rank_fst [of u src] mset_eq_imp_distinct_iff [OF rank_fst] by (metis mset_eq_setD, metis length_map mset_eq_length, blast)

section \<open>How many plans are added\<close>

definition cohort_target :: "int \<Rightarrow> int \<Rightarrow> int" where
  "cohort_target t p =
     (let x = wrap64 (t * p) sdiv 100; x = (if x = 0 then 1 else x) in if 1 < t \<and> t \<le> x then t - 1 else x)"

definition cohort_adds :: "int \<Rightarrow> int \<Rightarrow> int \<Rightarrow> int \<Rightarrow> int" where
  "cohort_adds a o' i p =
     (let t = a + o' + i; g = cohort_target t p in
      if t = 0 \<or> p \<le> 0 \<or> g \<le> i \<or> a = 0 then 0 else min (g - i) (if o' = 0 \<and> 1 < t then a - 1 else a))"

lemma cohort_adds_bounds:
  assumes "0 \<le> a" "0 \<le> o'" "0 \<le> i"
  shows "0 \<le> cohort_adds a o' i p" "cohort_adds a o' i p \<le> a" "o' = 0 \<Longrightarrow> 1 < a + i \<Longrightarrow> 0 < a \<Longrightarrow> cohort_adds a o' i p < a"
  using assms by (auto simp: cohort_adds_def Let_def)

text \<open>Once the added plans are isolated, nothing is added again.\<close>

lemma cohort_adds_stable:
  assumes "0 \<le> a" "0 \<le> o'" "0 \<le> i"
  shows "cohort_adds (a - cohort_adds a o' i p) o' (i + cohort_adds a o' i p) p = 0"
proof -
  define n where "n = cohort_adds a o' i p"
  let ?t = "a + o' + i"
  have t: "(a - n) + o' + (i + n) = ?t" by simp
  have n: "n = (if ?t = 0 \<or> p \<le> 0 \<or> cohort_target ?t p \<le> i \<or> a = 0 then 0
      else min (cohort_target ?t p - i) (if o' = 0 \<and> 1 < ?t then a - 1 else a))"
    unfolding n_def cohort_adds_def Let_def by simp
  have "cohort_adds (a - n) o' (i + n) p = 0"
    unfolding cohort_adds_def Let_def t using n assms by (auto split: if_splits)
  then show ?thesis unfolding n_def .
qed

lemma cohort_target_mono:
  assumes "0 < t" "0 < p" "p \<le> q" "t * q < 2 ^ 63"
  shows "cohort_target t p \<le> cohort_target t q"
proof -
  have "t * p \<le> t * q" using assms by simp
  moreover have "0 < t * p" using assms by simp
  ultimately have "in64 (t * p)" "in64 (t * q)" using assms(4) unfolding in64_def by linarith+
  then have "wrap64 (t * p) = t * p" "wrap64 (t * q) = t * q" by (simp_all add: wrap64_id)
  moreover have "(t * p) sdiv 100 = (t * p) div 100" "(t * q) sdiv 100 = (t * q) div 100"
    using assms by (simp_all add: signed_divide_int_def sgn_if)
  moreover have "(t * p) div 100 \<le> (t * q) div 100" using \<open>t * p \<le> t * q\<close> by (intro zdiv_mono1) auto
  moreover have "0 \<le> (t * p) div 100" using assms by (simp add: pos_imp_zdiv_nonneg_iff)
  ultimately show ?thesis by (auto simp: cohort_target_def Let_def)
qed

lemma cohort_adds_mono:
  assumes "0 \<le> a" "0 \<le> o'" "0 \<le> i" "p \<le> q" "(a + o' + i) * q < 2 ^ 63"
  shows "cohort_adds a o' i p \<le> cohort_adds a o' i q"
proof (cases "a + o' + i = 0 \<or> p \<le> 0")
  case True
  then have "cohort_adds a o' i p = 0" unfolding cohort_adds_def Let_def by auto
  then show ?thesis using cohort_adds_bounds(1) [OF assms(1-3), of q] by simp
next
  case False
  then have "cohort_target (a + o' + i) p \<le> cohort_target (a + o' + i) q" using assms by (intro cohort_target_mono) auto
  with False assms show ?thesis by (auto simp: cohort_adds_def Let_def min_def)
qed

section \<open>The incident cohort\<close>

definition observersOf :: "string list \<Rightarrow> string list \<Rightarrow> string list" where
  "observersOf aff obs = filter (\<lambda>p. p \<notin> set (uniquePlanIDs aff)) (uniquePlanIDs obs)"

definition isolatedOf :: "string list \<Rightarrow> string list \<Rightarrow> string list \<Rightarrow> string list" where
  "isolatedOf aff obs isol =
     filter (\<lambda>p. p \<notin> set (uniquePlanIDs aff) \<and> p \<notin> set (observersOf aff obs)) (uniquePlanIDs isol)"

definition addsOf :: "string list \<Rightarrow> string list \<Rightarrow> string list \<Rightarrow> int64 \<Rightarrow> nat" where
  "addsOf aff obs isol p = nat (cohort_adds (int (length (uniquePlanIDs aff))) (int (length (observersOf aff obs)))
     (int (length (isolatedOf aff obs isol))) p)"

lemma cohort_eq:
  "StableQualityAffectedIncidentCohortPlanIDs aff obs isol src p =
     isolatedOf aff obs isol @ map fst (take (addsOf aff obs isol p) (rankQualityCohortPlans (uniquePlanIDs aff) src))"
proof -
  have "cohort_target (int (length (uniquePlanIDs aff)) + int (length (observersOf aff obs)) + int (length (isolatedOf aff obs isol))) p =
    (let x = wrap64 ((int (length (uniquePlanIDs aff)) + int (length (observersOf aff obs)) + int (length (isolatedOf aff obs isol))) * p) sdiv 100;
         x = (if x = 0 then 1 else x)
     in if 1 < int (length (uniquePlanIDs aff)) + int (length (observersOf aff obs)) + int (length (isolatedOf aff obs isol)) \<and>
           int (length (uniquePlanIDs aff)) + int (length (observersOf aff obs)) + int (length (isolatedOf aff obs isol)) \<le> x
        then int (length (uniquePlanIDs aff)) + int (length (observersOf aff obs)) + int (length (isolatedOf aff obs isol)) - 1 else x)"
    by (simp add: cohort_target_def)
  then show ?thesis
    unfolding StableQualityAffectedIncidentCohortPlanIDs_def Let_def
      observersOf_def [symmetric] isolatedOf_def [symmetric] addsOf_def cohort_adds_def
    by (auto simp: min_def)
qed

text \<open>The cohort in terms of the three groups: affected, observing and isolated plans.\<close>

lemma groups:
  "set (observersOf aff obs) = {p \<in> set obs. p \<noteq> ''''} - set aff"
  "set (isolatedOf aff obs isol) = {p \<in> set isol. p \<noteq> ''''} - set aff - set obs"
  "distinct (observersOf aff obs)" "distinct (isolatedOf aff obs isol)"
  by (auto simp: observersOf_def isolatedOf_def)

definition added :: "string list \<Rightarrow> string list \<Rightarrow> string list \<Rightarrow> string \<Rightarrow> int64 \<Rightarrow> string list" where
  "added aff obs isol src p = map fst (take (addsOf aff obs isol p) (rankQualityCohortPlans (uniquePlanIDs aff) src))"

lemma addsOf_bounds:
  "addsOf aff obs isol p \<le> length (uniquePlanIDs aff)"
  "observersOf aff obs = [] \<Longrightarrow> 1 < length (uniquePlanIDs aff) + length (isolatedOf aff obs isol) \<Longrightarrow> uniquePlanIDs aff \<noteq> [] \<Longrightarrow>
     addsOf aff obs isol p < length (uniquePlanIDs aff)"
  using cohort_adds_bounds [of "int (length (uniquePlanIDs aff))" "int (length (observersOf aff obs))" "int (length (isolatedOf aff obs isol))" p]
  by (auto simp: addsOf_def)

lemma added_facts:
  "set (added aff obs isol src p) \<subseteq> {q \<in> set aff. q \<noteq> ''''}" "distinct (added aff obs isol src p)"
  "length (added aff obs isol src p) = addsOf aff obs isol p"
proof -
  let ?r = "rankQualityCohortPlans (uniquePlanIDs aff) src"
  have t: "added aff obs isol src p = take (addsOf aff obs isol p) (map fst ?r)" by (simp add: added_def take_map)
  show "set (added aff obs isol src p) \<subseteq> {q \<in> set aff. q \<noteq> ''''}"
    using set_take_subset [of _ "map fst ?r"] rank_facts(1) [of "uniquePlanIDs aff" src] unfolding t by fastforce
  show "distinct (added aff obs isol src p)" unfolding t using rank_facts(3) [of "uniquePlanIDs aff" src] by (simp add: distinct_take)
  show "length (added aff obs isol src p) = addsOf aff obs isol p"
    unfolding t using addsOf_bounds(1) [of aff obs isol p] rank_facts(2) [of "uniquePlanIDs aff" src] by simp
qed

lemma cohort_parts: "StableQualityAffectedIncidentCohortPlanIDs aff obs isol src p = isolatedOf aff obs isol @ added aff obs isol src p"
  by (simp add: cohort_eq added_def)

lemma cohort_distinct: "distinct (StableQualityAffectedIncidentCohortPlanIDs aff obs isol src p)"
  using added_facts(1,2) [of aff obs isol src p] groups by (auto simp: cohort_parts)

lemma cohort_holdout:
  assumes "1 < length (uniquePlanIDs aff) + length (observersOf aff obs) + length (isolatedOf aff obs isol)"
    and "uniquePlanIDs aff \<noteq> [] \<or> observersOf aff obs \<noteq> []"
  shows "\<exists>q \<in> set (uniquePlanIDs aff) \<union> set (observersOf aff obs). q \<notin> set (StableQualityAffectedIncidentCohortPlanIDs aff obs isol src p)"
proof (cases "observersOf aff obs = []")
  case False
  then obtain q where q: "q \<in> set (observersOf aff obs)" by (cases "observersOf aff obs") auto
  have "q \<notin> set (added aff obs isol src p)" "q \<notin> set (isolatedOf aff obs isol)"
    using q added_facts(1) [of aff obs isol src p] groups(1) [of aff obs] groups(2) [of aff obs isol] by auto
  then show ?thesis using q unfolding cohort_parts by auto
next
  case True
  then have "length (added aff obs isol src p) < length (uniquePlanIDs aff)"
    using assms addsOf_bounds(2) [of aff obs isol p] added_facts(3) [of aff obs isol src p] by simp
  then have "card (set (added aff obs isol src p)) < card (set (uniquePlanIDs aff))"
    using added_facts(2) [of aff obs isol src p] uniquePlanIDs_set(2) [of aff] by (simp only: distinct_card)
  then obtain q where "q \<in> set (uniquePlanIDs aff)" "q \<notin> set (added aff obs isol src p)"
    by (meson List.finite_set card_mono not_le subsetI)
  then show ?thesis using groups(2) [of aff obs isol] unfolding cohort_parts by auto
qed

text \<open>What a later sweep sees: the selected plans have moved to the isolated ones.\<close>

lemma cohort_next_groups:
  assumes S: "S = StableQualityAffectedIncidentCohortPlanIDs aff obs isol src p"
    and aff': "aff' = filter (\<lambda>q. q \<notin> set S) aff" and obs': "obs' = filter (\<lambda>q. q \<notin> set S) obs"
  shows "set (isolatedOf aff' obs' (S @ isol)) = set S" "set (observersOf aff' obs') = set (observersOf aff obs)"
    "set (uniquePlanIDs aff') = set (uniquePlanIDs aff) - set (added aff obs isol src p)"
proof -
  have S: "set S = set (isolatedOf aff obs isol) \<union> set (added aff obs isol src p)" unfolding S cohort_parts by simp
  note a = added_facts(1) [of aff obs isol src p]
  show "set (isolatedOf aff' obs' (S @ isol)) = set S"
    unfolding aff' obs' groups set_append set_filter S using a by auto
  show "set (observersOf aff' obs') = set (observersOf aff obs)" unfolding aff' obs' groups set_filter S using a by auto
  show "set (uniquePlanIDs aff') = set (uniquePlanIDs aff) - set (added aff obs isol src p)"
    unfolding aff' uniquePlanIDs_set set_filter S groups by auto
qed

lemma cohort_next_adds:
  assumes S: "S = StableQualityAffectedIncidentCohortPlanIDs aff obs isol src p"
    and aff': "aff' = filter (\<lambda>q. q \<notin> set S) aff" and obs': "obs' = filter (\<lambda>q. q \<notin> set S) obs"
  shows "addsOf aff' obs' (S @ isol) p = 0"
proof -
  note g = cohort_next_groups [OF assms]
  let ?n = "cohort_adds (int (length (uniquePlanIDs aff))) (int (length (observersOf aff obs))) (int (length (isolatedOf aff obs isol))) p"
  have n: "int (length (added aff obs isol src p)) = ?n"
    using added_facts(3) [of aff obs isol src p] cohort_adds_bounds(1) by (simp add: addsOf_def)
  have len: "length xs = card (set xs)" if "distinct xs" for xs :: "string list" using distinct_card [OF that] by simp
  have "length (isolatedOf aff' obs' (S @ isol)) = length S"
    using g(1) cohort_distinct [of aff obs isol src p] groups(4) S by (simp add: len)
  then have i: "int (length (isolatedOf aff' obs' (S @ isol))) = int (length (isolatedOf aff obs isol)) + ?n"
    using n unfolding S cohort_parts by simp
  have o: "length (observersOf aff' obs') = length (observersOf aff obs)" using g(2) groups(3) by (simp add: len)
  have "card (set (uniquePlanIDs aff) - set (added aff obs isol src p)) = card (set (uniquePlanIDs aff)) - card (set (added aff obs isol src p))"
    using added_facts(1) [of aff obs isol src p] by (intro card_Diff_subset) auto
  then have "length (uniquePlanIDs aff') = length (uniquePlanIDs aff) - length (added aff obs isol src p)"
    using g(3) added_facts(2) [of aff obs isol src p] by (simp only: len uniquePlanIDs_set(2))
  moreover have "length (added aff obs isol src p) \<le> length (uniquePlanIDs aff)" using added_facts(3) addsOf_bounds(1) by metis
  ultimately have a: "int (length (uniquePlanIDs aff')) = int (length (uniquePlanIDs aff)) - ?n" using n by linarith
  show ?thesis unfolding addsOf_def a i o using cohort_adds_stable by simp
qed

section \<open>The recovery cohort\<close>

lemma fillCohort_eq: "fillCohort target rs selected = selected @ map fst (take (nat (target - int (length selected))) rs)"
proof (induction target rs selected rule: fillCohort.induct)
  case (2 target r rs selected)
  show ?case
  proof (cases "target \<le> int (length selected)")
    case False
    then have "nat (target - int (length selected)) = Suc (nat (target - int (length (selected @ [fst r]))))" by simp
    then show ?thesis using 2 False by simp
  qed simp
qed simp

definition recovery_target :: "nat \<Rightarrow> int64 \<Rightarrow> int" where
  "recovery_target n p = (int n * min p 100 + 99) div 100"

lemma recovery_target_bounds: "0 < p \<Longrightarrow> 0 < n \<Longrightarrow> 1 \<le> recovery_target n p \<and> recovery_target n p \<le> int n"
proof -
  assume p: "0 < p" "0 < n"
  have lo: "1 \<le> int n * min p 100" using p by (simp add: int_one_le_iff_zero_less)
  have hi: "int n * min p 100 \<le> int n * 100" by (intro mult_left_mono) auto
  have "1 \<le> (x + 99) div 100 \<and> (x + 99) div 100 \<le> m" if "1 \<le> x" "x \<le> m * 100" for x m :: int
  proof -
    have "100 div 100 \<le> (x + 99) div 100" "(x + 99) div 100 \<le> (m * 100 + 99) div 100" using that by (intro zdiv_mono1; simp)+
    then show ?thesis by simp
  qed
  from this [OF lo hi] show ?thesis unfolding recovery_target_def .
qed

lemma recovery_eq:
  assumes "int (length planIDs) < 2 ^ 50" "0 < p" "uniquePlanIDs planIDs \<noteq> []"
  shows "StableRecoveryCohortPlanIDs planIDs admitted src p =
    (let all = uniquePlanIDs planIDs; sel = filter (\<lambda>q. q \<in> set all) (uniquePlanIDs admitted) in
     sel @ map fst (take (nat (recovery_target (length all) p - int (length sel)))
       (rankQualityCohortPlans (filter (\<lambda>q. q \<notin> set sel) all) (''recovery'' @ nul @ src))))"
proof -
  let ?n = "int (length (uniquePlanIDs planIDs))"
  have n: "?n < 2 ^ 50" "0 < ?n"
  proof -
    have "length (uniquePlanIDs planIDs) \<le> length planIDs"
      unfolding uniquePlanIDs_def by (meson le_trans length_filter_le length_remdups_leq)
    then show "?n < 2 ^ 50" using assms(1) by linarith
    show "0 < ?n" using assms(3) by simp
  qed
  have b: "0 < ?n * min p 100" "?n * min p 100 \<le> ?n * 100" using n assms(2) by (simp_all add: mult_left_mono)
  moreover have "2 ^ 50 * 100 + 99 < (2 ^ 63 :: int)" by simp
  ultimately have "in64 (?n * min p 100)" "in64 (?n * min p 100 + 99)" using n(1) unfolding in64_def by linarith+
  then have w: "wrap64 (wrap64 (?n * min p 100) + 99) = ?n * min p 100 + 99" by (simp add: wrap64_id)
  have "(?n * min p 100 + 99) sdiv 100 = recovery_target (length (uniquePlanIDs planIDs)) p"
    using b by (simp add: signed_divide_int_def recovery_target_def sgn_if)
  moreover have "1 \<le> recovery_target (length (uniquePlanIDs planIDs)) p"
    using recovery_target_bounds assms(2) n(2) by auto
  moreover have "(if 100 < p then 100 else p) = min p 100" by auto
  ultimately show ?thesis
    using assms(2,3) w unfolding StableRecoveryCohortPlanIDs_def Let_def
    by (simp add: fillCohort_eq)
qed

text \<open>A recovery batch keeps the admitted plans, takes only known ones, and has the size of its
  stage or of what is admitted already; the last stage is everybody.\<close>

lemma recovery_cohort:
  assumes len: "int (length planIDs) < 2 ^ 50" and p: "0 < p" and ne: "uniquePlanIDs planIDs \<noteq> []"
  defines "all \<equiv> {q \<in> set planIDs. q \<noteq> ''''}"
  shows "set admitted \<inter> all \<subseteq> set (StableRecoveryCohortPlanIDs planIDs admitted src p)"
    "set (StableRecoveryCohortPlanIDs planIDs admitted src p) \<subseteq> all"
    "int (length (StableRecoveryCohortPlanIDs planIDs admitted src p)) = max (recovery_target (card all) p) (int (card (set admitted \<inter> all)))"
proof -
  let ?all = "uniquePlanIDs planIDs"
  let ?sel = "filter (\<lambda>q. q \<in> set ?all) (uniquePlanIDs admitted)"
  let ?rest = "filter (\<lambda>q. q \<notin> set ?sel) ?all"
  let ?n = "nat (recovery_target (length ?all) p - int (length ?sel))"
  let ?r = "map fst (rankQualityCohortPlans ?rest (''recovery'' @ nul @ src))"
  have S: "StableRecoveryCohortPlanIDs planIDs admitted src p = ?sel @ take ?n ?r"
    unfolding recovery_eq [OF len p ne] Let_def by (simp add: take_map)
  have sel: "set ?sel = set admitted \<inter> all" "set ?all = all" by (auto simp: all_def)
  have rest: "set ?rest = all - set admitted" "distinct ?rest" by (auto simp: all_def)
  have r: "set ?r = all - set admitted" "length ?r = card (all - set admitted)"
    unfolding rank_facts length_map rest(1) using distinct_card [OF rest(2)] unfolding rest(1) by simp_all
  have set_S: "set (StableRecoveryCohortPlanIDs planIDs admitted src p) = set ?sel \<union> set (take ?n ?r)" unfolding S by (rule set_append)
  show "set admitted \<inter> all \<subseteq> set (StableRecoveryCohortPlanIDs planIDs admitted src p)" using set_S sel(1) by blast
  show "set (StableRecoveryCohortPlanIDs planIDs admitted src p) \<subseteq> all" using set_S sel(1) r(1) set_take_subset [of ?n ?r] by blast
  have c: "length ?all = card all" "length ?sel = card (set admitted \<inter> all)"
  proof -
    have "distinct ?all" "distinct ?sel" by simp_all
    then show "length ?all = card all" "length ?sel = card (set admitted \<inter> all)"
      using sel by (metis distinct_card)+
  qed
  have "card (set admitted \<inter> all) + card (all - set admitted) = card all"
    using card_Int_Diff [of all "set admitted"] by (simp add: all_def Int_commute)
  moreover have "0 < card all" using ne c(1) by (metis length_greater_0_conv)
  then have "recovery_target (card all) p \<le> int (card all)" using recovery_target_bounds [OF p] by blast
  ultimately show "int (length (StableRecoveryCohortPlanIDs planIDs admitted src p)) =
      max (recovery_target (card all) p) (int (card (set admitted \<inter> all)))"
    unfolding S length_append length_take r(2) c by linarith
qed

section \<open>Independence of windows\<close>

text \<open>The starts a selection takes, newest first.\<close>

fun selectedStarts :: "duration \<Rightarrow> time list \<Rightarrow> time \<Rightarrow> time list" where
  "selectedStarts window [] latest = []"
| "selectedStarts window (start # rest) latest =
     (if \<not> IsZero latest \<and> time_Sub latest start < window then selectedStarts window rest latest
      else start # selectedStarts window rest start)"

lemma selectWindows_starts:
  "selectWindows window byStart starts latest =
     map (\<lambda>t. case map_of byStart t of None \<Rightarrow> [] | Some g \<Rightarrow> g) (selectedStarts window starts latest)"
  by (induction window starts latest rule: selectedStarts.induct) auto

lemma selectedStarts_gap:
  assumes "0 < window" "\<forall>t \<in> set starts. t \<noteq> 0"
  shows "sorted_wrt (\<lambda>a b. window \<le> a - b) (selectedStarts window starts latest) \<and>
    (latest \<noteq> 0 \<longrightarrow> list_all (\<lambda>t. window \<le> latest - t) (selectedStarts window starts latest))"
  using assms
proof (induction window starts latest rule: selectedStarts.induct)
  case (2 window start rest latest)
  show ?case
  proof (cases "\<not> IsZero latest \<and> time_Sub latest start < window")
    case True
    then show ?thesis using 2 by simp
  next
    case False
    with 2 have IH: "sorted_wrt (\<lambda>a b. window \<le> a - b) (selectedStarts window rest start)"
      "list_all (\<lambda>t. window \<le> start - t) (selectedStarts window rest start)" by auto
    have "latest \<noteq> 0 \<longrightarrow> window \<le> latest - start"
      using False time_Sub_le [OF "2.prems"(1), of latest start] by (auto simp: IsZero_def)
    moreover from this have "latest \<noteq> 0 \<longrightarrow> list_all (\<lambda>t. window \<le> latest - t) (selectedStarts window rest start)"
      using IH(2) "2.prems"(1) by (fastforce simp: list_all_iff)
    ultimately show ?thesis using IH False by (auto simp: list_all_iff)
  qed
qed simp

section \<open>Properties\<close>

text \<open>C35. Ejection never takes the last observer. The cohort of an incident keeps every plan that is
  isolated already and adds affected plans only; whenever the source has more than one
  downstream and one of them is active, an active one stays out of the cohort.\<close>

theorem cohort_keeps_holdout:
  "set isol - set aff - set obs - {''''} \<subseteq> set (StableQualityAffectedIncidentCohortPlanIDs aff obs isol src p) \<and>
   set (StableQualityAffectedIncidentCohortPlanIDs aff obs isol src p) \<subseteq> (set isol - set aff - set obs \<union> set aff) - {''''} \<and>
   (1 < card ((set aff \<union> set obs \<union> set isol) - {''''}) \<and> (set aff \<union> set obs) - {''''} \<noteq> {} \<longrightarrow>
      (\<exists>q \<in> (set aff \<union> set obs) - {''''}. q \<notin> set (StableQualityAffectedIncidentCohortPlanIDs aff obs isol src p)))"
proof -
  let ?A = "uniquePlanIDs aff" and ?O = "observersOf aff obs" and ?I = "isolatedOf aff obs isol"
  have parts: "set (StableQualityAffectedIncidentCohortPlanIDs aff obs isol src p) = set ?I \<union> set (added aff obs isol src p)"
    by (simp add: cohort_parts)
  have "distinct (?A @ ?O @ ?I)" using groups by auto
  then have "length (?A @ ?O @ ?I) = card (set (?A @ ?O @ ?I))" by (simp only: distinct_card)
  also have "set (?A @ ?O @ ?I) = (set aff \<union> set obs \<union> set isol) - {''''}" unfolding set_append groups uniquePlanIDs_set by auto
  finally have len: "length ?A + length ?O + length ?I = card ((set aff \<union> set obs \<union> set isol) - {''''})" by simp
  have act: "set ?A \<union> set ?O = (set aff \<union> set obs) - {''''}" unfolding groups uniquePlanIDs_set by auto
  have ne: "?A \<noteq> [] \<or> ?O \<noteq> []" if "(set aff \<union> set obs) - {''''} \<noteq> {}" using that act by (metis Un_empty set_empty)
  have "\<exists>q \<in> (set aff \<union> set obs) - {''''}. q \<notin> set (StableQualityAffectedIncidentCohortPlanIDs aff obs isol src p)"
    if "1 < card ((set aff \<union> set obs \<union> set isol) - {''''})" "(set aff \<union> set obs) - {''''} \<noteq> {}"
    using cohort_holdout [of aff obs isol src p] that ne unfolding len act by blast
  moreover have "set isol - set aff - set obs - {''''} \<subseteq> set ?I" unfolding groups by auto
  moreover have "set ?I \<union> set (added aff obs isol src p) \<subseteq> (set isol - set aff - set obs \<union> set aff) - {''''}"
    unfolding groups using added_facts(1) [of aff obs isol src p] by auto
  ultimately show ?thesis unfolding parts by blast
qed

theorem cohort_keeps_holdout_witness:
  "\<exists>q \<in> (set [''plan-a'', ''plan-b''] \<union> set []) - {''''}.
     q \<notin> set (StableQualityAffectedIncidentCohortPlanIDs [''plan-a'', ''plan-b''] [] [''plan-c''] ''source-a'' 75)"
proof -
  have "card ({''plan-a'', ''plan-b'', ''plan-c''} - {''''}) = 3" by simp
  then show ?thesis
    using cohort_keeps_holdout [of "[''plan-c'']" "[''plan-a'', ''plan-b'']" "[]" "''source-a''" 75] by simp
qed

text \<open>An incident does not rotate through the downstreams: after the cohort has been isolated, a
  sweep of the same stage selects the same plans again, and a higher stage only adds to them.\<close>

theorem cohort_is_stable:
  assumes "S = StableQualityAffectedIncidentCohortPlanIDs aff obs isol src p"
  shows "set (StableQualityAffectedIncidentCohortPlanIDs (filter (\<lambda>q. q \<notin> set S) aff) (filter (\<lambda>q. q \<notin> set S) obs) (S @ isol) src p) = set S \<and>
    (p \<le> q \<and> int (card ((set aff \<union> set obs \<union> set isol) - {''''})) * q < 2 ^ 63 \<longrightarrow>
       set S \<subseteq> set (StableQualityAffectedIncidentCohortPlanIDs aff obs isol src q))"
proof -
  let ?A = "uniquePlanIDs aff" and ?O = "observersOf aff obs" and ?I = "isolatedOf aff obs isol"
  have "distinct (?A @ ?O @ ?I)" using groups by auto
  then have "length (?A @ ?O @ ?I) = card (set (?A @ ?O @ ?I))" by (simp only: distinct_card)
  also have "set (?A @ ?O @ ?I) = (set aff \<union> set obs \<union> set isol) - {''''}" unfolding set_append groups uniquePlanIDs_set by auto
  finally have len: "int (length ?A) + int (length ?O) + int (length ?I) = int (card ((set aff \<union> set obs \<union> set isol) - {''''}))" by simp
  have "set S \<subseteq> set (StableQualityAffectedIncidentCohortPlanIDs aff obs isol src q)"
    if "p \<le> q" "int (card ((set aff \<union> set obs \<union> set isol) - {''''})) * q < 2 ^ 63"
  proof -
    have "addsOf aff obs isol p \<le> addsOf aff obs isol q"
      unfolding addsOf_def using that len by (intro nat_mono cohort_adds_mono) auto
    from set_take_subset_set_take [OF this] show ?thesis
      unfolding assms cohort_eq set_append set_map by (meson Un_mono image_mono order_refl)
  qed
  moreover have "set (StableQualityAffectedIncidentCohortPlanIDs (filter (\<lambda>q. q \<notin> set S) aff) (filter (\<lambda>q. q \<notin> set S) obs) (S @ isol) src p) = set S"
    unfolding cohort_eq [of "filter (\<lambda>q. q \<notin> set S) aff"] cohort_next_adds [OF assms refl refl]
    using cohort_next_groups(1) [OF assms refl refl] by simp
  ultimately show ?thesis by blast
qed

theorem cohort_is_stable_witness:
  "set (StableQualityAffectedIncidentCohortPlanIDs [''plan-a'', ''plan-b''] [] [''plan-c''] ''source-a'' 25) \<subseteq>
   set (StableQualityAffectedIncidentCohortPlanIDs [''plan-a'', ''plan-b''] [] [''plan-c''] ''source-a'' 75)"
proof -
  have c: "card ({''plan-a'', ''plan-b'', ''plan-c''} - {''''}) = 3" by simp
  from cohort_is_stable [OF refl, of "[''plan-a'', ''plan-b'']" "[]" "[''plan-c'']" "''source-a''" 25 75] c
  show ?thesis by simp
qed

end
