(* ===== verification/Health_Aggregate.thy ===== *)
theory Health_Aggregate
  imports Quality_Penalty
begin

text \<open>
  \<open>app/e2m-core/internal/healthmetrics/aggregate.go\<close>: the observations of a window are rolled
  into one health snapshot, whose quality score is the deduction score of \<open>Quality_Penalty\<close>.
  The observation contract is that of \<open>packages/e2m-contracts/channel_health.go\<close>.

  The counters of the loop are at most the length of the slice, so they do not wrap around;
  the token sum may, and is written with \<open>wrap64\<close>.
\<close>

section \<open>Observations\<close>

datatype ObservationSource =
    ObservationPassive
  | ObservationProbe
  | ObservationSourceOther string

datatype ObservationErrorType =
    ErrorNone
  | ErrorTimeout
  | ErrorRateLimit
  | ErrorAuth
  | ErrorInsufficientBalance
  | ErrorServer
  | ErrorClient
  | ErrorNetwork
  | ErrorCanceled
  | ErrorPlatform
  | ErrorUnknown
  | ObservationErrorOther string

record ChannelObservation =
  ob_ID :: string
  ob_ChannelID :: string
  ob_InstanceID :: string
  ob_PoolID :: string
  ob_Model :: string
  ob_Capability :: string
  ob_EndpointPath :: string
  ob_Success :: bool
  ob_StatusCode :: int64
  ob_ErrorType :: ObservationErrorType
  ob_FirstTokenMS :: float64
  ob_TotalMS :: float64
  ob_InputTokens :: int64
  ob_OutputTokens :: int64
  ob_EstimatedCost :: float64
  ob_Source :: ObservationSource
  ob_ObservedAt :: time

record ChannelHealthScope =
  scp_ChannelID :: string
  scp_InstanceID :: string
  scp_PoolID :: string
  scp_Model :: string
  scp_Capability :: string
  scp_EndpointPath :: string

section \<open>Thresholds\<close>

record Thresholds =
  hm_MinSamples :: int64
  hm_TargetSuccessRate :: float64
  hm_FloorSuccessRate :: float64
  hm_TTFTGoodMS :: float64
  hm_TTFTMaxMS :: float64
  hm_DurationGoodMS :: float64
  hm_DurationMaxMS :: float64
  hm_CostGoodPer1K :: float64
  hm_CostBadPer1K :: float64
  hm_SevereMultiplier :: float64
  hm_RateLimitUnhealthy :: float64

definition DefaultThresholds :: Thresholds where
  "DefaultThresholds = \<lparr>hm_MinSamples = 5, hm_TargetSuccessRate = round64 (95 / 100), hm_FloorSuccessRate = round64 (85 / 100),
     hm_TTFTGoodMS = Fin 800, hm_TTFTMaxMS = Fin 4000, hm_DurationGoodMS = Fin 4000, hm_DurationMaxMS = Fin 20000,
     hm_CostGoodPer1K = Fin 0, hm_CostBadPer1K = Fin 20, hm_SevereMultiplier = Fin (3 / 2), hm_RateLimitUnhealthy = Fin (1 / 2)\<rparr>"

definition withDefaults :: "Thresholds \<Rightarrow> Thresholds" where
  "withDefaults t =
     (let d = DefaultThresholds in
      t\<lparr>hm_MinSamples := (if hm_MinSamples t \<le> 0 then hm_MinSamples d else hm_MinSamples t),
        hm_TargetSuccessRate := (if fle (hm_TargetSuccessRate t) (Fin 0) then hm_TargetSuccessRate d else hm_TargetSuccessRate t),
        hm_FloorSuccessRate := (if fle (hm_FloorSuccessRate t) (Fin 0) then hm_FloorSuccessRate d else hm_FloorSuccessRate t),
        hm_TTFTGoodMS := (if fle (hm_TTFTGoodMS t) (Fin 0) then hm_TTFTGoodMS d else hm_TTFTGoodMS t),
        hm_TTFTMaxMS := (if fle (hm_TTFTMaxMS t) (Fin 0) then hm_TTFTMaxMS d else hm_TTFTMaxMS t),
        hm_DurationGoodMS := (if fle (hm_DurationGoodMS t) (Fin 0) then hm_DurationGoodMS d else hm_DurationGoodMS t),
        hm_DurationMaxMS := (if fle (hm_DurationMaxMS t) (Fin 0) then hm_DurationMaxMS d else hm_DurationMaxMS t),
        hm_CostBadPer1K := (if fle (hm_CostBadPer1K t) (Fin 0) then hm_CostBadPer1K d else hm_CostBadPer1K t),
        hm_SevereMultiplier := (if fle (hm_SevereMultiplier t) (Fin 0) then hm_SevereMultiplier d else hm_SevereMultiplier t),
        hm_RateLimitUnhealthy := (if fle (hm_RateLimitUnhealthy t) (Fin 0) then hm_RateLimitUnhealthy d else hm_RateLimitUnhealthy t)\<rparr>)"

section \<open>The order of sort.Float64s\<close>

text \<open>Ascending, a NaN before every other value.\<close>

instantiation float64 :: linorder
begin

definition less_float64 :: "float64 \<Rightarrow> float64 \<Rightarrow> bool" where
  "less_float64 a b \<longleftrightarrow> flt a b \<or> IsNaN a \<and> \<not> IsNaN b"

definition less_eq_float64 :: "float64 \<Rightarrow> float64 \<Rightarrow> bool" where
  "less_eq_float64 a b \<longleftrightarrow> a < b \<or> a = b"

instance
proof
  fix a b c :: float64
  show "a < b \<longleftrightarrow> a \<le> b \<and> \<not> b \<le> a"
    by (cases a; cases b) (auto simp: less_float64_def less_eq_float64_def)
  show "a \<le> a" by (simp add: less_eq_float64_def)
  show "a \<le> b \<Longrightarrow> b \<le> c \<Longrightarrow> a \<le> c"
    by (cases a; cases b; cases c) (auto simp: less_float64_def less_eq_float64_def)
  show "a \<le> b \<Longrightarrow> b \<le> a \<Longrightarrow> a = b"
    by (cases a; cases b) (auto simp: less_float64_def less_eq_float64_def)
  show "a \<le> b \<or> b \<le> a"
    by (cases a; cases b) (auto simp: less_float64_def less_eq_float64_def)
qed

end

definition Float64s :: "float64 list \<Rightarrow> float64 list" where
  "Float64s = go_sort (<)"

text \<open>\<open>math.Floor\<close> and \<open>math.Ceil\<close>.\<close>

fun ffloor :: "float64 \<Rightarrow> float64" where
  "ffloor (Fin a) = Fin (of_int \<lfloor>a\<rfloor>)"
| "ffloor x = x"

fun fceil :: "float64 \<Rightarrow> float64" where
  "fceil (Fin a) = Fin (of_int \<lceil>a\<rceil>)"
| "fceil x = x"

text \<open>An index outside of the slice is a panic: \<open>None\<close>.\<close>

definition index :: "'a list \<Rightarrow> int \<Rightarrow> 'a option" where
  "index xs i = (if 0 \<le> i \<and> i < int (length xs) then Some (xs ! nat i) else None)"

definition percentile :: "float64 list \<Rightarrow> float64 \<Rightarrow> float64 option" where
  "percentile values q =
     (let n = int (length values) in
      if n = 0 then Some (Fin 0)
      else if n = 1 then index values 0
      else
        let sorted = Float64s values in
        if fle q (Fin 0) then index sorted 0
        else if fle (Fin 1) q then index sorted (n - 1)
        else
          let rank = fmul q (float64_of_int (n - 1));
              lo = int64_of_float (ffloor rank);
              hi = int64_of_float (fceil rank)
          in if lo = hi then index sorted lo
             else
               let frac = fsub rank (float64_of_int lo)
               in case (index sorted lo, index sorted hi) of
                    (Some l, Some h) \<Rightarrow> Some (fadd l (fmul frac (fsub h l)))
                  | _ \<Rightarrow> None)"

section \<open>Scores\<close>

definition isUpstreamResponsibleFailure :: "ChannelObservation \<Rightarrow> bool" where
  "isUpstreamResponsibleFailure o' \<longleftrightarrow>
     \<not> ob_Success o' \<and> ob_ErrorType o' \<in> {ErrorTimeout, ErrorRateLimit, ErrorServer, ErrorNetwork, ErrorUnknown}"

definition latencyScore :: "int64 \<Rightarrow> float64 \<Rightarrow> float64 \<Rightarrow> float64 \<Rightarrow> float64" where
  "latencyScore samples p95 good bad =
     (if samples = 0 then Fin 50
      else clamp (fdiv (fmul (Fin 100) (fsub bad p95)) (fsub bad good)) (Fin 0) (Fin 100))"

definition costScore :: "int64 \<Rightarrow> float64 \<Rightarrow> float64 \<Rightarrow> float64 \<Rightarrow> float64" where
  "costScore totalTokens costPer1K good bad =
     (if totalTokens \<le> 0 then Fin 50
      else if fle bad good then Fin 50
      else clamp (fdiv (fmul (Fin 100) (fsub bad costPer1K)) (fsub bad good)) (Fin 0) (Fin 100))"

definition latencyJitterScore :: "float64 \<Rightarrow> float64 \<Rightarrow> float64" where
  "latencyJitterScore p50 p95 =
     (if fle p50 (Fin 0) then Fin 100
      else clamp (fmul (Fin 50) (fsub (Fin 3) (fdiv p95 p50))) (Fin 0) (Fin 100))"

definition stabilityScore :: "ChannelHealthSnapshot \<Rightarrow> float64" where
  "stabilityScore snap =
     (let jitter = latencyJitterScore (snap_TTFTP50 snap) (snap_TTFTP95 snap);
          consistency = clamp (fmul (snap_QualitySuccessRate snap) (Fin 100)) (Fin 0) (Fin 100)
      in clamp (fadd (fmul (Fin (1 / 2)) jitter) (fmul (Fin (1 / 2)) consistency)) (Fin 0) (Fin 100))"

definition riskScore :: "float64 \<Rightarrow> ChannelHealthSnapshot \<Rightarrow> int64 \<Rightarrow> int64 \<Rightarrow> float64" where
  "riskScore n snap auths balances =
     (if fle n (Fin 0) then Fin 0
      else
        let severeRate = fdiv (float64_of_int (wrap64 (auths + balances))) n;
            risk = fadd (fadd (fadd (fmul severeRate (Fin 100)) (fmul (snap_RateLimitRate snap) (Fin 40)))
              (fmul (snap_TimeoutRate snap) (Fin 40))) (fmul (snap_QualityErrorRate snap) (Fin 20))
        in clamp risk (Fin 0) (Fin 100))"

definition healthState :: "Thresholds \<Rightarrow> ChannelHealthSnapshot \<Rightarrow> int64 \<Rightarrow> int64 \<Rightarrow> HealthState" where
  "healthState th snap auths balances =
     (if snap_QualitySampleCount snap < hm_MinSamples th then HealthUnknown
      else if 0 < auths \<or> 0 < balances \<or>
        flt (snap_QualitySuccessRate snap) (hm_FloorSuccessRate th) \<or>
        fle (hm_RateLimitUnhealthy th) (snap_RateLimitRate snap) \<or>
        flt (fmul (hm_TTFTMaxMS th) (hm_SevereMultiplier th)) (snap_TTFTP95 snap) \<or>
        flt (fmul (hm_DurationMaxMS th) (hm_SevereMultiplier th)) (snap_DurationP95 snap)
      then HealthUnhealthy
      else if flt (snap_QualitySuccessRate snap) (hm_TargetSuccessRate th) \<or>
        flt (hm_TTFTMaxMS th) (snap_TTFTP95 snap) \<or> flt (hm_DurationMaxMS th) (snap_DurationP95 snap)
      then HealthDegraded
      else HealthHealthy)"

section \<open>Aggregation\<close>

text \<open>The variables of the loop; the three failure counters are fields of \<open>snap\<close> in the code.\<close>

record tally =
  ta_successes :: int64
  ta_qualitySuccesses :: int64
  ta_qualitySamples :: int64
  ta_timeouts :: int64
  ta_rateLimits :: int64
  ta_authFailures :: int64
  ta_balanceFailures :: int64
  ta_upstreamFailures :: int64
  ta_ttft :: "float64 list"
  ta_dur :: "float64 list"
  ta_totalCost :: float64
  ta_totalTokens :: int64

definition tally_zero :: tally where
  "tally_zero = \<lparr>ta_successes = 0, ta_qualitySuccesses = 0, ta_qualitySamples = 0, ta_timeouts = 0, ta_rateLimits = 0,
     ta_authFailures = 0, ta_balanceFailures = 0, ta_upstreamFailures = 0, ta_ttft = [], ta_dur = [], ta_totalCost = Fin 0,
     ta_totalTokens = 0\<rparr>"

definition qualityEligible :: "ChannelObservation \<Rightarrow> bool" where
  "qualityEligible o' \<longleftrightarrow> ob_Success o' \<or>
     (ob_ErrorType o' \<noteq> ErrorClient \<and> ob_ErrorType o' \<noteq> ErrorCanceled \<and> ob_ErrorType o' \<noteq> ErrorPlatform)"

definition latencyEligible :: "ChannelObservation \<Rightarrow> bool" where
  "latencyEligible o' \<longleftrightarrow> ob_Success o' \<or> isUpstreamResponsibleFailure o'"

definition observe :: "ChannelObservation \<Rightarrow> tally \<Rightarrow> tally" where
  "observe o' t =
     (let t = (if qualityEligible o' then
                 (let t = t\<lparr>ta_qualitySamples := ta_qualitySamples t + 1\<rparr>
                  in if ob_Success o' then t\<lparr>ta_qualitySuccesses := ta_qualitySuccesses t + 1\<rparr> else t)
               else t);
          t = (if ob_Success o' then t\<lparr>ta_successes := ta_successes t + 1\<rparr> else t);
          t = (if \<not> ob_Success o' then
                 (let t = (case ob_ErrorType o' of
                             ErrorTimeout \<Rightarrow> t\<lparr>ta_timeouts := ta_timeouts t + 1\<rparr>
                           | ErrorRateLimit \<Rightarrow> t\<lparr>ta_rateLimits := ta_rateLimits t + 1\<rparr>
                           | ErrorAuth \<Rightarrow> t\<lparr>ta_authFailures := ta_authFailures t + 1\<rparr>
                           | ErrorInsufficientBalance \<Rightarrow> t\<lparr>ta_balanceFailures := ta_balanceFailures t + 1\<rparr>
                           | _ \<Rightarrow> t)
                  in if isUpstreamResponsibleFailure o' then t\<lparr>ta_upstreamFailures := ta_upstreamFailures t + 1\<rparr> else t)
               else t);
          t = (if latencyEligible o' \<and> flt (Fin 0) (ob_FirstTokenMS o') then t\<lparr>ta_ttft := ta_ttft t @ [ob_FirstTokenMS o']\<rparr> else t);
          t = (if latencyEligible o' \<and> flt (Fin 0) (ob_TotalMS o') then t\<lparr>ta_dur := ta_dur t @ [ob_TotalMS o']\<rparr> else t)
      in t\<lparr>ta_totalCost := fadd (ta_totalCost t) (ob_EstimatedCost o'),
           ta_totalTokens := wrap64 (ta_totalTokens t + wrap64 (ob_InputTokens o' + ob_OutputTokens o'))\<rparr>)"

fun AggregateScope_loop :: "ChannelObservation list \<Rightarrow> tally \<Rightarrow> tally" where
  "AggregateScope_loop [] t = t"
| "AggregateScope_loop (o' # os) t = AggregateScope_loop os (observe o' t)"

text \<open>The strategy and the candidate that \<open>AggregateScope\<close> builds; the fields it leaves out are zero.\<close>

definition penaltyStrategy :: "Thresholds \<Rightarrow> RouteStrategy" where
  "penaltyStrategy th = \<lparr>rst_ID = '''', rst_Name = '''', rst_Type = RouteStrategyTypeOther '''',
     rst_Thresholds = \<lparr>th_MinSamples = hm_MinSamples th, th_TargetSuccessRate = Fin 0, th_FloorSuccessRate = hm_FloorSuccessRate th,
       th_MaxTTFTP95MS = hm_TTFTMaxMS th, th_MaxDurationP95MS = hm_DurationMaxMS th, th_ConsecutiveFailureLimit = 0, th_EjectScore = Fin 0\<rparr>,
     rst_Weights = \<lparr>wt_Success = Fin 0, wt_TTFT = Fin 0, wt_Duration = Fin 0, wt_Stability = Fin 0, wt_Cost = Fin 0\<rparr>,
     rst_AutoApply = False, rst_ApprovalRequired = False, rst_CooldownSeconds = 0, rst_RecoveryObservationSeconds = 0,
     rst_MaxAutoSwitchesPerHour = 0, rst_Scope = StrategyScopeOther '''', rst_PlanID = '''', rst_PoolID = '''', rst_UserID = 0,
     rst_CreatedAt = 0, rst_UpdatedAt = 0\<rparr>"

definition snapshotCandidate :: "ChannelHealthSnapshot \<Rightarrow> Candidate" where
  "snapshotCandidate snap = \<lparr>cd_Channel = \<lparr>chan_ID = '''', chan_PoolID = '''', chan_AccountOwnership = '''', chan_SourceID = '''',
       chan_DisplayName = '''', chan_Provider = '''', chan_Models = [], chan_ProbeCapability = '''', chan_ProbeEndpointPath = '''',
       chan_Groups = [], chan_CredentialBindingID = '''', chan_ProxyBindingID = '''', chan_Priority = 0, chan_Weight = 0,
       chan_CostHint = Fin 0, chan_Status = UpstreamChannelStatusOther '''', chan_InventoryState = UpstreamInventoryOther '''',
       chan_Labels = [], chan_CreatedAt = 0, chan_UpdatedAt = 0\<rparr>,
     cd_Snapshot = snap, cd_State = HealthStateOther '''', cd_AuthFailure = False, cd_InsufficientBalance = False,
     cd_ConsecutiveFailures = 0, cd_ProviderDown = False\<rparr>"

text \<open>The statements of \<open>AggregateScope\<close> after the loop: the rates, the percentiles and the cost,
  then the scores. \<open>None\<close> would be an index panic of \<open>percentile\<close>.\<close>

definition withRates :: "int64 \<Rightarrow> tally \<Rightarrow> ChannelHealthSnapshot \<Rightarrow> ChannelHealthSnapshot" where
  "withRates len t snap =
     (let snap = snap\<lparr>snap_AuthFailureCount := ta_authFailures t, snap_InsufficientBalanceCount := ta_balanceFailures t,
            snap_UpstreamFailureCount := ta_upstreamFailures t\<rparr>;
          factualN = float64_of_int len;
          snap = snap\<lparr>snap_SuccessRate := fdiv (float64_of_int (ta_successes t)) factualN\<rparr>;
          snap = snap\<lparr>snap_ErrorRate := fsub (Fin 1) (snap_SuccessRate snap), snap_QualitySampleCount := ta_qualitySamples t\<rparr>;
          qualityN = float64_of_int (ta_qualitySamples t)
      in if flt (Fin 0) qualityN then
           (let snap = snap\<lparr>snap_QualitySuccessRate := fdiv (float64_of_int (ta_qualitySuccesses t)) qualityN\<rparr>
            in snap\<lparr>snap_QualityErrorRate := fsub (Fin 1) (snap_QualitySuccessRate snap),
                 snap_TimeoutRate := fdiv (float64_of_int (ta_timeouts t)) qualityN,
                 snap_RateLimitRate := fdiv (float64_of_int (ta_rateLimits t)) qualityN,
                 snap_UpstreamErrorRate := fdiv (float64_of_int (snap_UpstreamFailureCount snap)) qualityN\<rparr>)
         else snap)"

definition measured :: "int64 \<Rightarrow> tally \<Rightarrow> ChannelHealthSnapshot \<Rightarrow> ChannelHealthSnapshot option" where
  "measured len t snap =
     (let snap = withRates len t snap
      in case (percentile (ta_ttft t) (Fin (1 / 2)), percentile (ta_ttft t) (round64 (95 / 100)),
               percentile (ta_dur t) (Fin (1 / 2)), percentile (ta_dur t) (round64 (95 / 100))) of
           (Some t50, Some t95, Some d50, Some d95) \<Rightarrow>
             Some (let snap = snap\<lparr>snap_TTFTP50 := t50, snap_TTFTP95 := t95, snap_DurationP50 := d50, snap_DurationP95 := d95\<rparr>
                   in if 0 < ta_totalTokens t
                      then snap\<lparr>snap_EstimatedCostPer1KTokens :=
                        fdiv (ta_totalCost t) (fdiv (float64_of_int (ta_totalTokens t)) (Fin 1000))\<rparr>
                      else snap)
         | _ \<Rightarrow> None)"

definition scored :: "Thresholds \<Rightarrow> tally \<Rightarrow> ChannelHealthSnapshot \<Rightarrow> ChannelHealthSnapshot" where
  "scored th t snap =
     (let qualityN = float64_of_int (ta_qualitySamples t);
          snap = snap\<lparr>snap_SuccessScore := clamp (fmul (snap_QualitySuccessRate snap) (Fin 100)) (Fin 0) (Fin 100)\<rparr>;
          snap = snap\<lparr>snap_TTFTScore := latencyScore (int (length (ta_ttft t))) (snap_TTFTP95 snap) (hm_TTFTGoodMS th) (hm_TTFTMaxMS th)\<rparr>;
          snap = snap\<lparr>snap_DurationScore :=
            latencyScore (int (length (ta_dur t))) (snap_DurationP95 snap) (hm_DurationGoodMS th) (hm_DurationMaxMS th)\<rparr>;
          snap = snap\<lparr>snap_StabilityScore := stabilityScore snap\<rparr>;
          snap = snap\<lparr>snap_CostScore :=
            costScore (ta_totalTokens t) (snap_EstimatedCostPer1KTokens snap) (hm_CostGoodPer1K th) (hm_CostBadPer1K th)\<rparr>;
          snap = snap\<lparr>snap_RiskScore :=
            riskScore qualityN snap (snap_AuthFailureCount snap) (snap_InsufficientBalanceCount snap)\<rparr>;
          snap = snap\<lparr>snap_QualityScore := pe_Score (EvaluatePenalty (penaltyStrategy th) (snapshotCandidate snap))\<rparr>;
          snap = snap\<lparr>snap_HealthScore :=
            clamp (fsub (snap_QualityScore snap) (fmul (Fin (1 / 2)) (snap_RiskScore snap))) (Fin 0) (Fin 100)\<rparr>
      in snap\<lparr>snap_HealthState := healthState th snap (snap_AuthFailureCount snap) (snap_InsufficientBalanceCount snap)\<rparr>)"

definition scopeSnapshot :: "ChannelHealthScope \<Rightarrow> HealthWindow \<Rightarrow> int64 \<Rightarrow> ChannelHealthSnapshot" where
  "scopeSnapshot scope window len = emptySnapshot\<lparr>snap_ChannelID := scp_ChannelID scope, snap_InstanceID := scp_InstanceID scope,
     snap_PoolID := scp_PoolID scope, snap_Model := scp_Model scope, snap_Capability := scp_Capability scope,
     snap_EndpointPath := scp_EndpointPath scope, snap_Window := window, snap_SampleCount := len, snap_HealthState := HealthUnknown\<rparr>"

definition AggregateScope ::
  "ChannelHealthScope \<Rightarrow> HealthWindow \<Rightarrow> ChannelObservation list \<Rightarrow> Thresholds \<Rightarrow> ChannelHealthSnapshot option" where
  "AggregateScope scope window observations thresholds =
     (let th = withDefaults thresholds;
          snap = scopeSnapshot scope window (int (length observations))
      in if observations = [] then Some snap
         else let t = AggregateScope_loop observations tally_zero
              in map_option (scored th t) (measured (int (length observations)) t snap))"

fun newest_observation :: "ChannelObservation list \<Rightarrow> ChannelObservation \<Rightarrow> ChannelObservation" where
  "newest_observation [] newest = newest"
| "newest_observation (o' # os) newest =
     newest_observation os (if ob_ObservedAt newest < ob_ObservedAt o' then o' else newest)"

definition Aggregate :: "string \<Rightarrow> HealthWindow \<Rightarrow> ChannelObservation list \<Rightarrow> Thresholds \<Rightarrow> ChannelHealthSnapshot option" where
  "Aggregate channelID window observations thresholds =
     (let scope = \<lparr>scp_ChannelID = channelID, scp_InstanceID = '''', scp_PoolID = '''', scp_Model = '''', scp_Capability = '''',
            scp_EndpointPath = ''''\<rparr>;
          scope = (case observations of
                     [] \<Rightarrow> scope
                   | o' # os \<Rightarrow>
                       let newest = newest_observation os o'
                       in scope\<lparr>scp_PoolID := ob_PoolID newest, scp_InstanceID := ob_InstanceID newest, scp_Model := ob_Model newest\<rparr>)
      in AggregateScope scope window observations thresholds)"

section \<open>The loop in closed form\<close>

definition occurs :: "('a \<Rightarrow> bool) \<Rightarrow> 'a list \<Rightarrow> int" where
  "occurs P xs = int (length (filter P xs))"

lemma occurs_simps [simp]: "occurs P [] = 0" "occurs P (x # xs) = of_bool (P x) + occurs P xs"
  by (simp_all add: occurs_def)

lemma occurs_bounds: "0 \<le> occurs P xs" "occurs P xs \<le> int (length xs)"
  by (simp_all add: occurs_def)

lemma occurs_mset: "mset xs = mset ys \<Longrightarrow> occurs P xs = occurs P ys"
  unfolding occurs_def by (metis mset_filter size_mset)

lemma occurs_mono: "(\<And>x. P x \<Longrightarrow> Q x) \<Longrightarrow> occurs P xs \<le> occurs Q xs"
  by (induction xs) auto

lemma occurs_add: "(\<And>x. P x \<Longrightarrow> \<not> Q x) \<Longrightarrow> (\<And>x. P x \<or> Q x \<Longrightarrow> R x) \<Longrightarrow> occurs P xs + occurs Q xs \<le> occurs R xs"
  by (induction xs) (auto split: if_splits simp: add_mono)

definition failed_with :: "ObservationErrorType \<Rightarrow> ChannelObservation \<Rightarrow> bool" where
  "failed_with e o' \<longleftrightarrow> \<not> ob_Success o' \<and> ob_ErrorType o' = e"

definition latencies :: "(ChannelObservation \<Rightarrow> float64) \<Rightarrow> ChannelObservation list \<Rightarrow> float64 list" where
  "latencies f os = map f (filter (\<lambda>o'. latencyEligible o' \<and> flt (Fin 0) (f o')) os)"

definition tokens :: "ChannelObservation list \<Rightarrow> int" where
  "tokens os = (\<Sum>o'\<leftarrow>os. ob_InputTokens o' + ob_OutputTokens o')"

definition costs :: "ChannelObservation list \<Rightarrow> float64 \<Rightarrow> float64" where
  "costs os c = foldl (\<lambda>c o'. fadd c (ob_EstimatedCost o')) c os"

lemma observe_eq:
  "observe o' t = \<lparr>ta_successes = ta_successes t + of_bool (ob_Success o'), ta_qualitySuccesses = ta_qualitySuccesses t + of_bool (ob_Success o'),
     ta_qualitySamples = ta_qualitySamples t + of_bool (qualityEligible o'),
     ta_timeouts = ta_timeouts t + of_bool (failed_with ErrorTimeout o'), ta_rateLimits = ta_rateLimits t + of_bool (failed_with ErrorRateLimit o'),
     ta_authFailures = ta_authFailures t + of_bool (failed_with ErrorAuth o'),
     ta_balanceFailures = ta_balanceFailures t + of_bool (failed_with ErrorInsufficientBalance o'),
     ta_upstreamFailures = ta_upstreamFailures t + of_bool (isUpstreamResponsibleFailure o'),
     ta_ttft = ta_ttft t @ latencies ob_FirstTokenMS [o'], ta_dur = ta_dur t @ latencies ob_TotalMS [o'],
     ta_totalCost = fadd (ta_totalCost t) (ob_EstimatedCost o'),
     ta_totalTokens = wrap64 (ta_totalTokens t + (ob_InputTokens o' + ob_OutputTokens o'))\<rparr>"
  by (cases "ob_ErrorType o'"; cases "ob_Success o'"; cases t)
     (simp_all add: observe_def Let_def qualityEligible_def latencyEligible_def isUpstreamResponsibleFailure_def failed_with_def latencies_def)

lemma latencies_Cons: "latencies f (x # xs) = latencies f [x] @ latencies f xs"
  by (simp add: latencies_def)

lemma AggregateScope_loop_eq:
  "in64 (ta_totalTokens t) \<Longrightarrow> AggregateScope_loop os t =
    \<lparr>ta_successes = ta_successes t + occurs ob_Success os, ta_qualitySuccesses = ta_qualitySuccesses t + occurs ob_Success os,
     ta_qualitySamples = ta_qualitySamples t + occurs qualityEligible os,
     ta_timeouts = ta_timeouts t + occurs (failed_with ErrorTimeout) os,
     ta_rateLimits = ta_rateLimits t + occurs (failed_with ErrorRateLimit) os,
     ta_authFailures = ta_authFailures t + occurs (failed_with ErrorAuth) os,
     ta_balanceFailures = ta_balanceFailures t + occurs (failed_with ErrorInsufficientBalance) os,
     ta_upstreamFailures = ta_upstreamFailures t + occurs isUpstreamResponsibleFailure os,
     ta_ttft = ta_ttft t @ latencies ob_FirstTokenMS os, ta_dur = ta_dur t @ latencies ob_TotalMS os,
     ta_totalCost = costs os (ta_totalCost t), ta_totalTokens = wrap64 (ta_totalTokens t + tokens os)\<rparr>"
proof (induction os arbitrary: t)
  case Nil
  then show ?case by (cases t) (simp add: latencies_def costs_def tokens_def wrap64_id)
next
  case (Cons o' os)
  have "in64 (ta_totalTokens (observe o' t))" by (simp add: observe_eq)
  from Cons.IH [OF this] show ?case
    unfolding AggregateScope_loop.simps observe_eq latencies_Cons [of _ o' os]
    by (simp add: costs_def tokens_def algebra_simps)
qed

text \<open>What the loop returns for a whole window.\<close>

definition tally_of :: "ChannelObservation list \<Rightarrow> tally" where
  "tally_of os = \<lparr>ta_successes = occurs ob_Success os, ta_qualitySuccesses = occurs ob_Success os,
     ta_qualitySamples = occurs qualityEligible os, ta_timeouts = occurs (failed_with ErrorTimeout) os,
     ta_rateLimits = occurs (failed_with ErrorRateLimit) os, ta_authFailures = occurs (failed_with ErrorAuth) os,
     ta_balanceFailures = occurs (failed_with ErrorInsufficientBalance) os,
     ta_upstreamFailures = occurs isUpstreamResponsibleFailure os, ta_ttft = latencies ob_FirstTokenMS os,
     ta_dur = latencies ob_TotalMS os, ta_totalCost = costs os (Fin 0), ta_totalTokens = wrap64 (tokens os)\<rparr>"

lemma AggregateScope_loop_tally: "AggregateScope_loop os tally_zero = tally_of os"
  using AggregateScope_loop_eq [of tally_zero os] by (simp add: tally_zero_def tally_of_def in64_def)

section \<open>Percentiles\<close>

lemma Float64s_sort: "Float64s xs = sort xs"
proof -
  have "insert_by (<) x ys = insort x ys" for x :: float64 and ys
    by (induction ys) (auto simp: not_le)
  then have "insert_by (<) = (insort :: float64 \<Rightarrow> _)" by (intro ext)
  then show ?thesis by (simp add: Float64s_def go_sort_def sort_key_def)
qed

lemma percentile_mset:
  assumes "mset xs = mset ys"
  shows "percentile xs q = percentile ys q"
proof -
  have "sort xs = sort ys" using assms by (metis sorted_list_of_multiset_mset)
  moreover have "length xs = length ys" using assms by (metis size_mset)
  moreover have "xs ! 0 = ys ! 0" if "length xs = 1"
    using that assms calculation(2) by (cases xs; cases ys) auto
  ultimately show ?thesis unfolding percentile_def Float64s_sort by (simp add: Let_def index_def)
qed

lemma in64_small: "0 \<le> k \<Longrightarrow> k \<le> n \<Longrightarrow> n < 2 ^ 53 \<Longrightarrow> in64 k"
  by (simp add: in64_def)

lemma int64_of_float_int: "in64 k \<Longrightarrow> int64_of_float (Fin (of_int k)) = k"
  by (simp add: truncate_rat_def)

text \<open>The ranks are indices of the sorted list, so \<open>percentile\<close> does not panic.\<close>

lemma percentile_ranks:
  assumes n: "2 \<le> n" "n < 2 ^ 53" and q: "0 < a" "a < 1"
  obtains r where "fmul (Fin a) (float64_of_int (n - 1)) = Fin r" "0 \<le> r"
    "int64_of_float (ffloor (Fin r)) = \<lfloor>r\<rfloor>" "int64_of_float (fceil (Fin r)) = \<lceil>r\<rceil>" "0 \<le> \<lfloor>r\<rfloor>" "\<lceil>r\<rceil> \<le> n - 1"
proof -
  let ?r = "f64 (a * of_int (n - 1))"
  have m: "\<bar>n - 1\<bar> < 2 ^ 53" using n by simp
  have p: "0 \<le> a * of_int (n - 1)" "a * of_int (n - 1) \<le> of_int (n - 1)"
    using n q by (simp_all add: mult_left_le_one_le)
  then have r: "0 \<le> ?r" "?r \<le> of_int (n - 1)" using f64_sign(1) f64_le_int [OF _ m] by blast+
  have "float64_of_int (n - 1) = Fin (of_int (n - 1))" unfolding float64_of_int_def by (rule round64_int [OF m])
  moreover have "round64 (a * of_int (n - 1)) = Fin ?r" by (rule round64_Fin [of _ "n - 1"]) (use p m in auto)
  ultimately have "fmul (Fin a) (float64_of_int (n - 1)) = Fin ?r" by simp
  moreover have b: "0 \<le> \<lfloor>?r\<rfloor>" "\<lceil>?r\<rceil> \<le> n - 1" "\<lfloor>?r\<rfloor> \<le> n - 1" "0 \<le> \<lceil>?r\<rceil>"
    using r by (simp_all add: le_floor_iff ceiling_le_iff floor_le_iff le_ceiling_iff) linarith+
  moreover have "in64 \<lfloor>?r\<rfloor>" "in64 \<lceil>?r\<rceil>" using b n by (auto intro: in64_small [of _ n])
  then have "int64_of_float (ffloor (Fin ?r)) = \<lfloor>?r\<rfloor>" "int64_of_float (fceil (Fin ?r)) = \<lceil>?r\<rceil>"
    by (simp_all only: ffloor.simps fceil.simps int64_of_float_int)
  ultimately show thesis using that r(1) by blast
qed

text \<open>A finite number of an interval.\<close>

fun between :: "rat \<Rightarrow> rat \<Rightarrow> float64 \<Rightarrow> bool" where
  "between lo hi (Fin r) \<longleftrightarrow> lo \<le> r \<and> r \<le> hi"
| "between lo hi _ \<longleftrightarrow> False"

lemma betweenE: "between lo hi x \<Longrightarrow> (\<And>r. x = Fin r \<Longrightarrow> lo \<le> r \<Longrightarrow> r \<le> hi \<Longrightarrow> P) \<Longrightarrow> P"
  by (cases x) auto

lemma Fin_le [simp]: "Fin a \<le> Fin b \<longleftrightarrow> a \<le> b"
  by (auto simp: less_eq_float64_def less_float64_def)

lemma round64_pow2:
  assumes "0 \<le> x" "x \<le> 2 ^ n" "n < 1024"
  shows "round64 x = Fin (f64 x)" "0 \<le> f64 x" "f64 x \<le> 2 ^ n"
  using round64_bounded [of x n] f64_sign(1) [OF assms(1)] f64_le_pow2 [OF assms(2)] assms by simp_all

text \<open>The interpolation between two neighbours.\<close>

lemma interpolation_between:
  assumes "between 0 (2 ^ 1000) l" "between 0 (2 ^ 1000) h" "l \<le> h" "0 \<le> r"
  shows "between 0 (2 ^ 1001) (fadd l (fmul (fsub (Fin r) (Fin (of_int \<lfloor>r\<rfloor>))) (fsub h l)))"
    "wf64 (fadd l (fmul (fsub (Fin r) (Fin (of_int \<lfloor>r\<rfloor>))) (fsub h l)))"
proof -
  obtain x y where x: "l = Fin x" "0 \<le> x" "x \<le> 2 ^ 1000" and y: "h = Fin y" "0 \<le> y" "y \<le> 2 ^ 1000"
    using assms(1,2) by (elim betweenE)
  have "x \<le> y" using assms(3) by (simp add: x y)
  then have xy: "0 \<le> y - x" "y - x \<le> 2 ^ 1000" using x(2) y(3) by linarith+
  have fr: "0 \<le> r - of_int \<lfloor>r\<rfloor>" "r - of_int \<lfloor>r\<rfloor> \<le> 2 ^ 0" using floor_correct [of r] by simp_all
  note d = round64_pow2 [OF xy] and f = round64_pow2 [OF fr]
  have m: "0 \<le> f64 (r - of_int \<lfloor>r\<rfloor>) * f64 (y - x)" "f64 (r - of_int \<lfloor>r\<rfloor>) * f64 (y - x) \<le> 2 ^ 1000"
    using d f mult_left_le_one_le [of "f64 (y - x)" "f64 (r - of_int \<lfloor>r\<rfloor>)"] by simp_all
  note e = round64_pow2 [OF m]
  let ?e = "f64 (f64 (r - of_int \<lfloor>r\<rfloor>) * f64 (y - x))"
  have "(2::rat) ^ 1001 = 2 ^ 1000 + 2 ^ 1000" by simp
  with x e have s: "0 \<le> x + ?e" "x + ?e \<le> 2 ^ 1001" by linarith+
  note g = round64_pow2 [OF s]
  have eq: "fadd l (fmul (fsub (Fin r) (Fin (of_int \<lfloor>r\<rfloor>))) (fsub h l)) = round64 (x + ?e)"
    using x y d f e by (simp add: fsub_def)
  show "between 0 (2 ^ 1001) (fadd l (fmul (fsub (Fin r) (Fin (of_int \<lfloor>r\<rfloor>))) (fsub h l)))"
    unfolding eq using g by simp
  show "wf64 (fadd l (fmul (fsub (Fin r) (Fin (of_int \<lfloor>r\<rfloor>))) (fsub h l)))" unfolding eq by (rule wf64_round64)
qed

definition latency_ok :: "float64 \<Rightarrow> bool" where
  "latency_ok v \<longleftrightarrow> wf64 v \<and> between 0 (2 ^ 1000) v"

lemma between_mono: "between lo hi x \<Longrightarrow> hi \<le> hi' \<Longrightarrow> between lo hi' x"
  by (cases x) auto

lemma percentile_between:
  assumes len: "int (length xs) < 2 ^ 53" and q: "0 < a" "a < 1" and ok: "\<forall>v \<in> set xs. latency_ok v"
  obtains v where "percentile xs (Fin a) = Some v" "between 0 (2 ^ 1001) v" "wf64 v"
proof -
  have le: "(2::rat) ^ 1000 \<le> 2 ^ 1001" by (rule power_increasing) simp_all
  have el: "latency_ok (sort xs ! i)" if "i < length xs" for i using ok that by (metis length_sort nth_mem set_sort)
  note V = between_mono [OF _ le]
  consider "xs = []" | v where "xs = [v]" | "2 \<le> int (length xs)" by (cases xs rule: remdups_adj.cases) auto
  then show thesis
  proof cases
    case 1
    then show thesis using that wf64_int [of 0] by (simp add: percentile_def)
  next
    case 2
    then show thesis using that [of v] ok V [of 0 v] by (simp add: percentile_def Let_def index_def latency_ok_def)
  next
    case 3
    obtain r where r: "fmul (Fin a) (float64_of_int (int (length xs) - 1)) = Fin r" "0 \<le> r"
      "int64_of_float (ffloor (Fin r)) = \<lfloor>r\<rfloor>" "int64_of_float (fceil (Fin r)) = \<lceil>r\<rceil>" "0 \<le> \<lfloor>r\<rfloor>" "\<lceil>r\<rceil> \<le> int (length xs) - 1"
      using percentile_ranks [OF 3 len q] by metis
    have fc: "\<lfloor>r\<rfloor> \<le> \<lceil>r\<rceil>" "\<lfloor>r\<rfloor> < int (length xs)" "\<lceil>r\<rceil> < int (length xs)" "0 \<le> \<lceil>r\<rceil>"
      using r(5,6) floor_le_ceiling [of r] by linarith+
    let ?l = "sort xs ! nat \<lfloor>r\<rfloor>" and ?h = "sort xs ! nat \<lceil>r\<rceil>"
    have ix: "index (sort xs) \<lfloor>r\<rfloor> = Some ?l" "index (sort xs) \<lceil>r\<rceil> = Some ?h" using r(5,6) fc by (simp_all add: index_def)
    have nl: "nat \<lfloor>r\<rfloor> < length xs" "nat \<lceil>r\<rceil> < length xs" "nat \<lfloor>r\<rfloor> \<le> nat \<lceil>r\<rceil>" using fc r(5) by linarith+
    then have lh: "latency_ok ?l" "latency_ok ?h" using el by blast+
    have "?l \<le> ?h" by (rule sorted_nth_mono) (use nl in simp_all)
    have fl: "float64_of_int \<lfloor>r\<rfloor> = Fin (of_int \<lfloor>r\<rfloor>)"
      unfolding float64_of_int_def using r(5,6) fc len by (intro round64_int) linarith
    have P: "percentile xs (Fin a) = Some (if \<lfloor>r\<rfloor> = \<lceil>r\<rceil> then ?l
        else fadd ?l (fmul (fsub (Fin r) (Fin (of_int \<lfloor>r\<rfloor>))) (fsub ?h ?l)))"
      unfolding percentile_def Let_def Float64s_sort r(1) r(3) r(4) fl ix using 3 q by auto
    show thesis
    proof (cases "\<lfloor>r\<rfloor> = \<lceil>r\<rceil>")
      case True
      then show thesis using that [OF P] lh(1) V [of 0 ?l] by (simp only: latency_ok_def if_True simp_thms)
    next
      case False
      from interpolation_between [OF _ _ \<open>?l \<le> ?h\<close> r(2)] lh show thesis
        using that [OF P] False by (simp only: latency_ok_def if_False simp_thms)
    qed
  qed
qed

section \<open>Ranges of rates and scores\<close>

lemma round64_not_NaN [simp]: "round64 x \<noteq> NaN"
  by (simp add: round64_def Let_def)

lemma finite_ops_not_NaN:
  "fadd (Fin a) (Fin b) \<noteq> NaN" "fsub (Fin a) (Fin b) \<noteq> NaN" "fmul (Fin a) (Fin b) \<noteq> NaN"
  "x \<noteq> NaN \<Longrightarrow> fsub (Fin a) x \<noteq> NaN" "x \<noteq> NaN \<Longrightarrow> c \<noteq> 0 \<Longrightarrow> fmul (Fin c) x \<noteq> NaN"
  "x \<noteq> NaN \<Longrightarrow> 0 < d \<Longrightarrow> fdiv x (Fin d) \<noteq> NaN"
  by (cases x; simp add: fsub_def of_sign_def sgn_if)+

lemma clamp_between: "x \<noteq> NaN \<Longrightarrow> lo \<le> hi \<Longrightarrow> between lo hi (clamp x (Fin lo) (Fin hi))"
  by (cases x) (auto simp: clamp_def)

lemma between_int_ops:
  "between 0 (of_int m) x \<Longrightarrow> between 0 (of_int n) y \<Longrightarrow> m + n < 2 ^ 53 \<Longrightarrow> between 0 (of_int (m + n)) (fadd x y)"
  "between 0 1 x \<Longrightarrow> 0 \<le> m \<Longrightarrow> m < 2 ^ 53 \<Longrightarrow> between 0 (of_int m) (fmul x (Fin (of_int m)))"
  "between 0 1 x \<Longrightarrow> between 0 1 (fsub (Fin 1) x)"
proof -
  have R: "between 0 (of_int m) (round64 z)" if "0 \<le> z" "z \<le> of_int m" "m < 2 ^ 53" for m z
  proof -
    have "(0::rat) \<le> of_int m" using that(1,2) by linarith
    then have m: "\<bar>m\<bar> < 2 ^ 53" using that(3) by simp
    show ?thesis using round64_Fin [of z m] that f64_sign(1) [OF that(1)] f64_le_int [OF that(2) m] by simp
  qed
  show "between 0 (of_int m) x \<Longrightarrow> between 0 (of_int n) y \<Longrightarrow> m + n < 2 ^ 53 \<Longrightarrow> between 0 (of_int (m + n)) (fadd x y)"
    by (elim betweenE) (simp only: fadd.simps, rule R, simp_all)
  show "between 0 1 x \<Longrightarrow> 0 \<le> m \<Longrightarrow> m < 2 ^ 53 \<Longrightarrow> between 0 (of_int m) (fmul x (Fin (of_int m)))"
    by (elim betweenE) (simp only: fmul.simps, rule R, simp_all add: mult_left_le_one_le)
  show "between 0 1 x \<Longrightarrow> between 0 1 (fsub (Fin 1) x)"
    using R [where m = 1] by (elim betweenE) (simp add: fsub_def)
qed

lemma rate_between:
  assumes "0 \<le> k" "k \<le> n" "0 < n" "n < 2 ^ 53"
  shows "fdiv (float64_of_int k) (float64_of_int n) = Fin (f64 (of_int k / of_int n))"
    "between 0 1 (fdiv (float64_of_int k) (float64_of_int n))"
proof -
  have kn: "\<bar>k\<bar> < 2 ^ 53" "\<bar>n\<bar> < 2 ^ 53" using assms by simp_all
  have q: "0 \<le> (of_int k / of_int n :: rat)" "(of_int k / of_int n :: rat) \<le> of_int 1" using assms by simp_all
  show eq: "fdiv (float64_of_int k) (float64_of_int n) = Fin (f64 (of_int k / of_int n))"
    using assms(3) round64_Fin [of "of_int k / of_int n" 1, unfolded abs_of_nonneg [OF q(1)], OF q(2)]
    unfolding float64_of_int_def round64_int [OF kn(1)] round64_int [OF kn(2)] by simp
  show "between 0 1 (fdiv (float64_of_int k) (float64_of_int n))"
    unfolding eq using f64_sign(1) [OF q(1)] f64_le_int [OF q(2)] by simp
qed

text \<open>A linear score between a good and a bad reference point.\<close>

lemma linear_score_between:
  assumes "wf64 (Fin b)" "wf64 (Fin g)" "0 \<le> g" "g < b" "x \<noteq> NaN"
  shows "between 0 100 (clamp (fdiv (fmul (Fin 100) (fsub (Fin b) x)) (fsub (Fin b) (Fin g))) (Fin 0) (Fin 100))"
  unfolding fsub_pos(1) [OF assms(1-4)]
  by (intro clamp_between finite_ops_not_NaN assms fsub_pos [OF assms(1-4)]) simp_all

lemma latencyJitterScore_between: "between lo hi p \<Longrightarrow> between lo' hi' p' \<Longrightarrow> between 0 100 (latencyJitterScore p p')"
proof (elim betweenE)
  fix a b assume "p = Fin a" "p' = Fin b"
  moreover have "fsub (Fin 3) (round64 (b / a)) \<noteq> NaN" by (rule finite_ops_not_NaN) simp
  then have "fmul (Fin 50) (fsub (Fin 3) (round64 (b / a))) \<noteq> NaN" by (rule finite_ops_not_NaN) simp
  ultimately show ?thesis by (auto simp: latencyJitterScore_def intro!: clamp_between)
qed

lemma half_sum_between: "between 0 100 x \<Longrightarrow> between 0 100 y \<Longrightarrow>
  between 0 100 (clamp (fadd (fmul (Fin (1 / 2)) x) (fmul (Fin (1 / 2)) y)) (Fin 0) (Fin 100))"
proof -
  have H: "\<exists>r. fmul (Fin (1 / 2)) z = Fin r" if "between 0 100 z" for z
    using that round64_Fin [of "_ / 2" 100] by (elim betweenE) auto
  show "between 0 100 x \<Longrightarrow> between 0 100 y \<Longrightarrow> ?thesis"
    using H [of x] H [of y] by (auto intro!: clamp_between)
qed

section \<open>The measured quantities\<close>

definition observation_ok :: "ChannelObservation \<Rightarrow> bool" where
  "observation_ok o' \<longleftrightarrow> latency_ok (ob_FirstTokenMS o') \<and> latency_ok (ob_TotalMS o') \<and> between 0 (2 ^ 1000) (ob_EstimatedCost o')"

lemma latencies_ok:
  "list_all observation_ok os \<Longrightarrow> \<forall>v \<in> set (latencies ob_FirstTokenMS os). latency_ok v"
  "list_all observation_ok os \<Longrightarrow> \<forall>v \<in> set (latencies ob_TotalMS os). latency_ok v"
  by (auto simp: latencies_def list_all_iff observation_ok_def)

lemma length_latencies: "length (latencies f os) \<le> length os"
  by (simp add: latencies_def)

lemma costs_not_NaN: "list_all observation_ok os \<Longrightarrow> c = PInf \<or> between 0 (2 ^ 1024) c \<Longrightarrow> costs os c \<noteq> NaN \<and> costs os c \<noteq> NInf"
proof (induction os arbitrary: c)
  case Nil
  then show ?case by (cases c) (auto simp: costs_def)
next
  case (Cons o' os)
  obtain a where a: "ob_EstimatedCost o' = Fin a" "0 \<le> a"
    using Cons.prems(1) by (auto simp: observation_ok_def elim: betweenE)
  have "round64 (r + a) = PInf \<or> between 0 (2 ^ 1024) (round64 (r + a))" if "0 \<le> r" for r
    using f64_sign(1) [of "r + a"] that a(2) by (auto simp: round64_def Let_def)
  then have "fadd c (ob_EstimatedCost o') = PInf \<or> between 0 (2 ^ 1024) (fadd c (ob_EstimatedCost o'))"
    using Cons.prems(2) a(1) by (cases c) auto
  from Cons.IH [OF _ this] Cons.prems(1) show ?case by (simp add: costs_def)
qed

text \<open>Occurrences that bound each other.\<close>

lemma failures_are_eligible:
  "occurs ob_Success os \<le> occurs qualityEligible os" "occurs (failed_with ErrorTimeout) os \<le> occurs qualityEligible os"
  "occurs (failed_with ErrorRateLimit) os \<le> occurs qualityEligible os"
  "occurs isUpstreamResponsibleFailure os \<le> occurs qualityEligible os"
  "occurs (failed_with ErrorAuth) os + occurs (failed_with ErrorInsufficientBalance) os \<le> occurs qualityEligible os"
  "occurs (failed_with ErrorRateLimit) os + occurs ob_Success os \<le> occurs qualityEligible os"
  by (rule occurs_mono occurs_add; auto simp: qualityEligible_def isUpstreamResponsibleFailure_def failed_with_def)+

lemma eligible_partition:
  "occurs ob_Success os + occurs isUpstreamResponsibleFailure os + occurs (failed_with ErrorAuth) os +
   occurs (failed_with ErrorInsufficientBalance) os \<le> occurs qualityEligible os"
  by (induction os) (auto simp: qualityEligible_def isUpstreamResponsibleFailure_def failed_with_def)

definition rates :: "ChannelHealthSnapshot \<Rightarrow> float64 list" where
  "rates snap = [snap_SuccessRate snap, snap_ErrorRate snap, snap_QualitySuccessRate snap, snap_QualityErrorRate snap,
     snap_TimeoutRate snap, snap_RateLimitRate snap, snap_UpstreamErrorRate snap]"

definition percentiles :: "ChannelHealthSnapshot \<Rightarrow> float64 list" where
  "percentiles snap = [snap_TTFTP50 snap, snap_TTFTP95 snap, snap_DurationP50 snap, snap_DurationP95 snap]"

definition scores :: "ChannelHealthSnapshot \<Rightarrow> float64 list" where
  "scores snap = [snap_HealthScore snap, snap_QualityScore snap, snap_SuccessScore snap, snap_TTFTScore snap, snap_DurationScore snap,
     snap_StabilityScore snap, snap_CostScore snap, snap_RiskScore snap]"

text \<open>The snapshot of a window before its scores, with the four percentiles.\<close>

definition rated :: "ChannelObservation list \<Rightarrow> float64 \<Rightarrow> float64 \<Rightarrow> float64 \<Rightarrow> float64 \<Rightarrow> ChannelHealthSnapshot \<Rightarrow> ChannelHealthSnapshot" where
  "rated os t50 t95 d50 d95 snap =
     (let n = float64_of_int (occurs qualityEligible os);
          rate = (\<lambda>P z. if 0 < occurs qualityEligible os then fdiv (float64_of_int (occurs P os)) n else z)
      in snap\<lparr>snap_AuthFailureCount := occurs (failed_with ErrorAuth) os,
        snap_InsufficientBalanceCount := occurs (failed_with ErrorInsufficientBalance) os,
        snap_UpstreamFailureCount := occurs isUpstreamResponsibleFailure os,
        snap_SuccessRate := fdiv (float64_of_int (occurs ob_Success os)) (float64_of_int (int (length os))),
        snap_ErrorRate := fsub (Fin 1) (fdiv (float64_of_int (occurs ob_Success os)) (float64_of_int (int (length os)))),
        snap_QualitySampleCount := occurs qualityEligible os,
        snap_QualitySuccessRate := rate ob_Success (snap_QualitySuccessRate snap),
        snap_QualityErrorRate := (if 0 < occurs qualityEligible os then fsub (Fin 1) (rate ob_Success (Fin 0)) else snap_QualityErrorRate snap),
        snap_TimeoutRate := rate (failed_with ErrorTimeout) (snap_TimeoutRate snap),
        snap_RateLimitRate := rate (failed_with ErrorRateLimit) (snap_RateLimitRate snap),
        snap_UpstreamErrorRate := rate isUpstreamResponsibleFailure (snap_UpstreamErrorRate snap),
        snap_TTFTP50 := t50, snap_TTFTP95 := t95, snap_DurationP50 := d50, snap_DurationP95 := d95,
        snap_EstimatedCostPer1KTokens := (if 0 < wrap64 (tokens os)
          then fdiv (costs os (Fin 0)) (fdiv (float64_of_int (wrap64 (tokens os))) (Fin 1000)) else snap_EstimatedCostPer1KTokens snap)\<rparr>)"

lemma float64_of_int_pos: "0 \<le> n \<Longrightarrow> n < 2 ^ 53 \<Longrightarrow> flt (Fin 0) (float64_of_int n) \<longleftrightarrow> 0 < n"
  using round64_int [of n] by (simp add: float64_of_int_def)

lemma measured_rated:
  assumes len: "int (length os) < 2 ^ 53"
    and "percentile (latencies ob_FirstTokenMS os) (Fin (1 / 2)) = Some t50"
    "percentile (latencies ob_FirstTokenMS os) (round64 (95 / 100)) = Some t95"
    "percentile (latencies ob_TotalMS os) (Fin (1 / 2)) = Some d50"
    "percentile (latencies ob_TotalMS os) (round64 (95 / 100)) = Some d95"
  shows "measured (int (length os)) (tally_of os) snap = Some (rated os t50 t95 d50 d95 snap)"
proof -
  have q: "flt (Fin 0) (float64_of_int (occurs qualityEligible os)) \<longleftrightarrow> 0 < occurs qualityEligible os"
    using occurs_bounds [of qualityEligible os] len by (intro float64_of_int_pos) linarith+
  show ?thesis
    using assms(2-5) by (simp add: measured_def withRates_def tally_of_def rated_def Let_def q)
qed

lemma q95: "round64 (95 / 100) = Fin (f64 (95 / 100))" "0 < f64 (95 / 100)" "f64 (95 / 100) < 1"
proof -
  show "round64 (95 / 100) = Fin (f64 (95 / 100))" by (rule round64_Fin [of _ 1]) simp_all
  show "0 < f64 (95 / 100)" by (rule f64_fraction [of 1]) simp_all
  have "f64 (95 / 100) \<le> f64 (31 / 32)" by (rule f64_mono) simp
  also have "f64 (31 / 32) = 31 / 32" by (rule f64_exact [of _ 31 "- 5"]) (simp_all add: power_int_def power_one_over)
  finally show "f64 (95 / 100) < 1" by simp
qed

text \<open>A window of usable observations has a snapshot: no index is out of range.\<close>

lemma AggregateScope_rated:
  assumes os: "os \<noteq> []" "int (length os) < 2 ^ 53" "list_all observation_ok os"
  obtains t50 t95 d50 d95 where "AggregateScope scope w os t =
      Some (scored (withDefaults t) (tally_of os) (rated os t50 t95 d50 d95 (scopeSnapshot scope w (int (length os)))))"
    "list_all (\<lambda>v. between 0 (2 ^ 1001) v \<and> wf64 v) [t50, t95, d50, d95]"
proof -
  have half: "(0::rat) < 1 / 2" "(1 / 2 :: rat) < 1" by simp_all
  have len: "int (length (latencies f os)) < 2 ^ 53" for f using length_latencies [of f os] os(2) by linarith
  note ok = latencies_ok [OF os(3)]
  obtain t50 where t50: "percentile (latencies ob_FirstTokenMS os) (Fin (1 / 2)) = Some t50" "between 0 (2 ^ 1001) t50" "wf64 t50"
    using percentile_between [OF len half ok(1)] .
  obtain t95 where t95: "percentile (latencies ob_FirstTokenMS os) (round64 (95 / 100)) = Some t95" "between 0 (2 ^ 1001) t95" "wf64 t95"
    unfolding q95(1) using percentile_between [OF len q95(2,3) ok(1)] .
  obtain d50 where d50: "percentile (latencies ob_TotalMS os) (Fin (1 / 2)) = Some d50" "between 0 (2 ^ 1001) d50" "wf64 d50"
    using percentile_between [OF len half ok(2)] .
  obtain d95 where d95: "percentile (latencies ob_TotalMS os) (round64 (95 / 100)) = Some d95" "between 0 (2 ^ 1001) d95" "wf64 d95"
    unfolding q95(1) using percentile_between [OF len q95(2,3) ok(2)] .
  show thesis
  proof (rule that [of t50 t95 d50 d95])
    show "AggregateScope scope w os t =
      Some (scored (withDefaults t) (tally_of os) (rated os t50 t95 d50 d95 (scopeSnapshot scope w (int (length os)))))"
      using os(1) measured_rated [OF os(2) t50(1) t95(1) d50(1) d95(1)]
      by (simp add: AggregateScope_def AggregateScope_loop_tally Let_def)
    show "list_all (\<lambda>v. between 0 (2 ^ 1001) v \<and> wf64 v) [t50, t95, d50, d95]"
      using t50 t95 d50 d95 by (simp only: list.pred_inject simp_thms)
  qed
qed

lemma scopeSnapshot_rates: "snap_QualitySuccessRate (scopeSnapshot scope w n) = Fin 0" "snap_QualityErrorRate (scopeSnapshot scope w n) = Fin 0"
  "snap_TimeoutRate (scopeSnapshot scope w n) = Fin 0" "snap_RateLimitRate (scopeSnapshot scope w n) = Fin 0"
  "snap_UpstreamErrorRate (scopeSnapshot scope w n) = Fin 0" "snap_EstimatedCostPer1KTokens (scopeSnapshot scope w n) = Fin 0"
  by (simp_all add: scopeSnapshot_def emptySnapshot_def)

lemma wf64_fdiv: "wf64 (fdiv x y)"
  using wf64_int [of 0] by (cases x; cases y) (auto simp: wf64_round64 of_sign_def wf64_def [of PInf] wf64_def [of NInf] wf64_def [of NaN])

lemma rated_rates:
  assumes "os \<noteq> []" "int (length os) < 2 ^ 53"
  shows "list_all (between 0 1) (rates (rated os t50 t95 d50 d95 (scopeSnapshot scope w n)))"
proof -
  have n: "0 < int (length os)" using assms(1) by simp
  note S = rate_between(2) [OF occurs_bounds n assms(2)]
  have q: "occurs qualityEligible os < 2 ^ 53" using occurs_bounds(2) [of qualityEligible os] assms(2) by linarith
  have R: "between 0 1 (if 0 < occurs qualityEligible os
      then fdiv (float64_of_int (occurs P os)) (float64_of_int (occurs qualityEligible os)) else Fin 0)"
    if "occurs P os \<le> occurs qualityEligible os" for P
    using rate_between(2) [OF occurs_bounds(1) that _ q] by simp
  note F = failures_are_eligible [of os]
  have E: "between 0 1 (if 0 < occurs qualityEligible os
      then fsub (Fin 1) (fdiv (float64_of_int (occurs ob_Success os)) (float64_of_int (occurs qualityEligible os))) else Fin 0)"
    using between_int_ops(3) [OF R [OF F(1)]] by (auto split: if_splits)
  show ?thesis
    unfolding rates_def rated_def Let_def
    using S [of ob_Success] between_int_ops(3) [OF S, of ob_Success] R [OF F(1)] R [OF F(2)] R [OF F(3)] R [OF F(4)] E
    by (simp add: scopeSnapshot_rates cong: if_cong)
qed

lemma rated_cost:
  assumes "list_all observation_ok os"
  shows "snap_EstimatedCostPer1KTokens (rated os t50 t95 d50 d95 (scopeSnapshot scope w n)) \<noteq> NaN"
proof (cases "0 < wrap64 (tokens os)")
  case True
  let ?k = "wrap64 (tokens os)"
  have "in64 ?k" by simp
  then have k: "1 \<le> ?k" "?k \<le> 2 ^ 63" using True by (simp_all add: in64_def)
  have "(of_int ?k :: rat) \<le> of_int (2 ^ 63)" "(1::rat) \<le> of_int ?k" using k by (simp_all only: of_int_le_iff of_int_1_le_iff)
  then have r: "float64_of_int ?k = Fin (f64 (of_int ?k))" "1 \<le> f64 (of_int ?k)" "f64 (of_int ?k) \<le> 2 ^ 63"
    using round64_pow2 [of "of_int ?k" 63] int_le_f64 [of 1 "of_int ?k"] by (simp_all add: float64_of_int_def)
  have "0 < f64 (f64 (of_int ?k) / 1000)" using r(2) by (intro f64_fraction [of 10]) simp_all
  moreover have "fdiv (float64_of_int ?k) (Fin 1000) = Fin (f64 (f64 (of_int ?k) / 1000))"
    unfolding r(1) using round64_pow2(1) [of "f64 (of_int ?k) / 1000" 63] r(2,3) by simp
  moreover have "costs os (Fin 0) \<noteq> NaN" using costs_not_NaN [OF assms, of "Fin 0"] by simp
  ultimately show ?thesis using True finite_ops_not_NaN(6) by (simp add: rated_def Let_def)
qed (simp add: rated_def Let_def scopeSnapshot_rates)

section \<open>Scores and states\<close>

lemma withDefaults_fields:
  "hm_MinSamples (withDefaults t) = (if hm_MinSamples t \<le> 0 then 5 else hm_MinSamples t)"
  "hm_TargetSuccessRate (withDefaults t) = (if fle (hm_TargetSuccessRate t) (Fin 0) then round64 (95 / 100) else hm_TargetSuccessRate t)"
  "hm_FloorSuccessRate (withDefaults t) = (if fle (hm_FloorSuccessRate t) (Fin 0) then round64 (85 / 100) else hm_FloorSuccessRate t)"
  "hm_TTFTGoodMS (withDefaults t) = (if fle (hm_TTFTGoodMS t) (Fin 0) then Fin 800 else hm_TTFTGoodMS t)"
  "hm_TTFTMaxMS (withDefaults t) = (if fle (hm_TTFTMaxMS t) (Fin 0) then Fin 4000 else hm_TTFTMaxMS t)"
  "hm_DurationGoodMS (withDefaults t) = (if fle (hm_DurationGoodMS t) (Fin 0) then Fin 4000 else hm_DurationGoodMS t)"
  "hm_DurationMaxMS (withDefaults t) = (if fle (hm_DurationMaxMS t) (Fin 0) then Fin 20000 else hm_DurationMaxMS t)"
  "hm_CostGoodPer1K (withDefaults t) = hm_CostGoodPer1K t"
  "hm_CostBadPer1K (withDefaults t) = (if fle (hm_CostBadPer1K t) (Fin 0) then Fin 20 else hm_CostBadPer1K t)"
  "hm_SevereMultiplier (withDefaults t) = (if fle (hm_SevereMultiplier t) (Fin 0) then Fin (3 / 2) else hm_SevereMultiplier t)"
  "hm_RateLimitUnhealthy (withDefaults t) = (if fle (hm_RateLimitUnhealthy t) (Fin 0) then Fin (1 / 2) else hm_RateLimitUnhealthy t)"
  by (simp_all add: withDefaults_def Let_def DefaultThresholds_def)

text \<open>Thresholds of finite numbers whose good reference points are better than the bad ones.\<close>

definition finite64 :: "float64 \<Rightarrow> bool" where
  "finite64 x \<longleftrightarrow> wf64 x \<and> \<not> IsNaN x \<and> \<not> IsInf x"

definition usable_thresholds :: "Thresholds \<Rightarrow> bool" where
  "usable_thresholds t \<longleftrightarrow> in64 (hm_MinSamples t) \<and>
     list_all finite64 [hm_FloorSuccessRate t, hm_TTFTGoodMS t, hm_TTFTMaxMS t, hm_DurationGoodMS t, hm_DurationMaxMS t,
       hm_CostGoodPer1K t, hm_CostBadPer1K t] \<and> fle (Fin 0) (hm_CostGoodPer1K t) \<and>
     flt (hm_TTFTGoodMS (withDefaults t)) (hm_TTFTMaxMS (withDefaults t)) \<and>
     flt (hm_DurationGoodMS (withDefaults t)) (hm_DurationMaxMS (withDefaults t))"

lemma finite64E: "finite64 x \<Longrightarrow> (\<And>a. x = Fin a \<Longrightarrow> wf64 (Fin a) \<Longrightarrow> P) \<Longrightarrow> P"
  by (cases x) (auto simp: finite64_def)

lemma finite64_Fin: "finite64 (Fin a) \<longleftrightarrow> wf64 (Fin a)"
  by (simp add: finite64_def)

lemma finite64_defaults:
  "finite64 (round64 (85 / 100))" "finite64 (Fin 800)" "finite64 (Fin 4000)" "finite64 (Fin 20000)" "finite64 (Fin 20)" "finite64 (Fin 0)"
  using wf64_default [of "85 / 100"] wf64_int [of 800] wf64_int [of 4000] wf64_int [of 20000] wf64_int [of 20] wf64_int [of 0]
  by (auto simp: finite64_def)

lemma usable_resolved:
  assumes "usable_thresholds t"
  shows "finite_thresholds (rst_Thresholds (penaltyStrategy (withDefaults t)))"
    "finite64 (hm_TTFTGoodMS (withDefaults t))" "flt (Fin 0) (hm_TTFTGoodMS (withDefaults t))" "finite64 (hm_TTFTMaxMS (withDefaults t))"
    "finite64 (hm_DurationGoodMS (withDefaults t))" "flt (Fin 0) (hm_DurationGoodMS (withDefaults t))" "finite64 (hm_DurationMaxMS (withDefaults t))"
    "finite64 (hm_CostBadPer1K (withDefaults t))"
proof -
  note u = assms [unfolded usable_thresholds_def list.pred_inject]
  have pos: "flt (Fin 0) (if fle x (Fin 0) then Fin d else x)" if "finite64 x" "0 < d" for x d
    using that by (elim finite64E) auto
  show F: "finite64 (hm_TTFTGoodMS (withDefaults t))" "finite64 (hm_TTFTMaxMS (withDefaults t))"
    "finite64 (hm_DurationGoodMS (withDefaults t))" "finite64 (hm_DurationMaxMS (withDefaults t))" "finite64 (hm_CostBadPer1K (withDefaults t))"
    using u by (simp_all add: withDefaults_fields finite64_defaults)
  show "flt (Fin 0) (hm_TTFTGoodMS (withDefaults t))" "flt (Fin 0) (hm_DurationGoodMS (withDefaults t))"
    unfolding withDefaults_fields by (rule pos, use u in simp, simp)+
  have "finite64 (hm_FloorSuccessRate (withDefaults t))" using u finite64_defaults(1) by (simp add: withDefaults_fields)
  then show "finite_thresholds (rst_Thresholds (penaltyStrategy (withDefaults t)))"
    using F u finite64_defaults(6)
    by (simp add: finite_thresholds_def penaltyStrategy_def finite64_def withDefaults_fields(1) in64_def)
qed

lemma latencyScore_between:
  "finite64 g \<Longrightarrow> finite64 b \<Longrightarrow> flt (Fin 0) g \<Longrightarrow> flt g b \<Longrightarrow> between lo hi p \<Longrightarrow> between 0 100 (latencyScore n p g b)"
  by (elim finite64E betweenE) (simp add: latencyScore_def linear_score_between)

lemma costScore_between:
  "finite64 g \<Longrightarrow> finite64 b \<Longrightarrow> fle (Fin 0) g \<Longrightarrow> c \<noteq> NaN \<Longrightarrow> between 0 100 (costScore n c g b)"
  by (elim finite64E) (auto simp: costScore_def not_le intro!: linear_score_between)

lemma penalty_between:
  assumes "finite_thresholds (rst_Thresholds s)" "wf_snapshot (cd_Snapshot c)"
  shows "between 0 100 (pe_Score (EvaluatePenalty s c))"
  using points_bounds by (simp add: EvaluatePenalty_score [OF assms] penalty_points_def Let_def)

lemma riskScore_between:
  assumes "0 \<le> a" "0 \<le> b" "a + b \<le> n" "n < 2 ^ 53" "list_all (between 0 1) (rates snap)"
  shows "between 0 100 (riskScore (float64_of_int n) snap a b)"
proof (cases "0 < n")
  case True
  have w: "wrap64 (a + b) = a + b" using assms by (intro wrap64_id) (simp add: in64_def)
  have s: "between 0 1 (fdiv (float64_of_int (a + b)) (float64_of_int n))" using assms True by (intro rate_between) simp_all
  have r: "between 0 1 (snap_RateLimitRate snap)" "between 0 1 (snap_TimeoutRate snap)" "between 0 1 (snap_QualityErrorRate snap)"
    using assms(5) by (simp_all add: rates_def)
  note M = between_int_ops(2) [OF s, of 100] between_int_ops(2) [OF r(1), of 40] between_int_ops(2) [OF r(2), of 40] between_int_ops(2) [OF r(3), of 20]
  have "between 0 (of_int (100 + 40 + 40 + 20)) (fadd (fadd (fadd (fmul (fdiv (float64_of_int (a + b)) (float64_of_int n)) (Fin 100))
      (fmul (snap_RateLimitRate snap) (Fin 40))) (fmul (snap_TimeoutRate snap) (Fin 40))) (fmul (snap_QualityErrorRate snap) (Fin 20)))"
    by (intro between_int_ops(1)) (use M in simp_all)
  then show ?thesis
    using True assms(4) float64_of_int_pos [of n] by (auto simp: riskScore_def Let_def w intro!: clamp_between)
next
  case False
  then have "n = 0" using assms by simp
  then show ?thesis by (simp add: riskScore_def float64_of_int_def round64_int [of 0, simplified])
qed

lemma stabilityScore_between:
  assumes "list_all (between 0 1) (rates snap)" "list_all (between 0 (2 ^ 1001)) (percentiles snap)"
  shows "between 0 100 (stabilityScore snap)"
proof -
  have "between 0 (2 ^ 1001) (snap_TTFTP50 snap)" "between 0 (2 ^ 1001) (snap_TTFTP95 snap)"
    using assms(2) unfolding percentiles_def by (simp_all only: list.pred_inject simp_thms)
  moreover have "between 0 100 (clamp (fmul (snap_QualitySuccessRate snap) (Fin 100)) (Fin 0) (Fin 100))"
    using assms(1) by (auto simp: rates_def intro!: clamp_between elim: betweenE)
  ultimately show ?thesis unfolding stabilityScore_def Let_def by (intro half_sum_between latencyJitterScore_between)
qed

text \<open>The scores do not touch the measured fields.\<close>

lemma scored_frame:
  "rates (scored th t m) = rates m" "percentiles (scored th t m) = percentiles m" "wf_snapshot (scored th t m) = wf_snapshot m"
  "snap_QualitySampleCount (scored th t m) = snap_QualitySampleCount m" "snap_SampleCount (scored th t m) = snap_SampleCount m"
  "snap_AuthFailureCount (scored th t m) = snap_AuthFailureCount m" "snap_UpstreamFailureCount (scored th t m) = snap_UpstreamFailureCount m"
  "snap_InsufficientBalanceCount (scored th t m) = snap_InsufficientBalanceCount m"
  "snap_HealthState (scored th t m) = healthState th m (snap_AuthFailureCount m) (snap_InsufficientBalanceCount m)"
  by (simp_all add: scored_def Let_def rates_def percentiles_def wf_snapshot_def healthState_def)

lemma scored_scores:
  assumes th: "usable_thresholds t" and th': "th = withDefaults t"
    and m: "wf_snapshot m" "list_all (between 0 1) (rates m)" "list_all (between 0 (2 ^ 1001)) (percentiles m)"
      "snap_EstimatedCostPer1KTokens m \<noteq> NaN"
    and c: "0 \<le> snap_AuthFailureCount m" "0 \<le> snap_InsufficientBalanceCount m"
      "snap_AuthFailureCount m + snap_InsufficientBalanceCount m \<le> ta_qualitySamples k" "ta_qualitySamples k < 2 ^ 53"
  shows "list_all (between 0 100) (scores (scored th k m))"
proof -
  note u = usable_resolved [OF th, folded th'] and th0 = th [unfolded usable_thresholds_def, folded th']
  have p: "between 0 (2 ^ 1001) (snap_TTFTP95 m)" "between 0 (2 ^ 1001) (snap_DurationP95 m)"
    using m(3) unfolding percentiles_def by (simp_all only: list.pred_inject simp_thms)
  have success: "snap_SuccessScore (scored th k m) = clamp (fmul (snap_QualitySuccessRate m) (Fin 100)) (Fin 0) (Fin 100)"
    and ttft: "snap_TTFTScore (scored th k m) = latencyScore (int (length (ta_ttft k))) (snap_TTFTP95 m) (hm_TTFTGoodMS th) (hm_TTFTMaxMS th)"
    and dur: "snap_DurationScore (scored th k m) = latencyScore (int (length (ta_dur k))) (snap_DurationP95 m) (hm_DurationGoodMS th) (hm_DurationMaxMS th)"
    and stab: "snap_StabilityScore (scored th k m) = stabilityScore m"
    and cost: "snap_CostScore (scored th k m) = costScore (ta_totalTokens k) (snap_EstimatedCostPer1KTokens m) (hm_CostGoodPer1K th) (hm_CostBadPer1K th)"
    and risk: "snap_RiskScore (scored th k m) =
      riskScore (float64_of_int (ta_qualitySamples k)) m (snap_AuthFailureCount m) (snap_InsufficientBalanceCount m)"
    and health: "snap_HealthScore (scored th k m) =
      clamp (fsub (snap_QualityScore (scored th k m)) (fmul (Fin (1 / 2)) (snap_RiskScore (scored th k m)))) (Fin 0) (Fin 100)"
    by (simp_all add: scored_def Let_def stabilityScore_def riskScore_def)
  have "\<exists>m'. snap_QualityScore (scored th k m) = pe_Score (EvaluatePenalty (penaltyStrategy th) (snapshotCandidate m')) \<and> wf_snapshot m'"
    using m(1) by (fastforce simp: scored_def Let_def wf_snapshot_def)
  then have Q: "between 0 100 (snap_QualityScore (scored th k m))"
    using penalty_between [OF u(1)] by (force simp: snapshotCandidate_def)
  have S: "between 0 100 (snap_SuccessScore (scored th k m))"
    unfolding success using m(2) by (auto simp: rates_def intro!: clamp_between elim: betweenE)
  have T: "between 0 100 (snap_TTFTScore (scored th k m))" "between 0 100 (snap_DurationScore (scored th k m))"
    unfolding ttft dur using u th0 p by (blast intro: latencyScore_between)+
  have C: "between 0 100 (snap_CostScore (scored th k m))"
    unfolding cost using u(8) th0 m(4) by (intro costScore_between) (simp_all add: th' withDefaults_fields)
  have R: "between 0 100 (snap_RiskScore (scored th k m))"
    unfolding risk by (rule riskScore_between [OF c m(2)])
  have "fsub (snap_QualityScore (scored th k m)) (fmul (Fin (1 / 2)) (snap_RiskScore (scored th k m))) \<noteq> NaN"
    using Q R by (elim betweenE) (simp add: finite_ops_not_NaN(4))
  then have H: "between 0 100 (snap_HealthScore (scored th k m))" unfolding health by (rule clamp_between) simp
  show ?thesis unfolding scores_def using Q S T C R H stabilityScore_between [OF m(2,3)] stab by simp
qed

section \<open>The order of the observations\<close>

text \<open>A sum of doubles depends on its order, and with it the two cost fields; nothing else does.\<close>

definition without_cost :: "ChannelHealthSnapshot \<Rightarrow> ChannelHealthSnapshot" where
  "without_cost snap = snap\<lparr>snap_EstimatedCostPer1KTokens := Fin 0, snap_CostScore := Fin 0\<rparr>"

lemma penalty_cong:
  assumes "snap_QualitySampleCount m = snap_QualitySampleCount m'" "snap_UpstreamErrorRate m = snap_UpstreamErrorRate m'"
    "snap_TTFTP95 m = snap_TTFTP95 m'" "snap_DurationP95 m = snap_DurationP95 m'"
  shows "pe_Score (EvaluatePenalty s (snapshotCandidate m)) = pe_Score (EvaluatePenalty s (snapshotCandidate m'))"
proof -
  have E: "pe_Score (EvaluatePenalty s c) = clamp (fsub (Fin 100) (pb_TotalPenalty (calculatePenalties (rs_thresholds (resolve s)) (cd_Snapshot c)
      (confidence (snap_QualitySampleCount (cd_Snapshot c)) (th_MinSamples (rs_thresholds (resolve s))))))) (Fin 0) (Fin 100)" for c
    by (simp add: EvaluatePenalty_def Let_def)
  show ?thesis unfolding E using assms by (simp add: snapshotCandidate_def calculatePenalties_def)
qed

lemma scored_eq:
  "scored th t m =
    (let Q = pe_Score (EvaluatePenalty (penaltyStrategy th) (snapshotCandidate m));
         R = riskScore (float64_of_int (ta_qualitySamples t)) m (snap_AuthFailureCount m) (snap_InsufficientBalanceCount m)
     in m\<lparr>snap_HealthScore := clamp (fsub Q (fmul (Fin (1 / 2)) R)) (Fin 0) (Fin 100), snap_QualityScore := Q,
       snap_SuccessScore := clamp (fmul (snap_QualitySuccessRate m) (Fin 100)) (Fin 0) (Fin 100),
       snap_TTFTScore := latencyScore (int (length (ta_ttft t))) (snap_TTFTP95 m) (hm_TTFTGoodMS th) (hm_TTFTMaxMS th),
       snap_DurationScore := latencyScore (int (length (ta_dur t))) (snap_DurationP95 m) (hm_DurationGoodMS th) (hm_DurationMaxMS th),
       snap_StabilityScore := stabilityScore m,
       snap_CostScore := costScore (ta_totalTokens t) (snap_EstimatedCostPer1KTokens m) (hm_CostGoodPer1K th) (hm_CostBadPer1K th),
       snap_RiskScore := R, snap_HealthState := healthState th m (snap_AuthFailureCount m) (snap_InsufficientBalanceCount m)\<rparr>)"
proof -
  have R: "riskScore x (m\<lparr>snap_SuccessScore := a, snap_TTFTScore := b, snap_DurationScore := c, snap_StabilityScore := d, snap_CostScore := e\<rparr>) u v =
    riskScore x m u v" for x a b c d e u v by (simp add: riskScore_def)
  have S: "stabilityScore (m\<lparr>snap_SuccessScore := a, snap_TTFTScore := b, snap_DurationScore := c\<rparr>) = stabilityScore m" for a b c
    by (simp add: stabilityScore_def)
  have P: "pe_Score (EvaluatePenalty (penaltyStrategy th) (snapshotCandidate (m\<lparr>snap_SuccessScore := a, snap_TTFTScore := b,
      snap_DurationScore := c, snap_StabilityScore := d, snap_CostScore := e, snap_RiskScore := f\<rparr>))) =
    pe_Score (EvaluatePenalty (penaltyStrategy th) (snapshotCandidate m))" for a b c d e f
    by (rule penalty_cong) simp_all
  show ?thesis unfolding scored_def Let_def by (simp add: R S P healthState_def)
qed

lemma scored_without_cost:
  assumes "length (ta_ttft t') = length (ta_ttft t)" "length (ta_dur t') = length (ta_dur t)" "ta_qualitySamples t' = ta_qualitySamples t"
  shows "without_cost (scored th t' (m\<lparr>snap_EstimatedCostPer1KTokens := c\<rparr>)) = without_cost (scored th t m)"
proof -
  have R: "riskScore x (m\<lparr>snap_EstimatedCostPer1KTokens := c\<rparr>) u v = riskScore x m u v" for x u v by (simp add: riskScore_def)
  have S: "stabilityScore (m\<lparr>snap_EstimatedCostPer1KTokens := c\<rparr>) = stabilityScore m" by (simp add: stabilityScore_def)
  have P: "pe_Score (EvaluatePenalty (penaltyStrategy th) (snapshotCandidate (m\<lparr>snap_EstimatedCostPer1KTokens := c\<rparr>))) =
    pe_Score (EvaluatePenalty (penaltyStrategy th) (snapshotCandidate m))" by (rule penalty_cong) simp_all
  show ?thesis unfolding scored_eq Let_def without_cost_def using assms by (simp add: R S P healthState_def)
qed

lemma latencies_mset: "mset xs = mset ys \<Longrightarrow> mset (latencies f xs) = mset (latencies f ys)"
  unfolding latencies_def by (metis mset_filter mset_map)

lemma tokens_mset: "mset xs = mset ys \<Longrightarrow> tokens xs = tokens ys"
proof -
  assume "mset xs = mset ys"
  then have "sum_mset (mset (map (\<lambda>o'. ob_InputTokens o' + ob_OutputTokens o') xs)) =
    sum_mset (mset (map (\<lambda>o'. ob_InputTokens o' + ob_OutputTokens o') ys))" unfolding mset_map by (rule arg_cong)
  then show ?thesis unfolding tokens_def sum_mset_sum_list .
qed

lemma measured_without_cost:
  assumes "\<And>q. percentile l q = percentile (ta_ttft t) q" "\<And>q. percentile l' q = percentile (ta_dur t) q"
  shows "measured n (t\<lparr>ta_ttft := l, ta_dur := l', ta_totalCost := c\<rparr>) snap =
    map_option (\<lambda>m. m\<lparr>snap_EstimatedCostPer1KTokens := (if 0 < ta_totalTokens t
      then fdiv c (fdiv (float64_of_int (ta_totalTokens t)) (Fin 1000)) else snap_EstimatedCostPer1KTokens m)\<rparr>) (measured n t snap)"
proof -
  have "withRates n (t\<lparr>ta_ttft := l, ta_dur := l', ta_totalCost := c\<rparr>) snap = withRates n t snap"
    by (simp add: withRates_def Let_def)
  then show ?thesis by (simp add: measured_def Let_def assms split: option.splits)
qed

lemma tally_of_mset:
  "mset xs = mset ys \<Longrightarrow> tally_of ys = (tally_of xs)
    \<lparr>ta_ttft := latencies ob_FirstTokenMS ys, ta_dur := latencies ob_TotalMS ys, ta_totalCost := costs ys (Fin 0)\<rparr>"
  by (simp add: tally_of_def occurs_mset [of xs ys] tokens_mset [of xs ys])

lemma AggregateScope_mset:
  assumes "mset xs = mset ys"
  shows "map_option without_cost (AggregateScope scope w xs t) = map_option without_cost (AggregateScope scope w ys t)"
proof -
  have len: "length xs = length ys" using assms by (metis size_mset)
  note L = latencies_mset [OF assms]
  note P = percentile_mset [OF L [symmetric]]
  let ?snap = "scopeSnapshot scope w (int (length ys))"
  have "map_option without_cost (map_option (scored (withDefaults t) (tally_of ys)) (measured (int (length ys)) (tally_of ys) ?snap)) =
    map_option without_cost (map_option (scored (withDefaults t) (tally_of xs)) (measured (int (length ys)) (tally_of xs) ?snap))"
    unfolding tally_of_mset [OF assms]
    by (subst measured_without_cost)
       (auto simp: tally_of_def P option.map_comp comp_def intro!: option.map_cong0 scored_without_cost mset_eq_length [OF L [symmetric]])
  moreover have "xs = [] \<longleftrightarrow> ys = []" using len by auto
  ultimately show ?thesis
    using len by (simp add: AggregateScope_def AggregateScope_loop_tally Let_def)
qed

section \<open>Properties\<close>

definition sample_thresholds :: Thresholds where
  "sample_thresholds = DefaultThresholds"

definition sample_observation :: ChannelObservation where
  "sample_observation = \<lparr>ob_ID = ''o1'', ob_ChannelID = ''c1'', ob_InstanceID = ''i1'', ob_PoolID = ''p1'', ob_Model = ''m'',
     ob_Capability = '''', ob_EndpointPath = '''', ob_Success = True, ob_StatusCode = 200, ob_ErrorType = ErrorNone,
     ob_FirstTokenMS = Fin 500, ob_TotalMS = Fin 3000, ob_InputTokens = 10, ob_OutputTokens = 20, ob_EstimatedCost = Fin 1,
     ob_Source = ObservationPassive, ob_ObservedAt = 1\<rparr>"

definition sample_scope :: ChannelHealthScope where
  "sample_scope = \<lparr>scp_ChannelID = ''c1'', scp_InstanceID = ''i1'', scp_PoolID = ''p1'', scp_Model = ''m'', scp_Capability = '''',
     scp_EndpointPath = ''''\<rparr>"

lemma sample_usable: "usable_thresholds sample_thresholds"
  using finite64_defaults by (simp add: usable_thresholds_def sample_thresholds_def withDefaults_def DefaultThresholds_def in64_def)

lemma sample_observation_ok: "observation_ok sample_observation"
  using wf64_int [of 500] wf64_int [of 3000] by (simp add: observation_ok_def latency_ok_def sample_observation_def)

text \<open>C37. The snapshot of a window is well typed: for usable observations and thresholds the
  aggregation does not panic, every rate is a number in [0, 1], every score in [0, 100], the
  percentiles are finite, the failure counts add up within the quality samples, these within
  the samples, and the verdict is one of the four a window can have.\<close>

theorem aggregated_snapshot_in_range:
  assumes th: "usable_thresholds t" and len: "int (length os) < 2 ^ 53" and ok: "list_all observation_ok os" and ne: "os \<noteq> []"
  shows "\<exists>snap. AggregateScope scope w os t = Some snap \<and>
    list_all (between 0 1) (rates snap) \<and> list_all (between 0 100) (scores snap) \<and>
    list_all (between 0 (2 ^ 1001)) (percentiles snap) \<and> wf_snapshot snap \<and>
    0 \<le> snap_UpstreamFailureCount snap \<and> 0 \<le> snap_AuthFailureCount snap \<and> 0 \<le> snap_InsufficientBalanceCount snap \<and>
    snap_UpstreamFailureCount snap + snap_AuthFailureCount snap + snap_InsufficientBalanceCount snap \<le> snap_QualitySampleCount snap \<and>
    snap_QualitySampleCount snap \<le> snap_SampleCount snap \<and> snap_SampleCount snap = int (length os) \<and>
    snap_HealthState snap \<in> {HealthUnknown, HealthHealthy, HealthDegraded, HealthUnhealthy}"
proof -
  obtain t50 t95 d50 d95 where A: "AggregateScope scope w os t =
      Some (scored (withDefaults t) (tally_of os) (rated os t50 t95 d50 d95 (scopeSnapshot scope w (int (length os)))))"
    and P: "list_all (\<lambda>v. between 0 (2 ^ 1001) v \<and> wf64 v) [t50, t95, d50, d95]"
    by (rule AggregateScope_rated [OF ne len ok])
  let ?m = "rated os t50 t95 d50 d95 (scopeSnapshot scope w (int (length os)))"
  have p: "list_all (between 0 (2 ^ 1001)) (percentiles ?m)"
    using P unfolding percentiles_def by (simp add: rated_def Let_def del: between.simps)
  note r = rated_rates [OF ne len, of t50 t95 d50 d95 scope w "int (length os)"]
  have n: "snap_AuthFailureCount ?m = occurs (failed_with ErrorAuth) os"
    "snap_InsufficientBalanceCount ?m = occurs (failed_with ErrorInsufficientBalance) os"
    "snap_UpstreamFailureCount ?m = occurs isUpstreamResponsibleFailure os"
    "snap_QualitySampleCount ?m = occurs qualityEligible os" "snap_SampleCount ?m = int (length os)"
    "ta_qualitySamples (tally_of os) = occurs qualityEligible os"
    by (simp_all add: rated_def Let_def tally_of_def scopeSnapshot_def)
  have q: "occurs qualityEligible os \<le> int (length os)" by (rule occurs_bounds)
  have "wf64 (snap_UpstreamErrorRate ?m)"
    using wf64_fdiv wf64_int [of 0] by (simp add: rated_def Let_def scopeSnapshot_rates)
  then have wf: "wf_snapshot ?m"
    using P q len occurs_bounds(1) [of qualityEligible os]
    unfolding wf_snapshot_def n by (simp add: rated_def Let_def in64_small [OF _ q len])
  have s: "list_all (between 0 100) (scores (scored (withDefaults t) (tally_of os) ?m))"
    by (rule scored_scores [OF th refl wf r p rated_cost [OF ok]], unfold n)
       (use occurs_bounds(1) failures_are_eligible(5) [of os] q len in auto)
  show ?thesis
    using A r p s wf n q occurs_bounds(1) eligible_partition [of os] occurs_bounds(1) [of ob_Success os]
    by (auto simp: scored_frame healthState_def)
qed

theorem aggregated_snapshot_in_range_witness:
  "\<exists>snap. AggregateScope sample_scope Window5m [sample_observation] sample_thresholds = Some snap \<and> list_all (between 0 100) (scores snap)"
  using aggregated_snapshot_in_range [OF sample_usable, of "[sample_observation]"] sample_observation_ok by auto

text \<open>The verdict on a window does not depend on the order in which its observations are
  listed: two listings of the same observations give the same snapshot, up to the average cost
  and its score, whose sum of doubles is rounded in the order of the listing.\<close>

theorem aggregate_ignores_order:
  assumes "mset xs = mset ys"
  shows "map_option (\<lambda>s. s\<lparr>snap_EstimatedCostPer1KTokens := Fin 0, snap_CostScore := Fin 0\<rparr>) (AggregateScope scope w xs t) =
         map_option (\<lambda>s. s\<lparr>snap_EstimatedCostPer1KTokens := Fin 0, snap_CostScore := Fin 0\<rparr>) (AggregateScope scope w ys t)"
  using AggregateScope_mset [OF assms] unfolding without_cost_def [abs_def] .

definition failed_observation :: ChannelObservation where
  "failed_observation = sample_observation\<lparr>ob_ID := ''o2'', ob_Success := False, ob_ErrorType := ErrorServer\<rparr>"

theorem aggregate_ignores_order_witness:
  "map_option snap_HealthState (AggregateScope sample_scope Window5m [sample_observation, failed_observation] sample_thresholds) =
   map_option snap_HealthState (AggregateScope sample_scope Window5m [failed_observation, sample_observation] sample_thresholds)"
  using arg_cong [OF aggregate_ignores_order [of "[sample_observation, failed_observation]" "[failed_observation, sample_observation]"
      sample_scope Window5m sample_thresholds], of "map_option snap_HealthState"]
  by (simp add: option.map_comp comp_def add_mset_commute)

lemma scored_HealthState:
  "snap_HealthState (scored th t m) = HealthUnhealthy \<Longrightarrow> snap_AuthFailureCount m = 0 \<Longrightarrow> snap_InsufficientBalanceCount m = 0 \<Longrightarrow>
   hm_MinSamples th \<le> snap_QualitySampleCount m \<and>
   (flt (snap_QualitySuccessRate m) (hm_FloorSuccessRate th) \<or> fle (hm_RateLimitUnhealthy th) (snap_RateLimitRate m) \<or>
    flt (fmul (hm_TTFTMaxMS th) (hm_SevereMultiplier th)) (snap_TTFTP95 m) \<or>
    flt (fmul (hm_DurationMaxMS th) (hm_SevereMultiplier th)) (snap_DurationP95 m))"
  by (auto simp: scored_frame healthState_def split: if_splits)

text \<open>A window half of which was rate limited is below the success floor.\<close>

lemma throttled_is_below_floor:
  assumes "fle (Fin (1 / 2)) (snap_RateLimitRate m)" "m = rated os t50 t95 d50 d95 (scopeSnapshot scope w n)" "int (length os) < 2 ^ 53"
  shows "flt (snap_QualitySuccessRate m) (round64 (85 / 100))"
proof -
  let ?n = "occurs qualityEligible os" and ?l = "occurs (failed_with ErrorRateLimit) os" and ?s = "occurs ob_Success os"
  have pos: "0 < ?n" using assms(1) by (rule contrapos_pp) (simp add: assms(2) rated_def Let_def scopeSnapshot_rates)
  have n: "?n < 2 ^ 53" using occurs_bounds(2) [of qualityEligible os] assms(3) by linarith
  note F = failures_are_eligible [of os]
  have R: "snap_RateLimitRate m = Fin (f64 (of_int ?l / of_int ?n))" "snap_QualitySuccessRate m = Fin (f64 (of_int ?s / of_int ?n))"
    using pos rate_between(1) [OF occurs_bounds(1) F(3) pos n] rate_between(1) [OF occurs_bounds(1) F(1) pos n]
    by (simp_all add: assms(2) rated_def Let_def)
  have "1 / 4 \<le> (of_int ?l / of_int ?n :: rat)"
  proof (rule ccontr)
    assume "\<not> ?thesis"
    then have "f64 (of_int ?l / of_int ?n) \<le> f64 (1 / 4)" by (intro f64_mono) simp
    also have "f64 (1 / 4) = 1 / 4" by (rule f64_exact [of _ 1 "- 2"]) (simp_all add: power_int_def power_one_over)
    finally show False using assms(1) R(1) by simp
  qed
  moreover have "(of_int ?l / of_int ?n + of_int ?s / of_int ?n :: rat) \<le> 1"
    using F(6) pos by (simp flip: add_divide_distrib of_int_add)
  ultimately have "f64 (of_int ?s / of_int ?n) \<le> f64 (3 / 4)" by (intro f64_mono) linarith
  also have "f64 (3 / 4) = 3 / 4" by (rule f64_exact [of _ 3 "- 2"]) (simp_all add: power_int_def power_one_over)
  also have "(3 / 4 :: rat) < 27 / 32" by simp
  also have "(27 / 32 :: rat) = f64 (27 / 32)"
    by (rule f64_exact [of _ 27 "- 5", symmetric]) (simp_all add: power_int_def power_one_over)
  also have "f64 (27 / 32) \<le> f64 (85 / 100)" by (rule f64_mono) simp
  finally show ?thesis using wf64_default(2) [of "85 / 100"] R(2) by simp
qed

text \<open>C38. The two health policies agree, with the default thresholds of either and fewer than
  \<open>2 ^ 53\<close> observations: a window that the aggregation calls unhealthy is excluded by the hard gate of
  the ranking, except that the gate does not look at the window's authentication and balance failures.
  A window with one of these that passes the gate is ejected by the penalty ranking when its snapshot
  belongs to an instance; \<open>auth_failure_passes_hardGate\<close> is such a window.\<close>

theorem unhealthy_is_gated:
  assumes "AggregateScope scope w os DefaultThresholds = Some (cd_Snapshot c)" "snap_HealthState (cd_Snapshot c) = HealthUnhealthy"
    and os: "int (length os) < 2 ^ 53" "list_all observation_ok os"
    and s: "rs_thresholds (resolve s) = defaultThresholds"
  shows "hardGate (resolve s) c \<noteq> None \<or>
    (0 < snap_AuthFailureCount (cd_Snapshot c) \<or> 0 < snap_InsufficientBalanceCount (cd_Snapshot c)) \<and>
    (snap_InstanceID (cd_Snapshot c) \<noteq> '''' \<longrightarrow> pe_Eject (EvaluatePenalty s c))"
proof -
  have th: "withDefaults DefaultThresholds = DefaultThresholds"
    by (simp add: withDefaults_def DefaultThresholds_def Let_def)
  have "snap_HealthState (scopeSnapshot scope w 0) = HealthUnknown" by (simp add: scopeSnapshot_def)
  then have ne: "os \<noteq> []" using assms(1,2) by (auto simp: AggregateScope_def Let_def)
  obtain t50 t95 d50 d95 where A: "AggregateScope scope w os DefaultThresholds =
      Some (scored DefaultThresholds (tally_of os) (rated os t50 t95 d50 d95 (scopeSnapshot scope w (int (length os)))))"
    using AggregateScope_rated [OF ne os, of scope w DefaultThresholds, unfolded th] by metis
  define m where "m = rated os t50 t95 d50 d95 (scopeSnapshot scope w (int (length os)))"
  have c: "cd_Snapshot c = scored DefaultThresholds (tally_of os) m" using A assms(1) by (simp add: m_def)
  have f: "snap_QualitySuccessRate (cd_Snapshot c) = snap_QualitySuccessRate m" "snap_TTFTP95 (cd_Snapshot c) = snap_TTFTP95 m"
    "snap_DurationP95 (cd_Snapshot c) = snap_DurationP95 m"
    using scored_frame(1,2) [of DefaultThresholds "tally_of os" m] by (simp_all add: c rates_def percentiles_def)
  show ?thesis
  proof (cases "0 < snap_AuthFailureCount (cd_Snapshot c) \<or> 0 < snap_InsufficientBalanceCount (cd_Snapshot c)")
    case True
    then have "snap_InstanceID (cd_Snapshot c) \<noteq> '''' \<Longrightarrow> fst (penaltyLifecycleGate (resolve s) c) \<noteq> None"
      by (auto simp: penaltyLifecycleGate_def Let_def)
    then show ?thesis using True by (simp add: EvaluatePenalty_Eject)
  next
    case False
    then have no: "snap_AuthFailureCount m = 0" "snap_InsufficientBalanceCount m = 0"
      using occurs_bounds(1) [of "failed_with ErrorAuth" os] occurs_bounds(1) [of "failed_with ErrorInsufficientBalance" os]
      unfolding c scored_frame by (simp_all add: m_def rated_def Let_def)
    have m: "round64 6000 = Fin 6000" "round64 30000 = Fin 30000"
      using round64_int [of 6000] round64_int [of 30000] by simp_all
    have big: "flt (Fin 0) x \<and> flt (Fin a) x" if "flt (Fin b) x" "0 < a" "a < b" for a b x using that by (cases x) auto
    have "hardGate (resolve s) c \<noteq> None"
      using scored_HealthState [OF assms(2) [unfolded c] no] throttled_is_below_floor [OF _ m_def os(1)] s
      unfolding c scored_frame hardGate_def Let_def f [unfolded c]
      by (auto simp: DefaultThresholds_def defaultThresholds_def m dest: big [of 6000 _ 4000] big [of 30000 _ 20000])
    then show ?thesis ..
  qed
qed

definition failed_window :: "ChannelObservation list" where
  "failed_window = replicate 5 failed_observation"

lemma failed_window_ok: "int (length failed_window) < 2 ^ 53" "list_all observation_ok failed_window" "failed_window \<noteq> []"
  using sample_observation_ok by (simp_all add: failed_window_def failed_observation_def observation_ok_def list_all_iff)

lemma failed_window_counts: "occurs qualityEligible failed_window = 5" "occurs ob_Success failed_window = 0"
  "occurs (failed_with ErrorAuth) failed_window = 0" "occurs (failed_with ErrorInsufficientBalance) failed_window = 0"
  by (simp_all add: failed_window_def failed_observation_def qualityEligible_def failed_with_def numeral_eq_Suc)

lemma failed_window_unhealthy:
  obtains snap where "AggregateScope sample_scope Window5m failed_window DefaultThresholds = Some snap"
    "snap_HealthState snap = HealthUnhealthy" "snap_AuthFailureCount snap = 0" "snap_InsufficientBalanceCount snap = 0"
proof -
  obtain t50 t95 d50 d95 where A: "AggregateScope sample_scope Window5m failed_window DefaultThresholds =
      Some (scored (withDefaults DefaultThresholds) (tally_of failed_window)
        (rated failed_window t50 t95 d50 d95 (scopeSnapshot sample_scope Window5m (int (length failed_window)))))"
    by (rule AggregateScope_rated [OF failed_window_ok(3,1,2)])
  have "0 < f64 (85 / 100)" by (rule f64_fraction [of 1]) simp_all
  then have "flt (Fin 0) (round64 (85 / 100))" using wf64_default(2) [of "85 / 100"] by simp
  moreover have "fdiv (float64_of_int 0) (float64_of_int 5) = Fin 0" using rate_between(1) [of 0 5] by simp
  ultimately show thesis
    by (intro that [OF A])
       (simp_all add: scored_frame healthState_def rated_def Let_def failed_window_counts withDefaults_fields, simp add: DefaultThresholds_def)
qed

text \<open>The aggregation of a window that recorded no latencies.\<close>

lemma AggregateScope_untimed:
  assumes "os \<noteq> []" "int (length os) < 2 ^ 53"
    and "list_all (\<lambda>ob. ob_FirstTokenMS ob = Fin 0 \<and> ob_TotalMS ob = Fin 0) os"
  shows "AggregateScope scope w os t = Some (scored (withDefaults t) (tally_of os)
    (rated os (Fin 0) (Fin 0) (Fin 0) (Fin 0) (scopeSnapshot scope w (int (length os)))))"
proof -
  have "latencies ob_FirstTokenMS os = []" "latencies ob_TotalMS os = []"
    using assms(3) by (auto simp: latencies_def list_all_iff filter_empty_conv)
  then have "measured (int (length os)) (tally_of os) snap = Some (rated os (Fin 0) (Fin 0) (Fin 0) (Fin 0) snap)" for snap
    by (intro measured_rated [OF assms(2)]) (simp_all add: percentile_def)
  then show ?thesis using assms(1) by (simp add: AggregateScope_def AggregateScope_loop_tally Let_def)
qed

definition untimed_success :: ChannelObservation where
  "untimed_success = sample_observation\<lparr>ob_FirstTokenMS := Fin 0, ob_TotalMS := Fin 0\<rparr>"

definition auth_window :: "ChannelObservation list" where
  "auth_window = untimed_success\<lparr>ob_Success := False, ob_ErrorType := ErrorAuth\<rparr> # replicate 9 untimed_success"

definition auth_snapshot :: ChannelHealthSnapshot where
  "auth_snapshot = scored DefaultThresholds (tally_of auth_window)
     (rated auth_window (Fin 0) (Fin 0) (Fin 0) (Fin 0) (scopeSnapshot sample_scope Window5m 10))"

lemma auth_window_snapshot:
  "AggregateScope sample_scope Window5m auth_window DefaultThresholds = Some auth_snapshot"
  "int (length auth_window) < 2 ^ 53" "list_all observation_ok auth_window"
proof -
  have "withDefaults DefaultThresholds = DefaultThresholds" by (simp add: withDefaults_def DefaultThresholds_def Let_def)
  moreover have "auth_window \<noteq> []" "length auth_window = 10"
    "list_all (\<lambda>ob. ob_FirstTokenMS ob = Fin 0 \<and> ob_TotalMS ob = Fin 0) auth_window"
    by (simp_all add: auth_window_def untimed_success_def list_all_iff)
  ultimately show "AggregateScope sample_scope Window5m auth_window DefaultThresholds = Some auth_snapshot"
    using AggregateScope_untimed [of auth_window sample_scope Window5m DefaultThresholds] by (simp add: auth_snapshot_def)
  show "int (length auth_window) < 2 ^ 53" "list_all observation_ok auth_window"
    using sample_observation_ok wf64_int [of 0]
    by (simp_all add: auth_window_def untimed_success_def observation_ok_def latency_ok_def sample_observation_def list_all_iff)
qed

text \<open>One authentication failure among nine successes: the aggregation calls the window unhealthy and
  the hard gate lets it pass, unless the candidate itself is marked.\<close>

lemma auth_failure_passes_hardGate:
  "snap_HealthState auth_snapshot = HealthUnhealthy" "snap_InstanceID auth_snapshot = ''i1''"
  "hardGate (resolve sample_strategy) (good_candidate\<lparr>cd_Snapshot := auth_snapshot\<rparr>) = None"
proof -
  let ?m = "rated auth_window (Fin 0) (Fin 0) (Fin 0) (Fin 0) (scopeSnapshot sample_scope Window5m 10)"
  have n: "occurs qualityEligible auth_window = 10" "occurs ob_Success auth_window = 9"
    "occurs (failed_with ErrorAuth) auth_window = 1"
    by (simp_all add: auth_window_def untimed_success_def sample_observation_def qualityEligible_def failed_with_def numeral_eq_Suc)
  have m: "snap_QualitySampleCount ?m = 10" "snap_AuthFailureCount ?m = 1"
    "snap_QualitySuccessRate ?m = fdiv (float64_of_int 9) (float64_of_int 10)"
    "snap_TTFTP95 ?m = Fin 0" "snap_DurationP95 ?m = Fin 0" "snap_InstanceID ?m = ''i1''"
    by (simp_all add: rated_def Let_def n scopeSnapshot_def sample_scope_def)
  have q: "fdiv (float64_of_int 9) (float64_of_int 10) = Fin (f64 (9 / 10))" using rate_between(1) [of 9 10] by simp
  have "f64 (85 / 100) \<le> f64 (9 / 10)" by (rule f64_mono) simp
  then have floor: "\<not> flt (Fin (f64 (9 / 10))) (round64 (85 / 100))" using wf64_default(2) [of "85 / 100"] by simp
  have r: "rs_thresholds (resolve sample_strategy) = defaultThresholds"
    by (simp add: resolve_def sample_strategy_def defaultThresholds_def Let_def)
  have f: "snap_QualitySuccessRate auth_snapshot = snap_QualitySuccessRate ?m" "snap_TTFTP95 auth_snapshot = snap_TTFTP95 ?m"
    "snap_DurationP95 auth_snapshot = snap_DurationP95 ?m"
    using scored_frame(1,2) [of DefaultThresholds "tally_of auth_window" ?m] by (simp_all add: auth_snapshot_def rates_def percentiles_def)
  show "snap_HealthState auth_snapshot = HealthUnhealthy"
    unfolding auth_snapshot_def scored_frame by (simp add: healthState_def m DefaultThresholds_def)
  show "snap_InstanceID auth_snapshot = ''i1''" unfolding auth_snapshot_def scored_eq Let_def using m by simp
  show "hardGate (resolve sample_strategy) (good_candidate\<lparr>cd_Snapshot := auth_snapshot\<rparr>) = None"
    using floor unfolding hardGate_def r Let_def by (simp add: f m q good_candidate_def sample_upstream_def defaultThresholds_def)
qed

theorem unhealthy_is_gated_witness:
  "(\<exists>snap. AggregateScope sample_scope Window5m failed_window DefaultThresholds = Some snap \<and>
     hardGate (resolve sample_strategy) (good_candidate\<lparr>cd_Snapshot := snap\<rparr>) \<noteq> None) \<and>
   hardGate (resolve sample_strategy) (good_candidate\<lparr>cd_Snapshot := auth_snapshot\<rparr>) = None \<and>
   pe_Eject (EvaluatePenalty sample_strategy (good_candidate\<lparr>cd_Snapshot := auth_snapshot\<rparr>))"
proof -
  obtain snap where s: "AggregateScope sample_scope Window5m failed_window DefaultThresholds = Some snap"
    "snap_HealthState snap = HealthUnhealthy" "snap_AuthFailureCount snap = 0" "snap_InsufficientBalanceCount snap = 0"
    by (rule failed_window_unhealthy)
  have r: "rs_thresholds (resolve sample_strategy) = defaultThresholds"
    by (simp add: resolve_def sample_strategy_def defaultThresholds_def Let_def)
  have "hardGate (resolve sample_strategy) (good_candidate\<lparr>cd_Snapshot := snap\<rparr>) \<noteq> None"
    using unhealthy_is_gated [of sample_scope Window5m failed_window "good_candidate\<lparr>cd_Snapshot := snap\<rparr>" sample_strategy]
      s r failed_window_ok by auto
  moreover have "pe_Eject (EvaluatePenalty sample_strategy (good_candidate\<lparr>cd_Snapshot := auth_snapshot\<rparr>))"
    using unhealthy_is_gated [of sample_scope Window5m auth_window "good_candidate\<lparr>cd_Snapshot := auth_snapshot\<rparr>" sample_strategy]
      r auth_window_snapshot auth_failure_passes_hardGate by auto
  ultimately show ?thesis using s(1) auth_failure_passes_hardGate(3) by blast
qed

text \<open>The latency score has no guard for reference points out of order, unlike the cost score. With
  an override of the ceiling below the default of the good mark, a fast channel scores 0 and a
  slow one 100; with equal marks the score of a channel at the mark is NaN.\<close>

lemma latencyScore_inverted:
  "hm_TTFTGoodMS (withDefaults (sample_thresholds\<lparr>hm_TTFTGoodMS := Fin 0, hm_TTFTMaxMS := Fin 500\<rparr>)) = Fin 800"
  "latencyScore 1 (Fin 100) (Fin 800) (Fin 500) = Fin 0" "latencyScore 1 (Fin 900) (Fin 800) (Fin 500) = Fin 100"
  "latencyScore 1 (Fin 4000) (Fin 4000) (Fin 4000) = NaN"
proof -
  have f: "f64 (- (400 / 3)) \<le> 0" "100 < f64 (400 / 3)"
    using f64_sign(2) [of "- (400 / 3)"] int_le_f64 [of 133 "400 / 3"] by simp_all
  have r: "round64 (- (400 / 3)) = Fin (f64 (- (400 / 3)))" "round64 (400 / 3) = Fin (f64 (400 / 3))"
    by (rule round64_Fin [of _ 200]; simp)+
  note e = round64_int [of "- 300", simplified] round64_int [of 400, simplified] round64_int [of 40000, simplified]
    round64_int [of "- 400", simplified] round64_int [of "- 40000", simplified] round64_int [of 0, simplified]
  show "hm_TTFTGoodMS (withDefaults (sample_thresholds\<lparr>hm_TTFTGoodMS := Fin 0, hm_TTFTMaxMS := Fin 500\<rparr>)) = Fin 800"
    by (simp add: withDefaults_fields)
  show "latencyScore 1 (Fin 100) (Fin 800) (Fin 500) = Fin 0"
    using f(1) by (auto simp: latencyScore_def fsub_def e r clamp_Fin)
  show "latencyScore 1 (Fin 900) (Fin 800) (Fin 500) = Fin 100"
    using f(2) by (simp add: latencyScore_def fsub_def e r clamp_Fin)
  show "latencyScore 1 (Fin 4000) (Fin 4000) (Fin 4000) = NaN"
    by (simp add: latencyScore_def fsub_def e clamp_def of_sign_def)
qed

text \<open>The sum of the costs does depend on the order: small costs vanish beside a large one.\<close>

definition costing :: "rat \<Rightarrow> ChannelObservation" where
  "costing c = sample_observation\<lparr>ob_EstimatedCost := Fin c\<rparr>"

lemma costs_depend_on_order:
  "costs [costing (2 ^ 53), costing 1, costing 1] (Fin 0) \<noteq> costs [costing 1, costing 1, costing (2 ^ 53)] (Fin 0)"
proof -
  let ?x = "9007199254740993 :: rat"
  have "(2::rat) powi 53 < 2 powi (f64_exp ?x + 1)" "(2::rat) powi f64_exp ?x < 2 powi 54"
    using f64_exp_bounds [of ?x] by simp_all
  then have "f64_exp ?x = 53" unfolding powi_two_less_iff by simp
  then have "f64 ?x = of_int (round_half_even (?x / 2)) * 2" by (simp add: f64_def f64_quantum_def Let_def)
  moreover have "\<lfloor>?x / 2\<rfloor> = 4503599627370496" by (simp add: floor_unique)
  then have "round_half_even (?x / 2) = 4503599627370496" by (simp add: round_half_even_def)
  ultimately have "f64 ?x = 9007199254740992" by simp
  then have a: "round64 ?x = Fin 9007199254740992" by (simp add: round64_def)
  have "f64 9007199254740994 = 9007199254740994" by (rule f64_exact [of _ 4503599627370497 1]) simp_all
  then have b: "round64 9007199254740994 = Fin 9007199254740994" by (simp add: round64_def)
  have c: "round64 9007199254740992 = Fin 9007199254740992" using f64_pow2 [of 53] by (simp add: round64_def)
  show ?thesis
    using a b c round64_int [of 1] round64_int [of 2] by (simp add: costs_def costing_def)
qed

end
