(* ===== verification/Health_Store.thy ===== *)
theory Health_Store
  imports Health_Aggregate
begin

text \<open>
  The health tables of the store and the service over them: \<open>memory_health.go\<close>, the fact
  versions and their lineage (\<open>memory_upstream_intelligence.go\<close>,
  \<open>memory_upstream_fact_lineage.go\<close>, \<open>upstream_recommendation_inputs.go\<close>), and \<open>service.go\<close> and
  the sweep of \<open>runner.go\<close> in \<open>app/e2m-core/internal/healthmetrics\<close>.

  A read returns its error or its rows. A service operation makes several store calls, each
  under the mutex on its own: \<open>calls\<close> gives what \<open>ctx.Err()\<close> and the store's clock yield at each
  of them, so that a context may be cancelled between any two.
\<close>

section \<open>Data\<close>

record upstreamChannelAllocation =
  ca_UserID :: int64
  ca_SourceID :: string
  ca_FirstPlanID :: string
  ca_CreatedAt :: time

record UpstreamIntelligenceFactVersion =
  fv_UserID :: int64
  fv_FactVersion :: int64
  fv_UpdatedAt :: time

datatype UpstreamIntelligenceFactMutationKind =
    FactMutationQuality
  | FactMutationCollection
  | FactMutationLink
  | FactMutationSource
  | FactMutationRetention
  | FactMutationUnknown
  | FactMutationOther string

record UpstreamIntelligenceFactMutation =
  fm_UserID :: int64
  fm_FactVersion :: int64
  fm_Kind :: UpstreamIntelligenceFactMutationKind
  fm_EvidenceID :: string
  fm_CreatedAt :: time

record QualityOnlyFactAdvanceProof =
  fp_UserID :: int64
  fp_BaselineFactVersion :: int64
  fp_CurrentFactVersion :: int64
  fp_LineageWatermark :: int64
  fp_Mutations :: "UpstreamIntelligenceFactMutation list"
  fp_Complete :: bool

record ChannelObservationFilter =
  of_ChannelID :: string
  of_InstanceID :: string
  of_PoolID :: string
  of_Model :: string
  of_Capability :: string
  of_EndpointPath :: string
  of_Source :: ObservationSource
  of_Since :: time
  of_Until :: time
  of_Limit :: int64
  of_ExactScope :: bool

record ChannelHealthSnapshotFilter =
  sf_ChannelID :: string
  sf_InstanceID :: string
  sf_PoolID :: string
  sf_Model :: string
  sf_Capability :: string
  sf_EndpointPath :: string
  sf_Window :: HealthWindow
  sf_BucketStart :: time
  sf_Since :: time
  sf_Limit :: int64
  sf_ExactScope :: bool
  sf_IncludeHistory :: bool

text \<open>The health fields of \<open>MemoryStore\<close>, beside the fields of the other components.\<close>

record HealthStore =
  base :: MemoryStore
  channelObs :: "ChannelObservation list"
  channelSnapshots :: "ChannelHealthSnapshot list"
  channelAllocations :: "(string \<times> upstreamChannelAllocation) list"
  upstreamIntelVersions :: "(int64 \<times> UpstreamIntelligenceFactVersion) list"
  upstreamIntelFactMutations :: "(int64 \<times> UpstreamIntelligenceFactMutation list) list"
  upstreamIntelLineageWatermarks :: "(int64 \<times> int64) list"

definition healthID :: "string \<Rightarrow> HealthStore \<Rightarrow> string \<times> HealthStore" where
  "healthID prefix s = (let (i, b) = nextID prefix (base s) in (i, s\<lparr>base := b\<rparr>))"

abbreviation (input) Microsecond :: duration where "Microsecond \<equiv> 1000"

section \<open>Observations\<close>

text \<open>\<open>reflect.DeepEqual\<close> compares floats with \<open>==\<close>, so a NaN differs from itself.\<close>

definition sameChannelObservation :: "ChannelObservation \<Rightarrow> ChannelObservation \<Rightarrow> bool" where
  "sameChannelObservation existing retry =
     (let retry = retry\<lparr>ob_ID := ob_ID existing\<rparr>;
          retry = (if ob_Source retry = ObservationSourceOther '''' then retry\<lparr>ob_Source := ob_Source existing\<rparr> else retry);
          existing = existing\<lparr>ob_ObservedAt := time_Truncate (ob_ObservedAt existing) Microsecond\<rparr>;
          retry = (if IsZero (ob_ObservedAt retry) then retry\<lparr>ob_ObservedAt := ob_ObservedAt existing\<rparr>
                   else retry\<lparr>ob_ObservedAt := time_Truncate (ob_ObservedAt retry) Microsecond\<rparr>)
      in existing = retry \<and> list_all (\<lambda>x. \<not> IsNaN x) [ob_FirstTokenMS retry, ob_TotalMS retry, ob_EstimatedCost retry])"

definition AppendChannelObservation ::
  "clock \<Rightarrow> ctx \<Rightarrow> ChannelObservation \<Rightarrow> HealthStore \<Rightarrow> (store_error + ChannelObservation) \<times> HealthStore" where
  "AppendChannelObservation nw c obs s =
     (case c of Some e \<Rightarrow> (Inl (ErrContext e), s) | None \<Rightarrow>
      case (if ob_ID obs \<noteq> '''' then find (\<lambda>x. ob_ID x = ob_ID obs) (channelObs s) else None) of
        Some existing \<Rightarrow> (if sameChannelObservation existing obs then Inr existing else Inl ErrConflict, s)
      | None \<Rightarrow>
          let obs = (if ob_Source obs = ObservationSourceOther '''' then obs\<lparr>ob_Source := ObservationPassive\<rparr> else obs);
              obs = (if IsZero (ob_ObservedAt obs) then obs\<lparr>ob_ObservedAt := nw 0\<rparr>
                     else obs\<lparr>ob_ObservedAt := time_Truncate (ob_ObservedAt obs) Microsecond\<rparr>);
              (obs, s) = (if ob_ID obs = '''' then (let (i, s) = healthID ''chobs'' s in (obs\<lparr>ob_ID := i\<rparr>, s)) else (obs, s))
          in (Inr obs, s\<lparr>channelObs := channelObs s @ [obs]\<rparr>))"

definition observationMatches :: "ChannelObservationFilter \<Rightarrow> ChannelObservation \<Rightarrow> bool" where
  "observationMatches f o' \<longleftrightarrow>
     \<not> ((of_ExactScope f \<or> of_ChannelID f \<noteq> '''') \<and> ob_ChannelID o' \<noteq> of_ChannelID f) \<and>
     \<not> ((of_ExactScope f \<or> of_InstanceID f \<noteq> '''') \<and> ob_InstanceID o' \<noteq> of_InstanceID f) \<and>
     \<not> (of_PoolID f \<noteq> '''' \<and> ob_PoolID o' \<noteq> of_PoolID f) \<and>
     \<not> ((of_ExactScope f \<or> of_Model f \<noteq> '''') \<and> ob_Model o' \<noteq> of_Model f) \<and>
     \<not> ((of_ExactScope f \<or> of_Capability f \<noteq> '''') \<and> ob_Capability o' \<noteq> of_Capability f) \<and>
     \<not> ((of_ExactScope f \<or> of_EndpointPath f \<noteq> '''') \<and> ob_EndpointPath o' \<noteq> of_EndpointPath f) \<and>
     \<not> (of_Source f \<noteq> ObservationSourceOther '''' \<and> ob_Source o' \<noteq> of_Source f) \<and>
     \<not> (\<not> IsZero (of_Since f) \<and> ob_ObservedAt o' < of_Since f) \<and>
     \<not> (\<not> IsZero (of_Until f) \<and> of_Until f < ob_ObservedAt o')"

definition limited :: "int64 \<Rightarrow> 'a list \<Rightarrow> 'a list" where
  "limited n xs = (if 0 < n \<and> n < int (length xs) then take (nat n) xs else xs)"

definition ListChannelObservations ::
  "ctx \<Rightarrow> ChannelObservationFilter \<Rightarrow> HealthStore \<Rightarrow> store_error + ChannelObservation list" where
  "ListChannelObservations c f s =
     (case c of Some e \<Rightarrow> Inl (ErrContext e) | None \<Rightarrow>
      Inr (limited (of_Limit f) (go_sort (\<lambda>x y. ob_ObservedAt y < ob_ObservedAt x) (filter (observationMatches f) (channelObs s)))))"

section \<open>Fact versions\<close>

definition normalizeUpstreamTime :: "time \<Rightarrow> time" where
  "normalizeUpstreamTime t = (if IsZero t then t else time_Truncate t Microsecond)"

definition currentFactVersion :: "HealthStore \<Rightarrow> int64 \<Rightarrow> UpstreamIntelligenceFactVersion" where
  "currentFactVersion s u = (case map_of (upstreamIntelVersions s) u of Some v \<Rightarrow> v
     | None \<Rightarrow> \<lparr>fv_UserID = 0, fv_FactVersion = 0, fv_UpdatedAt = 0\<rparr>)"

definition factMutations :: "HealthStore \<Rightarrow> int64 \<Rightarrow> UpstreamIntelligenceFactMutation list" where
  "factMutations s u = (case map_of (upstreamIntelFactMutations s) u of Some l \<Rightarrow> l | None \<Rightarrow> [])"

definition lineageWatermark :: "HealthStore \<Rightarrow> int64 \<Rightarrow> int64" where
  "lineageWatermark s u = (case map_of (upstreamIntelLineageWatermarks s) u of Some v \<Rightarrow> v | None \<Rightarrow> 0)"

definition bumpUpstreamIntelligenceFactVersionLocked ::
  "int64 \<Rightarrow> time \<Rightarrow> UpstreamIntelligenceFactMutationKind \<Rightarrow> string \<Rightarrow> HealthStore \<Rightarrow> HealthStore" where
  "bumpUpstreamIntelligenceFactVersionLocked u t kind evidenceID s =
     (let version = currentFactVersion s u;
          s = (if map_of (upstreamIntelLineageWatermarks s) u = None
               then s\<lparr>upstreamIntelLineageWatermarks := AList.update u (fv_FactVersion version) (upstreamIntelLineageWatermarks s)\<rparr>
               else s);
          version = version\<lparr>fv_UserID := u, fv_FactVersion := wrap64 (fv_FactVersion version + 1),
                      fv_UpdatedAt := normalizeUpstreamTime t\<rparr>;
          s = s\<lparr>upstreamIntelVersions := AList.update u version (upstreamIntelVersions s)\<rparr>
      in s\<lparr>upstreamIntelFactMutations := AList.update u
            (factMutations s u @ [\<lparr>fm_UserID = u, fm_FactVersion = fv_FactVersion version, fm_Kind = kind, fm_EvidenceID = evidenceID,
               fm_CreatedAt = fv_UpdatedAt version\<rparr>]) (upstreamIntelFactMutations s)\<rparr>)"

fun factAdvance_loop ::
  "int64 \<Rightarrow> int64 \<Rightarrow> int64 \<Rightarrow> UpstreamIntelligenceFactMutation list \<Rightarrow> int64 \<Rightarrow> QualityOnlyFactAdvanceProof \<Rightarrow> QualityOnlyFactAdvanceProof" where
  "factAdvance_loop u baseline current [] expected proof =
     proof\<lparr>fp_Complete := (expected = wrap64 (current + 1) \<and> int (length (fp_Mutations proof)) = wrap64 (current - baseline))\<rparr>"
| "factAdvance_loop u baseline current (m # ms) expected proof =
     (if fm_FactVersion m \<le> baseline then factAdvance_loop u baseline current ms expected proof
      else if current < fm_FactVersion m \<or> fm_UserID m \<noteq> u \<or> fm_FactVersion m \<noteq> expected then proof
      else factAdvance_loop u baseline current ms (wrap64 (expected + 1)) (proof\<lparr>fp_Mutations := fp_Mutations proof @ [m]\<rparr>))"

definition memoryQualityOnlyFactAdvanceProof :: "int64 \<Rightarrow> int64 \<Rightarrow> int64 \<Rightarrow> HealthStore \<Rightarrow> QualityOnlyFactAdvanceProof" where
  "memoryQualityOnlyFactAdvanceProof u baseline current s =
     (let proof = \<lparr>fp_UserID = u, fp_BaselineFactVersion = baseline, fp_CurrentFactVersion = current,
            fp_LineageWatermark = lineageWatermark s u, fp_Mutations = [], fp_Complete = False\<rparr>
      in if u \<le> 0 \<or> baseline < fp_LineageWatermark proof \<or> current \<le> baseline then proof
         else factAdvance_loop u baseline current (factMutations s u) (wrap64 (baseline + 1)) proof)"

fun validAdvance_loop :: "int64 \<Rightarrow> int64 \<Rightarrow> time \<Rightarrow> UpstreamIntelligenceFactMutation list \<Rightarrow> int64 \<Rightarrow> bool" where
  "validAdvance_loop u expected previous [] current = (expected = current)"
| "validAdvance_loop u expected previous (m # ms) current =
     (let expected = wrap64 (expected + 1) in
      if fm_UserID m \<noteq> u \<or> fm_FactVersion m \<noteq> expected \<or> fm_Kind m \<noteq> FactMutationQuality \<or> TrimSpace (fm_EvidenceID m) = '''' \<or>
         IsZero (fm_CreatedAt m) \<or> (\<not> IsZero previous \<and> fm_CreatedAt m < previous)
      then False
      else validAdvance_loop u expected (fm_CreatedAt m) ms current)"

definition ValidQualityOnlyFactAdvanceProof :: "QualityOnlyFactAdvanceProof \<Rightarrow> int64 \<Rightarrow> int64 \<Rightarrow> int64 \<Rightarrow> bool" where
  "ValidQualityOnlyFactAdvanceProof v u baseline current =
     (if \<not> fp_Complete v \<or> u \<le> 0 \<or> fp_UserID v \<noteq> u \<or> baseline \<le> 0 \<or> current \<le> baseline \<or>
         fp_BaselineFactVersion v \<noteq> baseline \<or> fp_CurrentFactVersion v \<noteq> current \<or>
         fp_LineageWatermark v < 0 \<or> baseline < fp_LineageWatermark v \<or>
         int (length (fp_Mutations v)) \<noteq> wrap64 (current - baseline)
      then False
      else validAdvance_loop u baseline 0 (fp_Mutations v) current)"

section \<open>Snapshots\<close>

definition normalizeChannelHealthSnapshot :: "ChannelHealthSnapshot \<Rightarrow> time \<Rightarrow> ChannelHealthSnapshot \<times> bool" where
  "normalizeChannelHealthSnapshot snap defaultNow =
     (let createdAtDefaulted = IsZero (snap_CreatedAt snap);
          snap = (if createdAtDefaulted then snap\<lparr>snap_CreatedAt := defaultNow\<rparr> else snap);
          snap = snap\<lparr>snap_CreatedAt := time_Truncate (snap_CreatedAt snap) Microsecond\<rparr>;
          snap = (if IsZero (snap_BucketStart snap) then snap\<lparr>snap_BucketStart := time_Truncate (snap_CreatedAt snap) Minute\<rparr>
                  else snap\<lparr>snap_BucketStart := time_Truncate (snap_BucketStart snap) Microsecond\<rparr>)
      in (snap, createdAtDefaulted))"

definition sameChannelHealthSnapshotScopeBucket :: "ChannelHealthSnapshot \<Rightarrow> ChannelHealthSnapshot \<Rightarrow> bool" where
  "sameChannelHealthSnapshotScopeBucket a b \<longleftrightarrow>
     snap_ChannelID a = snap_ChannelID b \<and> snap_InstanceID a = snap_InstanceID b \<and> snap_Model a = snap_Model b \<and>
     snap_Capability a = snap_Capability b \<and> snap_EndpointPath a = snap_EndpointPath b \<and> snap_Window a = snap_Window b \<and>
     snap_BucketStart a = snap_BucketStart b"

definition sameChannelHealthSnapshot :: "ChannelHealthSnapshot \<Rightarrow> ChannelHealthSnapshot \<Rightarrow> bool \<Rightarrow> bool" where
  "sameChannelHealthSnapshot existing retry retryCreatedAtDefaulted =
     (let retry = retry\<lparr>snap_ID := snap_ID existing\<rparr>;
          existing = existing\<lparr>snap_CreatedAt := time_Truncate (snap_CreatedAt existing) Microsecond,
            snap_BucketStart := time_Truncate (snap_BucketStart existing) Microsecond\<rparr>;
          retry = (if retryCreatedAtDefaulted then retry\<lparr>snap_CreatedAt := snap_CreatedAt existing\<rparr>
                   else retry\<lparr>snap_CreatedAt := time_Truncate (snap_CreatedAt retry) Microsecond\<rparr>);
          retry = retry\<lparr>snap_BucketStart := time_Truncate (snap_BucketStart retry) Microsecond\<rparr>
      in existing = retry \<and> list_all (\<lambda>x. \<not> IsNaN x) (rates retry @ percentiles retry @ scores retry @ [snap_EstimatedCostPer1KTokens retry]))"

definition bumpUpstreamIntelligenceVersionForQualitySnapshotLocked :: "string \<Rightarrow> string \<Rightarrow> time \<Rightarrow> HealthStore \<Rightarrow> HealthStore" where
  "bumpUpstreamIntelligenceVersionForQualitySnapshotLocked channelID evidenceID t s =
     (case map_of (channelAllocations s) channelID of
        None \<Rightarrow> s
      | Some allocation \<Rightarrow>
          if ca_UserID allocation \<le> 0 then s
          else bumpUpstreamIntelligenceFactVersionLocked (ca_UserID allocation) t FactMutationQuality evidenceID s)"

definition UpsertChannelHealthSnapshot ::
  "clock \<Rightarrow> ctx \<Rightarrow> ChannelHealthSnapshot \<Rightarrow> HealthStore \<Rightarrow> (store_error + ChannelHealthSnapshot) \<times> HealthStore" where
  "UpsertChannelHealthSnapshot nw c input s =
     (case c of Some e \<Rightarrow> (Inl (ErrContext e), s) | None \<Rightarrow>
      let (snap, createdAtDefaulted) = normalizeChannelHealthSnapshot input (nw 0) in
      case (if snap_ID snap \<noteq> '''' then find (\<lambda>x. snap_ID x = snap_ID snap) (channelSnapshots s) else None) of
        Some existing \<Rightarrow> (if sameChannelHealthSnapshot existing snap createdAtDefaulted then Inr existing else Inl ErrConflict, s)
      | None \<Rightarrow>
          case find (\<lambda>x. sameChannelHealthSnapshotScopeBucket x snap \<and> sameChannelHealthSnapshot x snap createdAtDefaulted)
                 (channelSnapshots s) of
            Some existing \<Rightarrow> (Inr existing, s)
          | None \<Rightarrow>
              let (snap, s) = (if snap_ID snap = '''' then (let (i, s) = healthID ''chsnap'' s in (snap\<lparr>snap_ID := i\<rparr>, s)) else (snap, s));
                  s = s\<lparr>channelSnapshots := channelSnapshots s @ [snap]\<rparr>
              in (Inr snap, bumpUpstreamIntelligenceVersionForQualitySnapshotLocked (snap_ChannelID snap) (snap_ID snap) (nw 1) s))"

definition snapshotMatches :: "ChannelHealthSnapshotFilter \<Rightarrow> ChannelHealthSnapshot \<Rightarrow> bool" where
  "snapshotMatches f x \<longleftrightarrow>
     \<not> ((sf_ExactScope f \<or> sf_ChannelID f \<noteq> '''') \<and> snap_ChannelID x \<noteq> sf_ChannelID f) \<and>
     \<not> ((sf_ExactScope f \<or> sf_InstanceID f \<noteq> '''') \<and> snap_InstanceID x \<noteq> sf_InstanceID f) \<and>
     \<not> (sf_PoolID f \<noteq> '''' \<and> snap_PoolID x \<noteq> sf_PoolID f) \<and>
     \<not> ((sf_ExactScope f \<or> sf_Model f \<noteq> '''') \<and> snap_Model x \<noteq> sf_Model f) \<and>
     \<not> ((sf_ExactScope f \<or> sf_Capability f \<noteq> '''') \<and> snap_Capability x \<noteq> sf_Capability f) \<and>
     \<not> ((sf_ExactScope f \<or> sf_EndpointPath f \<noteq> '''') \<and> snap_EndpointPath x \<noteq> sf_EndpointPath f) \<and>
     \<not> (sf_Window f \<noteq> HealthWindowOther '''' \<and> snap_Window x \<noteq> sf_Window f) \<and>
     \<not> (\<not> IsZero (sf_BucketStart f) \<and> snap_BucketStart x \<noteq> sf_BucketStart f) \<and>
     \<not> (\<not> IsZero (sf_Since f) \<and> snap_BucketStart x < sf_Since f)"

definition snapshotBefore :: "ChannelHealthSnapshot \<Rightarrow> ChannelHealthSnapshot \<Rightarrow> bool" where
  "snapshotBefore x y =
     (if snap_BucketStart x = snap_BucketStart y then
        (if snap_CreatedAt x = snap_CreatedAt y then snap_ID y < snap_ID x else snap_CreatedAt y < snap_CreatedAt x)
      else snap_BucketStart y < snap_BucketStart x)"

fun windowText :: "HealthWindow \<Rightarrow> string" where
  "windowText Window1m = ''1m''"
| "windowText Window5m = ''5m''"
| "windowText Window30m = ''30m''"
| "windowText Window24h = ''24h''"
| "windowText (HealthWindowOther t) = t"

abbreviation (input) NUL :: string where "NUL \<equiv> [byte 0]"

definition snapshotKey :: "ChannelHealthSnapshot \<Rightarrow> string" where
  "snapshotKey x = snap_InstanceID x @ NUL @ snap_ChannelID x @ NUL @ snap_Model x @ NUL @ snap_Capability x @ NUL @
     snap_EndpointPath x @ NUL @ windowText (snap_Window x)"

fun currentSnapshots :: "ChannelHealthSnapshot list \<Rightarrow> string list \<Rightarrow> ChannelHealthSnapshot list" where
  "currentSnapshots [] seen = []"
| "currentSnapshots (x # xs) seen =
     (if snapshotKey x \<in> set seen then currentSnapshots xs seen else x # currentSnapshots xs (snapshotKey x # seen))"

definition ListChannelHealthSnapshots ::
  "ctx \<Rightarrow> ChannelHealthSnapshotFilter \<Rightarrow> HealthStore \<Rightarrow> store_error + ChannelHealthSnapshot list" where
  "ListChannelHealthSnapshots c f s =
     (case c of Some e \<Rightarrow> Inl (ErrContext e) | None \<Rightarrow>
      let matches = go_sort snapshotBefore (filter (snapshotMatches f) (channelSnapshots s));
          out = (if \<not> sf_IncludeHistory f then currentSnapshots matches [] else matches)
      in Inr (limited (sf_Limit f) out))"

section \<open>The metrics service (service.go, runner.go)\<close>

record Service =
  svc_thresholds :: Thresholds
  svc_windows :: "HealthWindow list"
  svc_bucketSize :: duration

datatype Option = WithThresholds Thresholds | WithWindows "HealthWindow list" | WithSnapshotBucketSize duration

fun applyOption :: "Option \<Rightarrow> Service \<Rightarrow> Service" where
  "applyOption (WithThresholds t) s = s\<lparr>svc_thresholds := t\<rparr>"
| "applyOption (WithWindows w) s = (if 0 < length w then s\<lparr>svc_windows := w\<rparr> else s)"
| "applyOption (WithSnapshotBucketSize d) s = (if 0 < d then s\<lparr>svc_bucketSize := d\<rparr> else s)"

definition NewService :: "Option list \<Rightarrow> Service" where
  "NewService opts = fold applyOption opts
     \<lparr>svc_thresholds = DefaultThresholds, svc_windows = [Window1m, Window5m], svc_bucketSize = Minute\<rparr>"

type_synonym calls = "nat \<Rightarrow> ctx \<times> clock"

definition RecordObservation ::
  "time \<Rightarrow> clock \<Rightarrow> ctx \<Rightarrow> ChannelObservation \<Rightarrow> HealthStore \<Rightarrow> (store_error + ChannelObservation) \<times> HealthStore" where
  "RecordObservation now nw c obs s =
     (let obs = (if ob_Source obs = ObservationSourceOther '''' then obs\<lparr>ob_Source := ObservationPassive\<rparr> else obs);
          obs = (if IsZero (ob_ObservedAt obs) \<and> ob_ID obs = '''' then obs\<lparr>ob_ObservedAt := now\<rparr> else obs)
      in AppendChannelObservation nw c obs s)"

definition scopeFilter :: "ChannelHealthScope \<Rightarrow> time \<Rightarrow> time \<Rightarrow> ChannelObservationFilter" where
  "scopeFilter scope since until = \<lparr>of_ChannelID = scp_ChannelID scope, of_InstanceID = scp_InstanceID scope, of_PoolID = '''',
     of_Model = scp_Model scope, of_Capability = scp_Capability scope, of_EndpointPath = scp_EndpointPath scope,
     of_Source = ObservationSourceOther '''', of_Since = since, of_Until = until, of_Limit = 0, of_ExactScope = True\<rparr>"

fun RecomputeScopeAt_loop ::
  "calls \<Rightarrow> Service \<Rightarrow> ChannelHealthScope \<Rightarrow> time \<Rightarrow> HealthWindow list \<Rightarrow> ChannelHealthSnapshot list \<Rightarrow> HealthStore \<Rightarrow>
   (store_error + ChannelHealthSnapshot list) \<times> HealthStore" where
  "RecomputeScopeAt_loop cs svc scope now [] out s = (Inr out, s)"
| "RecomputeScopeAt_loop cs svc scope now (w # ws) out s =
     (case ListChannelObservations (fst (cs 0)) (scopeFilter scope (now - HealthWindow_Duration w) now) s of
        Inl e \<Rightarrow> (Inl e, s)
      | Inr obs \<Rightarrow>
          (case AggregateScope scope w obs (svc_thresholds svc) of
             None \<Rightarrow> (Inl RuntimePanic, s)
           | Some snap \<Rightarrow>
               (case UpsertChannelHealthSnapshot (snd (cs 1)) (fst (cs 1))
                       (snap\<lparr>snap_BucketStart := time_Truncate now (svc_bucketSize svc), snap_CreatedAt := now\<rparr>) s of
                  (Inl e, s) \<Rightarrow> (Inl e, s)
                | (Inr saved, s) \<Rightarrow> RecomputeScopeAt_loop (\<lambda>k. cs (k + 2)) svc scope now ws (out @ [saved]) s)))"

definition RecomputeScopeAt ::
  "calls \<Rightarrow> Service \<Rightarrow> ChannelHealthScope \<Rightarrow> time \<Rightarrow> HealthStore \<Rightarrow> (store_error + ChannelHealthSnapshot list) \<times> HealthStore" where
  "RecomputeScopeAt cs svc scope now s = RecomputeScopeAt_loop cs svc scope now (svc_windows svc) [] s"

definition longestWindow :: "HealthWindow list \<Rightarrow> duration" where
  "longestWindow ws = foldl (\<lambda>longest w. if longest < HealthWindow_Duration w then HealthWindow_Duration w else longest) 0 ws"

definition scopeKey :: "ChannelHealthScope \<Rightarrow> string" where
  "scopeKey x = scp_InstanceID x @ NUL @ scp_Model x @ NUL @ scp_Capability x @ NUL @ scp_EndpointPath x"

definition addScope :: "string \<Rightarrow> ChannelHealthScope \<Rightarrow> (string \<times> ChannelHealthScope) list \<Rightarrow> (string \<times> ChannelHealthScope) list" where
  "addScope channelID scope byKey =
     (case map_of byKey (scopeKey scope) of
        Some existing \<Rightarrow>
          if scp_PoolID existing = '''' \<and> scp_PoolID scope \<noteq> ''''
          then AList.update (scopeKey scope) (existing\<lparr>scp_PoolID := scp_PoolID scope\<rparr>) byKey else byKey
      | None \<Rightarrow> AList.update (scopeKey scope) (scope\<lparr>scp_ChannelID := channelID\<rparr>) byKey)"

definition observationScope :: "ChannelObservation \<Rightarrow> ChannelHealthScope" where
  "observationScope x = \<lparr>scp_ChannelID = ob_ChannelID x, scp_InstanceID = ob_InstanceID x, scp_PoolID = ob_PoolID x,
     scp_Model = ob_Model x, scp_Capability = ob_Capability x, scp_EndpointPath = ob_EndpointPath x\<rparr>"

definition snapshotScope :: "ChannelHealthSnapshot \<Rightarrow> ChannelHealthScope" where
  "snapshotScope x = \<lparr>scp_ChannelID = snap_ChannelID x, scp_InstanceID = snap_InstanceID x, scp_PoolID = snap_PoolID x,
     scp_Model = snap_Model x, scp_Capability = snap_Capability x, scp_EndpointPath = snap_EndpointPath x\<rparr>"

text \<open>The scopes of one map, in the order of the map where the comparator does not decide.\<close>

definition scopeBefore :: "ChannelHealthScope \<Rightarrow> ChannelHealthScope \<Rightarrow> bool" where
  "scopeBefore x y = (if scp_InstanceID x = scp_InstanceID y then scp_Model x < scp_Model y else scp_InstanceID x < scp_InstanceID y)"

definition discoverScopes :: "string \<Rightarrow> ChannelObservation list \<Rightarrow> ChannelHealthSnapshot list \<Rightarrow> ChannelHealthScope list" where
  "discoverScopes channelID observations snapshots =
     (let byKey = fold (addScope channelID) (map observationScope observations) [];
          byKey = fold (addScope channelID) (map snapshotScope (filter (\<lambda>x. snap_HealthState x \<noteq> HealthUnknown) snapshots)) byKey
      in go_sort scopeBefore (map snd byKey))"

definition channelFilter :: "string \<Rightarrow> time \<Rightarrow> time \<Rightarrow> ChannelObservationFilter" where
  "channelFilter channelID since until = \<lparr>of_ChannelID = channelID, of_InstanceID = '''', of_PoolID = '''', of_Model = '''',
     of_Capability = '''', of_EndpointPath = '''', of_Source = ObservationSourceOther '''', of_Since = since, of_Until = until,
     of_Limit = 0, of_ExactScope = False\<rparr>"

definition currentFilter :: "string \<Rightarrow> ChannelHealthSnapshotFilter" where
  "currentFilter channelID = \<lparr>sf_ChannelID = channelID, sf_InstanceID = '''', sf_PoolID = '''', sf_Model = '''', sf_Capability = '''',
     sf_EndpointPath = '''', sf_Window = HealthWindowOther '''', sf_BucketStart = 0, sf_Since = 0, sf_Limit = 0, sf_ExactScope = False,
     sf_IncludeHistory = False\<rparr>"

fun RecomputeChannel_loop ::
  "calls \<Rightarrow> Service \<Rightarrow> time \<Rightarrow> ChannelHealthScope list \<Rightarrow> ChannelHealthSnapshot list \<Rightarrow> HealthStore \<Rightarrow>
   (store_error + ChannelHealthSnapshot list) \<times> HealthStore" where
  "RecomputeChannel_loop cs svc now [] out s = (Inr out, s)"
| "RecomputeChannel_loop cs svc now (scope # scopes) out s =
     (case RecomputeScopeAt cs svc scope now s of
        (Inl e, s) \<Rightarrow> (Inl e, s)
      | (Inr snaps, s) \<Rightarrow> RecomputeChannel_loop (\<lambda>k. cs (k + 2 * length (svc_windows svc))) svc now scopes (out @ snaps) s)"

definition RecomputeChannel ::
  "calls \<Rightarrow> Service \<Rightarrow> time \<Rightarrow> string \<Rightarrow> HealthStore \<Rightarrow> (store_error + ChannelHealthSnapshot list) \<times> HealthStore" where
  "RecomputeChannel cs svc now channelID s =
     (case ListChannelObservations (fst (cs 0)) (channelFilter channelID (now - longestWindow (svc_windows svc)) now) s of
        Inl e \<Rightarrow> (Inl e, s)
      | Inr recent \<Rightarrow>
          (case ListChannelHealthSnapshots (fst (cs 1)) (currentFilter channelID) s of
             Inl e \<Rightarrow> (Inl e, s)
           | Inr current \<Rightarrow>
               let scopes = discoverScopes channelID recent current;
                   scopes = (if scopes = [] \<and> current = [] then [\<lparr>scp_ChannelID = channelID, scp_InstanceID = '''', scp_PoolID = '''',
                     scp_Model = '''', scp_Capability = '''', scp_EndpointPath = ''''\<rparr>] else scopes)
               in RecomputeChannel_loop (\<lambda>k. cs (k + 2)) svc now scopes [] s))"

definition ListUpstreamChannels :: "ctx \<Rightarrow> string \<Rightarrow> HealthStore \<Rightarrow> store_error + UpstreamChannel list" where
  "ListUpstreamChannels c poolID s =
     (case c of Some e \<Rightarrow> Inl (ErrContext e) | None \<Rightarrow>
      Inr (filter (\<lambda>x. poolID = '''' \<or> chan_PoolID x = poolID) (upstreamChannels (base s))))"

definition ListUpstreamPools :: "ctx \<Rightarrow> HealthStore \<Rightarrow> store_error + UpstreamPool list" where
  "ListUpstreamPools c s = (case c of Some e \<Rightarrow> Inl (ErrContext e) | None \<Rightarrow> Inr (upstreamPools (base s)))"

text \<open>The \<open>k\<close>-th channel of a pool is recomputed at \<open>now k\<close> with the store calls \<open>cs k\<close>.\<close>

fun RecomputePool_loop ::
  "(nat \<Rightarrow> calls) \<Rightarrow> Service \<Rightarrow> (nat \<Rightarrow> time) \<Rightarrow> UpstreamChannel list \<Rightarrow> ChannelHealthSnapshot list \<Rightarrow> HealthStore \<Rightarrow>
   (store_error + ChannelHealthSnapshot list) \<times> HealthStore" where
  "RecomputePool_loop cs svc now [] out s = (Inr out, s)"
| "RecomputePool_loop cs svc now (ch # chs) out s =
     (case RecomputeChannel (cs 0) svc (now 0) (chan_ID ch) s of
        (Inl e, s) \<Rightarrow> (Inl e, s)
      | (Inr snaps, s) \<Rightarrow> RecomputePool_loop (\<lambda>k. cs (Suc k)) svc (\<lambda>k. now (Suc k)) chs (out @ snaps) s)"

definition RecomputePool ::
  "ctx \<Rightarrow> (nat \<Rightarrow> calls) \<Rightarrow> Service \<Rightarrow> (nat \<Rightarrow> time) \<Rightarrow> string \<Rightarrow> HealthStore \<Rightarrow> (store_error + ChannelHealthSnapshot list) \<times> HealthStore" where
  "RecomputePool c cs svc now poolID s =
     (case ListUpstreamChannels c poolID s of
        Inl e \<Rightarrow> (Inl e, s)
      | Inr channels \<Rightarrow> RecomputePool_loop cs svc now channels [] s)"

text \<open>A failing pool is logged and the sweep goes on.\<close>

fun sweep_loop :: "(nat \<Rightarrow> ctx \<times> (nat \<Rightarrow> calls) \<times> (nat \<Rightarrow> time)) \<Rightarrow> Service \<Rightarrow> UpstreamPool list \<Rightarrow> HealthStore \<Rightarrow> HealthStore" where
  "sweep_loop cs svc [] s = s"
| "sweep_loop cs svc (p # ps) s =
     (if pool_Status p = UpstreamPoolRetired then sweep_loop cs svc ps s
      else (let (c, pc, now) = cs 0 in
            sweep_loop (\<lambda>k. cs (Suc k)) svc ps (snd (RecomputePool c pc svc now (pool_ID p) s))))"

definition sweep :: "ctx \<Rightarrow> (nat \<Rightarrow> ctx \<times> (nat \<Rightarrow> calls) \<times> (nat \<Rightarrow> time)) \<Rightarrow> Service \<Rightarrow> HealthStore \<Rightarrow> HealthStore" where
  "sweep c cs svc s = (case ListUpstreamPools c s of Inl _ \<Rightarrow> s | Inr pools \<Rightarrow> sweep_loop cs svc pools s)"

section \<open>What the operations leave alone\<close>

lemma bump_facts:
  "factMutations (bumpUpstreamIntelligenceFactVersionLocked u t k e s) v =
     (if v = u then factMutations s u @ [\<lparr>fm_UserID = u, fm_FactVersion = wrap64 (fv_FactVersion (currentFactVersion s u) + 1),
        fm_Kind = k, fm_EvidenceID = e, fm_CreatedAt = normalizeUpstreamTime t\<rparr>] else factMutations s v)"
  "fv_FactVersion (currentFactVersion (bumpUpstreamIntelligenceFactVersionLocked u t k e s) v) =
     (if v = u then wrap64 (fv_FactVersion (currentFactVersion s u) + 1) else fv_FactVersion (currentFactVersion s v))"
  "map_of (upstreamIntelLineageWatermarks (bumpUpstreamIntelligenceFactVersionLocked u t k e s)) v =
     (if v = u \<and> map_of (upstreamIntelLineageWatermarks s) u = None then Some (fv_FactVersion (currentFactVersion s u))
      else map_of (upstreamIntelLineageWatermarks s) v)"
  "channelObs (bumpUpstreamIntelligenceFactVersionLocked u t k e s) = channelObs s"
  "channelSnapshots (bumpUpstreamIntelligenceFactVersionLocked u t k e s) = channelSnapshots s"
  "channelAllocations (bumpUpstreamIntelligenceFactVersionLocked u t k e s) = channelAllocations s"
  by (auto simp: bumpUpstreamIntelligenceFactVersionLocked_def Let_def factMutations_def currentFactVersion_def update_conv)

definition owns :: "HealthStore \<Rightarrow> int64 \<Rightarrow> ChannelHealthSnapshot \<Rightarrow> bool" where
  "owns s u x \<longleftrightarrow> 0 < u \<and> map_option ca_UserID (map_of (channelAllocations s) (snap_ChannelID x)) = Some u"

text \<open>The store \<open>t\<close> is \<open>s\<close> with new snapshots appended, and for each owner exactly one quality
  mutation per new snapshot of a channel of that owner, which names it.\<close>

definition evidence_extends :: "HealthStore \<Rightarrow> HealthStore \<Rightarrow> bool" where
  "evidence_extends s t \<longleftrightarrow> channelObs t = channelObs s \<and> channelAllocations t = channelAllocations s \<and>
     (\<exists>new. channelSnapshots t = channelSnapshots s @ new \<and>
        (\<forall>u. \<exists>qs. factMutations t u = factMutations s u @ qs \<and> list_all (\<lambda>m. fm_Kind m = FactMutationQuality) qs \<and>
           map fm_EvidenceID qs = map snap_ID (filter (owns s u) new)))"

lemma evidence_extends_refl: "evidence_extends s s"
  by (auto simp: evidence_extends_def)

lemma evidence_extends_trans:
  assumes "evidence_extends s t" "evidence_extends t r"
  shows "evidence_extends s r"
proof -
  obtain n where n: "channelObs t = channelObs s" "channelAllocations t = channelAllocations s" "channelSnapshots t = channelSnapshots s @ n"
    "\<And>u. \<exists>qs. factMutations t u = factMutations s u @ qs \<and> list_all (\<lambda>m. fm_Kind m = FactMutationQuality) qs \<and>
       map fm_EvidenceID qs = map snap_ID (filter (owns s u) n)"
    using assms(1) unfolding evidence_extends_def by blast
  obtain n' where n': "channelObs r = channelObs t" "channelAllocations r = channelAllocations t" "channelSnapshots r = channelSnapshots t @ n'"
    "\<And>u. \<exists>qs. factMutations r u = factMutations t u @ qs \<and> list_all (\<lambda>m. fm_Kind m = FactMutationQuality) qs \<and>
       map fm_EvidenceID qs = map snap_ID (filter (owns t u) n')"
    using assms(2) unfolding evidence_extends_def by blast
  have o: "owns t = owns s" by (auto simp: owns_def fun_eq_iff n(2))
  have "\<exists>qs. factMutations r u = factMutations s u @ qs \<and> list_all (\<lambda>m. fm_Kind m = FactMutationQuality) qs \<and>
       map fm_EvidenceID qs = map snap_ID (filter (owns s u) (n @ n'))" for u
  proof -
    from n(4) [of u] n'(4) [of u] obtain qs qs' where
      "factMutations t u = factMutations s u @ qs" "list_all (\<lambda>m. fm_Kind m = FactMutationQuality) qs"
      "map fm_EvidenceID qs = map snap_ID (filter (owns s u) n)" "factMutations r u = factMutations t u @ qs'"
      "list_all (\<lambda>m. fm_Kind m = FactMutationQuality) qs'" "map fm_EvidenceID qs' = map snap_ID (filter (owns s u) n')"
      unfolding o by blast
    then show ?thesis by (intro exI [of _ "qs @ qs'"]) simp
  qed
  then show ?thesis unfolding evidence_extends_def using n n' by auto
qed

lemma healthID_frame:
  "channelObs (snd (healthID p s)) = channelObs s" "channelSnapshots (snd (healthID p s)) = channelSnapshots s"
  "channelAllocations (snd (healthID p s)) = channelAllocations s" "factMutations (snd (healthID p s)) u = factMutations s u"
  "currentFactVersion (snd (healthID p s)) u = currentFactVersion s u"
  "upstreamIntelLineageWatermarks (snd (healthID p s)) = upstreamIntelLineageWatermarks s"
  by (simp_all add: healthID_def factMutations_def currentFactVersion_def split: prod.splits)

lemma quality_bump:
  "bumpUpstreamIntelligenceVersionForQualitySnapshotLocked (snap_ChannelID x) e t s =
     (case map_option ca_UserID (map_of (channelAllocations s) (snap_ChannelID x)) of
        Some u \<Rightarrow> if 0 < u then bumpUpstreamIntelligenceFactVersionLocked u t FactMutationQuality e s else s
      | None \<Rightarrow> s)"
  by (simp add: bumpUpstreamIntelligenceVersionForQualitySnapshotLocked_def not_le split: option.splits)

lemma append_snapshot_extends:
  "evidence_extends s (bumpUpstreamIntelligenceVersionForQualitySnapshotLocked (snap_ChannelID x) (snap_ID x) t
     (s\<lparr>channelSnapshots := channelSnapshots s @ [x]\<rparr>))"
proof -
  let ?s = "s\<lparr>channelSnapshots := channelSnapshots s @ [x]\<rparr>"
  have f: "factMutations ?s v = factMutations s v" for v by (simp add: factMutations_def)
  show ?thesis
    unfolding quality_bump
    by (cases "map_of (channelAllocations s) (snap_ChannelID x)")
       (auto simp: evidence_extends_def bump_facts f owns_def)
qed

text \<open>An upsert returns a stored row and keeps the store, or appends the row it returns.\<close>

lemma UpsertChannelHealthSnapshot_cases:
  assumes "UpsertChannelHealthSnapshot nw c input s = (r, t)"
  obtains e where "r = Inl e" "t = s"
  | x where "r = Inr x" "t = s" "x \<in> set (channelSnapshots s)"
      "sameChannelHealthSnapshot x (fst (normalizeChannelHealthSnapshot input (nw 0))) (snd (normalizeChannelHealthSnapshot input (nw 0)))"
  | x s' where "r = Inr x" "x\<lparr>snap_ID := ''''\<rparr> = (fst (normalizeChannelHealthSnapshot input (nw 0)))\<lparr>snap_ID := ''''\<rparr>"
      "s' = s \<or> s' = snd (healthID ''chsnap'' s)"
      "t = bumpUpstreamIntelligenceVersionForQualitySnapshotLocked (snap_ChannelID x) (snap_ID x) (nw 1)
         (s'\<lparr>channelSnapshots := channelSnapshots s' @ [x]\<rparr>)"
proof (cases c)
  case None
  obtain n d where n: "normalizeChannelHealthSnapshot input (nw 0) = (n, d)" by force
  let ?known = "if snap_ID n \<noteq> '''' then find (\<lambda>x. snap_ID x = snap_ID n) (channelSnapshots s) else None"
  let ?same = "find (\<lambda>x. sameChannelHealthSnapshotScopeBucket x n \<and> sameChannelHealthSnapshot x n d) (channelSnapshots s)"
  note U = assms [unfolded UpsertChannelHealthSnapshot_def None option.case n prod.case Let_def]
  show thesis
  proof (cases ?known)
    case (Some x)
    then have "x \<in> set (channelSnapshots s)" by (metis find_SomeD option.distinct(1))
    then show thesis using U Some that(1,2) n by (auto split: if_splits)
  next
    case known: None
    show thesis
    proof (cases ?same)
      case (Some x)
      then show thesis using U known that(2) n find_SomeD [OF Some] by auto
    next
      case None
      obtain i s' where h: "healthID ''chsnap'' s = (i, s')" by force
      show thesis
        using U known None h that(3) [of "if snap_ID n = '''' then n\<lparr>snap_ID := i\<rparr> else n" "if snap_ID n = '''' then s' else s"] n
        by (auto split: if_splits)
    qed
  qed
next
  case (Some e)
  then have "r = Inl (ErrContext e)" "t = s" using assms by (simp_all add: UpsertChannelHealthSnapshot_def)
  then show thesis by (rule that(1))
qed

lemma evidence_extends_healthID: "evidence_extends (snd (healthID p s)) t \<Longrightarrow> evidence_extends s t"
proof -
  have "owns (snd (healthID p s)) = owns s" by (auto simp: owns_def fun_eq_iff healthID_frame)
  then show "evidence_extends (snd (healthID p s)) t \<Longrightarrow> ?thesis"
    by (simp add: evidence_extends_def healthID_frame)
qed

lemma UpsertChannelHealthSnapshot_extends:
  "UpsertChannelHealthSnapshot nw c input s = (r, t) \<Longrightarrow> evidence_extends s t"
  by (erule UpsertChannelHealthSnapshot_cases)
     (auto intro: evidence_extends_refl append_snapshot_extends evidence_extends_healthID)

lemma RecomputeScopeAt_extends: "RecomputeScopeAt_loop cs svc scope now ws out s = (r, t) \<Longrightarrow> evidence_extends s t"
proof (induction ws arbitrary: cs out s)
  case (Cons w ws)
  then show ?case
    by (auto split: sum.splits option.splits prod.splits intro: evidence_extends_refl UpsertChannelHealthSnapshot_extends)
       (meson UpsertChannelHealthSnapshot_extends evidence_extends_trans)+
qed (simp add: evidence_extends_refl)

lemma RecomputeChannel_extends: "RecomputeChannel cs svc now ch s = (r, t) \<Longrightarrow> evidence_extends s t"
proof -
  have L: "RecomputeChannel_loop cs svc now scopes out s = (r, t) \<Longrightarrow> evidence_extends s t" for cs scopes out s
  proof (induction scopes arbitrary: cs out s)
    case (Cons scope scopes)
    then show ?case
      by (auto simp: RecomputeScopeAt_def split: sum.splits prod.splits intro: RecomputeScopeAt_extends)
         (meson RecomputeScopeAt_extends evidence_extends_trans)
  qed (simp add: evidence_extends_refl)
  show "RecomputeChannel cs svc now ch s = (r, t) \<Longrightarrow> ?thesis"
    by (auto simp: RecomputeChannel_def Let_def split: sum.splits intro: evidence_extends_refl L)
qed

lemma RecomputePool_extends: "evidence_extends s (snd (RecomputePool c cs svc now p s))"
proof -
  have L: "evidence_extends s (snd (RecomputePool_loop cs svc now chs out s))" for cs now chs out s
  proof (induction chs arbitrary: cs now out s)
    case (Cons ch chs)
    then show ?case
      by (auto split: sum.splits prod.splits intro: RecomputeChannel_extends)
         (meson RecomputeChannel_extends evidence_extends_trans)
  qed (simp add: evidence_extends_refl)
  then show ?thesis by (auto simp: RecomputePool_def split: sum.splits intro: evidence_extends_refl)
qed

lemma sweep_extends: "evidence_extends s (sweep c cs svc s)"
proof -
  have "evidence_extends s (sweep_loop cs svc ps s)" for cs ps s
  proof (induction ps arbitrary: cs s)
    case (Cons p ps)
    then show ?case by (auto split: prod.splits) (meson RecomputePool_extends evidence_extends_trans)
  qed (simp add: evidence_extends_refl)
  then show ?thesis by (auto simp: sweep_def split: sum.splits intro: evidence_extends_refl)
qed

section \<open>Runs of the store\<close>

text \<open>
  The steps of the health tables: the operations above, the writes of the upstream catalog to
  the allocations and to the other tables, and the version bumps of the upstream intelligence,
  which requires an owner.
\<close>

inductive health_step :: "HealthStore \<Rightarrow> HealthStore \<Rightarrow> bool" where
  append: "AppendChannelObservation nw c obs s = (r, t) \<Longrightarrow> health_step s t"
| upsert: "UpsertChannelHealthSnapshot nw c x s = (r, t) \<Longrightarrow> health_step s t"
| intelligence: "0 < u \<Longrightarrow> health_step s (bumpUpstreamIntelligenceFactVersionLocked u at' kind e s)"
| allocate: "health_step s (s\<lparr>channelAllocations := al, base := b\<rparr>)"

inductive_simps health_step_simps: "health_step s t"

definition health_init :: "HealthStore \<Rightarrow> bool" where
  "health_init s \<longleftrightarrow> channelObs s = [] \<and> channelSnapshots s = [] \<and> upstreamIntelVersions s = [] \<and> upstreamIntelFactMutations s = [] \<and>
     upstreamIntelLineageWatermarks s = []"

text \<open>The lineage of every owner starts at version 0 and has one entry per version.\<close>

definition lineage_ok :: "HealthStore \<Rightarrow> bool" where
  "lineage_ok s \<longleftrightarrow> (\<forall>u. fv_FactVersion (currentFactVersion s u) = wrap64 (int (length (factMutations s u))) \<and>
     (\<forall>w. map_of (upstreamIntelLineageWatermarks s) u = Some w \<longrightarrow> w = 0) \<and>
     (map_of (upstreamIntelLineageWatermarks s) u = None \<longrightarrow> factMutations s u = []) \<and>
     (\<forall>i < length (factMutations s u). fm_UserID (factMutations s u ! i) = u \<and> fm_FactVersion (factMutations s u ! i) = wrap64 (int i + 1)))"

lemma lineage_ok_cong:
  assumes "\<And>u. factMutations t u = factMutations s u" "\<And>u. currentFactVersion t u = currentFactVersion s u"
    "upstreamIntelLineageWatermarks t = upstreamIntelLineageWatermarks s"
  shows "lineage_ok t = lineage_ok s"
  unfolding lineage_ok_def assms ..

lemma lineage_ok_bump: "lineage_ok s \<Longrightarrow> lineage_ok (bumpUpstreamIntelligenceFactVersionLocked u t k e s)"
  unfolding lineage_ok_def bump_facts by (auto simp: nth_append less_Suc_eq add.commute)

lemma lineage_ok_quality_bump:
  "lineage_ok s \<Longrightarrow> lineage_ok (bumpUpstreamIntelligenceVersionForQualitySnapshotLocked ch e t s)"
  by (auto simp: bumpUpstreamIntelligenceVersionForQualitySnapshotLocked_def lineage_ok_bump split: option.splits)

lemma lineage_ok_frames:
  "lineage_ok (s\<lparr>channelSnapshots := x\<rparr>) = lineage_ok s" "lineage_ok (s\<lparr>channelObs := y\<rparr>) = lineage_ok s"
  "lineage_ok (s\<lparr>channelAllocations := al, base := b\<rparr>) = lineage_ok s" "lineage_ok (snd (healthID p s)) = lineage_ok s"
  by (rule lineage_ok_cong; simp add: factMutations_def currentFactVersion_def healthID_def split: prod.splits)+

lemma AppendChannelObservation_lineage: "AppendChannelObservation nw c obs s = (r, t) \<Longrightarrow> lineage_ok s \<Longrightarrow> lineage_ok t"
proof -
  obtain i s' where h: "healthID ''chobs'' s = (i, s')" by force
  have "lineage_ok s' = lineage_ok s" using lineage_ok_frames(4) [of "''chobs''" s] h by simp
  then show "AppendChannelObservation nw c obs s = (r, t) \<Longrightarrow> lineage_ok s \<Longrightarrow> lineage_ok t"
    by (auto simp: AppendChannelObservation_def Let_def h lineage_ok_frames split: option.splits if_splits prod.splits)
qed

interpretation lineage: invariant_system health_init health_step lineage_ok
proof
  fix s assume "health_init s"
  then show "lineage_ok s" by (simp add: health_init_def lineage_ok_def factMutations_def currentFactVersion_def)
next
  fix s t assume s: "lineage_ok s" and st: "health_step s t"
  from st show "lineage_ok t"
  proof cases
    case (upsert nw c x r)
    then show ?thesis
      by (rule UpsertChannelHealthSnapshot_cases) (use s in \<open>auto simp: lineage_ok_frames intro!: lineage_ok_quality_bump\<close>)
  qed (use s in \<open>auto simp: lineage_ok_frames lineage_ok_bump dest: AppendChannelObservation_lineage\<close>)
qed

section \<open>The proof of a quality-only advance\<close>

definition consecutive :: "int64 \<Rightarrow> int \<Rightarrow> UpstreamIntelligenceFactMutation list \<Rightarrow> bool" where
  "consecutive u k ms \<longleftrightarrow> (\<forall>i < length ms. fm_UserID (ms ! i) = u \<and> fm_FactVersion (ms ! i) = k + int i + 1)"

lemma consecutive_Nil [simp]: "consecutive u k []"
  by (simp add: consecutive_def)

lemma consecutive_Cons [simp]:
  "consecutive u k (m # ms) \<longleftrightarrow> fm_UserID m = u \<and> fm_FactVersion m = k + 1 \<and> consecutive u (k + 1) ms"
  unfolding consecutive_def by (auto simp: less_Suc_eq_0_disj)

lemma consecutive_drop: "consecutive u k ms \<Longrightarrow> n \<le> length ms \<Longrightarrow> consecutive u (k + int n) (drop n ms)"
  by (simp add: consecutive_def)

lemma wrap64_small: "0 \<le> k \<Longrightarrow> k < 2 ^ 63 \<Longrightarrow> wrap64 k = k"
  by (rule wrap64_id) (simp add: in64_def)

lemma factAdvance_loop_collect:
  assumes "consecutive u k ms" "0 \<le> b" "b \<le> k" "current = k + int (length ms)" "current + 1 < 2 ^ 63"
  shows "factAdvance_loop u b current ms (k + 1) pf =
    pf\<lparr>fp_Mutations := fp_Mutations pf @ ms, fp_Complete := (int (length (fp_Mutations pf) + length ms) = current - b)\<rparr>"
  using assms
proof (induction ms arbitrary: k pf)
  case Nil
  then show ?case by (cases pf) (simp add: wrap64_small)
next
  case (Cons m ms)
  then have "factAdvance_loop u b current ms (k + 1 + 1) (pf\<lparr>fp_Mutations := fp_Mutations pf @ [m]\<rparr>) =
    (pf\<lparr>fp_Mutations := fp_Mutations pf @ [m]\<rparr>)\<lparr>fp_Mutations := (fp_Mutations pf @ [m]) @ ms,
      fp_Complete := (int (length (fp_Mutations pf @ [m]) + length ms) = current - b)\<rparr>"
    using Cons.IH [of "k + 1" "pf\<lparr>fp_Mutations := fp_Mutations pf @ [m]\<rparr>"] by simp
  then show ?case using Cons.prems by (simp add: wrap64_small)
qed

lemma factAdvance_loop_skip:
  assumes "consecutive u k ms" "k \<le> b" "nat (b - k) \<le> length ms"
  shows "factAdvance_loop u b current ms e pf = factAdvance_loop u b current (drop (nat (b - k)) ms) e pf"
  using assms
proof (induction ms arbitrary: k)
  case (Cons m ms)
  show ?case
  proof (cases "k = b")
    case False
    then have "nat (b - k) = Suc (nat (b - (k + 1)))" using Cons.prems by simp
    with False Cons.prems Cons.IH [of "k + 1"] show ?thesis by simp
  qed simp
qed simp

definition quality_evidence :: "UpstreamIntelligenceFactMutation \<Rightarrow> bool" where
  "quality_evidence m \<longleftrightarrow> fm_Kind m = FactMutationQuality \<and> TrimSpace (fm_EvidenceID m) \<noteq> '''' \<and> \<not> IsZero (fm_CreatedAt m)"

lemma validAdvance_loop_iff:
  assumes "consecutive u k ms" "0 \<le> k" "current = k + int (length ms)" "current < 2 ^ 63"
  shows "validAdvance_loop u k prev ms current \<longleftrightarrow>
    list_all quality_evidence ms \<and> sorted (map fm_CreatedAt ms) \<and> (ms = [] \<or> IsZero prev \<or> prev \<le> fm_CreatedAt (hd ms))"
  using assms
proof (induction ms arbitrary: k prev)
  case (Cons m ms)
  have "validAdvance_loop u (k + 1) (fm_CreatedAt m) ms current \<longleftrightarrow> list_all quality_evidence ms \<and> sorted (map fm_CreatedAt ms) \<and>
      (ms = [] \<or> IsZero (fm_CreatedAt m) \<or> fm_CreatedAt m \<le> fm_CreatedAt (hd ms))"
    using Cons.prems by (intro Cons.IH) simp_all
  moreover have "validAdvance_loop u k prev (m # ms) current \<longleftrightarrow> quality_evidence m \<and> (IsZero prev \<or> prev \<le> fm_CreatedAt m) \<and>
      validAdvance_loop u (k + 1) (fm_CreatedAt m) ms current"
    using Cons.prems by (auto simp: wrap64_small quality_evidence_def Let_def)
  moreover have "quality_evidence m \<Longrightarrow> \<not> IsZero (fm_CreatedAt m)" by (simp add: quality_evidence_def)
  ultimately show ?case by (cases ms) (auto simp del: validAdvance_loop.simps intro: order_trans)
qed simp

lemma advance_proof_iff:
  assumes s: "lineage_ok s" and n: "int (length (factMutations s u)) + 1 < 2 ^ 63" and cur: "current = int (length (factMutations s u))"
  shows "ValidQualityOnlyFactAdvanceProof (memoryQualityOnlyFactAdvanceProof u b current s) u b current \<longleftrightarrow>
    0 < u \<and> 0 < b \<and> b < current \<and>
    (let ms = drop (nat b) (factMutations s u) in list_all quality_evidence ms \<and> sorted (map fm_CreatedAt ms))"
proof (cases "0 < u \<and> 0 < b \<and> b < current")
  case True
  let ?ms = "factMutations s u"
  have w: "lineageWatermark s u = 0"
    using s unfolding lineage_ok_def lineageWatermark_def by (auto split: option.splits)
  have c: "consecutive u 0 ?ms"
    using s n unfolding lineage_ok_def consecutive_def by (auto simp: wrap64_small add.commute)
  let ?pf = "\<lparr>fp_UserID = u, fp_BaselineFactVersion = b, fp_CurrentFactVersion = current, fp_LineageWatermark = 0,
    fp_Mutations = [], fp_Complete = False\<rparr>"
  have nb: "nat b \<le> length ?ms" using True cur by linarith
  have d: "consecutive u b (drop (nat b) ?ms)" using consecutive_drop [OF c nb] True by simp
  have cd: "current = b + int (length (drop (nat b) ?ms))" using True nb cur by (simp add: of_nat_diff)
  have sm: "wrap64 (b + 1) = b + 1" using True cur n by (intro wrap64_small) simp_all
  have "memoryQualityOnlyFactAdvanceProof u b current s = factAdvance_loop u b current ?ms (b + 1) ?pf"
    using True w sm by (simp add: memoryQualityOnlyFactAdvanceProof_def Let_def)
  also have "\<dots> = factAdvance_loop u b current (drop (nat b) ?ms) (b + 1) ?pf"
    using factAdvance_loop_skip [OF c, of b current "b + 1" ?pf] True nb by simp
  also have "\<dots> = ?pf\<lparr>fp_Mutations := drop (nat b) ?ms, fp_Complete := True\<rparr>"
    using factAdvance_loop_collect [OF d _ _ cd, of b ?pf] True cur n nb by (simp add: of_nat_diff)
  finally have P: "memoryQualityOnlyFactAdvanceProof u b current s = ?pf\<lparr>fp_Mutations := drop (nat b) ?ms, fp_Complete := True\<rparr>" .
  have "validAdvance_loop u b 0 (drop (nat b) ?ms) current \<longleftrightarrow>
      list_all quality_evidence (drop (nat b) ?ms) \<and> sorted (map fm_CreatedAt (drop (nat b) ?ms))"
    using validAdvance_loop_iff [OF d _ cd, of 0] True cur n by (simp add: IsZero_def)
  moreover have "wrap64 (current - b) = current - b" using True cur n by (intro wrap64_small) simp_all
  moreover have "int (length (drop (nat b) ?ms)) = current - b" using cd by linarith
  ultimately show ?thesis
    unfolding P ValidQualityOnlyFactAdvanceProof_def Let_def using True by simp
qed (auto simp: ValidQualityOnlyFactAdvanceProof_def)

section \<open>The current snapshots\<close>

definition snapshot_rank :: "ChannelHealthSnapshot \<Rightarrow> time \<times> time \<times> string" where
  "snapshot_rank x = (snap_BucketStart x, snap_CreatedAt x, snap_ID x)"

lemma snapshotBefore_rank: "snapshotBefore x y \<longleftrightarrow> snapshot_rank y < snapshot_rank x"
  by (auto simp: snapshotBefore_def snapshot_rank_def)

interpretation snapshots: strict_weak_order snapshotBefore
  by unfold_locales (auto simp: snapshotBefore_rank)

lemma currentSnapshots_keys:
  "distinct (map snapshotKey (currentSnapshots xs seen))"
  "set (map snapshotKey (currentSnapshots xs seen)) = set (map snapshotKey xs) - set seen"
proof (induction xs arbitrary: seen)
  case (Cons x xs)
  case 1
  show ?case using Cons(1) [of seen] Cons(1,2) [of "snapshotKey x # seen"] by auto
next
  case (Cons x xs)
  case 2
  show ?case using Cons(2) [of seen] Cons(2) [of "snapshotKey x # seen"] by auto
qed simp_all

lemma currentSnapshots_newest:
  assumes "sorted_wrt (\<lambda>x y. snapshot_rank y \<le> snapshot_rank x) xs"
    "x \<in> set (currentSnapshots xs seen)" "y \<in> set xs" "snapshotKey y = snapshotKey x"
  shows "x \<in> set xs \<and> snapshot_rank y \<le> snapshot_rank x"
  using assms
proof (induction xs arbitrary: seen)
  case (Cons z zs)
  show ?case
  proof (cases "snapshotKey z \<in> set seen")
    case True
    have "snapshotKey x \<notin> set seen"
      using currentSnapshots_keys(2) [of "z # zs" seen] Cons.prems(2) by (metis DiffD2 image_eqI set_map)
    with True Cons.prems Cons.IH [of seen] show ?thesis by auto
  next
    case False
    show ?thesis
    proof (cases "x = z")
      case True
      then show ?thesis using Cons.prems(1,3) by auto
    next
      case F: False
      then have x: "x \<in> set (currentSnapshots zs (snapshotKey z # seen))" using Cons.prems(2) False by simp
      then have "snapshotKey x \<noteq> snapshotKey z"
        using currentSnapshots_keys(2) [of zs "snapshotKey z # seen"] by (metis DiffD2 image_eqI list.set_intros(1) set_map)
      then show ?thesis using Cons.IH [OF _ x] Cons.prems by auto
    qed
  qed
qed simp

section \<open>Recomputation of a scope\<close>

definition inScope :: "ChannelHealthScope \<Rightarrow> ChannelObservation \<Rightarrow> bool" where
  "inScope scope x \<longleftrightarrow> ob_ChannelID x = scp_ChannelID scope \<and> ob_InstanceID x = scp_InstanceID scope \<and> ob_Model x = scp_Model scope \<and>
     ob_Capability x = scp_Capability scope \<and> ob_EndpointPath x = scp_EndpointPath scope"

text \<open>What a snapshot says, apart from its identity, its times and its cost.\<close>

definition verdict :: "ChannelHealthSnapshot \<Rightarrow> ChannelHealthSnapshot" where
  "verdict x = (without_cost x)\<lparr>snap_ID := '''', snap_BucketStart := 0, snap_CreatedAt := 0\<rparr>"

lemma verdict_frame:
  "verdict (x\<lparr>snap_ID := i\<rparr>) = verdict x" "verdict (x\<lparr>snap_CreatedAt := c\<rparr>) = verdict x" "verdict (x\<lparr>snap_BucketStart := b\<rparr>) = verdict x"
  by (simp_all add: verdict_def without_cost_def)

lemma sameChannelHealthSnapshot_verdict: "sameChannelHealthSnapshot x y d \<Longrightarrow> verdict x = verdict y"
proof -
  assume same: "sameChannelHealthSnapshot x y d"
  from arg_cong [OF same [unfolded sameChannelHealthSnapshot_def Let_def, THEN conjunct1], of verdict]
  show ?thesis by (cases d) (simp_all only: verdict_frame if_True if_False)
qed

lemma normalize_verdict: "verdict (fst (normalizeChannelHealthSnapshot x t)) = verdict x"
  by (simp add: normalizeChannelHealthSnapshot_def Let_def verdict_def without_cost_def)

lemma verdict_ID: "x\<lparr>snap_ID := i\<rparr> = y\<lparr>snap_ID := i\<rparr> \<Longrightarrow> verdict x = verdict y"
  by (metis verdict_frame(1))

lemma UpsertChannelHealthSnapshot_verdict:
  "UpsertChannelHealthSnapshot nw c input s = (Inr x, t) \<Longrightarrow> verdict x = verdict input \<and> channelObs t = channelObs s"
proof -
  assume U: "UpsertChannelHealthSnapshot nw c input s = (Inr x, t)"
  have "channelObs t = channelObs s" using UpsertChannelHealthSnapshot_extends [OF U] by (simp add: evidence_extends_def)
  moreover from U have "verdict x = verdict input"
    by (rule UpsertChannelHealthSnapshot_cases)
       (auto dest: sameChannelHealthSnapshot_verdict verdict_ID simp: normalize_verdict)
  ultimately show ?thesis by simp
qed

lemma mset_scope_observations:
  assumes "ListChannelObservations c (scopeFilter scope since until) s = Inr obs" "since \<noteq> 0" "until \<noteq> 0"
  shows "mset obs = mset (filter (\<lambda>x. inScope scope x \<and> since \<le> ob_ObservedAt x \<and> ob_ObservedAt x \<le> until) (channelObs s))"
proof -
  have "observationMatches (scopeFilter scope since until) = (\<lambda>x. inScope scope x \<and> since \<le> ob_ObservedAt x \<and> ob_ObservedAt x \<le> until)"
    using assms(2,3) by (auto simp: fun_eq_iff observationMatches_def scopeFilter_def inScope_def IsZero_def)
  with assms(1) show ?thesis
    by (auto simp: ListChannelObservations_def limited_def scopeFilter_def split: option.splits)
qed

lemma RecomputeScopeAt_loop_verdicts:
  assumes "RecomputeScopeAt_loop cs svc scope now ws out s = (Inr snaps, t)"
    and "\<forall>w \<in> set ws. now - HealthWindow_Duration w \<noteq> 0" "now \<noteq> 0"
  shows "\<exists>new. snaps = out @ new \<and> map (\<lambda>x. Some (verdict x)) new = map (\<lambda>w. map_option verdict (AggregateScope scope w
      (filter (\<lambda>x. inScope scope x \<and> now - HealthWindow_Duration w \<le> ob_ObservedAt x \<and> ob_ObservedAt x \<le> now) (channelObs s))
      (svc_thresholds svc))) ws"
  using assms
proof (induction ws arbitrary: cs out s)
  case (Cons w ws)
  let ?in = "\<lambda>x. inScope scope x \<and> now - HealthWindow_Duration w \<le> ob_ObservedAt x \<and> ob_ObservedAt x \<le> now"
  obtain obs snap saved s' where
    o: "ListChannelObservations (fst (cs 0)) (scopeFilter scope (now - HealthWindow_Duration w) now) s = Inr obs"
    and a: "AggregateScope scope w obs (svc_thresholds svc) = Some snap"
    and u: "UpsertChannelHealthSnapshot (snd (cs 1)) (fst (cs 1))
      (snap\<lparr>snap_BucketStart := time_Truncate now (svc_bucketSize svc), snap_CreatedAt := now\<rparr>) s = (Inr saved, s')"
    and l: "RecomputeScopeAt_loop (\<lambda>k. cs (k + 2)) svc scope now ws (out @ [saved]) s' = (Inr snaps, t)"
    using Cons.prems(1) by (auto split: sum.splits option.splits prod.splits)
  note v = UpsertChannelHealthSnapshot_verdict [OF u]
  have "map_option without_cost (AggregateScope scope w obs (svc_thresholds svc)) =
    map_option without_cost (AggregateScope scope w (filter ?in (channelObs s)) (svc_thresholds svc))"
    by (rule AggregateScope_mset, rule mset_scope_observations [OF o]) (use Cons.prems in simp_all)
  then obtain b where b: "AggregateScope scope w (filter ?in (channelObs s)) (svc_thresholds svc) = Some b" "without_cost snap = without_cost b"
    using a by (auto simp: map_option_case split: option.splits)
  have "verdict saved = verdict snap" using v by (simp add: verdict_def without_cost_def)
  also have "\<dots> = verdict b" using b(2) by (simp add: verdict_def)
  finally have "verdict saved = verdict b" .
  moreover obtain new where "snaps = (out @ [saved]) @ new" "map (\<lambda>x. Some (verdict x)) new = map (\<lambda>w. map_option verdict (AggregateScope scope w
      (filter (\<lambda>x. inScope scope x \<and> now - HealthWindow_Duration w \<le> ob_ObservedAt x \<and> ob_ObservedAt x \<le> now) (channelObs s))
      (svc_thresholds svc))) ws"
    using Cons.IH [OF l] Cons.prems(2,3) unfolding v [THEN conjunct2] by auto
  ultimately show ?case using b(1) by (intro exI [of _ "saved # new"]) simp
qed simp

text \<open>Without a cancelled context, a recomputation succeeds.\<close>

lemma UpsertChannelHealthSnapshot_succeeds:
  assumes "snap_ID input = ''''"
  shows "\<exists>x t. UpsertChannelHealthSnapshot nw None input s = (Inr x, t)"
proof -
  obtain n d where n: "normalizeChannelHealthSnapshot input (nw 0) = (n, d)" by force
  have "snap_ID (fst (normalizeChannelHealthSnapshot input (nw 0))) = snap_ID input"
    by (simp add: normalizeChannelHealthSnapshot_def Let_def)
  then have "snap_ID n = ''''" using n assms by simp
  then show ?thesis
    by (cases "find (\<lambda>x. sameChannelHealthSnapshotScopeBucket x n \<and> sameChannelHealthSnapshot x n d) (channelSnapshots s)")
       (simp_all add: UpsertChannelHealthSnapshot_def n split: prod.splits)
qed

lemma AggregateScope_succeeds:
  assumes "int (length os) < 2 ^ 53" "list_all observation_ok os"
  shows "\<exists>snap. AggregateScope scope w os t = Some snap \<and> snap_ID snap = ''''"
proof (cases "os = []")
  case True
  then show ?thesis by (simp add: AggregateScope_def scopeSnapshot_def emptySnapshot_def)
next
  case False
  have "snap_ID (scored th k (rated os a b c d (scopeSnapshot scope w n))) = ''''" for th k a b c d n
    by (simp add: scored_eq Let_def rated_def scopeSnapshot_def emptySnapshot_def)
  then show ?thesis using AggregateScope_rated [OF False assms, of scope w t] by metis
qed

lemma ListChannelObservations_ok:
  assumes "ListChannelObservations None (scopeFilter scope since until) s = Inr obs"
    "int (length (channelObs s)) < 2 ^ 53" "list_all observation_ok (channelObs s)"
  shows "int (length obs) < 2 ^ 53" "list_all observation_ok obs"
proof -
  let ?l = "filter (observationMatches (scopeFilter scope since until)) (channelObs s)"
  have obs: "obs = go_sort (\<lambda>x y. ob_ObservedAt y < ob_ObservedAt x) ?l"
    using assms(1) by (simp add: ListChannelObservations_def limited_def scopeFilter_def)
  have "int (length ?l) \<le> int (length (channelObs s))" by simp
  then show "int (length obs) < 2 ^ 53" using assms(2) unfolding obs length_go_sort by linarith
  show "list_all observation_ok obs" using assms(3) by (simp add: obs list_all_iff)
qed

lemma RecomputeScopeAt_loop_succeeds:
  assumes "\<And>k. fst (cs k) = None" "int (length (channelObs s)) < 2 ^ 53" "list_all observation_ok (channelObs s)"
  shows "\<exists>snaps t. RecomputeScopeAt_loop cs svc scope now ws out s = (Inr snaps, t)"
  using assms
proof (induction ws arbitrary: cs out s)
  case (Cons w ws)
  obtain obs where o: "ListChannelObservations None (scopeFilter scope (now - HealthWindow_Duration w) now) s = Inr obs"
    by (simp add: ListChannelObservations_def)
  obtain snap where a: "AggregateScope scope w obs (svc_thresholds svc) = Some snap" "snap_ID snap = ''''"
    using AggregateScope_succeeds [OF ListChannelObservations_ok [OF o Cons.prems(2,3)]] by blast
  let ?in = "snap\<lparr>snap_BucketStart := time_Truncate now (svc_bucketSize svc), snap_CreatedAt := now\<rparr>"
  obtain x t where u: "UpsertChannelHealthSnapshot (snd (cs 1)) None ?in s = (Inr x, t)"
    using UpsertChannelHealthSnapshot_succeeds [of ?in "snd (cs 1)" s] a(2) by auto
  have "channelObs t = channelObs s" using UpsertChannelHealthSnapshot_verdict [OF u] ..
  then show ?case using Cons.IH [of "\<lambda>k. cs (k + 2)" t "out @ [x]"] Cons.prems o a(1) u by simp
qed simp

section \<open>Properties\<close>

definition sample_health_store :: HealthStore where
  "sample_health_store = \<lparr>base = NewMemoryStore\<lparr>upstreamChannels := [sample_upstream],
       upstreamPools := [\<lparr>pool_ID = ''p1'', pool_ResourceClass = ResourceClassOther '''', pool_DeliveryMode = UpstreamDeliveryConnector,
         pool_Name = '''', pool_Provider = '''', pool_Models = [], pool_Region = '''', pool_Status = UpstreamPoolActive,
         pool_Description = '''', pool_Labels = [], pool_SafetyStockThreshold = 0, pool_CreatedAt = 1, pool_UpdatedAt = 1\<rparr>]\<rparr>,
     channelObs = [], channelSnapshots = [], channelAllocations = [(''c1'', \<lparr>ca_UserID = 7, ca_SourceID = '''', ca_FirstPlanID = '''', ca_CreatedAt = 1\<rparr>)],
     upstreamIntelVersions = [], upstreamIntelFactMutations = [], upstreamIntelLineageWatermarks = []\<rparr>"

lemma sample_health_init: "health_init sample_health_store"
  by (simp add: health_init_def sample_health_store_def)

text \<open>C39. The background sweep only adds evidence: whatever fails or is cancelled on the way,
  observations and allocations stay as they are, every snapshot that was stored stays stored,
  and the version lineage of each owner grows by exactly one quality mutation for each new
  snapshot of that owner's channels, in order, naming it.\<close>

theorem sweep_only_adds_evidence:
  "channelObs (sweep c cs svc s) = channelObs s \<and> channelAllocations (sweep c cs svc s) = channelAllocations s \<and>
   (\<exists>new. channelSnapshots (sweep c cs svc s) = channelSnapshots s @ new \<and>
     (\<forall>u. \<exists>qs. factMutations (sweep c cs svc s) u = factMutations s u @ qs \<and>
        list_all (\<lambda>m. fm_Kind m = FactMutationQuality) qs \<and>
        map fm_EvidenceID qs = map snap_ID (filter (\<lambda>x. 0 < u \<and>
          map_option ca_UserID (map_of (channelAllocations s) (snap_ChannelID x)) = Some u) new)))"
  using sweep_extends [of s c cs svc] unfolding evidence_extends_def owns_def [abs_def] by blast

text \<open>C40. The proof of a quality-only advance is exact. In every reachable store, the proof that
  the store builds for an owner from a recorded baseline to the current version passes the
  independent check if and only if every mutation since the baseline is a quality mutation with
  evidence and a time, in the order of time; one write of another kind makes it fail.\<close>

theorem quality_only_proof_is_exact:
  assumes "reach health_init health_step s" "int (length (factMutations s u)) + 1 < 2 ^ 63"
  shows "fv_FactVersion (currentFactVersion s u) = int (length (factMutations s u)) \<and>
    (ValidQualityOnlyFactAdvanceProof (memoryQualityOnlyFactAdvanceProof u b (fv_FactVersion (currentFactVersion s u)) s) u b
       (fv_FactVersion (currentFactVersion s u)) \<longleftrightarrow>
     0 < u \<and> 0 < b \<and> b < int (length (factMutations s u)) \<and>
     list_all (\<lambda>m. fm_Kind m = FactMutationQuality \<and> TrimSpace (fm_EvidenceID m) \<noteq> '''' \<and> \<not> IsZero (fm_CreatedAt m))
       (drop (nat b) (factMutations s u)) \<and>
     sorted (map fm_CreatedAt (drop (nat b) (factMutations s u))))"
proof -
  have ok: "lineage_ok s" by (rule lineage.reach_inv [OF assms(1)])
  have v: "fv_FactVersion (currentFactVersion s u) = int (length (factMutations s u))"
    using ok assms(2) unfolding lineage_ok_def by (simp add: wrap64_small)
  show ?thesis
    using advance_proof_iff [OF ok assms(2) refl, of b] unfolding v Let_def quality_evidence_def [abs_def] by blast
qed

definition bumped :: HealthStore where
  "bumped = bumpUpstreamIntelligenceFactVersionLocked 7 5000 FactMutationQuality ''e2''
     (bumpUpstreamIntelligenceFactVersionLocked 7 4000 FactMutationLink ''l1'' sample_health_store)"

theorem quality_only_proof_is_exact_witness:
  "ValidQualityOnlyFactAdvanceProof (memoryQualityOnlyFactAdvanceProof 7 1 2 bumped) 7 1 2"
proof -
  have "reach health_init health_step (bumpUpstreamIntelligenceFactVersionLocked 7 4000 FactMutationLink ''l1'' sample_health_store)"
    by (rule reach_step [where s = sample_health_store]) (simp_all add: reach_init sample_health_init health_step.intelligence)
  then have r: "reach health_init health_step bumped"
    unfolding bumped_def by (rule reach_step) (simp add: health_step.intelligence)
  have m: "factMutations bumped 7 = [\<lparr>fm_UserID = 7, fm_FactVersion = 1, fm_Kind = FactMutationLink, fm_EvidenceID = ''l1'', fm_CreatedAt = 4000\<rparr>,
      \<lparr>fm_UserID = 7, fm_FactVersion = 2, fm_Kind = FactMutationQuality, fm_EvidenceID = ''e2'', fm_CreatedAt = 5000\<rparr>]"
    unfolding bumped_def bump_facts
    by (simp add: factMutations_def currentFactVersion_def sample_health_store_def normalizeUpstreamTime_def time_Truncate_def IsZero_def wrap64_def)
  have "TrimSpace ''e2'' = ''e2''" by (rule TrimSpace_plain) (simp add: plain_def)
  then show ?thesis using quality_only_proof_is_exact [OF r, of 7 1] by (auto simp: m IsZero_def)
qed

text \<open>The current snapshots are the newest: a query without history and without limit lists,
  for each combination of instance, channel, model, capability, path and window that a matching
  snapshot has, exactly one snapshot, and no matching snapshot of that combination has a later
  bucket, creation time and id.\<close>

theorem current_snapshots_are_newest:
  assumes "ListChannelHealthSnapshots None f s = Inr out" "\<not> sf_IncludeHistory f" "sf_Limit f \<le> 0"
  shows "distinct (map snapshotKey out) \<and> set out \<subseteq> set (channelSnapshots s) \<and>
    (\<forall>y \<in> set (channelSnapshots s). snapshotMatches f y \<longrightarrow> (\<exists>x \<in> set out. snapshotKey x = snapshotKey y \<and>
      (snap_BucketStart y, snap_CreatedAt y, snap_ID y) \<le> (snap_BucketStart x, snap_CreatedAt x, snap_ID x)))"
proof -
  let ?m = "go_sort snapshotBefore (filter (snapshotMatches f) (channelSnapshots s))"
  have out: "out = currentSnapshots ?m []"
    using assms by (simp add: ListChannelHealthSnapshots_def limited_def)
  have srt: "sorted_wrt (\<lambda>x y. snapshot_rank y \<le> snapshot_rank x) ?m"
    using snapshots.sorted_go_sort [of "filter (snapshotMatches f) (channelSnapshots s)"] by (simp add: snapshotBefore_rank not_less)
  have keys: "set (map snapshotKey out) = set (map snapshotKey ?m)" unfolding out currentSnapshots_keys(2) by simp
  have "\<exists>x \<in> set out. snapshotKey x = snapshotKey y \<and> snapshot_rank y \<le> snapshot_rank x"
    if "y \<in> set (channelSnapshots s)" "snapshotMatches f y" for y
  proof -
    have y: "y \<in> set ?m" using that by simp
    then have "snapshotKey y \<in> snapshotKey ` set out" using keys unfolding set_map by blast
    then obtain x where x: "x \<in> set out" "snapshotKey x = snapshotKey y" by auto
    then show ?thesis using currentSnapshots_newest [OF srt _ y, of x "[]"] out by auto
  qed
  moreover have "x \<in> set (channelSnapshots s)" if "x \<in> set out" for x
  proof -
    have "snapshotKey x \<in> snapshotKey ` set ?m" using keys that unfolding set_map by blast
    then obtain y where "y \<in> set ?m" "snapshotKey y = snapshotKey x" by auto
    then show ?thesis using currentSnapshots_newest [OF srt, of x "[]" y] that out by auto
  qed
  moreover have "distinct (map snapshotKey out)" unfolding out by (rule currentSnapshots_keys)
  ultimately show ?thesis unfolding snapshot_rank_def by blast
qed

theorem current_snapshots_are_newest_witness:
  "\<exists>out. ListChannelHealthSnapshots None (currentFilter ''c1'') (sample_health_store\<lparr>channelSnapshots := [emptySnapshot\<lparr>snap_ChannelID := ''c1''\<rparr>]\<rparr>) = Inr out \<and>
     out \<noteq> []"
proof -
  let ?s = "sample_health_store\<lparr>channelSnapshots := [emptySnapshot\<lparr>snap_ChannelID := ''c1''\<rparr>]\<rparr>"
  obtain out where o: "ListChannelHealthSnapshots None (currentFilter ''c1'') ?s = Inr out"
    by (simp add: ListChannelHealthSnapshots_def Let_def)
  have "snapshotMatches (currentFilter ''c1'') (emptySnapshot\<lparr>snap_ChannelID := ''c1''\<rparr>)"
    by (simp add: snapshotMatches_def currentFilter_def IsZero_def)
  moreover have "\<not> sf_IncludeHistory (currentFilter ''c1'')" "sf_Limit (currentFilter ''c1'') \<le> 0" "channelSnapshots ?s \<noteq> []"
    "hd (channelSnapshots ?s) = emptySnapshot\<lparr>snap_ChannelID := ''c1''\<rparr>" by (simp_all add: currentFilter_def)
  ultimately have "out \<noteq> []" using current_snapshots_are_newest [OF o] by (metis empty_iff hd_in_set list.set(1))
  with o show ?thesis by blast
qed

text \<open>Downstreams are isolated: a successful recomputation of a scope returns one snapshot per
  window of the service, and its verdict is the aggregate of exactly the stored observations of
  that channel, instance, model, capability and path in that window, whatever else is stored.\<close>

theorem recompute_is_scoped:
  assumes "RecomputeScopeAt cs svc scope now s = (Inr snaps, t)" "\<forall>w \<in> set (svc_windows svc). now \<noteq> HealthWindow_Duration w" "now \<noteq> 0"
  shows "map (\<lambda>x. Some (verdict x)) snaps = map (\<lambda>w. map_option verdict (AggregateScope scope w
      (filter (\<lambda>x. ob_ChannelID x = scp_ChannelID scope \<and> ob_InstanceID x = scp_InstanceID scope \<and> ob_Model x = scp_Model scope \<and>
          ob_Capability x = scp_Capability scope \<and> ob_EndpointPath x = scp_EndpointPath scope \<and>
          now - HealthWindow_Duration w \<le> ob_ObservedAt x \<and> ob_ObservedAt x \<le> now) (channelObs s))
      (svc_thresholds svc))) (svc_windows svc)"
  using RecomputeScopeAt_loop_verdicts [OF assms(1) [unfolded RecomputeScopeAt_def]] assms(2,3)
  by (simp add: inScope_def conj_assoc)

theorem recompute_is_scoped_witness:
  "\<exists>snaps t. RecomputeScopeAt (\<lambda>_. (None, \<lambda>_. 1)) (NewService []) sample_scope Hour sample_health_store = (Inr snaps, t) \<and> length snaps = 2"
proof -
  let ?r = "RecomputeScopeAt (\<lambda>_. (None, \<lambda>_. 1)) (NewService []) sample_scope Hour sample_health_store"
  have "\<exists>snaps t. ?r = (Inr snaps, t)"
    unfolding RecomputeScopeAt_def by (rule RecomputeScopeAt_loop_succeeds) (simp_all add: sample_health_store_def)
  then obtain snaps t where r: "?r = (Inr snaps, t)" by blast
  from recompute_is_scoped [OF r] have "length (map (\<lambda>x. Some (verdict x)) snaps) = 2" by (simp add: NewService_def)
  with r show ?thesis by simp
qed

end
