(* ===== verification/Versioned_Table.thy ===== *)
theory Versioned_Table
  imports E2M_Prelude
begin

text \<open>
  The contract of the tables with optimistic versions: a row carries an \<open>int64\<close> version, a
  writer names the version it has read, and a successful write replaces exactly that version.
  The lemmas hold for any number of writers in between; nothing is assumed about versions
  staying below the end of \<open>int64\<close>, where the addition wraps to a negative number that no
  writer may name.
\<close>

text \<open>How far a version has come: one outside \<open>int64\<close> counts as before all others, a negative one
  as the end.\<close>

definition version_age :: "int64 \<Rightarrow> int" where
  "version_age v = (if \<not> in64 v then -1 else if v < 0 then 2 ^ 63 else v)"

lemma version_age_next: "0 \<le> v \<Longrightarrow> version_age v < version_age (wrap64 (v + 1))"
proof -
  assume v: "0 \<le> v"
  consider "\<not> in64 v" | "in64 v" "v + 1 < 2 ^ 63" | "v = 2 ^ 63 - 1" using v unfolding in64_def by fastforce
  then show ?thesis
  proof cases
    case 1
    have "in64 (wrap64 (v + 1))" by simp
    then show ?thesis using 1 by (auto simp: version_age_def)
  next
    case 2
    then have "in64 (v + 1)" using v by (simp add: in64_def)
    then show ?thesis using 2 v by (simp add: version_age_def wrap64_id)
  next
    case 3
    then show ?thesis by (simp add: version_age_def wrap64_def in64_def)
  qed
qed

lemma version_age_0: "version_age 0 < version_age 1"
  by (simp add: version_age_def in64_def)

locale versioned_table =
  fixes lookup :: "'s \<Rightarrow> 'k \<Rightarrow> 'r option"
    and ver :: "'r \<Rightarrow> int64"
    and writes :: "'s \<Rightarrow> 'k \<Rightarrow> int64 \<Rightarrow> 'r \<Rightarrow> 's \<Rightarrow> bool"
  assumes write_same: "writes s k v r t \<Longrightarrow> lookup t k = Some r"
    and write_other: "writes s k v r t \<Longrightarrow> j \<noteq> k \<Longrightarrow> lookup t j = lookup s j"
    and write_new: "writes s k v r t \<Longrightarrow> lookup s k = None \<Longrightarrow> v = 0 \<and> ver r = 1"
    and write_old: "writes s k v r t \<Longrightarrow> lookup s k = Some c \<Longrightarrow> 0 \<le> v \<and> ver c = v \<and> ver r = wrap64 (v + 1)"
begin

definition evolve :: "'s \<Rightarrow> 's \<Rightarrow> bool" where
  "evolve = (\<lambda>s t. \<exists>k v r. writes s k v r t)\<^sup>*\<^sup>*"

lemma evolve_refl [simp, intro]: "evolve s s"
  by (simp add: evolve_def)

lemma evolve_trans [trans]: "evolve s t \<Longrightarrow> evolve t u \<Longrightarrow> evolve s u"
  unfolding evolve_def by (rule rtranclp_trans)

lemma evolve_write: "writes s k v r t \<Longrightarrow> evolve s t"
  unfolding evolve_def by blast

text \<open>A row stays, and every write to it moves its version on.\<close>

lemma evolve_row:
  assumes "evolve s t" "lookup s k = Some c"
  shows "\<exists>d. lookup t k = Some d \<and> (d = c \<or> version_age (ver c) < version_age (ver d))"
  using assms unfolding evolve_def
proof (induction rule: rtranclp_induct)
  case base
  then show ?case by blast
next
  case (step t u)
  then obtain d where d: "lookup t k = Some d" "d = c \<or> version_age (ver c) < version_age (ver d)" by blast
  from step.hyps(2) obtain j v r where w: "writes t j v r u" by blast
  show ?case
  proof (cases "j = k")
    case True
    then have "lookup u k = Some r" "version_age (ver d) < version_age (ver r)"
      using write_same [OF w] write_old [OF w, of d] d(1) version_age_next by auto
    then show ?thesis using d(2) by auto
  next
    case False
    then show ?thesis using write_other [OF w, of k] d by auto
  qed
qed

text \<open>The version identifies the row: as long as it is the one that was read, so is the row.\<close>

lemma same_version_same_row:
  "evolve s t \<Longrightarrow> lookup s k = Some c \<Longrightarrow> lookup t k = Some d \<Longrightarrow> ver d = ver c \<Longrightarrow> d = c"
  using evolve_row by fastforce

text \<open>Of the writers that expect the same version of a row one succeeds.\<close>

lemma one_winner:
  assumes first: "writes s k v r s1" and env: "evolve s1 t"
  shows "\<not> writes t k v r' t1"
proof
  assume second: "writes t k v r' t1"
  obtain d where d: "lookup t k = Some d" "version_age (ver r) \<le> version_age (ver d)"
    using evolve_row [OF env write_same [OF first]] by fastforce
  have "version_age v < version_age (ver r)"
  proof (cases "lookup s k")
    case None
    then show ?thesis using write_new [OF first] version_age_0 by simp
  next
    case (Some c)
    then show ?thesis using write_old [OF first] version_age_next by auto
  qed
  moreover have "ver d = v" using write_old [OF second d(1)] by simp
  ultimately show False using d(2) by simp
qed

text \<open>A write that expects the version of a row that was read replaces that row.\<close>

lemma write_replaces_read:
  assumes "lookup s k = Some c" "evolve s t" "writes t k (ver c) r u"
  shows "lookup t k = Some c"
  using assms evolve_row [OF assms(2,1)] write_old [OF assms(3)] by fastforce

end

end
