(* ===== verification/Circuit_Store.thy ===== *)
theory Circuit_Store
  imports Quality_Circuit Versioned_Table "HOL-Library.Product_Lexorder"
begin

text \<open>
  The durable circuits: \<open>packages/e2m-contracts/quality_circuit.go\<close> and
  \<open>app/e2m-core/internal/store/memory_quality_circuit.go\<close>. The table is the list
  \<open>s.qualityCircuits\<close>; the state of a circuit has the same constants as in the strategy, and
  the copies of the time pointers are the values themselves.
\<close>

section \<open>Data\<close>

fun QualityCircuitState_Valid :: "QualityCircuitState \<Rightarrow> bool" where
  "QualityCircuitState_Valid (CircuitStateOther _) = False"
| "QualityCircuitState_Valid _ = True"

record QualityCircuitRuntime =
  qr_PlanID :: string
  qr_ChannelID :: string
  qr_State :: QualityCircuitState
  qr_OpenedAt :: "time option"
  qr_ProbeAfter :: "time option"
  qr_HalfOpenSince :: "time option"
  qr_LastProbeAt :: "time option"
  qr_LastTransitionAt :: "time option"
  qr_OpenCount :: int64
  qr_ConsecutiveProbeSuccesses :: int64
  qr_LastScore :: float64
  qr_LastReason :: Reason
  qr_RestorePending :: bool
  qr_RecoveryReady :: bool
  qr_RecoveryStage :: int64
  qr_RecoveryStageStartedAt :: "time option"
  qr_RecoveryObserveAfter :: "time option"
  qr_Version :: int64
  qr_CreatedAt :: time
  qr_UpdatedAt :: time

definition QualityCircuitRuntime_zero :: QualityCircuitRuntime where
  "QualityCircuitRuntime_zero = \<lparr>qr_PlanID = '''', qr_ChannelID = '''', qr_State = CircuitStateOther '''', qr_OpenedAt = None,
     qr_ProbeAfter = None, qr_HalfOpenSince = None, qr_LastProbeAt = None, qr_LastTransitionAt = None, qr_OpenCount = 0,
     qr_ConsecutiveProbeSuccesses = 0, qr_LastScore = Fin 0, qr_LastReason = Reason_zero, qr_RestorePending = False,
     qr_RecoveryReady = False, qr_RecoveryStage = 0, qr_RecoveryStageStartedAt = None, qr_RecoveryObserveAfter = None,
     qr_Version = 0, qr_CreatedAt = 0, qr_UpdatedAt = 0\<rparr>"

record QualityCircuitRuntimeFilter =
  qf_PlanID :: string
  qf_ChannelID :: string
  qf_States :: "QualityCircuitState list"
  qf_ProbeDueBefore :: time
  qf_Limit :: int64

definition QualityCircuitRuntimeFilter_Matches :: "QualityCircuitRuntimeFilter \<Rightarrow> QualityCircuitRuntime \<Rightarrow> bool" where
  "QualityCircuitRuntimeFilter_Matches f rt \<longleftrightarrow>
     \<not> (qf_PlanID f \<noteq> '''' \<and> qr_PlanID rt \<noteq> qf_PlanID f) \<and>
     \<not> (qf_ChannelID f \<noteq> '''' \<and> qr_ChannelID rt \<noteq> qf_ChannelID f) \<and>
     \<not> (qf_States f \<noteq> [] \<and> qr_State rt \<notin> set (qf_States f)) \<and>
     \<not> (\<not> IsZero (qf_ProbeDueBefore f) \<and> (case qr_ProbeAfter rt of None \<Rightarrow> True | Some t \<Rightarrow> qf_ProbeDueBefore f < t))"

section \<open>Operations\<close>

type_synonym circuits = "QualityCircuitRuntime list"

definition circuit_key :: "QualityCircuitRuntime \<Rightarrow> string \<times> string" where
  "circuit_key rt = (qr_PlanID rt, qr_ChannelID rt)"

abbreviation find_circuit :: "circuits \<Rightarrow> string \<times> string \<Rightarrow> QualityCircuitRuntime option" where
  "find_circuit cs k \<equiv> find (\<lambda>rt. circuit_key rt = k) cs"

definition GetQualityCircuitRuntime :: "ctx \<Rightarrow> string \<Rightarrow> string \<Rightarrow> circuits \<Rightarrow> store_error + QualityCircuitRuntime" where
  "GetQualityCircuitRuntime c planID channelID cs =
     (case c of Some e \<Rightarrow> Inl (ErrContext e) | None \<Rightarrow>
      case find_circuit cs (planID, channelID) of Some rt \<Rightarrow> Inr rt | None \<Rightarrow> Inl ErrNotFound)"

text \<open>The comparator of \<open>sort.SliceStable\<close>: by the next probe, circuits without one last, then by
  scope.\<close>

definition circuit_less :: "QualityCircuitRuntime \<Rightarrow> QualityCircuitRuntime \<Rightarrow> bool" where
  "circuit_less x y =
     (let tail = (if qr_PlanID x \<noteq> qr_PlanID y then qr_PlanID x < qr_PlanID y else qr_ChannelID x < qr_ChannelID y) in
      case (qr_ProbeAfter x, qr_ProbeAfter y) of
        (Some l, Some r) \<Rightarrow> if l \<noteq> r then l < r else tail
      | (Some _, None) \<Rightarrow> True
      | (None, Some _) \<Rightarrow> False
      | (None, None) \<Rightarrow> tail)"

definition ListQualityCircuitRuntimes :: "ctx \<Rightarrow> QualityCircuitRuntimeFilter \<Rightarrow> circuits \<Rightarrow> store_error + circuits" where
  "ListQualityCircuitRuntimes c f cs =
     (case c of Some e \<Rightarrow> Inl (ErrContext e) | None \<Rightarrow>
      let out = go_sort circuit_less (filter (QualityCircuitRuntimeFilter_Matches f) cs)
      in Inr (if 0 < qf_Limit f \<and> qf_Limit f < int (length out) then take (nat (qf_Limit f)) out else out))"

definition validRecoveryStage :: "int64 \<Rightarrow> bool" where
  "validRecoveryStage stage \<longleftrightarrow> stage = 0 \<or> stage = 10 \<or> stage = 25 \<or> stage = 50 \<or> stage = 100"

definition validQualityCircuitRuntime :: "QualityCircuitRuntime \<Rightarrow> int64 \<Rightarrow> bool" where
  "validQualityCircuitRuntime rt expectedVersion \<longleftrightarrow>
     qr_PlanID rt \<noteq> '''' \<and> qr_ChannelID rt \<noteq> '''' \<and> QualityCircuitState_Valid (qr_State rt) \<and> 0 \<le> expectedVersion \<and>
     0 \<le> qr_OpenCount rt \<and> 0 \<le> qr_ConsecutiveProbeSuccesses rt \<and> \<not> IsNaN (qr_LastScore rt) \<and>
     qr_LastScore rt \<noteq> PInf \<and> qr_LastScore rt \<noteq> NInf \<and> fle (Fin 0) (qr_LastScore rt) \<and> fle (qr_LastScore rt) (Fin 100) \<and>
     validRecoveryStage (qr_RecoveryStage rt)"

definition UpsertQualityCircuitRuntime ::
  "time \<Rightarrow> ctx \<Rightarrow> QualityCircuitRuntime \<Rightarrow> int64 \<Rightarrow> circuits \<Rightarrow> (store_error + QualityCircuitRuntime) \<times> circuits" where
  "UpsertQualityCircuitRuntime now c input expectedVersion cs =
     (case c of Some e \<Rightarrow> (Inl (ErrContext e), cs) | None \<Rightarrow>
      if \<not> validQualityCircuitRuntime input expectedVersion then (Inl ErrConflict, cs)
      else case find_circuit cs (circuit_key input) of
        Some current \<Rightarrow>
          if expectedVersion = 0 \<or> qr_Version current \<noteq> expectedVersion then (Inl ErrConflict, cs)
          else let updated = input\<lparr>qr_CreatedAt := qr_CreatedAt current, qr_UpdatedAt := now, qr_Version := wrap64 (qr_Version current + 1)\<rparr>
            in (Inr updated, update_first (\<lambda>rt. circuit_key rt = circuit_key input) (\<lambda>_. updated) cs)
      | None \<Rightarrow>
          if expectedVersion \<noteq> 0 then (Inl ErrConflict, cs)
          else let created = input\<lparr>qr_Version := 1, qr_CreatedAt := now, qr_UpdatedAt := now\<rparr>
            in (Inr created, cs @ [created]))"

section \<open>One write at a time\<close>

lemma find_update_first_other:
  "(\<And>x. p x \<Longrightarrow> \<not> q x \<and> \<not> q (f x)) \<Longrightarrow> find q (update_first p f xs) = find q xs"
  by (induction xs) auto

lemma find_circuit_key: "find_circuit cs k = Some rt \<Longrightarrow> circuit_key rt = k"
  by (auto dest: find_SomeD)

lemma circuit_key_stored [simp]:
  "circuit_key (input\<lparr>qr_CreatedAt := a, qr_UpdatedAt := b, qr_Version := v\<rparr>) = circuit_key input"
  "circuit_key (input\<lparr>qr_Version := v, qr_CreatedAt := a, qr_UpdatedAt := b\<rparr>) = circuit_key input"
  by (simp_all add: circuit_key_def)

lemma UpsertQualityCircuitRuntime_cases:
  assumes "UpsertQualityCircuitRuntime now c input v cs = (res, cs')"
  obtains (rejected) e where "res = Inl e" "cs' = cs" "c \<noteq> None \<or> e = ErrConflict"
  | (updated) current where "res = Inr (input\<lparr>qr_CreatedAt := qr_CreatedAt current, qr_UpdatedAt := now, qr_Version := wrap64 (v + 1)\<rparr>)"
      "find_circuit cs (circuit_key input) = Some current" "qr_Version current = v" "0 < v"
      "cs' = update_first (\<lambda>rt. circuit_key rt = circuit_key input)
         (\<lambda>_. input\<lparr>qr_CreatedAt := qr_CreatedAt current, qr_UpdatedAt := now, qr_Version := wrap64 (v + 1)\<rparr>) cs"
      "c = None" "validQualityCircuitRuntime input v"
  | (created) "res = Inr (input\<lparr>qr_Version := 1, qr_CreatedAt := now, qr_UpdatedAt := now\<rparr>)"
      "find_circuit cs (circuit_key input) = None" "v = 0"
      "cs' = cs @ [input\<lparr>qr_Version := 1, qr_CreatedAt := now, qr_UpdatedAt := now\<rparr>]"
      "c = None" "validQualityCircuitRuntime input v"
proof (cases "c = None \<and> validQualityCircuitRuntime input v")
  case False
  then have "\<exists>e. res = Inl e \<and> (c \<noteq> None \<or> e = ErrConflict)" "cs' = cs"
    using assms by (auto simp: UpsertQualityCircuitRuntime_def split: option.splits)
  then show thesis using rejected by blast
next
  case True
  then have v: "0 \<le> v" by (simp add: validQualityCircuitRuntime_def)
  show thesis
  proof (cases "find_circuit cs (circuit_key input)")
    case None
    then show thesis using assms True rejected [of ErrConflict] created
      by (auto simp: UpsertQualityCircuitRuntime_def Let_def split: if_splits)
  next
    case (Some current)
    then show thesis using assms True v rejected [of ErrConflict] updated [of current]
      by (auto simp: UpsertQualityCircuitRuntime_def Let_def split: if_splits)
  qed
qed

text \<open>A successful write of the circuit of a scope that expected the version \<open>v\<close>.\<close>

definition circuit_writes :: "circuits \<Rightarrow> string \<times> string \<Rightarrow> int64 \<Rightarrow> QualityCircuitRuntime \<Rightarrow> circuits \<Rightarrow> bool" where
  "circuit_writes cs k v r cs' \<longleftrightarrow>
     (\<exists>now c input. circuit_key input = k \<and> UpsertQualityCircuitRuntime now c input v cs = (Inr r, cs'))"

lemma circuit_writesI: "UpsertQualityCircuitRuntime now c input v cs = (Inr r, cs') \<Longrightarrow> circuit_writes cs (circuit_key input) v r cs'"
  unfolding circuit_writes_def by blast

lemma circuit_writes_lookup:
  assumes "circuit_writes cs k v r cs'"
  shows "find_circuit cs' k = Some r" "j \<noteq> k \<Longrightarrow> find_circuit cs' j = find_circuit cs j"
proof -
  obtain now c input where u: "UpsertQualityCircuitRuntime now c input v cs = (Inr r, cs')" and k: "circuit_key input = k"
    using assms unfolding circuit_writes_def by blast
  from u have "find_circuit cs' k = Some r \<and> (j \<noteq> k \<longrightarrow> find_circuit cs' j = find_circuit cs j)"
  proof (cases rule: UpsertQualityCircuitRuntime_cases)
    case (updated current)
    let ?p = "\<lambda>rt. circuit_key rt = circuit_key input"
    have same: "find ?p cs' = Some r"
      unfolding updated(5) by (subst find_update_first_same [OF updated(2)]) (use updated(1) in simp_all)
    have other: "find_circuit cs' j = find_circuit cs j" if "j \<noteq> circuit_key input"
      unfolding updated(5) by (rule find_update_first_other) (use that in auto)
    show ?thesis using same other k by simp
  next
    case created
    then show ?thesis using k by (auto simp: find_append split: option.splits)
  qed simp
  then show "find_circuit cs' k = Some r" "j \<noteq> k \<Longrightarrow> find_circuit cs' j = find_circuit cs j" by auto
qed

lemma circuit_writes_version:
  assumes "circuit_writes cs k v r cs'"
  shows "find_circuit cs k = None \<Longrightarrow> v = 0 \<and> qr_Version r = 1"
    "find_circuit cs k = Some d \<Longrightarrow> 0 \<le> v \<and> qr_Version d = v \<and> qr_Version r = wrap64 (v + 1) \<and> 0 < v"
  using assms unfolding circuit_writes_def by (auto elim!: UpsertQualityCircuitRuntime_cases)

interpretation circuit_table: versioned_table find_circuit qr_Version circuit_writes
  by unfold_locales (fact circuit_writes_lookup(1), fact circuit_writes_lookup(2), fact circuit_writes_version(1),
    simp add: circuit_writes_version(2))

text \<open>What any number of schedulers do to the table.\<close>

inductive circuits_evolve :: "circuits \<Rightarrow> circuits \<Rightarrow> bool" where
  evolve_none: "circuits_evolve cs cs"
| evolve_upsert: "circuits_evolve cs cs1 \<Longrightarrow> UpsertQualityCircuitRuntime now c input v cs1 = (r, cs2) \<Longrightarrow> circuits_evolve cs cs2"

lemma circuits_evolve_iff: "circuits_evolve cs cs' \<longleftrightarrow> circuit_table.evolve cs cs'"
proof
  assume "circuits_evolve cs cs'"
  then show "circuit_table.evolve cs cs'"
  proof induction
    case (evolve_upsert cs cs1 now c input v r cs2)
    show ?case
    proof (cases r)
      case (Inl e)
      then show ?thesis using evolve_upsert by (auto elim: UpsertQualityCircuitRuntime_cases)
    next
      case (Inr a)
      then show ?thesis using evolve_upsert circuit_writesI circuit_table.evolve_write circuit_table.evolve_trans by metis
    qed
  qed simp
next
  assume "circuit_table.evolve cs cs'"
  then show "circuits_evolve cs cs'" unfolding circuit_table.evolve_def
    by (induction rule: rtranclp_induct) (auto simp: circuit_writes_def intro: circuits_evolve.intros)
qed

lemma circuits_evolve_trans: "circuits_evolve a b \<Longrightarrow> circuits_evolve b c \<Longrightarrow> circuits_evolve a c"
  unfolding circuits_evolve_iff by (rule circuit_table.evolve_trans)

section \<open>What the table keeps\<close>

definition circuit_row_ok :: "QualityCircuitRuntime \<Rightarrow> bool" where
  "circuit_row_ok rt \<longleftrightarrow> validQualityCircuitRuntime rt 0 \<and> in64 (qr_Version rt) \<and> qr_Version rt \<noteq> 0"

definition circuits_ok :: "circuits \<Rightarrow> bool" where
  "circuits_ok cs \<longleftrightarrow> distinct (map circuit_key cs) \<and> list_all circuit_row_ok cs"

lemma validQualityCircuitRuntime_stored [simp]:
  "validQualityCircuitRuntime (input\<lparr>qr_CreatedAt := a, qr_UpdatedAt := b, qr_Version := n\<rparr>) v = validQualityCircuitRuntime input v"
  "validQualityCircuitRuntime (input\<lparr>qr_Version := n, qr_CreatedAt := a, qr_UpdatedAt := b\<rparr>) v = validQualityCircuitRuntime input v"
  by (simp_all add: validQualityCircuitRuntime_def)

lemma valid_expected: "validQualityCircuitRuntime rt v \<Longrightarrow> validQualityCircuitRuntime rt 0"
  by (simp add: validQualityCircuitRuntime_def)

lemma wrap64_next_nonzero: "0 < v \<Longrightarrow> v < 2 ^ 63 \<Longrightarrow> wrap64 (v + 1) \<noteq> 0"
proof -
  assume v: "0 < v" "v < 2 ^ 63"
  then consider "v + 1 < 2 ^ 63" | "v = 2 ^ 63 - 1" by linarith
  then show ?thesis
  proof cases
    case 1
    then have "in64 (v + 1)" using v by (simp add: in64_def)
    then show ?thesis using v by (simp add: wrap64_id)
  qed (simp add: wrap64_def)
qed

lemma circuits_ok_upsert:
  assumes "UpsertQualityCircuitRuntime now c input v cs = (r, cs')" "circuits_ok cs"
  shows "circuits_ok cs'"
  using assms(1)
proof (cases rule: UpsertQualityCircuitRuntime_cases)
  case (updated current)
  have "v < 2 ^ 63" using find_SomeD [OF updated(2)] assms(2) updated(3)
    by (auto simp: circuits_ok_def list_all_iff circuit_row_ok_def in64_def)
  then have "circuit_row_ok (input\<lparr>qr_CreatedAt := qr_CreatedAt current, qr_UpdatedAt := now, qr_Version := wrap64 (v + 1)\<rparr>)"
    using valid_expected [OF updated(7)] wrap64_next_nonzero updated(4) by (simp add: circuit_row_ok_def)
  then show ?thesis using assms(2) updated set_update_first [OF updated(2)]
    by (auto simp: circuits_ok_def list_all_iff map_update_first)
next
  case created
  moreover have "circuit_key input \<notin> circuit_key ` set cs" using created(2) by (force simp: find_None_iff)
  ultimately show ?thesis using assms(2) valid_expected by (auto simp: circuits_ok_def circuit_row_ok_def in64_def)
qed (use assms(2) in simp)

interpretation circuit_rows: invariant_system "\<lambda>cs. cs = []" "\<lambda>cs cs'. \<exists>now c input v r. UpsertQualityCircuitRuntime now c input v cs = (r, cs')" circuits_ok
  by unfold_locales (auto simp: circuits_ok_def [of "[]"] intro: circuits_ok_upsert)

lemma circuits_ok_evolve: "circuits_evolve cs cs' \<Longrightarrow> circuits_ok cs \<Longrightarrow> circuits_ok cs'"
  by (induction rule: circuits_evolve.induct) (auto intro: circuits_ok_upsert)

section \<open>The order of a listing\<close>

lemma circuit_less_key:
  "circuit_less x y \<longleftrightarrow>
     (qr_ProbeAfter x = None, case qr_ProbeAfter x of None \<Rightarrow> 0 | Some t \<Rightarrow> t, qr_PlanID x, qr_ChannelID x) <
     (qr_ProbeAfter y = None, case qr_ProbeAfter y of None \<Rightarrow> 0 | Some t \<Rightarrow> t, qr_PlanID y, qr_ChannelID y)"
  by (auto simp: circuit_less_def less_prod_def' Let_def split: option.splits)

interpretation circuit_order: strict_weak_order circuit_less
  unfolding circuit_less_key by (rule strict_weak_order_key)

text \<open>A limited listing takes the circuits that are due first.\<close>

lemma ListQualityCircuitRuntimes_first:
  assumes "ListQualityCircuitRuntimes c f cs = Inr out" "x \<in> set out" "y \<in> set cs" "y \<notin> set out" "QualityCircuitRuntimeFilter_Matches f y"
  shows "\<not> circuit_less y x"
proof -
  let ?l = "go_sort circuit_less (filter (QualityCircuitRuntimeFilter_Matches f) cs)"
  have s: "sorted_wrt (\<lambda>x y. \<not> circuit_less y x) ?l" by (rule circuit_order.sorted_go_sort)
  have y: "y \<in> set ?l" using assms(3,5) by simp
  have out: "out = ?l \<or> (\<exists>n. out = take n ?l)"
    using assms(1) by (cases c) (auto simp: ListQualityCircuitRuntimes_def Let_def simp del: take_all_iff split: if_splits)
  then obtain n where n: "out = take n ?l" using assms(4) y by blast
  with y assms(4) have "y \<in> set (drop n ?l)" by (metis Un_iff append_take_drop_id set_append)
  moreover have "sorted_wrt (\<lambda>x y. \<not> circuit_less y x) (out @ drop n ?l)" using s n by simp
  ultimately show ?thesis using assms(2) by (auto simp: sorted_wrt_append)
qed

end
