(* ===== verification/Circuit_Scheduler.thy ===== *)
theory Circuit_Scheduler
  imports Circuit_Store Health_Store Hybrid_Allocation
begin

text \<open>
  The scheduler's side of the durable circuits: \<open>quality_circuit.go\<close>, \<open>recovery.go\<close> and
  \<open>manual_recovery.go\<close> in \<open>app/e2m-core/internal/autoswitch\<close>.

  An operation makes several store calls, each under the mutex on its own. \<open>calls\<close> of the
  previous theories becomes \<open>sched_call\<close>: for the \<open>k\<close>-th call of an operation, what \<open>ctx.Err()\<close>
  and the store's clock yield there, and what other goroutines have done to the store since the
  call before it. A context made by \<open>context.WithoutCancel\<close> has no error. The publish engine
  and the prober are Go interfaces (\<open>Reconciler\<close>, \<open>QualityProber\<close>) and so arguments here.
  Notifications go to sinks outside the store and are left out.
\<close>

section \<open>Data\<close>

datatype RoutePlanStatus = RoutePlanDraft | RoutePlanPublished | RoutePlanSuspended | RoutePlanStatusOther string

datatype RolloutMode = RolloutImmediate | RolloutCanary | RolloutBatched | RolloutModeOther string

record RoutePlan =
  pln_ID :: string
  pln_UserID :: int64
  pln_InstanceID :: string
  pln_PoolID :: string
  pln_Tier :: string
  pln_Status :: RoutePlanStatus
  pln_MaxChannels :: int64
  pln_Rollout :: RolloutMode
  pln_RolloutBatchSize :: int64
  pln_RolloutCanaryCount :: int64
  pln_Labels :: "(string \<times> string) list"
  pln_SchedulingGeneration :: int64
  pln_CreatedAt :: time
  pln_UpdatedAt :: time

datatype PublishedBindingState =
    BindingPending
  | BindingActive
  | BindingDisabled
  | BindingFailed
  | BindingRevoked
  | BindingStateOther string

record PublishedBinding =
  bnd_ID :: string
  bnd_PlanID :: string
  bnd_InstanceID :: string
  bnd_ChannelID :: string
  bnd_RemoteID :: string
  bnd_AccountOwnership :: string
  bnd_State :: PublishedBindingState
  bnd_LastError :: string
  bnd_VerificationStatus :: string
  bnd_VerificationSource :: string
  bnd_VerifiedAt :: "time option"
  bnd_VerificationErrorCode :: string
  bnd_SchedulingGeneration :: int64
  bnd_CreatedAt :: time
  bnd_UpdatedAt :: time

definition PublishedBinding_zero :: PublishedBinding where
  "PublishedBinding_zero = \<lparr>bnd_ID = '''', bnd_PlanID = '''', bnd_InstanceID = '''', bnd_ChannelID = '''', bnd_RemoteID = '''',
     bnd_AccountOwnership = '''', bnd_State = BindingStateOther '''', bnd_LastError = '''', bnd_VerificationStatus = '''',
     bnd_VerificationSource = '''', bnd_VerifiedAt = None, bnd_VerificationErrorCode = '''', bnd_SchedulingGeneration = 0,
     bnd_CreatedAt = 0, bnd_UpdatedAt = 0\<rparr>"

datatype AutoSwitchStatus =
    AutoSwitchProposed
  | AutoSwitchApproved
  | AutoSwitchRejected
  | AutoSwitchSkipped
  | AutoSwitchApplying
  | AutoSwitchObserving
  | AutoSwitchCompleted
  | AutoSwitchRolledBack
  | AutoSwitchFailed
  | AutoSwitchStatusOther string

record ReconcileAction =
  act_Type :: string
  act_ChannelID :: string
  act_RemoteID :: string
  act_Detail :: string

record ReconcilePlan =
  rcp_InstanceID :: string
  rcp_PlanID :: string
  rcp_DryRun :: bool
  rcp_Actions :: "ReconcileAction list"
  rcp_CreatedAt :: time

record AutoSwitchDecision =
  dec_ID :: string
  dec_UserID :: int64
  dec_PlanID :: string
  dec_InstanceID :: string
  dec_PoolID :: string
  dec_Strategy :: RouteStrategyType
  dec_Trigger :: string
  dec_TriggerReason :: string
  dec_FromChannelID :: string
  dec_ToChannelID :: string
  dec_RiskLevel :: RiskLevel
  dec_RiskReason :: string
  dec_Status :: AutoSwitchStatus
  dec_AutoApplied :: bool
  dec_Fingerprint :: string
  dec_DryRunResult :: ReconcilePlan
  dec_Error :: string
  dec_ObservationNote :: string
  dec_CreatedAt :: time
  dec_UpdatedAt :: time
  dec_AppliedAt :: "time option"
  dec_ObserveUntil :: "time option"
  dec_ResolvedAt :: "time option"
  dec_LeaseUntil :: "time option"
  dec_LeaseVersion :: int64
  dec_SchedulingGeneration :: int64

record ConnectorCostUsageCapabilities =
  ccu_InputTokens :: bool
  ccu_OutputTokens :: bool
  ccu_CachedInputTokens :: bool
  ccu_RequestCount :: bool
  ccu_GroupKey :: bool

record ConnectorObservationCapabilities =
  coc_PassiveCollection :: bool
  coc_SuccessEvents :: bool
  coc_FailureEvents :: bool
  coc_ErrorClassification :: bool
  coc_FirstTokenMS :: bool
  coc_TotalMS :: bool
  coc_TokenCounts :: bool
  coc_CostUsage :: "ConnectorCostUsageCapabilities option"

record ConnectorQualityProbeCapabilities =
  cqp_RecoveryMode :: string
  cqp_Enabled :: bool
  cqp_Capabilities :: "string list"
  cqp_EndpointPaths :: "string list"
  cqp_FirstTokenMS :: bool
  cqp_TotalMS :: bool
  cqp_MaxRequestsPerHour :: int64
  cqp_MinIntervalSeconds :: int64

record ConnectorRuntimeState =
  crs_ProtocolVersion :: int64
  crs_GatewayConfigured :: bool
  crs_GatewayKind :: string
  crs_GatewayStatus :: string
  crs_ErrorCode :: string
  crs_Capabilities :: "string list"
  crs_BindingEncryptionPublicKey :: string
  crs_ObservationCapabilities :: "ConnectorObservationCapabilities option"
  crs_QualityProbe :: "ConnectorQualityProbeCapabilities option"

datatype ConnectorStatus = ConnectorStatusOnline | ConnectorStatusOffline | ConnectorStatusRevoked | ConnectorStatusOther string

record Connector =
  con_ID :: string
  con_UserID :: int64
  con_InstanceID :: string
  con_Name :: string
  con_Status :: ConnectorStatus
  con_Version :: string
  con_ProtocolVersion :: int64
  con_Gateway :: ConnectorRuntimeState
  con_LastSeenAt :: "time option"
  con_RevokedAt :: "time option"
  con_CreatedAt :: time
  con_UpdatedAt :: time
  con_TokenHash :: string

datatype ConnectorTaskStatus =
    ConnectorTaskPending
  | ConnectorTaskLeased
  | ConnectorTaskExecuting
  | ConnectorTaskSucceeded
  | ConnectorTaskFailed
  | ConnectorTaskExpired
  | ConnectorTaskStatusOther string

record ConnectorTaskError =
  cte_Code :: string
  cte_Retryable :: bool

text \<open>A raw JSON message is its text, \<open>nil\<close> the empty one.\<close>

record ConnectorTask =
  ctk_ID :: string
  ctk_UserID :: int64
  ctk_InstanceID :: string
  ctk_ConnectorID :: string
  ctk_PlanID :: string
  ctk_SchedulingGeneration :: int64
  ctk_ExecutionScope :: string
  ctk_ExecutionID :: string
  ctk_ExecutionGeneration :: int64
  ctk_Type :: string
  ctk_SchemaVersion :: int64
  ctk_RiskLevel :: RiskLevel
  ctk_Status :: ConnectorTaskStatus
  ctk_Input :: string
  ctk_Result :: string
  ctk_Error :: ConnectorTaskError
  ctk_IdempotencyKey :: string
  ctk_LeaseOwner :: string
  ctk_LeaseNonce :: string
  ctk_LeaseUntil :: "time option"
  ctk_Attempts :: int64
  ctk_MaxAttempts :: int64
  ctk_AvailableAt :: time
  ctk_ExpiresAt :: time
  ctk_CreatedAt :: time
  ctk_UpdatedAt :: time

text \<open>The tables of \<open>MemoryStore\<close> the scheduler uses, beside those of the other components.\<close>

record SchedulerStore =
  tables :: HealthStore
  qualityCircuits :: circuits
  publishedBindings :: "PublishedBinding list"
  routePlans :: "RoutePlan list"
  routeStrategies :: "RouteStrategy list"
  autoSwitchDecs :: "AutoSwitchDecision list"
  connectors :: "Connector list"
  connectorTasks :: "ConnectorTask list"

record sched_call =
  call_Err :: ctx
  call_now :: time
  call_env :: "SchedulerStore \<Rightarrow> SchedulerStore"

type_synonym sched_calls = "nat \<Rightarrow> sched_call"

definition WithoutCancel :: "sched_calls \<Rightarrow> sched_calls" where
  "WithoutCancel cs k = (cs k)\<lparr>call_Err := None\<rparr>"

definition later :: "nat \<Rightarrow> sched_calls \<Rightarrow> sched_calls" where
  "later n cs k = cs (k + n)"

section \<open>Store calls\<close>

definition getCircuit ::
  "sched_call \<Rightarrow> string \<Rightarrow> string \<Rightarrow> SchedulerStore \<Rightarrow> (store_error + QualityCircuitRuntime) \<times> SchedulerStore" where
  "getCircuit cl planID channelID s =
     (let s = call_env cl s in (GetQualityCircuitRuntime (call_Err cl) planID channelID (qualityCircuits s), s))"

definition listCircuits ::
  "sched_call \<Rightarrow> QualityCircuitRuntimeFilter \<Rightarrow> SchedulerStore \<Rightarrow> (store_error + circuits) \<times> SchedulerStore" where
  "listCircuits cl f s = (let s = call_env cl s in (ListQualityCircuitRuntimes (call_Err cl) f (qualityCircuits s), s))"

definition upsertCircuit ::
  "sched_call \<Rightarrow> QualityCircuitRuntime \<Rightarrow> int64 \<Rightarrow> SchedulerStore \<Rightarrow> (store_error + QualityCircuitRuntime) \<times> SchedulerStore" where
  "upsertCircuit cl input v s =
     (let s = call_env cl s;
          (r, cs) = UpsertQualityCircuitRuntime (call_now cl) (call_Err cl) input v (qualityCircuits s)
      in (r, s\<lparr>qualityCircuits := cs\<rparr>))"

definition ListPublishedBindings ::
  "sched_call \<Rightarrow> string \<Rightarrow> SchedulerStore \<Rightarrow> (store_error + PublishedBinding list) \<times> SchedulerStore" where
  "ListPublishedBindings cl planID s =
     (let s = call_env cl s in
      (case call_Err cl of Some e \<Rightarrow> Inl (ErrContext e) | None \<Rightarrow>
         Inr (filter (\<lambda>b. planID = '''' \<or> bnd_PlanID b = planID) (publishedBindings s)), s))"

definition GetRoutePlan :: "sched_call \<Rightarrow> string \<Rightarrow> SchedulerStore \<Rightarrow> (store_error + RoutePlan) \<times> SchedulerStore" where
  "GetRoutePlan cl i s =
     (let s = call_env cl s in
      (case call_Err cl of Some e \<Rightarrow> Inl (ErrContext e) | None \<Rightarrow>
         (case find (\<lambda>p. pln_ID p = i) (routePlans s) of Some p \<Rightarrow> Inr p | None \<Rightarrow> Inl ErrNotFound), s))"

definition GetUpstreamChannel :: "sched_call \<Rightarrow> string \<Rightarrow> SchedulerStore \<Rightarrow> (store_error + UpstreamChannel) \<times> SchedulerStore" where
  "GetUpstreamChannel cl i s =
     (let s = call_env cl s in
      (case call_Err cl of Some e \<Rightarrow> Inl (ErrContext e) | None \<Rightarrow>
         (case find (\<lambda>c. chan_ID c = i) (upstreamChannels (base (tables s))) of Some c \<Rightarrow> Inr c | None \<Rightarrow> Inl ErrNotFound), s))"

record AutoSwitchDecisionFilter =
  adf_PlanID :: string
  adf_InstanceID :: string
  adf_PoolID :: string
  adf_UserID :: int64
  adf_Statuses :: "AutoSwitchStatus list"
  adf_Limit :: int64

definition AutoSwitchDecisionFilter_Matches :: "AutoSwitchDecisionFilter \<Rightarrow> AutoSwitchDecision \<Rightarrow> bool" where
  "AutoSwitchDecisionFilter_Matches f d \<longleftrightarrow>
     \<not> (adf_PlanID f \<noteq> '''' \<and> dec_PlanID d \<noteq> adf_PlanID f) \<and>
     \<not> (adf_InstanceID f \<noteq> '''' \<and> dec_InstanceID d \<noteq> adf_InstanceID f) \<and>
     \<not> (adf_PoolID f \<noteq> '''' \<and> dec_PoolID d \<noteq> adf_PoolID f) \<and>
     \<not> (adf_UserID f \<noteq> 0 \<and> dec_UserID d \<noteq> adf_UserID f) \<and>
     \<not> (adf_Statuses f \<noteq> [] \<and> dec_Status d \<notin> set (adf_Statuses f))"

definition ListAutoSwitchDecisions ::
  "sched_call \<Rightarrow> AutoSwitchDecisionFilter \<Rightarrow> SchedulerStore \<Rightarrow> (store_error + AutoSwitchDecision list) \<times> SchedulerStore" where
  "ListAutoSwitchDecisions cl f s =
     (let s = call_env cl s in
      (case call_Err cl of Some e \<Rightarrow> Inl (ErrContext e) | None \<Rightarrow>
         (let out = filter (AutoSwitchDecisionFilter_Matches f) (rev (autoSwitchDecs s))
          in Inr (if 0 < adf_Limit f then take (nat (adf_Limit f)) out else out)), s))"

definition AppendAudit :: "sched_call \<Rightarrow> OperationAudit \<Rightarrow> SchedulerStore \<Rightarrow> (store_error + OperationAudit) \<times> SchedulerStore" where
  "AppendAudit cl input s =
     (let s = call_env cl s in
      case call_Err cl of Some e \<Rightarrow> (Inl (ErrContext e), s) | None \<Rightarrow>
      let audit = (if EventLevel_Valid (aud_EventLevel input) then input
                   else input\<lparr>aud_EventLevel := DefaultEventLevel (aud_RiskLevel input) (aud_Result input)\<rparr>);
          (audit, b) = (if aud_ID audit = '''' then (let (i, b) = nextID ''audit'' (base (tables s)) in (audit\<lparr>aud_ID := i\<rparr>, b))
                        else (audit, base (tables s)));
          audit = (if IsZero (aud_CreatedAt audit) then audit\<lparr>aud_CreatedAt := call_now cl\<rparr> else audit)
      in (Inr audit, s\<lparr>tables := (tables s)\<lparr>base := b\<lparr>audits := audits b @ [audit]\<rparr>\<rparr>\<rparr>))"

section \<open>Ejection\<close>

text \<open>What the operations of the orchestrator fail with.\<close>

datatype orch_error =
    OrchStore store_error
  | OrchScopeRequired
  | OrchOpenConflict string string
  | OrchEngine string
  | OrchJoin orch_error orch_error
  | OrchMessage string
  | OrchLeaseDuration duration

definition qualityCircuitCASAttempts :: nat where
  "qualityCircuitCASAttempts = 8"

definition qualityCircuitBlocksScheduling :: "QualityCircuitState \<Rightarrow> bool" where
  "qualityCircuitBlocksScheduling state \<longleftrightarrow> state = CircuitOpen \<or> state = CircuitHalfOpen"

definition qualityCircuitStates ::
  "sched_call \<Rightarrow> string \<Rightarrow> SchedulerStore \<Rightarrow> (store_error + (string \<times> QualityCircuitState) list) \<times> SchedulerStore" where
  "qualityCircuitStates cl planID s =
     (case listCircuits cl \<lparr>qf_PlanID = planID, qf_ChannelID = '''', qf_States = [], qf_ProbeDueBefore = 0, qf_Limit = 0\<rparr> s of
        (Inl e, s) \<Rightarrow> (Inl e, s)
      | (Inr rts, s) \<Rightarrow> (Inr (fold (\<lambda>rt. AList.update (qr_ChannelID rt) (qr_State rt)) rts []), s))"

definition timeValue :: "time option \<Rightarrow> time" where
  "timeValue v = (case v of None \<Rightarrow> 0 | Some t \<Rightarrow> t)"

definition timePointer :: "time \<Rightarrow> time option" where
  "timePointer t = (if IsZero t then None else Some t)"

definition qualityCircuitFromRuntime :: "string \<Rightarrow> string \<Rightarrow> QualityCircuitRuntime \<Rightarrow> QualityCircuit" where
  "qualityCircuitFromRuntime planID channelID rt =
     (let state = (if qr_State rt = CircuitStateOther '''' then CircuitClosed else qr_State rt)
      in \<lparr>qc_ScopeKey = planID @ ''/'' @ channelID, qc_State = state, qc_OpenedAt = timeValue (qr_OpenedAt rt),
          qc_ProbeAfter = timeValue (qr_ProbeAfter rt), qc_HalfOpenSince = timeValue (qr_HalfOpenSince rt),
          qc_LastTransition = timeValue (qr_LastTransitionAt rt), qc_OpenCount = qr_OpenCount rt,
          qc_ConsecutiveProbeSuccesses = qr_ConsecutiveProbeSuccesses rt, qc_LastScore = qr_LastScore rt,
          qc_LastReason = qr_LastReason rt\<rparr>)"

definition qualityCircuitRuntimeFromState ::
  "string \<Rightarrow> string \<Rightarrow> QualityCircuitRuntime \<Rightarrow> QualityCircuit \<Rightarrow> QualityCircuitRuntime" where
  "qualityCircuitRuntimeFromState planID channelID prior circuit =
     (let prior = prior\<lparr>qr_PlanID := planID, qr_ChannelID := channelID, qr_State := qc_State circuit,
            qr_OpenedAt := timePointer (qc_OpenedAt circuit), qr_ProbeAfter := timePointer (qc_ProbeAfter circuit),
            qr_HalfOpenSince := timePointer (qc_HalfOpenSince circuit), qr_LastTransitionAt := timePointer (qc_LastTransition circuit),
            qr_OpenCount := qc_OpenCount circuit, qr_ConsecutiveProbeSuccesses := qc_ConsecutiveProbeSuccesses circuit,
            qr_LastScore := qc_LastScore circuit, qr_LastReason := qc_LastReason circuit\<rparr>;
          prior = (if qc_State circuit = CircuitOpen \<or> qc_State circuit = CircuitClosed then prior\<lparr>qr_RestorePending := False\<rparr> else prior)
      in if qc_State circuit = CircuitOpen
         then prior\<lparr>qr_RecoveryReady := False, qr_RecoveryStage := 0, qr_RecoveryStageStartedAt := None, qr_RecoveryObserveAfter := None\<rparr>
         else prior)"

text \<open>The row an attempt of \<open>openQualityCircuit\<close> writes for the row it has read.\<close>

definition ejectedRuntime ::
  "string \<Rightarrow> string \<Rightarrow> PenaltyEvaluation \<Rightarrow> time \<Rightarrow> QualityCircuitRuntime \<Rightarrow> QualityCircuitRuntime" where
  "ejectedRuntime planID channelID evaluation openedAt current =
     (let pure = qualityCircuitFromRuntime planID channelID current;
          eventKind = (if qr_State current = CircuitHalfOpen then CircuitRecoveryProbe else CircuitQualityWindow);
          policy = DefaultQualityCircuitPolicy;
          transition =
            (if qr_State current = CircuitOpen
             then AdvanceQualityCircuit (pure\<lparr>qc_State := CircuitClosed\<rparr>)
               \<lparr>qe_Kind = CircuitQualityWindow, qe_Now = openedAt, qe_Evaluation = evaluation\<rparr> policy
             else AdvanceQualityCircuit pure \<lparr>qe_Kind = eventKind, qe_Now = openedAt, qe_Evaluation = evaluation\<rparr> policy)
      in qualityCircuitRuntimeFromState planID channelID current (qt_Circuit transition))"

text \<open>An ejection of the same time, or an older one, that finds the circuit open is done already.\<close>

definition alreadyOpen :: "time \<Rightarrow> QualityCircuitRuntime \<Rightarrow> bool" where
  "alreadyOpen openedAt current \<longleftrightarrow> qr_State current = CircuitOpen \<and>
     (case qr_LastTransitionAt current of None \<Rightarrow> False | Some t \<Rightarrow> \<not> t < openedAt)"

fun openQualityCircuit_loop ::
  "nat \<Rightarrow> sched_calls \<Rightarrow> string \<Rightarrow> string \<Rightarrow> PenaltyEvaluation \<Rightarrow> time \<Rightarrow> SchedulerStore \<Rightarrow>
   (orch_error + QualityCircuitRuntime) \<times> SchedulerStore" where
  "openQualityCircuit_loop 0 cs planID channelID evaluation openedAt s = (Inl (OrchOpenConflict planID channelID), s)"
| "openQualityCircuit_loop (Suc n) cs planID channelID evaluation openedAt s =
     (let (got, s) = getCircuit (cs 0) planID channelID s;
          save = (\<lambda>current expectedVersion.
            case upsertCircuit (cs 1) (ejectedRuntime planID channelID evaluation openedAt current) expectedVersion s of
              (Inr saved, s) \<Rightarrow> (Inr saved, s)
            | (Inl e, s) \<Rightarrow>
                if e \<noteq> ErrConflict then (Inl (OrchStore e), s)
                else openQualityCircuit_loop n (later 2 cs) planID channelID evaluation openedAt s)
      in case got of
           Inl e \<Rightarrow> if e \<noteq> ErrNotFound then (Inl (OrchStore e), s) else save QualityCircuitRuntime_zero 0
         | Inr current \<Rightarrow> if alreadyOpen openedAt current then (Inr current, s) else save current (qr_Version current))"

definition text_removed :: string where
  "text_removed = ''channel was removed from downstream scheduling''"

definition openQualityCircuit ::
  "sched_calls \<Rightarrow> time \<Rightarrow> string \<Rightarrow> string \<Rightarrow> PenaltyEvaluation \<Rightarrow> time \<Rightarrow> SchedulerStore \<Rightarrow>
   (orch_error + QualityCircuitRuntime) \<times> SchedulerStore" where
  "openQualityCircuit cs onow planID channelID evaluation openedAt s =
     (if planID = '''' \<or> channelID = '''' then (Inl OrchScopeRequired, s)
      else
      let openedAt = (if IsZero openedAt then onow else openedAt);
          evaluation = evaluation\<lparr>pe_ChannelID := channelID\<rparr>;
          evaluation =
            (if pe_Eject evaluation then evaluation
             else let evaluation = evaluation\<lparr>pe_Eject := True\<rparr>
               in if reason_Code (pe_Reason evaluation) = ''''
                  then evaluation\<lparr>pe_Reason := \<lparr>reason_Code = CircuitReasonOpened, reason_Text = plainText text_removed\<rparr>\<rparr>
                  else evaluation)
      in openQualityCircuit_loop qualityCircuitCASAttempts cs planID channelID evaluation openedAt s)"

section \<open>Transitions of a claimed circuit\<close>

definition qualityProbeLease :: duration where "qualityProbeLease = 75 * Second"
definition qualityHalfOpenProbePeriod :: duration where "qualityHalfOpenProbePeriod = Minute"
definition qualityProbeRetryDelay :: duration where "qualityProbeRetryDelay = 5 * Minute"
definition recoveryRolloutObservationWindow :: duration where "recoveryRolloutObservationWindow = 5 * Minute"

text \<open>The UTF-8 text of \<open>recoveryStageText\<close> for a circuit that is not in a stage.\<close>

definition text_waiting :: string where
  "text_waiting = map byte [229, 190, 133, 232, 167, 130, 229, 175, 159]"

definition recoveryStageText :: "int64 \<Rightarrow> string" where
  "recoveryStageText stage = (if stage \<le> 0 then text_waiting else FormatInt stage @ ''%'')"

text \<open>The level and the result of \<open>recoveryTransitionPresentation\<close>; the title goes to the notifier.\<close>

definition recoveryTransitionPresentation :: "QualityCircuitRuntime \<Rightarrow> EventLevel \<times> string" where
  "recoveryTransitionPresentation rt =
     (let code = reason_Code (qr_LastReason rt) in
      if code = ''recovery_regressed'' then (EventLevelWarning, ''failed'')
      else if code = CircuitReasonRestored then (EventLevelNotice, ''accepted'')
      else if code = ''manual_recovery_completed'' then (EventLevelNotice, ''accepted'')
      else (EventLevelInfo, ''running''))"

definition emitRecoveryTransition :: "sched_calls \<Rightarrow> QualityCircuitRuntime \<Rightarrow> SchedulerStore \<Rightarrow> SchedulerStore" where
  "emitRecoveryTransition cs rt s =
     (case GetRoutePlan (cs 0) (qr_PlanID rt) s of
        (Inl _, s) \<Rightarrow> s
      | (Inr plan, s) \<Rightarrow>
          let (level, res) = recoveryTransitionPresentation rt in
          snd (AppendAudit (cs 1) \<lparr>aud_ID = '''', aud_UserID = pln_UserID plan, aud_InstanceID = pln_InstanceID plan,
            aud_ActorType = ''workflow'', aud_ActorID = ''quality-recovery'', aud_Action = ''quality_circuit.recovery_transition'',
            aud_RiskLevel = RiskLevelL1, aud_EventLevel = level, aud_TargetType = ''quality_circuit'',
            aud_TargetID = qr_PlanID rt @ ''/'' @ qr_ChannelID rt, aud_RequestHash = '''', aud_Result = res, aud_ErrorMessage = '''',
            aud_ApprovalID = '''', aud_WorkflowRunID = '''',
            aud_Details = [(''reason_code'', reason_Code (qr_LastReason rt)), (''recovery_stage'', recoveryStageText (qr_RecoveryStage rt))],
            aud_CreatedAt = 0\<rparr> s))"

definition claimRow :: "time \<Rightarrow> QualityCircuitRuntime \<Rightarrow> QualityCircuitRuntime" where
  "claimRow now rt =
     (let claim = rt\<lparr>qr_ProbeAfter := Some (now + qualityProbeLease)\<rparr>
      in if qr_RestorePending rt then claim
         else claim\<lparr>qr_LastReason := \<lparr>reason_Code = ''probe_claimed'', reason_Text = plainText ''recovery probe claimed by scheduler''\<rparr>\<rparr>)"

definition claimable :: "time \<Rightarrow> QualityCircuitRuntime \<Rightarrow> bool" where
  "claimable now rt \<longleftrightarrow> (case qr_ProbeAfter rt of None \<Rightarrow> False | Some t \<Rightarrow> \<not> now < t) \<and> qualityCircuitBlocksScheduling (qr_State rt)"

text \<open>The claimed row, or nothing when the circuit is not due or another runner was faster.\<close>

definition claimQualityProbe ::
  "sched_call \<Rightarrow> QualityCircuitRuntime \<Rightarrow> time \<Rightarrow> SchedulerStore \<Rightarrow> (orch_error + QualityCircuitRuntime option) \<times> SchedulerStore" where
  "claimQualityProbe cl rt now s =
     (if \<not> claimable now rt then (Inr None, s)
      else case upsertCircuit cl (claimRow now rt) (qr_Version rt) s of
        (Inr saved, s) \<Rightarrow> (Inr (Some saved), s)
      | (Inl e, s) \<Rightarrow> if e = ErrConflict then (Inr None, s) else (Inl (OrchStore e), s))"

definition qualityCircuitForProbe :: "QualityCircuitRuntime \<Rightarrow> time \<Rightarrow> QualityCircuit" where
  "qualityCircuitForProbe rt probeAt =
     (let circuit = qualityCircuitFromRuntime (qr_PlanID rt) (qr_ChannelID rt) rt
      in if qc_State circuit = CircuitOpen \<and> probeAt < qc_ProbeAfter circuit then circuit\<lparr>qc_ProbeAfter := probeAt\<rparr> else circuit)"

definition probeTransition :: "PenaltyEvaluation \<Rightarrow> time \<Rightarrow> QualityCircuitRuntime \<Rightarrow> QualityCircuitTransition" where
  "probeTransition evaluation probeAt current =
     AdvanceQualityCircuit (qualityCircuitForProbe current probeAt)
       \<lparr>qe_Kind = CircuitRecoveryProbe, qe_Now = probeAt, qe_Evaluation = evaluation\<rparr> DefaultQualityCircuitPolicy"

text \<open>The row of a circuit that has passed its probes.\<close>

definition readyRow :: "PenaltyEvaluation \<Rightarrow> time \<Rightarrow> QualityCircuitRuntime \<Rightarrow> QualityCircuitRuntime" where
  "readyRow evaluation probeAt current =
     (let circuit = qt_Circuit (probeTransition evaluation probeAt current)
      in current\<lparr>qr_State := CircuitHalfOpen, qr_LastProbeAt := timePointer probeAt, qr_LastTransitionAt := timePointer probeAt,
           qr_ConsecutiveProbeSuccesses := qc_ConsecutiveProbeSuccesses circuit, qr_LastScore := qc_LastScore circuit,
           qr_RestorePending := False, qr_RecoveryReady := True, qr_RecoveryStage := 0, qr_RecoveryStageStartedAt := None,
           qr_RecoveryObserveAfter := None,
           qr_LastReason := \<lparr>reason_Code = ''recovery_ready'', reason_Text = plainText ''active probes passed; waiting for guarded traffic rollout''\<rparr>,
           qr_ProbeAfter := None\<rparr>)"

definition probedRow :: "PenaltyEvaluation \<Rightarrow> time \<Rightarrow> QualityCircuitRuntime \<Rightarrow> QualityCircuitRuntime" where
  "probedRow evaluation probeAt current =
     (let next = qualityCircuitRuntimeFromState (qr_PlanID current) (qr_ChannelID current) current
            (qt_Circuit (probeTransition evaluation probeAt current));
          next = next\<lparr>qr_LastProbeAt := timePointer probeAt\<rparr>
      in if qt_Action (probeTransition evaluation probeAt current) = CircuitRestore then readyRow evaluation probeAt current
         else if qr_State next = CircuitHalfOpen then next\<lparr>qr_ProbeAfter := Some (probeAt + qualityHalfOpenProbePeriod)\<rparr>
         else next)"

text \<open>A conflict means that another writer has moved the circuit on; it is not an error.\<close>

definition absorbed :: "(store_error + 'a) \<Rightarrow> orch_error option" where
  "absorbed r = (case r of Inr _ \<Rightarrow> None | Inl e \<Rightarrow> if e = ErrConflict then None else Some (OrchStore e))"

text \<open>The common end of the transitions: save, and announce what was saved.\<close>

definition saveAndEmit :: "sched_calls \<Rightarrow> QualityCircuitRuntime \<Rightarrow> int64 \<Rightarrow> SchedulerStore \<Rightarrow> orch_error option \<times> SchedulerStore" where
  "saveAndEmit cs next v s =
     (case upsertCircuit (cs 0) next v s of
        (Inr saved, s) \<Rightarrow> (None, emitRecoveryTransition (later 1 cs) saved s)
      | (r, s) \<Rightarrow> (absorbed r, s))"

definition advanceClaimedQualityProbe ::
  "sched_calls \<Rightarrow> QualityCircuitRuntime \<Rightarrow> PenaltyEvaluation \<Rightarrow> time \<Rightarrow> SchedulerStore \<Rightarrow> orch_error option \<times> SchedulerStore" where
  "advanceClaimedQualityProbe cs claimed evaluation probeAt s =
     (case getCircuit (cs 0) (qr_PlanID claimed) (qr_ChannelID claimed) s of
        (Inl e, s) \<Rightarrow> (Some (OrchStore e), s)
      | (Inr current, s) \<Rightarrow>
          if qr_Version current \<noteq> qr_Version claimed \<or> \<not> qualityCircuitBlocksScheduling (qr_State current) then (None, s)
          else if qt_Action (probeTransition evaluation probeAt current) = CircuitRestore
          then saveAndEmit (later 1 cs) (probedRow evaluation probeAt current) (qr_Version current) s
          else let (r, s) = upsertCircuit (cs 1) (probedRow evaluation probeAt current) (qr_Version current) s in (absorbed r, s))"

definition deferEvaluation :: "string \<Rightarrow> string \<Rightarrow> message \<Rightarrow> PenaltyEvaluation" where
  "deferEvaluation channelID code t = \<lparr>pe_ChannelID = channelID, pe_Score = Fin 0, pe_Evidence = Fin 1, pe_Eject = True, pe_HardFailure = False,
     pe_Reason = \<lparr>reason_Code = code, reason_Text = t\<rparr>, pe_Reasons = [], pe_Penalties = \<lparr>pb_ErrorRate = Fin 0, pb_ErrorPenalty = Fin 0,
     pb_TTFTPenalty = Fin 0, pb_DurationPenalty = Fin 0, pb_TotalPenalty = Fin 0\<rparr>, pe_Snapshot = emptySnapshot\<rparr>"

definition deferredRow :: "time \<Rightarrow> string \<Rightarrow> message \<Rightarrow> QualityCircuitRuntime \<Rightarrow> QualityCircuitRuntime" where
  "deferredRow now code t current =
     (qualityCircuitRuntimeFromState (qr_PlanID current) (qr_ChannelID current) current
        (qt_Circuit (probeTransition (deferEvaluation (qr_ChannelID current) code t) now current)))
     \<lparr>qr_LastScore := qr_LastScore current, qr_RestorePending := qr_RestorePending current,
      qr_LastReason := \<lparr>reason_Code = code, reason_Text = t\<rparr>\<rparr>"

definition deferClaimedQualityProbe ::
  "sched_calls \<Rightarrow> QualityCircuitRuntime \<Rightarrow> time \<Rightarrow> string \<Rightarrow> message \<Rightarrow> SchedulerStore \<Rightarrow> orch_error option \<times> SchedulerStore" where
  "deferClaimedQualityProbe cs claimed now code t s =
     (case getCircuit (cs 0) (qr_PlanID claimed) (qr_ChannelID claimed) s of
        (Inl e, s) \<Rightarrow> (Some (OrchStore e), s)
      | (Inr current, s) \<Rightarrow>
          if qr_Version current \<noteq> qr_Version claimed \<or> \<not> qualityCircuitBlocksScheduling (qr_State current) then (None, s)
          else let (r, s) = upsertCircuit (cs 1) (deferredRow now code t current) (qr_Version current) s in (absorbed r, s))"

definition closedRow :: "time \<Rightarrow> QualityCircuitRuntime \<Rightarrow> QualityCircuitRuntime" where
  "closedRow now current =
     (let closed = current\<lparr>qr_State := CircuitClosed, qr_OpenedAt := None, qr_ProbeAfter := None, qr_HalfOpenSince := None,
            qr_LastTransitionAt := timePointer now, qr_OpenCount := 0, qr_ConsecutiveProbeSuccesses := 3, qr_RestorePending := False,
            qr_RecoveryReady := True\<rparr>;
          closed = (if qr_RecoveryStage closed = 0 then closed\<lparr>qr_RecoveryStage := 10\<rparr> else closed);
          closed = (if qr_RecoveryStageStartedAt closed = None then closed\<lparr>qr_RecoveryStageStartedAt := timePointer now\<rparr> else closed);
          closed = (if qr_RecoveryObserveAfter closed = None
                    then closed\<lparr>qr_RecoveryObserveAfter := timePointer (now + recoveryRolloutObservationWindow)\<rparr> else closed)
      in closed\<lparr>qr_LastReason := \<lparr>reason_Code = ''recovery_canary_admitted'',
           reason_Text = Message ''active probes passed; admitted to %d%% recovery stage'' [IntArg (qr_RecoveryStage closed)]\<rparr>\<rparr>)"

definition closePendingQualityRestore ::
  "sched_calls \<Rightarrow> QualityCircuitRuntime \<Rightarrow> time \<Rightarrow> SchedulerStore \<Rightarrow> orch_error option \<times> SchedulerStore" where
  "closePendingQualityRestore cs rt now s =
     (case getCircuit (cs 0) (qr_PlanID rt) (qr_ChannelID rt) s of
        (Inl e, s) \<Rightarrow> (Some (OrchStore e), s)
      | (Inr current, s) \<Rightarrow>
          if qr_Version current \<noteq> qr_Version rt \<or> \<not> qr_RestorePending current then (None, s)
          else saveAndEmit (later 1 cs) (closedRow now current) (qr_Version current) s)"

section \<open>Restoring a binding\<close>

type_synonym reconciler = "string \<Rightarrow> (string \<times> bool) list \<Rightarrow> SchedulerStore \<Rightarrow> (string + ReconcilePlan) \<times> SchedulerStore"

fun context_error_Error :: "context_error \<Rightarrow> string" where
  "context_error_Error Canceled = ''context canceled''"
| "context_error_Error DeadlineExceeded = ''context deadline exceeded''"

fun store_error_Error :: "store_error \<Rightarrow> string" where
  "store_error_Error ErrNotFound = ''store: not found''"
| "store_error_Error ErrDuplicate = ''store: duplicate''"
| "store_error_Error ErrConflict = ''store: conflict''"
| "store_error_Error ErrInvalid = ''store: invalid input''"
| "store_error_Error ErrNoSupply = ''store: no platform supply available''"
| "store_error_Error ErrRateLimited = ''store: user platform rate limit exceeded''"
| "store_error_Error (ErrContext e) = context_error_Error e"
| "store_error_Error RuntimePanic = ''''"

definition completePendingQualityRestore ::
  "sched_calls \<Rightarrow> reconciler \<Rightarrow> QualityCircuitRuntime \<Rightarrow> time \<Rightarrow> SchedulerStore \<Rightarrow> orch_error option \<times> SchedulerStore" where
  "completePendingQualityRestore cs applyScheduling rt now s =
     (case ListPublishedBindings (cs 0) (qr_PlanID rt) s of
        (Inl e, s) \<Rightarrow> deferClaimedQualityProbe (later 1 cs) rt now ''restore_scope_unavailable'' (plainText (store_error_Error e)) s
      | (Inr bindings, s) \<Rightarrow>
          case find (\<lambda>b. bnd_ChannelID b = qr_ChannelID rt) bindings of
            None \<Rightarrow> deferClaimedQualityProbe (later 1 cs) rt now ''restore_scope_unavailable'' (plainText ''published binding is unavailable'') s
          | Some b \<Rightarrow>
              if bnd_State b = BindingActive then closePendingQualityRestore (later 1 cs) rt now s
              else case applyScheduling (qr_PlanID rt) [(qr_ChannelID rt, True)] s of
                (Inl e, s) \<Rightarrow> deferClaimedQualityProbe (later 1 cs) rt now ''restore_apply_failed'' (plainText e) s
              | (Inr _, s) \<Rightarrow> closePendingQualityRestore (later 1 cs) rt now s)"

section \<open>Recovery by an operator\<close>

definition manual_prefix :: string where "manual_prefix = ''manual_recovery_''"

definition manualReason :: "QualityCircuitRuntime \<Rightarrow> bool" where
  "manualReason rt \<longleftrightarrow> take (length manual_prefix) (reason_Code (qr_LastReason rt)) = manual_prefix"

definition deferPendingManualRecovery ::
  "sched_calls \<Rightarrow> QualityCircuitRuntime \<Rightarrow> time \<Rightarrow> string \<Rightarrow> message \<Rightarrow> orch_error \<Rightarrow> SchedulerStore \<Rightarrow> orch_error option \<times> SchedulerStore" where
  "deferPendingManualRecovery cs rt now code t cause s =
     (case getCircuit (cs 0) (qr_PlanID rt) (qr_ChannelID rt) s of
        (Inl e, s) \<Rightarrow> (Some (OrchJoin cause (OrchStore e)), s)
      | (Inr current, s) \<Rightarrow>
          if qr_Version current \<noteq> qr_Version rt \<or> \<not> qr_RestorePending current \<or> \<not> manualReason current then (Some cause, s)
          else case upsertCircuit (cs 1) (current\<lparr>qr_ProbeAfter := timePointer (now + qualityProbeRetryDelay),
                   qr_LastReason := \<lparr>reason_Code = code, reason_Text = t\<rparr>\<rparr>) (qr_Version current) s of
            (Inr _, s) \<Rightarrow> (Some cause, s)
          | (Inl e, s) \<Rightarrow> (if e = ErrConflict then Some cause else Some (OrchJoin cause (OrchStore e)), s))"

definition manualClosedRow :: "time \<Rightarrow> QualityCircuitRuntime \<Rightarrow> QualityCircuitRuntime" where
  "manualClosedRow now current = current\<lparr>qr_State := CircuitClosed, qr_OpenedAt := None, qr_ProbeAfter := None, qr_HalfOpenSince := None,
     qr_LastTransitionAt := timePointer now, qr_OpenCount := 0, qr_ConsecutiveProbeSuccesses := 0, qr_RestorePending := False,
     qr_RecoveryReady := False, qr_RecoveryStage := 0, qr_RecoveryStageStartedAt := None, qr_RecoveryObserveAfter := None,
     qr_LastReason := \<lparr>reason_Code = ''manual_recovery_completed'',
       reason_Text = plainText ''operator restored the isolated binding; passive monitoring remains active''\<rparr>\<rparr>"

definition completePendingManualRecovery ::
  "sched_calls \<Rightarrow> reconciler \<Rightarrow> QualityCircuitRuntime \<Rightarrow> time \<Rightarrow> SchedulerStore \<Rightarrow> orch_error option \<times> SchedulerStore" where
  "completePendingManualRecovery cs applyScheduling rt now s =
     (if \<not> qr_RestorePending rt \<or> \<not> manualReason rt then (Some (OrchStore ErrConflict), s)
      else
      let finish = (\<lambda>s.
        case getCircuit (cs 1) (qr_PlanID rt) (qr_ChannelID rt) s of
          (Inl e, s) \<Rightarrow> (Some (OrchStore e), s)
        | (Inr current, s) \<Rightarrow>
            if qr_Version current \<noteq> qr_Version rt \<or> \<not> qr_RestorePending current \<or> \<not> manualReason current then (None, s)
            else saveAndEmit (later 2 cs) (manualClosedRow now current) (qr_Version current) s)
      in case ListPublishedBindings (cs 0) (qr_PlanID rt) s of
        (Inl e, s) \<Rightarrow> deferPendingManualRecovery (later 1 cs) rt now ''manual_recovery_scope_unavailable'' (plainText (store_error_Error e))
             (OrchMessage (''manual recovery scope unavailable: '' @ store_error_Error e)) s
      | (Inr bindings, s) \<Rightarrow>
          case find (\<lambda>b. bnd_ChannelID b = qr_ChannelID rt) bindings of
            None \<Rightarrow> deferPendingManualRecovery (later 1 cs) rt now ''manual_recovery_scope_unavailable'' (plainText ''published binding is unavailable'')
             (OrchMessage (''manual recovery scope unavailable: published binding is unavailable'')) s
          | Some b \<Rightarrow>
              if bnd_State b = BindingActive then finish s
              else case applyScheduling (qr_PlanID rt) [(qr_ChannelID rt, True)] s of
                (Inl e, s) \<Rightarrow> deferPendingManualRecovery (later 1 cs) rt now ''manual_recovery_apply_failed'' (plainText e)
                  (OrchMessage (''manual recovery gateway apply failed: '' @ e)) s
              | (Inr _, s) \<Rightarrow> finish s)"

text \<open>The operator's words are cut at 500 runes. \<open>utf8_rune\<close> is Go's conversion of a rune to a string.\<close>

definition utf8_rune :: "nat \<Rightarrow> string" where
  "utf8_rune n = map char_of
     (if n < 128 then [n]
      else if n < 2048 then [192 + n div 64, 128 + n mod 64]
      else if n < 65536 then [224 + n div 4096, 128 + n div 64 mod 64, 128 + n mod 64]
      else [240 + n div 262144, 128 + n div 4096 mod 64, 128 + n div 64 mod 64, 128 + n mod 64])"

definition operatorDecisionNote :: "string \<Rightarrow> string \<Rightarrow> string" where
  "operatorDecisionNote action note =
     (let note = TrimSpace note in
      if note = '''' then action @ '' by platform operator''
      else let runes = range_runes note;
               note = (if 500 < length runes then concat (map utf8_rune (take 500 runes)) else note)
           in action @ '' by platform operator: '' @ note)"

text \<open>The operator's request. A conflict wrapped in a message is \<open>ErrConflict\<close>.\<close>

definition manualPendingRow :: "time \<Rightarrow> message \<Rightarrow> QualityCircuitRuntime \<Rightarrow> QualityCircuitRuntime" where
  "manualPendingRow now note current = current\<lparr>qr_RestorePending := True, qr_RecoveryReady := False, qr_RecoveryStage := 0,
     qr_RecoveryStageStartedAt := None, qr_RecoveryObserveAfter := None, qr_ProbeAfter := timePointer (now + qualityProbeLease),
     qr_LastReason := \<lparr>reason_Code = ''manual_recovery_pending'', reason_Text = note\<rparr>\<rparr>"

definition ManualRecover ::
  "sched_calls \<Rightarrow> reconciler \<Rightarrow> time \<Rightarrow> string \<Rightarrow> string \<Rightarrow> string \<Rightarrow> SchedulerStore \<Rightarrow> (orch_error + QualityCircuitRuntime) \<times> SchedulerStore" where
  "ManualRecover cs applyScheduling onow planID channelID note s =
     (let planID = TrimSpace planID; channelID = TrimSpace channelID;
          reread = (\<lambda>cl s. case getCircuit cl planID channelID s of (Inl e, s) \<Rightarrow> (Inl (OrchStore e), s) | (Inr rt, s) \<Rightarrow> (Inr rt, s))
      in case getCircuit (cs 0) planID channelID s of
        (Inl e, s) \<Rightarrow> (Inl (OrchStore e), s)
      | (Inr current, s) \<Rightarrow>
          if qr_State current = CircuitClosed \<and> \<not> qr_RestorePending current then (Inr current, s)
          else if qr_RestorePending current then (Inl (OrchStore ErrConflict), s)
          else if \<not> qualityCircuitBlocksScheduling (qr_State current) then (Inl (OrchStore ErrConflict), s)
          else case ListPublishedBindings (cs 1) planID s of
            (Inl e, s) \<Rightarrow> (Inl (OrchStore e), s)
          | (Inr bindings, s) \<Rightarrow>
              if \<not> list_ex (\<lambda>b. bnd_ChannelID b = channelID \<and> TrimSpace (bnd_RemoteID b) \<noteq> '''' \<and> bnd_State b = BindingDisabled) bindings
              then (Inl (OrchStore ErrConflict), s)
              else case upsertCircuit (cs 2) (manualPendingRow onow (plainText (operatorDecisionNote ''manual recovery'' note)) current) (qr_Version current) s of
                (Inl e, s) \<Rightarrow> if e = ErrConflict then reread (cs 3) s else (Inl (OrchStore e), s)
              | (Inr pending, s) \<Rightarrow>
                  case completePendingManualRecovery (WithoutCancel (later 3 cs)) applyScheduling pending onow s of
                    (Some e, s) \<Rightarrow> (Inl e, s)
                  | (None, s) \<Rightarrow> reread (cs 8) s)"

section \<open>Repair after a crash\<close>

definition ejectionEvaluation :: "string \<Rightarrow> string \<Rightarrow> message \<Rightarrow> float64 \<Rightarrow> PenaltyEvaluation" where
  "ejectionEvaluation channelID code t score =
     (deferEvaluation channelID code t)\<lparr>pe_Evidence := Fin 0,
        pe_Score := (if flt score (Fin 0) \<or> flt (Fin 100) score then Fin 0 else score)\<rparr>"

definition decisionFallbackTime :: "AutoSwitchDecision \<Rightarrow> time" where
  "decisionFallbackTime d =
     (case dec_ResolvedAt d of Some t \<Rightarrow> t | None \<Rightarrow>
      if \<not> IsZero (dec_UpdatedAt d) then dec_UpdatedAt d
      else case dec_AppliedAt d of Some t \<Rightarrow> t | None \<Rightarrow> dec_CreatedAt d)"

fun fallbackEjectionDecision :: "AutoSwitchDecision list \<Rightarrow> string \<Rightarrow> (AutoSwitchDecision \<times> time) option" where
  "fallbackEjectionDecision [] channelID = None"
| "fallbackEjectionDecision (d # ds) channelID =
     (if dec_AutoApplied d \<and> dec_AppliedAt d \<noteq> None \<and> dec_FromChannelID d = channelID then Some (d, timeValue (dec_AppliedAt d))
      else if dec_Status d = AutoSwitchApplying \<and> dec_FromChannelID d = channelID then Some (d, decisionFallbackTime d)
      else if dec_ToChannelID d = channelID \<and> (dec_Status d = AutoSwitchRolledBack \<or> dec_Status d = AutoSwitchFailed)
      then Some (d, decisionFallbackTime d)
      else if dec_Status d = AutoSwitchApplying \<and> dec_AutoApplied d \<and> dec_AppliedAt d \<noteq> None \<and> dec_ToChannelID d = channelID
      then Some (d, decisionFallbackTime d)
      else fallbackEjectionDecision ds channelID)"

definition fallbackEvaluation :: "string \<Rightarrow> AutoSwitchDecision \<Rightarrow> PenaltyEvaluation" where
  "fallbackEvaluation channelID d =
     (deferEvaluation channelID ''decision_fallback'' (plainText (''repaired quality isolation from auto-switch decision '' @ dec_ID d)))\<lparr>pe_Evidence := Fin 0\<rparr>"

text \<open>One disabled binding: the circuit is opened unless it blocks already, or has moved on since the
  ejection. A binding uses at most one call and the calls of \<open>openQualityCircuit\<close>.\<close>

definition repairDisabledBinding ::
  "sched_calls \<Rightarrow> time \<Rightarrow> string \<Rightarrow> AutoSwitchDecision list \<Rightarrow> PublishedBinding \<Rightarrow> SchedulerStore \<Rightarrow> orch_error option \<times> SchedulerStore" where
  "repairDisabledBinding cs onow planID decisions b s =
     (if bnd_State b \<noteq> BindingDisabled then (None, s)
      else case fallbackEjectionDecision decisions (bnd_ChannelID b) of
        None \<Rightarrow> (None, s)
      | Some (d, ejectedAt) \<Rightarrow>
          let opn = (\<lambda>s. case openQualityCircuit (WithoutCancel (later 1 cs)) onow planID (bnd_ChannelID b) (fallbackEvaluation (bnd_ChannelID b) d) ejectedAt s of
                (Inl e, s) \<Rightarrow> (Some e, s) | (Inr _, s) \<Rightarrow> (None, s))
          in case getCircuit (cs 0) planID (bnd_ChannelID b) s of
            (Inl e, s) \<Rightarrow> if e \<noteq> ErrNotFound then (Some (OrchStore e), s) else opn s
          | (Inr current, s) \<Rightarrow>
              if qualityCircuitBlocksScheduling (qr_State current) then (None, s)
              else let transitionedAt = (case qr_LastTransitionAt current of Some t \<Rightarrow> t | None \<Rightarrow> qr_UpdatedAt current)
                in if \<not> transitionedAt < ejectedAt then (None, s) else opn s)"

definition repairActiveBinding ::
  "sched_calls \<Rightarrow> string \<Rightarrow> PublishedBinding \<Rightarrow> SchedulerStore \<Rightarrow> orch_error option \<times> SchedulerStore" where
  "repairActiveBinding cs planID b s =
     (if bnd_State b \<noteq> BindingActive then (None, s)
      else case getCircuit (cs 0) planID (bnd_ChannelID b) s of
        (Inl e, s) \<Rightarrow> (if e = ErrNotFound then None else Some (OrchStore e), s)
      | (Inr current, s) \<Rightarrow>
          if qr_State current \<noteq> CircuitHalfOpen \<or> qr_RestorePending current \<or> qr_ConsecutiveProbeSuccesses current < 3 then (None, s)
          else let (r, s) = upsertCircuit (WithoutCancel cs 1) (current\<lparr>qr_RestorePending := True,
                 qr_LastReason := \<lparr>reason_Code = ''restore_pending'', reason_Text = plainText ''repairing recovered active binding''\<rparr>\<rparr>)
                 (qr_Version current) s in (absorbed r, s))"

text \<open>The first error ends a loop; the \<open>i\<close>-th binding makes the calls \<open>cs i\<close>.\<close>

fun first_error :: "(nat \<Rightarrow> 'a \<Rightarrow> SchedulerStore \<Rightarrow> orch_error option \<times> SchedulerStore) \<Rightarrow> 'a list \<Rightarrow> SchedulerStore \<Rightarrow> orch_error option \<times> SchedulerStore" where
  "first_error f [] s = (None, s)"
| "first_error f (x # xs) s = (case f 0 x s of (Some e, s) \<Rightarrow> (Some e, s) | (None, s) \<Rightarrow> first_error (\<lambda>i. f (Suc i)) xs s)"

definition repairDecisionCircuitFallbacks ::
  "sched_call \<Rightarrow> (nat \<Rightarrow> sched_calls) \<Rightarrow> (nat \<Rightarrow> sched_calls) \<Rightarrow> time \<Rightarrow> string \<Rightarrow> PublishedBinding list \<Rightarrow> SchedulerStore \<Rightarrow> orch_error option \<times> SchedulerStore" where
  "repairDecisionCircuitFallbacks cl cs cs' onow planID bindings s =
     (case ListAutoSwitchDecisions cl \<lparr>adf_PlanID = planID, adf_InstanceID = '''', adf_PoolID = '''', adf_UserID = 0, adf_Statuses = [], adf_Limit = 100\<rparr> s of
        (Inl e, s) \<Rightarrow> (Some (OrchStore e), s)
      | (Inr decisions, s) \<Rightarrow>
          case first_error (\<lambda>i. repairDisabledBinding (cs i) onow planID decisions) bindings s of
            (Some e, s) \<Rightarrow> (Some e, s)
          | (None, s) \<Rightarrow> first_error (\<lambda>i. repairActiveBinding (cs' i) planID) bindings s)"

definition bindingDisabled :: "sched_call \<Rightarrow> string \<Rightarrow> string \<Rightarrow> SchedulerStore \<Rightarrow> bool \<times> SchedulerStore" where
  "bindingDisabled cl planID channelID s =
     (case ListPublishedBindings cl planID s of
        (Inl _, s) \<Rightarrow> (False, s)
      | (Inr bindings, s) \<Rightarrow>
          (case find (\<lambda>b. bnd_ChannelID b = channelID) bindings of None \<Rightarrow> False | Some b \<Rightarrow> bnd_State b = BindingDisabled, s))"

section \<open>Rows\<close>

lemma RuntimeFromState_simps [simp]:
  "qr_PlanID (qualityCircuitRuntimeFromState p ch prior c) = p"
  "qr_ChannelID (qualityCircuitRuntimeFromState p ch prior c) = ch"
  "qr_State (qualityCircuitRuntimeFromState p ch prior c) = qc_State c"
  "qr_OpenCount (qualityCircuitRuntimeFromState p ch prior c) = qc_OpenCount c"
  "qr_ConsecutiveProbeSuccesses (qualityCircuitRuntimeFromState p ch prior c) = qc_ConsecutiveProbeSuccesses c"
  "qr_LastScore (qualityCircuitRuntimeFromState p ch prior c) = qc_LastScore c"
  "qr_LastTransitionAt (qualityCircuitRuntimeFromState p ch prior c) = timePointer (qc_LastTransition c)"
  "qr_RestorePending (qualityCircuitRuntimeFromState p ch prior c) \<longleftrightarrow>
     qr_RestorePending prior \<and> qc_State c \<noteq> CircuitOpen \<and> qc_State c \<noteq> CircuitClosed"
  "qr_RecoveryReady (qualityCircuitRuntimeFromState p ch prior c) \<longleftrightarrow> qr_RecoveryReady prior \<and> qc_State c \<noteq> CircuitOpen"
  "qr_RecoveryStage (qualityCircuitRuntimeFromState p ch prior c) = (if qc_State c = CircuitOpen then 0 else qr_RecoveryStage prior)"
  "qr_Version (qualityCircuitRuntimeFromState p ch prior c) = qr_Version prior"
  by (simp_all add: qualityCircuitRuntimeFromState_def Let_def)

lemma openCircuit_simps [simp]:
  "qc_OpenCount (qt_Circuit (openCircuit rt reason now p action)) = wrap64 (qc_OpenCount rt + 1)"
  "qc_ConsecutiveProbeSuccesses (qt_Circuit (openCircuit rt reason now p action)) = 0"
  "qc_LastScore (qt_Circuit (openCircuit rt reason now p action)) = qc_LastScore rt"
  "qc_LastTransition (qt_Circuit (openCircuit rt reason now p action)) = now"
  "qt_Action (openCircuit rt reason now p action) = action"
  by (simp_all add: openCircuit_def Let_def)

text \<open>The circuit \<open>d\<close> is \<open>c\<close> opened once more.\<close>

definition opened_from :: "QualityCircuit \<Rightarrow> QualityCircuitEvent \<Rightarrow> QualityCircuit \<Rightarrow> bool" where
  "opened_from c e d \<longleftrightarrow> qc_State d = CircuitOpen \<and> qc_OpenCount d = wrap64 (qc_OpenCount c + 1) \<and>
     qc_ConsecutiveProbeSuccesses d = 0 \<and> qc_LastScore d = pe_Score (qe_Evaluation e) \<and>
     qc_LastTransition d = (if IsZero (qe_Now e) then unixEpoch else qe_Now e)"

lemma eject_closed:
  "qc_State c = CircuitClosed \<Longrightarrow> pe_Eject (qe_Evaluation e) \<Longrightarrow> opened_from c e (qt_Circuit (AdvanceQualityCircuit c e p))"
  by (simp add: AdvanceQualityCircuit.simps [of c] Let_def opened_from_def)

lemma eject_half_open:
  "qc_State c = CircuitHalfOpen \<Longrightarrow> qe_Kind e = CircuitRecoveryProbe \<Longrightarrow> pe_Eject (qe_Evaluation e) \<Longrightarrow>
   opened_from c e (qt_Circuit (AdvanceQualityCircuit c e p))"
  by (simp add: AdvanceQualityCircuit.simps [of c] Let_def opened_from_def probeHealthy_def)

lemma eject_unknown:
  "qc_State c = CircuitStateOther x \<Longrightarrow> pe_Eject (qe_Evaluation e) \<Longrightarrow> opened_from c e (qt_Circuit (AdvanceQualityCircuit c e p))"
proof (cases "x = ''''")
  case True
  then show "qc_State c = CircuitStateOther x \<Longrightarrow> pe_Eject (qe_Evaluation e) \<Longrightarrow> opened_from c e (qt_Circuit (AdvanceQualityCircuit c e p))"
    by (simp add: AdvanceQualityCircuit.simps [of c] Let_def opened_from_def)
next
  case False
  assume a: "qc_State c = CircuitStateOther x" "pe_Eject (qe_Evaluation e)"
  let ?now = "if IsZero (qe_Now e) then unixEpoch else qe_Now e"
  let ?d = "c\<lparr>qc_LastScore := pe_Score (qe_Evaluation e), qc_State := CircuitClosed, qc_LastTransition := ?now\<rparr>"
  have "AdvanceQualityCircuit c e p = AdvanceQualityCircuit ?d e (QualityCircuitPolicy_withDefaults p)"
    using a(1) False by (subst AdvanceQualityCircuit.simps) (simp add: Let_def)
  moreover have "opened_from ?d e (qt_Circuit (AdvanceQualityCircuit ?d e (QualityCircuitPolicy_withDefaults p)))"
    by (rule eject_closed) (simp_all add: a(2))
  ultimately show "opened_from c e (qt_Circuit (AdvanceQualityCircuit c e p))" by (simp add: opened_from_def)
qed

lemma FromRuntime_simps [simp]:
  "qc_State (qualityCircuitFromRuntime p ch rt) = (if qr_State rt = CircuitStateOther '''' then CircuitClosed else qr_State rt)"
  "qc_OpenCount (qualityCircuitFromRuntime p ch rt) = qr_OpenCount rt"
  "qc_ConsecutiveProbeSuccesses (qualityCircuitFromRuntime p ch rt) = qr_ConsecutiveProbeSuccesses rt"
  "qc_ProbeAfter (qualityCircuitFromRuntime p ch rt) = timeValue (qr_ProbeAfter rt)"
  by (simp_all add: qualityCircuitFromRuntime_def Let_def)

lemma ejectedRuntime_row:
  assumes "pe_Eject ev"
  shows "qr_State (ejectedRuntime p ch ev t rt) = CircuitOpen" "\<not> qr_RestorePending (ejectedRuntime p ch ev t rt)"
    "\<not> qr_RecoveryReady (ejectedRuntime p ch ev t rt)" "qr_RecoveryStage (ejectedRuntime p ch ev t rt) = 0"
    "qr_OpenCount (ejectedRuntime p ch ev t rt) = wrap64 (qr_OpenCount rt + 1)"
    "qr_ConsecutiveProbeSuccesses (ejectedRuntime p ch ev t rt) = 0" "qr_LastScore (ejectedRuntime p ch ev t rt) = pe_Score ev"
    "qr_LastTransitionAt (ejectedRuntime p ch ev t rt) = Some (if IsZero t then unixEpoch else t)"
    "circuit_key (ejectedRuntime p ch ev t rt) = (p, ch)"
proof -
  let ?c = "qualityCircuitFromRuntime p ch rt"
  let ?c' = "if qr_State rt = CircuitOpen then ?c\<lparr>qc_State := CircuitClosed\<rparr> else ?c"
  let ?e = "\<lparr>qe_Kind = (if qr_State rt = CircuitHalfOpen then CircuitRecoveryProbe else CircuitQualityWindow), qe_Now = t, qe_Evaluation = ev\<rparr>"
  let ?d = "qt_Circuit (AdvanceQualityCircuit ?c' ?e DefaultQualityCircuitPolicy)"
  have o: "opened_from ?c' ?e ?d"
  proof (cases "qr_State rt")
    case (CircuitStateOther x)
    then show ?thesis using assms eject_closed [of ?c ?e] eject_unknown [of ?c x ?e] by (cases "x = ''''") simp_all
  qed (use assms in \<open>simp_all add: eject_closed eject_half_open\<close>)
  have e: "ejectedRuntime p ch ev t rt = qualityCircuitRuntimeFromState p ch rt ?d"
    by (simp add: ejectedRuntime_def Let_def)
  have "unixEpoch \<noteq> 0" by (simp add: unixEpoch_def)
  then show "qr_State (ejectedRuntime p ch ev t rt) = CircuitOpen" "\<not> qr_RestorePending (ejectedRuntime p ch ev t rt)"
    "\<not> qr_RecoveryReady (ejectedRuntime p ch ev t rt)" "qr_RecoveryStage (ejectedRuntime p ch ev t rt) = 0"
    "qr_OpenCount (ejectedRuntime p ch ev t rt) = wrap64 (qr_OpenCount rt + 1)"
    "qr_ConsecutiveProbeSuccesses (ejectedRuntime p ch ev t rt) = 0" "qr_LastScore (ejectedRuntime p ch ev t rt) = pe_Score ev"
    "qr_LastTransitionAt (ejectedRuntime p ch ev t rt) = Some (if IsZero t then unixEpoch else t)"
    "circuit_key (ejectedRuntime p ch ev t rt) = (p, ch)"
    using o unfolding e by (simp_all add: opened_from_def timePointer_def IsZero_def circuit_key_def)
qed

section \<open>Interference\<close>

text \<open>What other goroutines do to the circuits between two calls, they do through the store.\<close>

definition env_ok :: "sched_call \<Rightarrow> bool" where
  "env_ok cl \<longleftrightarrow> (\<forall>s. circuits_evolve (qualityCircuits s) (qualityCircuits (call_env cl s)))"

definition calls_ok :: "sched_calls \<Rightarrow> bool" where
  "calls_ok cs \<longleftrightarrow> (\<forall>k. env_ok (cs k))"

lemma calls_ok_simps [simp]: "calls_ok cs \<Longrightarrow> env_ok (cs k)" "calls_ok cs \<Longrightarrow> calls_ok (later n cs)" "calls_ok cs \<Longrightarrow> calls_ok (WithoutCancel cs)"
  by (simp_all add: calls_ok_def later_def WithoutCancel_def env_ok_def)

lemma getCircuit_result:
  assumes "getCircuit cl p ch s = (r, s')"
  shows "s' = call_env cl s" "r = GetQualityCircuitRuntime (call_Err cl) p ch (qualityCircuits s')"
  using assms by (auto simp: getCircuit_def Let_def)

lemma upsertCircuit_result:
  assumes "upsertCircuit cl input v s = (r, s')"
  shows "UpsertQualityCircuitRuntime (call_now cl) (call_Err cl) input v (qualityCircuits (call_env cl s)) = (r, qualityCircuits s')"
  using assms by (auto simp: upsertCircuit_def Let_def split: prod.splits)

lemma env_evolves: "env_ok cl \<Longrightarrow> circuits_evolve (qualityCircuits s) (qualityCircuits (call_env cl s))"
  by (simp add: env_ok_def)

lemma upsert_evolves:
  assumes "upsertCircuit cl input v s = (r, s')" "env_ok cl"
  shows "circuits_evolve (qualityCircuits s) (qualityCircuits s')"
  using env_evolves [OF assms(2)] upsertCircuit_result [OF assms(1)] by (metis evolve_upsert)

lemma get_evolves: "getCircuit cl p ch s = (r, s') \<Longrightarrow> env_ok cl \<Longrightarrow> circuits_evolve (qualityCircuits s) (qualityCircuits s')"
  using getCircuit_result(1) env_evolves by metis

lemma GetQualityCircuitRuntime_cases:
  assumes "GetQualityCircuitRuntime c p ch cs = r"
  obtains (err) e where "r = Inl (ErrContext e)" "c = Some e"
  | (missing) "r = Inl ErrNotFound" "find_circuit cs (p, ch) = None" "c = None"
  | (found) rt where "r = Inr rt" "find_circuit cs (p, ch) = Some rt" "c = None"
  using assms by (cases c; cases "find_circuit cs (p, ch)") (auto simp: GetQualityCircuitRuntime_def)

text \<open>A row that was read and written back under its version was not touched in between: the write
  is a step on the row that was read, whatever the others did.\<close>

lemma read_modify_write:
  assumes "find_circuit (qualityCircuits s) (circuit_key input) = Some rt" "env_ok cl"
    "upsertCircuit cl input (qr_Version rt) s = (Inr r, s')"
  shows "find_circuit (qualityCircuits (call_env cl s)) (circuit_key input) = Some rt"
proof -
  have "circuit_writes (qualityCircuits (call_env cl s)) (circuit_key input) (qr_Version rt) r (qualityCircuits s')"
    using upsertCircuit_result [OF assms(3)] by (rule circuit_writesI)
  moreover have "circuit_table.evolve (qualityCircuits s) (qualityCircuits (call_env cl s))"
    using env_evolves [OF assms(2)] by (simp add: circuits_evolve_iff)
  ultimately show ?thesis using circuit_table.write_replaces_read assms(1) by blast
qed

text \<open>The same for a row that did not exist.\<close>

lemma create_if_absent:
  assumes "upsertCircuit cl input 0 s = (Inr r, s')"
  shows "find_circuit (qualityCircuits (call_env cl s)) (circuit_key input) = None"
  using circuit_writes_version(2) [OF circuit_writesI [OF upsertCircuit_result [OF assms]]] by (metis not_Some_eq less_irrefl)

section \<open>Ejection is atomic\<close>

text \<open>An ejection as one step on the table.\<close>

definition ejects :: "string \<Rightarrow> string \<Rightarrow> PenaltyEvaluation \<Rightarrow> time \<Rightarrow> circuits \<Rightarrow> QualityCircuitRuntime \<Rightarrow> circuits \<Rightarrow> bool" where
  "ejects p ch ev t cs r cs' \<longleftrightarrow>
     (case find_circuit cs (p, ch) of
        None \<Rightarrow> \<exists>now. UpsertQualityCircuitRuntime now None (ejectedRuntime p ch ev t QualityCircuitRuntime_zero) 0 cs = (Inr r, cs')
      | Some rt \<Rightarrow> if alreadyOpen t rt then r = rt \<and> cs' = cs
          else \<exists>now. UpsertQualityCircuitRuntime now None (ejectedRuntime p ch ev t rt) (qr_Version rt) cs = (Inr r, cs'))"

lemma upsert_ctx: "UpsertQualityCircuitRuntime now c input v cs = (Inr r, cs') \<Longrightarrow> c = None"
  by (auto elim: UpsertQualityCircuitRuntime_cases)

lemma save_ejects:
  assumes ev: "pe_Eject ev" and up: "upsertCircuit cl (ejectedRuntime p ch ev t rt0) v s = (Inr r, s')" and env: "env_ok cl"
    and got: "(find_circuit (qualityCircuits s) (p, ch) = Some rt0 \<and> v = qr_Version rt0 \<and> \<not> alreadyOpen t rt0) \<or>
      (rt0 = QualityCircuitRuntime_zero \<and> v = 0)"
  shows "ejects p ch ev t (qualityCircuits (call_env cl s)) r (qualityCircuits s')"
proof -
  have k: "circuit_key (ejectedRuntime p ch ev t rt0) = (p, ch)" by (rule ejectedRuntime_row(9) [OF ev])
  note w = upsertCircuit_result [OF up]
  have w': "UpsertQualityCircuitRuntime (call_now cl) None (ejectedRuntime p ch ev t rt0) v (qualityCircuits (call_env cl s)) = (Inr r, qualityCircuits s')"
    using w upsert_ctx [OF w] by simp
  from got show ?thesis
  proof
    assume g: "find_circuit (qualityCircuits s) (p, ch) = Some rt0 \<and> v = qr_Version rt0 \<and> \<not> alreadyOpen t rt0"
    then have "find_circuit (qualityCircuits (call_env cl s)) (p, ch) = Some rt0"
      using read_modify_write [where input = "ejectedRuntime p ch ev t rt0", OF _ env] up k by fastforce
    then show ?thesis using g w' by (auto simp: ejects_def)
  next
    assume g: "rt0 = QualityCircuitRuntime_zero \<and> v = 0"
    then have "find_circuit (qualityCircuits (call_env cl s)) (p, ch) = None"
      using create_if_absent up k by metis
    then show ?thesis using g w' by (auto simp: ejects_def)
  qed
qed

lemma openQualityCircuit_loop_atomic:
  assumes "openQualityCircuit_loop n cs p ch ev t s = (Inr r, s')" "calls_ok cs" "pe_Eject ev"
  shows "\<exists>cs1. circuits_evolve (qualityCircuits s) cs1 \<and> ejects p ch ev t cs1 r (qualityCircuits s')"
  using assms
proof (induction n arbitrary: cs s)
  case 0
  then show ?case by simp
next
  case (Suc n)
  obtain got s1 where g: "getCircuit (cs 0) p ch s = (got, s1)" by fastforce
  note e1 = get_evolves [OF g calls_ok_simps(1) [OF Suc.prems(2)]]
  have save: ?case
    if "(case upsertCircuit (cs 1) (ejectedRuntime p ch ev t rt0) v s1 of
          (Inr saved, s) \<Rightarrow> (Inr saved, s)
        | (Inl e, s) \<Rightarrow> if e \<noteq> ErrConflict then (Inl (OrchStore e), s) else openQualityCircuit_loop n (later 2 cs) p ch ev t s) = (Inr r, s')"
      "(find_circuit (qualityCircuits s1) (p, ch) = Some rt0 \<and> v = qr_Version rt0 \<and> \<not> alreadyOpen t rt0) \<or>
       (rt0 = QualityCircuitRuntime_zero \<and> v = 0)" for rt0 v
  proof -
    obtain res s2 where u: "upsertCircuit (cs 1) (ejectedRuntime p ch ev t rt0) v s1 = (res, s2)" by fastforce
    show ?thesis
    proof (cases res)
      case (Inl e)
      then have "openQualityCircuit_loop n (later 2 cs) p ch ev t s2 = (Inr r, s')" using that(1) u by (simp split: if_splits)
      from Suc.IH [OF this] Suc.prems(2,3) obtain cs1 where
        "circuits_evolve (qualityCircuits s2) cs1" "ejects p ch ev t cs1 r (qualityCircuits s')" by auto
      then show ?thesis using e1 upsert_evolves [OF u] Suc.prems(2) circuits_evolve_trans by (meson calls_ok_simps(1))
    next
      case (Inr x)
      then have "x = r" "s2 = s'" using that(1) u by simp_all
      then have "ejects p ch ev t (qualityCircuits (call_env (cs 1) s1)) r (qualityCircuits s')"
        using save_ejects [OF Suc.prems(3) _ _ that(2)] u Inr Suc.prems(2) by simp
      then show ?thesis using e1 env_evolves [of "cs 1" s1] Suc.prems(2) circuits_evolve_trans calls_ok_simps(1) by metis
    qed
  qed
  from getCircuit_result(2) [OF g, symmetric] show ?case
  proof (cases rule: GetQualityCircuitRuntime_cases)
    case missing
    then show ?thesis using save [of QualityCircuitRuntime_zero 0] Suc.prems(1) g by (simp add: Let_def)
  next
    case (found rt)
    show ?thesis
    proof (cases "alreadyOpen t rt")
      case True
      then have "ejects p ch ev t (qualityCircuits s1) r (qualityCircuits s')"
        using Suc.prems(1) g found by (simp add: ejects_def)
      then show ?thesis using e1 by blast
    next
      case False
      then show ?thesis using save [of rt "qr_Version rt"] Suc.prems(1) g found by (simp add: Let_def)
    qed
  qed (use Suc.prems(1) g in simp)
qed

text \<open>The evaluation and the time that \<open>openQualityCircuit\<close> works with.\<close>

definition ejecting :: "string \<Rightarrow> PenaltyEvaluation \<Rightarrow> PenaltyEvaluation" where
  "ejecting channelID evaluation =
     (let evaluation = evaluation\<lparr>pe_ChannelID := channelID\<rparr>
      in if pe_Eject evaluation then evaluation
         else let evaluation = evaluation\<lparr>pe_Eject := True\<rparr>
           in if reason_Code (pe_Reason evaluation) = ''''
              then evaluation\<lparr>pe_Reason := \<lparr>reason_Code = CircuitReasonOpened, reason_Text = plainText text_removed\<rparr>\<rparr>
              else evaluation)"

lemma ejecting_simps [simp]: "pe_Eject (ejecting ch ev)" "pe_Score (ejecting ch ev) = pe_Score ev"
  by (simp_all add: ejecting_def Let_def)

lemma openQualityCircuit_eq:
  "openQualityCircuit cs onow p ch ev t s =
     (if p = '''' \<or> ch = '''' then (Inl OrchScopeRequired, s)
      else openQualityCircuit_loop qualityCircuitCASAttempts cs p ch (ejecting ch ev) (if IsZero t then onow else t) s)"
  by (simp add: openQualityCircuit_def ejecting_def Let_def)

lemma ejects_row:
  assumes "ejects p ch ev t cs r cs'" "pe_Eject ev"
  shows "find_circuit cs' (p, ch) = Some r" "qr_State r = CircuitOpen"
    "\<exists>u. qr_LastTransitionAt r = Some u \<and> t \<le> u" "circuits_evolve cs cs'"
proof -
  have w: "find_circuit cs' (p, ch) = Some r \<and> qr_State r = CircuitOpen \<and> (\<exists>u. qr_LastTransitionAt r = Some u \<and> t \<le> u) \<and> circuits_evolve cs cs'"
    if u: "UpsertQualityCircuitRuntime now c (ejectedRuntime p ch ev t rt) v cs = (Inr r, cs')" for now c rt v
  proof -
    note row = ejectedRuntime_row [OF assms(2), of p ch t rt]
    have f: "find_circuit cs' (p, ch) = Some r"
      using circuit_writes_lookup(1) [OF circuit_writesI [OF u]] row(9) by simp
    have "t \<le> (if IsZero t then unixEpoch else t)" by (simp add: IsZero_def unixEpoch_def)
    moreover from u have "qr_State r = CircuitOpen \<and> qr_LastTransitionAt r = Some (if IsZero t then unixEpoch else t)"
      by (cases rule: UpsertQualityCircuitRuntime_cases) (use row in simp_all)
    ultimately show ?thesis using f evolve_upsert [OF evolve_none u] by blast
  qed
  have "find_circuit cs' (p, ch) = Some r \<and> qr_State r = CircuitOpen \<and> (\<exists>u. qr_LastTransitionAt r = Some u \<and> t \<le> u) \<and> circuits_evolve cs cs'"
  proof (cases "find_circuit cs (p, ch)")
    case None
    then show ?thesis using assms(1) w by (auto simp: ejects_def)
  next
    case (Some rt)
    show ?thesis
    proof (cases "alreadyOpen t rt")
      case True
      then show ?thesis using assms(1) Some evolve_none by (auto simp: ejects_def alreadyOpen_def split: option.splits)
    next
      case False
      then show ?thesis using assms(1) Some w by (auto simp: ejects_def)
    qed
  qed
  then show "find_circuit cs' (p, ch) = Some r" "qr_State r = CircuitOpen"
    "\<exists>u. qr_LastTransitionAt r = Some u \<and> t \<le> u" "circuits_evolve cs cs'" by blast+
qed

section \<open>Ejection comes through\<close>

definition score_ok :: "float64 \<Rightarrow> bool" where
  "score_ok x \<longleftrightarrow> (\<exists>q. x = Fin q \<and> 0 \<le> q \<and> q \<le> 100)"

text \<open>The counters of the circuits are short of the end of \<open>int64\<close>.\<close>

definition circuits_live :: "circuits \<Rightarrow> bool" where
  "circuits_live cs \<longleftrightarrow> list_all (\<lambda>rt. 0 < qr_Version rt \<and> 0 \<le> qr_OpenCount rt \<and> qr_OpenCount rt < 2 ^ 63 - 1) cs"

lemma ejected_valid:
  assumes "pe_Eject ev" "score_ok (pe_Score ev)" "p \<noteq> ''''" "ch \<noteq> ''''" "0 \<le> qr_OpenCount rt" "qr_OpenCount rt < 2 ^ 63 - 1" "0 \<le> v"
  shows "validQualityCircuitRuntime (ejectedRuntime p ch ev t rt) v"
proof -
  have "wrap64 (qr_OpenCount rt + 1) = qr_OpenCount rt + 1" using assms(5,6) by (intro wrap64_id) (simp add: in64_def)
  moreover have "qr_PlanID (ejectedRuntime p ch ev t rt) = p" "qr_ChannelID (ejectedRuntime p ch ev t rt) = ch"
    using ejectedRuntime_row(9) [OF assms(1), of p ch t rt] by (simp_all add: circuit_key_def)
  ultimately show ?thesis using assms ejectedRuntime_row [OF assms(1), of p ch t rt]
    by (auto simp: validQualityCircuitRuntime_def validRecoveryStage_def score_ok_def)
qed

text \<open>An attempt during which nobody else writes the circuit succeeds.\<close>

lemma undisturbed_attempt:
  assumes ev: "pe_Eject ev" "score_ok (pe_Score ev)" "p \<noteq> ''''" "ch \<noteq> ''''"
    and ctx: "call_Err (cs 0) = None" "call_Err (cs 1) = None"
    and live: "circuits_live (qualityCircuits (call_env (cs 0) s))"
    and calm: "\<And>s. find_circuit (qualityCircuits (call_env (cs 1) s)) (p, ch) = find_circuit (qualityCircuits s) (p, ch)"
  shows "\<exists>r s'. openQualityCircuit_loop (Suc n) cs p ch ev t s = (Inr r, s')"
proof -
  let ?s1 = "call_env (cs 0) s"
  have k: "circuit_key (ejectedRuntime p ch ev t rt) = (p, ch)" for rt by (rule ejectedRuntime_row(9) [OF ev(1)])
  have up: "\<exists>r s2. upsertCircuit (cs 1) (ejectedRuntime p ch ev t rt) v ?s1 = (Inr r, s2)"
    if "validQualityCircuitRuntime (ejectedRuntime p ch ev t rt) v"
      "(find_circuit (qualityCircuits ?s1) (p, ch) = Some rt \<and> v = qr_Version rt \<and> v \<noteq> 0) \<or> (find_circuit (qualityCircuits ?s1) (p, ch) = None \<and> v = 0)" for rt v
    using that(2,1) ctx(2) calm [of ?s1] k [of rt]
    by (elim disjE conjE) (simp_all add: upsertCircuit_def UpsertQualityCircuitRuntime_def Let_def)
  show ?thesis
  proof (cases "find_circuit (qualityCircuits ?s1) (p, ch)")
    case None
    have "validQualityCircuitRuntime (ejectedRuntime p ch ev t QualityCircuitRuntime_zero) 0"
      by (rule ejected_valid [OF ev]) (simp_all add: QualityCircuitRuntime_zero_def)
    from up [OF this] None show ?thesis using ctx(1) by (auto simp: getCircuit_def GetQualityCircuitRuntime_def Let_def)
  next
    case (Some rt)
    have "0 < qr_Version rt" "0 \<le> qr_OpenCount rt" "qr_OpenCount rt < 2 ^ 63 - 1"
      using find_SomeD [OF Some] live by (auto simp: circuits_live_def list_all_iff)
    then have "validQualityCircuitRuntime (ejectedRuntime p ch ev t rt) (qr_Version rt)" "qr_Version rt \<noteq> 0"
      using ejected_valid [OF ev] by simp_all
    from up [OF this(1)] this(2) Some show ?thesis using ctx(1)
      by (cases "alreadyOpen t rt") (auto simp: getCircuit_def GetQualityCircuitRuntime_def Let_def)
  qed
qed

lemma openQualityCircuit_loop_succeeds:
  assumes ev: "pe_Eject ev" "score_ok (pe_Score ev)" "p \<noteq> ''''" "ch \<noteq> ''''"
    and ctx: "\<And>k. call_Err (cs k) = None"
    and live: "circuits_live (qualityCircuits s)" "\<And>k s. circuits_live (qualityCircuits s) \<Longrightarrow> circuits_live (qualityCircuits (call_env (cs k) s))"
    and calm: "i < n" "\<And>s. find_circuit (qualityCircuits (call_env (cs (2 * i + 1)) s)) (p, ch) = find_circuit (qualityCircuits s) (p, ch)"
  shows "\<exists>r s'. openQualityCircuit_loop n cs p ch ev t s = (Inr r, s')"
  using ctx live calm
proof (induction i arbitrary: n cs s)
  case 0
  then obtain m where "n = Suc m" by (cases n) auto
  then show ?case using undisturbed_attempt [OF ev, of cs s m t] 0 by simp
next
  case (Suc i)
  then obtain m where n: "n = Suc m" by (cases n) auto
  let ?s1 = "call_env (cs 0) s"
  have l1: "circuits_live (qualityCircuits ?s1)" using Suc.prems(2,3) by blast
  have IH: "\<exists>r s'. openQualityCircuit_loop m (later 2 cs) p ch ev t s2 = (Inr r, s')" if "circuits_live (qualityCircuits s2)" for s2
    by (rule Suc.IH) (use Suc.prems that n in \<open>simp_all add: later_def\<close>)
  have save: "\<exists>r s'. (case upsertCircuit (cs 1) (ejectedRuntime p ch ev t rt0) v ?s1 of
          (Inr saved, s) \<Rightarrow> (Inr saved, s)
        | (Inl e, s) \<Rightarrow> if e \<noteq> ErrConflict then (Inl (OrchStore e), s) else openQualityCircuit_loop m (later 2 cs) p ch ev t s) = (Inr r, s')" for rt0 v
  proof -
    obtain res s2 where u: "upsertCircuit (cs 1) (ejectedRuntime p ch ev t rt0) v ?s1 = (res, s2)" by fastforce
    show ?thesis
    proof (cases res)
      case (Inl e)
      then have "e = ErrConflict" "qualityCircuits s2 = qualityCircuits (call_env (cs 1) ?s1)"
        using upsertCircuit_result [OF u] Suc.prems(1) by (auto elim: UpsertQualityCircuitRuntime_cases)
      then show ?thesis using u Inl IH [of s2] Suc.prems(3) [OF l1, of 1] by simp
    qed (use u in simp)
  qed
  show ?case
    unfolding n using save Suc.prems(1) [of 0]
    by (auto simp: getCircuit_def GetQualityCircuitRuntime_def Let_def split: option.splits)
qed

lemma claim_writes:
  assumes "fst (claimQualityProbe cl rt now s) = Inr (Some claimed)"
  shows "\<exists>r. circuit_writes (qualityCircuits (call_env cl s)) (circuit_key rt) (qr_Version rt) r (qualityCircuits (snd (claimQualityProbe cl rt now s)))"
proof -
  have k: "circuit_key (claimRow now rt) = circuit_key rt" by (simp add: claimRow_def circuit_key_def Let_def)
  obtain res s' where u: "upsertCircuit cl (claimRow now rt) (qr_Version rt) s = (res, s')" by fastforce
  then obtain r where "res = Inr r" "snd (claimQualityProbe cl rt now s) = s'"
    using assms by (auto simp: claimQualityProbe_def split: if_splits sum.splits)
  then show ?thesis using circuit_writesI [OF upsertCircuit_result [of cl "claimRow now rt" "qr_Version rt" s "Inr r" s']] u k by auto
qed

section \<open>Properties\<close>

text \<open>C14. An ejection is atomic and lasting under any interference of other schedulers. When
  \<open>openQualityCircuit\<close> returns a circuit, the table is what the others made of it, changed by one
  step on the row they left (not on the row some earlier attempt has read): that row is opened
  once more, or was open at a later time already. The circuit is open in the table, its last
  transition is not before the ejection.\<close>

theorem ejection_is_atomic:
  assumes "calls_ok cs" "openQualityCircuit cs onow p ch ev t s = (Inr r, s')"
  defines "at_time \<equiv> (if IsZero t then onow else t)"
  shows "\<exists>cs1. circuits_evolve (qualityCircuits s) cs1 \<and> ejects p ch (ejecting ch ev) at_time cs1 r (qualityCircuits s') \<and>
    find_circuit (qualityCircuits s') (p, ch) = Some r \<and> qr_State r = CircuitOpen \<and>
    (\<exists>u. qr_LastTransitionAt r = Some u \<and> at_time \<le> u)"
proof -
  have "openQualityCircuit_loop qualityCircuitCASAttempts cs p ch (ejecting ch ev) at_time s = (Inr r, s')"
    using assms(2) unfolding openQualityCircuit_eq at_time_def by (simp split: if_splits)
  from openQualityCircuit_loop_atomic [OF this assms(1)] ejects_row show ?thesis by fastforce
qed

text \<open>C15. The retry loop of an ejection ends in success: with a live context and a score on the scale,
  one undisturbed attempt among the eight is enough, whatever the other schedulers do during the
  rest, as long as the counters have not run to the end of \<open>int64\<close>.\<close>

theorem ejection_succeeds:
  assumes "p \<noteq> ''''" "ch \<noteq> ''''" "score_ok (pe_Score ev)" "\<And>k. call_Err (cs k) = None"
    "circuits_live (qualityCircuits s)" "\<And>k s. circuits_live (qualityCircuits s) \<Longrightarrow> circuits_live (qualityCircuits (call_env (cs k) s))"
    "i < qualityCircuitCASAttempts"
    "\<And>s. find_circuit (qualityCircuits (call_env (cs (2 * i + 1)) s)) (p, ch) = find_circuit (qualityCircuits s) (p, ch)"
  shows "\<exists>r s'. openQualityCircuit cs onow p ch ev t s = (Inr r, s')"
  using openQualityCircuit_loop_succeeds [of "ejecting ch ev" p ch cs s i, OF _ _ assms(1,2,4,5,6,7,8)] assms(1-3)
  by (simp add: openQualityCircuit_eq)

text \<open>C16. A recovery probe has one owner. Once a runner has claimed a version of a circuit, no other
  runner that has listed the same version claims it too, at any later time, so the probe of that
  version is sent once.\<close>

theorem probe_has_one_owner:
  assumes "claimQualityProbe cl rt now s = (Inr (Some claimed), s1)" "circuits_evolve (qualityCircuits s1) (qualityCircuits s2)"
    "env_ok cl'" "circuit_key rt' = circuit_key rt" "qr_Version rt' = qr_Version rt"
  shows "fst (claimQualityProbe cl' rt' now' s2) \<noteq> Inr (Some other)"
proof
  assume o: "fst (claimQualityProbe cl' rt' now' s2) = Inr (Some other)"
  obtain r where 1: "circuit_writes (qualityCircuits (call_env cl s)) (circuit_key rt) (qr_Version rt) r (qualityCircuits s1)"
    using claim_writes [of cl rt now s claimed] assms(1) by auto
  obtain r' t where 2: "circuit_writes (qualityCircuits (call_env cl' s2)) (circuit_key rt) (qr_Version rt) r' t"
    using claim_writes [OF o] assms(4,5) by auto
  have "circuit_table.evolve (qualityCircuits s1) (qualityCircuits (call_env cl' s2))"
    using circuits_evolve_trans [OF assms(2) env_evolves [OF assms(3)]] by (simp add: circuits_evolve_iff)
  from circuit_table.one_winner [OF 1 this] 2 show False by blast
qed

subsection \<open>Examples\<close>

text \<open>A scheduler in a quiet store: nobody else writes, the context lives.\<close>

definition quiet :: "time \<Rightarrow> sched_call" where
  "quiet now = \<lparr>call_Err = None, call_now = now, call_env = (\<lambda>s. s)\<rparr>"

lemma quiet_ok [simp]: "env_ok (quiet now)" "calls_ok (\<lambda>k. quiet now)" "call_Err (quiet now) = None" "call_env (quiet now) s = s"
  by (simp_all add: quiet_def env_ok_def calls_ok_def evolve_none)

definition sample_circuit_row :: QualityCircuitRuntime where
  "sample_circuit_row = QualityCircuitRuntime_zero\<lparr>qr_PlanID := ''plan-1'', qr_ChannelID := ''c1'', qr_State := CircuitOpen,
     qr_ProbeAfter := Some 10, qr_OpenCount := 1, qr_Version := 4\<rparr>"

definition sample_scheduler_store :: SchedulerStore where
  "sample_scheduler_store = \<lparr>tables = sample_health_store, qualityCircuits = [sample_circuit_row], publishedBindings = [], routePlans = [],
     routeStrategies = [], autoSwitchDecs = [], connectors = [], connectorTasks = []\<rparr>"

theorem ejection_is_atomic_witness:
  "\<exists>r s' cs1. openQualityCircuit (\<lambda>k. quiet 7) 9 ''plan-1'' ''c1'' sample_evaluation 0 sample_scheduler_store = (Inr r, s') \<and>
     ejects ''plan-1'' ''c1'' (ejecting ''c1'' sample_evaluation) 9 cs1 r (qualityCircuits s') \<and> qr_State r = CircuitOpen"
proof -
  have "\<exists>r s'. openQualityCircuit (\<lambda>k. quiet 7) 9 ''plan-1'' ''c1'' sample_evaluation 0 sample_scheduler_store = (Inr r, s')"
    using openQualityCircuit_loop_succeeds [of "ejecting ''c1'' sample_evaluation" "''plan-1''" "''c1''" "\<lambda>k. quiet 7" sample_scheduler_store 0]
    by (simp add: openQualityCircuit_eq IsZero_def qualityCircuitCASAttempts_def score_ok_def sample_evaluation_def sample_scheduler_store_def
        circuits_live_def sample_circuit_row_def)
  then show ?thesis using ejection_is_atomic [OF quiet_ok(2)] by (force simp: IsZero_def)
qed

theorem ejection_succeeds_witness:
  "\<exists>r s'. openQualityCircuit (\<lambda>k. quiet 7) 9 ''plan-1'' ''c1'' sample_evaluation 20 sample_scheduler_store = (Inr r, s')"
  using ejection_succeeds [of "''plan-1''" "''c1''" sample_evaluation "\<lambda>k. quiet 7" sample_scheduler_store 3]
  by (simp add: qualityCircuitCASAttempts_def score_ok_def sample_evaluation_def sample_scheduler_store_def circuits_live_def sample_circuit_row_def)

theorem probe_has_one_owner_witness:
  "\<exists>claimed s1. claimQualityProbe (quiet 20) sample_circuit_row 20 sample_scheduler_store = (Inr (Some claimed), s1) \<and>
     (\<forall>other. fst (claimQualityProbe (quiet 21) sample_circuit_row 21 s1) \<noteq> Inr (Some other))"
proof -
  have "\<exists>claimed s1. claimQualityProbe (quiet 20) sample_circuit_row 20 sample_scheduler_store = (Inr (Some claimed), s1)"
    by (simp add: claimQualityProbe_def claimable_def qualityCircuitBlocksScheduling_def claimRow_def upsertCircuit_def quiet_def sample_scheduler_store_def
        sample_circuit_row_def QualityCircuitRuntime_zero_def UpsertQualityCircuitRuntime_def validQualityCircuitRuntime_def validRecoveryStage_def
        circuit_key_def Let_def)
  then obtain claimed s1 where c: "claimQualityProbe (quiet 20) sample_circuit_row 20 sample_scheduler_store = (Inr (Some claimed), s1)" by blast
  have "fst (claimQualityProbe (quiet 21) sample_circuit_row 21 s1) \<noteq> Inr (Some other)" for other
    by (rule probe_has_one_owner [OF c evolve_none]) simp_all
  with c show ?thesis by blast
qed

end
