(* ===== verification/Recovery_Rollout.thy ===== *)
theory Recovery_Rollout
  imports Circuit_Scheduler Quality_Cohort
begin

text \<open>
  The recovery of ejected bindings: the probing part of \<open>recovery.go\<close>, the staged rollout
  \<open>recovery_rollout.go\<close>, and the strategy lookup of \<open>orchestrator.go\<close> they use. The last part
  follows the circuits through every interleaving of these operations.
\<close>

section \<open>The strategy of a plan\<close>

record RouteStrategyFilter =
  rsf_Scope :: StrategyScope
  rsf_PlanID :: string
  rsf_PoolID :: string
  rsf_UserID :: int64

definition RouteStrategyFilter_Matches :: "RouteStrategyFilter \<Rightarrow> RouteStrategy \<Rightarrow> bool" where
  "RouteStrategyFilter_Matches f x \<longleftrightarrow>
     \<not> (rsf_Scope f \<noteq> StrategyScopeOther '''' \<and> rst_Scope x \<noteq> rsf_Scope f) \<and>
     \<not> (rsf_PlanID f \<noteq> '''' \<and> rst_PlanID x \<noteq> rsf_PlanID f) \<and>
     \<not> (rsf_PoolID f \<noteq> '''' \<and> rst_PoolID x \<noteq> rsf_PoolID f) \<and>
     \<not> (rsf_UserID f \<noteq> 0 \<and> rst_UserID x \<noteq> rsf_UserID f)"

definition ListRouteStrategies :: "sched_call \<Rightarrow> RouteStrategyFilter \<Rightarrow> SchedulerStore \<Rightarrow> (store_error + RouteStrategy list) \<times> SchedulerStore" where
  "ListRouteStrategies cl f s =
     (let s = call_env cl s in
      (case call_Err cl of Some e \<Rightarrow> Inl (ErrContext e) | None \<Rightarrow> Inr (filter (RouteStrategyFilter_Matches f) (routeStrategies s)), s))"

fun strategyLookups :: "sched_calls \<Rightarrow> RouteStrategyFilter list \<Rightarrow> SchedulerStore \<Rightarrow> RouteStrategy option \<times> SchedulerStore" where
  "strategyLookups cs [] s = (None, s)"
| "strategyLookups cs (f # fs) s =
     (if rsf_PlanID f = '''' \<and> rsf_PoolID f = '''' \<and> rsf_UserID f = 0 then strategyLookups (later 1 cs) fs s
      else case ListRouteStrategies (cs 0) f s of
        (Inr (found # _), s) \<Rightarrow> (Some found, s)
      | (_, s) \<Rightarrow> strategyLookups (later 1 cs) fs s)"

definition resolvePersistedStrategy :: "sched_calls \<Rightarrow> RoutePlan \<Rightarrow> SchedulerStore \<Rightarrow> RouteStrategy option \<times> SchedulerStore" where
  "resolvePersistedStrategy cs plan = strategyLookups cs
     [\<lparr>rsf_Scope = StrategyScopePlan, rsf_PlanID = pln_ID plan, rsf_PoolID = '''', rsf_UserID = 0\<rparr>,
      \<lparr>rsf_Scope = StrategyScopePool, rsf_PlanID = '''', rsf_PoolID = pln_PoolID plan, rsf_UserID = 0\<rparr>,
      \<lparr>rsf_Scope = StrategyScopeUser, rsf_PlanID = '''', rsf_PoolID = '''', rsf_UserID = pln_UserID plan\<rparr>]"

text \<open>The conversion \<open>contracts.RouteStrategyType(string)\<close>.\<close>

definition RouteStrategyType_of :: "string \<Rightarrow> RouteStrategyType" where
  "RouteStrategyType_of t =
     (if t = ''stability_first'' then StrategyStabilityFirst
      else if t = ''cost_first'' then StrategyCostFirst
      else if t = ''latency_first'' then StrategyLatencyFirst
      else if t = ''balanced'' then StrategyBalanced
      else RouteStrategyTypeOther t)"

definition managedStrategy :: "RoutePlan \<Rightarrow> RouteStrategy" where
  "managedStrategy plan =
     (let label = (case map_of (pln_Labels plan) ''strategy'' of None \<Rightarrow> '''' | Some t \<Rightarrow> t);
          typ = (if label = '''' then StrategyBalanced else RouteStrategyType_Normalize (RouteStrategyType_of label))
      in \<lparr>rst_ID = '''', rst_Name = '''', rst_Type = typ,
          rst_Thresholds = \<lparr>th_MinSamples = 0, th_TargetSuccessRate = Fin 0, th_FloorSuccessRate = Fin 0, th_MaxTTFTP95MS = Fin 0,
            th_MaxDurationP95MS = Fin 0, th_ConsecutiveFailureLimit = 0, th_EjectScore = Fin 0\<rparr>,
          rst_Weights = \<lparr>wt_Success = Fin 0, wt_TTFT = Fin 0, wt_Duration = Fin 0, wt_Stability = Fin 0, wt_Cost = Fin 0\<rparr>,
          rst_AutoApply = True, rst_ApprovalRequired = False, rst_CooldownSeconds = 600, rst_RecoveryObservationSeconds = 0,
          rst_MaxAutoSwitchesPerHour = 6, rst_Scope = StrategyScopeOther '''', rst_PlanID = '''', rst_PoolID = '''', rst_UserID = 0,
          rst_CreatedAt = 0, rst_UpdatedAt = 0\<rparr>)"

text \<open>\<open>pinned\<close> is the field \<open>o.strategy\<close>.\<close>

definition strategyFor :: "sched_calls \<Rightarrow> RouteStrategy option \<Rightarrow> RoutePlan \<Rightarrow> SchedulerStore \<Rightarrow> RouteStrategy \<times> SchedulerStore" where
  "strategyFor cs pinned plan s =
     (case pinned of Some x \<Rightarrow> (x, s) | None \<Rightarrow>
      case resolvePersistedStrategy cs plan s of
        (Some x, s) \<Rightarrow> (x, s)
      | (None, s) \<Rightarrow> (managedStrategy plan, s))"

section \<open>The probe\<close>

record ConnectorGatewayQualityProbeInput =
  pin_AccountID :: string
  pin_ChannelID :: string
  pin_Model :: string
  pin_Capability :: string
  pin_EndpointPath :: string

record ConnectorGatewayQualityProbeResult =
  prr_Success :: bool
  prr_Status :: int64
  prr_ErrorType :: ObservationErrorType
  prr_FirstTokenMS :: float64
  prr_TotalMS :: float64
  prr_Capability :: string
  prr_EndpointPath :: string
  prr_ObservedAt :: time

type_synonym quality_prober = "string \<Rightarrow> ConnectorGatewayQualityProbeInput \<Rightarrow> string \<Rightarrow> string + ConnectorGatewayQualityProbeResult"

text \<open>The parts of \<open>Orchestrator\<close> that are not the store; \<open>orc_now\<close> is what \<open>o.now()\<close> yields,
  \<open>orc_wall\<close> is \<open>time.Now()\<close>, and \<open>orc_sensitive\<close> is \<open>LooksLikeConnectorSensitiveValue\<close>,
  a regular expression and a list of markers over Unicode case folding.\<close>

record Orchestrator =
  orc_engine :: reconciler
  orc_prober :: "quality_prober option"
  orc_strategy :: "RouteStrategy option"
  orc_now :: time
  orc_wall :: time
  orc_sensitive :: "string \<Rightarrow> bool"

definition validQualityProbeOutcome :: "ConnectorGatewayQualityProbeResult \<Rightarrow> bool" where
  "validQualityProbeOutcome r \<longleftrightarrow>
     (if prr_Success r
      then 200 \<le> prr_Status r \<and> prr_Status r < 300 \<and> prr_ErrorType r = ErrorNone \<and> flt (Fin 0) (prr_FirstTokenMS r) \<and>
           flt (Fin 0) (prr_TotalMS r) \<and> fle (prr_FirstTokenMS r) (prr_TotalMS r)
      else prr_ErrorType r \<noteq> ErrorNone)"

definition boolFloat :: "bool \<Rightarrow> float64" where "boolFloat b = (if b then Fin 1 else Fin 0)"
definition boolInt :: "bool \<Rightarrow> int64" where "boolInt b = (if b then 1 else 0)"

definition upstreamResponsibleError :: "ObservationErrorType \<Rightarrow> bool" where
  "upstreamResponsibleError kind \<longleftrightarrow> kind \<noteq> ErrorNone \<and> kind \<noteq> ErrorClient \<and> kind \<noteq> ErrorCanceled \<and> kind \<noteq> ErrorPlatform"

definition probeEvidenceSamples :: "RouteStrategy \<Rightarrow> int64" where
  "probeEvidenceSamples strat = (if 5 < th_MinSamples (rst_Thresholds strat) then th_MinSamples (rst_Thresholds strat) else 5)"

definition probeSnapshot :: "RouteStrategy \<Rightarrow> UpstreamChannel \<Rightarrow> string \<Rightarrow> ConnectorGatewayQualityProbeResult \<Rightarrow> ChannelHealthSnapshot" where
  "probeSnapshot strat channel instanceID r =
     (let snapshot = emptySnapshot\<lparr>snap_ChannelID := chan_ID channel, snap_InstanceID := instanceID, snap_Capability := prr_Capability r,
            snap_EndpointPath := prr_EndpointPath r, snap_Window := Window1m, snap_SampleCount := probeEvidenceSamples strat,
            snap_SuccessRate := boolFloat (prr_Success r), snap_ErrorRate := boolFloat (\<not> prr_Success r),
            snap_QualitySampleCount := probeEvidenceSamples strat, snap_QualitySuccessRate := boolFloat (prr_Success r),
            snap_QualityErrorRate := boolFloat (\<not> prr_Success r),
            snap_UpstreamErrorRate := boolFloat (\<not> prr_Success r \<and> upstreamResponsibleError (prr_ErrorType r)),
            snap_TTFTP95 := prr_FirstTokenMS r, snap_DurationP95 := prr_TotalMS r, snap_HealthState := HealthHealthy,
            snap_AuthFailureCount := boolInt (prr_ErrorType r = ErrorAuth),
            snap_InsufficientBalanceCount := boolInt (prr_ErrorType r = ErrorInsufficientBalance)\<rparr>
      in if prr_Success r then snapshot else snapshot\<lparr>snap_HealthState := HealthUnhealthy\<rparr>)"

definition candidateOf :: "UpstreamChannel \<Rightarrow> ChannelHealthSnapshot \<Rightarrow> Candidate" where
  "candidateOf channel snapshot = \<lparr>cd_Channel = channel, cd_Snapshot = snapshot, cd_State = snap_HealthState snapshot, cd_AuthFailure = False,
     cd_InsufficientBalance = False, cd_ConsecutiveFailures = 0, cd_ProviderDown = False\<rparr>"

definition qualityProbeEvaluation ::
  "RouteStrategy \<Rightarrow> UpstreamChannel \<Rightarrow> string \<Rightarrow> ConnectorGatewayQualityProbeResult \<Rightarrow> PenaltyEvaluation" where
  "qualityProbeEvaluation strat channel instanceID r =
     (let eval = EvaluatePenalty strat (candidateOf channel (probeSnapshot strat channel instanceID r))
      in if prr_Success r then eval
         else eval\<lparr>pe_Eject := True, pe_Score := Fin 0,
           pe_Reason := \<lparr>reason_Code = ''recovery_probe_failed'', reason_Text = plainText ''active recovery probe failed''\<rparr>\<rparr>)"

definition GetInstance :: "sched_call \<Rightarrow> string \<Rightarrow> SchedulerStore \<Rightarrow> (store_error + Instance) \<times> SchedulerStore" where
  "GetInstance cl i s =
     (let s = call_env cl s in
      (case call_Err cl of Some e \<Rightarrow> Inl (ErrContext e) | None \<Rightarrow>
         (case find (\<lambda>x. inst_ID x = i) (instances (base (tables s))) of Some x \<Rightarrow> Inr x | None \<Rightarrow> Inl ErrNotFound), s))"

definition GetUpstreamPool :: "sched_call \<Rightarrow> string \<Rightarrow> SchedulerStore \<Rightarrow> (store_error + UpstreamPool) \<times> SchedulerStore" where
  "GetUpstreamPool cl i s =
     (let s = call_env cl s in
      (case call_Err cl of Some e \<Rightarrow> Inl (ErrContext e) | None \<Rightarrow>
         (case find (\<lambda>x. pool_ID x = i) (upstreamPools (base (tables s))) of Some x \<Rightarrow> Inr x | None \<Rightarrow> Inl ErrNotFound), s))"

definition GetConnector :: "sched_call \<Rightarrow> string \<Rightarrow> SchedulerStore \<Rightarrow> (store_error + Connector) \<times> SchedulerStore" where
  "GetConnector cl i s =
     (let s = call_env cl s in
      (case call_Err cl of Some e \<Rightarrow> Inl (ErrContext e) | None \<Rightarrow>
         (case find (\<lambda>x. con_ID x = i) (connectors s) of Some x \<Rightarrow> Inr x | None \<Rightarrow> Inl ErrNotFound), s))"

definition IsConnectorQualityProbeField :: "(string \<Rightarrow> bool) \<Rightarrow> string \<Rightarrow> bool" where
  "IsConnectorQualityProbeField sensitive v \<longleftrightarrow>
     (let v = TrimSpace v in
      \<not> (v = '''' \<or> 128 < length v \<or> sensitive v) \<and> list_all (\<lambda>r. \<not> rune_IsControl r) (range_runes v))"

definition firstProbeModel :: "(string \<Rightarrow> bool) \<Rightarrow> string list \<Rightarrow> string list \<Rightarrow> string" where
  "firstProbeModel sensitive channelModels poolModels =
     (case find (\<lambda>m. m \<noteq> '''' \<and> IsConnectorQualityProbeField sensitive m) (map TrimSpace (channelModels @ poolModels)) of None \<Rightarrow> '''' | Some m \<Rightarrow> m)"

text \<open>An unavailable scope is answered with the text of the error.\<close>

definition qualityProbeScope ::
  "sched_calls \<Rightarrow> Orchestrator \<Rightarrow> QualityCircuitRuntime \<Rightarrow> SchedulerStore \<Rightarrow>
   (string + RoutePlan \<times> PublishedBinding \<times> UpstreamChannel \<times> Instance \<times> string) \<times> SchedulerStore" where
  "qualityProbeScope cs o' rt s =
     (case GetRoutePlan (cs 0) (qr_PlanID rt) s of (Inl e, s) \<Rightarrow> (Inl (store_error_Error e), s) | (Inr plan, s) \<Rightarrow>
      if pln_Status plan \<noteq> RoutePlanPublished then (Inl ''route plan is not published'', s)
      else case ListPublishedBindings (cs 1) (pln_ID plan) s of (Inl e, s) \<Rightarrow> (Inl (store_error_Error e), s) | (Inr bindings, s) \<Rightarrow>
      let binding = (case find (\<lambda>b. bnd_ChannelID b = qr_ChannelID rt) bindings of None \<Rightarrow> PublishedBinding_zero | Some b \<Rightarrow> b) in
      if bnd_ChannelID binding = '''' \<or> bnd_State binding \<noteq> BindingDisabled \<or> TrimSpace (bnd_RemoteID binding) = ''''
      then (Inl ''quality-isolated binding is unavailable'', s)
      else case GetUpstreamChannel (cs 2) (qr_ChannelID rt) s of (Inl e, s) \<Rightarrow> (Inl (store_error_Error e), s) | (Inr channel, s) \<Rightarrow>
      case GetInstance (cs 3) (pln_InstanceID plan) s of (Inl e, s) \<Rightarrow> (Inl (store_error_Error e), s) | (Inr inst, s) \<Rightarrow>
      let (model, s) = (case GetUpstreamPool (cs 4) (pln_PoolID plan) s of
            (Inr pool, s) \<Rightarrow> (firstProbeModel (orc_sensitive o') (chan_Models channel) (pool_Models pool), s)
          | (Inl _, s) \<Rightarrow> (firstProbeModel (orc_sensitive o') (chan_Models channel) [], s))
      in if model = '''' then (Inl ''channel has no probe model'', s) else (Inr (plan, binding, channel, inst, model), s))"

definition IsQualityProbeCapability :: "string \<Rightarrow> bool" where
  "IsQualityProbeCapability v \<longleftrightarrow> v = ''text_stream''"

definition IsQualityProbeEndpointPath :: "string \<Rightarrow> bool" where
  "IsQualityProbeEndpointPath v \<longleftrightarrow> TrimSpace v \<in> {''/v1/messages'', ''/v1/responses'', ''/v1/chat/completions''}"

definition connectorSupportsQualityProbe ::
  "sched_call \<Rightarrow> time \<Rightarrow> Instance \<Rightarrow> string \<Rightarrow> string \<Rightarrow> SchedulerStore \<Rightarrow> bool \<times> SchedulerStore" where
  "connectorSupportsQualityProbe cl schedulerTime inst probeCapability endpointPath s =
     (if \<not> IsQualityProbeCapability probeCapability \<or> \<not> IsQualityProbeEndpointPath endpointPath then (False, s)
      else if TrimSpace (inst_ConnectorID inst) = '''' then (False, s)
      else case GetConnector cl (inst_ConnectorID inst) s of
        (Inl _, s) \<Rightarrow> (False, s)
      | (Inr c, s) \<Rightarrow>
          (con_Status c = ConnectorStatusOnline \<and> crs_GatewayStatus (con_Gateway c) = ''ok'' \<and>
           (case con_LastSeenAt c of None \<Rightarrow> False | Some t \<Rightarrow> \<not> t < schedulerTime - Minute) \<and>
           ''gateway.account.quality.probe'' \<in> set (crs_Capabilities (con_Gateway c)) \<and>
           (case crs_QualityProbe (con_Gateway c) of None \<Rightarrow> False | Some p \<Rightarrow>
              cqp_Enabled p \<and> cqp_RecoveryMode p = ''automatic'' \<and> cqp_FirstTokenMS p \<and> cqp_TotalMS p \<and>
              probeCapability \<in> set (cqp_Capabilities p) \<and> endpointPath \<in> set (cqp_EndpointPaths p)), s))"

definition probeIdentity :: "QualityCircuitRuntime \<Rightarrow> string" where
  "probeIdentity rt = ''quality-circuit/'' @ qr_PlanID rt @ ''/'' @ qr_ChannelID rt @ ''/v'' @ FormatInt (qr_Version rt)"

text \<open>The time of a result and the result as the scheduler takes it.\<close>

definition probeTime :: "time \<Rightarrow> ConnectorGatewayQualityProbeResult \<Rightarrow> time" where
  "probeTime now r = (let t = prr_ObservedAt r in if IsZero t \<or> t < now \<or> now + qualityProbeLease < t then now else t)"

definition checkedResult :: "ConnectorGatewayQualityProbeResult \<Rightarrow> ConnectorGatewayQualityProbeResult" where
  "checkedResult r = (if validQualityProbeOutcome r then r else r\<lparr>prr_Success := False, prr_ErrorType := ErrorUnknown\<rparr>)"

definition recoverQualityCircuit ::
  "sched_calls \<Rightarrow> Orchestrator \<Rightarrow> QualityCircuitRuntime \<Rightarrow> time \<Rightarrow> SchedulerStore \<Rightarrow> orch_error option \<times> SchedulerStore" where
  "recoverQualityCircuit cs o' rt now s =
     (case claimQualityProbe (cs 0) rt now s of
        (Inl e, s) \<Rightarrow> (Some e, s)
      | (Inr None, s) \<Rightarrow> (None, s)
      | (Inr (Some claimed), s) \<Rightarrow>
          let wc = WithoutCancel (later 1 cs) in
          if qr_RestorePending claimed
          then (if manualReason claimed then completePendingManualRecovery wc (orc_engine o') claimed now s
                else completePendingQualityRestore wc (orc_engine o') claimed now s)
          else case qualityProbeScope wc o' claimed s of
            (Inl t, s) \<Rightarrow> deferClaimedQualityProbe (later 5 wc) claimed now ''probe_scope_unavailable'' (plainText t) s
          | (Inr (plan, binding, channel, inst, model), s) \<Rightarrow>
              case orc_prober o' of
                None \<Rightarrow> deferClaimedQualityProbe (later 5 wc) claimed now ''probe_unsupported'' (plainText ''active quality probe is not configured'') s
              | Some probe \<Rightarrow>
                  case connectorSupportsQualityProbe (wc 5) (if IsZero now then orc_wall o' else now) inst (chan_ProbeCapability channel) (chan_ProbeEndpointPath channel) s of
                    (False, s) \<Rightarrow> deferClaimedQualityProbe (later 6 wc) claimed now ''probe_unsupported''
                      (plainText ''connector does not advertise active quality probes'') s
                  | (True, s) \<Rightarrow>
                      case probe (inst_ID inst) \<lparr>pin_AccountID = bnd_RemoteID binding, pin_ChannelID = chan_ID channel, pin_Model = model,
                          pin_Capability = chan_ProbeCapability channel, pin_EndpointPath = chan_ProbeEndpointPath channel\<rparr> (probeIdentity claimed) of
                        Inl e \<Rightarrow> deferClaimedQualityProbe (later 6 wc) claimed now ''probe_execution_failed'' (plainText e) s
                      | Inr r \<Rightarrow>
                          let probeAt = probeTime now r; r = checkedResult r in
                          if prr_ErrorType r = ErrorPlatform
                          then deferClaimedQualityProbe (later 6 wc) claimed probeAt ''probe_platform_error''
                            (plainText ''active probe failed inside the downstream platform'') s
                          else let (strat, s) = strategyFor (later 6 wc) (orc_strategy o') plan s
                            in advanceClaimedQualityProbe (later 9 wc) claimed (qualityProbeEvaluation strat channel (inst_ID inst) r) probeAt s)"

section \<open>The staged rollout\<close>

definition recoveryRolloutStages :: "int64 list" where
  "recoveryRolloutStages = [10, 25, 50, 100]"

definition nextRecoveryRolloutStage :: "int64 \<Rightarrow> int64" where
  "nextRecoveryRolloutStage current = (case find (\<lambda>stage. current < stage) recoveryRolloutStages of Some stage \<Rightarrow> stage | None \<Rightarrow> 100)"

record recoveryRolloutMember =
  mb_runtime :: QualityCircuitRuntime
  mb_plan :: RoutePlan
  mb_channel :: UpstreamChannel
  mb_binding :: PublishedBinding

text \<open>The membership of one ready circuit; a store error of the binding list ends the scan.\<close>

definition rolloutMemberOf ::
  "sched_calls \<Rightarrow> QualityCircuitRuntime \<Rightarrow> SchedulerStore \<Rightarrow> (store_error + recoveryRolloutMember option) \<times> SchedulerStore" where
  "rolloutMemberOf cs rt s =
     (if \<not> qr_RecoveryReady rt then (Inr None, s)
      else case GetRoutePlan (cs 0) (qr_PlanID rt) s of (Inl _, s) \<Rightarrow> (Inr None, s) | (Inr plan, s) \<Rightarrow>
      if pln_Status plan \<noteq> RoutePlanPublished then (Inr None, s)
      else case GetUpstreamChannel (cs 1) (qr_ChannelID rt) s of (Inl _, s) \<Rightarrow> (Inr None, s) | (Inr channel, s) \<Rightarrow>
      if TrimSpace (SourceIdentity channel) = '''' then (Inr None, s)
      else case ListPublishedBindings (cs 2) (qr_PlanID rt) s of (Inl e, s) \<Rightarrow> (Inl e, s) | (Inr bindings, s) \<Rightarrow>
      let binding = (case find (\<lambda>b. bnd_ChannelID b = qr_ChannelID rt) bindings of None \<Rightarrow> PublishedBinding_zero | Some b \<Rightarrow> b) in
      if bnd_ChannelID binding = '''' \<or> TrimSpace (bnd_RemoteID binding) = '''' then (Inr None, s)
      else (Inr (Some \<lparr>mb_runtime = rt, mb_plan = plan, mb_channel = channel, mb_binding = binding\<rparr>), s))"

fun recoveryRolloutMembers_loop ::
  "(nat \<Rightarrow> sched_calls) \<Rightarrow> circuits \<Rightarrow> (string \<times> recoveryRolloutMember list) list \<Rightarrow> SchedulerStore \<Rightarrow>
   (store_error + (string \<times> recoveryRolloutMember list) list) \<times> SchedulerStore" where
  "recoveryRolloutMembers_loop cs [] result1 s = (Inr result1, s)"
| "recoveryRolloutMembers_loop cs (rt # rts) result1 s =
     (case rolloutMemberOf (cs 0) rt s of
        (Inl e, s) \<Rightarrow> (Inl e, s)
      | (Inr None, s) \<Rightarrow> recoveryRolloutMembers_loop (\<lambda>i. cs (Suc i)) rts result1 s
      | (Inr (Some m), s) \<Rightarrow>
          let sourceID = SourceIdentity (mb_channel m);
              ms = (case map_of result1 sourceID of None \<Rightarrow> [] | Some ms \<Rightarrow> ms)
          in recoveryRolloutMembers_loop (\<lambda>i. cs (Suc i)) rts (AList.update sourceID (ms @ [m]) result1) s)"

definition recoveryRolloutMembers ::
  "sched_call \<Rightarrow> (nat \<Rightarrow> sched_calls) \<Rightarrow> SchedulerStore \<Rightarrow> (store_error + (string \<times> recoveryRolloutMember list) list) \<times> SchedulerStore" where
  "recoveryRolloutMembers cl cs s =
     (case listCircuits cl \<lparr>qf_PlanID = '''', qf_ChannelID = '''', qf_States = [], qf_ProbeDueBefore = 0, qf_Limit = 0\<rparr> s of
        (Inl e, s) \<Rightarrow> (Inl e, s)
      | (Inr rts, s) \<Rightarrow> recoveryRolloutMembers_loop cs rts [] s)"

definition admittedPlanIDs :: "recoveryRolloutMember list \<Rightarrow> string list" where
  "admittedPlanIDs members =
     map (\<lambda>m. pln_ID (mb_plan m)) (filter (\<lambda>m. qr_State (mb_runtime m) = CircuitClosed \<and> bnd_State (mb_binding m) = BindingActive) members)"

definition stageCohort :: "recoveryRolloutMember list \<Rightarrow> string \<Rightarrow> int64 \<Rightarrow> string list" where
  "stageCohort members sourceID stage =
     StableRecoveryCohortPlanIDs (map (\<lambda>m. pln_ID (mb_plan m)) members) (admittedPlanIDs members) sourceID stage"

definition stageObservations :: "recoveryRolloutMember \<Rightarrow> time \<Rightarrow> ChannelObservationFilter" where
  "stageObservations m now = \<lparr>of_ChannelID = chan_ID (mb_channel m), of_InstanceID = pln_InstanceID (mb_plan m), of_PoolID = '''', of_Model = '''',
     of_Capability = '''', of_EndpointPath = '''', of_Source = ObservationPassive, of_Since = timeValue (qr_RecoveryStageStartedAt (mb_runtime m)),
     of_Until = now, of_Limit = 0, of_ExactScope = False\<rparr>"

definition memberScope :: "recoveryRolloutMember \<Rightarrow> ChannelHealthScope" where
  "memberScope m = \<lparr>scp_ChannelID = chan_ID (mb_channel m), scp_InstanceID = pln_InstanceID (mb_plan m), scp_PoolID = pln_PoolID (mb_plan m),
     scp_Model = '''', scp_Capability = '''', scp_EndpointPath = ''''\<rparr>"

definition listObservations :: "sched_call \<Rightarrow> ChannelObservationFilter \<Rightarrow> SchedulerStore \<Rightarrow> (store_error + ChannelObservation list) \<times> SchedulerStore" where
  "listObservations cl f s = (let s = call_env cl s in (ListChannelObservations (call_Err cl) f (tables s), s))"

definition stageMinSamples :: "RouteStrategy \<Rightarrow> int64" where
  "stageMinSamples strat = (if th_MinSamples (rst_Thresholds strat) \<le> 0 then 5 else th_MinSamples (rst_Thresholds strat))"

text \<open>The verdict on a stage is (ready to expand, regressed). The \<open>i\<close>-th member makes the calls \<open>cs i\<close>.\<close>

fun recoveryStageVerdict_loop ::
  "(nat \<Rightarrow> sched_calls) \<Rightarrow> RouteStrategy option \<Rightarrow> string list \<Rightarrow> int64 \<Rightarrow> time \<Rightarrow> recoveryRolloutMember list \<Rightarrow> int64 \<Rightarrow> SchedulerStore \<Rightarrow>
   (orch_error + bool \<times> bool) \<times> SchedulerStore" where
  "recoveryStageVerdict_loop cs pinned cohort stage now [] admitted s = (Inr (admitted = int (length cohort) \<and> 0 < admitted, False), s)"
| "recoveryStageVerdict_loop cs pinned cohort stage now (m # ms) admitted s =
     (if pln_ID (mb_plan m) \<notin> set cohort then recoveryStageVerdict_loop (\<lambda>i. cs (Suc i)) pinned cohort stage now ms admitted s
      else if qr_RecoveryStage (mb_runtime m) \<noteq> stage \<or> qr_State (mb_runtime m) \<noteq> CircuitClosed \<or>
              bnd_State (mb_binding m) \<noteq> BindingActive \<or> qr_RecoveryObserveAfter (mb_runtime m) = None
      then (Inr (False, False), s)
      else if now < timeValue (qr_RecoveryObserveAfter (mb_runtime m)) then (Inr (False, False), s)
      else
      let (strat, s) = strategyFor (cs 0) pinned (mb_plan m) s in
      case listObservations (cs 0 3) (stageObservations m now) s of
        (Inl e, s) \<Rightarrow> (Inl (OrchStore e), s)
      | (Inr observations, s) \<Rightarrow>
          if int (length observations) < stageMinSamples strat then (Inr (False, False), s)
          else case AggregateScope (memberScope m) Window5m observations DefaultThresholds of
            None \<Rightarrow> (Inl (OrchStore RuntimePanic), s)
          | Some snapshot \<Rightarrow>
              let evaluation = EvaluatePenalty strat (candidateOf (mb_channel m) snapshot)
              in if pe_Eject evaluation \<or> flt (pe_Score evaluation) (qp_RecoveryScore DefaultQualityCircuitPolicy) then (Inr (False, True), s)
                 else recoveryStageVerdict_loop (\<lambda>i. cs (Suc i)) pinned cohort stage now ms (wrap64 (admitted + 1)) s)"

definition recoveryStageVerdict ::
  "(nat \<Rightarrow> sched_calls) \<Rightarrow> RouteStrategy option \<Rightarrow> recoveryRolloutMember list \<Rightarrow> int64 \<Rightarrow> time \<Rightarrow> SchedulerStore \<Rightarrow>
   (orch_error + bool \<times> bool) \<times> SchedulerStore" where
  "recoveryStageVerdict cs pinned members stage now s =
     recoveryStageVerdict_loop cs pinned (stageCohort members (SourceIdentity (mb_channel (hd members))) stage) stage now members 0 s"

definition admitPendingRow :: "int64 \<Rightarrow> time \<Rightarrow> QualityCircuitRuntime \<Rightarrow> QualityCircuitRuntime" where
  "admitPendingRow stage now current = current\<lparr>qr_RestorePending := True, qr_RecoveryStage := stage, qr_RecoveryStageStartedAt := timePointer now,
     qr_RecoveryObserveAfter := timePointer (now + recoveryRolloutObservationWindow),
     qr_LastReason := \<lparr>reason_Code = ''recovery_restore_pending'', reason_Text = Message ''selected for %d%% guarded recovery stage'' [IntArg stage]\<rparr>,
     qr_ProbeAfter := timePointer (now + qualityProbeLease)\<rparr>"

definition admitActiveRow :: "int64 \<Rightarrow> time \<Rightarrow> QualityCircuitRuntime \<Rightarrow> QualityCircuitRuntime" where
  "admitActiveRow stage now current =
     (let stageChanged = (qr_RecoveryStage current \<noteq> stage);
          next = current\<lparr>qr_RecoveryStage := stage\<rparr>;
          next = (if stageChanged \<or> qr_RecoveryStageStartedAt next = None then next\<lparr>qr_RecoveryStageStartedAt := timePointer now\<rparr> else next)
      in if stageChanged \<or> qr_RecoveryObserveAfter next = None
         then next\<lparr>qr_RecoveryObserveAfter := timePointer (now + recoveryRolloutObservationWindow)\<rparr> else next)"

definition admitRecoveryMember ::
  "sched_calls \<Rightarrow> reconciler \<Rightarrow> recoveryRolloutMember \<Rightarrow> int64 \<Rightarrow> time \<Rightarrow> SchedulerStore \<Rightarrow> orch_error option \<times> SchedulerStore" where
  "admitRecoveryMember cs applyScheduling m stage now s =
     (case getCircuit (cs 0) (qr_PlanID (mb_runtime m)) (qr_ChannelID (mb_runtime m)) s of
        (Inl e, s) \<Rightarrow> (Some (OrchStore e), s)
      | (Inr current, s) \<Rightarrow>
          if \<not> qr_RecoveryReady current then (None, s)
          else if bnd_State (mb_binding m) \<noteq> BindingActive
          then (case upsertCircuit (cs 1) (admitPendingRow stage now current) (qr_Version current) s of
                  (Inr pending, s) \<Rightarrow> completePendingQualityRestore (WithoutCancel (later 2 cs)) applyScheduling pending now s
                | (r, s) \<Rightarrow> (absorbed r, s))
          else if qr_State current \<noteq> CircuitClosed then (None, s)
          else saveAndEmit (later 1 cs) (admitActiveRow stage now current) (qr_Version current) s)"

definition stageRow :: "int64 \<Rightarrow> time \<Rightarrow> QualityCircuitRuntime \<Rightarrow> QualityCircuitRuntime" where
  "stageRow stage now current =
     (let next = current\<lparr>qr_RecoveryStage := stage\<rparr>
      in if qr_State next = CircuitClosed
         then next\<lparr>qr_RecoveryStageStartedAt := timePointer now, qr_RecoveryObserveAfter := timePointer (now + recoveryRolloutObservationWindow),
           qr_LastReason := \<lparr>reason_Code = ''recovery_stage_expanded'', reason_Text = Message ''recovery rollout expanded to %d%%'' [IntArg stage]\<rparr>\<rparr>
         else next)"

definition markMember :: "sched_calls \<Rightarrow> int64 \<Rightarrow> time \<Rightarrow> recoveryRolloutMember \<Rightarrow> SchedulerStore \<Rightarrow> orch_error option \<times> SchedulerStore" where
  "markMember cs stage now m s =
     (case getCircuit (cs 0) (qr_PlanID (mb_runtime m)) (qr_ChannelID (mb_runtime m)) s of
        (Inl _, s) \<Rightarrow> (None, s)
      | (Inr current, s) \<Rightarrow>
          if \<not> qr_RecoveryReady current \<or> qr_RecoveryStage current = stage then (None, s)
          else saveAndEmit (later 1 cs) (stageRow stage now current) (qr_Version current) s)"

definition markRecoveryStage ::
  "(nat \<Rightarrow> sched_calls) \<Rightarrow> recoveryRolloutMember list \<Rightarrow> int64 \<Rightarrow> time \<Rightarrow> SchedulerStore \<Rightarrow> orch_error option \<times> SchedulerStore" where
  "markRecoveryStage cs members stage now s = first_error (\<lambda>i. markMember (cs i) stage now) members s"

definition completedRow :: "time \<Rightarrow> QualityCircuitRuntime \<Rightarrow> QualityCircuitRuntime" where
  "completedRow now current = current\<lparr>qr_RecoveryReady := False, qr_RecoveryStage := 0, qr_RecoveryStageStartedAt := None,
     qr_RecoveryObserveAfter := None, qr_ConsecutiveProbeSuccesses := 0, qr_LastTransitionAt := timePointer now,
     qr_LastReason := \<lparr>reason_Code = CircuitReasonRestored, reason_Text = plainText ''guarded recovery rollout completed at 100%''\<rparr>\<rparr>"

definition completeMember :: "sched_calls \<Rightarrow> time \<Rightarrow> recoveryRolloutMember \<Rightarrow> SchedulerStore \<Rightarrow> orch_error option \<times> SchedulerStore" where
  "completeMember cs now m s =
     (case getCircuit (cs 0) (qr_PlanID (mb_runtime m)) (qr_ChannelID (mb_runtime m)) s of
        (Inl _, s) \<Rightarrow> (None, s)
      | (Inr current, s) \<Rightarrow>
          if \<not> qr_RecoveryReady current then (None, s)
          else saveAndEmit (later 1 cs) (completedRow now current) (qr_Version current) s)"

definition completeRecoveryRollout ::
  "(nat \<Rightarrow> sched_calls) \<Rightarrow> recoveryRolloutMember list \<Rightarrow> time \<Rightarrow> SchedulerStore \<Rightarrow> orch_error option \<times> SchedulerStore" where
  "completeRecoveryRollout cs members now s = first_error (\<lambda>i. completeMember (cs i) now) members s"

definition reopenMember ::
  "sched_calls \<Rightarrow> Orchestrator \<Rightarrow> string \<Rightarrow> time \<Rightarrow> recoveryRolloutMember \<Rightarrow> SchedulerStore \<Rightarrow> orch_error option \<times> SchedulerStore" where
  "reopenMember cs o' sourceID now m s =
     (let (err, s) = (if bnd_State (mb_binding m) = BindingActive
            then (case orc_engine o' (pln_ID (mb_plan m)) [(chan_ID (mb_channel m), False)] s of (Inl e, s) \<Rightarrow> (Some e, s) | (Inr _, s) \<Rightarrow> (None, s))
            else (None, s))
      in case err of Some e \<Rightarrow> (Some (OrchEngine e), s) | None \<Rightarrow>
         case openQualityCircuit cs (orc_now o') (pln_ID (mb_plan m)) (chan_ID (mb_channel m))
                (ejectionEvaluation (chan_ID (mb_channel m)) ''recovery_regressed'' (plainText (''guarded recovery traffic regressed for source '' @ sourceID)) (Fin 0)) now s of
           (Inl e, s) \<Rightarrow> (Some e, s)
         | (Inr opened, s) \<Rightarrow> (None, emitRecoveryTransition (later 16 cs) opened s))"

definition reopenRecoveryRollout ::
  "(nat \<Rightarrow> sched_calls) \<Rightarrow> Orchestrator \<Rightarrow> string \<Rightarrow> recoveryRolloutMember list \<Rightarrow> time \<Rightarrow> SchedulerStore \<Rightarrow> orch_error option \<times> SchedulerStore" where
  "reopenRecoveryRollout cs o' sourceID members now s = first_error (\<lambda>i. reopenMember (cs i) o' sourceID now) members s"

text \<open>The members of one source. The verdict makes the calls \<open>ph 0\<close>, the admissions \<open>ph 1\<close>, the rest
  \<open>ph 2\<close>. The admissions follow the sorted plan identifiers; of two members with one plan the
  later is taken, as in the Go map.\<close>

definition highestStage :: "recoveryRolloutMember list \<Rightarrow> int64" where
  "highestStage members = foldl (\<lambda>stage m. if stage < qr_RecoveryStage (mb_runtime m) then qr_RecoveryStage (mb_runtime m) else stage) 0 members"

definition applyStage ::
  "(nat \<Rightarrow> nat \<Rightarrow> sched_calls) \<Rightarrow> Orchestrator \<Rightarrow> string \<Rightarrow> recoveryRolloutMember list \<Rightarrow> int64 \<Rightarrow> time \<Rightarrow> SchedulerStore \<Rightarrow>
   orch_error option \<times> SchedulerStore" where
  "applyStage ph o' sourceID members stage now s =
     (let memberByPlan = map (\<lambda>m. (pln_ID (mb_plan m), m)) (rev members);
          selectedIDs = go_sort (<) (stageCohort members sourceID stage);
          selected = List.map_filter (map_of memberByPlan) selectedIDs
      in case first_error (\<lambda>i m. admitRecoveryMember (ph 1 i) (orc_engine o') m stage now) selected s of
           (Some e, s) \<Rightarrow> (Some e, s)
         | (None, s) \<Rightarrow> markRecoveryStage (ph 2) members stage now s)"

definition advanceSourceRecoveryRollout ::
  "(nat \<Rightarrow> nat \<Rightarrow> sched_calls) \<Rightarrow> Orchestrator \<Rightarrow> string \<Rightarrow> recoveryRolloutMember list \<Rightarrow> time \<Rightarrow> SchedulerStore \<Rightarrow>
   orch_error option \<times> SchedulerStore" where
  "advanceSourceRecoveryRollout ph o' sourceID members now s =
     (if members = [] then (None, s)
      else let currentStage = highestStage members in
      if currentStage = 0 then applyStage ph o' sourceID members (hd recoveryRolloutStages) now s
      else case recoveryStageVerdict (ph 0) (orc_strategy o') members currentStage now s of
        (Inl e, s) \<Rightarrow> (Some e, s)
      | (Inr (ready, regressed), s) \<Rightarrow>
          if regressed then reopenRecoveryRollout (ph 2) o' sourceID members now s
          else if ready \<and> currentStage = 100 then completeRecoveryRollout (ph 2) members now s
          else applyStage ph o' sourceID members (if ready then nextRecoveryRolloutStage currentStage else currentStage) now s)"

text \<open>These loops go on after an error and return the first one.\<close>

fun all_errors :: "(nat \<Rightarrow> 'a \<Rightarrow> SchedulerStore \<Rightarrow> orch_error option \<times> SchedulerStore) \<Rightarrow> 'a list \<Rightarrow> orch_error option \<Rightarrow> SchedulerStore \<Rightarrow> orch_error option \<times> SchedulerStore" where
  "all_errors f [] firstErr s = (firstErr, s)"
| "all_errors f (x # xs) firstErr s =
     (let (err, s) = f 0 x s in all_errors (\<lambda>i. f (Suc i)) xs (if firstErr = None then err else firstErr) s)"

text \<open>Go ranges over the sources in an order of its own choosing, \<open>ord\<close>.\<close>

type_synonym source_order = "(string \<times> recoveryRolloutMember list) list \<Rightarrow> (string \<times> recoveryRolloutMember list) list"

definition advanceRecoveryRollouts ::
  "source_order \<Rightarrow> sched_call \<Rightarrow> (nat \<Rightarrow> sched_calls) \<Rightarrow> (nat \<Rightarrow> nat \<Rightarrow> nat \<Rightarrow> sched_calls) \<Rightarrow> Orchestrator \<Rightarrow> time \<Rightarrow> SchedulerStore \<Rightarrow> orch_error option \<times> SchedulerStore" where
  "advanceRecoveryRollouts ord cl cs ph o' now s =
     (case recoveryRolloutMembers cl cs s of
        (Inl e, s) \<Rightarrow> (Some (OrchStore e), s)
      | (Inr membersBySource, s) \<Rightarrow>
          all_errors (\<lambda>i (sourceID, members). advanceSourceRecoveryRollout (ph i) o' sourceID members now) (ord membersBySource) None s)"

definition qualityProbeBatchSize :: int64 where "qualityProbeBatchSize = 100"

text \<open>One sweep of the recovery worker at the time \<open>now\<close>.\<close>

definition RecoverDueCircuits ::
  "source_order \<Rightarrow> sched_call \<Rightarrow> (nat \<Rightarrow> sched_calls) \<Rightarrow> sched_call \<Rightarrow> (nat \<Rightarrow> sched_calls) \<Rightarrow> (nat \<Rightarrow> nat \<Rightarrow> nat \<Rightarrow> sched_calls) \<Rightarrow> Orchestrator \<Rightarrow> time \<Rightarrow>
   SchedulerStore \<Rightarrow> orch_error option \<times> SchedulerStore" where
  "RecoverDueCircuits ord cl probes cl' scans ph o' now s =
     (case listCircuits cl \<lparr>qf_PlanID = '''', qf_ChannelID = '''', qf_States = [CircuitOpen, CircuitHalfOpen], qf_ProbeDueBefore = now,
             qf_Limit = qualityProbeBatchSize\<rparr> s of
        (Inl e, s) \<Rightarrow> (Some (OrchStore e), s)
      | (Inr rts, s) \<Rightarrow>
          let (firstErr, s) = all_errors (\<lambda>i rt. recoverQualityCircuit (probes i) o' rt now) rts None s;
              (err, s) = advanceRecoveryRollouts ord cl' scans ph o' now s
          in (if firstErr = None then err else firstErr, s))"

section \<open>Events of a circuit\<close>

text \<open>What the operations write, as a function of the row they have read: nothing when their guard
  fails. \<open>RowManual\<close> is an operator's request.\<close>

datatype row_event =
    RowEject PenaltyEvaluation time
  | RowClaim time
  | RowProbe PenaltyEvaluation time
  | RowDefer time string message
  | RowClose time
  | RowManual time message
  | RowManualDefer time string message
  | RowManualClose time
  | RowRepair
  | RowAdmit int64 time
  | RowAdmitActive int64 time
  | RowStage int64 time
  | RowComplete time

definition guarded :: "bool \<Rightarrow> 'a \<Rightarrow> 'a option" where
  "guarded b x = (if b then Some x else None)"

fun after_event :: "row_event \<Rightarrow> QualityCircuitRuntime \<Rightarrow> QualityCircuitRuntime option" where
  "after_event (RowEject ev t) rt = guarded (pe_Eject ev \<and> \<not> alreadyOpen t rt) (ejectedRuntime (qr_PlanID rt) (qr_ChannelID rt) ev t rt)"
| "after_event (RowClaim now) rt = guarded (claimable now rt) (claimRow now rt)"
| "after_event (RowProbe ev t) rt = guarded (qualityCircuitBlocksScheduling (qr_State rt)) (probedRow ev t rt)"
| "after_event (RowDefer now code txt1) rt = guarded (qualityCircuitBlocksScheduling (qr_State rt)) (deferredRow now code txt1 rt)"
| "after_event (RowClose now) rt = guarded (qr_RestorePending rt) (closedRow now rt)"
| "after_event (RowManual now note) rt = guarded (qualityCircuitBlocksScheduling (qr_State rt) \<and> \<not> qr_RestorePending rt) (manualPendingRow now note rt)"
| "after_event (RowManualDefer now code txt1) rt = guarded (qr_RestorePending rt \<and> manualReason rt)
     (rt\<lparr>qr_ProbeAfter := timePointer (now + qualityProbeRetryDelay), qr_LastReason := \<lparr>reason_Code = code, reason_Text = txt1\<rparr>\<rparr>)"
| "after_event (RowManualClose now) rt = guarded (qr_RestorePending rt \<and> manualReason rt) (manualClosedRow now rt)"
| "after_event RowRepair rt = guarded (qr_State rt = CircuitHalfOpen \<and> \<not> qr_RestorePending rt \<and> 3 \<le> qr_ConsecutiveProbeSuccesses rt)
     (rt\<lparr>qr_RestorePending := True, qr_LastReason := \<lparr>reason_Code = ''restore_pending'', reason_Text = plainText ''repairing recovered active binding''\<rparr>\<rparr>)"
| "after_event (RowAdmit stage now) rt = guarded (qr_RecoveryReady rt) (admitPendingRow stage now rt)"
| "after_event (RowAdmitActive stage now) rt = guarded (qr_RecoveryReady rt \<and> qr_State rt = CircuitClosed) (admitActiveRow stage now rt)"
| "after_event (RowStage stage now) rt = guarded (qr_RecoveryReady rt) (stageRow stage now rt)"
| "after_event (RowComplete now) rt = guarded (qr_RecoveryReady rt) (completedRow now rt)"

text \<open>A run of the table: the events of all circuits in the order in which they were written.\<close>

type_synonym circuit_trace = "((string \<times> string) \<times> row_event) list"

inductive circuits_run :: "circuits \<Rightarrow> circuit_trace \<Rightarrow> circuits \<Rightarrow> bool" where
  run_none: "circuits_run cs [] cs"
| run_event: "circuits_run cs tr cs1 \<Longrightarrow> find_circuit cs1 k = Some rt \<Longrightarrow> after_event e rt = Some next \<Longrightarrow>
    UpsertQualityCircuitRuntime now None next (qr_Version rt) cs1 = (Inr r, cs2) \<Longrightarrow> circuits_run cs (tr @ [(k, e)]) cs2"
| run_create: "circuits_run cs tr cs1 \<Longrightarrow> find_circuit cs1 (p, ch) = None \<Longrightarrow> pe_Eject ev \<Longrightarrow>
    UpsertQualityCircuitRuntime now None (ejectedRuntime p ch ev t QualityCircuitRuntime_zero) 0 cs1 = (Inr r, cs2) \<Longrightarrow>
    circuits_run cs (tr @ [((p, ch), RowEject ev t)]) cs2"

definition events_of :: "string \<times> string \<Rightarrow> circuit_trace \<Rightarrow> row_event list" where
  "events_of k tr = map snd (filter (\<lambda>x. fst x = k) tr)"

lemma circuits_run_trans: "circuits_run b tr' c \<Longrightarrow> circuits_run a tr b \<Longrightarrow> circuits_run a (tr @ tr') c"
proof (induction rule: circuits_run.induct)
  case (run_event cs tr' cs1 k rt e next1 now r cs2)
  then show ?case using circuits_run.run_event [of a "tr @ tr'" cs1] by simp
next
  case (run_create cs tr' cs1 p ch ev now t r cs2)
  then show ?case using circuits_run.run_create [of a "tr @ tr'" cs1] by simp
qed simp

lemma circuits_run_evolves: "circuits_run cs tr cs' \<Longrightarrow> circuits_evolve cs cs'"
  by (induction rule: circuits_run.induct) (auto intro: circuits_evolve.intros)

subsection \<open>Three good probes\<close>

fun good_event :: "row_event \<Rightarrow> bool" where
  "good_event (RowProbe ev t) = probeHealthy ev (QualityCircuitPolicy_withDefaults DefaultQualityCircuitPolicy)"
| "good_event _ = False"

text \<open>What breaks a streak: an ejection, a failed probe, a probe that could not be made.\<close>

fun breaks :: "row_event \<Rightarrow> bool" where
  "breaks (RowEject ev t) = True"
| "breaks (RowProbe ev t) = (\<not> good_event (RowProbe ev t))"
| "breaks (RowDefer now code txt1) = True"
| "breaks _ = False"

fun ejecting_event :: "row_event \<Rightarrow> bool" where
  "ejecting_event (RowEject ev t) = True"
| "ejecting_event _ = False"

fun manual_event :: "row_event \<Rightarrow> bool" where
  "manual_event (RowManual now note) = True"
| "manual_event _ = False"

definition streak :: "row_event list \<Rightarrow> nat" where
  "streak es = length (filter good_event (takeWhile (\<lambda>e. \<not> breaks e) (rev es)))"

text \<open>Since the last ejection three good probes in a row were seen, or an operator has asked.\<close>

definition proven :: "row_event list \<Rightarrow> bool" where
  "proven es \<longleftrightarrow> (\<exists>a b c. es = a @ b @ c \<and> 3 \<le> length (filter good_event b) \<and> \<not> list_ex breaks b \<and> \<not> list_ex ejecting_event c)"

definition requested :: "row_event list \<Rightarrow> bool" where
  "requested es \<longleftrightarrow> (\<exists>a e c. es = a @ e # c \<and> manual_event e \<and> \<not> list_ex ejecting_event c)"

lemma streak_simps [simp]:
  "streak [] = 0"
  "breaks e \<Longrightarrow> streak (es @ [e]) = 0"
  "\<not> breaks e \<Longrightarrow> streak (es @ [e]) = streak es + (if good_event e then 1 else 0)"
  by (simp_all add: streak_def)

lemma streak_proven: "3 \<le> streak es \<Longrightarrow> proven es"
proof -
  assume s: "3 \<le> streak es"
  let ?t = "takeWhile (\<lambda>e. \<not> breaks e) (rev es)" and ?d = "dropWhile (\<lambda>e. \<not> breaks e) (rev es)"
  have "rev ?d @ rev ?t = rev (?t @ ?d)" by (simp only: rev_append)
  then have "es = rev ?d @ rev ?t @ []" by (simp only: takeWhile_dropWhile_id rev_rev_ident append_Nil2)
  moreover have "3 \<le> length (filter good_event (rev ?t))" using s by (simp add: streak_def rev_filter [symmetric])
  moreover have "\<not> list_ex breaks (rev ?t)" by (auto simp: list_ex_iff dest: set_takeWhileD)
  ultimately show ?thesis unfolding proven_def by (intro exI [of _ "rev ?d"] exI [of _ "rev ?t"] exI [of _ "[]"]) simp
qed

lemma proven_snoc:
  assumes "proven es" "\<not> ejecting_event e"
  shows "proven (es @ [e])"
proof -
  obtain a b c where "es = a @ b @ c" "3 \<le> length (filter good_event b)" "\<not> list_ex breaks b" "\<not> list_ex ejecting_event c"
    using assms(1) unfolding proven_def by blast
  then show ?thesis unfolding proven_def using assms(2) by (intro exI [of _ a] exI [of _ b] exI [of _ "c @ [e]"]) simp
qed

lemma requested_snoc:
  assumes "requested es" "\<not> ejecting_event e"
  shows "requested (es @ [e])"
proof -
  obtain a m c where "es = a @ m # c" "manual_event m" "\<not> list_ex ejecting_event c"
    using assms(1) unfolding requested_def by blast
  then show ?thesis unfolding requested_def using assms(2) by (intro exI [of _ a] exI [of _ m] exI [of _ "c @ [e]"]) simp
qed

lemma requested_now: "manual_event e \<Longrightarrow> requested (es @ [e])"
  unfolding requested_def by (intro exI [of _ es] exI [of _ e] exI [of _ "[]"]) simp

subsection \<open>The evidence behind a row\<close>

definition backed :: "row_event list \<Rightarrow> bool" where
  "backed es \<longleftrightarrow> proven es \<or> requested es"

lemma backed_snoc: "backed es \<Longrightarrow> \<not> ejecting_event e \<Longrightarrow> backed (es @ [e])"
  using proven_snoc requested_snoc by (auto simp: backed_def)

definition evidence_ok :: "row_event list \<Rightarrow> QualityCircuitRuntime \<Rightarrow> bool" where
  "evidence_ok es rt \<longleftrightarrow>
     (qr_State rt = CircuitClosed \<or> qr_RestorePending rt \<or> qr_RecoveryReady rt \<longrightarrow> backed es) \<and>
     (qr_State rt = CircuitHalfOpen \<longrightarrow> in64 (qr_ConsecutiveProbeSuccesses rt) \<and> qr_ConsecutiveProbeSuccesses rt \<le> int (streak es))"


lemma halfOpenSuccesses_3 [simp]: "qp_HalfOpenSuccesses (QualityCircuitPolicy_withDefaults DefaultQualityCircuitPolicy) = 3"
  by (simp add: QualityCircuitPolicy_withDefaults_def DefaultQualityCircuitPolicy_def Let_def)

lemma ForProbe_simps [simp]:
  "qc_State (qualityCircuitForProbe rt t) = (if qr_State rt = CircuitStateOther '''' then CircuitClosed else qr_State rt)"
  "qc_ConsecutiveProbeSuccesses (qualityCircuitForProbe rt t) = qr_ConsecutiveProbeSuccesses rt"
  by (simp_all add: qualityCircuitForProbe_def Let_def)

lemma probe_now: "qr_State rt = CircuitOpen \<Longrightarrow> \<not> (if IsZero t then unixEpoch else t) < qc_ProbeAfter (qualityCircuitForProbe rt t)"
proof -
  assume "qr_State rt = CircuitOpen"
  then have "qc_ProbeAfter (qualityCircuitForProbe rt t) \<le> t" by (simp add: qualityCircuitForProbe_def Let_def)
  then show ?thesis by (auto simp: IsZero_def unixEpoch_def)
qed

abbreviation good :: "PenaltyEvaluation \<Rightarrow> bool" where
  "good ev \<equiv> probeHealthy ev (QualityCircuitPolicy_withDefaults DefaultQualityCircuitPolicy)"

lemma probe_bad:
  assumes "qualityCircuitBlocksScheduling (qr_State rt)" "\<not> good ev"
  shows "qc_State (qt_Circuit (probeTransition ev t rt)) = CircuitOpen" "qt_Action (probeTransition ev t rt) = CircuitKeepEjected"
  using assms probe_now [of rt t] unfolding probeTransition_def AdvanceQualityCircuit.simps [of "qualityCircuitForProbe rt t"]
  by (auto simp: Let_def qualityCircuitBlocksScheduling_def)

lemma probe_good_open:
  assumes "qr_State rt = CircuitOpen" "good ev"
  shows "qc_State (qt_Circuit (probeTransition ev t rt)) = CircuitHalfOpen" "qt_Action (probeTransition ev t rt) = CircuitKeepEjected"
    "qc_ConsecutiveProbeSuccesses (qt_Circuit (probeTransition ev t rt)) = 1"
  using assms probe_now [of rt t] unfolding probeTransition_def AdvanceQualityCircuit.simps [of "qualityCircuitForProbe rt t"]
  by (simp_all add: Let_def split: if_splits)

lemma probe_good_half:
  assumes "qr_State rt = CircuitHalfOpen" "good ev"
  shows "3 \<le> wrap64 (qr_ConsecutiveProbeSuccesses rt + 1) \<Longrightarrow> qt_Action (probeTransition ev t rt) = CircuitRestore"
    "\<not> 3 \<le> wrap64 (qr_ConsecutiveProbeSuccesses rt + 1) \<Longrightarrow> qt_Action (probeTransition ev t rt) = CircuitKeepEjected \<and>
       qc_State (qt_Circuit (probeTransition ev t rt)) = CircuitHalfOpen \<and>
       qc_ConsecutiveProbeSuccesses (qt_Circuit (probeTransition ev t rt)) = wrap64 (qr_ConsecutiveProbeSuccesses rt + 1)"
  using assms unfolding probeTransition_def AdvanceQualityCircuit.simps [of "qualityCircuitForProbe rt t"]
  by (simp_all add: Let_def closeCircuit_def)

lemma probedRow_bad:
  assumes "qualityCircuitBlocksScheduling (qr_State rt)" "\<not> good ev"
  shows "qr_State (probedRow ev t rt) = CircuitOpen" "\<not> qr_RestorePending (probedRow ev t rt)" "\<not> qr_RecoveryReady (probedRow ev t rt)"
  using probe_bad [OF assms, of t] by (simp_all add: probedRow_def Let_def)

lemma probedRow_step:
  assumes "qt_Action (probeTransition ev t rt) \<noteq> CircuitRestore" "qc_State (qt_Circuit (probeTransition ev t rt)) = CircuitHalfOpen"
  shows "qr_State (probedRow ev t rt) = CircuitHalfOpen" "qr_RestorePending (probedRow ev t rt) = qr_RestorePending rt"
    "qr_RecoveryReady (probedRow ev t rt) = qr_RecoveryReady rt"
    "qr_ConsecutiveProbeSuccesses (probedRow ev t rt) = qc_ConsecutiveProbeSuccesses (qt_Circuit (probeTransition ev t rt))"
  using assms by (simp_all add: probedRow_def Let_def)

lemma evidence_probe:
  assumes ok: "evidence_ok es rt" and bl: "qualityCircuitBlocksScheduling (qr_State rt)"
  shows "evidence_ok (es @ [RowProbe ev t]) (probedRow ev t rt)"
proof (cases "good ev")
  case False
  then show ?thesis using probedRow_bad [OF bl False, of t] by (simp add: evidence_ok_def)
next
  case g: True
  then have s: "streak (es @ [RowProbe ev t]) = streak es + 1" by simp
  have b: "backed es \<Longrightarrow> backed (es @ [RowProbe ev t])" by (simp add: backed_snoc)
  show ?thesis
  proof (cases "qr_State rt = CircuitOpen")
    case True
    note p = probe_good_open [OF True g, of t]
    show ?thesis using ok s b probedRow_step [of ev t rt] p True by (auto simp: evidence_ok_def in64_def)
  next
    case False
    then have h: "qr_State rt = CircuitHalfOpen" using bl by (simp add: qualityCircuitBlocksScheduling_def)
    have c: "wrap64 (qr_ConsecutiveProbeSuccesses rt + 1) \<le> int (streak (es @ [RowProbe ev t]))"
      using ok h s wrap64_succ_le [of "qr_ConsecutiveProbeSuccesses rt"] by (simp add: evidence_ok_def)
    show ?thesis
    proof (cases "3 \<le> wrap64 (qr_ConsecutiveProbeSuccesses rt + 1)")
      case True
      then have "proven (es @ [RowProbe ev t])" using c by (intro streak_proven) linarith
      moreover have "probedRow ev t rt = readyRow ev t rt" using probe_good_half(1) [OF h g True, of t] by (simp add: probedRow_def Let_def)
      moreover have "qc_ConsecutiveProbeSuccesses (qt_Circuit (probeTransition ev t rt)) = 0"
        using h g True unfolding probeTransition_def AdvanceQualityCircuit.simps [of "qualityCircuitForProbe rt t"]
        by (simp add: Let_def closeCircuit_def)
      ultimately show ?thesis by (simp add: evidence_ok_def backed_def readyRow_def Let_def in64_def)
    next
      case False
      note p = probe_good_half(2) [OF h g False, of t]
      show ?thesis using ok c b probedRow_step [of ev t rt] p h by (auto simp: evidence_ok_def)
    qed
  qed
qed

lemma deferredRow_simps:
  assumes "qualityCircuitBlocksScheduling (qr_State rt)"
  shows "qr_State (deferredRow now code t rt) = CircuitOpen" "qr_RestorePending (deferredRow now code t rt) = qr_RestorePending rt"
    "\<not> qr_RecoveryReady (deferredRow now code t rt)"
  using probe_bad(1) [OF assms, of "deferEvaluation (qr_ChannelID rt) code t" now]
  by (simp_all add: deferredRow_def deferEvaluation_def probeHealthy_def)

text \<open>The events that leave the state and the streak alone.\<close>

definition keeps_state :: "QualityCircuitRuntime \<Rightarrow> QualityCircuitRuntime \<Rightarrow> bool" where
  "keeps_state rt r \<longleftrightarrow> qr_State r = qr_State rt \<and> (qr_ConsecutiveProbeSuccesses r = qr_ConsecutiveProbeSuccesses rt \<or> qr_ConsecutiveProbeSuccesses r = 0)"

lemma evidence_keeps:
  assumes "evidence_ok es rt" "keeps_state rt r" "\<not> breaks e" "\<not> ejecting_event e"
    "qr_RestorePending r \<or> qr_RecoveryReady r \<Longrightarrow> qr_RestorePending rt \<or> qr_RecoveryReady rt \<or> backed (es @ [e])"
  shows "evidence_ok (es @ [e]) r"
  using assms backed_snoc [of es e] by (auto simp: evidence_ok_def keeps_state_def in64_def)

lemma evidence_step:
  assumes ok: "evidence_ok es rt" and st: "after_event e rt = Some r"
  shows "evidence_ok (es @ [e]) r"
proof (cases e)
  case (RowEject ev t)
  then have "qr_State r = CircuitOpen" "\<not> qr_RestorePending r" "\<not> qr_RecoveryReady r"
    using st ejectedRuntime_row(1-3) by (auto simp: guarded_def split: if_splits)
  then show ?thesis by (simp add: evidence_ok_def)
next
  case (RowProbe ev t)
  then show ?thesis using st evidence_probe [OF ok] by (auto simp: guarded_def split: if_splits)
next
  case (RowDefer now code t)
  then have "qr_State r = CircuitOpen" "qr_RestorePending r = qr_RestorePending rt" "\<not> qr_RecoveryReady r"
    using st deferredRow_simps by (auto simp: guarded_def split: if_splits)
  then show ?thesis using ok backed_snoc RowDefer by (simp add: evidence_ok_def)
next
  case (RowClose now)
  then have "qr_State r = CircuitClosed" "backed es"
    using st ok by (auto simp: guarded_def closedRow_def evidence_ok_def Let_def split: if_splits)
  then show ?thesis using backed_snoc RowClose by (simp add: evidence_ok_def)
next
  case (RowManualClose now)
  then have "qr_State r = CircuitClosed" "backed es"
    using st ok by (auto simp: guarded_def manualClosedRow_def evidence_ok_def split: if_splits)
  then show ?thesis using backed_snoc RowManualClose by (simp add: evidence_ok_def)
next
  case (RowManual now words)
  then have "keeps_state rt r" using st by (auto simp: guarded_def manualPendingRow_def keeps_state_def split: if_splits)
  then show ?thesis using evidence_keeps [OF ok] RowManual requested_now [of e es] by (simp add: backed_def)
next
  case RowRepair
  then have "keeps_state rt r" "3 \<le> streak es"
    using st ok by (auto simp: guarded_def keeps_state_def evidence_ok_def split: if_splits)
  then show ?thesis using evidence_keeps [OF ok] RowRepair streak_proven [of es] backed_snoc [of es e] by (simp add: backed_def)
next
  case (RowClaim now)
  then show ?thesis using st by (intro evidence_keeps [OF ok]) (auto simp: guarded_def claimRow_def keeps_state_def Let_def split: if_splits)
next
  case (RowManualDefer now code t)
  then show ?thesis using st by (intro evidence_keeps [OF ok]) (auto simp: guarded_def keeps_state_def split: if_splits)
next
  case (RowAdmit stage now)
  then show ?thesis using st by (intro evidence_keeps [OF ok]) (auto simp: guarded_def admitPendingRow_def keeps_state_def split: if_splits)
next
  case (RowAdmitActive stage now)
  then show ?thesis using st by (intro evidence_keeps [OF ok]) (auto simp: guarded_def admitActiveRow_def keeps_state_def Let_def split: if_splits)
next
  case (RowStage stage now)
  then show ?thesis using st by (intro evidence_keeps [OF ok]) (auto simp: guarded_def stageRow_def keeps_state_def Let_def split: if_splits)
next
  case (RowComplete now)
  then show ?thesis using st by (intro evidence_keeps [OF ok]) (auto simp: guarded_def completedRow_def keeps_state_def split: if_splits)
qed

lemma after_event_key:
  assumes "after_event e rt = Some r"
  shows "circuit_key r = circuit_key rt"
proof (cases e)
  case (RowEject ev t)
  then show ?thesis using assms ejectedRuntime_row(9) [of ev "qr_PlanID rt" "qr_ChannelID rt" t rt]
    by (auto simp: guarded_def circuit_key_def split: if_splits)
next
  case (RowProbe ev t)
  then show ?thesis using assms by (auto simp: guarded_def circuit_key_def probedRow_def readyRow_def Let_def split: if_splits)
qed (use assms in \<open>auto simp: guarded_def circuit_key_def claimRow_def deferredRow_def closedRow_def manualPendingRow_def manualClosedRow_def
  admitPendingRow_def admitActiveRow_def stageRow_def completedRow_def Let_def split: if_splits\<close>)

lemma evidence_stored [simp]:
  "evidence_ok es (rt\<lparr>qr_CreatedAt := a, qr_UpdatedAt := b, qr_Version := v\<rparr>) = evidence_ok es rt"
  "evidence_ok es (rt\<lparr>qr_Version := v, qr_CreatedAt := a, qr_UpdatedAt := b\<rparr>) = evidence_ok es rt"
  by (simp_all add: evidence_ok_def)

lemma upsert_evidence:
  assumes "UpsertQualityCircuitRuntime now c input v cs = (Inr r, cs')" "evidence_ok es input"
  shows "evidence_ok es r"
  using assms(1) by (cases rule: UpsertQualityCircuitRuntime_cases) (use assms(2) in simp_all)

lemma events_of_simps [simp]:
  "events_of k [] = []" "events_of k (tr @ tr') = events_of k tr @ events_of k tr'"
  "events_of k [(j, e)] = (if j = k then [e] else [])"
  by (simp_all add: events_of_def)

lemma run_evidence:
  assumes "circuits_run cs tr cs'" "find_circuit cs k = Some rt" "evidence_ok [] rt" "find_circuit cs' k = Some rt'"
  shows "evidence_ok (events_of k tr) rt'"
  using assms
proof (induction arbitrary: rt' rule: circuits_run.induct)
  case (run_event cs tr cs1 j rt1 e next1 now r cs2)
  note w = circuit_writesI [OF run_event.hyps(4)]
  have j: "circuit_key next1 = j" using after_event_key [OF run_event.hyps(3)] find_circuit_key [OF run_event.hyps(2)] by simp
  show ?case
  proof (cases "j = k")
    case True
    have "evidence_ok (events_of k tr @ [e]) r"
      by (rule upsert_evidence [OF run_event.hyps(4) evidence_step [OF _ run_event.hyps(3)]])
        (use run_event.IH run_event.prems run_event.hyps(2) True in blast)
    moreover have "rt' = r" using circuit_writes_lookup(1) [OF w] j True run_event.prems(3) by simp
    ultimately show ?thesis using True by simp
  next
    case False
    then show ?thesis using circuit_writes_lookup(2) [OF w] j run_event.prems run_event.IH by simp
  qed
next
  case (run_create cs tr cs1 p ch ev now t r cs2)
  note w = circuit_writesI [OF run_create.hyps(4)]
  have key: "circuit_key (ejectedRuntime p ch ev t QualityCircuitRuntime_zero) = (p, ch)" by (rule ejectedRuntime_row(9) [OF run_create.hyps(3)])
  have "find_circuit cs1 k \<noteq> None"
    using circuit_table.evolve_row [OF circuits_run_evolves [OF run_create.hyps(1), unfolded circuits_evolve_iff] run_create.prems(1)] by auto
  then have "k \<noteq> (p, ch)" using run_create.hyps(2) by auto
  then show ?case using circuit_writes_lookup(2) [OF w] key run_create.prems run_create.IH by simp
qed simp

text \<open>A circuit that is ejected and not on its way back has no claim to evidence.\<close>

definition isolated :: "QualityCircuitRuntime \<Rightarrow> bool" where
  "isolated rt \<longleftrightarrow> qr_State rt = CircuitOpen \<and> \<not> qr_RestorePending rt \<and> \<not> qr_RecoveryReady rt"

lemma isolated_evidence: "isolated rt \<Longrightarrow> evidence_ok [] rt"
  by (simp add: isolated_def evidence_ok_def)

section \<open>The operations make these events\<close>

text \<open>
  Rely and guarantee: if the others change the circuits by events only, so does the operation. A
  write under the version of a row that was read is an event of that row.
\<close>

definition runs :: "SchedulerStore \<Rightarrow> SchedulerStore \<Rightarrow> bool" where
  "runs s s' \<longleftrightarrow> (\<exists>tr. circuits_run (qualityCircuits s) tr (qualityCircuits s'))"

definition event_env :: "sched_call \<Rightarrow> bool" where
  "event_env cl \<longleftrightarrow> (\<forall>s. runs s (call_env cl s))"

definition event_calls :: "sched_calls \<Rightarrow> bool" where
  "event_calls cs \<longleftrightarrow> (\<forall>k. event_env (cs k))"

definition event_engine :: "reconciler \<Rightarrow> bool" where
  "event_engine engine \<longleftrightarrow> (\<forall>p d s. runs s (snd (engine p d s)))"

lemma runs_refl [simp, intro]: "runs s s"
  unfolding runs_def using run_none by blast

lemma runs_trans: "runs s t \<Longrightarrow> runs t u \<Longrightarrow> runs s u"
  unfolding runs_def using circuits_run_trans by blast

lemma runs_same: "runs s t \<Longrightarrow> qualityCircuits u = qualityCircuits t \<Longrightarrow> runs s u"
  by (simp add: runs_def)

lemma runs_evolves: "runs s t \<Longrightarrow> circuits_evolve (qualityCircuits s) (qualityCircuits t)"
  using circuits_run_evolves by (auto simp: runs_def)

lemma event_env_ok: "event_env cl \<Longrightarrow> env_ok cl"
  by (simp add: event_env_def env_ok_def runs_evolves)

lemma event_calls_simps [simp]:
  "event_calls cs \<Longrightarrow> event_env (cs k)" "event_calls cs \<Longrightarrow> event_calls (later n cs)" "event_calls cs \<Longrightarrow> event_calls (WithoutCancel cs)"
  by (simp_all add: event_calls_def later_def WithoutCancel_def event_env_def)

lemma event_calls_ok: "event_calls cs \<Longrightarrow> calls_ok cs"
  by (simp add: event_calls_def calls_ok_def event_env_ok)

named_theorems runs_intros \<open>an operation of the scheduler keeps to the events\<close>

lemma runs_env [runs_intros]: "event_env cl \<Longrightarrow> runs s0 s \<Longrightarrow> runs s0 (call_env cl s)"
  unfolding event_env_def using runs_trans by blast

lemma runs_reads [runs_intros]:
  "getCircuit cl p ch s = (r1, s') \<Longrightarrow> event_env cl \<Longrightarrow> runs s0 s \<Longrightarrow> runs s0 s'"
  "listCircuits cl f s = (r2, s') \<Longrightarrow> event_env cl \<Longrightarrow> runs s0 s \<Longrightarrow> runs s0 s'"
  "ListPublishedBindings cl p s = (r3, s') \<Longrightarrow> event_env cl \<Longrightarrow> runs s0 s \<Longrightarrow> runs s0 s'"
  "GetRoutePlan cl p s = (r4, s') \<Longrightarrow> event_env cl \<Longrightarrow> runs s0 s \<Longrightarrow> runs s0 s'"
  "GetUpstreamChannel cl p s = (r5, s') \<Longrightarrow> event_env cl \<Longrightarrow> runs s0 s \<Longrightarrow> runs s0 s'"
  "GetInstance cl p s = (r6, s') \<Longrightarrow> event_env cl \<Longrightarrow> runs s0 s \<Longrightarrow> runs s0 s'"
  "GetUpstreamPool cl p s = (r7, s') \<Longrightarrow> event_env cl \<Longrightarrow> runs s0 s \<Longrightarrow> runs s0 s'"
  "GetConnector cl p s = (r8, s') \<Longrightarrow> event_env cl \<Longrightarrow> runs s0 s \<Longrightarrow> runs s0 s'"
  "ListRouteStrategies cl g s = (r9, s') \<Longrightarrow> event_env cl \<Longrightarrow> runs s0 s \<Longrightarrow> runs s0 s'"
  "listObservations cl h s = (r10, s') \<Longrightarrow> event_env cl \<Longrightarrow> runs s0 s \<Longrightarrow> runs s0 s'"
  by (auto simp: getCircuit_def listCircuits_def ListPublishedBindings_def GetRoutePlan_def GetUpstreamChannel_def GetInstance_def
    GetUpstreamPool_def GetConnector_def ListRouteStrategies_def listObservations_def Let_def intro: runs_env)

lemma runs_engine [runs_intros]: "engine p d s = (r, s') \<Longrightarrow> event_engine engine \<Longrightarrow> runs s0 s \<Longrightarrow> runs s0 s'"
  unfolding event_engine_def using runs_trans by (metis snd_conv)

lemma AppendAudit_circuits: "qualityCircuits (snd (AppendAudit cl a s)) = qualityCircuits (call_env cl s)"
  by (simp add: AppendAudit_def Let_def split: option.splits prod.splits)

lemma runs_emit [runs_intros]:
  assumes "event_calls cs" "runs s0 s"
  shows "runs s0 (emitRecoveryTransition cs rt s)"
proof -
  obtain r s1 where g: "GetRoutePlan (cs 0) (qr_PlanID rt) s = (r, s1)" by fastforce
  then have 1: "runs s0 s1" using assms by (auto intro: runs_intros)
  then have "runs s0 (call_env (cs 1) s1)" using assms by (auto intro: runs_intros)
  then show ?thesis using g 1 runs_same [OF _ AppendAudit_circuits]
    by (cases r) (auto simp: emitRecoveryTransition_def split: prod.splits)
qed

lemma event_write:
  assumes read: "find_circuit cs0 (circuit_key rt) = Some rt" "circuits_evolve cs0 (qualityCircuits s)"
    and e: "after_event e rt = Some next" and env: "event_env cl" and up: "upsertCircuit cl next (qr_Version rt) s = (res, s')"
  shows "runs s s'"
proof (cases res)
  case (Inl x)
  then have "qualityCircuits s' = qualityCircuits (call_env cl s)"
    using upsertCircuit_result [OF up] by (auto elim: UpsertQualityCircuitRuntime_cases)
  then show ?thesis using env by (auto simp: event_env_def intro: runs_same)
next
  case (Inr r)
  let ?c = "qualityCircuits (call_env cl s)"
  note w = upsertCircuit_result [OF up [unfolded Inr]]
  have k: "circuit_key next = circuit_key rt" by (rule after_event_key [OF e])
  have "circuit_table.evolve cs0 ?c"
    using circuits_evolve_trans [OF read(2) env_evolves [OF event_env_ok [OF env]]] by (simp add: circuits_evolve_iff)
  from circuit_table.write_replaces_read [OF read(1) this] circuit_writesI [OF w] k
  have f: "find_circuit ?c (circuit_key rt) = Some rt" by simp
  obtain tr where tr: "circuits_run (qualityCircuits s) tr ?c" using env unfolding event_env_def runs_def by blast
  have "circuits_run (qualityCircuits s) (tr @ [(circuit_key rt, e)]) (qualityCircuits s')"
    by (rule run_event [OF tr f e]) (use w upsert_ctx [OF w] in simp)
  then show ?thesis unfolding runs_def by blast
qed

text \<open>A row that an operation has just read, and its write.\<close>

lemma get_found:
  assumes "getCircuit cl p ch s = (Inr rt, s')"
  shows "find_circuit (qualityCircuits s') (circuit_key rt) = Some rt" "circuit_key rt = (p, ch)"
proof -
  from getCircuit_result(2) [OF assms, symmetric] have f: "find_circuit (qualityCircuits s') (p, ch) = Some rt"
    by (cases rule: GetQualityCircuitRuntime_cases) simp_all
  then show "circuit_key rt = (p, ch)" by (rule find_circuit_key)
  with f show "find_circuit (qualityCircuits s') (circuit_key rt) = Some rt" by simp
qed

lemma runs_write [runs_intros]:
  assumes "upsertCircuit cl next (qr_Version rt) s = (res, s')" "getCircuit cl' p ch s1 = (Inr rt, s)" "after_event e rt = Some next"
    "event_env cl" "runs s0 s"
  shows "runs s0 s'"
  using event_write [OF get_found(1) [OF assms(2)] evolve_none assms(3,4,1)] assms(5) runs_trans by blast

lemma runs_saveAndEmit:
  assumes "saveAndEmit cs next (qr_Version rt) s = (res, s')" "getCircuit cl' p ch s1 = (Inr rt, s)" "after_event e rt = Some next"
    "event_calls cs" "runs s0 s"
  shows "runs s0 s'"
proof -
  obtain r s2 where u: "upsertCircuit (cs 0) next (qr_Version rt) s = (r, s2)" by fastforce
  then have "runs s0 s2" using runs_write [OF _ assms(2,3) _ assms(5)] assms(4) by simp
  then show ?thesis using assms(1,4) u by (auto simp: saveAndEmit_def split: sum.splits intro: runs_emit)
qed

lemma runs_defer [runs_intros]:
  assumes "deferClaimedQualityProbe cs claimed now code t s = (r, s')" "event_calls cs" "runs s0 s"
  shows "runs s0 s'"
proof -
  obtain got s1 where g: "getCircuit (cs 0) (qr_PlanID claimed) (qr_ChannelID claimed) s = (got, s1)" by fastforce
  have 1: "runs s0 s1" using g assms by (auto intro: runs_reads)
  show ?thesis
  proof (cases got)
    case (Inr rt)
    obtain res s2 where u: "upsertCircuit (cs 1) (deferredRow now code t rt) (qr_Version rt) s1 = (res, s2)" by fastforce
    have "runs s0 s2" if "qualityCircuitBlocksScheduling (qr_State rt)"
      by (rule runs_write [OF u g [unfolded Inr], of "RowDefer now code t"]) (use that assms 1 in \<open>simp_all add: guarded_def\<close>)
    then show ?thesis using assms(1) g Inr u 1 by (auto simp: deferClaimedQualityProbe_def split: if_splits)
  qed (use assms(1) g 1 in \<open>simp add: deferClaimedQualityProbe_def\<close>)
qed

lemma runs_advance [runs_intros]:
  assumes "advanceClaimedQualityProbe cs claimed ev t s = (r, s')" "event_calls cs" "runs s0 s"
  shows "runs s0 s'"
proof -
  obtain got s1 where g: "getCircuit (cs 0) (qr_PlanID claimed) (qr_ChannelID claimed) s = (got, s1)" by fastforce
  have 1: "runs s0 s1" using g assms by (auto intro: runs_reads)
  show ?thesis
  proof (cases got)
    case (Inr rt)
    obtain res s2 where u: "upsertCircuit (cs 1) (probedRow ev t rt) (qr_Version rt) s1 = (res, s2)" by fastforce
    obtain res' s3 where v: "saveAndEmit (later 1 cs) (probedRow ev t rt) (qr_Version rt) s1 = (res', s3)" by fastforce
    have "runs s0 s2" "runs s0 s3" if b: "qualityCircuitBlocksScheduling (qr_State rt)"
      using runs_write [OF u g [unfolded Inr], of "RowProbe ev t"] runs_saveAndEmit [OF v g [unfolded Inr], of "RowProbe ev t"] b assms(2) 1
      by (simp_all add: guarded_def)
    then show ?thesis using assms(1) g Inr u v 1 by (auto simp: advanceClaimedQualityProbe_def split: if_splits)
  qed (use assms(1) g 1 in \<open>simp add: advanceClaimedQualityProbe_def\<close>)
qed

lemma runs_closePending [runs_intros]:
  assumes "closePendingQualityRestore cs rt now s = (r, s')" "event_calls cs" "runs s0 s"
  shows "runs s0 s'"
proof -
  obtain got s1 where g: "getCircuit (cs 0) (qr_PlanID rt) (qr_ChannelID rt) s = (got, s1)" by fastforce
  have 1: "runs s0 s1" using g assms by (auto intro: runs_reads)
  show ?thesis
  proof (cases got)
    case (Inr c)
    obtain res s2 where v: "saveAndEmit (later 1 cs) (closedRow now c) (qr_Version c) s1 = (res, s2)" by fastforce
    have "runs s0 s2" if "qr_RestorePending c"
      by (rule runs_saveAndEmit [OF v g [unfolded Inr], of "RowClose now"]) (use that assms(2) 1 in \<open>simp_all add: guarded_def\<close>)
    then show ?thesis using assms(1) g Inr v 1 by (auto simp: closePendingQualityRestore_def split: if_splits)
  qed (use assms(1) g 1 in \<open>simp add: closePendingQualityRestore_def\<close>)
qed

lemma runs_completePending [runs_intros]:
  assumes "completePendingQualityRestore cs engine rt now s = (r, s')" "event_calls cs" "event_engine engine" "runs s0 s"
  shows "runs s0 s'"
proof -
  obtain got s1 where g: "ListPublishedBindings (cs 0) (qr_PlanID rt) s = (got, s1)" by fastforce
  have 1: "runs s0 s1" using g assms by (auto intro: runs_reads)
  obtain a s2 where a: "engine (qr_PlanID rt) [(qr_ChannelID rt, True)] s1 = (a, s2)" by fastforce
  have 2: "runs s0 s2" using a assms 1 by (auto intro: runs_engine)
  note l = event_calls_simps(2) [OF assms(2), of 1]
  show ?thesis using assms(1) g a runs_defer [OF _ l 1] runs_defer [OF _ l 2] runs_closePending [OF _ l 1] runs_closePending [OF _ l 2]
    by (auto simp: completePendingQualityRestore_def split: sum.splits option.splits if_splits)
qed

lemma runs_manualDefer [runs_intros]:
  assumes "deferPendingManualRecovery cs rt now code t cause s = (r, s')" "event_calls cs" "runs s0 s"
  shows "runs s0 s'"
proof -
  obtain got s1 where g: "getCircuit (cs 0) (qr_PlanID rt) (qr_ChannelID rt) s = (got, s1)" by fastforce
  have 1: "runs s0 s1" using g assms by (auto intro: runs_reads)
  show ?thesis
  proof (cases got)
    case (Inr c)
    let ?n = "c\<lparr>qr_ProbeAfter := timePointer (now + qualityProbeRetryDelay), qr_LastReason := \<lparr>reason_Code = code, reason_Text = t\<rparr>\<rparr>"
    obtain res s2 where u: "upsertCircuit (cs 1) ?n (qr_Version c) s1 = (res, s2)" by fastforce
    have "runs s0 s2" if "qr_RestorePending c" "manualReason c"
      by (rule runs_write [OF u g [unfolded Inr], of "RowManualDefer now code t"]) (use that assms(2) 1 in \<open>simp_all add: guarded_def\<close>)
    then show ?thesis using assms(1) g Inr u 1 by (auto simp: deferPendingManualRecovery_def split: if_splits sum.splits)
  qed (use assms(1) g 1 in \<open>simp add: deferPendingManualRecovery_def\<close>)
qed

lemma runs_manualFinish:
  assumes "(case getCircuit (cs 1) (qr_PlanID rt) (qr_ChannelID rt) s of
          (Inl e, s) \<Rightarrow> (Some (OrchStore e), s)
        | (Inr current, s) \<Rightarrow>
            if qr_Version current \<noteq> qr_Version rt \<or> \<not> qr_RestorePending current \<or> \<not> manualReason current then (None, s)
            else saveAndEmit (later 2 cs) (manualClosedRow now current) (qr_Version current) s) = (r, s')" "event_calls cs" "runs s0 s"
  shows "runs s0 s'"
proof -
  obtain got s1 where g: "getCircuit (cs 1) (qr_PlanID rt) (qr_ChannelID rt) s = (got, s1)" by fastforce
  have 1: "runs s0 s1" using g assms by (auto intro: runs_reads)
  show ?thesis
  proof (cases got)
    case (Inr c)
    obtain res s2 where v: "saveAndEmit (later 2 cs) (manualClosedRow now c) (qr_Version c) s1 = (res, s2)" by fastforce
    have "runs s0 s2" if "qr_RestorePending c" "manualReason c"
      by (rule runs_saveAndEmit [OF v g [unfolded Inr], of "RowManualClose now"]) (use that assms(2) 1 in \<open>simp_all add: guarded_def\<close>)
    then show ?thesis using assms(1) g Inr v 1 by (auto split: if_splits)
  qed (use assms(1) g 1 in simp)
qed

lemma runs_manual [runs_intros]:
  assumes "completePendingManualRecovery cs engine rt now s = (r, s')" "event_calls cs" "event_engine engine" "runs s0 s"
  shows "runs s0 s'"
proof -
  obtain got s1 where g: "ListPublishedBindings (cs 0) (qr_PlanID rt) s = (got, s1)" by fastforce
  have 1: "runs s0 s1" using g assms by (auto intro: runs_reads)
  obtain a s2 where a: "engine (qr_PlanID rt) [(qr_ChannelID rt, True)] s1 = (a, s2)" by fastforce
  have 2: "runs s0 s2" using a assms 1 by (auto intro: runs_engine)
  note l = event_calls_simps(2) [OF assms(2), of 1]
  show ?thesis
    using assms(1,4) g a runs_manualDefer [OF _ l 1] runs_manualDefer [OF _ l 2] runs_manualFinish [OF _ assms(2) 1] runs_manualFinish [OF _ assms(2) 2]
    by (simp add: completePendingManualRecovery_def Let_def split: sum.splits option.splits if_splits)
qed

lemma runs_strategyLookups [runs_intros]:
  "strategyLookups cs fs s = (r, s') \<Longrightarrow> event_calls cs \<Longrightarrow> runs s0 s \<Longrightarrow> runs s0 s'"
proof (induction cs fs s rule: strategyLookups.induct)
  case (2 cs f fs s)
  obtain got s1 where g: "ListRouteStrategies (cs 0) f s = (got, s1)" by fastforce
  have 1: "runs s0 s1" using g 2 by (auto intro: runs_reads)
  show ?case using 2 g 1 by (auto split: if_splits sum.splits list.splits)
qed simp

lemma runs_strategyFor [runs_intros]:
  assumes "strategyFor cs pinned plan s = (x, s')" "event_calls cs" "runs s0 s"
  shows "runs s0 s'"
proof -
  obtain r s1 where g: "resolvePersistedStrategy cs plan s = (r, s1)" by fastforce
  then have "runs s0 s1" using runs_strategyLookups [OF _ assms(2,3)] unfolding resolvePersistedStrategy_def by blast
  then show ?thesis using assms(1,3) g by (auto simp: strategyFor_def split: option.splits)
qed

lemma eject_save_runs:
  assumes ev: "pe_Eject ev" and up: "upsertCircuit cl (ejectedRuntime p ch ev t rt0) v s = (res, s')" and env: "event_env cl"
    and got: "(find_circuit (qualityCircuits s) (p, ch) = Some rt0 \<and> v = qr_Version rt0 \<and> \<not> alreadyOpen t rt0) \<or>
      (rt0 = QualityCircuitRuntime_zero \<and> v = 0)"
  shows "runs s s'"
  using got
proof (elim disjE conjE)
  assume f: "find_circuit (qualityCircuits s) (p, ch) = Some rt0" and v: "v = qr_Version rt0" and a: "\<not> alreadyOpen t rt0"
  have k: "circuit_key rt0 = (p, ch)" by (rule find_circuit_key [OF f])
  then have "after_event (RowEject ev t) rt0 = Some (ejectedRuntime p ch ev t rt0)"
    using ev a by (simp add: guarded_def circuit_key_def)
  from event_write [OF _ evolve_none this env] f k up v show ?thesis by simp
next
  assume z: "rt0 = QualityCircuitRuntime_zero" "v = 0"
  obtain tr where tr: "circuits_run (qualityCircuits s) tr (qualityCircuits (call_env cl s))" using env unfolding event_env_def runs_def by blast
  note w = upsertCircuit_result [OF up]
  show ?thesis
  proof (cases res)
    case (Inl e)
    then have "qualityCircuits s' = qualityCircuits (call_env cl s)" using w by (auto elim: UpsertQualityCircuitRuntime_cases)
    then show ?thesis using tr by (auto simp: runs_def)
  next
    case (Inr r)
    have "find_circuit (qualityCircuits (call_env cl s)) (p, ch) = None"
      using create_if_absent [of cl _ s r s'] up z Inr ejectedRuntime_row(9) [OF ev, of p ch t rt0] by metis
    moreover have "call_Err cl = None" using upsert_ctx w Inr by blast
    ultimately have "circuits_run (qualityCircuits s) (tr @ [((p, ch), RowEject ev t)]) (qualityCircuits s')"
      using run_create [OF tr _ ev, of p ch "call_now cl" t r "qualityCircuits s'"] w z Inr by simp
    then show ?thesis unfolding runs_def by blast
  qed
qed

lemma runs_openLoop:
  assumes "openQualityCircuit_loop n cs p ch ev t s = (r, s')" "event_calls cs" "pe_Eject ev" "runs s0 s"
  shows "runs s0 s'"
  using assms
proof (induction n arbitrary: cs s)
  case 0
  then show ?case by simp
next
  case (Suc n)
  obtain got s1 where g: "getCircuit (cs 0) p ch s = (got, s1)" by fastforce
  have 1: "runs s0 s1" using g Suc.prems by (auto intro: runs_reads)
  have save: ?case
    if a: "(case upsertCircuit (cs 1) (ejectedRuntime p ch ev t rt0) v s1 of
          (Inr saved, s) \<Rightarrow> (Inr saved, s)
        | (Inl e, s) \<Rightarrow> if e \<noteq> ErrConflict then (Inl (OrchStore e), s) else openQualityCircuit_loop n (later 2 cs) p ch ev t s) = (r, s')"
      and b: "(find_circuit (qualityCircuits s1) (p, ch) = Some rt0 \<and> v = qr_Version rt0 \<and> \<not> alreadyOpen t rt0) \<or>
       (rt0 = QualityCircuitRuntime_zero \<and> v = 0)" for rt0 v
  proof -
    obtain res s2 where u: "upsertCircuit (cs 1) (ejectedRuntime p ch ev t rt0) v s1 = (res, s2)" by fastforce
    have 2: "runs s0 s2" using eject_save_runs [OF Suc.prems(3) u _ b] Suc.prems(2) runs_trans [OF 1] by simp
    then show ?thesis using a u Suc.IH [of "later 2 cs" s2] Suc.prems(2,3) by (auto split: sum.splits if_splits)
  qed
  from getCircuit_result(2) [OF g, symmetric] show ?case
  proof (cases rule: GetQualityCircuitRuntime_cases)
    case missing
    then show ?thesis using save [of QualityCircuitRuntime_zero 0] Suc.prems(1) g by (simp add: Let_def)
  next
    case (found rt)
    then show ?thesis using save [of rt "qr_Version rt"] Suc.prems(1) g 1 by (cases "alreadyOpen t rt") (simp_all add: Let_def)
  qed (use Suc.prems(1) g 1 in simp)
qed

lemma runs_open [runs_intros]:
  "openQualityCircuit cs onow p ch ev t s = (r, s') \<Longrightarrow> event_calls cs \<Longrightarrow> runs s0 s \<Longrightarrow> runs s0 s'"
  unfolding openQualityCircuit_eq using runs_openLoop [of qualityCircuitCASAttempts cs p ch "ejecting ch ev"] by (auto split: if_splits)

lemma runs_scope [runs_intros]:
  assumes "qualityProbeScope cs o' rt s = (r, s')" "event_calls cs" "runs s0 s"
  shows "runs s0 s'"
  using assms unfolding qualityProbeScope_def GetRoutePlan_def ListPublishedBindings_def GetUpstreamChannel_def GetInstance_def GetUpstreamPool_def Let_def
  by (auto split: option.splits if_splits intro!: runs_env)

text \<open>A row that was read at some earlier time.\<close>

definition read_from :: "QualityCircuitRuntime \<Rightarrow> SchedulerStore \<Rightarrow> bool" where
  "read_from rt s \<longleftrightarrow> (\<exists>cs0. find_circuit cs0 (circuit_key rt) = Some rt \<and> circuits_evolve cs0 (qualityCircuits s))"

lemma read_from_runs: "read_from rt s \<Longrightarrow> runs s t \<Longrightarrow> read_from rt t"
  unfolding read_from_def using runs_evolves circuits_evolve_trans by blast

lemma runs_claim:
  assumes "claimQualityProbe cl rt now s = (r, s')" "event_env cl" "read_from rt s" "runs s0 s"
  shows "runs s0 s'"
proof -
  obtain cs0 where f: "find_circuit cs0 (circuit_key rt) = Some rt" "circuits_evolve cs0 (qualityCircuits s)"
    using assms(3) by (auto simp: read_from_def)
  obtain res s1 where u: "upsertCircuit cl (claimRow now rt) (qr_Version rt) s = (res, s1)" by fastforce
  have "runs s s1" if "claimable now rt"
    by (rule event_write [OF f _ assms(2) u, of "RowClaim now"]) (use that in \<open>simp add: guarded_def\<close>)
  then show ?thesis using assms(1,4) u runs_trans by (auto simp: claimQualityProbe_def split: if_splits sum.splits)
qed

lemma runs_supports [runs_intros]:
  "connectorSupportsQualityProbe cl t inst c e s = (r, s') \<Longrightarrow> event_env cl \<Longrightarrow> runs s0 s \<Longrightarrow> runs s0 s'"
  by (auto simp: connectorSupportsQualityProbe_def split: if_splits prod.splits sum.splits intro: runs_reads)

lemma runs_recover:
  assumes "recoverQualityCircuit cs o' rt now s = (r, s')" "event_calls cs" "event_engine (orc_engine o')" "read_from rt s" "runs s0 s"
  shows "runs s0 s'"
proof -
  obtain c s1 where c: "claimQualityProbe (cs 0) rt now s = (c, s1)" by fastforce
  have 1: "runs s0 s1" by (rule runs_claim [OF c]) (use assms in simp_all)
  let ?wc = "WithoutCancel (later 1 cs)"
  have wc: "event_calls ?wc" "\<And>n. event_calls (later n ?wc)" "\<And>n. event_env (?wc n)" using assms(2) by simp_all
  define sc where "sc claimed = fst (qualityProbeScope ?wc o' claimed s1)" for claimed
  define s2 where "s2 claimed = snd (qualityProbeScope ?wc o' claimed s1)" for claimed
  have sc: "qualityProbeScope ?wc o' claimed s1 = (sc claimed, s2 claimed)" for claimed by (simp add: sc_def s2_def)
  have 2: "runs s0 (s2 claimed)" for claimed by (rule runs_scope [OF sc wc(1) 1])
  show ?thesis
  proof (cases "\<exists>claimed. c = Inr (Some claimed) \<and> \<not> qr_RestorePending claimed")
    case False
    then show ?thesis using assms(1) c 1 runs_manual [OF _ wc(1) assms(3) 1] runs_completePending [OF _ wc(1) assms(3) 1]
      by (auto simp: recoverQualityCircuit_def Let_def split: sum.splits option.splits if_splits)
  next
    case True
    then obtain claimed where cl: "c = Inr (Some claimed)" "\<not> qr_RestorePending claimed" by blast
    show ?thesis
    proof (cases "sc claimed")
      case (Inl t)
      then show ?thesis using assms(1) c cl sc [of claimed] runs_defer [OF _ wc(2) 2] by (auto simp: recoverQualityCircuit_def)
    next
      case (Inr x)
      obtain plan binding channel inst model where x: "x = (plan, binding, channel, inst, model)" by (metis surj_pair)
      let ?t = "if IsZero now then orc_wall o' else now"
      obtain b s3 where b: "connectorSupportsQualityProbe (?wc 5) ?t inst (chan_ProbeCapability channel) (chan_ProbeEndpointPath channel) (s2 claimed) = (b, s3)"
        by fastforce
      have 3: "runs s0 s3" by (rule runs_supports [OF b wc(3) 2])
      obtain strat s4 where st: "strategyFor (later 6 ?wc) (orc_strategy o') plan s3 = (strat, s4)" by fastforce
      have 4: "runs s0 s4" by (rule runs_strategyFor [OF st wc(2) 3])
      show ?thesis using assms(1) c cl sc [of claimed] Inr x b st runs_defer [OF _ wc(2) 2] runs_defer [OF _ wc(2) 3] runs_advance [OF _ wc(2) 4]
        by (auto simp: recoverQualityCircuit_def Let_def split: option.splits bool.splits sum.splits if_splits)
    qed
  qed
qed

lemma runs_admit:
  assumes "admitRecoveryMember cs engine m stage now s = (r, s')" "event_calls cs" "event_engine engine" "runs s0 s"
  shows "runs s0 s'"
proof -
  obtain got s1 where g: "getCircuit (cs 0) (qr_PlanID (mb_runtime m)) (qr_ChannelID (mb_runtime m)) s = (got, s1)" by fastforce
  have 1: "runs s0 s1" using g assms by (auto intro: runs_reads)
  show ?thesis
  proof (cases got)
    case (Inr c)
    obtain res s2 where u: "upsertCircuit (cs 1) (admitPendingRow stage now c) (qr_Version c) s1 = (res, s2)" by fastforce
    obtain res' s3 where v: "saveAndEmit (later 1 cs) (admitActiveRow stage now c) (qr_Version c) s1 = (res', s3)" by fastforce
    have 2: "runs s0 s2" if "qr_RecoveryReady c"
      by (rule runs_write [OF u g [unfolded Inr], of "RowAdmit stage now"]) (use that assms(2) 1 in \<open>simp_all add: guarded_def\<close>)
    have 3: "runs s0 s3" if "qr_RecoveryReady c" "qr_State c = CircuitClosed"
      by (rule runs_saveAndEmit [OF v g [unfolded Inr], of "RowAdmitActive stage now"]) (use that assms(2) 1 in \<open>simp_all add: guarded_def\<close>)
    show ?thesis using assms(1) g Inr u v 1 2 3 runs_completePending [OF _ event_calls_simps(3) [OF event_calls_simps(2) [OF assms(2)]] assms(3)]
      by (auto simp: admitRecoveryMember_def split: if_splits sum.splits)
  qed (use assms(1) g 1 in \<open>simp add: admitRecoveryMember_def\<close>)
qed

lemma runs_member_save:
  assumes g: "getCircuit cl p ch s = (got, s1)" and env: "event_env cl" and cs: "event_calls cs" and s: "runs s0 s"
    and up: "\<And>c. got = Inr c \<Longrightarrow> (guard c \<and> (\<exists>e. after_event e c = Some (nxt c)) \<and> saveAndEmit cs (nxt c) (qr_Version c) s1 = (r, s')) \<or> s' = s1"
    and no: "\<And>e. got = Inl e \<Longrightarrow> s' = s1"
  shows "runs s0 s'"
proof -
  have 1: "runs s0 s1" using g env s by (auto intro: runs_reads)
  then show ?thesis using up no g runs_saveAndEmit [OF _ _ _ cs 1] by (cases got) blast+
qed

lemma runs_mark: "markMember cs stage now m s = (r, s') \<Longrightarrow> event_calls cs \<Longrightarrow> runs s0 s \<Longrightarrow> runs s0 s'"
proof -
  assume a: "markMember cs stage now m s = (r, s')" "event_calls cs" "runs s0 s"
  obtain got s1 where g: "getCircuit (cs 0) (qr_PlanID (mb_runtime m)) (qr_ChannelID (mb_runtime m)) s = (got, s1)" by fastforce
  have e: "\<exists>e. after_event e c = Some (stageRow stage now c)" if "qr_RecoveryReady c" for c
    using that by (intro exI [of _ "RowStage stage now"]) (simp add: guarded_def)
  show ?thesis
    by (rule runs_member_save [OF g _ event_calls_simps(2) [OF a(2), of 1] a(3), where guard = qr_RecoveryReady and r = r and nxt = "stageRow stage now"])
      (use a g e in \<open>auto simp: markMember_def split: if_splits\<close>)
qed

lemma runs_complete: "completeMember cs now m s = (r, s') \<Longrightarrow> event_calls cs \<Longrightarrow> runs s0 s \<Longrightarrow> runs s0 s'"
proof -
  assume a: "completeMember cs now m s = (r, s')" "event_calls cs" "runs s0 s"
  obtain got s1 where g: "getCircuit (cs 0) (qr_PlanID (mb_runtime m)) (qr_ChannelID (mb_runtime m)) s = (got, s1)" by fastforce
  have e: "\<exists>e. after_event e c = Some (completedRow now c)" if "qr_RecoveryReady c" for c
    using that by (intro exI [of _ "RowComplete now"]) (simp add: guarded_def)
  show ?thesis
    by (rule runs_member_save [OF g _ event_calls_simps(2) [OF a(2), of 1] a(3), where guard = qr_RecoveryReady and r = r and nxt = "completedRow now"])
      (use a g e in \<open>auto simp: completeMember_def split: if_splits\<close>)
qed

lemma runs_reopen:
  assumes "reopenMember cs o' sourceID now m s = (r, s')" "event_calls cs" "event_engine (orc_engine o')" "runs s0 s"
  shows "runs s0 s'"
proof -
  obtain a s1 where a: "orc_engine o' (pln_ID (mb_plan m)) [(chan_ID (mb_channel m), False)] s = (a, s1)" by fastforce
  have 1: "runs s0 s1" using a assms by (auto intro: runs_engine)
  note o = runs_open [OF _ assms(2)] and e = runs_emit [OF event_calls_simps(2) [OF assms(2), of 16]]
  show ?thesis using assms(1,4) a 1 o e
    by (auto simp: reopenMember_def Let_def split: if_splits sum.splits prod.splits option.splits)
qed

text \<open>The loops: what every round keeps, the loop keeps.\<close>

lemma runs_first_error:
  assumes "first_error f xs s = (r, s')" "\<And>i x s r s'. f i x s = (r, s') \<Longrightarrow> runs s s'" "runs s0 s"
  shows "runs s0 s'"
  using assms
proof (induction f xs s arbitrary: r rule: first_error.induct)
  case (2 f x xs s)
  obtain e s1 where e: "f 0 x s = (e, s1)" by fastforce
  have 1: "runs s0 s1" using runs_trans [OF 2(4) 2(3) [OF e]] .
  show ?case
  proof (cases e)
    case None
    show ?thesis by (rule 2(1) [OF e [symmetric] None]) (use 2(2,3) e None 1 in simp_all)
  qed (use 2(2) e 1 in simp)
qed simp

lemma runs_all_errors:
  assumes "all_errors f xs firstErr s = (r, s')" "\<And>i x s r s'. x \<in> set xs \<Longrightarrow> P s \<Longrightarrow> f i x s = (r, s') \<Longrightarrow> runs s s'"
    "\<And>s t. P s \<Longrightarrow> runs s t \<Longrightarrow> P t" "P s" "runs s0 s"
  shows "runs s0 s'"
  using assms
proof (induction f xs firstErr s arbitrary: r rule: all_errors.induct)
  case (2 f x xs firstErr s)
  obtain e s1 where e: "f 0 x s = (e, s1)" by fastforce
  have r1: "runs s s1" using 2(3) [of x s 0 e s1] e 2(5) by simp
  show ?case
  proof (rule 2(1) [OF e [symmetric] refl])
    show "all_errors (\<lambda>i. f (Suc i)) xs (if firstErr = None then e else firstErr) s1 = (r, s')" using 2(2) e by simp
    show "runs s0 s1" using runs_trans [OF 2(6) r1] .
    show "P s1" using 2(4) [OF 2(5) r1] .
  qed (use 2(3,4) in \<open>meson list.set_intros(2)\<close>)+
qed simp

lemma runs_verdict:
  assumes "recoveryStageVerdict_loop cs pinned cohort stage now ms admitted s = (r, s')" "\<And>i. event_calls (cs i)" "runs s0 s"
  shows "runs s0 s'"
  using assms
proof (induction cs pinned cohort stage now ms admitted s arbitrary: r rule: recoveryStageVerdict_loop.induct)
  case (2 cs pinned cohort stage now m ms admitted s)
  obtain strat s1 where st: "strategyFor (cs 0) pinned (mb_plan m) s = (strat, s1)" by fastforce
  have 1: "runs s0 s1" by (rule runs_strategyFor [OF st]) (use 2 in simp_all)
  obtain obs s2 where ob: "listObservations (cs 0 3) (stageObservations m now) s1 = (obs, s2)" by fastforce
  have r2: "runs s0 s2" by (rule runs_reads(10) [OF ob]) (use 2 1 in simp_all)
  show ?case using 2 st ob 1 r2
    by (auto simp: Let_def split: if_splits sum.splits option.splits)
qed simp

lemma runs_applyStage:
  assumes "applyStage ph o' sourceID members stage now s = (r, s')" "\<And>i j. event_calls (ph i j)" "event_engine (orc_engine o')" "runs s0 s"
  shows "runs s0 s'"
proof -
  obtain selected e s1 where f: "first_error (\<lambda>i m. admitRecoveryMember (ph 1 i) (orc_engine o') m stage now) selected s = (e, s1)"
    and r: "e = None \<Longrightarrow> markRecoveryStage (ph 2) members stage now s1 = (r, s')" "e \<noteq> None \<Longrightarrow> s' = s1"
    using assms(1) unfolding applyStage_def Let_def by (auto split: prod.splits option.splits)
  have 1: "runs s0 s1" by (rule runs_first_error [OF f]) (use assms(2-4) runs_admit in blast)+
  have "runs s0 s'" if "e = None" using r(1) [OF that] unfolding markRecoveryStage_def
    by (rule runs_first_error) (use assms(2) runs_mark 1 in blast)+
  then show ?thesis using r(2) 1 by blast
qed

lemma runs_source:
  assumes "advanceSourceRecoveryRollout ph o' sourceID members now s = (r, s')" "\<And>i j. event_calls (ph i j)" "event_engine (orc_engine o')" "runs s0 s"
  shows "runs s0 s'"
proof -
  obtain v s1 where v: "recoveryStageVerdict (ph 0) (orc_strategy o') members (highestStage members) now s = (v, s1)" by fastforce
  have 1: "runs s0 s1" using v assms(2,4) unfolding recoveryStageVerdict_def by (rule runs_verdict)
  have c: "runs s0 s'" if "completeRecoveryRollout (ph 2) members now s1 = (r, s')"
    using that unfolding completeRecoveryRollout_def by (rule runs_first_error) (use assms(2) runs_complete 1 in blast)+
  have o: "runs s0 s'" if "reopenRecoveryRollout (ph 2) o' sourceID members now s1 = (r, s')"
    using that unfolding reopenRecoveryRollout_def by (rule runs_first_error) (use assms(2,3) runs_reopen 1 in blast)+
  show ?thesis using assms(1,4) v 1 c o runs_applyStage [OF _ assms(2,3) assms(4)] runs_applyStage [OF _ assms(2,3) 1]
    by (auto simp: advanceSourceRecoveryRollout_def Let_def split: if_splits sum.splits)
qed

lemma runs_member:
  "rolloutMemberOf cs rt s = (r, s') \<Longrightarrow> event_calls cs \<Longrightarrow> runs s0 s \<Longrightarrow> runs s0 s'"
  unfolding rolloutMemberOf_def GetRoutePlan_def ListPublishedBindings_def GetUpstreamChannel_def Let_def
  by (auto split: option.splits if_splits intro!: runs_env)

lemma runs_members_loop:
  "recoveryRolloutMembers_loop cs rts acc s = (r, s') \<Longrightarrow> (\<And>i. event_calls (cs i)) \<Longrightarrow> runs s0 s \<Longrightarrow> runs s0 s'"
proof (induction cs rts acc s arbitrary: r rule: recoveryRolloutMembers_loop.induct)
  case (2 cs rt rts acc s)
  obtain m s1 where m: "rolloutMemberOf (cs 0) rt s = (m, s1)" by fastforce
  have 1: "runs s0 s1" using runs_member [OF m] 2 by blast
  show ?case using 2 m 1 by (auto simp: Let_def split: sum.splits option.splits)
qed simp

lemma runs_rollouts:
  assumes "advanceRecoveryRollouts ord cl cs ph o' now s = (r, s')" "event_env cl" "\<And>i. event_calls (cs i)" "\<And>i j k. event_calls (ph i j k)"
    "event_engine (orc_engine o')" "runs s0 s"
  shows "runs s0 s'"
proof -
  obtain l s1 where l: "recoveryRolloutMembers cl cs s = (l, s1)" by fastforce
  have 1: "runs s0 s1"
    using l assms(2,3,6) unfolding recoveryRolloutMembers_def by (auto split: prod.splits sum.splits intro: runs_reads runs_members_loop)
  show ?thesis
  proof (cases l)
    case (Inr ms)
    have a: "all_errors (\<lambda>i (sourceID, members). advanceSourceRecoveryRollout (ph i) o' sourceID members now) (ord ms) None s1 = (r, s')"
      using assms(1) l Inr by (simp add: advanceRecoveryRollouts_def)
    show ?thesis
      by (rule runs_all_errors [OF a, where P = "\<lambda>_. True"]) (use runs_source [OF _ assms(4,5)] 1 in \<open>auto split: prod.splits\<close>)
  qed (use assms(1) l 1 in \<open>simp add: advanceRecoveryRollouts_def\<close>)
qed

lemma listed_read_from:
  assumes "ListQualityCircuitRuntimes c f (qualityCircuits s) = Inr rts" "rt \<in> set rts" "circuits_ok (qualityCircuits s)"
  shows "read_from rt s"
proof -
  have "rt \<in> set (qualityCircuits s)"
    using assms(1,2) by (auto simp: ListQualityCircuitRuntimes_def Let_def split: option.splits if_splits dest: in_set_takeD)
  then have "find_circuit (qualityCircuits s) (circuit_key rt) = Some rt"
    using assms(3) by (intro find_distinct) (simp_all add: circuits_ok_def)
  then show ?thesis unfolding read_from_def using evolve_none by blast
qed

lemma runs_sweep:
  assumes "RecoverDueCircuits ord cl probes cl' scans ph o' now s = (r, s')" "event_env cl" "\<And>i. event_calls (probes i)" "event_env cl'"
    "\<And>i. event_calls (scans i)" "\<And>i j k. event_calls (ph i j k)" "event_engine (orc_engine o')" "circuits_ok (qualityCircuits s)"
  shows "runs s s'"
proof -
  let ?f = "\<lparr>qf_PlanID = '''', qf_ChannelID = '''', qf_States = [CircuitOpen, CircuitHalfOpen], qf_ProbeDueBefore = now, qf_Limit = qualityProbeBatchSize\<rparr>"
  obtain l s1 where l: "listCircuits cl ?f s = (l, s1)" by fastforce
  have 1: "runs s s1" using l assms(2) by (auto intro: runs_reads)
  show ?thesis
  proof (cases l)
    case (Inr rts)
    obtain e s2 where e: "all_errors (\<lambda>i rt. recoverQualityCircuit (probes i) o' rt now) rts None s1 = (e, s2)" by fastforce
    have ok: "circuits_ok (qualityCircuits s1)" using circuits_ok_evolve [OF runs_evolves [OF 1]] assms(8) .
    have L: "ListQualityCircuitRuntimes (call_Err cl) ?f (qualityCircuits s1) = Inr rts"
      using l Inr by (auto simp: listCircuits_def Let_def)
    have 2: "runs s s2"
    proof (rule runs_all_errors [OF e, where P = "\<lambda>t. \<forall>rt\<in>set rts. read_from rt t"])
      show "\<forall>rt\<in>set rts. read_from rt s1" using listed_read_from [OF L] ok by blast
    qed (use runs_recover [OF _ assms(3,7)] read_from_runs 1 in blast)+
    obtain e' s3 where e': "advanceRecoveryRollouts ord cl' scans ph o' now s2 = (e', s3)" by fastforce
    have "runs s s3" by (rule runs_rollouts [OF e' assms(4-7) 2])
    then show ?thesis using assms(1) l Inr e e' by (simp add: RecoverDueCircuits_def)
  qed (use assms(1) l 1 in \<open>simp add: RecoverDueCircuits_def\<close>)
qed

text \<open>The same for the operator's request and for the repair after a crash.\<close>

lemma runs_ManualRecover:
  assumes "ManualRecover cs engine onow p ch words s = (r, s')" "event_calls cs" "event_engine engine" "runs s0 s"
  shows "runs s0 s'"
proof -
  let ?p = "TrimSpace p" and ?c = "TrimSpace ch"
  obtain got s1 where g: "getCircuit (cs 0) ?p ?c s = (got, s1)" by fastforce
  have 1: "runs s0 s1" using g assms by (auto intro: runs_reads)
  obtain bs s2 where b: "ListPublishedBindings (cs 1) ?p s1 = (bs, s2)" by fastforce
  have 2: "runs s1 s2" "runs s0 s2" using b assms(2) 1 by (auto intro: runs_reads)
  show ?thesis
  proof (cases got)
    case (Inr rt)
    let ?w = "plainText (operatorDecisionNote ''manual recovery'' words)"
    obtain res s3 where u: "upsertCircuit (cs 2) (manualPendingRow onow ?w rt) (qr_Version rt) s2 = (res, s3)" by fastforce
    have 3: "runs s0 s3" if "qualityCircuitBlocksScheduling (qr_State rt)" "\<not> qr_RestorePending rt"
    proof -
      have "runs s2 s3"
        by (rule event_write [OF get_found(1) [OF g [unfolded Inr]] runs_evolves [OF 2(1)] _ _ u, of "RowManual onow ?w"])
          (use that assms(2) in \<open>simp_all add: guarded_def\<close>)
      then show ?thesis using 2(2) runs_trans by blast
    qed
    have reread: "runs s0 t'" if "getCircuit (cs k) ?p ?c t = (x, t')" "runs s0 t" for k t t' x
      using that assms(2) by (auto intro: runs_reads)
    have m: "runs s0 t" if "completePendingManualRecovery (WithoutCancel (later 3 cs)) engine pending onow s3 = (x, t)" "runs s0 s3" for pending x t
      using that assms(2,3) by (auto intro: runs_manual)
    show ?thesis using assms(1) g Inr b u 1 2(2) 3 reread m
      unfolding ManualRecover_def Let_def by (auto split: if_splits sum.splits prod.splits option.splits)
  qed (use assms(1) g 1 in \<open>simp add: ManualRecover_def Let_def\<close>)
qed

lemma runs_repairDisabled:
  assumes "repairDisabledBinding cs onow p ds b s = (r, s')" "event_calls cs" "runs s0 s"
  shows "runs s0 s'"
proof -
  obtain got s1 where g: "getCircuit (cs 0) p (bnd_ChannelID b) s = (got, s1)" by fastforce
  have 1: "runs s0 s1" using g assms by (auto intro: runs_reads)
  note o = runs_open [OF _ event_calls_simps(3) [OF event_calls_simps(2) [OF assms(2), of 1]] 1]
  show ?thesis using assms(1,3) g 1 o unfolding repairDisabledBinding_def Let_def
    by (auto split: if_splits option.splits prod.splits sum.splits)
qed

lemma runs_repairActive:
  assumes "repairActiveBinding cs p b s = (r, s')" "event_calls cs" "runs s0 s"
  shows "runs s0 s'"
proof -
  obtain got s1 where g: "getCircuit (cs 0) p (bnd_ChannelID b) s = (got, s1)" by fastforce
  have 1: "runs s0 s1" using g assms by (auto intro: runs_reads)
  show ?thesis
  proof (cases got)
    case (Inr rt)
    let ?n = "rt\<lparr>qr_RestorePending := True, qr_LastReason := \<lparr>reason_Code = ''restore_pending'', reason_Text = plainText ''repairing recovered active binding''\<rparr>\<rparr>"
    obtain res s2 where u: "upsertCircuit (WithoutCancel cs 1) ?n (qr_Version rt) s1 = (res, s2)" by fastforce
    have "runs s0 s2" if "qr_State rt = CircuitHalfOpen" "\<not> qr_RestorePending rt" "3 \<le> qr_ConsecutiveProbeSuccesses rt"
      by (rule runs_write [OF u g [unfolded Inr], of RowRepair])
        (use that assms(2) 1 event_calls_simps(1) [OF event_calls_simps(3), of cs 1] in \<open>simp_all add: guarded_def\<close>)
    then show ?thesis using assms(1,3) g Inr u 1 by (auto simp: repairActiveBinding_def split: if_splits)
  qed (use assms(1,3) g 1 in \<open>auto simp: repairActiveBinding_def split: if_splits\<close>)
qed

lemma runs_repair:
  assumes "repairDecisionCircuitFallbacks cl cs cs' onow p bs s = (r, s')" "event_env cl" "\<And>i. event_calls (cs i)" "\<And>i. event_calls (cs' i)" "runs s0 s"
  shows "runs s0 s'"
proof -
  let ?f = "\<lparr>adf_PlanID = p, adf_InstanceID = '''', adf_PoolID = '''', adf_UserID = 0, adf_Statuses = [], adf_Limit = 100\<rparr>"
  obtain l s1 where l: "ListAutoSwitchDecisions cl ?f s = (l, s1)" by fastforce
  have 1: "runs s0 s1" using l assms(2,5) by (auto simp: ListAutoSwitchDecisions_def Let_def intro: runs_env)
  show ?thesis
  proof (cases l)
    case (Inr ds)
    obtain e s2 where e: "first_error (\<lambda>i. repairDisabledBinding (cs i) onow p ds) bs s1 = (e, s2)" by fastforce
    have 2: "runs s0 s2" by (rule runs_first_error [OF e]) (use assms(3) runs_repairDisabled 1 in blast)+
    obtain e' s3 where e': "first_error (\<lambda>i. repairActiveBinding (cs' i) p) bs s2 = (e', s3)" by fastforce
    have "runs s0 s3" by (rule runs_first_error [OF e']) (use assms(4) runs_repairActive 2 in blast)+
    then show ?thesis using assms(1) l Inr e e' 2 by (auto simp: repairDecisionCircuitFallbacks_def split: option.splits)
  qed (use assms(1) l 1 in \<open>simp add: repairDecisionCircuitFallbacks_def\<close>)
qed

section \<open>The evidence of a stage\<close>

text \<open>The evidence of a member's stage, as the contract has it: the passive observations of its channel
  and its instance from the beginning of the stage until now. The code counts all of these as samples,
  also the failures that say nothing about the source.\<close>

definition passive_since :: "recoveryRolloutMember \<Rightarrow> time \<Rightarrow> ChannelObservation \<Rightarrow> bool" where
  "passive_since m now ob \<longleftrightarrow> ob_Source ob = ObservationPassive \<and>
     (chan_ID (mb_channel m) = '''' \<or> ob_ChannelID ob = chan_ID (mb_channel m)) \<and>
     (pln_InstanceID (mb_plan m) = '''' \<or> ob_InstanceID ob = pln_InstanceID (mb_plan m)) \<and>
     (case qr_RecoveryStageStartedAt (mb_runtime m) of None \<Rightarrow> True | Some t \<Rightarrow> IsZero t \<or> t \<le> ob_ObservedAt ob) \<and>
     (IsZero now \<or> ob_ObservedAt ob \<le> now)"

definition good_evidence :: "RouteStrategy \<Rightarrow> recoveryRolloutMember \<Rightarrow> ChannelObservation list \<Rightarrow> bool" where
  "good_evidence strat m obs \<longleftrightarrow> stageMinSamples strat \<le> int (length obs) \<and>
     (case AggregateScope (memberScope m) Window5m obs DefaultThresholds of None \<Rightarrow> False
      | Some snapshot \<Rightarrow> \<not> pe_Eject (EvaluatePenalty strat (candidateOf (mb_channel m) snapshot)) \<and>
          \<not> flt (pe_Score (EvaluatePenalty strat (candidateOf (mb_channel m) snapshot))) (Fin 85))"

text \<open>The stage is confirmed for a member, when its turn comes in the store \<open>s\<close>: it carries traffic in this
  stage, its window has run out, and the evidence in the store, at the moment it is read, is enough and
  good for the strategy of its plan.\<close>

definition stage_confirmed ::
  "sched_calls \<Rightarrow> RouteStrategy option \<Rightarrow> int64 \<Rightarrow> time \<Rightarrow> SchedulerStore \<Rightarrow> recoveryRolloutMember \<Rightarrow> bool" where
  "stage_confirmed cs pinned stage now s m \<longleftrightarrow>
     qr_RecoveryStage (mb_runtime m) = stage \<and> qr_State (mb_runtime m) = CircuitClosed \<and> bnd_State (mb_binding m) = BindingActive \<and>
     (case qr_RecoveryObserveAfter (mb_runtime m) of None \<Rightarrow> False | Some t \<Rightarrow> t \<le> now) \<and> call_Err (cs 3) = None \<and>
     (case strategyFor cs pinned (mb_plan m) s of (strat, s1) \<Rightarrow>
        good_evidence strat m (filter (passive_since m now) (channelObs (tables (call_env (cs 3) s1)))))"

text \<open>The store after the reads of the first members.\<close>

fun verdict_store ::
  "(nat \<Rightarrow> sched_calls) \<Rightarrow> RouteStrategy option \<Rightarrow> string list \<Rightarrow> recoveryRolloutMember list \<Rightarrow> SchedulerStore \<Rightarrow> SchedulerStore" where
  "verdict_store cs pinned cohort [] s = s"
| "verdict_store cs pinned cohort (m # ms) s = verdict_store (\<lambda>i. cs (Suc i)) pinned cohort ms
     (if pln_ID (mb_plan m) \<in> set cohort then call_env (cs 0 3) (snd (strategyFor (cs 0) pinned (mb_plan m) s)) else s)"

lemma passive_since_iff: "observationMatches (stageObservations m now) ob \<longleftrightarrow> passive_since m now ob"
  by (auto simp: observationMatches_def stageObservations_def passive_since_def timeValue_def IsZero_def not_less split: option.splits)

text \<open>Neither the score nor the ejection depends on what a sum of costs rounds to, so the order in which
  the observations are listed does not matter.\<close>

lemma evaluation_without_cost:
  assumes "without_cost x = without_cost y"
  shows "pe_Score (EvaluatePenalty s (candidateOf c x)) = pe_Score (EvaluatePenalty s (candidateOf c y))"
    and "pe_Eject (EvaluatePenalty s (candidateOf c x)) = pe_Eject (EvaluatePenalty s (candidateOf c y))"
proof -
  have E: "pe_Score (EvaluatePenalty s c) = clamp (fsub (Fin 100) (pb_TotalPenalty (calculatePenalties (rs_thresholds (resolve s)) (cd_Snapshot c)
      (confidence (snap_QualitySampleCount (cd_Snapshot c)) (th_MinSamples (rs_thresholds (resolve s))))))) (Fin 0) (Fin 100)" for c
    by (simp add: EvaluatePenalty_def Let_def)
  have f: "snap_QualitySampleCount x = snap_QualitySampleCount y" "snap_UpstreamErrorRate x = snap_UpstreamErrorRate y"
    "snap_TTFTP95 x = snap_TTFTP95 y" "snap_DurationP95 x = snap_DurationP95 y" "snap_HealthState x = snap_HealthState y"
    "snap_InstanceID x = snap_InstanceID y" "snap_AuthFailureCount x = snap_AuthFailureCount y"
    "snap_InsufficientBalanceCount x = snap_InsufficientBalanceCount y"
    using arg_cong [OF assms, of snap_QualitySampleCount] arg_cong [OF assms, of snap_UpstreamErrorRate]
      arg_cong [OF assms, of snap_TTFTP95] arg_cong [OF assms, of snap_DurationP95] arg_cong [OF assms, of snap_HealthState]
      arg_cong [OF assms, of snap_InstanceID] arg_cong [OF assms, of snap_AuthFailureCount]
      arg_cong [OF assms, of snap_InsufficientBalanceCount]
    by (simp_all add: without_cost_def)
  show score: "pe_Score (EvaluatePenalty s (candidateOf c x)) = pe_Score (EvaluatePenalty s (candidateOf c y))"
    unfolding E using f by (simp add: candidateOf_def calculatePenalties_def)
  have "penaltyLifecycleGate (resolve s) (candidateOf c x) = penaltyLifecycleGate (resolve s) (candidateOf c y)"
    using f by (simp add: penaltyLifecycleGate_def candidateOf_def Let_def)
  then show "pe_Eject (EvaluatePenalty s (candidateOf c x)) = pe_Eject (EvaluatePenalty s (candidateOf c y))"
    unfolding EvaluatePenalty_Eject score by simp
qed

lemma good_evidence_mset:
  assumes "mset xs = mset ys"
  shows "good_evidence strat m xs = good_evidence strat m ys"
proof -
  let ?a = "AggregateScope (memberScope m) Window5m xs DefaultThresholds" and ?b = "AggregateScope (memberScope m) Window5m ys DefaultThresholds"
  have len: "length xs = length ys" using assms by (rule mset_eq_length)
  have "map_option without_cost ?a = map_option without_cost ?b" by (rule AggregateScope_mset [OF assms])
  then consider "?a = None" "?b = None" | x y where "?a = Some x" "?b = Some y" "without_cost x = without_cost y"
    by (cases ?a; cases ?b) auto
  then show ?thesis
  proof cases
    case (2 x y)
    show ?thesis unfolding good_evidence_def 2(1,2) len option.case evaluation_without_cost [OF 2(3)] by (rule refl)
  qed (simp add: good_evidence_def)
qed

lemma verdict_member:
  assumes "pln_ID (mb_plan m) \<in> set cohort"
  shows "recoveryStageVerdict_loop cs pinned cohort stage now (m # ms) admitted s = (Inr (True, g), s') \<longleftrightarrow>
    stage_confirmed (cs 0) pinned stage now s m \<and>
    recoveryStageVerdict_loop (\<lambda>i. cs (Suc i)) pinned cohort stage now ms (wrap64 (admitted + 1))
      (call_env (cs 0 3) (snd (strategyFor (cs 0) pinned (mb_plan m) s))) = (Inr (True, g), s')"
proof -
  obtain strat s1 where st: "strategyFor (cs 0) pinned (mb_plan m) s = (strat, s1)" by fastforce
  let ?s2 = "call_env (cs 0 3) s1"
  let ?obs = "go_sort (\<lambda>x y. ob_ObservedAt y < ob_ObservedAt x) (filter (passive_since m now) (channelObs (tables ?s2)))"
  have l: "listObservations (cs 0 3) (stageObservations m now) s1 =
    ((case call_Err (cs 0 3) of Some e \<Rightarrow> Inl (ErrContext e) | None \<Rightarrow> Inr ?obs), ?s2)"
    unfolding listObservations_def ListChannelObservations_def Let_def passive_since_iff [abs_def]
    by (simp add: stageObservations_def limited_def split: option.split)
  have "good_evidence strat m (filter (passive_since m now) (channelObs (tables ?s2))) = good_evidence strat m ?obs"
    by (rule good_evidence_mset) simp
  then show ?thesis
    using assms unfolding stage_confirmed_def st prod.case snd_conv
    by (cases "qr_RecoveryObserveAfter (mb_runtime m)"; cases "call_Err (cs 0 3)";
        cases "AggregateScope (memberScope m) Window5m ?obs DefaultThresholds")
       (auto simp: st l good_evidence_def Let_def timeValue_def DefaultQualityCircuitPolicy_def)
qed

lemma verdict_ready:
  assumes "0 \<le> admitted" "admitted + int (length ms) < 2 ^ 63"
  shows "recoveryStageVerdict_loop cs pinned cohort stage now ms admitted s = (Inr (True, g), s') \<longleftrightarrow>
    \<not> g \<and> s' = verdict_store cs pinned cohort ms s \<and> cohort \<noteq> [] \<and>
    admitted + int (length (filter (\<lambda>m. pln_ID (mb_plan m) \<in> set cohort) ms)) = int (length cohort) \<and>
    (\<forall>i<length ms. pln_ID (mb_plan (ms ! i)) \<in> set cohort \<longrightarrow>
       stage_confirmed (cs i) pinned stage now (verdict_store cs pinned cohort (take i ms) s) (ms ! i))"
  using assms
proof (induction ms arbitrary: cs admitted s)
  case Nil
  then show ?case by auto
next
  case (Cons m ms)
  show ?case
  proof (cases "pln_ID (mb_plan m) \<in> set cohort")
    case True
    have w: "wrap64 (admitted + 1) = admitted + 1" using Cons.prems by (intro wrap64_id) (simp add: in64_def)
    note IH = Cons.IH [of "admitted + 1" "\<lambda>i. cs (Suc i)" "call_env (cs 0 3) (snd (strategyFor (cs 0) pinned (mb_plan m) s))"]
    show ?thesis unfolding verdict_member [OF True] w using IH Cons.prems True by (simp add: All_less_Suc2 add.assoc) blast
  next
    case False
    then show ?thesis using Cons.IH [of admitted "\<lambda>i. cs (Suc i)" s] Cons.prems by (simp add: All_less_Suc2)
  qed
qed

section \<open>Properties\<close>

text \<open>C12. Traffic returns only on evidence. In every interleaving of the operations of all schedulers, on
  all circuits, a circuit that was isolated and is closed again has since its last ejection seen
  three good probes with no failed one and no failed attempt among them, or an operator has
  asked for it.\<close>

theorem traffic_returns_on_evidence:
  assumes "circuits_run cs tr cs'" "find_circuit cs k = Some rt" "isolated rt" "find_circuit cs' k = Some rt'" "qr_State rt' = CircuitClosed"
  shows "proven (events_of k tr) \<or> requested (events_of k tr)"
  using run_evidence [OF assms(1,2) isolated_evidence [OF assms(3)] assms(4)] assms(5) by (simp add: evidence_ok_def backed_def)

text \<open>C13. A sweep of the recovery worker keeps to these events: whatever the prober and the publish
  engine answer and wherever a call fails, if the others (and the engine) change the circuits by
  events of the schedulers only, the sweep does too. Every write it makes is one event on the
  row as it is at that moment.\<close>

theorem sweep_keeps_to_events:
  assumes "event_env cl" "\<And>i. event_calls (probes i)" "event_env cl'" "\<And>i. event_calls (scans i)" "\<And>i j k. event_calls (ph i j k)"
    "event_engine (orc_engine o')" "circuits_ok (qualityCircuits s)"
  shows "\<exists>tr. circuits_run (qualityCircuits s) tr (qualityCircuits (snd (RecoverDueCircuits ord cl probes cl' scans ph o' now s)))"
proof -
  obtain r s' where r: "RecoverDueCircuits ord cl probes cl' scans ph o' now s = (r, s')" by fastforce
  show ?thesis using runs_sweep [OF r assms] by (simp add: r runs_def)
qed

text \<open>C17. A recovery stage expands if and only if its whole cohort is behind it. The verdict is ready
  exactly when the cohort is not empty and fully present among the members, and every member in it, when
  its turn comes, is live in this stage, past its window and confirmed by enough good passive observations
  of its own in the store since the stage began, under the strategy of its plan; then no member has
  regressed. Observations of every kind count as samples. What others do between the calls is arbitrary.\<close>

theorem expansion_needs_whole_cohort:
  fixes members :: "recoveryRolloutMember list" and stage :: int64
  assumes "int (length members) < 2 ^ 63"
  defines "cohort \<equiv> stageCohort members (SourceIdentity (mb_channel (hd members))) stage"
  shows "recoveryStageVerdict cs pinned members stage now s = (Inr (True, regressed), s') \<longleftrightarrow>
    \<not> regressed \<and> s' = verdict_store cs pinned cohort members s \<and> cohort \<noteq> [] \<and>
    length (filter (\<lambda>m. pln_ID (mb_plan m) \<in> set cohort) members) = length cohort \<and>
    (\<forall>i<length members. pln_ID (mb_plan (members ! i)) \<in> set cohort \<longrightarrow>
       stage_confirmed (cs i) pinned stage now (verdict_store cs pinned cohort (take i members) s) (members ! i))"
  using verdict_ready [of 0 members cs pinned cohort stage now s regressed s'] assms
  by (simp add: recoveryStageVerdict_def cohort_def)

subsection \<open>Examples\<close>

definition sample_plan :: RoutePlan where
  "sample_plan = \<lparr>pln_ID = ''plan-1'', pln_UserID = 7, pln_InstanceID = ''i1'', pln_PoolID = ''p1'', pln_Tier = '''', pln_Status = RoutePlanPublished,
     pln_MaxChannels = 0, pln_Rollout = RolloutImmediate, pln_RolloutBatchSize = 0, pln_RolloutCanaryCount = 0, pln_Labels = [],
     pln_SchedulingGeneration = 1, pln_CreatedAt = 1, pln_UpdatedAt = 1\<rparr>"

definition sample_member :: recoveryRolloutMember where
  "sample_member = \<lparr>mb_runtime = sample_circuit_row\<lparr>qr_State := CircuitClosed, qr_RecoveryReady := True, qr_RecoveryStage := 10,
       qr_RecoveryObserveAfter := Some 5\<rparr>, mb_plan = sample_plan, mb_channel = sample_upstream,
     mb_binding = PublishedBinding_zero\<lparr>bnd_PlanID := ''plan-1'', bnd_ChannelID := ''c1'', bnd_RemoteID := ''r1'', bnd_State := BindingActive\<rparr>\<rparr>"

definition client_failure :: ChannelObservation where
  "client_failure = sample_observation\<lparr>ob_Success := False, ob_ErrorType := ErrorClient\<rparr>"

definition client_window :: "ChannelObservation list" where
  "client_window = replicate 5 client_failure"

definition client_store :: SchedulerStore where
  "client_store = sample_scheduler_store\<lparr>tables := sample_health_store\<lparr>channelObs := client_window\<rparr>\<rparr>"

lemma client_window_ok: "client_window \<noteq> []" "int (length client_window) < 2 ^ 53" "list_all observation_ok client_window"
  using sample_observation_ok by (simp_all add: client_window_def client_failure_def observation_ok_def list_all_iff)

lemma client_window_counts: "occurs qualityEligible client_window = 0" "occurs (failed_with ErrorAuth) client_window = 0"
  "occurs (failed_with ErrorInsufficientBalance) client_window = 0"
  by (simp_all add: client_window_def client_failure_def qualityEligible_def failed_with_def sample_observation_def numeral_eq_Suc)

text \<open>A window of failures of the clients alone has no quality sample, and scores 100.\<close>

lemma client_window_score:
  obtains snapshot where "AggregateScope scope w client_window DefaultThresholds = Some snapshot"
    "\<not> pe_Eject (EvaluatePenalty sample_strategy (candidateOf sample_upstream snapshot))"
    "pe_Score (EvaluatePenalty sample_strategy (candidateOf sample_upstream snapshot)) = Fin 100"
proof -
  obtain t50 t95 d50 d95 where A: "AggregateScope scope w client_window DefaultThresholds =
      Some (scored (withDefaults DefaultThresholds) (tally_of client_window)
        (rated client_window t50 t95 d50 d95 (scopeSnapshot scope w (int (length client_window)))))"
    and p: "list_all (\<lambda>v. between 0 (2 ^ 1001) v \<and> wf64 v) [t50, t95, d50, d95]"
    by (rule AggregateScope_rated [OF client_window_ok])
  let ?m = "rated client_window t50 t95 d50 d95 (scopeSnapshot scope w (int (length client_window)))"
  let ?x = "scored (withDefaults DefaultThresholds) (tally_of client_window) ?m"
  have m: "snap_QualitySampleCount ?m = 0" "snap_AuthFailureCount ?m = 0" "snap_InsufficientBalanceCount ?m = 0" "snap_TTFTP95 ?m = t95"
    "snap_DurationP95 ?m = d95" "snap_UpstreamErrorRate ?m = Fin 0"
    by (simp_all add: rated_def Let_def client_window_counts scopeSnapshot_def emptySnapshot_def)
  have "wf64 t95" "wf64 d95" using p by simp_all
  then have "wf_snapshot ?m" using wf64_int [of 0] unfolding wf_snapshot_def m by (simp add: in64_def)
  then have wf: "wf_snapshot ?x" by (simp only: scored_frame(3))
  have s: "pe_Score (EvaluatePenalty sample_strategy (candidateOf sample_upstream ?x)) = Fin 100"
    using EvaluatePenalty_score [OF sample_finite, of "candidateOf sample_upstream ?x"] wf penalty_points_zero [OF sample_finite] m(1)
    by (simp add: candidateOf_def scored_frame)
  have "snap_HealthState ?x = HealthUnknown" unfolding scored_frame(9) using m by (simp add: healthState_def withDefaults_fields DefaultThresholds_def)
  then have "fst (penaltyLifecycleGate (resolve sample_strategy) (candidateOf sample_upstream ?x)) = None"
    using m by (simp add: penaltyLifecycleGate_def candidateOf_def scored_frame sample_upstream_def Let_def)
  moreover have "th_EjectScore (rs_thresholds (resolve sample_strategy)) = th_EjectScore defaultThresholds"
    by (simp add: resolve_def sample_strategy_def defaultThresholds_def Let_def)
  ultimately have "\<not> pe_Eject (EvaluatePenalty sample_strategy (candidateOf sample_upstream ?x))"
    unfolding EvaluatePenalty_Eject s by (simp add: defaultThresholds_def)
  with A s that show thesis by blast
qed

lemma sample_stageCohort: "stageCohort [sample_member] x 10 = [''plan-1'']"
  by (simp add: stageCohort_def admittedPlanIDs_def sample_member_def sample_plan_def PublishedBinding_zero_def StableRecoveryCohortPlanIDs_def
      uniquePlanIDs_def Let_def wrap64_def)

text \<open>The sample count of a stage is the number of observations, not of quality samples, and the
  verdict does not look at the evidence of the evaluation: five failed requests of clients,
  which say nothing about the source, let a stage expand.\<close>

lemma client_failures_confirm_stage:
  "recoveryStageVerdict (\<lambda>i k. quiet 10) (Some sample_strategy) [sample_member] 10 10 client_store = (Inr (True, False), client_store)"
proof -
  note c = sample_stageCohort
  have match: "observationMatches (stageObservations sample_member 10) client_failure"
    by (simp add: observationMatches_def stageObservations_def client_failure_def sample_observation_def sample_member_def sample_plan_def
        sample_upstream_def sample_circuit_row_def QualityCircuitRuntime_zero_def timeValue_def IsZero_def)
  then have l: "ListChannelObservations None (stageObservations sample_member 10) (tables client_store) = Inr client_window"
    by (simp add: ListChannelObservations_def client_store_def limited_def client_window_def stageObservations_def numeral_eq_Suc)
  obtain snapshot where "AggregateScope (memberScope sample_member) Window5m client_window DefaultThresholds = Some snapshot"
    "\<not> pe_Eject (EvaluatePenalty sample_strategy (candidateOf sample_upstream snapshot))"
    "pe_Score (EvaluatePenalty sample_strategy (candidateOf sample_upstream snapshot)) = Fin 100"
    by (rule client_window_score)
  moreover have "int (length client_window) = 5" by (simp add: client_window_def)
  moreover have "mb_channel sample_member = sample_upstream" "pln_ID (mb_plan sample_member) = ''plan-1''"
    "bnd_State (mb_binding sample_member) = BindingActive" "qr_RecoveryStage (mb_runtime sample_member) = 10"
    "qr_State (mb_runtime sample_member) = CircuitClosed" "qr_RecoveryObserveAfter (mb_runtime sample_member) = Some 5"
    by (simp_all add: sample_member_def sample_plan_def)
  moreover have "stageMinSamples sample_strategy = 5" by (simp add: stageMinSamples_def sample_strategy_def)
  ultimately show ?thesis using l
    by (simp add: recoveryStageVerdict_def c strategyFor_def listObservations_def timeValue_def DefaultQualityCircuitPolicy_def Let_def wrap64_def)
qed

text \<open>Five good requests without recorded latencies score 100 too.\<close>

definition healthy_window :: "ChannelObservation list" where
  "healthy_window = replicate 5 untimed_success"

definition healthy_store :: SchedulerStore where
  "healthy_store = sample_scheduler_store\<lparr>tables := sample_health_store\<lparr>channelObs := healthy_window\<rparr>\<rparr>"

lemma penalty_points_perfect:
  assumes "finite_thresholds (rst_Thresholds s)"
  shows "penalty_points s n 0 0 0 = 100"
proof -
  let ?th = "rs_thresholds (resolve s)"
  obtain t d where R: "th_MaxTTFTP95MS ?th = Fin t" "0 < t" "wf64 (Fin t)" "th_MaxDurationP95MS ?th = Fin d" "0 < d" "wf64 (Fin d)"
    using resolved_thresholds [OF assms] by metis
  obtain g where g: "good_latency (Fin t) = Fin g" "0 \<le> g" using good_latency_Fin [OF R(3,2)] by auto
  obtain h where h: "good_latency (Fin d) = Fin h" "0 \<le> h" using good_latency_Fin [OF R(6,5)] by auto
  show ?thesis by (simp add: penalty_points_def Let_def R g h ratio_of_def deduction_def points_zero)
qed

lemma healthy_window_good: "good_evidence sample_strategy sample_member healthy_window"
proof -
  let ?m = "rated healthy_window (Fin 0) (Fin 0) (Fin 0) (Fin 0) (scopeSnapshot (memberScope sample_member) Window5m 5)"
  let ?x = "scored (withDefaults DefaultThresholds) (tally_of healthy_window) ?m"
  have A: "AggregateScope (memberScope sample_member) Window5m healthy_window DefaultThresholds = Some ?x"
    using AggregateScope_untimed [of healthy_window "memberScope sample_member" Window5m DefaultThresholds]
    by (simp add: healthy_window_def untimed_success_def list_all_iff)
  have n: "occurs qualityEligible healthy_window = 5" "occurs isUpstreamResponsibleFailure healthy_window = 0"
    "occurs (failed_with ErrorAuth) healthy_window = 0" "occurs (failed_with ErrorInsufficientBalance) healthy_window = 0"
    "occurs ob_Success healthy_window = 5" "occurs (failed_with ErrorRateLimit) healthy_window = 0"
    by (simp_all add: healthy_window_def untimed_success_def sample_observation_def qualityEligible_def failed_with_def
        isUpstreamResponsibleFailure_def numeral_eq_Suc)
  have q: "fdiv (float64_of_int 0) (float64_of_int 5) = Fin 0" using rate_between(1) [of 0 5] by simp
  have m: "snap_QualitySampleCount ?m = 5" "snap_AuthFailureCount ?m = 0" "snap_InsufficientBalanceCount ?m = 0" "snap_TTFTP95 ?m = Fin 0"
    "snap_DurationP95 ?m = Fin 0" "snap_UpstreamErrorRate ?m = Fin 0"
    by (simp_all add: rated_def Let_def n q)
  have "wf_snapshot ?m" using wf64_int [of 0] unfolding wf_snapshot_def m by (simp add: in64_def)
  then have wf: "wf_snapshot ?x" by (simp only: scored_frame(3))
  have f: "snap_TTFTP95 ?x = Fin 0" "snap_DurationP95 ?x = Fin 0" "snap_UpstreamErrorRate ?x = Fin 0"
    unfolding scored_eq Let_def using m by simp_all
  have s: "pe_Score (EvaluatePenalty sample_strategy (candidateOf sample_upstream ?x)) = Fin 100"
    using EvaluatePenalty_score [OF sample_finite, of "candidateOf sample_upstream ?x"] wf penalty_points_perfect [OF sample_finite] f
    by (simp add: candidateOf_def finiteUnit_def finiteNonNegative_def clamp_Fin)
  have "snap_HealthState ?x \<in> {HealthUnknown, HealthUnhealthy, HealthDegraded, HealthHealthy}"
    unfolding scored_frame by (simp add: healthState_def)
  then have "fst (penaltyLifecycleGate (resolve sample_strategy) (candidateOf sample_upstream ?x)) = None"
    using m by (auto simp: penaltyLifecycleGate_def candidateOf_def scored_frame sample_upstream_def Let_def)
  moreover have "th_EjectScore (rs_thresholds (resolve sample_strategy)) = th_EjectScore defaultThresholds"
    by (simp add: resolve_def sample_strategy_def defaultThresholds_def Let_def)
  ultimately have "\<not> pe_Eject (EvaluatePenalty sample_strategy (candidateOf sample_upstream ?x))"
    unfolding EvaluatePenalty_Eject s by (simp add: defaultThresholds_def)
  moreover have "stageMinSamples sample_strategy = 5" by (simp add: stageMinSamples_def sample_strategy_def)
  moreover have "mb_channel sample_member = sample_upstream" by (simp add: sample_member_def)
  ultimately show ?thesis using A s by (simp add: good_evidence_def) (simp add: healthy_window_def)
qed

lemma healthy_stage_confirmed: "stage_confirmed (\<lambda>k. quiet 10) (Some sample_strategy) 10 10 healthy_store sample_member"
proof -
  have "passive_since sample_member 10 untimed_success"
    by (simp add: passive_since_def untimed_success_def sample_observation_def sample_member_def sample_plan_def
        sample_upstream_def sample_circuit_row_def QualityCircuitRuntime_zero_def IsZero_def)
  then have "filter (passive_since sample_member 10) healthy_window = healthy_window" by (simp add: healthy_window_def)
  moreover have "channelObs (tables healthy_store) = healthy_window" by (simp add: healthy_store_def)
  moreover have "bnd_State (mb_binding sample_member) = BindingActive" "qr_RecoveryStage (mb_runtime sample_member) = 10"
    "qr_State (mb_runtime sample_member) = CircuitClosed" "qr_RecoveryObserveAfter (mb_runtime sample_member) = Some 5"
    by (simp_all add: sample_member_def)
  ultimately show ?thesis using healthy_window_good by (simp add: stage_confirmed_def strategyFor_def)
qed

theorem expansion_needs_whole_cohort_witness:
  "recoveryStageVerdict (\<lambda>i k. quiet 10) (Some sample_strategy) [sample_member] 10 10 healthy_store = (Inr (True, False), healthy_store) \<and>
   (\<nexists>g s'. recoveryStageVerdict (\<lambda>i k. quiet 10) (Some sample_strategy) [sample_member] 10 10 sample_scheduler_store = (Inr (True, g), s'))"
proof -
  have p: "pln_ID (mb_plan sample_member) = ''plan-1''" by (simp add: sample_member_def sample_plan_def)
  have "channelObs (tables sample_scheduler_store) = []"
    by (simp add: sample_scheduler_store_def sample_health_store_def)
  then have "\<not> stage_confirmed (\<lambda>k. quiet 10) (Some sample_strategy) 10 10 sample_scheduler_store sample_member"
    by (simp add: stage_confirmed_def strategyFor_def good_evidence_def) (simp add: stageMinSamples_def sample_strategy_def)
  with healthy_stage_confirmed show ?thesis
    using expansion_needs_whole_cohort [of "[sample_member]" "\<lambda>i k. quiet 10" "Some sample_strategy" 10 10]
    by (simp add: sample_stageCohort p strategyFor_def)
qed

theorem sweep_keeps_to_events_witness:
  "\<exists>tr. circuits_run [sample_circuit_row] tr (qualityCircuits (snd (RecoverDueCircuits rev (quiet 20) (\<lambda>i k. quiet 20) (quiet 20) (\<lambda>i k. quiet 20)
     (\<lambda>i j k l. quiet 20) \<lparr>orc_engine = (\<lambda>p d s. (Inl '''', s)), orc_prober = None, orc_strategy = None, orc_now = 20, orc_wall = 20,
       orc_sensitive = (\<lambda>m. False)\<rparr> 20 sample_scheduler_store)))"
proof -
  have q: "event_env (quiet 20)" "event_calls (\<lambda>k. quiet 20)" by (simp_all add: event_env_def event_calls_def)
  have "circuits_ok (qualityCircuits sample_scheduler_store)"
    by (simp add: sample_scheduler_store_def circuits_ok_def circuit_row_ok_def validQualityCircuitRuntime_def validRecoveryStage_def sample_circuit_row_def
        QualityCircuitRuntime_zero_def in64_def)
  from sweep_keeps_to_events [OF q(1) q(2) q(1) q(2) q(2) _ this] show ?thesis
    by (simp add: event_engine_def sample_scheduler_store_def)
qed

text \<open>A circuit that an operator gives back: the request, then the completion.\<close>

lemma sample_manual_run:
  obtains cs' rt' where "circuits_run [sample_circuit_row]
      [((''plan-1'', ''c1''), RowManual 20 (plainText ''note'')), ((''plan-1'', ''c1''), RowManualClose 21)] cs'"
    "find_circuit cs' (''plan-1'', ''c1'') = Some rt'" "qr_State rt' = CircuitClosed"
proof -
  let ?k = "(''plan-1'', ''c1'')" and ?r = sample_circuit_row
  let ?q = "manualPendingRow 20 (plainText ''note'') ?r"
  let ?p = "?q\<lparr>qr_CreatedAt := 0, qr_UpdatedAt := 20, qr_Version := 5\<rparr>"
  let ?c = "(manualClosedRow 21 ?p)\<lparr>qr_CreatedAt := 0, qr_UpdatedAt := 21, qr_Version := 6\<rparr>"
  note rows = manualPendingRow_def manualClosedRow_def sample_circuit_row_def QualityCircuitRuntime_zero_def
  have valid: "validQualityCircuitRuntime ?q 4" "validQualityCircuitRuntime (manualClosedRow 21 ?p) 5"
    by (simp_all add: validQualityCircuitRuntime_def validRecoveryStage_def rows)
  have key: "circuit_key ?r = ?k" "circuit_key ?q = ?k" "circuit_key ?p = ?k" "circuit_key (manualClosedRow 21 ?p) = ?k"
    by (simp_all add: circuit_key_def rows)
  have ver: "qr_Version ?r = 4" "qr_CreatedAt ?r = 0" "qr_Version ?p = 5" "qr_CreatedAt ?p = 0" by (simp_all add: rows)
  have "UpsertQualityCircuitRuntime 20 None ?q (qr_Version ?r) [?r] = (Inr ?p, [?p])"
    using valid(1) key(1,2) ver(1,2) by (simp add: UpsertQualityCircuitRuntime_def Let_def wrap64_def)
  moreover have "after_event (RowManual 20 (plainText ''note'')) ?r = Some ?q"
    by (simp add: guarded_def qualityCircuitBlocksScheduling_def sample_circuit_row_def QualityCircuitRuntime_zero_def)
  ultimately have 1: "circuits_run [?r] ([] @ [(?k, RowManual 20 (plainText ''note''))]) [?p]"
    using run_event [OF run_none] key(1) by simp
  have "UpsertQualityCircuitRuntime 21 None (manualClosedRow 21 ?p) (qr_Version ?p) [?p] = (Inr ?c, [?c])"
    using valid(2) key(3,4) ver(3,4) unfolding UpsertQualityCircuitRuntime_def by (simp add: Let_def wrap64_def del: circuit_key_stored)
  moreover have "after_event (RowManualClose 21) ?p = Some (manualClosedRow 21 ?p)"
    by (simp add: guarded_def manualReason_def manual_prefix_def manualPendingRow_def)
  ultimately have "circuits_run [?r] (([] @ [(?k, RowManual 20 (plainText ''note''))]) @ [(?k, RowManualClose 21)]) [?c]"
    using run_event [OF 1] key(3) by simp
  moreover have "find_circuit [?c] ?k = Some ?c" "qr_State ?c = CircuitClosed"
    by (simp_all add: circuit_key_def manualPendingRow_def manualClosedRow_def sample_circuit_row_def QualityCircuitRuntime_zero_def)
  ultimately show thesis using that by simp
qed

theorem traffic_returns_on_evidence_witness:
  "isolated sample_circuit_row \<and> (\<exists>tr cs' rt'. circuits_run [sample_circuit_row] tr cs' \<and> find_circuit cs' (''plan-1'', ''c1'') = Some rt' \<and>
     qr_State rt' = CircuitClosed \<and> (proven (events_of (''plan-1'', ''c1'') tr) \<or> requested (events_of (''plan-1'', ''c1'') tr)))"
proof -
  have i: "isolated sample_circuit_row" "find_circuit [sample_circuit_row] (''plan-1'', ''c1'') = Some sample_circuit_row"
    by (simp_all add: isolated_def circuit_key_def sample_circuit_row_def QualityCircuitRuntime_zero_def)
  obtain cs' rt' where r: "circuits_run [sample_circuit_row]
      [((''plan-1'', ''c1''), RowManual 20 (plainText ''note'')), ((''plan-1'', ''c1''), RowManualClose 21)] cs'"
    "find_circuit cs' (''plan-1'', ''c1'') = Some rt'" "qr_State rt' = CircuitClosed" by (rule sample_manual_run)
  show ?thesis using i(1) r traffic_returns_on_evidence [OF r(1) i(2,1) r(2,3)] by blast
qed

end
