(* ===== verification/Decision_Store.thy ===== *)
theory Decision_Store
  imports Circuit_Scheduler
begin

text \<open>
  Route plans and auto-switch decisions in the store: the plan and decision operations of
  \<open>memory_upstream.go\<close> with the fences of \<open>connector_plan_fence.go\<close>, \<open>auto_switch_supersede.go\<close>
  and \<open>auto_switch_lease.go\<close>. A decision that is being applied holds a lease with a version;
  whoever changes a plan raises its scheduling generation, which ends the leases of all
  decisions made before.

  An operation takes \<open>ctx.Err()\<close> and the clock \<open>s.now()\<close>, which it reads at most once.
\<close>

section \<open>Fences\<close>

fun AutoSwitchStatus_IsActive :: "AutoSwitchStatus \<Rightarrow> bool" where
  "AutoSwitchStatus_IsActive AutoSwitchProposed = True"
| "AutoSwitchStatus_IsActive AutoSwitchApproved = True"
| "AutoSwitchStatus_IsActive AutoSwitchApplying = True"
| "AutoSwitchStatus_IsActive AutoSwitchObserving = True"
| "AutoSwitchStatus_IsActive _ = False"

definition autoSwitchSupersededReason :: "int64 \<Rightarrow> string" where
  "autoSwitchSupersededReason generation = ''superseded by route-plan scheduling generation '' @ FormatInt generation"

definition supersedeAutoSwitchDecision :: "AutoSwitchDecision \<Rightarrow> int64 \<Rightarrow> time \<Rightarrow> AutoSwitchDecision" where
  "supersedeAutoSwitchDecision d generation now =
     (let reason = autoSwitchSupersededReason generation
      in d\<lparr>dec_Status := AutoSwitchFailed, dec_Error := reason, dec_ObservationNote := reason, dec_LeaseUntil := None,
           dec_ResolvedAt := Some now, dec_UpdatedAt := now\<rparr>)"

definition supersedeActiveAutoSwitchDecisions ::
  "string \<Rightarrow> string \<Rightarrow> int64 \<Rightarrow> time \<Rightarrow> AutoSwitchDecision list \<Rightarrow> AutoSwitchDecision list" where
  "supersedeActiveAutoSwitchDecisions planID keepDecisionID generation now =
     map (\<lambda>d. if dec_PlanID d \<noteq> planID \<or> dec_ID d = keepDecisionID \<or> \<not> AutoSwitchStatus_IsActive (dec_Status d) \<or>
                  generation \<le> dec_SchedulingGeneration d
              then d else supersedeAutoSwitchDecision d generation now)"

definition supersedeConnectorTask :: "time \<Rightarrow> ConnectorTask \<Rightarrow> ConnectorTask" where
  "supersedeConnectorTask now t =
     (if ctk_PlanID t = '''' \<and> ctk_ExecutionScope t = '''' \<or>
         ctk_Status t \<noteq> ConnectorTaskPending \<and> ctk_Status t \<noteq> ConnectorTaskLeased then t
      else t\<lparr>ctk_Status := ConnectorTaskFailed, ctk_Result := '''', ctk_Error := \<lparr>cte_Code = ''scheduling_fence_stale'', cte_Retryable = False\<rparr>,
             ctk_LeaseOwner := '''', ctk_LeaseNonce := '''', ctk_LeaseUntil := None, ctk_UpdatedAt := now\<rparr>)"

definition supersedeConnectorTasksForPlanLocked :: "string \<Rightarrow> int64 \<Rightarrow> time \<Rightarrow> ConnectorTask list \<Rightarrow> ConnectorTask list" where
  "supersedeConnectorTasksForPlanLocked planID generation now ts =
     (if planID = '''' \<or> generation \<le> 0 then ts
      else map (\<lambda>t. if ctk_PlanID t = planID \<and> ctk_SchedulingGeneration t < generation then supersedeConnectorTask now t else t) ts)"

text \<open>The plan at \<open>routePlanIndex\<close>, and its replacement.\<close>

definition routePlanIndex :: "string \<Rightarrow> SchedulerStore \<Rightarrow> RoutePlan option" where
  "routePlanIndex i s = find (\<lambda>p. pln_ID p = i) (routePlans s)"

definition setPlan :: "RoutePlan \<Rightarrow> SchedulerStore \<Rightarrow> SchedulerStore" where
  "setPlan p s = s\<lparr>routePlans := update_first (\<lambda>x. pln_ID x = pln_ID p) (\<lambda>_. p) (routePlans s)\<rparr>"

definition routePlanGeneration :: "string \<Rightarrow> SchedulerStore \<Rightarrow> int64" where
  "routePlanGeneration i s = (case routePlanIndex i s of None \<Rightarrow> -1 | Some p \<Rightarrow> pln_SchedulingGeneration p)"

definition nextGeneration :: "RoutePlan \<Rightarrow> time \<Rightarrow> RoutePlan" where
  "nextGeneration p now = p\<lparr>pln_SchedulingGeneration := wrap64 (pln_SchedulingGeneration p + 1), pln_UpdatedAt := now\<rparr>"

definition advanceRoutePlanGenerationLocked :: "RoutePlan \<Rightarrow> time \<Rightarrow> string \<Rightarrow> SchedulerStore \<Rightarrow> SchedulerStore" where
  "advanceRoutePlanGenerationLocked p now keepDecisionID s =
     (let p = nextGeneration p now; s = setPlan p s
      in s\<lparr>autoSwitchDecs := supersedeActiveAutoSwitchDecisions (pln_ID p) keepDecisionID (pln_SchedulingGeneration p) now (autoSwitchDecs s),
           connectorTasks := supersedeConnectorTasksForPlanLocked (pln_ID p) (pln_SchedulingGeneration p) now (connectorTasks s)\<rparr>)"

definition routePlanHasExecutingConnectorTaskLocked :: "string \<Rightarrow> SchedulerStore \<Rightarrow> bool" where
  "routePlanHasExecutingConnectorTaskLocked planID s \<longleftrightarrow>
     planID \<noteq> '''' \<and> list_ex (\<lambda>t. ctk_PlanID t = planID \<and> ctk_Status t = ConnectorTaskExecuting) (connectorTasks s)"

definition autoSwitchLeaseDuration :: "time option \<Rightarrow> time \<Rightarrow> duration" where
  "autoSwitchLeaseDuration leaseUntil callerNow =
     (case leaseUntil of None \<Rightarrow> 0 | Some t \<Rightarrow> if IsZero callerNow then 0 else time_Sub t callerNow)"

definition autoSwitchLeaseMicros :: "duration \<Rightarrow> orch_error + int64" where
  "autoSwitchLeaseMicros d =
     (if d \<le> 0 then Inl (OrchLeaseDuration d)
      else let micros = d div 1000 in Inr (if micros = 0 then 1 else micros))"

section \<open>Route plans\<close>

definition CreateRoutePlan :: "ctx \<Rightarrow> time \<Rightarrow> RoutePlan \<Rightarrow> SchedulerStore \<Rightarrow> (store_error + RoutePlan) \<times> SchedulerStore" where
  "CreateRoutePlan c now input s =
     (case c of Some e \<Rightarrow> (Inl (ErrContext e), s) | None \<Rightarrow>
      let scoped = (pln_InstanceID input \<noteq> '''' \<and> pln_PoolID input \<noteq> '''') in
      if scoped \<and> list_ex (\<lambda>x. pln_InstanceID x = pln_InstanceID input \<and> pln_PoolID x = pln_PoolID input) (routePlans s)
      then (Inl ErrDuplicate, s)
      else if scoped \<and> list_ex (\<lambda>q. pool_ID q = pln_PoolID input \<and> pool_Status q \<noteq> UpstreamPoolActive) (upstreamPools (base (tables s)))
      then (Inl ErrConflict, s)
      else let (i, b) = (if pln_ID input = '''' then nextID ''plan'' (base (tables s)) else (pln_ID input, base (tables s)));
               status = (if pln_Status input = RoutePlanStatusOther '''' then RoutePlanDraft else pln_Status input);
               p = input\<lparr>pln_ID := i, pln_Status := status, pln_CreatedAt := now, pln_UpdatedAt := now\<rparr>
           in (Inr p, s\<lparr>tables := (tables s)\<lparr>base := b\<rparr>, routePlans := routePlans s @ [p]\<rparr>))"

definition ListRoutePlans :: "ctx \<Rightarrow> int64 \<Rightarrow> SchedulerStore \<Rightarrow> store_error + RoutePlan list" where
  "ListRoutePlans c userID s =
     (case c of Some e \<Rightarrow> Inl (ErrContext e) | None \<Rightarrow> Inr (filter (\<lambda>p. userID = 0 \<or> pln_UserID p = userID) (routePlans s)))"

definition effectiveRoutePlanRollout :: "RolloutMode \<Rightarrow> RolloutMode" where
  "effectiveRoutePlanRollout v = (if v = RolloutModeOther '''' then RolloutImmediate else v)"

definition routePlanDesiredStateEqual :: "RoutePlan \<Rightarrow> RoutePlan \<Rightarrow> bool" where
  "routePlanDesiredStateEqual l r \<longleftrightarrow>
     effectiveRoutePlanRollout (pln_Rollout l) = effectiveRoutePlanRollout (pln_Rollout r) \<and> pln_Tier l = pln_Tier r \<and>
     pln_Status l = pln_Status r \<and> pln_MaxChannels l = pln_MaxChannels r \<and> pln_RolloutBatchSize l = pln_RolloutBatchSize r \<and>
     pln_RolloutCanaryCount l = pln_RolloutCanaryCount r \<and> length (pln_Labels l) = length (pln_Labels r) \<and>
     list_all (\<lambda>(k, v). (case map_of (pln_Labels r) k of None \<Rightarrow> '''' | Some w \<Rightarrow> w) = v) (pln_Labels l)"

definition UpdateRoutePlan :: "ctx \<Rightarrow> time \<Rightarrow> RoutePlan \<Rightarrow> SchedulerStore \<Rightarrow> (store_error + RoutePlan) \<times> SchedulerStore" where
  "UpdateRoutePlan c now input s =
     (case c of Some e \<Rightarrow> (Inl (ErrContext e), s) | None \<Rightarrow>
      case routePlanIndex (pln_ID input) s of None \<Rightarrow> (Inl ErrNotFound, s) | Some current \<Rightarrow>
      if pln_SchedulingGeneration input \<noteq> pln_SchedulingGeneration current \<or> pln_UserID input \<noteq> pln_UserID current \<or>
         pln_InstanceID input \<noteq> pln_InstanceID current \<or> pln_PoolID input \<noteq> pln_PoolID current then (Inl ErrConflict, s)
      else if routePlanDesiredStateEqual current input then (Inr current, s)
      else if routePlanHasExecutingConnectorTaskLocked (pln_ID current) s then (Inl ErrConflict, s)
      else let p = input\<lparr>pln_CreatedAt := pln_CreatedAt current, pln_SchedulingGeneration := pln_SchedulingGeneration current, pln_UpdatedAt := now\<rparr>
           in (Inr (nextGeneration p now), advanceRoutePlanGenerationLocked p now '''' (setPlan p s)))"

definition CompleteRoutePlanPublish :: "ctx \<Rightarrow> time \<Rightarrow> string \<Rightarrow> int64 \<Rightarrow> SchedulerStore \<Rightarrow> (store_error + RoutePlan) \<times> SchedulerStore" where
  "CompleteRoutePlanPublish c now i expectedSchedulingGeneration s =
     (case c of Some e \<Rightarrow> (Inl (ErrContext e), s) | None \<Rightarrow>
      if i = '''' \<or> expectedSchedulingGeneration \<le> 0 then (Inl ErrInvalid, s)
      else case routePlanIndex i s of None \<Rightarrow> (Inl ErrNotFound, s) | Some p \<Rightarrow>
      if pln_Status p \<noteq> RoutePlanDraft \<or> pln_SchedulingGeneration p \<noteq> expectedSchedulingGeneration then (Inl ErrConflict, s)
      else let p = p\<lparr>pln_Status := RoutePlanPublished, pln_UpdatedAt := now\<rparr> in (Inr p, setPlan p s))"

definition routePlanStatusAllowed :: "RoutePlanStatus \<Rightarrow> RoutePlanStatus list \<Rightarrow> bool" where
  "routePlanStatusAllowed status allowed \<longleftrightarrow> allowed = [] \<or> status \<in> set allowed"

definition ClaimRoutePlanScheduling ::
  "ctx \<Rightarrow> time \<Rightarrow> string \<Rightarrow> RoutePlanStatus list \<Rightarrow> SchedulerStore \<Rightarrow> (store_error + RoutePlan) \<times> SchedulerStore" where
  "ClaimRoutePlanScheduling c now i allowedStatuses s =
     (case c of Some e \<Rightarrow> (Inl (ErrContext e), s) | None \<Rightarrow>
      case routePlanIndex i s of None \<Rightarrow> (Inl ErrNotFound, s) | Some p \<Rightarrow>
      if \<not> routePlanStatusAllowed (pln_Status p) allowedStatuses then (Inl ErrConflict, s)
      else if routePlanHasExecutingConnectorTaskLocked (pln_ID p) s then (Inl ErrConflict, s)
      else (Inr (nextGeneration p now), advanceRoutePlanGenerationLocked p now '''' s))"

definition TransitionRoutePlanScheduling ::
  "ctx \<Rightarrow> time \<Rightarrow> string \<Rightarrow> RoutePlanStatus \<Rightarrow> RoutePlanStatus \<Rightarrow> SchedulerStore \<Rightarrow> (store_error + RoutePlan) \<times> SchedulerStore" where
  "TransitionRoutePlanScheduling c now i expected target s =
     (case c of Some e \<Rightarrow> (Inl (ErrContext e), s) | None \<Rightarrow>
      case routePlanIndex i s of None \<Rightarrow> (Inl ErrNotFound, s) | Some p \<Rightarrow>
      if pln_Status p \<noteq> expected then (Inl ErrConflict, s)
      else if routePlanHasExecutingConnectorTaskLocked (pln_ID p) s then (Inl ErrConflict, s)
      else let p = p\<lparr>pln_Status := target\<rparr>
           in (Inr (nextGeneration p now), advanceRoutePlanGenerationLocked p now '''' (setPlan p s)))"


section \<open>Decisions\<close>

abbreviation find_decision :: "SchedulerStore \<Rightarrow> string \<Rightarrow> AutoSwitchDecision option" where
  "find_decision s i \<equiv> find (\<lambda>d. dec_ID d = i) (autoSwitchDecs s)"

text \<open>Replace the row that was found.\<close>

definition setDecision :: "string \<Rightarrow> AutoSwitchDecision \<Rightarrow> SchedulerStore \<Rightarrow> SchedulerStore" where
  "setDecision i d s = s\<lparr>autoSwitchDecs := update_first (\<lambda>x. dec_ID x = i) (\<lambda>_. d) (autoSwitchDecs s)\<rparr>"

definition CreateAutoSwitchDecision ::
  "ctx \<Rightarrow> time \<Rightarrow> AutoSwitchDecision \<Rightarrow> SchedulerStore \<Rightarrow> (store_error + AutoSwitchDecision) \<times> SchedulerStore" where
  "CreateAutoSwitchDecision c now input s =
     (case c of Some e \<Rightarrow> (Inl (ErrContext e), s) | None \<Rightarrow>
      if AutoSwitchStatus_IsActive (dec_Status input) \<and>
         list_ex (\<lambda>x. dec_PlanID x = dec_PlanID input \<and> dec_Fingerprint input \<noteq> '''' \<and> dec_Fingerprint x = dec_Fingerprint input \<and>
           AutoSwitchStatus_IsActive (dec_Status x)) (autoSwitchDecs s) then (Inl ErrDuplicate, s)
      else let (i, b) = (if dec_ID input = '''' then nextID ''aswitch'' (base (tables s)) else (dec_ID input, base (tables s)));
               created = (if IsZero (dec_CreatedAt input) then now else dec_CreatedAt input);
               generation = (if dec_SchedulingGeneration input = 0
                 then (case routePlanIndex (dec_PlanID input) s of None \<Rightarrow> 0 | Some p \<Rightarrow> pln_SchedulingGeneration p)
                 else dec_SchedulingGeneration input);
               d = input\<lparr>dec_ID := i, dec_CreatedAt := created, dec_SchedulingGeneration := generation, dec_UpdatedAt := now\<rparr>
           in (Inr d, s\<lparr>tables := (tables s)\<lparr>base := b\<rparr>, autoSwitchDecs := autoSwitchDecs s @ [d]\<rparr>))"

text \<open>The claims. \<open>Inr (d, owns)\<close> is the decision and whether the caller owns it.\<close>

definition ClaimAutoSwitchDecision ::
  "ctx \<Rightarrow> time \<Rightarrow> AutoSwitchDecision \<Rightarrow> SchedulerStore \<Rightarrow> (orch_error + AutoSwitchDecision \<times> bool) \<times> SchedulerStore" where
  "ClaimAutoSwitchDecision c now input s =
     (case c of Some e \<Rightarrow> (Inl (OrchStore (ErrContext e)), s) | None \<Rightarrow>
      let leaseDuration = autoSwitchLeaseDuration (dec_LeaseUntil input) (dec_CreatedAt input) in
      case autoSwitchLeaseMicros leaseDuration of Inl e \<Rightarrow> (Inl e, s) | Inr _ \<Rightarrow>
      case routePlanIndex (dec_PlanID input) s of None \<Rightarrow> (Inl (OrchStore ErrNotFound), s) | Some p \<Rightarrow>
      if pln_Status p \<noteq> RoutePlanPublished then (Inl (OrchStore ErrConflict), s)
      else case find (\<lambda>x. dec_PlanID x = dec_PlanID input \<and> dec_Fingerprint x = dec_Fingerprint input \<and>
               AutoSwitchStatus_IsActive (dec_Status x) \<and> dec_SchedulingGeneration x = pln_SchedulingGeneration p) (rev (autoSwitchDecs s)) of
        Some existing \<Rightarrow> (Inr (existing, False), s)
      | None \<Rightarrow>
      if routePlanHasExecutingConnectorTaskLocked (dec_PlanID input) s then (Inl (OrchStore ErrConflict), s)
      else let s = advanceRoutePlanGenerationLocked p now '''' s;
               (i, b) = (if dec_ID input = '''' then nextID ''aswitch'' (base (tables s)) else (dec_ID input, base (tables s)));
               created = (if IsZero (dec_CreatedAt input) then now else dec_CreatedAt input);
               d = input\<lparr>dec_ID := i, dec_Status := AutoSwitchApplying, dec_LeaseVersion := 1,
                     dec_SchedulingGeneration := pln_SchedulingGeneration (nextGeneration p now), dec_CreatedAt := created,
                     dec_UpdatedAt := now, dec_LeaseUntil := Some (now + leaseDuration)\<rparr>
           in (Inr (d, True), s\<lparr>tables := (tables s)\<lparr>base := b\<rparr>, autoSwitchDecs := autoSwitchDecs s @ [d]\<rparr>))"

text \<open>What the claims of an existing decision have in common: the decision takes a new lease in the next
  generation of its plan.\<close>

definition leased :: "RoutePlan \<Rightarrow> time \<Rightarrow> duration \<Rightarrow> AutoSwitchDecision \<Rightarrow> AutoSwitchDecision" where
  "leased p now leaseDuration d = d\<lparr>dec_Status := AutoSwitchApplying, dec_UpdatedAt := now, dec_LeaseVersion := wrap64 (dec_LeaseVersion d + 1),
     dec_SchedulingGeneration := pln_SchedulingGeneration (nextGeneration p now), dec_LeaseUntil := Some (now + leaseDuration)\<rparr>"

definition takeLease :: "RoutePlan \<Rightarrow> time \<Rightarrow> duration \<Rightarrow> AutoSwitchDecision \<Rightarrow> SchedulerStore \<Rightarrow> SchedulerStore" where
  "takeLease p now leaseDuration d s =
     setDecision (dec_ID d) (leased p now leaseDuration d) (advanceRoutePlanGenerationLocked p now (dec_ID d) s)"

definition ClaimApprovedAutoSwitchDecision ::
  "ctx \<Rightarrow> time \<Rightarrow> string \<Rightarrow> duration \<Rightarrow> SchedulerStore \<Rightarrow> (orch_error + AutoSwitchDecision \<times> bool) \<times> SchedulerStore" where
  "ClaimApprovedAutoSwitchDecision c now i leaseDuration s =
     (case c of Some e \<Rightarrow> (Inl (OrchStore (ErrContext e)), s) | None \<Rightarrow>
      case autoSwitchLeaseMicros leaseDuration of Inl e \<Rightarrow> (Inl e, s) | Inr _ \<Rightarrow>
      case find_decision s i of None \<Rightarrow> (Inl (OrchStore ErrNotFound), s) | Some current \<Rightarrow>
      if dec_Status current \<noteq> AutoSwitchApproved then (Inr (current, False), s)
      else case routePlanIndex (dec_PlanID current) s of None \<Rightarrow> (Inl (OrchStore ErrNotFound), s) | Some p \<Rightarrow>
      if pln_Status p \<noteq> RoutePlanPublished \<or> pln_SchedulingGeneration p \<noteq> dec_SchedulingGeneration current
      then (Inl (OrchStore ErrConflict), s)
      else if routePlanHasExecutingConnectorTaskLocked (dec_PlanID current) s then (Inl (OrchStore ErrConflict), s)
      else (Inr (leased p now leaseDuration current, True), takeLease p now leaseDuration current s))"

definition ClaimAutoSwitchObservation ::
  "ctx \<Rightarrow> time \<Rightarrow> AutoSwitchDecision \<Rightarrow> duration \<Rightarrow> SchedulerStore \<Rightarrow> (orch_error + AutoSwitchDecision) \<times> SchedulerStore" where
  "ClaimAutoSwitchObservation c now input leaseDuration s =
     (case c of Some e \<Rightarrow> (Inl (OrchStore (ErrContext e)), s) | None \<Rightarrow>
      case autoSwitchLeaseMicros leaseDuration of Inl e \<Rightarrow> (Inl e, s) | Inr _ \<Rightarrow>
      case find_decision s (dec_ID input) of None \<Rightarrow> (Inl (OrchStore ErrNotFound), s) | Some current \<Rightarrow>
      if dec_Status current \<noteq> AutoSwitchObserving then (Inl (OrchStore ErrConflict), s)
      else case routePlanIndex (dec_PlanID current) s of None \<Rightarrow> (Inl (OrchStore ErrNotFound), s) | Some p \<Rightarrow>
      if pln_Status p \<noteq> RoutePlanPublished \<or> pln_SchedulingGeneration p \<noteq> dec_SchedulingGeneration current
      then (Inl (OrchStore ErrConflict), s)
      else if routePlanHasExecutingConnectorTaskLocked (dec_PlanID current) s then (Inl (OrchStore ErrConflict), s)
      else (Inr (leased p now leaseDuration current), takeLease p now leaseDuration current s))"

definition ClaimExpiredAutoSwitchDecision ::
  "ctx \<Rightarrow> time \<Rightarrow> string \<Rightarrow> time \<Rightarrow> time \<Rightarrow> time \<Rightarrow> SchedulerStore \<Rightarrow> (orch_error + AutoSwitchDecision \<times> bool) \<times> SchedulerStore" where
  "ClaimExpiredAutoSwitchDecision c storeNow i now legacyStaleBefore leaseUntil s =
     (case c of Some e \<Rightarrow> (Inl (OrchStore (ErrContext e)), s) | None \<Rightarrow>
      let leaseDuration = time_Sub leaseUntil now; legacyStaleAge = time_Sub now legacyStaleBefore in
      case autoSwitchLeaseMicros leaseDuration of Inl e \<Rightarrow> (Inl e, s) | Inr _ \<Rightarrow>
      if legacyStaleAge < 0 then (Inl (OrchStore ErrConflict), s)
      else case find_decision s i of None \<Rightarrow> (Inl (OrchStore ErrNotFound), s) | Some current \<Rightarrow>
      if dec_Status current \<noteq> AutoSwitchApplying then (Inr (current, False), s)
      else case routePlanIndex (dec_PlanID current) s of None \<Rightarrow> (Inl (OrchStore ErrNotFound), s) | Some p \<Rightarrow>
      if \<not> routePlanStatusAllowed (pln_Status p) [RoutePlanPublished, RoutePlanSuspended] \<or>
         pln_SchedulingGeneration p \<noteq> dec_SchedulingGeneration current then (Inr (current, False), s)
      else if \<not> (case dec_LeaseUntil current of Some u \<Rightarrow> u \<le> storeNow | None \<Rightarrow> dec_UpdatedAt current \<le> storeNow - legacyStaleAge)
      then (Inr (current, False), s)
      else if routePlanHasExecutingConnectorTaskLocked (dec_PlanID current) s then (Inl (OrchStore ErrConflict), s)
      else (Inr (leased p storeNow leaseDuration current, True), takeLease p storeNow leaseDuration current s))"

text \<open>The lease of a decision is alive while it is being applied, under the version, before the deadline.\<close>

definition leaseAlive :: "time \<Rightarrow> int64 \<Rightarrow> AutoSwitchDecision \<Rightarrow> bool" where
  "leaseAlive now v d \<longleftrightarrow> dec_Status d = AutoSwitchApplying \<and> dec_LeaseVersion d = v \<and>
     (case dec_LeaseUntil d of None \<Rightarrow> False | Some u \<Rightarrow> now < u)"

definition RenewAutoSwitchDecisionLease ::
  "ctx \<Rightarrow> time \<Rightarrow> string \<Rightarrow> int64 \<Rightarrow> duration \<Rightarrow> SchedulerStore \<Rightarrow> (orch_error + AutoSwitchDecision) \<times> SchedulerStore" where
  "RenewAutoSwitchDecisionLease c now i leaseVersion leaseDuration s =
     (case c of Some e \<Rightarrow> (Inl (OrchStore (ErrContext e)), s) | None \<Rightarrow>
      case autoSwitchLeaseMicros leaseDuration of Inl e \<Rightarrow> (Inl e, s) | Inr _ \<Rightarrow>
      case find_decision s i of None \<Rightarrow> (Inl (OrchStore ErrNotFound), s) | Some current \<Rightarrow>
      if \<not> leaseAlive now leaseVersion current then (Inl (OrchStore ErrConflict), s)
      else case routePlanIndex (dec_PlanID current) s of None \<Rightarrow> (Inl (OrchStore ErrConflict), s) | Some p \<Rightarrow>
      if pln_SchedulingGeneration p \<noteq> dec_SchedulingGeneration current then (Inl (OrchStore ErrConflict), s)
      else let d = current\<lparr>dec_LeaseUntil := Some (now + leaseDuration), dec_UpdatedAt := now\<rparr>
           in (Inr d, setDecision i d s))"

definition ReleaseAutoSwitchDecisionLease ::
  "ctx \<Rightarrow> time \<Rightarrow> string \<Rightarrow> int64 \<Rightarrow> SchedulerStore \<Rightarrow> (store_error + unit) \<times> SchedulerStore" where
  "ReleaseAutoSwitchDecisionLease c now i leaseVersion s =
     (case c of Some e \<Rightarrow> (Inl (ErrContext e), s) | None \<Rightarrow>
      case find_decision s i of None \<Rightarrow> (Inl ErrNotFound, s) | Some current \<Rightarrow>
      if \<not> leaseAlive now leaseVersion current then (Inl ErrConflict, s)
      else (Inr (), setDecision i (current\<lparr>dec_LeaseUntil := Some now, dec_UpdatedAt := now\<rparr>) s))"

definition GetAutoSwitchDecision :: "ctx \<Rightarrow> string \<Rightarrow> SchedulerStore \<Rightarrow> store_error + AutoSwitchDecision" where
  "GetAutoSwitchDecision c i s =
     (case c of Some e \<Rightarrow> Inl (ErrContext e) | None \<Rightarrow>
      case find_decision s i of None \<Rightarrow> Inl ErrNotFound | Some d \<Rightarrow> Inr d)"

definition TransitionAutoSwitchDecision ::
  "ctx \<Rightarrow> time \<Rightarrow> AutoSwitchDecision \<Rightarrow> AutoSwitchStatus \<Rightarrow> SchedulerStore \<Rightarrow> (store_error + AutoSwitchDecision) \<times> SchedulerStore" where
  "TransitionAutoSwitchDecision c now input expected s =
     (case c of Some e \<Rightarrow> (Inl (ErrContext e), s) | None \<Rightarrow>
      if dec_Status input = AutoSwitchApplying then (Inl ErrConflict, s)
      else case find_decision s (dec_ID input) of None \<Rightarrow> (Inl ErrNotFound, s) | Some current \<Rightarrow>
      if dec_Status current \<noteq> expected \<or>
         expected = AutoSwitchApplying \<and> (\<not> leaseAlive now (dec_LeaseVersion input) current \<or>
           routePlanGeneration (dec_PlanID current) s \<noteq> dec_SchedulingGeneration current) then (Inl ErrConflict, s)
      else let d = input\<lparr>dec_CreatedAt := dec_CreatedAt current, dec_LeaseVersion := dec_LeaseVersion current,
                 dec_SchedulingGeneration := dec_SchedulingGeneration current, dec_UpdatedAt := now\<rparr>
           in (Inr d, setDecision (dec_ID input) d s))"

definition FindActiveAutoSwitchDecisionByFingerprint :: "ctx \<Rightarrow> string \<Rightarrow> string \<Rightarrow> SchedulerStore \<Rightarrow> store_error + AutoSwitchDecision" where
  "FindActiveAutoSwitchDecisionByFingerprint c planID fingerprint s =
     (case c of Some e \<Rightarrow> Inl (ErrContext e) | None \<Rightarrow>
      case routePlanIndex planID s of None \<Rightarrow> Inl ErrNotFound | Some p \<Rightarrow>
      case find (\<lambda>d. dec_PlanID d = planID \<and> dec_Fingerprint d = fingerprint \<and> AutoSwitchStatus_IsActive (dec_Status d) \<and>
             dec_SchedulingGeneration d = pln_SchedulingGeneration p) (rev (autoSwitchDecs s)) of
        None \<Rightarrow> Inl ErrNotFound | Some d \<Rightarrow> Inr d)"


section \<open>Moves of the leases\<close>

text \<open>The operations, seen on the two tables the leases live in: plans \<open>ps\<close> and decisions \<open>ds\<close>. The
  fence \<open>fenced\<close> raises the generation of a plan and ends the active decisions made before.\<close>

abbreviation find_plan :: "RoutePlan list \<Rightarrow> string \<Rightarrow> RoutePlan option" where
  "find_plan ps i \<equiv> find (\<lambda>p. pln_ID p = i) ps"

abbreviation find_dec :: "AutoSwitchDecision list \<Rightarrow> string \<Rightarrow> AutoSwitchDecision option" where
  "find_dec ds i \<equiv> find (\<lambda>d. dec_ID d = i) ds"

definition put :: "('a \<Rightarrow> string) \<Rightarrow> 'a \<Rightarrow> 'a list \<Rightarrow> 'a list" where
  "put k y = update_first (\<lambda>x. k x = k y) (\<lambda>_. y)"

definition fence :: "RoutePlan \<Rightarrow> string \<Rightarrow> time \<Rightarrow> AutoSwitchDecision list \<Rightarrow> AutoSwitchDecision list" where
  "fence p keep now = supersedeActiveAutoSwitchDecisions (pln_ID p) keep (pln_SchedulingGeneration (nextGeneration p now)) now"

inductive lease_move ::
  "time \<Rightarrow> RoutePlan list \<Rightarrow> AutoSwitchDecision list \<Rightarrow> RoutePlan list \<Rightarrow> AutoSwitchDecision list \<Rightarrow> bool"
  for now :: time and ps :: "RoutePlan list" and ds :: "AutoSwitchDecision list" where
  idle: "lease_move now ps ds ps ds"
| plan_added: "lease_move now ps ds (ps @ [p]) ds"
| plan_changed: "find_plan ps (pln_ID q) = Some p \<Longrightarrow> pln_SchedulingGeneration q = pln_SchedulingGeneration p \<Longrightarrow>
    lease_move now ps ds (put pln_ID q ps) ds"
| fenced: "find_plan ps (pln_ID q) = Some p \<Longrightarrow> pln_SchedulingGeneration q = pln_SchedulingGeneration p \<Longrightarrow>
    lease_move now ps ds (put pln_ID (nextGeneration q now) ps) (fence q '''' now ds)"
| recorded: "dec_Status d \<noteq> AutoSwitchApplying \<Longrightarrow> lease_move now ps ds ps (ds @ [d])"
| claimed: "find_plan ps (dec_PlanID d) = Some p \<Longrightarrow> dec_SchedulingGeneration d = pln_SchedulingGeneration (nextGeneration p now) \<Longrightarrow>
    lease_move now ps ds (put pln_ID (nextGeneration p now) ps) (fence p '''' now ds @ [d])"
| taken: "find_dec ds (dec_ID d) = Some d \<Longrightarrow> find_plan ps (dec_PlanID d) = Some p \<Longrightarrow>
    pln_SchedulingGeneration p = dec_SchedulingGeneration d \<Longrightarrow>
    dec_Status d \<in> {AutoSwitchApproved, AutoSwitchObserving, AutoSwitchApplying} \<Longrightarrow> \<not> leaseAlive now (dec_LeaseVersion d) d \<Longrightarrow>
    lease_move now ps ds (put pln_ID (nextGeneration p now) ps) (put dec_ID (leased p now dur d) (fence p (dec_ID d) now ds))"
| timed: "find_dec ds (dec_ID d) = Some d \<Longrightarrow> leaseAlive now v d \<Longrightarrow>
    lease_move now ps ds ps (put dec_ID (d\<lparr>dec_LeaseUntil := u, dec_UpdatedAt := now\<rparr>) ds)"
| resolved: "find_dec ds (dec_ID e) = Some d \<Longrightarrow> dec_Status d \<in> {AutoSwitchProposed, AutoSwitchApplying} \<Longrightarrow>
    dec_Status e \<noteq> AutoSwitchApplying \<Longrightarrow> dec_LeaseVersion e = dec_LeaseVersion d \<Longrightarrow>
    lease_move now ps ds ps (put dec_ID e ds)"

text \<open>The operations on plans and decisions, as the program calls them: a decision is not recorded as
  applying, and a transition starts from a proposed or an applying one. The last two stand for what the
  other operations of the store do to a plan: \<open>OpFencePlan\<close> writes it and advances its generation (a user
  whose deactivation is requested in \<open>UpdateUser\<close> of \<open>memory.go\<close>, a published channel that changes in
  \<open>UpdateUpstreamChannel\<close> of \<open>memory_upstream.go\<close>, \<open>CreateRecommendationRollout\<close> and
  \<open>EnqueueRecommendationRolloutOperation\<close>), \<open>OpRewritePlan\<close> writes it and keeps the generation (a plan
  that \<open>ReconcileUserDeactivations\<close> suspends).\<close>

datatype lease_op =
    OpCreatePlan RoutePlan
  | OpUpdatePlan RoutePlan
  | OpCompletePublish string int64
  | OpClaimPlan string "RoutePlanStatus list"
  | OpTransitionPlan string RoutePlanStatus RoutePlanStatus
  | OpCreate AutoSwitchDecision
  | OpClaim AutoSwitchDecision
  | OpClaimApproved string duration
  | OpClaimObservation AutoSwitchDecision duration
  | OpClaimExpired string time time time
  | OpRenew string int64 duration
  | OpRelease string int64
  | OpTransition AutoSwitchDecision AutoSwitchStatus
  | OpFencePlan RoutePlan
  | OpRewritePlan RoutePlan

fun op_ok :: "lease_op \<Rightarrow> bool" where
  "op_ok (OpCreate d) = (dec_Status d \<noteq> AutoSwitchApplying)"
| "op_ok (OpTransition d expected) = (expected \<in> {AutoSwitchProposed, AutoSwitchApplying})"
| "op_ok _ = True"

fun run_op :: "ctx \<Rightarrow> time \<Rightarrow> lease_op \<Rightarrow> SchedulerStore \<Rightarrow> SchedulerStore" where
  "run_op c now (OpCreatePlan p) s = snd (CreateRoutePlan c now p s)"
| "run_op c now (OpUpdatePlan p) s = snd (UpdateRoutePlan c now p s)"
| "run_op c now (OpCompletePublish i g) s = snd (CompleteRoutePlanPublish c now i g s)"
| "run_op c now (OpClaimPlan i st) s = snd (ClaimRoutePlanScheduling c now i st s)"
| "run_op c now (OpTransitionPlan i x y) s = snd (TransitionRoutePlanScheduling c now i x y s)"
| "run_op c now (OpCreate d) s = snd (CreateAutoSwitchDecision c now d s)"
| "run_op c now (OpClaim d) s = snd (ClaimAutoSwitchDecision c now d s)"
| "run_op c now (OpClaimApproved i l) s = snd (ClaimApprovedAutoSwitchDecision c now i l s)"
| "run_op c now (OpClaimObservation d l) s = snd (ClaimAutoSwitchObservation c now d l s)"
| "run_op c now (OpClaimExpired i t b u) s = snd (ClaimExpiredAutoSwitchDecision c now i t b u s)"
| "run_op c now (OpRenew i v l) s = snd (RenewAutoSwitchDecisionLease c now i v l s)"
| "run_op c now (OpRelease i v) s = snd (ReleaseAutoSwitchDecisionLease c now i v s)"
| "run_op c now (OpTransition d x) s = snd (TransitionAutoSwitchDecision c now d x s)"
| "run_op c now (OpFencePlan q) s = (case routePlanIndex (pln_ID q) s of None \<Rightarrow> s | Some p \<Rightarrow>
     if pln_SchedulingGeneration q = pln_SchedulingGeneration p
     then advanceRoutePlanGenerationLocked q now '''' (setPlan q s) else s)"
| "run_op c now (OpRewritePlan q) s = (case routePlanIndex (pln_ID q) s of None \<Rightarrow> s | Some p \<Rightarrow>
     if pln_SchedulingGeneration q = pln_SchedulingGeneration p then setPlan q s else s)"

subsection \<open>Every operation is a move\<close>

lemma find_put:
  "find (\<lambda>x. k x = j) (put k y xs) = (if j = k y then (if find (\<lambda>x. k x = j) xs = None then None else Some y) else find (\<lambda>x. k x = j) xs)"
  unfolding put_def by (induction xs) auto

lemma put_put: "k y = k z \<Longrightarrow> put k y (put k z xs) = put k y xs"
  unfolding put_def by (induction xs) auto

lemma nextGeneration_simps [simp]:
  "pln_ID (nextGeneration p now) = pln_ID p"
  "pln_SchedulingGeneration (nextGeneration p now) = wrap64 (pln_SchedulingGeneration p + 1)"
  by (simp_all add: nextGeneration_def)

lemma setPlan_tables [simp]:
  "routePlans (setPlan p s) = put pln_ID p (routePlans s)" "autoSwitchDecs (setPlan p s) = autoSwitchDecs s"
  by (simp_all add: setPlan_def put_def)

lemma setDecision_tables [simp]:
  "routePlans (setDecision i d s) = routePlans s"
  "dec_ID d = i \<Longrightarrow> autoSwitchDecs (setDecision i d s) = put dec_ID d (autoSwitchDecs s)"
  by (auto simp add: setDecision_def put_def)

lemma advance_tables [simp]:
  "routePlans (advanceRoutePlanGenerationLocked p now keep s) = put pln_ID (nextGeneration p now) (routePlans s)"
  "autoSwitchDecs (advanceRoutePlanGenerationLocked p now keep s) = fence p keep now (autoSwitchDecs s)"
  by (simp_all add: advanceRoutePlanGenerationLocked_def fence_def Let_def)

lemma takeLease_tables [simp]:
  "routePlans (takeLease p now dur d s) = put pln_ID (nextGeneration p now) (routePlans s)"
  "autoSwitchDecs (takeLease p now dur d s) = put dec_ID (leased p now dur d) (fence p (dec_ID d) now (autoSwitchDecs s))"
  by (simp_all add: takeLease_def leased_def)

lemma find_plan_id: "find_plan ps i = Some p \<Longrightarrow> pln_ID p = i"
  by (auto dest: find_SomeD)

lemma find_dec_id: "find_dec ds i = Some d \<Longrightarrow> dec_ID d = i"
  by (auto dest: find_SomeD)

lemma find_self:
  "find_plan ps i = Some p \<Longrightarrow> find_plan ps (pln_ID p) = Some p" "find_dec ds i = Some d \<Longrightarrow> find_dec ds (dec_ID d) = Some d"
  by (frule find_plan_id find_dec_id, simp)+

abbreviation moves :: "time \<Rightarrow> SchedulerStore \<Rightarrow> SchedulerStore \<Rightarrow> bool" where
  "moves now s s' \<equiv> lease_move now (routePlans s) (autoSwitchDecs s) (routePlans s') (autoSwitchDecs s')"

text \<open>A fence over a plan that was just stored.\<close>

lemma moves_fence:
  assumes "routePlanIndex i s = Some p" "pln_ID q = pln_ID p" "pln_SchedulingGeneration q = pln_SchedulingGeneration p"
  shows "moves now s (advanceRoutePlanGenerationLocked q now '''' (setPlan q s))"
    "moves now s (advanceRoutePlanGenerationLocked p now '''' s)"
  using assms fenced [where ps = "routePlans s" and q = q and p = p] fenced [where ps = "routePlans s" and q = p and p = p]
    find_self(1) [of i "routePlans s" p] by (auto simp: routePlanIndex_def put_put)

lemma moves_plans:
  "moves now s (run_op c now (OpCreatePlan r) s)" "moves now s (run_op c now (OpUpdatePlan r) s)"
  "moves now s (run_op c now (OpCompletePublish i g) s)" "moves now s (run_op c now (OpClaimPlan i st) s)"
  "moves now s (run_op c now (OpTransitionPlan i x y) s)"
  "moves now s (run_op c now (OpFencePlan r) s)" "moves now s (run_op c now (OpRewritePlan r) s)"
proof -
  show "moves now s (run_op c now (OpCreatePlan r) s)"
    by (auto simp: CreateRoutePlan_def Let_def split: option.splits prod.splits intro: lease_move.intros)
  show "moves now s (run_op c now (OpUpdatePlan r) s)"
    by (auto simp: UpdateRoutePlan_def Let_def simp del: advance_tables split: option.splits
        intro!: idle moves_fence(1) dest: find_plan_id simp: routePlanIndex_def)
  show "moves now s (run_op c now (OpCompletePublish i g) s)"
    by (auto simp: CompleteRoutePlanPublish_def routePlanIndex_def Let_def split: option.splits
        intro: idle intro!: plan_changed dest: find_self)
  show "moves now s (run_op c now (OpClaimPlan i st) s)"
    by (auto simp: ClaimRoutePlanScheduling_def Let_def simp del: advance_tables split: option.splits intro: idle moves_fence(2))
  show "moves now s (run_op c now (OpTransitionPlan i x y) s)"
    by (auto simp: TransitionRoutePlanScheduling_def Let_def simp del: advance_tables split: option.splits intro!: idle moves_fence(1))
  show "moves now s (run_op c now (OpFencePlan r) s)"
    by (auto simp del: advance_tables split: option.splits intro!: idle moves_fence(1) dest: find_plan_id simp: routePlanIndex_def)
  show "moves now s (run_op c now (OpRewritePlan r) s)"
    by (auto simp: routePlanIndex_def split: option.splits intro: idle intro!: plan_changed)
qed

lemma moves_claims:
  "moves now s (run_op c now (OpClaim d) s)" "moves now s (run_op c now (OpClaimApproved i l) s)"
  "moves now s (run_op c now (OpClaimObservation d l) s)" "moves now s (run_op c now (OpClaimExpired i t b u) s)"
proof -
  show "moves now s (run_op c now (OpClaim d) s)"
    by (auto simp: ClaimAutoSwitchDecision_def routePlanIndex_def Let_def split: option.splits sum.splits prod.splits
        intro: idle claimed)
  show "moves now s (run_op c now (OpClaimApproved i l) s)"
    by (auto simp: ClaimApprovedAutoSwitchDecision_def routePlanIndex_def leaseAlive_def split: option.splits sum.splits
        intro: idle intro!: taken dest: find_self(2))
  show "moves now s (run_op c now (OpClaimObservation d l) s)"
    by (auto simp: ClaimAutoSwitchObservation_def routePlanIndex_def leaseAlive_def split: option.splits sum.splits
        intro: idle intro!: taken dest: find_self(2))
  show "moves now s (run_op c now (OpClaimExpired i t b u) s)"
    by (auto simp: ClaimExpiredAutoSwitchDecision_def routePlanIndex_def leaseAlive_def Let_def split: option.splits sum.splits
        intro: idle intro!: taken dest: find_self(2))
qed

lemma moves_timed:
  "find_decision s i = Some d \<Longrightarrow> leaseAlive now v d \<Longrightarrow> moves now s (setDecision i (d\<lparr>dec_LeaseUntil := u, dec_UpdatedAt := now\<rparr>) s)"
  using timed [where ds = "autoSwitchDecs s" and d = d and now = now] find_self(2) find_dec_id [of i "autoSwitchDecs s" d] by auto

lemma moves_decisions:
  "dec_Status d \<noteq> AutoSwitchApplying \<Longrightarrow> moves now s (run_op c now (OpCreate d) s)"
  "moves now s (run_op c now (OpRenew i v l) s)" "moves now s (run_op c now (OpRelease i v) s)"
  "x \<in> {AutoSwitchProposed, AutoSwitchApplying} \<Longrightarrow> moves now s (run_op c now (OpTransition d x) s)"
proof -
  show "dec_Status d \<noteq> AutoSwitchApplying \<Longrightarrow> moves now s (run_op c now (OpCreate d) s)"
    by (auto simp: CreateAutoSwitchDecision_def Let_def split: option.splits prod.splits intro: idle intro!: recorded)
  show "moves now s (run_op c now (OpRenew i v l) s)"
    by (auto simp: RenewAutoSwitchDecisionLease_def Let_def simp del: setDecision_tables split: option.splits sum.splits intro: idle intro!: moves_timed)
  show "moves now s (run_op c now (OpRelease i v) s)"
    by (auto simp: ReleaseAutoSwitchDecisionLease_def simp del: setDecision_tables split: option.splits intro: idle intro!: moves_timed)
  show "x \<in> {AutoSwitchProposed, AutoSwitchApplying} \<Longrightarrow> moves now s (run_op c now (OpTransition d x) s)"
    by (auto simp: TransitionAutoSwitchDecision_def Let_def split: option.splits intro: idle intro!: resolved dest: find_dec_id)
qed

lemma run_op_moves: "op_ok op \<Longrightarrow> moves now s (run_op c now op s)"
  by (cases op) (simp_all del: run_op.simps add: moves_plans moves_claims moves_decisions)

section \<open>One lease per plan\<close>

text \<open>Who holds the lease of a plan: the decisions being applied in its current generation.\<close>

definition holders :: "string \<Rightarrow> int64 \<Rightarrow> AutoSwitchDecision list \<Rightarrow> AutoSwitchDecision list" where
  "holders i g = filter (\<lambda>d. dec_Status d = AutoSwitchApplying \<and> dec_PlanID d = i \<and> dec_SchedulingGeneration d = g)"

definition leases_ok :: "RoutePlan list \<Rightarrow> AutoSwitchDecision list \<Rightarrow> bool" where
  "leases_ok ps ds \<longleftrightarrow>
     (\<forall>d\<in>set ds. dec_Status d = AutoSwitchApplying \<longrightarrow>
        (\<exists>p. find_plan ps (dec_PlanID d) = Some p \<and> dec_SchedulingGeneration d \<le> pln_SchedulingGeneration p)) \<and>
     (\<forall>i p. find_plan ps i = Some p \<longrightarrow> length (holders i (pln_SchedulingGeneration p) ds) \<le> 1)"

text \<open>The counters have room for one more step.\<close>

definition counters_live :: "RoutePlan list \<Rightarrow> AutoSwitchDecision list \<Rightarrow> bool" where
  "counters_live ps ds \<longleftrightarrow> (\<forall>p\<in>set ps. in64 (pln_SchedulingGeneration p + 1)) \<and> (\<forall>d\<in>set ds. in64 (dec_LeaseVersion d + 1))"

lemma leases_okD:
  assumes "leases_ok ps ds"
  shows "d \<in> set ds \<Longrightarrow> dec_Status d = AutoSwitchApplying \<Longrightarrow>
      \<exists>p. find_plan ps (dec_PlanID d) = Some p \<and> dec_SchedulingGeneration d \<le> pln_SchedulingGeneration p"
    "find_plan ps i = Some p \<Longrightarrow> length (holders i (pln_SchedulingGeneration p) ds) \<le> 1"
  using assms by (simp_all add: leases_ok_def)

lemma live_next:
  "counters_live ps ds \<Longrightarrow> find_plan ps i = Some p \<Longrightarrow> wrap64 (pln_SchedulingGeneration p + 1) = pln_SchedulingGeneration p + 1"
  "counters_live ps ds \<Longrightarrow> find_dec ds i = Some d \<Longrightarrow> wrap64 (dec_LeaseVersion d + 1) = dec_LeaseVersion d + 1"
  by (auto simp: counters_live_def dest!: find_SomeD intro!: wrap64_id)

lemma length_filter_put:
  "length (filter P (put k y xs)) \<le> length (filter P xs) + (if P y then 1 else 0)"
  unfolding put_def by (induction xs) (auto simp: le_SucI)

lemma length_filter_put_same:
  "find (\<lambda>x. k x = k y) xs = Some x \<Longrightarrow> P y \<longrightarrow> P x \<Longrightarrow> length (filter P (put k y xs)) \<le> length (filter P xs)"
  unfolding put_def by (induction xs) (auto split: if_splits)

lemma length_filter_map: "(\<And>x. P (f x) \<Longrightarrow> P x) \<Longrightarrow> length (filter P (map f xs)) \<le> length (filter P xs)"
  by (induction xs) (auto simp: le_SucI)

lemma set_put: "x \<in> set (put k y xs) \<Longrightarrow> x = y \<or> x \<in> set xs"
  unfolding put_def by (induction xs) (auto split: if_splits)

text \<open>A fence leaves a decision alone or ends it.\<close>

lemma fence_elem: "x \<in> set (fence p keep now ds) \<Longrightarrow> x \<in> set ds \<or> dec_Status x = AutoSwitchFailed"
  by (auto simp: fence_def supersedeActiveAutoSwitchDecisions_def supersedeAutoSwitchDecision_def Let_def)

lemma fence_holders: "length (holders i g (fence p keep now ds)) \<le> length (holders i g ds)"
  unfolding holders_def fence_def supersedeActiveAutoSwitchDecisions_def
  by (rule length_filter_map) (auto simp: supersedeAutoSwitchDecision_def Let_def split: if_splits)

lemma fence_find: "find_dec (fence p keep now ds) i = map_option
    (\<lambda>d. if dec_PlanID d \<noteq> pln_ID p \<or> dec_ID d = keep \<or> \<not> AutoSwitchStatus_IsActive (dec_Status d) \<or>
            pln_SchedulingGeneration (nextGeneration p now) \<le> dec_SchedulingGeneration d
          then d else supersedeAutoSwitchDecision d (pln_SchedulingGeneration (nextGeneration p now)) now) (find_dec ds i)"
  unfolding fence_def supersedeActiveAutoSwitchDecisions_def
  by (induction ds) (auto simp: supersedeAutoSwitchDecision_def Let_def)

text \<open>Right after a fence nobody holds the plan.\<close>

lemma fenced_free:
  assumes "leases_ok ps ds" "counters_live ps ds" "find_plan ps (pln_ID q) = Some p" "pln_SchedulingGeneration q = pln_SchedulingGeneration p"
  shows "holders (pln_ID q) (pln_SchedulingGeneration (nextGeneration q now)) (fence q keep now ds) = []"
proof -
  have "dec_SchedulingGeneration d \<le> pln_SchedulingGeneration p"
    if "d \<in> set ds" "dec_Status d = AutoSwitchApplying" "dec_PlanID d = pln_ID q" for d
    using leases_okD(1) [OF assms(1) that(1,2)] that(3) assms(3) by simp
  then have "holders (pln_ID q) (pln_SchedulingGeneration (nextGeneration q now)) ds = []"
    using live_next(1) [OF assms(2,3)] assms(4) by (fastforce simp: holders_def filter_empty_conv)
  then show ?thesis using fence_holders [of "pln_ID q" "pln_SchedulingGeneration (nextGeneration q now)" q keep now ds] by simp
qed

lemma leases_ok_fence:
  assumes "leases_ok ps ds" "counters_live ps ds" "find_plan ps (pln_ID q) = Some p" "pln_SchedulingGeneration q = pln_SchedulingGeneration p"
  shows "leases_ok (put pln_ID (nextGeneration q now) ps) (fence q keep now ds)"
  unfolding leases_ok_def
proof (intro conjI ballI allI impI)
  note g = live_next(1) [OF assms(2,3)]
  fix d assume "d \<in> set (fence q keep now ds)" "dec_Status d = AutoSwitchApplying"
  then have "d \<in> set ds" using fence_elem by fastforce
  from leases_okD(1) [OF assms(1) this \<open>dec_Status d = _\<close>]
  show "\<exists>p. find_plan (put pln_ID (nextGeneration q now) ps) (dec_PlanID d) = Some p \<and> dec_SchedulingGeneration d \<le> pln_SchedulingGeneration p"
    using g assms(3,4) by (auto simp: find_put)
next
  fix i r assume r: "find_plan (put pln_ID (nextGeneration q now) ps) i = Some r"
  show "length (holders i (pln_SchedulingGeneration r) (fence q keep now ds)) \<le> 1"
  proof (cases "i = pln_ID q")
    case True
    then have "r = nextGeneration q now" using r assms(3) by (simp add: find_put)
    then show ?thesis using fenced_free [OF assms, of now keep] True by simp
  next
    case False
    then have "find_plan ps i = Some r" using r by (simp add: find_put)
    then show ?thesis using leases_okD(2) [OF assms(1)] fence_holders le_trans by blast
  qed
qed

text \<open>A claim adds one holder to a plan that has none.\<close>

lemma leases_ok_claim:
  assumes ok: "leases_ok ps ds" and free: "find_plan ps (dec_PlanID d) = Some p" "holders (dec_PlanID d) (pln_SchedulingGeneration p) ds = []"
    and gen: "dec_SchedulingGeneration d = pln_SchedulingGeneration p"
    and sub: "\<And>x. x \<in> set ds' \<Longrightarrow> x = d \<or> x \<in> set ds"
    and len: "\<And>P. length (filter P ds') \<le> length (filter P ds) + (if P d then 1 else 0)"
  shows "leases_ok ps ds'"
  unfolding leases_ok_def
proof (intro conjI ballI allI impI)
  fix x assume "x \<in> set ds'" "dec_Status x = AutoSwitchApplying"
  then show "\<exists>p. find_plan ps (dec_PlanID x) = Some p \<and> dec_SchedulingGeneration x \<le> pln_SchedulingGeneration p"
    using sub leases_okD(1) [OF ok] free(1) gen by fastforce
next
  fix i q assume q: "find_plan ps i = Some q"
  let ?P = "\<lambda>d. dec_Status d = AutoSwitchApplying \<and> dec_PlanID d = i \<and> dec_SchedulingGeneration d = pln_SchedulingGeneration q"
  have "length (filter ?P ds') \<le> 1"
  proof (cases "?P d")
    case True
    then show ?thesis using len [of ?P] free q by (simp add: holders_def)
  next
    case False
    then show ?thesis using len [of ?P, unfolded if_not_P [OF False]] leases_okD(2) [OF ok q] by (simp add: holders_def)
  qed
  then show "length (holders i (pln_SchedulingGeneration q) ds') \<le> 1" by (simp add: holders_def)
qed

lemma leases_ok_put:
  assumes "leases_ok ps ds" "find_dec ds (dec_ID e) = Some d"
    "dec_Status e = AutoSwitchApplying \<longrightarrow> dec_Status d = AutoSwitchApplying \<and> dec_PlanID e = dec_PlanID d \<and> dec_SchedulingGeneration e = dec_SchedulingGeneration d"
  shows "leases_ok ps (put dec_ID e ds)"
proof -
  have "d \<in> set ds" using assms(2) by (auto dest: find_SomeD)
  moreover have "length (holders i g (put dec_ID e ds)) \<le> length (holders i g ds)" for i g
    unfolding holders_def by (rule length_filter_put_same [OF assms(2)]) (use assms(3) in auto)
  ultimately show ?thesis
    unfolding leases_ok_def
    using leases_okD [OF assms(1)] assms(3) by (fastforce dest!: set_put intro: le_trans)
qed

lemma leases_ok_append: "leases_ok ps ds \<Longrightarrow> dec_Status d \<noteq> AutoSwitchApplying \<Longrightarrow> leases_ok ps (ds @ [d])"
  by (auto simp: leases_ok_def holders_def)

lemma leases_ok_plan:
  assumes "leases_ok ps ds"
    "\<And>i p. find_plan ps i = Some p \<Longrightarrow> \<exists>q. find_plan ps' i = Some q \<and> pln_SchedulingGeneration q = pln_SchedulingGeneration p"
  shows "leases_ok ps' ds"
proof -
  have "length (holders i g ds) \<le> 1" if "find_plan ps' i = Some q" "g = pln_SchedulingGeneration q" for i q g
  proof (cases "find_plan ps i")
    case None
    then have "holders i g ds = []" using leases_okD(1) [OF assms(1)] by (fastforce simp: holders_def filter_empty_conv)
    then show ?thesis by simp
  next
    case (Some p)
    then show ?thesis using leases_okD(2) [OF assms(1) Some] assms(2) [OF Some] that by auto
  qed
  then show ?thesis using leases_okD(1) [OF assms(1)] assms(2) unfolding leases_ok_def by fastforce
qed

lemma lease_move_ok:
  assumes "lease_move now ps ds ps' ds'" "leases_ok ps ds" "counters_live ps ds"
  shows "leases_ok ps' ds'"
  using assms(1)
proof cases
  case (plan_added p)
  then show ?thesis using assms(2) by (auto intro!: leases_ok_plan [OF assms(2)] simp: find_append)
next
  case (plan_changed q p)
  then show ?thesis using assms(2) by (auto intro!: leases_ok_plan [OF assms(2)] simp: find_put)
next
  case (fenced q p)
  then show ?thesis using leases_ok_fence [OF assms(2,3)] by blast
next
  case (claimed d p)
  have p: "find_plan ps (pln_ID p) = Some p" "pln_ID p = dec_PlanID d" using find_plan_id [OF claimed(3)] claimed(3) by simp_all
  have "leases_ok (put pln_ID (nextGeneration p now) ps) (fence p '''' now ds @ [d])"
    by (rule leases_ok_claim [OF leases_ok_fence [OF assms(2,3) p(1) refl], where p = "nextGeneration p now"])
      (use p claimed(4) fenced_free [OF assms(2,3) p(1) refl, of now "''''"] in \<open>auto simp: find_put\<close>)
  then show ?thesis using claimed by simp
next
  case (taken d p dur)
  have p: "find_plan ps (pln_ID p) = Some p" "pln_ID p = dec_PlanID d" using find_plan_id [OF taken(4)] taken(4) by simp_all
  have "leases_ok (put pln_ID (nextGeneration p now) ps) (put dec_ID (leased p now dur d) (fence p (dec_ID d) now ds))"
    by (rule leases_ok_claim [where d = "leased p now dur d" and p = "nextGeneration p now",
          OF leases_ok_fence [OF assms(2,3) p(1) refl] _ _ _ set_put length_filter_put])
      (use p fenced_free [OF assms(2,3) p(1) refl, of now "dec_ID d"] in \<open>simp_all add: find_put leased_def\<close>)
  then show ?thesis using taken by simp
next
  case (timed d v u)
  then show ?thesis using leases_ok_put [OF assms(2)] by (auto simp: leaseAlive_def)
next
  case (resolved e d)
  then show ?thesis using leases_ok_put [OF assms(2)] by auto
qed (use assms(2) leases_ok_append in auto)

section \<open>Runs\<close>

text \<open>Any sequence of the operations, by any callers, at times that do not go back.\<close>

inductive lease_run :: "time \<Rightarrow> SchedulerStore \<Rightarrow> time \<Rightarrow> SchedulerStore \<Rightarrow> bool" for t :: time and s :: SchedulerStore where
  run_start: "lease_run t s t s"
| run_next: "lease_run t s t' s' \<Longrightarrow> t' \<le> now \<Longrightarrow> op_ok op \<Longrightarrow> counters_live (routePlans s') (autoSwitchDecs s') \<Longrightarrow>
    lease_run t s now (run_op c now op s')"

definition store_leases_ok :: "SchedulerStore \<Rightarrow> bool" where
  "store_leases_ok s \<longleftrightarrow> leases_ok (routePlans s) (autoSwitchDecs s)"

lemma lease_run_ok: "lease_run t s t' s' \<Longrightarrow> store_leases_ok s \<Longrightarrow> store_leases_ok s'"
  by (induction rule: lease_run.induct) (auto simp: store_leases_ok_def intro: lease_move_ok run_op_moves)

lemma lease_run_time: "lease_run t s t' s' \<Longrightarrow> t \<le> t'"
  by (induction rule: lease_run.induct) auto

subsection \<open>A lost lease\<close>

text \<open>The row of a decision has a live lease of version \<open>v\<close> in the current generation of its plan.\<close>

definition holding :: "time \<Rightarrow> int64 \<Rightarrow> RoutePlan list \<Rightarrow> AutoSwitchDecision \<Rightarrow> bool" where
  "holding now v ps d \<longleftrightarrow> leaseAlive now v d \<and>
     (\<exists>p. find_plan ps (dec_PlanID d) = Some p \<and> pln_SchedulingGeneration p = dec_SchedulingGeneration d)"

definition lost :: "time \<Rightarrow> string \<Rightarrow> int64 \<Rightarrow> RoutePlan list \<Rightarrow> AutoSwitchDecision list \<Rightarrow> bool" where
  "lost now i v ps ds \<longleftrightarrow> (\<exists>d. find_dec ds i = Some d \<and> v \<le> dec_LeaseVersion d \<and> \<not> holding now v ps d)"

lemma Renew_holding:
  "RenewAutoSwitchDecisionLease c now i v dur s = (Inr d, s') \<Longrightarrow>
   \<exists>e. find_decision s i = Some e \<and> holding now v (routePlans s) e \<and> dec_PlanID d = dec_PlanID e"
  by (auto simp: RenewAutoSwitchDecisionLease_def holding_def routePlanIndex_def Let_def split: option.splits sum.splits if_splits)

text \<open>The plans only move on.\<close>

lemma lease_move_plan:
  assumes "lease_move now ps ds ps' ds'" "counters_live ps ds" "find_plan ps i = Some p"
  shows "\<exists>q. find_plan ps' i = Some q \<and> pln_SchedulingGeneration p \<le> pln_SchedulingGeneration q"
  using assms(1)
proof cases
  case (claimed d r)
  then show ?thesis using live_next(1) [OF assms(2,3)] find_plan_id [OF claimed(3)] assms(3) by (auto simp: find_put)
next
  case (taken d r dur)
  then show ?thesis using live_next(1) [OF assms(2,3)] find_plan_id [OF taken(4)] assms(3) by (auto simp: find_put)
qed (use live_next(1) [OF assms(2,3)] assms(3) in \<open>auto simp: find_put find_append\<close>)

text \<open>What a move makes of the row of a decision.\<close>

lemma lease_move_row:
  assumes "lease_move now ps ds ps' ds'" "counters_live ps ds" "find_dec ds i = Some d"
  obtains (same) "find_dec ds' i = Some d"
  | (ended) e where "find_dec ds' i = Some e" "dec_Status e \<noteq> AutoSwitchApplying" "dec_LeaseVersion e = dec_LeaseVersion d"
      "AutoSwitchStatus_IsActive (dec_Status d)"
  | (extended) u where "find_dec ds' i = Some (d\<lparr>dec_LeaseUntil := u, dec_UpdatedAt := now\<rparr>)"
      "leaseAlive now (dec_LeaseVersion d) d"
  | (renewed) e where "find_dec ds' i = Some e" "dec_LeaseVersion e = dec_LeaseVersion d + 1" "AutoSwitchStatus_IsActive (dec_Status d)"
proof -
  have f: "find_dec (fence p keep now ds) i = Some d \<or>
     AutoSwitchStatus_IsActive (dec_Status d) \<and> (\<exists>e. find_dec (fence p keep now ds) i = Some e \<and>
       dec_Status e \<noteq> AutoSwitchApplying \<and> dec_LeaseVersion e = dec_LeaseVersion d)" for p keep
    using assms(3) by (auto simp: fence_find supersedeAutoSwitchDecision_def Let_def)
  note v = live_next(2) [OF assms(2,3)]
  from assms(1) show thesis
  proof cases
    case (fenced q p)
    then show thesis using f [of q "''''"] that(1,2) by blast
  next
    case (claimed e p)
    then show thesis using f [of p "''''"] that(1,2) by (auto simp: find_append)
  next
    case (taken e p dur)
    show thesis
    proof (cases "dec_ID e = i")
      case True
      then have e: "e = d" using taken(3) assms(3) by simp
      have "find_dec ds' i = Some (leased p now dur d)"
        using taken(2) True e f [of p "dec_ID d"] by (auto simp: find_put leased_def)
      then show thesis using that(4) taken(6) e v by (auto simp: leased_def)
    next
      case False
      then show thesis using taken(2) f [of p "dec_ID e"] that(1,2) by (auto simp: find_put leased_def)
    qed
  next
    case (timed e w u)
    show thesis
    proof (cases "dec_ID e = i")
      case True
      then have "e = d" using timed(3) assms(3) by simp
      then show thesis using that(3) [of u] timed(2,4) True assms(3) by (simp add: find_put leaseAlive_def)
    next
      case False
      then show thesis using that(1) timed(2) assms(3) by (simp add: find_put)
    qed
  next
    case (resolved e r)
    show thesis
    proof (cases "dec_ID e = i")
      case True
      then show thesis using that(2) [of e] resolved assms(3) by (auto simp: find_put)
    next
      case False
      then show thesis using that(1) resolved(2) assms(3) by (simp add: find_put)
    qed
  qed (use assms(3) that(1) in \<open>auto simp: find_append\<close>)
qed

lemma alive_earlier: "leaseAlive now v d \<Longrightarrow> t \<le> now \<Longrightarrow> leaseAlive t v d"
  by (auto simp: leaseAlive_def split: option.splits)

lemma lease_move_lost:
  assumes "lease_move now ps ds ps' ds'" "leases_ok ps ds" "counters_live ps ds" "lost t i v ps ds" "t \<le> now"
  shows "lost now i v ps' ds'"
proof -
  obtain d where d: "find_dec ds i = Some d" "v \<le> dec_LeaseVersion d" "\<not> holding t v ps d" using assms(4) by (auto simp: lost_def)
  have stale: "pln_SchedulingGeneration q \<noteq> dec_SchedulingGeneration d"
    if "leaseAlive now v d" "find_plan ps' (dec_PlanID d) = Some q" for q
  proof -
    have "d \<in> set ds" "dec_Status d = AutoSwitchApplying" using d(1) that(1) by (auto dest: find_SomeD simp: leaseAlive_def)
    then obtain p where p: "find_plan ps (dec_PlanID d) = Some p" "dec_SchedulingGeneration d \<le> pln_SchedulingGeneration p"
      using leases_okD(1) [OF assms(2)] by blast
    have "dec_SchedulingGeneration d \<noteq> pln_SchedulingGeneration p"
      using d(3) p(1) alive_earlier [OF that(1) assms(5)] by (auto simp: holding_def)
    then show ?thesis using lease_move_plan [OF assms(1,3) p(1)] p(2) that(2) by fastforce
  qed
  from assms(1,3) d(1) show ?thesis
  proof (cases rule: lease_move_row)
    case same
    then show ?thesis using d(2) stale by (auto simp: lost_def holding_def)
  next
    case (ended e)
    then show ?thesis using d(2) by (auto simp: lost_def holding_def leaseAlive_def)
  next
    case (extended u)
    have "\<not> holding now v ps' (d\<lparr>dec_LeaseUntil := u, dec_UpdatedAt := now\<rparr>)"
    proof (cases "dec_LeaseVersion d = v")
      case True
      then show ?thesis using stale extended(2) by (auto simp: holding_def)
    qed (simp add: holding_def leaseAlive_def)
    then show ?thesis using extended(1) d(2) by (auto simp: lost_def)
  next
    case (renewed e)
    then show ?thesis using d(2) by (auto simp: lost_def holding_def leaseAlive_def)
  qed
qed

lemma lease_run_lost:
  "lease_run t s t' s' \<Longrightarrow> store_leases_ok s \<Longrightarrow> lost t i v (routePlans s) (autoSwitchDecs s) \<Longrightarrow>
   lost t' i v (routePlans s') (autoSwitchDecs s')"
proof (induction rule: lease_run.induct)
  case (run_next t' s' now op c)
  then show ?case using lease_move_lost [OF run_op_moves] lease_run_ok [OF run_next.hyps(1)] by (simp add: store_leases_ok_def)
qed

fun isTerminal :: "AutoSwitchStatus \<Rightarrow> bool" where
  "isTerminal AutoSwitchCompleted = True"
| "isTerminal AutoSwitchRolledBack = True"
| "isTerminal AutoSwitchSkipped = True"
| "isTerminal AutoSwitchRejected = True"
| "isTerminal AutoSwitchFailed = True"
| "isTerminal _ = False"

lemma terminal_inactive: "isTerminal st \<Longrightarrow> \<not> AutoSwitchStatus_IsActive st"
  by (cases st) simp_all

section \<open>Properties\<close>

text \<open>C18. A plan has one owner at a time. In every store that the operations on plans and decisions can
  reach, if two callers can both renew their leases of the same plan, they hold the same lease of
  the same decision.\<close>

theorem plan_has_one_owner:
  assumes "store_leases_ok s0" "lease_run t0 s0 t s"
    "RenewAutoSwitchDecisionLease c now i v dur s = (Inr d, s1)" "RenewAutoSwitchDecisionLease c' now' i' v' dur' s = (Inr d', s2)"
    "dec_PlanID d = dec_PlanID d'"
  shows "i = i' \<and> v = v'"
proof -
  obtain e where e: "find_decision s i = Some e" "holding now v (routePlans s) e" "dec_PlanID d = dec_PlanID e"
    using Renew_holding [OF assms(3)] by blast
  obtain e' where e': "find_decision s i' = Some e'" "holding now' v' (routePlans s) e'" "dec_PlanID d' = dec_PlanID e'"
    using Renew_holding [OF assms(4)] by blast
  obtain p where p: "find_plan (routePlans s) (dec_PlanID e) = Some p" "pln_SchedulingGeneration p = dec_SchedulingGeneration e"
    using e(2) by (auto simp: holding_def)
  let ?h = "holders (dec_PlanID e) (pln_SchedulingGeneration p) (autoSwitchDecs s)"
  have "e \<in> set ?h" "e' \<in> set ?h"
    using e e' p assms(5) by (auto simp: holders_def holding_def leaseAlive_def dest: find_SomeD)
  moreover have "length ?h \<le> 1"
    using leases_okD(2) [OF lease_run_ok [OF assms(2,1), unfolded store_leases_ok_def] p(1)] .
  ultimately have "e = e'" by (cases ?h) auto
  then show ?thesis using e(1,2) e'(1,2) by (auto simp: holding_def leaseAlive_def dest!: find_dec_id)
qed

text \<open>C19. A lost lease stays lost. When a lease cannot be renewed although the decision has had it (its
  deadline has passed, it was taken over, its plan has been fenced or it is resolved), no
  sequence of operations by anybody at later times makes it renewable again.\<close>

theorem lost_lease_stays_lost:
  assumes "store_leases_ok s" "find_decision s i = Some d" "v \<le> dec_LeaseVersion d" "0 < dur"
    "fst (RenewAutoSwitchDecisionLease None t i v dur s) = Inl e" "lease_run t s t' s'" "t' \<le> now"
  shows "fst (RenewAutoSwitchDecisionLease c now i v dur' s') \<noteq> Inr d'"
proof
  assume r: "fst (RenewAutoSwitchDecisionLease c now i v dur' s') = Inr d'"
  have "\<not> holding t v (routePlans s) d"
    using assms(2,4,5) by (auto simp: RenewAutoSwitchDecisionLease_def holding_def routePlanIndex_def autoSwitchLeaseMicros_def Let_def
        split: if_splits)
  then have "lost t' i v (routePlans s') (autoSwitchDecs s')"
    using lease_run_lost [OF assms(6,1)] assms(2,3) by (auto simp: lost_def)
  moreover obtain x where "find_decision s' i = Some x" "holding now v (routePlans s') x"
    using Renew_holding r by (metis prod.collapse)
  ultimately show False using alive_earlier [OF _ assms(7)] by (auto simp: lost_def holding_def)
qed

text \<open>C22. A resolved decision is frozen: once it is completed, rolled back, skipped, rejected or failed,
  its row stays as it is through every sequence of operations.\<close>

theorem resolved_decision_is_frozen:
  assumes "lease_run t s t' s'" "find_decision s i = Some d" "isTerminal (dec_Status d)"
  shows "find_decision s' i = Some d"
  using assms(1)
proof (induction rule: lease_run.induct)
  case run_start
  then show ?case by (rule assms(2))
next
  case (run_next t' s' now op c)
  from run_op_moves [OF run_next.hyps(3)] run_next.hyps(4) run_next.IH show ?case
    by (cases rule: lease_move_row) (use terminal_inactive [OF assms(3)] assms(3) in \<open>auto simp: leaseAlive_def\<close>)
qed

subsection \<open>Examples\<close>

text \<open>A published plan with one decision that is being applied until the time 10, and one that failed.\<close>

definition sample_decision :: AutoSwitchDecision where
  "sample_decision = \<lparr>dec_ID = ''d1'', dec_UserID = 1, dec_PlanID = ''plan-1'', dec_InstanceID = ''i1'', dec_PoolID = ''pool-1'',
     dec_Strategy = StrategyBalanced, dec_Trigger = ''auto'', dec_TriggerReason = '''', dec_FromChannelID = ''c1'', dec_ToChannelID = ''c2'',
     dec_RiskLevel = RiskLevelL1, dec_RiskReason = '''', dec_Status = AutoSwitchApplying, dec_AutoApplied = False, dec_Fingerprint = ''f'',
     dec_DryRunResult = \<lparr>rcp_InstanceID = ''i1'', rcp_PlanID = ''plan-1'', rcp_DryRun = True, rcp_Actions = [], rcp_CreatedAt = 1\<rparr>,
     dec_Error = '''', dec_ObservationNote = '''', dec_CreatedAt = 1, dec_UpdatedAt = 1, dec_AppliedAt = None, dec_ObserveUntil = None,
     dec_ResolvedAt = None, dec_LeaseUntil = Some 10, dec_LeaseVersion = 1, dec_SchedulingGeneration = 4\<rparr>"

definition lease_plan :: RoutePlan where
  "lease_plan = \<lparr>pln_ID = ''plan-1'', pln_UserID = 1, pln_InstanceID = ''i1'', pln_PoolID = ''pool-1'', pln_Tier = '''',
     pln_Status = RoutePlanPublished, pln_MaxChannels = 0, pln_Rollout = RolloutImmediate, pln_RolloutBatchSize = 0,
     pln_RolloutCanaryCount = 0, pln_Labels = [], pln_SchedulingGeneration = 4, pln_CreatedAt = 1, pln_UpdatedAt = 1\<rparr>"

definition lease_store :: SchedulerStore where
  "lease_store = sample_scheduler_store\<lparr>routePlans := [lease_plan],
     autoSwitchDecs := [sample_decision\<lparr>dec_ID := ''d0'', dec_Status := AutoSwitchFailed\<rparr>, sample_decision]\<rparr>"

lemma lease_store_ok: "store_leases_ok lease_store" "counters_live (routePlans lease_store) (autoSwitchDecs lease_store)"
  by (auto simp: store_leases_ok_def leases_ok_def holders_def counters_live_def lease_store_def lease_plan_def sample_decision_def in64_def)

lemma lease_store_rows:
  "find_decision lease_store ''d1'' = Some sample_decision" "routePlanIndex ''plan-1'' lease_store = Some lease_plan"
  "find_decision lease_store ''d0'' = Some (sample_decision\<lparr>dec_ID := ''d0'', dec_Status := AutoSwitchFailed\<rparr>)"
  by (simp_all add: routePlanIndex_def lease_store_def lease_plan_def sample_decision_def)

lemma sample_decision_row:
  "dec_ID sample_decision = ''d1''" "dec_Status sample_decision = AutoSwitchApplying" "dec_PlanID sample_decision = ''plan-1''"
  "dec_LeaseUntil sample_decision = Some 10" "dec_LeaseVersion sample_decision = 1" "dec_SchedulingGeneration sample_decision = 4"
  "pln_SchedulingGeneration lease_plan = 4"
  by (simp_all add: sample_decision_def lease_plan_def)

lemma sample_renewal:
  "t < 10 \<Longrightarrow> fst (RenewAutoSwitchDecisionLease None t ''d1'' 1 5 lease_store) =
     Inr (sample_decision\<lparr>dec_LeaseUntil := Some (t + 5), dec_UpdatedAt := t\<rparr>)"
  by (simp add: RenewAutoSwitchDecisionLease_def autoSwitchLeaseMicros_def lease_store_rows sample_decision_row leaseAlive_def Let_def)

theorem plan_has_one_owner_witness:
  "fst (RenewAutoSwitchDecisionLease None 7 ''d1'' 1 5 lease_store) = Inr (sample_decision\<lparr>dec_LeaseUntil := Some 12, dec_UpdatedAt := 7\<rparr>) \<and>
   (\<nexists>i v d s'. RenewAutoSwitchDecisionLease None 8 i v 5 lease_store = (Inr d, s') \<and> dec_PlanID d = ''plan-1'' \<and> (i, v) \<noteq> (''d1'', 1))"
proof -
  obtain s1 where r: "RenewAutoSwitchDecisionLease None 7 ''d1'' 1 5 lease_store = (Inr (sample_decision\<lparr>dec_LeaseUntil := Some 12, dec_UpdatedAt := 7\<rparr>), s1)"
    using sample_renewal [of 7] by (simp add: prod_eq_iff)
  then show ?thesis using plan_has_one_owner [OF lease_store_ok(1) run_start r] by (fastforce simp: sample_decision_row)
qed

text \<open>After the deadline another worker takes the decision over; the first one cannot come back.\<close>

theorem lost_lease_stays_lost_witness:
  "fst (RenewAutoSwitchDecisionLease None 20 ''d1'' 1 5 lease_store) = Inl (OrchStore ErrConflict) \<and>
   (\<nexists>d'. fst (RenewAutoSwitchDecisionLease None 22 ''d1'' 1 5 (run_op None 21 (OpClaimExpired ''d1'' 21 20 30) lease_store)) = Inr d')"
proof -
  have r: "fst (RenewAutoSwitchDecisionLease None 20 ''d1'' 1 5 lease_store) = Inl (OrchStore ErrConflict)"
    by (simp add: RenewAutoSwitchDecisionLease_def autoSwitchLeaseMicros_def lease_store_rows sample_decision_row leaseAlive_def)
  have "lease_run 20 lease_store 21 (run_op None 21 (OpClaimExpired ''d1'' 21 20 30) lease_store)"
    by (rule run_next [OF run_start]) (simp_all add: lease_store_ok)
  from lost_lease_stays_lost [OF lease_store_ok(1) lease_store_rows(1) _ _ r this] r show ?thesis
    by (simp add: sample_decision_row)
qed

theorem resolved_decision_is_frozen_witness:
  "find_decision (run_op None 21 (OpClaimPlan ''plan-1'' []) lease_store) ''d0'' = Some (sample_decision\<lparr>dec_ID := ''d0'', dec_Status := AutoSwitchFailed\<rparr>)"
proof -
  have "lease_run 20 lease_store 21 (run_op None 21 (OpClaimPlan ''plan-1'' []) lease_store)"
    by (rule run_next [OF run_start]) (simp_all add: lease_store_ok)
  from resolved_decision_is_frozen [OF this lease_store_rows(3)] show ?thesis by simp
qed

end
