(* ===== verification/Switch_Actions.thy ===== *)
theory Switch_Actions
  imports Decision_Store Recovery_Rollout
begin

text \<open>
  The operations that carry a decision out: \<open>Approve\<close>, \<open>Reject\<close> and \<open>Execute\<close> of
  \<open>operator_actions.go\<close>, \<open>Observe\<close> and \<open>finalizeNote\<close> of \<open>orchestrator.go\<close>. The publish engine is an argument with a dry run and
  an apply; it gets the guard that the Go code puts into its context. \<open>nw i\<close> is the \<open>i\<close>-th
  reading of \<open>o.now()\<close>. An error that wraps \<open>ErrConflict\<close> in a message is \<open>ErrConflict\<close>.
\<close>

section \<open>Leases and guards\<close>

definition storeCall :: "sched_call \<Rightarrow> (ctx \<Rightarrow> time \<Rightarrow> SchedulerStore \<Rightarrow> 'r \<times> SchedulerStore) \<Rightarrow> SchedulerStore \<Rightarrow> 'r \<times> SchedulerStore" where
  "storeCall cl f s = f (call_Err cl) (call_now cl) (call_env cl s)"

definition getDecision :: "sched_call \<Rightarrow> string \<Rightarrow> SchedulerStore \<Rightarrow> (store_error + AutoSwitchDecision) \<times> SchedulerStore" where
  "getDecision cl i = storeCall cl (\<lambda>c now s. (GetAutoSwitchDecision c i s, s))"

definition listSnapshots :: "sched_call \<Rightarrow> ChannelHealthSnapshotFilter \<Rightarrow> SchedulerStore \<Rightarrow> (store_error + ChannelHealthSnapshot list) \<times> SchedulerStore" where
  "listSnapshots cl f = storeCall cl (\<lambda>c now s. (ListChannelHealthSnapshots c f (tables s), s))"

text \<open>The text of an error; a lease that is not positive does not occur, the lease being a constant.\<close>

fun orch_error_Error :: "orch_error \<Rightarrow> string" where
  "orch_error_Error (OrchStore e) = store_error_Error e"
| "orch_error_Error OrchScopeRequired = ''open quality circuit: plan and channel are required''"
| "orch_error_Error (OrchOpenConflict p c) = ''open quality circuit '' @ p @ ''/'' @ c @ '': '' @ store_error_Error ErrConflict"
| "orch_error_Error (OrchEngine t) = t"
| "orch_error_Error (OrchJoin a b) = orch_error_Error a @ [byte 10] @ orch_error_Error b"
| "orch_error_Error (OrchMessage t) = t"
| "orch_error_Error (OrchLeaseDuration d) = ''store: auto-switch lease duration must be positive''"

type_synonym effect_guard = "sched_calls \<Rightarrow> SchedulerStore \<Rightarrow> orch_error option \<times> SchedulerStore"
type_synonym scheduling = "effect_guard \<Rightarrow> string \<Rightarrow> (string \<times> bool) list \<Rightarrow> SchedulerStore \<Rightarrow> (ReconcilePlan \<times> string option) \<times> SchedulerStore"

record Reconciler =
  eng_PlanScheduling :: scheduling
  eng_ApplyScheduling :: scheduling

definition DefaultObservationWindow :: duration where "DefaultObservationWindow = 15 * Minute"
definition autoSwitchApplyingLease :: duration where "autoSwitchApplyingLease = 2 * Minute"

definition renewApplyingLease :: "sched_call \<Rightarrow> AutoSwitchDecision \<Rightarrow> SchedulerStore \<Rightarrow> orch_error option \<times> SchedulerStore" where
  "renewApplyingLease cl d s =
     (case storeCall cl (\<lambda>c now. RenewAutoSwitchDecisionLease c now (dec_ID d) (dec_LeaseVersion d) autoSwitchApplyingLease) s of
        (Inl e, s) \<Rightarrow> (Some e, s)
      | (Inr _, s) \<Rightarrow> (None, s))"

definition withApplyingSideEffectGuard :: "AutoSwitchDecision \<Rightarrow> effect_guard" where
  "withApplyingSideEffectGuard d cs s =
     (case GetRoutePlan (cs 0) (dec_PlanID d) s of
        (Inl e, s) \<Rightarrow> (Some (OrchStore e), s)
      | (Inr plan, s) \<Rightarrow>
          if pln_Status plan \<noteq> RoutePlanPublished \<or> pln_SchedulingGeneration plan \<noteq> dec_SchedulingGeneration d
          then (Some (OrchStore ErrConflict), s)
          else renewApplyingLease (cs 1) d s)"

definition observationWindow :: "duration \<Rightarrow> RouteStrategy \<Rightarrow> duration" where
  "observationWindow obsWindow strat =
     (if 0 < obsWindow then obsWindow
      else if 0 < rst_RecoveryObservationSeconds strat then wrap64 (rst_RecoveryObservationSeconds strat * Second)
      else DefaultObservationWindow)"

definition finalizedRow ::
  "time \<Rightarrow> AutoSwitchDecision \<Rightarrow> AutoSwitchStatus \<Rightarrow> RiskLevel \<Rightarrow> string \<Rightarrow> string \<Rightarrow> AutoSwitchDecision" where
  "finalizedRow now d0 status risk reason note =
     d0\<lparr>dec_Status := status, dec_LeaseUntil := None,
       dec_RiskLevel := (if dec_RiskLevel d0 = RiskLevelOther '''' then risk else dec_RiskLevel d0),
       dec_RiskReason := (if dec_RiskReason d0 = '''' then reason else dec_RiskReason d0),
       dec_ObservationNote := (if note \<noteq> '''' then note else dec_ObservationNote d0),
       dec_Error := (if status = AutoSwitchFailed then reason else dec_Error d0),
       dec_ResolvedAt := (if isTerminal status \<and> dec_ResolvedAt d0 = None then Some now else dec_ResolvedAt d0)\<rparr>"

text \<open>The common end: renew the lease, then leave the applying state.\<close>

definition leaveApplying :: "sched_calls \<Rightarrow> AutoSwitchDecision \<Rightarrow> SchedulerStore \<Rightarrow> (orch_error + AutoSwitchDecision) \<times> SchedulerStore" where
  "leaveApplying cs d s =
     (case renewApplyingLease (cs 0) d s of (Some e, s) \<Rightarrow> (Inl e, s) | (None, s) \<Rightarrow>
      case storeCall (cs 1) (\<lambda>c now. TransitionAutoSwitchDecision c now d AutoSwitchApplying) s of
        (Inl e, s) \<Rightarrow> (Inl (OrchStore e), s)
      | (Inr d, s) \<Rightarrow> (Inr d, s))"

definition finalizeNote ::
  "sched_calls \<Rightarrow> time \<Rightarrow> AutoSwitchDecision \<Rightarrow> AutoSwitchStatus \<Rightarrow> RiskLevel \<Rightarrow> string \<Rightarrow> string \<Rightarrow> SchedulerStore \<Rightarrow>
   (orch_error + AutoSwitchDecision) \<times> SchedulerStore" where
  "finalizeNote cs now d0 status risk reason note = leaveApplying cs (finalizedRow now d0 status risk reason note)"

section \<open>Operators\<close>

definition Approve :: "sched_calls \<Rightarrow> string \<Rightarrow> string \<Rightarrow> SchedulerStore \<Rightarrow> (store_error + AutoSwitchDecision) \<times> SchedulerStore" where
  "Approve cs decisionID note s =
     (case getDecision (cs 0) (TrimSpace decisionID) s of
        (Inl e, s) \<Rightarrow> (Inl e, s)
      | (Inr d, s) \<Rightarrow>
          if dec_Status d \<noteq> AutoSwitchProposed then (Inl ErrConflict, s)
          else storeCall (cs 1) (\<lambda>c now. TransitionAutoSwitchDecision c now
                 (d\<lparr>dec_Status := AutoSwitchApproved, dec_ObservationNote := operatorDecisionNote ''approved'' note\<rparr>) AutoSwitchProposed) s)"

definition Reject :: "sched_calls \<Rightarrow> time \<Rightarrow> string \<Rightarrow> string \<Rightarrow> SchedulerStore \<Rightarrow> (store_error + AutoSwitchDecision) \<times> SchedulerStore" where
  "Reject cs onow decisionID note s =
     (case getDecision (cs 0) (TrimSpace decisionID) s of
        (Inl e, s) \<Rightarrow> (Inl e, s)
      | (Inr d, s) \<Rightarrow>
          if dec_Status d \<noteq> AutoSwitchProposed then (Inl ErrConflict, s)
          else storeCall (cs 1) (\<lambda>c now. TransitionAutoSwitchDecision c now
                 (d\<lparr>dec_Status := AutoSwitchRejected, dec_ResolvedAt := timePointer onow,
                    dec_ObservationNote := operatorDecisionNote ''rejected'' note\<rparr>) AutoSwitchProposed) s)"

definition schedulingKey :: "ReconcileAction \<Rightarrow> string" where
  "schedulingKey a = act_Type a @ [byte 0] @ act_ChannelID a"

fun countActions :: "ReconcileAction list \<Rightarrow> (string \<Rightarrow> int) \<Rightarrow> string \<Rightarrow> int" where
  "countActions [] counts = counts"
| "countActions (a # as) counts = countActions as (counts(schedulingKey a := counts (schedulingKey a) + 1))"

fun matchActions :: "ReconcileAction list \<Rightarrow> (string \<Rightarrow> int) \<Rightarrow> bool" where
  "matchActions [] counts = True"
| "matchActions (a # as) counts =
     (if counts (schedulingKey a) = 0 then False
      else matchActions as (counts(schedulingKey a := counts (schedulingKey a) - 1)))"

definition sameSchedulingActions :: "ReconcileAction list \<Rightarrow> ReconcileAction list \<Rightarrow> bool" where
  "sameSchedulingActions expected actual \<longleftrightarrow>
     length expected = length actual \<and> matchActions actual (countActions expected (\<lambda>_. 0))"

definition executeIntent :: "AutoSwitchDecision \<Rightarrow> (string \<times> bool) list" where
  "executeIntent d = (if dec_ToChannelID d \<noteq> '''' then AList.update (dec_ToChannelID d) True [(dec_FromChannelID d, False)]
     else [(dec_FromChannelID d, False)])"

definition TrimPrefix :: "string \<Rightarrow> string \<Rightarrow> string" where
  "TrimPrefix t prefix = (if take (length prefix) t = prefix then drop (length prefix) t else t)"

text \<open>After a failed apply: a source that is disabled all the same gets its circuit.\<close>

definition isolateAfterFailure ::
  "sched_calls \<Rightarrow> (nat \<Rightarrow> time) \<Rightarrow> AutoSwitchDecision \<Rightarrow> string \<Rightarrow> SchedulerStore \<Rightarrow> (AutoSwitchDecision \<times> string) \<times> SchedulerStore" where
  "isolateAfterFailure cs nw claimed note s =
     (let (disabled, s) = bindingDisabled (cs 0) (dec_PlanID claimed) (dec_FromChannelID claimed) s in
      if \<not> disabled then ((claimed, note), s)
      else let claimed = claimed\<lparr>dec_AutoApplied := True, dec_AppliedAt := timePointer (nw 0)\<rparr> in
        case renewApplyingLease (cs 1) claimed s of
          (Some e, s) \<Rightarrow> ((claimed, note @ ''; applying lease lost before source circuit: '' @ orch_error_Error e), s)
        | (None, s) \<Rightarrow>
            case openQualityCircuit (later 2 cs) (nw 1) (dec_PlanID claimed) (dec_FromChannelID claimed)
                (ejectionEvaluation (dec_FromChannelID claimed) ''operator_apply_failed''
                   (plainText ''operator-approved apply partially isolated source'') (Fin 0)) (nw 0) s of
              (Inl e, s) \<Rightarrow> ((claimed, note @ ''; source circuit persistence failed: '' @ orch_error_Error e), s)
            | (Inr _, s) \<Rightarrow> ((claimed, note), s))"

definition executeFailed ::
  "sched_calls \<Rightarrow> (nat \<Rightarrow> time) \<Rightarrow> Reconciler \<Rightarrow> effect_guard \<Rightarrow> AutoSwitchDecision \<Rightarrow> string \<Rightarrow> SchedulerStore \<Rightarrow>
   (orch_error + AutoSwitchDecision) \<times> SchedulerStore" where
  "executeFailed cs nw eng g claimed applyErr s =
     (let (note, s) = (if dec_ToChannelID claimed = '''' then ('''', s)
            else case eng_ApplyScheduling eng g (dec_PlanID claimed) [(dec_ToChannelID claimed, False)] s of
              ((_, Some e), s) \<Rightarrow> (''; replacement cleanup failed: '' @ e, s)
            | ((_, None), s) \<Rightarrow> ('''', s))
      in case isolateAfterFailure cs nw claimed note s of ((claimed, note), s) \<Rightarrow> finalizeNote (later 18 cs) (nw 2) claimed AutoSwitchFailed RiskLevelL3 (''approved decision apply failed: '' @ applyErr)
           (TrimPrefix note ''; '') s)"

definition executeApplied ::
  "sched_calls \<Rightarrow> (nat \<Rightarrow> time) \<Rightarrow> duration \<Rightarrow> RouteStrategy option \<Rightarrow> AutoSwitchDecision \<Rightarrow> SchedulerStore \<Rightarrow>
   (orch_error + AutoSwitchDecision) \<times> SchedulerStore" where
  "executeApplied cs nw obsWindow pinned claimed s =
     (let claimed = claimed\<lparr>dec_AutoApplied := True, dec_AppliedAt := timePointer (nw 0)\<rparr> in
      case GetRoutePlan (cs 0) (dec_PlanID claimed) s of (Inl e, s) \<Rightarrow> (Inl (OrchStore e), s) | (Inr plan, s) \<Rightarrow>
      let (strat, s) = strategyFor (later 1 cs) pinned plan s;
          claimed = claimed\<lparr>dec_ObserveUntil := timePointer (nw 0 + observationWindow obsWindow strat)\<rparr> in
      case renewApplyingLease (cs 4) claimed s of (Some e, s) \<Rightarrow> (Inl e, s) | (None, s) \<Rightarrow>
      case openQualityCircuit (later 5 cs) (nw 1) (dec_PlanID claimed) (dec_FromChannelID claimed)
          (ejectionEvaluation (dec_FromChannelID claimed) ''operator_approved'' (plainText ''operator-approved quality isolation'') (Fin 0)) (nw 0) s of
        (Inl e, s) \<Rightarrow> finalizeNote (later 21 cs) (nw 2) claimed AutoSwitchFailed RiskLevelL3
            (''approved switch succeeded but circuit persistence failed: '' @ orch_error_Error e) '''' s
      | (Inr _, s) \<Rightarrow> finalizeNote (later 21 cs) (nw 2) claimed AutoSwitchObserving (dec_RiskLevel claimed)
            ''operator-approved switch applied and entered observation'' '''' s)"

definition Execute ::
  "sched_calls \<Rightarrow> (nat \<Rightarrow> time) \<Rightarrow> Reconciler \<Rightarrow> duration \<Rightarrow> RouteStrategy option \<Rightarrow> string \<Rightarrow> SchedulerStore \<Rightarrow>
   (orch_error + AutoSwitchDecision) \<times> SchedulerStore" where
  "Execute cs nw eng obsWindow pinned decisionID s =
     (case storeCall (cs 0) (\<lambda>c now. ClaimApprovedAutoSwitchDecision c now (TrimSpace decisionID) autoSwitchApplyingLease) s of
        (Inl e, s) \<Rightarrow> (Inl e, s)
      | (Inr (claimed, False), s) \<Rightarrow> (Inl (OrchStore ErrConflict), s)
      | (Inr (claimed, True), s) \<Rightarrow>
          let g = withApplyingSideEffectGuard claimed; intent = executeIntent claimed in
          case eng_PlanScheduling eng g (dec_PlanID claimed) intent s of
            ((_, Some e), s) \<Rightarrow> finalizeNote (later 1 cs) (nw 0) claimed AutoSwitchFailed RiskLevelL3
                (''approved decision preflight failed: '' @ e) '''' s
          | ((preview, None), s) \<Rightarrow>
              if \<not> sameSchedulingActions (rcp_Actions (dec_DryRunResult claimed)) (rcp_Actions preview)
              then finalizeNote (later 1 cs) (nw 0) claimed AutoSwitchFailed RiskLevelL3
                ''approved decision is stale; current scheduling preview differs'' '''' s
              else case eng_ApplyScheduling eng g (dec_PlanID claimed) intent s of ((applied, applyErr), s) \<Rightarrow>
                let claimed = claimed\<lparr>dec_DryRunResult := applied\<rparr> in
                case applyErr of
                  Some e \<Rightarrow> executeFailed (later 1 cs) nw eng g claimed e s
                | None \<Rightarrow> executeApplied (later 1 cs) nw obsWindow pinned claimed s)"

section \<open>Observation\<close>

definition minFloat :: "float64 \<Rightarrow> float64 \<Rightarrow> float64" where "minFloat a b = (if flt b a then b else a)"
definition maxFloat :: "float64 \<Rightarrow> float64 \<Rightarrow> float64" where "maxFloat a b = (if flt a b then b else a)"

fun healthRank :: "HealthState \<Rightarrow> int" where
  "healthRank HealthUnknown = 0"
| "healthRank HealthHealthy = 1"
| "healthRank HealthDegraded = 2"
| "healthRank HealthRecovering = 3"
| "healthRank HealthUnhealthy = 4"
| "healthRank HealthQuarantined = 5"
| "healthRank (HealthStateOther _) = 0"

definition worseHealthState :: "HealthState \<Rightarrow> HealthState \<Rightarrow> HealthState" where
  "worseHealthState a b = (if healthRank a < healthRank b then b else a)"

text \<open>One round of \<open>conservativeSnapshot\<close>; \<open>out.CreatedAt\<close> is the running \<open>latest\<close>.\<close>

definition mergeSnapshot :: "ChannelHealthSnapshot \<Rightarrow> ChannelHealthSnapshot \<Rightarrow> ChannelHealthSnapshot" where
  "mergeSnapshot snap out =
     (if snap_InstanceID snap \<noteq> snap_InstanceID out then out
      else let least = (\<lambda>f. minFloat (f out) (f snap)); most = (\<lambda>f. maxFloat (f out) (f snap)); total = (\<lambda>f. wrap64 (f out + f snap));
               out = out\<lparr>snap_SampleCount := total snap_SampleCount, snap_QualitySampleCount := total snap_QualitySampleCount,
                 snap_UpstreamFailureCount := total snap_UpstreamFailureCount, snap_AuthFailureCount := total snap_AuthFailureCount,
                 snap_InsufficientBalanceCount := total snap_InsufficientBalanceCount,
                 snap_SuccessRate := least snap_SuccessRate, snap_QualitySuccessRate := least snap_QualitySuccessRate,
                 snap_QualityErrorRate := most snap_QualityErrorRate, snap_UpstreamErrorRate := most snap_UpstreamErrorRate,
                 snap_ErrorRate := most snap_ErrorRate, snap_TimeoutRate := most snap_TimeoutRate, snap_RateLimitRate := most snap_RateLimitRate,
                 snap_TTFTP50 := most snap_TTFTP50, snap_TTFTP95 := most snap_TTFTP95, snap_DurationP50 := most snap_DurationP50,
                 snap_DurationP95 := most snap_DurationP95, snap_SuccessScore := least snap_SuccessScore, snap_TTFTScore := least snap_TTFTScore,
                 snap_DurationScore := least snap_DurationScore, snap_StabilityScore := least snap_StabilityScore,
                 snap_HealthScore := least snap_HealthScore, snap_QualityScore := least snap_QualityScore, snap_RiskScore := most snap_RiskScore,
                 snap_HealthState := worseHealthState (snap_HealthState out) (snap_HealthState snap)\<rparr>
           in if snap_CreatedAt out < snap_CreatedAt snap
              then out\<lparr>snap_CreatedAt := snap_CreatedAt snap, snap_BucketStart := snap_BucketStart snap\<rparr> else out)"

definition conservativeSnapshot :: "ChannelHealthSnapshot \<Rightarrow> ChannelHealthSnapshot list \<Rightarrow> ChannelHealthSnapshot" where
  "conservativeSnapshot first rest = fold mergeSnapshot rest (first\<lparr>snap_Model := ''''\<rparr>)"

definition latestSnapshotAfter :: "sched_call \<Rightarrow> RoutePlan \<Rightarrow> string \<Rightarrow> time \<Rightarrow> SchedulerStore \<Rightarrow> ChannelHealthSnapshot \<times> SchedulerStore" where
  "latestSnapshotAfter cl plan channelID watermark s =
     (case listSnapshots cl \<lparr>sf_ChannelID = channelID, sf_InstanceID = pln_InstanceID plan, sf_PoolID = '''', sf_Model = '''', sf_Capability = '''',
             sf_EndpointPath = '''', sf_Window = Window5m, sf_BucketStart = 0,
             sf_Since = (if IsZero watermark then 0 else watermark + 5 * Minute), sf_Limit = 0, sf_ExactScope = False, sf_IncludeHistory = False\<rparr> s of
        (Inr (snap # snaps), s) \<Rightarrow> (conservativeSnapshot snap snaps, s)
      | (_, s) \<Rightarrow> (emptySnapshot\<lparr>snap_ChannelID := channelID, snap_InstanceID := pln_InstanceID plan, snap_Window := Window5m,
                     snap_HealthState := HealthUnknown\<rparr>, s))"

definition latestSnapshot :: "sched_call \<Rightarrow> RoutePlan \<Rightarrow> string \<Rightarrow> SchedulerStore \<Rightarrow> ChannelHealthSnapshot \<times> SchedulerStore" where
  "latestSnapshot cl plan channelID = latestSnapshotAfter cl plan channelID 0"

definition lookupSnapshot :: "sched_call \<Rightarrow> RoutePlan \<Rightarrow> string \<Rightarrow> SchedulerStore \<Rightarrow> ChannelHealthSnapshot option \<times> SchedulerStore" where
  "lookupSnapshot cl plan i s =
     (if i = '''' then (None, s)
      else let (snap, s) = latestSnapshot cl plan i s
           in (if snap_SampleCount snap = 0 \<and> snap_HealthState snap = HealthUnknown then None else Some snap, s))"

definition channelHealthy :: "sched_calls \<Rightarrow> RouteStrategy \<Rightarrow> RoutePlan \<Rightarrow> string \<Rightarrow> SchedulerStore \<Rightarrow> bool \<times> SchedulerStore" where
  "channelHealthy cs strat plan channelID s =
     (if channelID = '''' then (False, s)
      else case GetUpstreamChannel (cs 0) channelID s of (Inl _, s) \<Rightarrow> (False, s) | (Inr ch, s) \<Rightarrow>
      let (snap, s) = latestSnapshot (cs 1) plan channelID s
      in (rk_Eligible (RankByPenalty strat [candidateOf ch snap]) \<noteq> [] \<and> snap_HealthState snap = HealthHealthy, s))"

definition restoreObservationClaim :: "sched_calls \<Rightarrow> AutoSwitchDecision \<Rightarrow> orch_error \<Rightarrow> SchedulerStore \<Rightarrow> orch_error \<times> SchedulerStore" where
  "restoreObservationClaim cs d cause s =
     (case leaveApplying cs (d\<lparr>dec_Status := AutoSwitchObserving, dec_LeaseUntil := None\<rparr>) s of
        (Inl e, s) \<Rightarrow> (OrchJoin cause e, s)
      | (Inr _, s) \<Rightarrow> (cause, s))"

text \<open>The notes of \<open>Observe\<close> in UTF-8.\<close>

definition text_observed :: string where
  "text_observed = map byte [232, 167, 130, 229, 175, 159, 230, 156, 159, 233, 128, 154, 232, 191, 135, 239, 188, 140, 229, 136, 135, 230, 141,
    162, 231, 148, 159, 230, 149, 136, 239, 188, 140, 229, 164, 135, 231, 148, 168, 230, 184, 160, 233, 129, 147, 230, 156,
    141, 229, 138, 161, 230, 173, 163, 229, 184, 184]"

definition text_rollback_failed :: string where
  "text_rollback_failed = map byte [229, 155, 158, 230, 187, 154, 32, 97, 112, 112, 108, 121, 32, 229, 164, 177, 232, 180, 165, 58, 32]"

definition text_rollback_error :: string where
  "text_rollback_error = map byte [232, 167, 130, 229, 175, 159, 230, 156, 159, 230, 156, 170, 232, 190, 190, 230, 160, 135, 239, 188, 140, 229, 155,
    158, 230, 187, 154, 230, 137, 167, 232, 161, 140, 229, 135, 186, 233, 148, 153, 239, 188, 140, 232, 175, 183, 231, 171,
    139, 229, 141, 179, 228, 186, 186, 229, 183, 165, 228, 187, 139, 229, 133, 165]"

definition text_drained :: string where
  "text_drained = map byte [230, 155, 191, 228, 187, 163, 230, 184, 160, 233, 129, 147, 232, 167, 130, 229, 175, 159, 230, 156, 170, 232, 190,
    190, 230, 160, 135, 239, 188, 140, 229, 183, 178, 229, 177, 128, 233, 131, 168, 230, 145, 152, 233, 153, 164, 239, 188,
    155, 229, 142, 159, 230, 184, 160, 233, 129, 147, 228, 187, 141, 233, 154, 148, 231, 166, 187, 239, 188, 140, 229, 189,
    147, 229, 137, 141, 228, 184, 139, 230, 184, 184, 32, 102, 97, 105, 108, 45, 99, 108, 111, 115, 101, 100, 239, 188, 140,
    231, 173, 137, 229, 190, 133, 228, 184, 187, 229, 138, 168, 230, 142, 162, 230, 181, 139, 230, 136, 150, 229, 133, 182,
    228, 187, 150, 229, 129, 165, 229, 186, 183, 230, 157, 165, 230, 186, 144]"

text \<open>The evaluation that a replacement is ejected with.\<close>

definition replacementEvaluation :: "sched_calls \<Rightarrow> RouteStrategy \<Rightarrow> RoutePlan \<Rightarrow> string \<Rightarrow> SchedulerStore \<Rightarrow> PenaltyEvaluation \<times> SchedulerStore" where
  "replacementEvaluation cs strat plan channelID s =
     (let reason = \<lparr>reason_Code = ''replacement_observation_failed'', reason_Text = plainText ''replacement failed its observation window''\<rparr>;
          fallback = ejectionEvaluation channelID (reason_Code reason) (reason_Text reason) (Fin 0);
          (snap, s) = lookupSnapshot (cs 0) plan channelID s in
      case snap of None \<Rightarrow> (fallback, s) | Some snap \<Rightarrow>
      case GetUpstreamChannel (cs 1) channelID s of
        (Inl _, s) \<Rightarrow> (fallback, s)
      | (Inr ch, s) \<Rightarrow>
          let ev = (EvaluatePenalty strat (candidateOf ch snap))\<lparr>pe_Eject := True\<rparr>
          in (if reason_Code (pe_Reason ev) = '''' then ev\<lparr>pe_Reason := reason\<rparr> else ev, s))"

definition ejectReplacement ::
  "sched_calls \<Rightarrow> time \<Rightarrow> RouteStrategy \<Rightarrow> RoutePlan \<Rightarrow> AutoSwitchDecision \<Rightarrow> string option \<Rightarrow> time \<Rightarrow> SchedulerStore \<Rightarrow> string option \<times> SchedulerStore" where
  "ejectReplacement cs onow strat plan d applyErr now s =
     (let (ev, s) = replacementEvaluation cs strat plan (dec_ToChannelID d) s in
      case renewApplyingLease (cs 2) d s of
        (Some e, s) \<Rightarrow> (Some (case applyErr of None \<Rightarrow> orch_error_Error e | Some t \<Rightarrow> t @ ''; renew applying lease: '' @ orch_error_Error e), s)
      | (None, s) \<Rightarrow>
          case openQualityCircuit (later 3 cs) onow (pln_ID plan) (dec_ToChannelID d) ev now s of
            (Inl e, s) \<Rightarrow> (Some (case applyErr of None \<Rightarrow> ''persist replacement quality circuit: '' @ orch_error_Error e
                | Some t \<Rightarrow> t @ ''; persist replacement quality circuit: '' @ orch_error_Error e), s)
          | (Inr _, s) \<Rightarrow> (applyErr, s))"

definition observeFailed ::
  "sched_calls \<Rightarrow> time \<Rightarrow> Reconciler \<Rightarrow> effect_guard \<Rightarrow> RouteStrategy \<Rightarrow> RoutePlan \<Rightarrow> AutoSwitchDecision \<Rightarrow> time \<Rightarrow> SchedulerStore \<Rightarrow>
   (orch_error + AutoSwitchDecision) \<times> SchedulerStore" where
  "observeFailed cs onow eng g strat plan d now s =
     (case eng_ApplyScheduling eng g (pln_ID plan) (if dec_ToChannelID d \<noteq> '''' then [(dec_ToChannelID d, False)] else []) s of
        ((rolled, applyErr), s) \<Rightarrow>
          let (disabled, s) = (if dec_ToChannelID d = '''' then (False, s)
                else if applyErr = None then (True, s) else bindingDisabled (cs 0) (pln_ID plan) (dec_ToChannelID d) s);
              (applyErr, s) = (if disabled then ejectReplacement (later 1 cs) onow strat plan d applyErr now s else (applyErr, s));
              d = d\<lparr>dec_Status := AutoSwitchRolledBack, dec_LeaseUntil := None, dec_ResolvedAt := Some now, dec_DryRunResult := rolled\<rparr>;
              d = (case applyErr of
                     Some t \<Rightarrow> d\<lparr>dec_Error := text_rollback_failed @ t, dec_ObservationNote := text_rollback_error\<rparr>
                   | None \<Rightarrow> d\<lparr>dec_ObservationNote := text_drained\<rparr>)
          in leaveApplying (later 20 cs) d s)"

definition Observe ::
  "sched_calls \<Rightarrow> (nat \<Rightarrow> time) \<Rightarrow> Reconciler \<Rightarrow> RouteStrategy option \<Rightarrow> string \<Rightarrow> SchedulerStore \<Rightarrow>
   (orch_error + AutoSwitchDecision) \<times> SchedulerStore" where
  "Observe cs nw eng pinned decisionID s =
     (case getDecision (cs 0) decisionID s of (Inl e, s) \<Rightarrow> (Inl (OrchStore e), s) | (Inr d, s) \<Rightarrow>
      if dec_Status d \<noteq> AutoSwitchObserving then (Inr d, s)
      else if (case dec_ObserveUntil d of None \<Rightarrow> False | Some u \<Rightarrow> nw 0 < u) then (Inr d, s)
      else case storeCall (cs 1) (\<lambda>c now. ClaimAutoSwitchObservation c now
             (d\<lparr>dec_Status := AutoSwitchApplying, dec_LeaseUntil := Some (nw 0 + autoSwitchApplyingLease)\<rparr>) autoSwitchApplyingLease) s of
        (Inl e, s) \<Rightarrow> if e \<noteq> OrchStore ErrConflict then (Inl e, s)
            else (case getDecision (cs 2) decisionID s of (Inl e, s) \<Rightarrow> (Inl (OrchStore e), s) | (Inr d, s) \<Rightarrow> (Inr d, s))
      | (Inr d, s) \<Rightarrow>
          case GetRoutePlan (cs 2) (dec_PlanID d) s of
            (Inl e, s) \<Rightarrow> let (e, s) = restoreObservationClaim (later 3 cs) d (OrchStore e) s in (Inl e, s)
          | (Inr plan, s) \<Rightarrow>
              let (strat, s) = strategyFor (later 3 cs) pinned plan s;
                  (healthy, s) = channelHealthy (later 6 cs) strat plan (dec_ToChannelID d) s in
              if healthy
              then leaveApplying (later 8 cs) (d\<lparr>dec_Status := AutoSwitchCompleted, dec_LeaseUntil := None, dec_ResolvedAt := Some (nw 0),
                     dec_ObservationNote := text_observed\<rparr>) s
              else observeFailed (later 8 cs) (nw 1) eng (withApplyingSideEffectGuard d) strat plan d (nw 0) s)"

fun observeAll ::
  "(nat \<Rightarrow> sched_calls) \<Rightarrow> (nat \<Rightarrow> nat \<Rightarrow> time) \<Rightarrow> Reconciler \<Rightarrow> RouteStrategy option \<Rightarrow> AutoSwitchDecision list \<Rightarrow>
   AutoSwitchDecision list \<Rightarrow> SchedulerStore \<Rightarrow> (AutoSwitchDecision list \<times> orch_error option) \<times> SchedulerStore" where
  "observeAll cs nw eng pinned [] out s = ((out, None), s)"
| "observeAll cs nw eng pinned (d # ds) out s =
     (case Observe (cs 0) (nw 0) eng pinned (dec_ID d) s of
        (Inl e, s) \<Rightarrow> ((out, Some e), s)
      | (Inr r, s) \<Rightarrow> observeAll (\<lambda>i. cs (Suc i)) (\<lambda>i. nw (Suc i)) eng pinned ds (out @ [r]) s)"

definition ObservePending ::
  "sched_call \<Rightarrow> (nat \<Rightarrow> sched_calls) \<Rightarrow> (nat \<Rightarrow> nat \<Rightarrow> time) \<Rightarrow> Reconciler \<Rightarrow> RouteStrategy option \<Rightarrow> string \<Rightarrow> SchedulerStore \<Rightarrow>
   (AutoSwitchDecision list \<times> orch_error option) \<times> SchedulerStore" where
  "ObservePending cl cs nw eng pinned planID s =
     (case ListAutoSwitchDecisions cl \<lparr>adf_PlanID = planID, adf_InstanceID = '''', adf_PoolID = '''', adf_UserID = 0,
             adf_Statuses = [AutoSwitchObserving], adf_Limit = 0\<rparr> s of
        (Inl e, s) \<Rightarrow> (([], Some (OrchStore e)), s)
      | (Inr ds, s) \<Rightarrow> observeAll cs nw eng pinned ds [] s)"

end
