(* ===== verification/Decision_Repair.thy ===== *)
theory Decision_Repair
  imports Switch_Actions
begin

text \<open>
  The repair of decisions whose worker has died, \<open>decision_repair.go\<close>, and the contract under
  which every operation on decisions is shown to keep to the protocols of the circuits and of
  the leases. The contract is the locale \<open>store_contract\<close>; a client lemma of it says that an
  operation keeps the relation \<open>R\<close> when the environment and the publish engine do.
\<close>

section \<open>Repair\<close>

definition decisionSchedulingIntent :: "AutoSwitchDecision \<Rightarrow> (string \<times> bool) list" where
  "decisionSchedulingIntent d =
     (let desired = (if dec_ToChannelID d \<noteq> '''' then [(dec_ToChannelID d, True)] else [])
      in if dec_FromChannelID d \<noteq> '''' then AList.update (dec_FromChannelID d) False desired else desired)"

definition schedulingIntentSatisfied :: "ReconcilePlan \<Rightarrow> (string \<times> bool) list \<Rightarrow> bool" where
  "schedulingIntentSatisfied preview desired \<longleftrightarrow> desired \<noteq> [] \<and> rcp_Actions preview = []"

definition schedulingAction :: "ReconcilePlan \<Rightarrow> string \<Rightarrow> string option" where
  "schedulingAction preview channelID = map_option act_Type (find (\<lambda>a. act_ChannelID a = channelID) (rcp_Actions preview))"

definition isObservationClaim :: "AutoSwitchDecision \<Rightarrow> bool" where
  "isObservationClaim d \<longleftrightarrow> dec_AutoApplied d \<and> dec_AppliedAt d \<noteq> None \<and> dec_ObserveUntil d \<noteq> None"

definition hasPublishedBinding :: "sched_call \<Rightarrow> string \<Rightarrow> string \<Rightarrow> SchedulerStore \<Rightarrow> bool \<times> SchedulerStore" where
  "hasPublishedBinding cl planID channelID s =
     (case ListPublishedBindings cl planID s of
        (Inl _, s) \<Rightarrow> (False, s)
      | (Inr bindings, s) \<Rightarrow> (list_ex (\<lambda>b. bnd_ChannelID b = channelID) bindings, s))"

definition ensureQualityCircuitOpen ::
  "sched_calls \<Rightarrow> time \<Rightarrow> RouteStrategy option \<Rightarrow> RoutePlan \<Rightarrow> string \<Rightarrow> string \<Rightarrow> string \<Rightarrow> time \<Rightarrow> SchedulerStore \<Rightarrow>
   orch_error option \<times> SchedulerStore" where
  "ensureQualityCircuitOpen cs onow pinned plan channelID code t now s =
     (if channelID = '''' then (None, s)
      else case getCircuit (cs 0) (pln_ID plan) channelID s of (got, s) \<Rightarrow>
      if (case got of Inr current \<Rightarrow> qualityCircuitBlocksScheduling (qr_State current) | Inl _ \<Rightarrow> False) then (None, s)
      else if (case got of Inl e \<Rightarrow> e \<noteq> ErrNotFound | Inr _ \<Rightarrow> False)
      then (case got of Inl e \<Rightarrow> Some (OrchStore e) | Inr _ \<Rightarrow> None, s)
      else
      let (evaluation, s) = (case GetUpstreamChannel (cs 1) channelID s of
            (Inl _, s) \<Rightarrow> (ejectionEvaluation channelID code (plainText t) (Fin 0), s)
          | (Inr channel, s) \<Rightarrow>
              let (snapshot, s) = latestSnapshot (cs 2) plan channelID s; (strat, s) = strategyFor (later 3 cs) pinned plan s
              in ((EvaluatePenalty strat (candidateOf channel snapshot))\<lparr>pe_Eject := True,
                    pe_Reason := \<lparr>reason_Code = code, reason_Text = plainText t\<rparr>\<rparr>, s))
      in case openQualityCircuit (later 6 cs) onow (pln_ID plan) channelID evaluation now s of
           (Inl e, s) \<Rightarrow> (Some e, s)
         | (Inr _, s) \<Rightarrow> (None, s))"

text \<open>The guard of a drain for a suspended plan.\<close>

definition suspendedGuard :: "AutoSwitchDecision \<Rightarrow> string \<Rightarrow> effect_guard" where
  "suspendedGuard d planID cs s =
     (case GetRoutePlan (cs 0) planID s of
        (Inl e, s) \<Rightarrow> (Some (OrchStore e), s)
      | (Inr current, s) \<Rightarrow>
          if pln_Status current \<noteq> RoutePlanSuspended then (Some (OrchStore ErrConflict), s)
          else if pln_SchedulingGeneration current \<noteq> dec_SchedulingGeneration d then (Some (OrchStore ErrConflict), s)
          else renewApplyingLease (cs 1) d s)"

definition only_error :: "('e + 'a) \<times> SchedulerStore \<Rightarrow> 'e option \<times> SchedulerStore" where
  "only_error r = (case r of (Inl e, s) \<Rightarrow> (Some e, s) | (Inr _, s) \<Rightarrow> (None, s))"

definition drainBoth :: "AutoSwitchDecision \<Rightarrow> (string \<times> bool) list" where
  "drainBoth d =
     (let desired = (if dec_FromChannelID d \<noteq> '''' then [(dec_FromChannelID d, False)] else [])
      in if dec_ToChannelID d \<noteq> '''' then AList.update (dec_ToChannelID d) False desired else desired)"

definition terminateSuspendedApplyingDecision ::
  "sched_calls \<Rightarrow> time \<Rightarrow> Reconciler \<Rightarrow> RoutePlan \<Rightarrow> AutoSwitchDecision \<Rightarrow> SchedulerStore \<Rightarrow> orch_error option \<times> SchedulerStore" where
  "terminateSuspendedApplyingDecision cs onow eng plan d s =
     (case GetRoutePlan (cs 0) (pln_ID plan) s of (Inl e, s) \<Rightarrow> (Some (OrchStore e), s) | (Inr currentPlan, s) \<Rightarrow>
      if pln_Status currentPlan \<noteq> RoutePlanSuspended then (Some (OrchStore ErrConflict), s)
      else
      let finish = (\<lambda>d. only_error \<circ> finalizeNote (later 2 cs) onow d AutoSwitchFailed RiskLevelL3
            ''expired switch canceled because route plan is suspended''
            ''source and replacement were drained; the route plan remains suspended'') in
      if drainBoth d = [] then finish d s
      else case renewApplyingLease (cs 1) d s of (Some e, s) \<Rightarrow> (Some e, s) | (None, s) \<Rightarrow>
      case eng_ApplyScheduling eng (suspendedGuard d (pln_ID plan)) (pln_ID plan) (drainBoth d) s of
        ((_, Some e), s) \<Rightarrow> (Some (OrchMessage (''terminate expired decision '' @ dec_ID d @ '' for suspended plan: drain gateway state: '' @ e)), s)
      | ((drained, None), s) \<Rightarrow> finish (d\<lparr>dec_DryRunResult := drained\<rparr>) s)"

definition completeAppliedDecisionRepair ::
  "sched_calls \<Rightarrow> time \<Rightarrow> Reconciler \<Rightarrow> effect_guard \<Rightarrow> duration \<Rightarrow> RouteStrategy option \<Rightarrow> RoutePlan \<Rightarrow> AutoSwitchDecision \<Rightarrow>
   (string \<times> bool) list \<Rightarrow> time \<Rightarrow> SchedulerStore \<Rightarrow> orch_error option \<times> SchedulerStore" where
  "completeAppliedDecisionRepair cs onow eng g obsWindow pinned plan d desired now s =
     (case renewApplyingLease (cs 0) d s of (Some e, s) \<Rightarrow> (Some e, s) | (None, s) \<Rightarrow>
      case eng_ApplyScheduling eng g (pln_ID plan) desired s of
        ((_, Some e), s) \<Rightarrow> (Some (OrchMessage (''repair expired decision '' @ dec_ID d @ '': persist applied gateway state: '' @ e)), s)
      | ((applied, None), s) \<Rightarrow>
          let d = d\<lparr>dec_DryRunResult := applied, dec_AutoApplied := True, dec_AppliedAt := timePointer now\<rparr> in
          case renewApplyingLease (cs 1) d s of (Some e, s) \<Rightarrow> (Some e, s) | (None, s) \<Rightarrow>
          case ensureQualityCircuitOpen (later 2 cs) onow pinned plan (dec_FromChannelID d) ''expired_apply_repaired''
              ''gateway switch completed before scheduler restart'' now s of
            (Some e, s) \<Rightarrow> (Some e, s)
          | (None, s) \<Rightarrow>
              if dec_ToChannelID d = ''''
              then only_error (finalizeNote (later 30 cs) onow d AutoSwitchCompleted RiskLevelL3
                     ''repaired an expired fail-closed ejection'' ''gateway state was already applied; durable decision and circuit were repaired'' s)
              else let (strat, s) = strategyFor (later 30 cs) pinned plan s;
                       d = d\<lparr>dec_ObserveUntil := Some (now + observationWindow obsWindow strat)\<rparr>
                   in only_error (finalizeNote (later 33 cs) onow d AutoSwitchObserving RiskLevelL1
                        ''repaired an applied switch after scheduler restart'' ''gateway state was already applied; observation resumed'' s))"

definition abortPartialDecisionRepair ::
  "sched_calls \<Rightarrow> time \<Rightarrow> Reconciler \<Rightarrow> effect_guard \<Rightarrow> RouteStrategy option \<Rightarrow> RoutePlan \<Rightarrow> AutoSwitchDecision \<Rightarrow> ReconcilePlan \<Rightarrow> time \<Rightarrow>
   SchedulerStore \<Rightarrow> orch_error option \<times> SchedulerStore" where
  "abortPartialDecisionRepair cs onow eng g pinned plan d preview now s =
     (let (sourceAlreadyDisabled, s) =
            (if dec_FromChannelID d \<noteq> '''' \<and> schedulingAction preview (dec_FromChannelID d) = None
             then hasPublishedBinding (cs 0) (pln_ID plan) (dec_FromChannelID d) s else (False, s));
          cleanup = (if dec_ToChannelID d \<noteq> '''' then [(dec_ToChannelID d, False)] else []);
          cleanup = (if sourceAlreadyDisabled \<and> dec_FromChannelID d \<noteq> '''' then AList.update (dec_FromChannelID d) False cleanup else cleanup);
          finish = (\<lambda>d. only_error \<circ> finalizeNote (later 30 cs) onow d AutoSwitchFailed RiskLevelL3
            ''expired switch claim was not fully applied'' ''partial replacement state was drained; a fresh quality evaluation may retry'');
          isolate = (\<lambda>d s. if \<not> sourceAlreadyDisabled then finish d s
            else let d = d\<lparr>dec_AutoApplied := True, dec_AppliedAt := timePointer now\<rparr> in
              case renewApplyingLease (cs 2) d s of (Some e, s) \<Rightarrow> (Some e, s) | (None, s) \<Rightarrow>
              case ensureQualityCircuitOpen (later 3 cs) onow pinned plan (dec_FromChannelID d) ''expired_partial_apply''
                  ''source was disabled before scheduler restart'' now s of
                (Some e, s) \<Rightarrow> (Some e, s)
              | (None, s) \<Rightarrow> finish d s)
      in if cleanup = [] then isolate d s
         else case renewApplyingLease (cs 1) d s of (Some e, s) \<Rightarrow> (Some e, s) | (None, s) \<Rightarrow>
         case eng_ApplyScheduling eng g (pln_ID plan) cleanup s of
           ((_, Some e), s) \<Rightarrow> (Some (OrchMessage (''repair expired decision '' @ dec_ID d @ '': drain partial gateway state: '' @ e)), s)
         | ((cleaned, None), s) \<Rightarrow> isolate (d\<lparr>dec_DryRunResult := cleaned\<rparr>) s)"

text \<open>A conflict at the end means that another worker was faster.\<close>

definition leaveQuietly :: "sched_calls \<Rightarrow> AutoSwitchDecision \<Rightarrow> SchedulerStore \<Rightarrow> orch_error option \<times> SchedulerStore" where
  "leaveQuietly cs d s =
     (case renewApplyingLease (cs 0) d s of (Some e, s) \<Rightarrow> (Some e, s) | (None, s) \<Rightarrow>
      case storeCall (cs 1) (\<lambda>c now. TransitionAutoSwitchDecision c now d AutoSwitchApplying) s of (r, s) \<Rightarrow> (absorbed r, s))"

definition repairExpiredObservationClaim ::
  "sched_calls \<Rightarrow> time \<Rightarrow> Reconciler \<Rightarrow> effect_guard \<Rightarrow> RouteStrategy option \<Rightarrow> RoutePlan \<Rightarrow> AutoSwitchDecision \<Rightarrow> ReconcilePlan \<Rightarrow> time \<Rightarrow>
   SchedulerStore \<Rightarrow> orch_error option \<times> SchedulerStore" where
  "repairExpiredObservationClaim cs onow eng g pinned plan d preview now s =
     (if schedulingIntentSatisfied preview (decisionSchedulingIntent d)
      then leaveQuietly cs (d\<lparr>dec_Status := AutoSwitchObserving, dec_LeaseUntil := None\<rparr>) s
      else case renewApplyingLease (cs 0) d s of (Some e, s) \<Rightarrow> (Some e, s) | (None, s) \<Rightarrow>
      case eng_ApplyScheduling eng g (pln_ID plan) (drainBoth d) s of
        ((_, Some e), s) \<Rightarrow> (Some (OrchMessage (''repair expired observation '' @ dec_ID d @ '': enforce fail-closed state: '' @ e)), s)
      | ((cleaned, None), s) \<Rightarrow>
          let d = d\<lparr>dec_DryRunResult := cleaned\<rparr> in
          case renewApplyingLease (cs 1) d s of (Some e, s) \<Rightarrow> (Some e, s) | (None, s) \<Rightarrow>
          case ensureQualityCircuitOpen (later 2 cs) onow pinned plan (dec_ToChannelID d) ''expired_observation_repaired''
              ''replacement failed while observation claim was in progress'' now s of
            (Some e, s) \<Rightarrow> (Some e, s)
          | (None, s) \<Rightarrow> leaveQuietly (later 30 cs) (d\<lparr>dec_Status := AutoSwitchRolledBack, dec_ResolvedAt := Some now, dec_LeaseUntil := None,
              dec_ObservationNote := ''observation repair drained the replacement; the downstream remains fail-closed until a healthy source recovers''\<rparr>) s)"

definition repairExpiredApplyingDecision ::
  "sched_calls \<Rightarrow> time \<Rightarrow> Reconciler \<Rightarrow> duration \<Rightarrow> RouteStrategy option \<Rightarrow> RoutePlan \<Rightarrow> AutoSwitchDecision \<Rightarrow> time \<Rightarrow>
   SchedulerStore \<Rightarrow> orch_error option \<times> SchedulerStore" where
  "repairExpiredApplyingDecision cs onow eng obsWindow pinned plan d now s =
     (case renewApplyingLease (cs 0) d s of (Some e, s) \<Rightarrow> (Some e, s) | (None, s) \<Rightarrow>
      if pln_Status plan = RoutePlanSuspended then terminateSuspendedApplyingDecision (later 1 cs) onow eng plan d s
      else
      let g = withApplyingSideEffectGuard d; desired = decisionSchedulingIntent d in
      case eng_PlanScheduling eng g (pln_ID plan) desired s of
        ((_, Some e), s) \<Rightarrow> (Some (OrchMessage (''repair expired decision '' @ dec_ID d @ '': verify gateway state: '' @ e)), s)
      | ((preview, None), s) \<Rightarrow>
          if isObservationClaim d then repairExpiredObservationClaim (later 1 cs) onow eng g pinned plan d preview now s
          else if schedulingIntentSatisfied preview desired
          then completeAppliedDecisionRepair (later 1 cs) onow eng g obsWindow pinned plan d desired now s
          else abortPartialDecisionRepair (later 1 cs) onow eng g pinned plan d preview now s)"

definition repairExpired ::
  "sched_calls \<Rightarrow> time \<Rightarrow> Reconciler \<Rightarrow> duration \<Rightarrow> RouteStrategy option \<Rightarrow> RoutePlan \<Rightarrow> time \<Rightarrow> AutoSwitchDecision \<Rightarrow>
   SchedulerStore \<Rightarrow> orch_error option \<times> SchedulerStore" where
  "repairExpired cs onow eng obsWindow pinned plan now d s =
     (case storeCall (WithoutCancel cs 0) (\<lambda>c t. ClaimExpiredAutoSwitchDecision c t (dec_ID d) now (now - autoSwitchApplyingLease)
             (now + autoSwitchApplyingLease)) s of
        (Inl e, s) \<Rightarrow> (Some e, s)
      | (Inr (claimed, False), s) \<Rightarrow> (None, s)
      | (Inr (claimed, True), s) \<Rightarrow> repairExpiredApplyingDecision (later 1 cs) onow eng obsWindow pinned plan claimed now s)"

definition repairExpiredApplyingDecisions ::
  "sched_call \<Rightarrow> (nat \<Rightarrow> sched_calls) \<Rightarrow> (nat \<Rightarrow> time) \<Rightarrow> Reconciler \<Rightarrow> duration \<Rightarrow> RouteStrategy option \<Rightarrow> RoutePlan \<Rightarrow>
   SchedulerStore \<Rightarrow> orch_error option \<times> SchedulerStore" where
  "repairExpiredApplyingDecisions cl cs nw eng obsWindow pinned plan s =
     (case ListAutoSwitchDecisions cl \<lparr>adf_PlanID = pln_ID plan, adf_InstanceID = '''', adf_PoolID = '''', adf_UserID = 0,
             adf_Statuses = [AutoSwitchApplying], adf_Limit = 100\<rparr> s of
        (Inl e, s) \<Rightarrow> (Some (OrchStore e), s)
      | (Inr ds, s) \<Rightarrow> first_error (\<lambda>i d. repairExpired (cs i) (nw (Suc i)) eng obsWindow pinned plan (nw 0) d) ds s)"


section \<open>What the operations keep\<close>

text \<open>A publish engine respects a relation between stores when it keeps it, given a guard that does.\<close>

definition engine_keeps ::
  "(SchedulerStore \<Rightarrow> SchedulerStore \<Rightarrow> bool) \<Rightarrow> (sched_call \<Rightarrow> bool) \<Rightarrow> Reconciler \<Rightarrow> bool" where
  "engine_keeps R fine eng \<longleftrightarrow> (\<forall>g p d s. (\<forall>cs s. (\<forall>k. fine (cs k)) \<longrightarrow> R s (snd (g cs s))) \<longrightarrow>
     R s (snd (eng_PlanScheduling eng g p d s)) \<and> R s (snd (eng_ApplyScheduling eng g p d s)))"

named_theorems keeps \<open>operations that keep the relation of a store contract\<close>

text \<open>The contract of a relation that the store calls of the scheduler keep: then the operations do.\<close>

locale store_contract =
  fixes R :: "SchedulerStore \<Rightarrow> SchedulerStore \<Rightarrow> bool" and fine :: "sched_call \<Rightarrow> bool"
  assumes keep_refl: "R s s"
    and keep_trans: "R s t \<Longrightarrow> R t u \<Longrightarrow> R s u"
    and keep_env: "fine cl \<Longrightarrow> R s (call_env cl s)"
    and fine_uncancelled: "fine cl \<Longrightarrow> fine (cl\<lparr>call_Err := None\<rparr>)"
    and keep_renew: "R s (snd (RenewAutoSwitchDecisionLease c now i v l s))"
    and keep_claims: "R s (snd (ClaimApprovedAutoSwitchDecision c now i l s))"
      "R s (snd (ClaimAutoSwitchObservation c now d l s))" "R s (snd (ClaimExpiredAutoSwitchDecision c now i now1 now2 now3 s))"
    and keep_transition: "x \<in> {AutoSwitchProposed, AutoSwitchApplying} \<Longrightarrow> R s (snd (TransitionAutoSwitchDecision c now d x s))"
    and keep_open: "(\<And>k. fine (cs k)) \<Longrightarrow> R s (snd (openQualityCircuit cs onow p ch ev now s))"
begin

definition fine_calls :: "sched_calls \<Rightarrow> bool" where
  "fine_calls cs \<longleftrightarrow> (\<forall>k. fine (cs k))"

lemma fine_call [simp]: "fine_calls cs \<Longrightarrow> fine (cs k)"
  by (simp add: fine_calls_def)

lemma fine_later [simp]: "fine_calls cs \<Longrightarrow> fine_calls (later n cs)" "fine_calls cs \<Longrightarrow> fine_calls (WithoutCancel cs)"
  by (simp_all add: fine_calls_def later_def WithoutCancel_def fine_uncancelled)

lemma keep_return [keeps]: "R s0 s \<Longrightarrow> R s0 (snd (r, s))"
  by simp

lemma keep_bind [keeps]: "R s0 (snd p) \<Longrightarrow> (\<And>r t. R s0 t \<Longrightarrow> R s0 (snd (g r t))) \<Longrightarrow> R s0 (snd (case p of (r, t) \<Rightarrow> g r t))"
  by (simp add: case_prod_beta)

lemma keep_cases [keeps]:
  "(\<And>e. R s0 (snd (f e))) \<Longrightarrow> (\<And>x. R s0 (snd (g x))) \<Longrightarrow> R s0 (snd (case r of Inl e \<Rightarrow> f e | Inr x \<Rightarrow> g x))"
  "R s0 (snd a) \<Longrightarrow> (\<And>y. R s0 (snd (h y))) \<Longrightarrow> R s0 (snd (case o' of None \<Rightarrow> a | Some y \<Rightarrow> h y))"
  "R s0 (snd a) \<Longrightarrow> R s0 (snd b) \<Longrightarrow> R s0 (snd (if c then a else b))"
  "R s0 (snd a) \<Longrightarrow> R s0 (snd b) \<Longrightarrow> R s0 (snd (case c of True \<Rightarrow> a | False \<Rightarrow> b))"
  "R s0 (snd a) \<Longrightarrow> (\<And>y ys. R s0 (snd (k y ys))) \<Longrightarrow> R s0 (snd (case l of [] \<Rightarrow> a | y # ys \<Rightarrow> k y ys))"
  by (cases r; cases o'; cases c; cases l; simp)+

lemma keep_pairs [keeps]:
  fixes p :: "ReconcilePlan \<times> string option" and q :: "AutoSwitchDecision \<times> bool" and n :: "AutoSwitchDecision \<times> string"
  shows "(\<And>y z. R s0 (snd (f y z))) \<Longrightarrow> R s0 (snd (case p of (y, z) \<Rightarrow> f y z))" "(\<And>y z. R s0 (snd (g y z))) \<Longrightarrow> R s0 (snd (case q of (y, z) \<Rightarrow> g y z))"
    "(\<And>y z. R s0 (snd (h y z))) \<Longrightarrow> R s0 (snd (case n of (y, z) \<Rightarrow> h y z))"
  by (simp_all add: case_prod_beta)

lemma keep_step: "fine cl \<Longrightarrow> R s0 s \<Longrightarrow> R s0 (call_env cl s)"
  using keep_env keep_trans by blast

lemma keep_call [keeps]: "fine cl \<Longrightarrow> (\<And>c now s. R s (snd (f c now s))) \<Longrightarrow> R s0 s \<Longrightarrow> R s0 (snd (storeCall cl f s))"
  unfolding storeCall_def using keep_env keep_trans by blast

lemmas keep_ops [keeps] = keep_renew keep_claims keep_refl

lemma keep_transitions [keeps]:
  "R s (snd (TransitionAutoSwitchDecision c now d AutoSwitchProposed s))" "R s (snd (TransitionAutoSwitchDecision c now d AutoSwitchApplying s))"
  by (simp_all add: keep_transition)

lemma keep_reads [keeps]:
  "fine cl \<Longrightarrow> R s0 s \<Longrightarrow> R s0 (snd (GetRoutePlan cl i s))" "fine cl \<Longrightarrow> R s0 s \<Longrightarrow> R s0 (snd (GetUpstreamChannel cl i s))"
  "fine cl \<Longrightarrow> R s0 s \<Longrightarrow> R s0 (snd (ListPublishedBindings cl i s))" "fine cl \<Longrightarrow> R s0 s \<Longrightarrow> R s0 (snd (getCircuit cl i j s))"
  "fine cl \<Longrightarrow> R s0 s \<Longrightarrow> R s0 (snd (ListAutoSwitchDecisions cl f s))" "fine cl \<Longrightarrow> R s0 s \<Longrightarrow> R s0 (snd (ListRouteStrategies cl g s))"
  by (auto simp: keep_step GetRoutePlan_def GetUpstreamChannel_def ListPublishedBindings_def getCircuit_def ListAutoSwitchDecisions_def
      ListRouteStrategies_def Let_def split: option.splits)

lemma keep_circuit [keeps]: "fine_calls cs \<Longrightarrow> R s0 s \<Longrightarrow> R s0 (snd (openQualityCircuit cs onow p ch ev t s))"
  using keep_open [of cs s] keep_trans by (simp add: fine_calls_def)

lemma keep_lookups [keeps]: "fine_calls cs \<Longrightarrow> R s0 s \<Longrightarrow> R s0 (snd (strategyLookups cs fs s))"
proof (induction cs fs s rule: strategyLookups.induct)
  case (1 cs s)
  then show ?case by simp
next
  case (2 cs f fs s)
  have step: "R s0 (snd (ListRouteStrategies (cs 0) f s))"
    using "2.prems" by (simp add: keep_reads)
  show ?case
    using 2 step by (auto split: prod.splits sum.splits list.splits)
qed

lemma keep_strategy [keeps]: "fine_calls cs \<Longrightarrow> R s0 s \<Longrightarrow> R s0 (snd (strategyFor cs pinned plan s))"
  unfolding strategyFor_def resolvePersistedStrategy_def by (intro keeps; simp)

lemma keep_decision_reads [keeps]:
  "fine cl \<Longrightarrow> R s0 s \<Longrightarrow> R s0 (snd (getDecision cl i s))" "fine cl \<Longrightarrow> R s0 s \<Longrightarrow> R s0 (snd (listSnapshots cl f s))"
  by (simp_all add: getDecision_def listSnapshots_def keep_call keep_refl)

lemma keep_binding_reads [keeps]:
  "fine cl \<Longrightarrow> R s0 s \<Longrightarrow> R s0 (snd (bindingDisabled cl p ch s))" "fine cl \<Longrightarrow> R s0 s \<Longrightarrow> R s0 (snd (hasPublishedBinding cl p ch s))"
  unfolding bindingDisabled_def hasPublishedBinding_def by (intro keeps; simp)+

lemma keep_renewal [keeps]: "fine cl \<Longrightarrow> R s0 s \<Longrightarrow> R s0 (snd (renewApplyingLease cl d s))"
  unfolding renewApplyingLease_def by (intro keeps; simp)


lemma keep_only_error [keeps]: "R s0 (snd p) \<Longrightarrow> R s0 (snd (only_error p))"
  by (auto simp: only_error_def split: prod.splits sum.splits)

lemma keep_leave [keeps]: "fine_calls cs \<Longrightarrow> R s0 s \<Longrightarrow> R s0 (snd (leaveApplying cs d s))"
  "fine_calls cs \<Longrightarrow> R s0 s \<Longrightarrow> R s0 (snd (leaveQuietly cs d s))"
  unfolding leaveApplying_def leaveQuietly_def by (intro keeps; simp)+

lemma keep_finalize [keeps]: "fine_calls cs \<Longrightarrow> R s0 s \<Longrightarrow> R s0 (snd (finalizeNote cs now d st r t note s))"
  unfolding finalizeNote_def by (intro keeps; simp)

lemma keep_guards:
  "fine_calls cs \<Longrightarrow> R s (snd (withApplyingSideEffectGuard d cs s))" "fine_calls cs \<Longrightarrow> R s (snd (suspendedGuard d i cs s))"
  unfolding withApplyingSideEffectGuard_def suspendedGuard_def by (intro keeps; simp)+

lemma keep_engine:
  assumes "engine_keeps R fine eng" "\<And>cs s. fine_calls cs \<Longrightarrow> R s (snd (g cs s))" "R s0 s"
  shows "R s0 (snd (eng_PlanScheduling eng g p d s))" "R s0 (snd (eng_ApplyScheduling eng g p d s))"
  using assms keep_trans [OF assms(3)] unfolding engine_keeps_def fine_calls_def by blast+

lemmas keep_guarded [keeps] = keep_engine [OF _ keep_guards(1)] keep_engine [OF _ keep_guards(2)]

lemma keep_snapshot [keeps]: "fine cl \<Longrightarrow> R s0 s \<Longrightarrow> R s0 (snd (latestSnapshot cl plan ch s))"
  unfolding latestSnapshot_def latestSnapshotAfter_def by (intro keeps; simp)

lemma keep_lookup_snapshot [keeps]: "fine cl \<Longrightarrow> R s0 s \<Longrightarrow> R s0 (snd (lookupSnapshot cl plan ch s))"
  unfolding lookupSnapshot_def Let_def by (intro keeps; simp)

lemma keep_healthy [keeps]: "fine_calls cs \<Longrightarrow> R s0 s \<Longrightarrow> R s0 (snd (channelHealthy cs strat plan ch s))"
  unfolding channelHealthy_def Let_def by (intro keeps; simp)

lemma keep_operators:
  "fine_calls cs \<Longrightarrow> R s (snd (Approve cs i note s))" "fine_calls cs \<Longrightarrow> R s (snd (Reject cs onow i note s))"
  unfolding Approve_def Reject_def by (intro keeps; simp)+

lemma keep_ensure_open [keeps]: "fine_calls cs \<Longrightarrow> R s0 s \<Longrightarrow> R s0 (snd (ensureQualityCircuitOpen cs onow pinned plan ch code t now s))"
  unfolding ensureQualityCircuitOpen_def Let_def by (intro keeps; simp)

lemma keep_execute_applied [keeps]: "fine_calls cs \<Longrightarrow> R s0 s \<Longrightarrow> R s0 (snd (executeApplied cs nw w pinned d s))"
  unfolding executeApplied_def Let_def by (intro keeps; simp)

lemma keep_isolate [keeps]: "fine_calls cs \<Longrightarrow> R s0 s \<Longrightarrow> R s0 (snd (isolateAfterFailure cs nw d note s))"
  unfolding isolateAfterFailure_def Let_def by (intro keeps; simp)

lemma keep_execute_failed [keeps]:
  "engine_keeps R fine eng \<Longrightarrow> fine_calls cs \<Longrightarrow> R s0 s \<Longrightarrow>
   R s0 (snd (executeFailed cs nw eng (withApplyingSideEffectGuard d') d e s))"
  unfolding executeFailed_def Let_def by (intro keeps; simp)

lemma keep_execute:
  "engine_keeps R fine eng \<Longrightarrow> fine_calls cs \<Longrightarrow> R s (snd (Execute cs nw eng w pinned i s))"
  unfolding Execute_def Let_def by (intro keeps; simp)

lemma keep_restore [keeps]: "fine_calls cs \<Longrightarrow> R s0 s \<Longrightarrow> R s0 (snd (restoreObservationClaim cs d e s))"
  unfolding restoreObservationClaim_def Let_def by (intro keeps; simp)

lemma keep_replacement [keeps]: "fine_calls cs \<Longrightarrow> R s0 s \<Longrightarrow> R s0 (snd (replacementEvaluation cs strat plan ch s))"
  unfolding replacementEvaluation_def Let_def by (intro keeps; simp)

lemma keep_eject_replacement [keeps]: "fine_calls cs \<Longrightarrow> R s0 s \<Longrightarrow> R s0 (snd (ejectReplacement cs onow strat plan d e now s))"
  unfolding ejectReplacement_def Let_def by (intro keeps; simp)

lemma keep_observe_failed [keeps]:
  "engine_keeps R fine eng \<Longrightarrow> fine_calls cs \<Longrightarrow> R s0 s \<Longrightarrow>
   R s0 (snd (observeFailed cs onow eng (withApplyingSideEffectGuard d') strat plan d now s))"
  unfolding observeFailed_def Let_def by (intro keeps; simp)

lemma keep_observe [keeps]:
  "engine_keeps R fine eng \<Longrightarrow> fine_calls cs \<Longrightarrow> R s0 s \<Longrightarrow> R s0 (snd (Observe cs nw eng pinned i s))"
  unfolding Observe_def Let_def by (intro keeps; simp)

lemma keep_observe_all: "engine_keeps R fine eng \<Longrightarrow> (\<And>i. fine_calls (cs i)) \<Longrightarrow> R s0 s \<Longrightarrow> R s0 (snd (observeAll cs nw eng pinned ds out s))"
proof (induction ds arbitrary: cs nw out s)
  case Nil
  then show ?case by simp
next
  case (Cons d ds)
  have "R s0 (snd (Observe (cs 0) (nw 0) eng pinned (dec_ID d) s))" by (intro keeps Cons.prems)
  then show ?case using Cons by (auto split: prod.splits sum.splits)
qed

lemma keep_observe_pending:
  "engine_keeps R fine eng \<Longrightarrow> fine cl \<Longrightarrow> (\<And>i. fine_calls (cs i)) \<Longrightarrow> R s (snd (ObservePending cl cs nw eng pinned i s))"
  unfolding ObservePending_def by (intro keeps keep_observe_all; simp)

lemma keep_repair_steps [keeps]:
  "engine_keeps R fine eng \<Longrightarrow> fine_calls cs \<Longrightarrow> R s0 s \<Longrightarrow> R s0 (snd (terminateSuspendedApplyingDecision cs onow eng plan d s))"
  "engine_keeps R fine eng \<Longrightarrow> fine_calls cs \<Longrightarrow> R s0 s \<Longrightarrow>
   R s0 (snd (completeAppliedDecisionRepair cs onow eng (withApplyingSideEffectGuard d') w pinned plan d ds now s))"
  "engine_keeps R fine eng \<Longrightarrow> fine_calls cs \<Longrightarrow> R s0 s \<Longrightarrow>
   R s0 (snd (abortPartialDecisionRepair cs onow eng (withApplyingSideEffectGuard d') pinned plan d preview now s))"
  "engine_keeps R fine eng \<Longrightarrow> fine_calls cs \<Longrightarrow> R s0 s \<Longrightarrow>
   R s0 (snd (repairExpiredObservationClaim cs onow eng (withApplyingSideEffectGuard d') pinned plan d preview now s))"
  unfolding terminateSuspendedApplyingDecision_def completeAppliedDecisionRepair_def abortPartialDecisionRepair_def
    repairExpiredObservationClaim_def Let_def comp_def by (intro keeps; simp)+

lemma keep_repair_one [keeps]:
  "engine_keeps R fine eng \<Longrightarrow> fine_calls cs \<Longrightarrow> R s0 s \<Longrightarrow> R s0 (snd (repairExpiredApplyingDecision cs onow eng w pinned plan d now s))"
  unfolding repairExpiredApplyingDecision_def Let_def by (intro keeps; simp)

lemma keep_repair:
  "engine_keeps R fine eng \<Longrightarrow> fine_calls cs \<Longrightarrow> R s0 s \<Longrightarrow> R s0 (snd (repairExpired cs onow eng w pinned plan now d s))"
  unfolding repairExpired_def by (intro keeps; simp)

lemma keep_first_error: "(\<And>i d s. R s0 s \<Longrightarrow> R s0 (snd (f i d s))) \<Longrightarrow> R s0 s \<Longrightarrow> R s0 (snd (first_error f ds s))"
proof (induction ds arbitrary: f s)
  case Nil
  then show ?case by simp
next
  case (Cons d ds)
  obtain r t where r: "f 0 d s = (r, t)" by fastforce
  then have "R s0 t" using Cons.prems by (metis snd_conv)
  then show ?case using Cons.IH [of "\<lambda>i. f (Suc i)" t] Cons.prems r by (simp split: option.splits)
qed

lemma keep_repair_sweep:
  "engine_keeps R fine eng \<Longrightarrow> fine cl \<Longrightarrow> (\<And>i. fine_calls (cs i)) \<Longrightarrow>
   R s (snd (repairExpiredApplyingDecisions cl cs nw eng w pinned plan s))"
  unfolding repairExpiredApplyingDecisions_def by (intro keeps keep_first_error keep_repair; simp)

end

section \<open>The two contracts\<close>

text \<open>The first relation: the circuits change by events of the scheduler.\<close>

lemma decisions_leave_circuits:
  "qualityCircuits (snd (RenewAutoSwitchDecisionLease c now i v l s)) = qualityCircuits s"
  "qualityCircuits (snd (ClaimApprovedAutoSwitchDecision c now i l s)) = qualityCircuits s"
  "qualityCircuits (snd (ClaimAutoSwitchObservation c now d l s)) = qualityCircuits s"
  "qualityCircuits (snd (ClaimExpiredAutoSwitchDecision c now i now1 now2 now3 s)) = qualityCircuits s"
  "qualityCircuits (snd (TransitionAutoSwitchDecision c now d x s)) = qualityCircuits s"
  by (auto simp: RenewAutoSwitchDecisionLease_def ClaimApprovedAutoSwitchDecision_def ClaimAutoSwitchObservation_def
      ClaimExpiredAutoSwitchDecision_def TransitionAutoSwitchDecision_def takeLease_def setPlan_def setDecision_def
      advanceRoutePlanGenerationLocked_def Let_def split: option.splits sum.splits)

interpretation by_events: store_contract runs event_env
proof
  fix s t u assume "runs s t" "runs t u"
  then show "runs s u" by (rule runs_trans)
next
  fix cs :: sched_calls and s onow p ch ev now assume "\<And>k. event_env (cs k)"
  then have "event_calls cs" by (simp add: event_calls_def)
  then show "runs s (snd (openQualityCircuit cs onow p ch ev now s))" using runs_open [OF prod.collapse [symmetric]] by blast
qed (auto simp: event_env_def runs_same [OF runs_refl] decisions_leave_circuits)

text \<open>The second: the plans and decisions change by moves of leases.\<close>

definition lease_evolves :: "SchedulerStore \<Rightarrow> SchedulerStore \<Rightarrow> bool" where
  "lease_evolves s s' \<longleftrightarrow> (\<lambda>x y. \<exists>now. lease_move now (fst x) (snd x) (fst y) (snd y))\<^sup>*\<^sup>*
     (routePlans s, autoSwitchDecs s) (routePlans s', autoSwitchDecs s')"

definition lease_env :: "sched_call \<Rightarrow> bool" where
  "lease_env cl \<longleftrightarrow> (\<forall>s. lease_evolves s (call_env cl s))"

lemma moves_evolves: "moves now s s' \<Longrightarrow> lease_evolves s s'"
  unfolding lease_evolves_def by (rule r_into_rtranclp) auto

lemma lease_evolves_trans: "lease_evolves s t \<Longrightarrow> lease_evolves t u \<Longrightarrow> lease_evolves s u"
  unfolding lease_evolves_def by (rule rtranclp_trans)

lemma lease_evolves_circuits: "lease_evolves s (t\<lparr>qualityCircuits := x\<rparr>) = lease_evolves s t"
  by (simp add: lease_evolves_def)

lemma open_loop_evolves:
  "(\<And>k. lease_env (cs k)) \<Longrightarrow> lease_evolves s0 s \<Longrightarrow> lease_evolves s0 (snd (openQualityCircuit_loop n cs p ch ev t s))"
proof (induction n arbitrary: cs s)
  case 0
  then show ?case by simp
next
  case (Suc n)
  have env: "lease_evolves s0 (call_env (cs k) u)" if "lease_evolves s0 u" for k u
    using Suc.prems(1) that lease_evolves_trans by (auto simp: lease_env_def)
  then show ?case using Suc
    by (auto simp: getCircuit_def upsertCircuit_def lease_evolves_circuits later_def Let_def split: prod.splits sum.splits)
qed

lemma run_op_evolves: "op_ok op \<Longrightarrow> lease_evolves s (run_op c now op s)"
  using run_op_moves moves_evolves by blast

interpretation by_leases: store_contract lease_evolves lease_env
proof
  fix cs :: sched_calls and s onow p ch ev now assume "\<And>k. lease_env (cs k)"
  then show "lease_evolves s (snd (openQualityCircuit cs onow p ch ev now s))"
    unfolding openQualityCircuit_eq using open_loop_evolves [of cs s s] by (simp add: lease_evolves_def)
next
  fix c now i v l s d x now1 now2 now3
  show "lease_evolves s (snd (RenewAutoSwitchDecisionLease c now i v l s))" using run_op_evolves [of "OpRenew i v l" s c now] by simp
  show "lease_evolves s (snd (ClaimApprovedAutoSwitchDecision c now i l s))" using run_op_evolves [of "OpClaimApproved i l" s c now] by simp
  show "lease_evolves s (snd (ClaimAutoSwitchObservation c now d l s))" using run_op_evolves [of "OpClaimObservation d l" s c now] by simp
  show "lease_evolves s (snd (ClaimExpiredAutoSwitchDecision c now i now1 now2 now3 s))"
    using run_op_evolves [of "OpClaimExpired i now1 now2 now3" s c now] by simp
  show "x \<in> {AutoSwitchProposed, AutoSwitchApplying} \<Longrightarrow> lease_evolves s (snd (TransitionAutoSwitchDecision c now d x s))"
    using run_op_evolves [of "OpTransition d x" s c now] by simp
qed (auto simp: lease_env_def intro: lease_evolves_trans, simp add: lease_evolves_def)

text \<open>A resolved decision is out of reach of every move.\<close>

lemma lease_move_frozen:
  assumes "lease_move now ps ds ps' ds'" "find_dec ds i = Some d" "isTerminal (dec_Status d)"
  shows "find_dec ds' i = Some d"
proof -
  have f: "find_dec (fence p keep now ds) i = Some d" for p keep
    using assms(2) terminal_inactive [OF assms(3)] by (simp add: fence_find)
  from assms(1) show ?thesis
  proof cases
    case (taken e p dur)
    then have "dec_ID e \<noteq> i" using assms(2,3) by auto
    then show ?thesis using taken(2) f by (simp add: find_put leased_def)
  next
    case (timed e v u)
    then have "dec_ID e \<noteq> i" using assms(2,3) by (auto simp: leaseAlive_def)
    then show ?thesis using timed(2) assms(2) by (simp add: find_put)
  next
    case (resolved e r)
    then have "dec_ID e \<noteq> i" using assms(2,3) by auto
    then show ?thesis using resolved(2) assms(2) by (simp add: find_put)
  qed (use f assms(2) in \<open>simp_all add: find_append\<close>)
qed

lemma lease_evolves_frozen:
  assumes "lease_evolves s s'" "find_decision s i = Some d" "isTerminal (dec_Status d)"
  shows "find_decision s' i = Some d"
proof -
  have "find_dec (snd y) i = Some d"
    if "(\<lambda>x y. \<exists>now. lease_move now (fst x) (snd x) (fst y) (snd y))\<^sup>*\<^sup>* (routePlans s, autoSwitchDecs s) y" for y
    using that
  proof (induction rule: rtranclp_induct)
    case (step y z)
    then show ?case using lease_move_frozen assms(3) by blast
  qed (use assms(2) in simp)
  from this [OF assms(1) [unfolded lease_evolves_def]] show ?thesis by simp
qed

section \<open>What an approval covers\<close>

lemma countActions_eq: "countActions as counts k = counts k + int (count (mset (map schedulingKey as)) k)"
  by (induction as arbitrary: counts) auto

lemma matchActions_iff:
  "(\<And>k. 0 \<le> counts k) \<Longrightarrow> matchActions as counts \<longleftrightarrow> (\<forall>k. int (count (mset (map schedulingKey as)) k) \<le> counts k)"
proof (induction as arbitrary: counts)
  case Nil
  then show ?case by simp
next
  case (Cons a as)
  let ?k = "schedulingKey a"
  show ?case
  proof (cases "counts ?k = 0")
    case True
    then show ?thesis by (auto intro!: exI [of _ ?k])
  next
    case False
    then have "0 < counts ?k" using Cons.prems [of ?k] by simp
    then have "matchActions as (counts(?k := counts ?k - 1)) \<longleftrightarrow>
        (\<forall>k. int (count (mset (map schedulingKey as)) k) \<le> (counts(?k := counts ?k - 1)) k)"
      by (intro Cons.IH) (use Cons.prems in auto)
    with False show ?thesis by (auto split: if_splits)
  qed
qed

text \<open>The comparison of two action lists is equality as multisets of keys.\<close>

lemma sameSchedulingActions_iff:
  "sameSchedulingActions expected actual \<longleftrightarrow> mset (map schedulingKey expected) = mset (map schedulingKey actual)"
proof -
  have "matchActions actual (countActions expected (\<lambda>_. 0)) \<longleftrightarrow> mset (map schedulingKey actual) \<subseteq># mset (map schedulingKey expected)"
    by (subst matchActions_iff) (simp_all add: countActions_eq subseteq_mset_def)
  moreover have "size (mset (map schedulingKey xs)) = length xs" for xs by simp
  ultimately show ?thesis unfolding sameSchedulingActions_def
    by (metis mset_subset_size nless_le subset_mset.le_less)
qed

lemma leaveApplying_status: "leaveApplying cs d s = (Inr r, s') \<Longrightarrow> dec_Status r = dec_Status d"
  by (auto simp: leaveApplying_def storeCall_def TransitionAutoSwitchDecision_def Let_def split: prod.splits option.splits sum.splits if_splits)

lemma finalizeNote_status: "finalizeNote cs now d st risk reason note s = (Inr r, s') \<Longrightarrow> dec_Status r = st"
  unfolding finalizeNote_def by (drule leaveApplying_status) (simp add: finalizedRow_def)

lemma executeFailed_status: "executeFailed cs nw eng g d e s = (Inr r, s') \<Longrightarrow> dec_Status r = AutoSwitchFailed"
  unfolding executeFailed_def Let_def by (auto simp: case_prod_beta dest: finalizeNote_status)

section \<open>Properties\<close>

text \<open>C20. Approving, rejecting, executing and observing a decision and repairing an abandoned one keep to
  the protocol, whatever other workers do between two store calls, as long as they and the publish
  engine keep to it: circuits change only by events of the scheduler, plans and decisions only by
  moves of leases, and a resolved decision is never touched.\<close>

theorem decisions_keep_to_protocol:
  assumes "\<forall>k. event_env (cs k) \<and> lease_env (cs k)" "engine_keeps runs event_env eng" "engine_keeps lease_evolves lease_env eng"
    "s' \<in> {snd (Approve cs i note s), snd (Reject cs onow i note s), snd (Execute cs nw eng w pinned i s),
       snd (Observe cs nw eng pinned i s), snd (repairExpired cs onow eng w pinned plan now d s)}"
  shows "runs s s' \<and> lease_evolves s s' \<and>
    (\<forall>j r. find_decision s j = Some r \<longrightarrow> isTerminal (dec_Status r) \<longrightarrow> find_decision s' j = Some r)"
proof -
  have e: "by_events.fine_calls cs" and l: "by_leases.fine_calls cs"
    using assms(1) by (simp_all add: by_events.fine_calls_def by_leases.fine_calls_def)
  have "runs s s'"
    using assms(4) by_events.keep_operators [OF e] by_events.keep_execute [OF assms(2) e]
      by_events.keep_observe [OF assms(2) e] by_events.keep_repair [OF assms(2) e] by auto
  moreover have "lease_evolves s s'"
    using assms(4) by_leases.keep_operators [OF l] by_leases.keep_execute [OF assms(3) l]
      by_leases.keep_observe [OF assms(3) l by_leases.keep_refl] by_leases.keep_repair [OF assms(3) l by_leases.keep_refl] by auto
  ultimately show ?thesis using lease_evolves_frozen by blast
qed

text \<open>C21. An approval covers exactly the actions the operator saw. When the dry run made right after the
  claim fails, or its actions differ from the approved ones as a multiset of action types and
  channels, \<open>Execute\<close> applies nothing, so that its outcome is the same for every \<open>ApplyScheduling\<close>,
  and a decision that it returns has failed. When they agree, the apply decides: an apply that
  fails makes the decision fail.\<close>

theorem stale_approval_applies_nothing:
  assumes claim: "storeCall (cs 0) (\<lambda>c now. ClaimApprovedAutoSwitchDecision c now (TrimSpace i) autoSwitchApplyingLease) s = (Inr (d, True), s1)"
    and preview: "eng_PlanScheduling eng (withApplyingSideEffectGuard d) (dec_PlanID d) (executeIntent d) s1 = ((preview, e), s2)"
  shows "if e \<noteq> None \<or> mset (map schedulingKey (rcp_Actions (dec_DryRunResult d))) \<noteq> mset (map schedulingKey (rcp_Actions preview))
    then Execute cs nw (eng\<lparr>eng_ApplyScheduling := f\<rparr>) w pinned i s = Execute cs nw eng w pinned i s \<and>
      (\<forall>r s'. Execute cs nw eng w pinned i s = (Inr r, s') \<longrightarrow> dec_Status r = AutoSwitchFailed)
    else (\<forall>applied t s3 r s'.
      eng_ApplyScheduling eng (withApplyingSideEffectGuard d) (dec_PlanID d) (executeIntent d) s2 = ((applied, Some t), s3) \<longrightarrow>
      Execute cs nw eng w pinned i s = (Inr r, s') \<longrightarrow> dec_Status r = AutoSwitchFailed)"
  using claim preview
  by (cases e) (auto simp: Execute_def sameSchedulingActions_iff Let_def dest: finalizeNote_status executeFailed_status)

subsection \<open>Examples\<close>

text \<open>An approved decision, and an engine that asks its guard before it applies.\<close>

definition approved_store :: SchedulerStore where
  "approved_store = lease_store\<lparr>autoSwitchDecs := [sample_decision\<lparr>dec_ID := ''d0'', dec_Status := AutoSwitchFailed\<rparr>,
     sample_decision\<lparr>dec_Status := AutoSwitchApproved, dec_LeaseUntil := None\<rparr>]\<rparr>"

definition current_preview :: ReconcilePlan where
  "current_preview = \<lparr>rcp_InstanceID = ''i1'', rcp_PlanID = ''plan-1'', rcp_DryRun = True,
     rcp_Actions = [\<lparr>act_Type = ''disable'', act_ChannelID = ''c1'', act_RemoteID = '''', act_Detail = ''''\<rparr>], rcp_CreatedAt = 7\<rparr>"

definition guarded_engine :: Reconciler where
  "guarded_engine = \<lparr>eng_PlanScheduling = \<lambda>g p d s. ((current_preview, None), s),
     eng_ApplyScheduling = \<lambda>g p d s. case g (\<lambda>k. quiet 7) s of
       (None, s) \<Rightarrow> ((current_preview, None), s) | (Some e, s) \<Rightarrow> ((current_preview, Some (orch_error_Error e)), s)\<rparr>"

lemma quiet_keeps [simp]: "event_env (quiet t)" "lease_env (quiet t)"
  by (simp_all add: event_env_def lease_env_def quiet_def by_leases.keep_refl)

lemma guarded_engine_keeps: "engine_keeps runs event_env guarded_engine" "engine_keeps lease_evolves lease_env guarded_engine"
  unfolding engine_keeps_def guarded_engine_def
  by (auto simp: by_leases.keep_refl split: prod.splits option.splits) (metis quiet_keeps snd_conv)+


theorem decisions_keep_to_protocol_witness:
  "find_decision (snd (Execute (\<lambda>k. quiet 7) (\<lambda>k. 7) guarded_engine 0 None ''d1'' approved_store)) ''d0'' =
     Some (sample_decision\<lparr>dec_ID := ''d0'', dec_Status := AutoSwitchFailed\<rparr>)"
proof -
  have "find_decision approved_store ''d0'' = Some (sample_decision\<lparr>dec_ID := ''d0'', dec_Status := AutoSwitchFailed\<rparr>)"
    by (simp add: approved_store_def)
  with decisions_keep_to_protocol [of "\<lambda>k. quiet 7" guarded_engine "snd (Execute (\<lambda>k. quiet 7) (\<lambda>k. 7) guarded_engine 0 None ''d1'' approved_store)"
      "''d1''" _ approved_store _ "\<lambda>k. 7" 0 None]
  show ?thesis by (simp add: guarded_engine_keeps)
qed

definition approved_decision :: AutoSwitchDecision where
  "approved_decision = sample_decision\<lparr>dec_Status := AutoSwitchApproved, dec_LeaseUntil := None\<rparr>"

lemma approved_rows:
  "find_decision approved_store ''d1'' = Some approved_decision" "routePlanIndex ''plan-1'' approved_store = Some lease_plan"
  "\<not> routePlanHasExecutingConnectorTaskLocked ''plan-1'' approved_store" "dec_ID approved_decision = ''d1''" "dec_PlanID approved_decision = ''plan-1''"
  "dec_Status approved_decision = AutoSwitchApproved" "dec_SchedulingGeneration approved_decision = 4" "pln_Status lease_plan = RoutePlanPublished"
  "pln_SchedulingGeneration lease_plan = 4" "dec_LeaseVersion approved_decision = 1" "pln_ID lease_plan = ''plan-1''"
  "rcp_Actions (dec_DryRunResult approved_decision) = []"
  by (simp_all add: approved_store_def approved_decision_def sample_decision_def lease_plan_def lease_store_def routePlanIndex_def
      routePlanHasExecutingConnectorTaskLocked_def sample_scheduler_store_def)

definition claimed_decision :: AutoSwitchDecision where
  "claimed_decision = leased lease_plan 7 autoSwitchApplyingLease approved_decision"

lemma approved_claim:
  "storeCall (quiet 7) (\<lambda>c now. ClaimApprovedAutoSwitchDecision c now ''d1'' autoSwitchApplyingLease) approved_store =
     (Inr (claimed_decision, True), takeLease lease_plan 7 autoSwitchApplyingLease approved_decision approved_store)"
  by (simp add: storeCall_def quiet_def ClaimApprovedAutoSwitchDecision_def autoSwitchLeaseMicros_def autoSwitchApplyingLease_def
      approved_rows claimed_decision_def)

lemma d1_trim: "TrimSpace ''d1'' = ''d1''"
  by (rule TrimSpace_plain) (simp add: plain_def)

lemma claimed_rows:
  "find_decision (takeLease lease_plan 7 autoSwitchApplyingLease approved_decision approved_store) ''d1'' = Some claimed_decision"
  "routePlanIndex ''plan-1'' (takeLease lease_plan 7 autoSwitchApplyingLease approved_decision approved_store) = Some (nextGeneration lease_plan 7)"
  "dec_ID claimed_decision = ''d1''" "dec_PlanID claimed_decision = ''plan-1''" "dec_LeaseVersion claimed_decision = 2"
  "dec_LeaseUntil claimed_decision = Some (7 + autoSwitchApplyingLease)" "dec_Status claimed_decision = AutoSwitchApplying"
  "dec_SchedulingGeneration claimed_decision = 5" "rcp_Actions (dec_DryRunResult claimed_decision) = []"
  using approved_rows by (simp_all add: claimed_decision_def routePlanIndex_def find_put fence_find leased_def wrap64_id in64_def)

lemma claimed_failure:
  "\<exists>r s'. finalizeNote (later 1 (\<lambda>k. quiet 7)) 7 claimed_decision AutoSwitchFailed risk reason note
     (takeLease lease_plan 7 autoSwitchApplyingLease approved_decision approved_store) = (Inr r, s')"
  using claimed_rows approved_rows
  by (simp add: finalizeNote_def finalizedRow_def leaveApplying_def renewApplyingLease_def storeCall_def later_def quiet_def
      RenewAutoSwitchDecisionLease_def TransitionAutoSwitchDecision_def autoSwitchLeaseMicros_def autoSwitchApplyingLease_def leaseAlive_def
      routePlanGeneration_def routePlanIndex_def find_put wrap64_id in64_def Let_def)

theorem stale_approval_applies_nothing_witness:
  "Execute (\<lambda>k. quiet 7) (\<lambda>k. 7) (guarded_engine\<lparr>eng_ApplyScheduling := \<lambda>g p d s. ((current_preview, None), lease_store)\<rparr>) 0 None ''d1'' approved_store =
     Execute (\<lambda>k. quiet 7) (\<lambda>k. 7) guarded_engine 0 None ''d1'' approved_store \<and>
   (\<exists>r s'. Execute (\<lambda>k. quiet 7) (\<lambda>k. 7) guarded_engine 0 None ''d1'' approved_store = (Inr r, s') \<and> dec_Status r = AutoSwitchFailed)"
proof -
  let ?run = "\<lambda>eng. Execute (\<lambda>k. quiet 7) (\<lambda>k. 7) eng 0 None ''d1'' approved_store"
  let ?s1 = "takeLease lease_plan 7 autoSwitchApplyingLease approved_decision approved_store"
  have p: "eng_PlanScheduling guarded_engine (withApplyingSideEffectGuard claimed_decision) (dec_PlanID claimed_decision)
      (executeIntent claimed_decision) ?s1 = ((current_preview, None), ?s1)"
    by (simp add: guarded_engine_def)
  have k: "mset (map schedulingKey (rcp_Actions (dec_DryRunResult claimed_decision))) \<noteq> mset (map schedulingKey (rcp_Actions current_preview))"
    by (simp add: claimed_rows(9) current_preview_def)
  then have "\<not> sameSchedulingActions [] (rcp_Actions current_preview)" by (simp add: sameSchedulingActions_iff claimed_rows(9))
  then have "\<exists>r s'. ?run guarded_engine = (Inr r, s')"
    using claimed_failure p by (simp add: Execute_def d1_trim approved_claim claimed_rows(9) Let_def)
  then show ?thesis
    using stale_approval_applies_nothing [where cs = "\<lambda>k. quiet 7" and i = "''d1''" and nw = "\<lambda>k. 7" and w = 0 and pinned = None
      and f = "\<lambda>g p d s. ((current_preview, None), lease_store)", unfolded d1_trim, OF approved_claim p] k by auto
qed

end
