(* ===== verification/Spec2Isabelle.thy ===== *)
theory Spec2Isabelle
  imports Sample_Runs Rollout_Machine Quality_Circuit Quality_Cohort Health_Store Recovery_Rollout Decision_Repair
begin

text \<open>
  A verification development for the control plane of E2M, the Go monorepo under \<open>src/\<close>
  (\<open>app/e2m-core\<close>, \<open>app/e2m-agent\<close>, \<open>packages/e2m-contracts\<close>).

  \<^bold>\<open>The program.\<close> Core sells pooled upstream capacity to tenants. Money enters a wallet by a
  confirmed payment, a redeem code or an administrator's adjustment; a supply request reserves
  a part of it, is routed to an upstream channel, and is settled by metered tokens,
  conservatively, or released. All of this is kept by the store
  (\<open>app/e2m-core/internal/store\<close>), whose operations run under one mutex. A tenant's hybrid
  allocation says how traffic is split over resource classes. Cost recommendations move
  traffic in stages under a pure state machine (\<open>recommendationrollout\<close>). The strategy
  (\<open>app/e2m-core/internal/strategy\<close>) scores channels from their health snapshots, ranks
  them, opens and closes the circuit of a channel and picks the small cohort of starts that
  probes a recovering one. The scheduler (\<open>autoswitch\<close>) keeps one durable circuit row per
  plan and channel, takes a failing binding out of traffic, probes it, and lets it back in
  stages of 10, 25, 50 and 100 percent of the customers of the source. A switch of a plan from
  one channel to another is a decision, which a worker carries out under a lease and a fence,
  the scheduling generation of the plan. Several workers run side by side and meet in the
  version numbers of the rows and leases.

  \<^bold>\<open>The theories and the code they model.\<close>
  \<^item> \<open>E2M_Prelude\<close>: what the code uses of Go: 64-bit wrap-around, time, strings, decimal
    numerals, maps as association lists, sorting with a comparator, pages; reachability and
    the interface locales \<open>strict_weak_order\<close>, \<open>invariant_system\<close>, \<open>exactly_once\<close>.
  \<^item> \<open>Store_Types\<close>: the contracts of \<open>packages/e2m-contracts\<close> and the fields of
    \<open>MemoryStore\<close> (\<open>memory.go\<close>).
  \<^item> \<open>Wallet_Ledger\<close>: the wallet part of \<open>memory_hybrid_supply.go\<close>: \<open>AdjustWalletBalance\<close>,
    \<open>appendWalletJournalLocked\<close>, \<open>appendSupplySettlementJournalLocked\<close>, the queries; the
    account balances of the journal and the locale \<open>ledger_view\<close>.
  \<^item> \<open>Payment_Orders\<close>: \<open>memory_payment_order.go\<close> and \<open>payment_order_validation.go\<close>.
  \<^item> \<open>Redeem_Codes\<close>: \<open>memory_redeem.go\<close>.
  \<^item> \<open>Hybrid_Allocation\<close>: the allocation rules and \<open>CompileEffectiveAllocation\<close> of
    \<open>hybrid_supply.go\<close> and their store operations.
  \<^item> \<open>Supply_Catalog\<close>: virtual keys, channel endpoints, candidates, statistics, ranking and
    the model catalog of \<open>memory_hybrid_supply.go\<close>.
  \<^item> \<open>Supply_Settlement\<close>: \<open>ReserveSupplyRequest\<close> and the settlements of the same file.
  \<^item> \<open>Store_System\<close>: any sequence of the store's operations as the inductive relation
    \<open>store_step\<close>, its part \<open>exact_step\<close> in which no amount leaves 64 bits, their invariants,
    and the abstract ledger that \<open>exact_step\<close> refines.
  \<^item> \<open>Sample_Runs\<close>: concrete runs of the store, and what its operations say of them, with a
    run outside of \<open>exact_step\<close> whose books are wrong.
  \<^item> \<open>Rollout_Machine\<close>: \<open>recommendation_rollout.go\<close>, \<open>state_machine.go\<close>, \<open>stages.go\<close>.
  \<^item> \<open>Go_Float\<close>: Go's \<open>float64\<close> by correct rounding of reals, with infinities and NaN.
  \<^item> \<open>Strategy_Types\<close>: the health, strategy and runtime contracts of
    \<open>channel_health.go\<close> and \<open>route_strategy.go\<close>, and the data of \<open>strategy.go\<close>.
  \<^item> \<open>Channel_Runtime\<close>: the lifecycle of a channel and the damping of switches
    (\<open>statemachine.go\<close>).
  \<^item> \<open>Quality_Penalty\<close>: the gates, scores, deductions and rankings (\<open>config.go\<close>,
    \<open>engine.go\<close>, \<open>penalty.go\<close>, \<open>preference.go\<close>).
  \<^item> \<open>Quality_Circuit\<close>: the circuit of a channel and its cooldown (\<open>circuit.go\<close>).
  \<^item> \<open>Quality_Cohort\<close>: recovery and preference cohorts, with the SHA-1 they hash by.
  \<^item> \<open>Health_Aggregate\<close>: from observations to a health snapshot (\<open>aggregate.go\<close> of
    \<open>healthmetrics\<close>).
  \<^item> \<open>Health_Store\<close>: the observation, snapshot and fact-version tables (\<open>memory_health.go\<close>
    and the fact lineage of the upstream-intelligence store), \<open>service.go\<close> and the sweep of
    \<open>runner.go\<close>.
  \<^item> \<open>Versioned_Table\<close>: the locale \<open>versioned_table\<close>, what a table of rows with a version
    owes its writers: a version is written once, and a write replaces the row that was read.
  \<^item> \<open>Circuit_Store\<close>: the circuit rows of \<open>memory_quality_circuit.go\<close>, an instance of it.
  \<^item> \<open>Circuit_Scheduler\<close>: ejection with its retries, crash repair, claims, probe results and
    restores (\<open>quality_circuit.go\<close>, \<open>recovery.go\<close>, \<open>manual_recovery.go\<close>, \<open>ManualRecover\<close>).
  \<^item> \<open>Recovery_Rollout\<close>: the strategy of a plan, the probing sweep and the staged re-entry
    (\<open>recovery.go\<close>, \<open>recovery_rollout.go\<close>); the events of a row and their interleavings.
  \<^item> \<open>Decision_Store\<close>: route plans with their scheduling generation, switch decisions with
    their leases and the fences between them (\<open>memory_upstream.go\<close>, \<open>auto_switch_lease.go\<close>,
    \<open>auto_switch_supersede.go\<close>, \<open>connector_plan_fence.go\<close>); the moves of a lease as the
    inductive relation \<open>lease_move\<close>, and that every operation is one.
  \<^item> \<open>Switch_Actions\<close>: \<open>Approve\<close>, \<open>Reject\<close> and \<open>Execute\<close> of \<open>operator_actions.go\<close>,
    \<open>Observe\<close>, \<open>ObservePending\<close> and \<open>finalizeNote\<close> of \<open>orchestrator.go\<close>.
  \<^item> \<open>Decision_Repair\<close>: the repair of abandoned decisions (\<open>decision_repair.go\<close>); the locale
    \<open>store_contract\<close>, a relation between stores that the store calls keep, under which every
    operation on decisions keeps it, interpreted for the events of the circuits
    (\<open>by_events\<close>) and for the moves of the leases (\<open>by_leases\<close>).

  An operation that changes the store is a function from the clock, the arguments and the
  store to a result and the store, with every error return as a value of \<open>store_error\<close>; the
  clock \<open>nw i\<close> is the \<open>i\<close>-th reading of \<open>s.now()\<close> in the call. \<open>net/url\<close> parsing, which the
  repository does not define, is the parameter \<open>urlParse\<close>. A formatted message is kept as its
  format string and arguments. Where several store calls make up one operation (a
  recompute, a sweep), the answers of the context and of the clock are arguments
  indexed by the call. In the scheduler every store call carries, besides, a step
  \<open>call_env\<close> of the other workers that runs before it, so a theorem with no assumption
  on it holds under every interleaving; where the theorem needs one, the others are
  assumed to use the same store (\<open>calls_ok\<close>) or to keep to the same events
  (\<open>event_calls\<close>, \<open>lease_env\<close>), which the sweep and the operations on decisions are
  shown to do themselves. The publish engine, the prober, the
  order of a range over a map and the secret-looking test of \<open>connector_validation.go\<close> (a
  regular expression) are arguments.

  \<^bold>\<open>What is shown.\<close> Over every reachable state of the store: holds are accounted for,
  payments, redeem codes and reservations take effect at most once, and closed orders are
  final; and as long as no metered charge overflows 64 bits and no adjustment is
  \<open>math.MinInt64\<close>, balances are what the journal says, journals balance, the books close, and
  every step is a step of the abstract ledger. Per component: payment decimals are read and
  printed exactly; the effective allocation respects
  its bounds; concurrent allocation writers have one winner; the rollout machine follows its
  specification, expands traffic only on full evidence, and completes when the environment
  cooperates. A retried settlement, confirmation or adjustment changes nothing, a
  reservation stays within every limit, and the pages of a listing partition it. The score
  of a channel is between 0 and 100 and monotone in its evidence, the ranking never puts a
  gated channel first, a channel recovers and a circuit
  closes only through every step, cooldowns are bounded, and a cohort leaves a holdout. An
  aggregated snapshot is in range, an unhealthy channel is gated by the ranking unless
  it is so for an authentication or balance failure, a sweep never loses evidence, and a recompute of a scope reads and writes that scope alone. An
  ejection is one atomic change among any interference and its retry loop ends, a probe has
  one owner, traffic returns only after three good probes in a row or on an operator's request
  in every interleaving, the sweep keeps to the events this is shown for, and a stage expands
  exactly when every selected member has been seen for its whole window with enough good
  observations in the store. A plan has one owner at
  a time, a lost lease stays lost, a resolved decision is frozen, an approval covers exactly
  the actions that were approved, and the operations on decisions keep to the two protocols
  under interference.

  \<^bold>\<open>Bounds.\<close> Integers are unbounded \<open>int\<close> with the wrap-around of \<open>int64\<close> written out, so no
  theorem assumes that sums stay in range unless it says so (\<open>in64\<close>, \<open>charge_fits\<close>,
  \<open>exact_step\<close>). No
  definition uses fuel: every loop is structural or has a measure. A \<open>float64\<close> is a real of
  the format or one of \<open>PInf\<close>, \<open>NInf\<close>, \<open>NaN\<close>; the sign of zero is not represented, and a
  conversion to an integer out of range gives the least \<open>int64\<close>, as it does on amd64.

  \<^bold>\<open>Not modelled.\<close> The HTTP layer, the gateway adapters, the agent and the other I/O; the
  Postgres store, which implements the same operations as SQL; the rollout's controller and
  worker, the fact collection; the pools, channels and bindings of \<open>memory_upstream.go\<close>; of
  automatic switching, the evaluation of a plan that proposes a decision and the cohort
  queries; notifications, which change no state.
\<close>

section \<open>The money\<close>

text \<open>The theorems C1, C2, C3 and C5 are about the states and steps of \<open>exact_step\<close>: all operations of the
  store, as long as no metered settlement's price times tokens leaves 64 bits (\<open>charge_fits\<close>) and no
  adjustment is by \<open>math.MinInt64\<close>. The code has no guard for either, and without it the theorems fail:
  \<open>overflow_breaks_books\<close> in \<open>Sample_Runs\<close> is a run. All other theorems about runs of the store are
  about \<open>store_step\<close>, which has no such condition.\<close>

text \<open>C1. In every state the store can reach, as long as no metered charge overflows 64 bits and no
  adjustment is \<open>math.MinInt64\<close>, each wallet's available and reserved balances are what the journal says
  its two accounts hold, modulo the wrap-around of 64 bits; while the journal's figure fits 64 bits they
  are equal to it.\<close>

theorem wallet_matches_journal:
  assumes "reach store_init exact_step s"
  shows "available s k = wrap64 (acct_balance WalletAccountUserAvailable s k) \<and>
         reserved s k = wrap64 (acct_balance WalletAccountUserReserved s k) \<and>
         (in64 (acct_balance WalletAccountUserAvailable s k) \<longrightarrow>
            available s k = acct_balance WalletAccountUserAvailable s k) \<and>
         (in64 (acct_balance WalletAccountUserReserved s k) \<longrightarrow>
            reserved s k = acct_balance WalletAccountUserReserved s k)"
  using avail.reach_agree [OF assms] avail.reach_agree_exact [OF assms]
    resv.reach_agree [OF assms] resv.reach_agree_exact [OF assms] by simp

theorem wallet_matches_journal_witness:
  "available funded_store (walletMapKey 7 ''USD'') = 5000000 \<and>
   acct_balance WalletAccountUserAvailable funded_store (walletMapKey 7 ''USD'') = 5000000 \<and>
   available funded_store (walletMapKey 7 ''USD'') =
     wrap64 (acct_balance WalletAccountUserAvailable funded_store (walletMapKey 7 ''USD'')) \<and>
   wrap64 (acct_balance WalletAccountUserReserved reserved_store (walletMapKey 7 ''USD'')) = 1000000"
  using wallet_matches_journal [OF exact_funded] wallet_matches_journal [OF exact_reserved] funded_values reserved_views(4) by simp

text \<open>C2. As long as no metered charge overflows 64 bits and no adjustment is \<open>math.MinInt64\<close>, every
  journal in every reachable state passes the contract's own check \<open>Balanced\<close>, and its signed entries add
  up to zero without any wrap-around.\<close>

theorem journals_always_balanced:
  assumes "reach store_init exact_step s" and "j \<in> set (walletJournals s)"
  shows "Balanced j \<and> sum_list (map entry_amount (wjnl_Entries j)) = 0"
  using exact.reach_inv [OF assms(1)] assms(2)
  by (auto simp: books_ok_def journals_ok_def list_all_iff journal_exact_def)

theorem journals_always_balanced_witness:
  "walletJournals funded_store \<noteq> [] \<and> Balanced (hd (walletJournals funded_store))"
proof -
  have ne: "walletJournals funded_store \<noteq> []" using funded_values(3) by auto
  show ?thesis using ne journals_always_balanced [OF exact_funded hd_in_set [OF ne]] by simp
qed

text \<open>C3. No money appears or vanishes: in every reachable state, as long as no metered charge overflows
  64 bits and no adjustment is \<open>math.MinInt64\<close>, the five accounts of a wallet's books (platform cash,
  available, reserved, revenue, owed upstream) sum to zero.\<close>

theorem books_close:
  assumes "reach store_init exact_step s"
  shows "acct_balance WalletAccountPlatformCash s k + acct_balance WalletAccountUserAvailable s k +
         acct_balance WalletAccountUserReserved s k + acct_balance WalletAccountPlatformRevenue s k +
         acct_balance WalletAccountUpstreamPayable s k = 0"
proof -
  have "journals_ok s" using exact.reach_inv [OF assms] by (simp add: books_ok_def)
  then show ?thesis by (rule journals_ok_close)
qed

theorem books_close_witness:
  "acct_balance WalletAccountUserAvailable funded_store (walletMapKey 7 ''USD'') = 5000000 \<and>
   acct_balance WalletAccountPlatformCash funded_store (walletMapKey 7 ''USD'') +
     acct_balance WalletAccountUserReserved funded_store (walletMapKey 7 ''USD'') +
     acct_balance WalletAccountPlatformRevenue funded_store (walletMapKey 7 ''USD'') +
     acct_balance WalletAccountUpstreamPayable funded_store (walletMapKey 7 ''USD'') = - 5000000"
  using books_close [OF exact_funded, of "walletMapKey 7 ''USD''"] funded_values(2) by simp

text \<open>C4. A hold is released or settled exactly once and none is lost, in every reachable state and
  whatever is charged: the sum of a wallet's active reservations is never negative, and its reserved
  balance is that sum modulo the wrap-around of 64 bits, so equal to it and not negative whenever the sum
  fits.\<close>

theorem reserved_is_active_holds:
  assumes "reach store_init store_step s"
  shows "0 \<le> held s k \<and> reserved s k = wrap64 (held s k) \<and>
         (in64 (held s k) \<longrightarrow> reserved s k = held s k \<and> 0 \<le> reserved s k)"
  using holds.reach_agree [OF assms, of k] held_nonneg [OF store.reach_inv [OF assms], of k] by (simp add: wrap64_id)

theorem reserved_is_active_holds_witness:
  "reserved reserved_store (walletMapKey 7 ''USD'') = 1000000 \<and>
   reserved reserved_store (walletMapKey 7 ''USD'') = held reserved_store (walletMapKey 7 ''USD'')"
  using reserved_is_active_holds [OF reach_reserved, of "walletMapKey 7 ''USD''"] reserved_held by (simp add: in64_def)

text \<open>C5. Refinement: every step of the store whose amounts stay within 64 bits (no metered charge
  overflows, no adjustment is \<open>math.MinInt64\<close>), seen through the journal, is a step of the abstract ledger
  (deposit, funded withdrawal, funded hold, end of a hold) or leaves it alone.\<close>

theorem store_refines_ledger:
  assumes "reach store_init exact_step s" and "exact_step s t"
  shows "ledger_spec\<^sup>=\<^sup>= (abs_ledger s) (abs_ledger t)"
proof (rule money_effect_refines)
  show "money_effect s t"
    using exact_step_facts [OF _ assms(2)] exact.reach_inv [OF assms(1)] by (simp add: books_ok_def)
  show "available s k = wrap64 (fst (abs_ledger s) k)" for k
    using avail.reach_agree [OF assms(1)] by (simp add: abs_ledger_def)
qed

theorem store_refines_ledger_witness:
  "ledger_spec\<^sup>=\<^sup>= (abs_ledger sample_store) (abs_ledger funded_store) \<and> abs_ledger sample_store \<noteq> abs_ledger funded_store"
proof -
  have "exact_step sample_store funded_store"
    unfolding funded_store_def by (rule exact_adjust, rule prod.collapse [symmetric]) (simp_all add: in64_def)
  note store_refines_ledger [OF exact_sample this]
  moreover have "abs_ledger sample_store \<noteq> abs_ledger funded_store"
  proof
    assume "abs_ledger sample_store = abs_ledger funded_store"
    then have "fst (abs_ledger sample_store) (walletMapKey 7 ''USD'') = fst (abs_ledger funded_store) (walletMapKey 7 ''USD'')"
      by simp
    then show False using funded_values(2)
      by (simp add: abs_ledger_def acct_balance_def sample_store_def NewMemoryStore_def)
  qed
  ultimately show ?thesis by blast
qed

section \<open>At most once\<close>

text \<open>C6. A payment order is credited at most once, however often its callbacks are delivered
  and whatever else runs in between; while an order is still pending it has not been credited.\<close>

theorem payment_credited_at_most_once:
  assumes "reach store_init store_step s"
  shows "posts_for WalletJournalRecharge s i \<le> 1 \<and>
         (order_open s i \<longrightarrow> posts_for WalletJournalRecharge s i = 0)"
  by (rule recharge.reach_once [OF assms])

theorem payment_credited_at_most_once_witness:
  "posts_for WalletJournalRecharge paid_store (mkID ''payord'' 1) = 1 \<and> \<not> order_open paid_store (mkID ''payord'' 1)"
  using payment_credited_at_most_once [OF reach_paid, of "mkID ''payord'' 1"] paid_values by auto

text \<open>C7. A redeem code is credited at most once: of any number of concurrent redemptions one
  wins, and a code that is not used has never been credited.\<close>

theorem code_redeemed_at_most_once:
  assumes "reach store_init store_step s"
  shows "posts_for WalletJournalRedeem s i \<le> 1 \<and> (code_open s i \<longrightarrow> posts_for WalletJournalRedeem s i = 0)"
  by (rule redeem.reach_once [OF assms])

theorem code_redeemed_at_most_once_witness:
  "posts_for WalletJournalRedeem redeemed_store (mkID ''redeem'' 1) = 1 \<and> \<not> code_open redeemed_store (mkID ''redeem'' 1)"
  using code_redeemed_at_most_once [OF reach_redeemed, of "mkID ''redeem'' 1"] redeemed_values by auto

text \<open>C8. A reservation is charged at most once and gives its rest back at most once, over any
  sequence of settlements, conservative settlements and releases; once charged, later runs of
  the store never charge it again.\<close>

theorem reservation_settled_at_most_once:
  assumes "reach store_init store_step s"
  shows "posts_for WalletJournalSettle s i \<le> 1 \<and> posts_for WalletJournalRelease s i \<le> 1 \<and>
         (reservation_open s i \<longrightarrow> posts_for WalletJournalSettle s i = 0 \<and> posts_for WalletJournalRelease s i = 0) \<and>
         (\<forall>t. posts_for WalletJournalSettle s i = 1 \<and> store_step\<^sup>*\<^sup>* s t \<longrightarrow> posts_for WalletJournalSettle t i = 1)"
  using settled.reach_once [OF assms, of i] released.reach_once [OF assms, of i] settled.run_once [OF assms]
  by blast

theorem reservation_settled_at_most_once_witness:
  "posts_for WalletJournalSettle settled_store (mkID ''wres'' 1) = 1 \<and>
   posts_for WalletJournalRelease settled_store (mkID ''wres'' 1) = 1 \<and>
   \<not> reservation_open settled_store (mkID ''wres'' 1) \<and>
   reservation_open reserved_store (mkID ''wres'' 1) \<and> posts_for WalletJournalSettle reserved_store (mkID ''wres'' 1) = 0 \<and>
   posts_for WalletJournalSettle (snd (ReleaseSupplyRequest (\<lambda>_. 9) None (mkID ''wres'' 1) ''r'' sample_telemetry settled_store)) (mkID ''wres'' 1) = 1"
proof -
  let ?i = "mkID ''wres'' 1" and ?t = "snd (ReleaseSupplyRequest (\<lambda>_. 9) None (mkID ''wres'' 1) ''r'' sample_telemetry settled_store)"
  have o: "reservation_open reserved_store ?i" using reserved_views(1)
    by (simp add: reservation_open_def sample_reservation_def newReservation_def)
  note r = reservation_settled_at_most_once [OF reach_reserved, of ?i]
  note s = reservation_settled_at_most_once [OF reach_settled, of ?i]
  have z: "posts_for WalletJournalSettle reserved_store ?i = 0" "posts_for WalletJournalRelease reserved_store ?i = 0"
    using r o by blast+
  then have p: "posts_for WalletJournalSettle settled_store ?i = 1" "posts_for WalletJournalRelease settled_store ?i = 1"
    by (simp_all add: settled_posts)
  have "store_step\<^sup>*\<^sup>* settled_store ?t"
    by (rule r_into_rtranclp, rule other, rule release, rule prod.collapse [symmetric])
  then have "posts_for WalletJournalSettle ?t ?i = 1" using s p(1) by blast
  moreover have "\<not> reservation_open settled_store ?i" using s p(1) by force
  ultimately show ?thesis using o p z(1) by blast
qed

section \<open>Lifecycles\<close>

text \<open>C9. An order that is not pending is final: no later operation changes any field of it.\<close>

theorem settled_order_is_final:
  assumes "reach store_init store_step s" and "store_step\<^sup>*\<^sup>* s t"
    and "x \<in> set (paymentOrders s)" and "po_Status x \<noteq> PaymentOrderPending"
  shows "x \<in> set (paymentOrders t)"
  using assms(2,1,3)
proof (induction rule: rtranclp_induct)
  case (step t u)
  have "store_ok t" using store.reach_inv [OF reach_rtrancl [OF step.prems(1) step.hyps(1)]] .
  then have "orders_evolve (paymentOrders t) (paymentOrders u)"
    using store_step_facts step.hyps(2) by (simp add: step_facts_def)
  from this step.IH [OF step.prems] obtain y where "y \<in> set (paymentOrders u)" "order_kept x y"
    by (rule orders_evolve_keeps)
  then show ?case using assms(4) by (simp add: order_kept_def)
qed

theorem settled_order_is_final_witness:
  "completedOrder (trimNotification sample_notification) 3 stored_order \<in>
     set (paymentOrders (snd (ConfirmRechargePayment (\<lambda>_. 9) None sample_notification ''b'' paid_store)))"
proof (rule settled_order_is_final [OF reach_paid])
  show "store_step\<^sup>*\<^sup>* paid_store (snd (ConfirmRechargePayment (\<lambda>_. 9) None sample_notification ''b'' paid_store))"
    by (rule r_into_rtranclp, rule other, rule confirm, rule prod.collapse [symmetric])
qed (simp_all add: paid_values completedOrder_def)

text \<open>A used redeem code is final: it is never deleted, re-enabled or given another user.\<close>

theorem used_code_is_final:
  assumes "reach store_init store_step s" and "store_step\<^sup>*\<^sup>* s t"
    and "x \<in> set (redeemCodes s)" and "rc_Status x = RedeemCodeUsed"
  shows "x \<in> set (redeemCodes t)"
  using assms(2,1,3)
proof (induction rule: rtranclp_induct)
  case (step t u)
  have "store_ok t" using store.reach_inv [OF reach_rtrancl [OF step.prems(1) step.hyps(1)]] .
  then have "used_kept t u" using store_step_facts step.hyps(2) by (simp add: step_facts_def)
  then show ?case using step.IH [OF step.prems] assms(4) by (simp add: used_kept_def)
qed

theorem used_code_is_final_witness:
  "hd (redeemCodes redeemed_store) \<in>
     set (redeemCodes (snd (DeleteUnusedRedeemCode None (mkID ''redeem'' 1) redeemed_store)))"
proof (rule used_code_is_final [OF reach_redeemed])
  show "store_step\<^sup>*\<^sup>* redeemed_store (snd (DeleteUnusedRedeemCode None (mkID ''redeem'' 1) redeemed_store))"
    by (rule r_into_rtranclp, rule other, rule delete_code, rule prod.collapse [symmetric])
qed (simp_all add: redeemed_codes)

section \<open>Retries\<close>

text \<open>A retried payment callback is idempotent: after a confirmation that credited the wallet,
  the same callback returns the same order and wallet, reports that nothing was credited, and
  changes nothing.\<close>

theorem confirmation_is_idempotent:
  assumes "reach store_init store_step s"
    and "ConfirmRechargePayment nw c notification body s = (Inr (x, w, True), t)"
  shows "ConfirmRechargePayment nw' None notification body t = (Inr (x, w, False), t)"
  using store.reach_inv [OF assms(1)] ConfirmRechargePayment_again [OF _ assms(2)] by (simp add: store_ok_def)

theorem confirmation_is_idempotent_witness:
  "snd (ConfirmRechargePayment (\<lambda>_. 9) None sample_notification ''b'' paid_store) = paid_store"
proof -
  obtain x w where "ConfirmRechargePayment (\<lambda>_. 3) None sample_notification ''b'' ordered_store = (Inr (x, w, True), paid_store)"
    by (rule paid_run)
  from confirmation_is_idempotent [OF reach_ordered this] show ?thesis by simp
qed

text \<open>A retried adjustment is idempotent: a call with the user and the key of an adjustment that
  succeeded returns the same wallet and journal and changes nothing, whatever its amount.\<close>

theorem AdjustWalletBalance_idempotent:
  assumes run: "AdjustWalletBalance nw c u currency delta key note1 s = (Inr (w, j), t)"
    and "delta' \<noteq> 0" "length (TrimSpace note') \<le> 500"
  shows "AdjustWalletBalance nw' None u currency delta' key note' t = (Inr (w, j), t)"
proof -
  let ?cur = "ToUpper (TrimSpace currency)" and ?ik = "TrimSpace key"
  let ?p = "\<lambda>j. wjnl_UserID j = u \<and> wjnl_IdempotencyKey j = ?ik"
  have ok: "0 < u" "validCurrency ?cur" "?ik \<noteq> ''''" "length ?ik \<le> 128"
    using run by (auto simp: AdjustWalletBalance_def Let_def split: option.splits if_splits)
  have "find ?p (walletJournals t) = Some j \<and> w = walletAt t (walletMapKey u ?cur)"
    using run
  proof (cases rule: AdjustWalletBalance_cases)
    case (posted cur ik n j')
    have "j = fst (adjust_posting nw u ?cur delta ?ik n s)" "t = snd (adjust_posting nw u ?cur delta ?ik n s)"
      "w = walletAt t (walletMapKey u ?cur)" using posted by simp_all
    moreover have "walletJournals (snd (adjust_posting nw u ?cur delta ?ik n s)) =
        walletJournals s @ [fst (adjust_posting nw u ?cur delta ?ik n s)]" "?p (fst (adjust_posting nw u ?cur delta ?ik n s))"
      by (simp_all add: adjust_posting_def)
    ultimately show ?thesis using posted by (simp add: find_append)
  next
    case unchanged
    show ?thesis
    proof (cases "find ?p (walletJournals s)")
      case None
      then have "walletJournals t \<noteq> walletJournals s"
        using run by (auto simp: AdjustWalletBalance_def Let_def split_def split: option.splits if_splits)
      then show ?thesis using unchanged by simp
    next
      case (Some j')
      then show ?thesis using run ok unchanged
        by (auto simp: AdjustWalletBalance_def Let_def split: option.splits if_splits)
    qed
  qed
  then show ?thesis using ok assms(2,3) by (simp add: AdjustWalletBalance_def Let_def)
qed

theorem AdjustWalletBalance_idempotent_witness:
  "snd (AdjustWalletBalance (\<lambda>_. 9) None 7 ''USD'' 123 ''k'' ''n'' funded_store) = funded_store"
proof -
  obtain w j where "AdjustWalletBalance (\<lambda>_. 1) None 7 ''USD'' 5000000 ''k'' ''n'' sample_store = (Inr (w, j), funded_store)"
    by (simp add: funded_store_def AdjustWalletBalance_def sample_defs)
  from AdjustWalletBalance_idempotent [OF this, of 123 "''n''" "\<lambda>_. 9"] show ?thesis by (simp add: TrimSpace_plain plain_def)
qed

text \<open>C29. A second settlement of a reservation, of whatever kind, reports the first one's charge and
  changes nothing.\<close>

theorem settlement_is_idempotent:
  assumes "settleSupplyLocked nw i p q rel cons reason tel s = (Inr res, t)"
    and "reach store_init store_step s"
  shows "\<exists>res'. settleSupplyLocked nw' i p' q' rel' cons' reason' tel' t = (Inr res', t) \<and>
    stl_ChargedMicros res' = stl_ChargedMicros res \<and> stl_Reservation res' = stl_Reservation res"
  using assms(1)
proof (cases rule: settleSupplyLocked_cases)
  case (replayed rv res')
  then show ?thesis by (auto simp: settleSupplyLocked_def Let_def)
next
  case (closed rv ch sp res')
  have "supply_ok s" using store.reach_inv [OF assms(2)] by (simp add: store_ok_def)
  then have id: "wres_ID rv = i" using closed by (simp add: supply_ok_def reservation_ok_def)
  note st = settleCommit_store [OF closed(5)]
  have "map_of (walletReservations t) i = Some (closedReservation rv ch rel (nw 0))"
    by (simp add: st(1) id update_conv)
  then show ?thesis using closed st(12,13)
    by (simp add: settleSupplyLocked_def Let_def closedReservation_def)
qed (use assms in auto)

theorem settlement_is_idempotent_witness:
  "\<exists>res. settleSupplyLocked (\<lambda>_. 6) (mkID ''wres'' 1) 10 20 False False ''metered'' sample_telemetry reserved_store = (Inr res, settled_store) \<and>
     (\<exists>res'. settleSupplyLocked (\<lambda>_. 9) (mkID ''wres'' 1) 0 0 True False ''late'' sample_telemetry settled_store = (Inr res', settled_store) \<and>
        stl_ChargedMicros res' = stl_ChargedMicros res)"
  using settled_run settlement_is_idempotent [OF _ reach_reserved] by metis

text \<open>A redeemed code is refused for ever: every later attempt of the same user is a conflict
  and changes nothing.\<close>

theorem redeemed_code_is_refused:
  assumes "RedeemBalanceCode nw c h u now s = (Inr (x, w), t)"
  shows "RedeemBalanceCode nw' None h u now' t = (Inl ErrConflict, t)"
  using assms
proof (cases rule: RedeemBalanceCode_cases)
  case (credited y)
  have pre: "0 < u" "TrimSpace h \<noteq> ''''" "(case find (\<lambda>a. user_ID a = u) (users s) of None \<Rightarrow> False | Some a \<Rightarrow> user_Enabled a)"
    using assms by (auto simp: RedeemBalanceCode_def Let_def split: option.splits if_splits)
  have "users t = users s" by (simp add: credited(5) redeemPosting_def Let_def split_def)
  moreover have "find (\<lambda>x. rc_CodeHash x = h) (redeemCodes t) = Some (usedCode u now (nw 0) y)"
    using credited(1) find_SomeD [OF credited(1)]
    by (simp add: credited(5) find_update_first_same usedCode_def)
  ultimately show ?thesis
    using pre credited(2) by (simp add: RedeemBalanceCode_def usedCode_def)
qed (use assms in auto)

theorem redeemed_code_is_refused_witness:
  "RedeemBalanceCode (\<lambda>_. 9) None ''h'' 7 9 redeemed_store = (Inl ErrConflict, redeemed_store)"
proof -
  obtain x w where "RedeemBalanceCode (\<lambda>_. 2) None ''h'' 7 2 coded_store = (Inr (x, w), redeemed_store)"
    by (rule redeemed_run)
  from redeemed_code_is_refused [OF this] show ?thesis .
qed

section \<open>Supply\<close>

text \<open>C27. A reservation is made only for an enabled, unexpired key of an eligible user within the
  user's concurrency, on a candidate the key may use and whose channel is below its
  concurrency; the hold is positive, within the wallet's balance and the endpoint's ceiling,
  and moves exactly that amount from available to reserved.\<close>

theorem reservation_within_limits:
  assumes r: "reach store_init store_step s"
    and run: "ReserveSupplyRequest nw c h rq model cur excluded s = (Inr res, t)" and new: "t \<noteq> s"
  shows "\<exists>key cand u. keyByHash s (TrimSpace h) = Some key \<and> vk_Enabled key \<and> \<not> keyExpired key (nw 0) \<and>
    eligibleUser s (vk_UserID key) = Some u \<and>
    (0 < user_PlatformConcurrency u \<longrightarrow> int (activeForUser s (vk_UserID key)) < user_PlatformConcurrency u) \<and>
    cand \<in> set (eligibleCandidates s key (TrimSpace model) excluded) \<and>
    (0 < ep_MaxConcurrency (cand_Endpoint cand) \<longrightarrow>
       int (activeOnChannel s (chan_ID (cand_Channel cand))) < ep_MaxConcurrency (cand_Endpoint cand)) \<and>
    (let k = walletMapKey (vk_UserID key) (ToUpper (TrimSpace cur)); a = wres_ReservedMicros (rsv_Reservation res) in
     0 < a \<and> a \<le> available s k \<and> a \<le> ep_MaxRequestMicros (cand_Endpoint cand) \<and>
     available t k = available s k - a \<and> reserved t k = wrap64 (reserved s k + a))"
  using run
proof (cases rule: ReserveSupplyRequest_cases)
  case (made key u cand rq' model' cur' m n res')
  let ?k = "walletMapKey (vk_UserID key) cur'" and ?a = "reserve_amount s key cand cur'"
  have ok: "store_ok s" using store.reach_inv [OF r] .
  then have so: "supply_ok s" by (simp add: store_ok_def)
  have adm: "cand \<in> set (eligibleCandidates s key model' excluded)" "0 < available s ?k"
    using made by (auto simp: reserve_admitted_def)
  have in_list: "cand \<in> set (listSupplyCandidatesLocked s (vk_ResourceClass key) model')"
    using adm(1) by (simp add: eligibleCandidates_def)
  note ci = candidate_in [OF in_list]
  have e: "endpoint_ok (cand_Endpoint cand)" "in64 (ep_MaxRequestMicros (cand_Endpoint cand))"
    using ok map_of_SomeD [OF ci(4)] by (fastforce simp: store_ok_def endpoints_ok_def)+
  note C = reserveCommit_ok [OF so e made(4) adm(2) made(14)]
  note st = reserveCommit_store [OF made(14)]
  have b: "books s t ?k (- ?a) ?a" by (rule books_reserve [OF made(14) C(2,3) supply_ok_fresh [OF so]])
  have le: "?a \<le> available s ?k" "?a \<le> ep_MaxRequestMicros (cand_Endpoint cand)" by (simp_all add: reserve_amount_def)
  have i64: "in64 (available s ?k)"
    using ok by (simp add: store_ok_def)
  have "available t ?k = wrap64 (available s ?k + - ?a)" "reserved t ?k = wrap64 (reserved s ?k + ?a)"
    using b C(2) by (simp_all add: books_def)
  moreover have "wrap64 (available s ?k + - ?a) = available s ?k - ?a"
    using i64 le C(2) by (intro trans [OF wrap64_id]) (auto simp: in64_def)
  moreover have "wres_ReservedMicros (rsv_Reservation res) = ?a" using made(12) st(3) by (simp add: newReservation_def)
  ultimately show ?thesis
    using made adm ci(6,7) C(2) le unfolding Let_def by (intro exI [of _ key] exI [of _ cand] exI [of _ u]) auto
qed (use new in auto)

theorem reservation_within_limits_witness:
  "\<exists>res. ReserveSupplyRequest (\<lambda>_. 5) None ''th'' ''q1'' ''m'' ''USD'' [] keyed_store = (Inr res, reserved_store) \<and>
     0 < wres_ReservedMicros (rsv_Reservation res)"
proof -
  obtain res where run: "ReserveSupplyRequest (\<lambda>_. 5) None ''th'' ''q1'' ''m'' ''USD'' [] keyed_store = (Inr res, reserved_store)"
    by (rule reserved_run)
  have "reserved_store \<noteq> keyed_store" using reserved_views(1) keyed_views(2) by auto
  from reservation_within_limits [OF reach_keyed run this] run show ?thesis by (auto simp: Let_def)
qed

text \<open>C28. A metered settlement of an active reservation, for token counts that are not negative and
  whose products with the prices fit 64 bits (\<open>charge_fits\<close>), succeeds and moves the money exactly: it
  charges the token price rounded up, the hold leaves the reserved balance, what the tokens did not use
  returns to the available one (and what they used beyond the hold is taken from it), and the
  reservation is closed with the charge.\<close>

theorem settlement_moves_the_money:
  assumes r: "reach store_init store_step s" and i: "map_of (walletReservations s) i = Some rv"
    and act: "wres_Status rv = WalletReservationActive" and tok: "0 \<le> p" "0 \<le> q" and fits: "charge_fits (usageAt s i) p q"
  shows "\<exists>res t. SettleSupplyRequest nw None i p q tel s = (Inr res, t) \<and>
    stl_ChargedMicros res = metered_charge (usage_InputPriceMicrosPerMillion (usageAt s i))
      (usage_OutputPriceMicrosPerMillion (usageAt s i)) p q \<and>
    available t (walletMapKey (wres_UserID rv) (wres_Currency rv)) =
      wrap64 (available s (walletMapKey (wres_UserID rv) (wres_Currency rv)) + wres_ReservedMicros rv - stl_ChargedMicros res) \<and>
    reserved t (walletMapKey (wres_UserID rv) (wres_Currency rv)) =
      wrap64 (reserved s (walletMapKey (wres_UserID rv) (wres_Currency rv)) - wres_ReservedMicros rv) \<and>
    map_of (walletReservations t) i = Some (closedReservation rv (stl_ChargedMicros res) False (nw 0))"
proof -
  let ?u = "usageAt s i"
  have so: "supply_ok s" using store.reach_inv [OF r] by (simp add: store_ok_def)
  then have rv: "reservation_ok s i rv" using i by (simp add: supply_ok_def)
  then have id: "wres_ID rv = i" and u: "usage_ok ?u"
    by (auto simp: reservation_ok_def usageAt_def split: option.splits)
  note m = settleFigures_metered(1) [OF u tok fits, of rv]
  let ?ch = "metered_charge (usage_InputPriceMicrosPerMillion ?u) (usage_OutputPriceMicrosPerMillion ?u) p q"
  let ?sp = "metered_charge (usage_InputSupplierMicrosPerMillion ?u) (usage_OutputSupplierMicrosPerMillion ?u) p q"
  obtain res t where c: "settleCommit rv ?u ?ch ?sp p q False ''metered'' tel (nw 0) s = (res, t)"
    by (cases "settleCommit rv ?u ?ch ?sp p q False ''metered'' tel (nw 0) s")
  have run: "SettleSupplyRequest nw None i p q tel s = (Inr res, t)"
    using tok i act m c by (simp add: SettleSupplyRequest_def settleSupplyLocked_def Let_def)
  note st = settleCommit_store [OF c]
  have "available t (walletMapKey (wres_UserID rv) (wres_Currency rv)) =
      wrap64 (available s (walletMapKey (wres_UserID rv) (wres_Currency rv)) + wres_ReservedMicros rv - ?ch)"
    "reserved t (walletMapKey (wres_UserID rv) (wres_Currency rv)) =
      wrap64 (reserved s (walletMapKey (wres_UserID rv) (wres_Currency rv)) - wres_ReservedMicros rv)"
    by (simp_all add: available_def reserved_def walletAt_def [of t] st(3) update_conv settleWallet_def add_diff_eq)
  then show ?thesis using run st(1,13) id by (simp add: update_conv)
qed

theorem settlement_moves_the_money_witness:
  "\<exists>res t. SettleSupplyRequest (\<lambda>_. 6) None (mkID ''wres'' 1) 10 20 sample_telemetry reserved_store = (Inr res, t) \<and>
     stl_ChargedMicros res = 180 \<and> available t (walletMapKey 7 ''USD'') = 4999820"
proof -
  have i: "map_of (walletReservations reserved_store) (mkID ''wres'' 1) = Some sample_reservation"
    by (simp add: reserved_views)
  have a: "wres_Status sample_reservation = WalletReservationActive" "wres_UserID sample_reservation = 7"
    "wres_Currency sample_reservation = ''USD''" "wres_ReservedMicros sample_reservation = 1000000"
    by (simp_all add: sample_reservation_def newReservation_def sample_key_def)
  note m = settlement_moves_the_money [OF reach_reserved i a(1) _ _ sample_fits, of "\<lambda>_. 6" sample_telemetry]
  from m [unfolded sample_prices a reserved_views] show ?thesis by (auto simp: metered_charge_def wrap64_def)
qed

theorem ranking_prefers_and_is_stable_witness:
  "\<exists>metric. supplyScore keyed_store 5 SupplyRoutingPriceFirst = Some metric \<and>
     metric (hd (rankSupplyCandidatesLocked keyed_store 5 SupplyRoutingPriceFirst
       [sample_candidate\<lparr>cand_Channel := sample_channel\<lparr>chan_ID := ''c2''\<rparr>\<rparr>, sample_candidate])) \<le> metric sample_candidate"
proof -
  let ?cands = "[sample_candidate\<lparr>cand_Channel := sample_channel\<lparr>chan_ID := ''c2''\<rparr>\<rparr>, sample_candidate]"
  have d: "distinct (map channelOf ?cands)" by (simp add: sample_candidate_def sample_channel_def)
  obtain metric where m: "supplyScore keyed_store 5 SupplyRoutingPriceFirst = Some metric" by (simp add: supplyScore_def)
  from ranking_prefers_and_is_stable [OF d m, of sample_candidate] m show ?thesis by auto
qed

section \<open>Listings\<close>

text \<open>Paging loses and repeats nothing: the pages of a listing, put together, are the selected
  orders sorted newest first.\<close>

theorem order_pages_partition:
  assumes "1 \<le> sz" "sz \<le> 100" "int n * sz < 2 ^ 63"
  shows "\<exists>matches. mset matches = mset (matchedOrders f s) \<and> sorted_wrt (\<lambda>a b. \<not> newerPaymentOrder b a) matches \<and>
    concat (map (\<lambda>p. page_items (ListPaymentOrders None (f\<lparr>pof_Page := int p + 1, pof_PageSize := sz\<rparr>) s)) [0..<n]) =
      take (n * nat sz) matches"
proof -
  let ?matches = "go_sort newerPaymentOrder (matchedOrders f s)"
  have page: "page_items (ListPaymentOrders None (f\<lparr>pof_Page := int p + 1, pof_PageSize := sz\<rparr>) s) =
      the (page_slice (int p + 1) sz ?matches)" if p: "p < n" for p
  proof -
    have "(int p + 1) * sz \<le> int n * sz" using p assms(1) by (intro mult_right_mono) auto
    then show ?thesis using assms by (intro page_of_orders) linarith+
  qed
  have "concat (map (\<lambda>p. page_items (ListPaymentOrders None (f\<lparr>pof_Page := int p + 1, pof_PageSize := sz\<rparr>) s)) [0..<n]) =
      concat (map (\<lambda>p. the (page_slice (int p + 1) sz ?matches)) [0..<n])"
    by (intro arg_cong [of _ _ concat] map_cong) (simp_all add: page)
  also have "\<dots> = take (n * nat sz) ?matches" by (rule page_slices_concat [OF assms(1,3)])
  finally show ?thesis using order_list.sorted_go_sort [of "matchedOrders f s"] by (intro exI [of _ ?matches]) simp
qed

theorem order_pages_partition_witness:
  "\<exists>matches. mset matches = mset (matchedOrders sample_filter paid_store) \<and>
     concat (map (\<lambda>p. page_items (ListPaymentOrders None (sample_filter\<lparr>pof_Page := int p + 1, pof_PageSize := 1\<rparr>) paid_store)) [0..<2]) =
       take (2 * nat 1) matches \<and> length matches = 1"
proof -
  have one: "length (matchedOrders sample_filter paid_store) = 1"
    by (simp add: matchedOrders_def paid_values matchesPaymentOrder_def sample_filter_def ToLower_def)
  obtain matches where m: "mset matches = mset (matchedOrders sample_filter paid_store)"
    "concat (map (\<lambda>p. page_items (ListPaymentOrders None (sample_filter\<lparr>pof_Page := int p + 1, pof_PageSize := 1\<rparr>) paid_store)) [0..<2]) =
       take (2 * nat 1) matches"
    using order_pages_partition [of 1 2 sample_filter paid_store] by auto
  from m(1) one have "length matches = 1" by (metis size_mset)
  with m show ?thesis by blast
qed

end
